(* ===== verification/Prelude.thy ===== *)
theory Prelude
  imports Main "HOL-Library.Word"
begin

text \<open>
  Shared vocabulary of the development: the Rust integer types as fixed-width words, the
  Rust integer operations the sources call (\<open>checked_add\<close>, \<open>overflowing_add\<close>,
  \<open>saturating_sub\<close>, \<open>to_le_bytes\<close>, \<open>from_be_bytes\<close>), the error-result
  plumbing behind the \<open>?\<close> operator, and the generic lemmas on words and lists that
  the component theories reuse.
\<close>

unbundle bit_operations_syntax

section \<open>Integer types and Rust integer operations\<close>

type_synonym u8 = "8 word"
type_synonym u16 = "16 word"
type_synonym u32 = "32 word"
type_synonym u64 = "64 word"
type_synonym u128 = "128 word"

named_theorems rust_int \<open>definitions of the Rust integer operations\<close>

definition checked_add :: "'a::len word \<Rightarrow> 'a word \<Rightarrow> 'a word option" where
  [rust_int]: "checked_add x y = (if unat x + unat y < 2 ^ LENGTH('a) then Some (x + y) else None)"

definition checked_sub :: "'a::len word \<Rightarrow> 'a word \<Rightarrow> 'a word option" where
  [rust_int]: "checked_sub x y = (if y \<le> x then Some (x - y) else None)"

definition saturating_sub :: "'a::len word \<Rightarrow> 'a word \<Rightarrow> 'a word" where
  [rust_int]: "saturating_sub x y = (if y \<le> x then x - y else 0)"

definition saturating_add :: "'a::len word \<Rightarrow> 'a word \<Rightarrow> 'a word" where
  [rust_int]: "saturating_add x y = (if unat x + unat y < 2 ^ LENGTH('a) then x + y else - 1)"

definition saturating_mul :: "'a::len word \<Rightarrow> 'a word \<Rightarrow> 'a word" where
  [rust_int]: "saturating_mul x y = (if unat x * unat y < 2 ^ LENGTH('a) then x * y else - 1)"

definition overflowing_add :: "'a::len word \<Rightarrow> 'a word \<Rightarrow> 'a word \<times> bool" where
  [rust_int]: "overflowing_add x y = (x + y, 2 ^ LENGTH('a) \<le> unat x + unat y)"

definition overflowing_sub :: "'a::len word \<Rightarrow> 'a word \<Rightarrow> 'a word \<times> bool" where
  [rust_int]: "overflowing_sub x y = (x - y, x < y)"

text \<open>\<open>u8::from(bool)\<close> and the casts \<open>b as u64\<close>, \<open>b as u32\<close>.\<close>

definition word_of_bool :: "bool \<Rightarrow> 'a::len word" where
  [rust_int]: "word_of_bool b = (if b then 1 else 0)"

text \<open>
  \<open>u16::from_be_bytes\<close>, \<open>u16::from_le_bytes\<close> and \<open>to_be_bytes\<close> of a \<open>u16\<close>;
  \<open>to_le_bytes\<close> of any width is the list of its bytes, least significant first.
\<close>

definition u16_from_be :: "u8 \<Rightarrow> u8 \<Rightarrow> u16" where
  "u16_from_be hi lo = push_bit 8 (ucast hi) OR ucast lo"

definition u16_from_le :: "u8 \<Rightarrow> u8 \<Rightarrow> u16" where
  "u16_from_le lo hi = u16_from_be hi lo"

definition u16_high :: "u16 \<Rightarrow> u8" where
  "u16_high w = ucast (drop_bit 8 w)"

definition u16_low :: "u16 \<Rightarrow> u8" where
  "u16_low w = ucast w"

definition to_le_bytes :: "'a::len word \<Rightarrow> u8 list" where
  "to_le_bytes w = map (\<lambda>i. ucast (drop_bit (8 * i) w)) [0..<LENGTH('a) div 8]"

primrec from_le_bytes :: "u8 list \<Rightarrow> 'a::len word" where
  "from_le_bytes [] = 0"
| "from_le_bytes (b # bs) = ucast b OR push_bit 8 (from_le_bytes bs)"

section \<open>Results\<close>

text \<open>
  A Rust \<open>Result<T, E>\<close> is the sum \<open>'e + 'a\<close> with the error on the left; \<open>and_then\<close>
  is the \<open>?\<close> operator, \<open>ok_or\<close> and \<open>map_err\<close> are the methods of the same name.
\<close>

definition and_then :: "'e + 'a \<Rightarrow> ('a \<Rightarrow> 'e + 'b) \<Rightarrow> 'e + 'b" where
  "and_then r f = (case r of Inl e \<Rightarrow> Inl e | Inr x \<Rightarrow> f x)"

definition ok_or :: "'e \<Rightarrow> 'a option \<Rightarrow> 'e + 'a" where
  "ok_or e o' = (case o' of None \<Rightarrow> Inl e | Some x \<Rightarrow> Inr x)"

definition map_err :: "('e \<Rightarrow> 'f) \<Rightarrow> 'e + 'a \<Rightarrow> 'f + 'a" where
  "map_err g r = (case r of Inl e \<Rightarrow> Inl (g e) | Inr x \<Rightarrow> Inr x)"

definition is_ok :: "'e + 'a \<Rightarrow> bool" where
  "is_ok r = (case r of Inl _ \<Rightarrow> False | Inr _ \<Rightarrow> True)"

lemma and_then_simps [simp]:
  "and_then (Inl e) f = Inl e"
  "and_then (Inr x) f = f x"
  by (simp_all add: and_then_def)

lemma ok_or_simps [simp]:
  "ok_or e None = Inl e"
  "ok_or e (Some x) = Inr x"
  by (simp_all add: ok_or_def)

lemma map_err_simps [simp]:
  "map_err g (Inl e) = Inl (g e)"
  "map_err g (Inr x) = Inr x"
  by (simp_all add: map_err_def)

lemma is_ok_simps [simp]: "\<not> is_ok (Inl e)" "is_ok (Inr x)"
  by (simp_all add: is_ok_def)

lemma and_then_eq_Inr [simp]: "and_then r f = Inr y \<longleftrightarrow> (\<exists>x. r = Inr x \<and> f x = Inr y)"
  by (cases r) auto

lemma and_then_eq_Inl: "and_then r f = Inl e \<longleftrightarrow> r = Inl e \<or> (\<exists>x. r = Inr x \<and> f x = Inl e)"
  by (cases r) auto

lemma ok_or_eq_Inr [simp]: "ok_or e o' = Inr x \<longleftrightarrow> o' = Some x"
  by (cases o') auto

lemma map_err_eq_Inr [simp]: "map_err g r = Inr x \<longleftrightarrow> r = Inr x"
  by (cases r) auto

text \<open>\<open>Iterator::try_fold\<close> over a slice.\<close>

primrec try_fold :: "('s \<Rightarrow> 'a \<Rightarrow> 'e + 's) \<Rightarrow> 's \<Rightarrow> 'a list \<Rightarrow> 'e + 's" where
  "try_fold f s [] = Inr s"
| "try_fold f s (x # xs) = and_then (f s x) (\<lambda>s'. try_fold f s' xs)"

lemma try_fold_append:
  "try_fold f s (xs @ ys) = and_then (try_fold f s xs) (\<lambda>s'. try_fold f s' ys)"
  by (induction xs arbitrary: s) (auto simp: and_then_def split: sum.splits)

section \<open>Words\<close>

lemma unat_less_256 [simp]: "unat (b :: u8) < 256"
  using unsigned_less [of b] by simp

lemma unat_less_65536 [simp]: "unat (w :: u16) < 65536"
  using unsigned_less [of w] by simp

lemma all_u8: "(\<forall>b::u8. P b) \<longleftrightarrow> list_all P (map word_of_nat [0..<256])"
proof -
  have "b \<in> word_of_nat ` {0..<256}" for b :: u8
    by (rule image_eqI [where x = "unat b"]) simp_all
  then have "(UNIV :: u8 set) = set (map word_of_nat [0..<256])" by auto
  then show ?thesis by (metis UNIV_I list_all_iff)
qed

lemma word_and_mask_less: "(x :: 'a::len word) AND mask n < 2 ^ n" if "n < LENGTH('a)"
  using that by (simp add: and_mask_less')

lemma unat_and_mask: "unat ((x :: 'a::len word) AND mask n) = unat x mod 2 ^ n"
  by (metis take_bit_eq_mask unsigned_take_bit_eq take_bit_eq_mod)

lemma unat_sub_cases:
  "unat ((x :: 'a::len word) - y) =
     (if y \<le> x then unat x - unat y else 2 ^ LENGTH('a) + unat x - unat y)"
  by (simp add: unat_sub_if_size word_size word_le_nat_alt add.commute)

lemma unat_add_cases:
  "unat ((x :: 'a::len word) + y) =
     (if unat x + unat y < 2 ^ LENGTH('a) then unat x + unat y
      else unat x + unat y - 2 ^ LENGTH('a))"
proof -
  have "unat x < 2 ^ LENGTH('a)" "unat y < 2 ^ LENGTH('a)" by simp_all
  then have "unat x + unat y - 2 ^ LENGTH('a) < 2 ^ LENGTH('a)" by linarith
  then show ?thesis
    by (simp add: unat_word_ariths le_mod_geq not_less)
qed

lemma unat_pow2: "n < LENGTH('a) \<Longrightarrow> unat (2 ^ n :: 'a::len word) = 2 ^ n"
  using unat_of_nat [of "2 ^ n", where ?'a = 'a] by simp

lemma unat_ucast_up [simp]:
  "LENGTH('a) \<le> LENGTH('b) \<Longrightarrow> unat (ucast (v :: 'a::len word) :: 'b::len word) = unat v"
  by (metis is_up nat_int of_nat_unat uint_up_ucast)

lemma ucast_up_inject [simp]:
  "LENGTH('a) \<le> LENGTH('b) \<Longrightarrow>
     (ucast (v :: 'a::len word) :: 'b::len word) = ucast w \<longleftrightarrow> v = w"
  by (metis unat_ucast_up unsigned_word_eqI)

lemma ucast_up_down [simp]:
  "LENGTH('a) \<le> LENGTH('b) \<Longrightarrow> ucast (ucast (v :: 'a::len word) :: 'b::len word) = v"
  by (rule bit_word_eqI) (auto simp: bit_simps)

lemma bit_word_le: "bit (v :: 'a::len word) k \<Longrightarrow> 2 ^ k \<le> unat v"
  by (metis bit_take_bit_iff linorder_not_less order_less_irrefl take_bit_nat_eq_self
      unsigned_take_bit_eq word_unat_eq_iff)

lemma bit_word_bound: "bit (v :: 'a::len word) k \<Longrightarrow> unat v < 2 ^ n \<Longrightarrow> k < n"
proof -
  assume "bit v k" "unat v < 2 ^ n"
  then have "(2 :: nat) ^ k < 2 ^ n" by (rule le_less_trans [OF bit_word_le])
  then show "k < n" by simp
qed

lemma bit_word_of_bool [simp]: "bit (word_of_bool b :: 'a::len word) n \<longleftrightarrow> b \<and> n = 0"
  by (simp add: word_of_bool_def bit_1_iff)

lemma word_of_bool_inject [simp]: "(word_of_bool a :: 'a::len word) = word_of_bool b \<longleftrightarrow> a = b"
  by (simp add: word_of_bool_def)

lemma word_of_bool_eq_0 [simp]: "(word_of_bool a :: 'a::len word) = 0 \<longleftrightarrow> \<not> a"
  by (simp add: word_of_bool_def)

lemma u16_bytes_be [simp]: "u16_high (u16_from_be h l) = h" "u16_low (u16_from_be h l) = l"
  by (rule bit_word_eqI;
      auto simp: u16_high_def u16_low_def u16_from_be_def bit_simps dest: bit_imp_le_length)+

lemma u16_from_be_bytes [simp]: "u16_from_be (u16_high w) (u16_low w) = w"
  by (rule bit_word_eqI) (auto simp: u16_high_def u16_low_def u16_from_be_def bit_simps)

lemma u16_from_be_inject: "u16_from_be h l = u16_from_be h' l' \<longleftrightarrow> h = h' \<and> l = l'"
  by (metis u16_bytes_be)

lemma unat_u16_from_be: "unat (u16_from_be h l) = 256 * unat h + unat l"
proof -
  have "push_bit 8 (ucast h) AND (ucast l :: u16) = 0"
    by (rule bit_word_eqI) (auto simp: bit_simps dest: bit_imp_le_length)
  then have "u16_from_be h l = push_bit 8 (ucast h) + ucast l"
    by (simp add: u16_from_be_def disjunctive_add_eq_or)
  moreover have "unat h < 256" "unat l < 256" by simp_all
  ultimately show ?thesis
    by (simp add: push_bit_eq_mult unat_word_ariths del: unat_less_256)
qed

lemma length_to_le_bytes [simp]: "length (to_le_bytes (w :: 'a::len word)) = LENGTH('a) div 8"
  by (simp add: to_le_bytes_def)

lemma nth_to_le_bytes:
  "i < LENGTH('a) div 8 \<Longrightarrow> to_le_bytes (w :: 'a::len word) ! i = ucast (drop_bit (8 * i) w)"
  by (simp add: to_le_bytes_def)

lemma to_le_bytes_inject:
  assumes "8 dvd LENGTH('a)"
  shows "to_le_bytes (v :: 'a::len word) = to_le_bytes w \<longleftrightarrow> v = w"
proof
  assume eq: "to_le_bytes v = to_le_bytes w"
  show "v = w"
  proof (rule bit_word_eqI)
    fix n assume n: "n < LENGTH('a)"
    let ?i = "n div 8"
    have i: "?i < LENGTH('a) div 8" using n assms by (auto elim: dvdE)
    have "to_le_bytes v ! ?i = to_le_bytes w ! ?i" using eq by simp
    then have "bit (ucast (drop_bit (8 * ?i) v) :: u8) (n mod 8)
             = bit (ucast (drop_bit (8 * ?i) w) :: u8) (n mod 8)"
      using i by (simp add: nth_to_le_bytes)
    then show "bit v n = bit w n" by (simp add: bit_simps)
  qed
qed simp

section \<open>Positional numbers\<close>

lemma radix_inject:
  fixes u v n x y :: nat
  assumes "u < n" "v < n"
  shows "x * n + u = y * n + v \<longleftrightarrow> x = y \<and> u = v"
proof
  assume eq: "x * n + u = y * n + v"
  then have "(x * n + u) div n = (y * n + v) div n" "(x * n + u) mod n = (y * n + v) mod n" by simp_all
  then show "x = y \<and> u = v" using assms by simp
qed simp

section \<open>Bounded loops\<close>

text \<open>\<open>for _ in 0..n\<close> over a state: the body runs \<open>n\<close> times.\<close>

lemma funpow_add_apply: "(f ^^ (m + n)) s = (f ^^ n) ((f ^^ m) s)"
  by (simp add: add.commute [of m n] funpow_add)

lemma funpow_invariant: "(\<And>s. P s \<Longrightarrow> P (f s)) \<Longrightarrow> P s \<Longrightarrow> P ((f ^^ n) s)"
  by (induction n arbitrary: s) auto

end
