(* ===== verification/Isa_Types.thy ===== *)
theory Isa_Types
  imports Prelude
begin

text \<open>
  The typed instruction values of \<open>crates/zksm83-isa/src/types.rs\<close>: every enum as a
  datatype with the source's variants (prefixed by a short form of the enum's name, because
  several enums share variant names), every struct as a record, and the stable proof-table
  codes with the descriptor built from them. The lemmas show that each code function is
  injective and bounded, so a code determines its variant.
\<close>

section \<open>Enums\<close>

datatype instruction_class =
    Cls_Control | Cls_Load | Cls_Alu8 | Cls_Alu16 | Cls_RotateShift | Cls_Bit | Cls_Jump
  | Cls_CallReturn | Cls_Stack | Cls_Interrupt | Cls_LowPower | Cls_Prefix

datatype register8 = R8_A | R8_B | R8_C | R8_D | R8_E | R8_H | R8_L

datatype register16 = R16_Bc | R16_De | R16_Hl | R16_Sp

datatype stack_register16 = SR16_Bc | SR16_De | SR16_Hl | SR16_Af

datatype operand8 = Opd_Register register8 | Opd_Immediate | Opd_IndirectHl

datatype indirect_address = Ind_Bc | Ind_De | Ind_HlIncrement | Ind_HlDecrement

datatype transfer_direction = Dir_IntoAccumulator | Dir_FromAccumulator

datatype condition = Cond_NotZero | Cond_Zero | Cond_NotCarry | Cond_Carry

datatype alu_operation =
    Alu_Add | Alu_AddCarry | Alu_Subtract | Alu_SubtractCarry | Alu_And | Alu_Xor | Alu_Or
  | Alu_Compare

datatype cb_operation =
    Cb_RotateLeftCircular | Cb_RotateRightCircular | Cb_RotateLeft | Cb_RotateRight
  | Cb_ShiftLeftArithmetic | Cb_ShiftRightArithmetic | Cb_SwapNibbles | Cb_ShiftRightLogical
  | Cb_TestBit u8 | Cb_ResetBit u8 | Cb_SetBit u8

datatype operation =
    Op_Nop
  | Op_StoreSpAbsolute
  | Op_Stop
  | Op_RelativeJump "condition option"
  | Op_Load16Immediate register16
  | Op_AddHl register16
  | Op_LoadAccumulatorIndirect indirect_address transfer_direction
  | Op_Increment16 register16
  | Op_Decrement16 register16
  | Op_Increment8 operand8
  | Op_Decrement8 operand8
  | Op_Load8Immediate operand8
  | Op_RotateAccumulator cb_operation
  | Op_DecimalAdjust
  | Op_ComplementAccumulator
  | Op_SetCarry
  | Op_ComplementCarry
  | Op_Load8 operand8 operand8
  | Op_Halt
  | Op_Alu8 alu_operation operand8
  | Op_Return "condition option"
  | Op_HighImmediateLoad transfer_direction
  | Op_AddSpOffset
  | Op_LoadHlSpOffset
  | Op_Pop stack_register16
  | Op_ReturnFromInterrupt
  | Op_JumpHl
  | Op_LoadSpHl
  | Op_Jump "condition option"
  | Op_HighCLoad transfer_direction
  | Op_AbsoluteAccumulatorLoad transfer_direction
  | Op_PrefixCb
  | Op_DisableInterrupts
  | Op_EnableInterrupts
  | Op_Call "condition option"
  | Op_Push stack_register16
  | Op_Restart u8
  | Op_Cb cb_operation operand8

datatype flag_action = FA_Preserve | FA_Clear | FA_Set | FA_Derived

datatype state_component =
    SC_A | SC_B | SC_C | SC_D | SC_E | SC_H | SC_L | SC_F | SC_Pc | SC_Sp | SC_Ime
  | SC_RunState | SC_MCycles

text \<open>
  \<open>Opcode\<close> and \<open>CbOpcode\<close> wrap one byte; the encoding keeps which table the byte is from.
\<close>

datatype instruction_encoding = Enc_Primary u8 | Enc_Cb u8

section \<open>Structs\<close>

record flag_effect =
  fe_zero :: flag_action
  fe_subtract :: flag_action
  fe_half_carry :: flag_action
  fe_carry :: flag_action

record timing =
  base_m_cycles :: u8
  taken_m_cycles :: "u8 option"

record bus_access_pattern =
  opcode_fetches :: u8
  immediate_reads :: u8
  data_reads :: u8
  data_writes :: u8
  taken_data_reads :: u8
  taken_data_writes :: u8

record state_access =
  sa_reads :: u16
  sa_writes :: u16

record decoded_instruction =
  di_encoding :: instruction_encoding
  di_class :: instruction_class
  di_operation :: operation
  di_byte_len :: u8
  di_timing :: timing
  di_flags :: flag_effect
  di_state_access :: state_access
  di_bus :: bus_access_pattern

datatype opcode_classification = Defined decoded_instruction | Undefined u8

record instruction_descriptor =
  id_operation :: u8
  id_argument_zero :: u8
  id_argument_one :: u8

section \<open>Codes\<close>

fun instruction_class_code :: "instruction_class \<Rightarrow> u8" where
  "instruction_class_code Cls_Control = 0"
| "instruction_class_code Cls_Load = 1"
| "instruction_class_code Cls_Alu8 = 2"
| "instruction_class_code Cls_Alu16 = 3"
| "instruction_class_code Cls_RotateShift = 4"
| "instruction_class_code Cls_Bit = 5"
| "instruction_class_code Cls_Jump = 6"
| "instruction_class_code Cls_CallReturn = 7"
| "instruction_class_code Cls_Stack = 8"
| "instruction_class_code Cls_Interrupt = 9"
| "instruction_class_code Cls_LowPower = 10"
| "instruction_class_code Cls_Prefix = 11"

definition state_component_all :: "state_component list" where
  "state_component_all = [SC_A, SC_B, SC_C, SC_D, SC_E, SC_H, SC_L, SC_F, SC_Pc, SC_Sp, SC_Ime,
     SC_RunState, SC_MCycles]"

fun state_component_mask :: "state_component \<Rightarrow> u16" where
  "state_component_mask SC_A = push_bit 0 1"
| "state_component_mask SC_B = push_bit 1 1"
| "state_component_mask SC_C = push_bit 2 1"
| "state_component_mask SC_D = push_bit 3 1"
| "state_component_mask SC_E = push_bit 4 1"
| "state_component_mask SC_H = push_bit 5 1"
| "state_component_mask SC_L = push_bit 6 1"
| "state_component_mask SC_F = push_bit 7 1"
| "state_component_mask SC_Pc = push_bit 8 1"
| "state_component_mask SC_Sp = push_bit 9 1"
| "state_component_mask SC_Ime = push_bit 10 1"
| "state_component_mask SC_RunState = push_bit 11 1"
| "state_component_mask SC_MCycles = push_bit 12 1"

definition state_access_reads :: "state_access \<Rightarrow> state_component \<Rightarrow> bool" where
  "state_access_reads sa c \<longleftrightarrow> sa_reads sa AND state_component_mask c \<noteq> 0"

definition state_access_writes :: "state_access \<Rightarrow> state_component \<Rightarrow> bool" where
  "state_access_writes sa c \<longleftrightarrow> sa_writes sa AND state_component_mask c \<noteq> 0"

fun condition_code :: "condition option \<Rightarrow> u8" where
  "condition_code None = 0"
| "condition_code (Some Cond_NotZero) = 1"
| "condition_code (Some Cond_Zero) = 2"
| "condition_code (Some Cond_NotCarry) = 3"
| "condition_code (Some Cond_Carry) = 4"

fun operand8_code :: "operand8 \<Rightarrow> u8" where
  "operand8_code (Opd_Register R8_B) = 0"
| "operand8_code (Opd_Register R8_C) = 1"
| "operand8_code (Opd_Register R8_D) = 2"
| "operand8_code (Opd_Register R8_E) = 3"
| "operand8_code (Opd_Register R8_H) = 4"
| "operand8_code (Opd_Register R8_L) = 5"
| "operand8_code Opd_IndirectHl = 6"
| "operand8_code (Opd_Register R8_A) = 7"
| "operand8_code Opd_Immediate = 8"

fun register16_code :: "register16 \<Rightarrow> u8" where
  "register16_code R16_Bc = 0"
| "register16_code R16_De = 1"
| "register16_code R16_Hl = 2"
| "register16_code R16_Sp = 3"

fun stack_register_code :: "stack_register16 \<Rightarrow> u8" where
  "stack_register_code SR16_Bc = 0"
| "stack_register_code SR16_De = 1"
| "stack_register_code SR16_Hl = 2"
| "stack_register_code SR16_Af = 3"

fun indirect_code :: "indirect_address \<Rightarrow> u8" where
  "indirect_code Ind_Bc = 0"
| "indirect_code Ind_De = 1"
| "indirect_code Ind_HlIncrement = 2"
| "indirect_code Ind_HlDecrement = 3"

fun direction_code :: "transfer_direction \<Rightarrow> u8" where
  "direction_code Dir_IntoAccumulator = 0"
| "direction_code Dir_FromAccumulator = 1"

fun alu_code :: "alu_operation \<Rightarrow> u8" where
  "alu_code Alu_Add = 0"
| "alu_code Alu_AddCarry = 1"
| "alu_code Alu_Subtract = 2"
| "alu_code Alu_SubtractCarry = 3"
| "alu_code Alu_And = 4"
| "alu_code Alu_Xor = 5"
| "alu_code Alu_Or = 6"
| "alu_code Alu_Compare = 7"

fun cb_operation_code :: "cb_operation \<Rightarrow> u8" where
  "cb_operation_code Cb_RotateLeftCircular = 0"
| "cb_operation_code Cb_RotateRightCircular = 1"
| "cb_operation_code Cb_RotateLeft = 2"
| "cb_operation_code Cb_RotateRight = 3"
| "cb_operation_code Cb_ShiftLeftArithmetic = 4"
| "cb_operation_code Cb_ShiftRightArithmetic = 5"
| "cb_operation_code Cb_SwapNibbles = 6"
| "cb_operation_code Cb_ShiftRightLogical = 7"
| "cb_operation_code (Cb_TestBit b) = b"
| "cb_operation_code (Cb_ResetBit b) = b"
| "cb_operation_code (Cb_SetBit b) = b"

fun cb_descriptor :: "cb_operation \<Rightarrow> operand8 \<Rightarrow> u8 \<times> u8 \<times> u8" where
  "cb_descriptor (Cb_TestBit b) opd = (38, b, operand8_code opd)"
| "cb_descriptor (Cb_ResetBit b) opd = (39, b, operand8_code opd)"
| "cb_descriptor (Cb_SetBit b) opd = (40, b, operand8_code opd)"
| "cb_descriptor cb opd = (37, cb_operation_code cb, operand8_code opd)"

fun descriptor_codes :: "operation \<Rightarrow> u8 \<times> u8 \<times> u8" where
  "descriptor_codes Op_Nop = (0, 0, 0)"
| "descriptor_codes Op_StoreSpAbsolute = (1, 0, 0)"
| "descriptor_codes Op_Stop = (2, 0, 0)"
| "descriptor_codes (Op_RelativeJump c) = (3, condition_code c, 0)"
| "descriptor_codes (Op_Load16Immediate r) = (4, register16_code r, 0)"
| "descriptor_codes (Op_AddHl r) = (5, register16_code r, 0)"
| "descriptor_codes (Op_LoadAccumulatorIndirect a d) = (6, indirect_code a, direction_code d)"
| "descriptor_codes (Op_Increment16 r) = (7, register16_code r, 0)"
| "descriptor_codes (Op_Decrement16 r) = (8, register16_code r, 0)"
| "descriptor_codes (Op_Increment8 opd) = (9, operand8_code opd, 0)"
| "descriptor_codes (Op_Decrement8 opd) = (10, operand8_code opd, 0)"
| "descriptor_codes (Op_Load8Immediate opd) = (11, operand8_code opd, 0)"
| "descriptor_codes (Op_RotateAccumulator cb) = (12, cb_operation_code cb, 0)"
| "descriptor_codes Op_DecimalAdjust = (13, 0, 0)"
| "descriptor_codes Op_ComplementAccumulator = (14, 0, 0)"
| "descriptor_codes Op_SetCarry = (15, 0, 0)"
| "descriptor_codes Op_ComplementCarry = (16, 0, 0)"
| "descriptor_codes (Op_Load8 dst src) = (17, operand8_code dst, operand8_code src)"
| "descriptor_codes Op_Halt = (18, 0, 0)"
| "descriptor_codes (Op_Alu8 alu src) = (19, alu_code alu, operand8_code src)"
| "descriptor_codes (Op_Return c) = (20, condition_code c, 0)"
| "descriptor_codes (Op_HighImmediateLoad d) = (21, direction_code d, 0)"
| "descriptor_codes Op_AddSpOffset = (22, 0, 0)"
| "descriptor_codes Op_LoadHlSpOffset = (23, 0, 0)"
| "descriptor_codes (Op_Pop r) = (24, stack_register_code r, 0)"
| "descriptor_codes Op_ReturnFromInterrupt = (25, 0, 0)"
| "descriptor_codes Op_JumpHl = (26, 0, 0)"
| "descriptor_codes Op_LoadSpHl = (27, 0, 0)"
| "descriptor_codes (Op_Jump c) = (28, condition_code c, 0)"
| "descriptor_codes (Op_HighCLoad d) = (29, direction_code d, 0)"
| "descriptor_codes (Op_AbsoluteAccumulatorLoad d) = (30, direction_code d, 0)"
| "descriptor_codes Op_PrefixCb = (31, 0, 0)"
| "descriptor_codes Op_DisableInterrupts = (32, 0, 0)"
| "descriptor_codes Op_EnableInterrupts = (33, 0, 0)"
| "descriptor_codes (Op_Call c) = (34, condition_code c, 0)"
| "descriptor_codes (Op_Push r) = (35, stack_register_code r, 0)"
| "descriptor_codes (Op_Restart v) = (36, drop_bit 3 v, 0)"
| "descriptor_codes (Op_Cb cb opd) = cb_descriptor cb opd"

definition descriptor :: "operation \<Rightarrow> instruction_descriptor" where
  "descriptor op = (case descriptor_codes op of (code, a0, a1) \<Rightarrow>
     \<lparr>id_operation = code, id_argument_zero = a0, id_argument_one = a1\<rparr>)"

text \<open>\<open>DecodedInstruction::encoded_opcode\<close>: the opcode bytes and their count.\<close>

definition encoded_opcode :: "decoded_instruction \<Rightarrow> (u8 \<times> u8) \<times> u8" where
  "encoded_opcode i = (case di_encoding i of
       Enc_Primary b \<Rightarrow> ((b, 0), 1)
     | Enc_Cb b \<Rightarrow> ((0xcb, b), 2))"

section \<open>Codes determine their variants\<close>

named_theorems code_inject \<open>injectivity of the proof-table codes\<close>

lemma instruction_class_code_inject [code_inject]:
  "instruction_class_code a = instruction_class_code b \<longleftrightarrow> a = b"
  by (cases a; cases b) simp_all

lemma condition_code_inject [code_inject]: "condition_code a = condition_code b \<longleftrightarrow> a = b"
  by (cases a rule: condition_code.cases; cases b rule: condition_code.cases) simp_all

lemma operand8_code_inject [code_inject]: "operand8_code a = operand8_code b \<longleftrightarrow> a = b"
  by (cases a rule: operand8_code.cases; cases b rule: operand8_code.cases) simp_all

lemma register16_code_inject [code_inject]: "register16_code a = register16_code b \<longleftrightarrow> a = b"
  by (cases a; cases b) simp_all

lemma stack_register_code_inject [code_inject]:
  "stack_register_code a = stack_register_code b \<longleftrightarrow> a = b"
  by (cases a; cases b) simp_all

lemma indirect_code_inject [code_inject]: "indirect_code a = indirect_code b \<longleftrightarrow> a = b"
  by (cases a; cases b) simp_all

lemma direction_code_inject [code_inject]: "direction_code a = direction_code b \<longleftrightarrow> a = b"
  by (cases a; cases b) simp_all

lemma alu_code_inject [code_inject]: "alu_code a = alu_code b \<longleftrightarrow> a = b"
  by (cases a; cases b) simp_all

text \<open>
  The descriptor identifies the operation on the operations an opcode can denote: rotates of
  the accumulator carry one of the rotate forms, restart vectors are multiples of eight.
\<close>

fun is_rotate_form :: "cb_operation \<Rightarrow> bool" where
  "is_rotate_form (Cb_TestBit _) = False"
| "is_rotate_form (Cb_ResetBit _) = False"
| "is_rotate_form (Cb_SetBit _) = False"
| "is_rotate_form _ = True"

fun canonical_operation :: "operation \<Rightarrow> bool" where
  "canonical_operation (Op_RotateAccumulator cb) = is_rotate_form cb"
| "canonical_operation (Op_Restart v) = (v AND 7 = 0)"
| "canonical_operation _ = True"

lemma cb_rotate_code_inject:
  "is_rotate_form a \<Longrightarrow> is_rotate_form b \<Longrightarrow> cb_operation_code a = cb_operation_code b \<longleftrightarrow> a = b"
  by (cases a; cases b) simp_all

lemma cb_descriptor_inject [code_inject]:
  "cb_descriptor a p = cb_descriptor b q \<longleftrightarrow> a = b \<and> p = q"
  by (cases a; cases b) (auto simp: code_inject)

lemma cb_descriptor_code: "37 \<le> fst (cb_descriptor a p)"
  by (cases a) simp_all

lemma drop_3_inject:
  fixes v w :: u8
  assumes "v AND 7 = 0" "w AND 7 = 0"
  shows "drop_bit 3 v = drop_bit 3 w \<longleftrightarrow> v = w"
proof
  assume d: "drop_bit 3 v = drop_bit 3 w"
  have split: "u = push_bit 3 (drop_bit 3 u) OR (u AND mask 3)" for u :: u8
    by (rule bit_word_eqI) (auto simp: bit_simps)
  have "mask 3 = (7 :: u8)" by (simp add: mask_eq_exp_minus_1)
  then show "v = w" using d assms split [of v] split [of w] by simp
qed simp

lemma descriptor_inject:
  assumes "canonical_operation a" "canonical_operation b"
  shows "descriptor a = descriptor b \<longleftrightarrow> a = b"
proof -
  have cb: "\<And>x p c y z. c < 37 \<Longrightarrow> cb_descriptor x p \<noteq> (c, y, z)"
    by (metis cb_descriptor_code fst_conv leD)
  have "descriptor_codes a = descriptor_codes b \<longleftrightarrow> a = b"
    using assms
    by (cases a; cases b)
       (auto simp: code_inject cb_rotate_code_inject drop_3_inject cb cb [symmetric])
  then show ?thesis
    by (auto simp: descriptor_def split: prod.splits)
qed

lemma state_component_mask_bit:
  "state_component_mask (state_component_all ! i) = push_bit i 1" if "i < 13"
proof -
  have "list_all (\<lambda>i. state_component_mask (state_component_all ! i) = push_bit i 1) [0..<13]"
    by code_simp
  with that show ?thesis by (simp add: list_all_iff)
qed

lemma set_state_component_all [simp]: "set state_component_all = UNIV"
  by (auto simp: state_component_all_def) (metis state_component.exhaust)

end
