(* ===== verification/Isa_Metadata.thy ===== *)
theory Isa_Metadata
  imports Isa_Types
begin

text \<open>
  The metadata derived from a semantic operation, \<open>crates/zksm83-isa/src/metadata.rs\<close>:
  instruction class, flag effect, bus access pattern, and the masks of CPU components read and
  written. The \<open>&mut u16\<close> masks of the source are threaded explicitly as a pair
  \<open>(reads, writes)\<close>.
\<close>

section \<open>Class\<close>

fun instr_class :: "operation \<Rightarrow> instruction_class" where
  "instr_class Op_Nop = Cls_Control"
| "instr_class Op_DecimalAdjust = Cls_Control"
| "instr_class Op_ComplementAccumulator = Cls_Control"
| "instr_class Op_SetCarry = Cls_Control"
| "instr_class Op_ComplementCarry = Cls_Control"
| "instr_class Op_StoreSpAbsolute = Cls_Load"
| "instr_class (Op_Load16Immediate _) = Cls_Load"
| "instr_class (Op_LoadAccumulatorIndirect _ _) = Cls_Load"
| "instr_class (Op_Load8Immediate _) = Cls_Load"
| "instr_class (Op_Load8 _ _) = Cls_Load"
| "instr_class (Op_HighImmediateLoad _) = Cls_Load"
| "instr_class Op_LoadHlSpOffset = Cls_Load"
| "instr_class Op_LoadSpHl = Cls_Load"
| "instr_class (Op_HighCLoad _) = Cls_Load"
| "instr_class (Op_AbsoluteAccumulatorLoad _) = Cls_Load"
| "instr_class (Op_Increment8 _) = Cls_Alu8"
| "instr_class (Op_Decrement8 _) = Cls_Alu8"
| "instr_class (Op_Alu8 _ _) = Cls_Alu8"
| "instr_class (Op_AddHl _) = Cls_Alu16"
| "instr_class (Op_Increment16 _) = Cls_Alu16"
| "instr_class (Op_Decrement16 _) = Cls_Alu16"
| "instr_class Op_AddSpOffset = Cls_Alu16"
| "instr_class (Op_RotateAccumulator _) = Cls_RotateShift"
| "instr_class (Op_Cb cb _) =
     (case cb of Cb_TestBit _ \<Rightarrow> Cls_Bit | Cb_ResetBit _ \<Rightarrow> Cls_Bit | Cb_SetBit _ \<Rightarrow> Cls_Bit
      | _ \<Rightarrow> Cls_RotateShift)"
| "instr_class (Op_RelativeJump _) = Cls_Jump"
| "instr_class Op_JumpHl = Cls_Jump"
| "instr_class (Op_Jump _) = Cls_Jump"
| "instr_class (Op_Return _) = Cls_CallReturn"
| "instr_class Op_ReturnFromInterrupt = Cls_CallReturn"
| "instr_class (Op_Call _) = Cls_CallReturn"
| "instr_class (Op_Restart _) = Cls_CallReturn"
| "instr_class (Op_Pop _) = Cls_Stack"
| "instr_class (Op_Push _) = Cls_Stack"
| "instr_class Op_DisableInterrupts = Cls_Interrupt"
| "instr_class Op_EnableInterrupts = Cls_Interrupt"
| "instr_class Op_Stop = Cls_LowPower"
| "instr_class Op_Halt = Cls_LowPower"
| "instr_class Op_PrefixCb = Cls_Prefix"

section \<open>Flag effects\<close>

abbreviation flag_actions ::
  "flag_action \<Rightarrow> flag_action \<Rightarrow> flag_action \<Rightarrow> flag_action \<Rightarrow> flag_effect" where
  "flag_actions z n h c \<equiv> \<lparr>fe_zero = z, fe_subtract = n, fe_half_carry = h, fe_carry = c\<rparr>"

definition preserve_flags :: flag_effect where
  "preserve_flags = flag_actions FA_Preserve FA_Preserve FA_Preserve FA_Preserve"

fun alu_flags :: "alu_operation \<Rightarrow> flag_effect" where
  "alu_flags Alu_Add = flag_actions FA_Derived FA_Clear FA_Derived FA_Derived"
| "alu_flags Alu_AddCarry = flag_actions FA_Derived FA_Clear FA_Derived FA_Derived"
| "alu_flags Alu_Subtract = flag_actions FA_Derived FA_Set FA_Derived FA_Derived"
| "alu_flags Alu_SubtractCarry = flag_actions FA_Derived FA_Set FA_Derived FA_Derived"
| "alu_flags Alu_Compare = flag_actions FA_Derived FA_Set FA_Derived FA_Derived"
| "alu_flags Alu_And = flag_actions FA_Derived FA_Clear FA_Set FA_Clear"
| "alu_flags Alu_Xor = flag_actions FA_Derived FA_Clear FA_Clear FA_Clear"
| "alu_flags Alu_Or = flag_actions FA_Derived FA_Clear FA_Clear FA_Clear"

fun flag_effect_of :: "operation \<Rightarrow> flag_effect" where
  "flag_effect_of (Op_Increment8 _) = flag_actions FA_Derived FA_Clear FA_Derived FA_Preserve"
| "flag_effect_of (Op_Decrement8 _) = flag_actions FA_Derived FA_Set FA_Derived FA_Preserve"
| "flag_effect_of (Op_AddHl _) = flag_actions FA_Preserve FA_Clear FA_Derived FA_Derived"
| "flag_effect_of Op_AddSpOffset = flag_actions FA_Clear FA_Clear FA_Derived FA_Derived"
| "flag_effect_of Op_LoadHlSpOffset = flag_actions FA_Clear FA_Clear FA_Derived FA_Derived"
| "flag_effect_of (Op_RotateAccumulator _) = flag_actions FA_Clear FA_Clear FA_Clear FA_Derived"
| "flag_effect_of Op_DecimalAdjust = flag_actions FA_Derived FA_Preserve FA_Clear FA_Derived"
| "flag_effect_of Op_ComplementAccumulator = flag_actions FA_Preserve FA_Set FA_Set FA_Preserve"
| "flag_effect_of Op_SetCarry = flag_actions FA_Preserve FA_Clear FA_Clear FA_Set"
| "flag_effect_of Op_ComplementCarry = flag_actions FA_Preserve FA_Clear FA_Clear FA_Derived"
| "flag_effect_of (Op_Alu8 alu _) = alu_flags alu"
| "flag_effect_of (Op_Cb cb _) =
     (case cb of
        Cb_TestBit _ \<Rightarrow> flag_actions FA_Derived FA_Clear FA_Set FA_Preserve
      | Cb_ResetBit _ \<Rightarrow> preserve_flags
      | Cb_SetBit _ \<Rightarrow> preserve_flags
      | _ \<Rightarrow> flag_actions FA_Derived FA_Clear FA_Clear FA_Derived)"
| "flag_effect_of (Op_Pop SR16_Af) = flag_actions FA_Derived FA_Derived FA_Derived FA_Derived"
| "flag_effect_of _ = preserve_flags"

section \<open>Bus access pattern\<close>

fun direction_bus :: "transfer_direction \<Rightarrow> u8 \<times> u8 \<times> u8 \<times> u8" where
  "direction_bus Dir_IntoAccumulator = (1, 0, 0, 0)"
| "direction_bus Dir_FromAccumulator = (0, 1, 0, 0)"

fun operand_transfer_bus :: "operand8 \<Rightarrow> operand8 \<Rightarrow> u8 \<times> u8 \<times> u8 \<times> u8" where
  "operand_transfer_bus Opd_IndirectHl _ = (0, 1, 0, 0)"
| "operand_transfer_bus _ Opd_IndirectHl = (1, 0, 0, 0)"
| "operand_transfer_bus _ _ = (0, 0, 0, 0)"

fun data_bus :: "operation \<Rightarrow> u8 \<times> u8 \<times> u8 \<times> u8" where
  "data_bus Op_StoreSpAbsolute = (0, 2, 0, 0)"
| "data_bus (Op_LoadAccumulatorIndirect _ d) = direction_bus d"
| "data_bus (Op_HighImmediateLoad d) = direction_bus d"
| "data_bus (Op_HighCLoad d) = direction_bus d"
| "data_bus (Op_AbsoluteAccumulatorLoad d) = direction_bus d"
| "data_bus (Op_Increment8 Opd_IndirectHl) = (1, 1, 0, 0)"
| "data_bus (Op_Decrement8 Opd_IndirectHl) = (1, 1, 0, 0)"
| "data_bus (Op_Load8Immediate Opd_IndirectHl) = (0, 1, 0, 0)"
| "data_bus (Op_Load8 dst src) = operand_transfer_bus dst src"
| "data_bus (Op_Alu8 _ Opd_IndirectHl) = (1, 0, 0, 0)"
| "data_bus (Op_Return (Some _)) = (0, 0, 2, 0)"
| "data_bus (Op_Return None) = (2, 0, 0, 0)"
| "data_bus Op_ReturnFromInterrupt = (2, 0, 0, 0)"
| "data_bus (Op_Pop _) = (2, 0, 0, 0)"
| "data_bus (Op_Call (Some _)) = (0, 0, 0, 2)"
| "data_bus (Op_Call None) = (0, 2, 0, 0)"
| "data_bus (Op_Push _) = (0, 2, 0, 0)"
| "data_bus (Op_Restart _) = (0, 2, 0, 0)"
| "data_bus (Op_Cb cb Opd_IndirectHl) =
     (case cb of Cb_TestBit _ \<Rightarrow> (1, 0, 0, 0) | _ \<Rightarrow> (1, 1, 0, 0))"
| "data_bus _ = (0, 0, 0, 0)"

definition bus_pattern :: "instruction_encoding \<Rightarrow> operation \<Rightarrow> u8 \<Rightarrow> bus_access_pattern" where
  "bus_pattern enc op byte_len =
     (case data_bus op of (dr, dw, tdr, tdw) \<Rightarrow>
       \<lparr>opcode_fetches = (case enc of Enc_Primary _ \<Rightarrow> 1 | Enc_Cb _ \<Rightarrow> 2),
        immediate_reads =
          (case enc of Enc_Primary _ \<Rightarrow> saturating_sub byte_len 1 | Enc_Cb _ \<Rightarrow> 0),
        data_reads = dr, data_writes = dw, taken_data_reads = tdr, taken_data_writes = tdw\<rparr>)"

section \<open>Components read and written\<close>

fun register_component :: "register8 \<Rightarrow> state_component" where
  "register_component R8_A = SC_A"
| "register_component R8_B = SC_B"
| "register_component R8_C = SC_C"
| "register_component R8_D = SC_D"
| "register_component R8_E = SC_E"
| "register_component R8_H = SC_H"
| "register_component R8_L = SC_L"

fun register_mask :: "register16 \<Rightarrow> u16" where
  "register_mask R16_Bc = state_component_mask SC_B OR state_component_mask SC_C"
| "register_mask R16_De = state_component_mask SC_D OR state_component_mask SC_E"
| "register_mask R16_Hl = state_component_mask SC_H OR state_component_mask SC_L"
| "register_mask R16_Sp = state_component_mask SC_Sp"

fun stack_register_mask :: "stack_register16 \<Rightarrow> u16" where
  "stack_register_mask SR16_Bc = register_mask R16_Bc"
| "stack_register_mask SR16_De = register_mask R16_De"
| "stack_register_mask SR16_Hl = register_mask R16_Hl"
| "stack_register_mask SR16_Af = state_component_mask SC_A OR state_component_mask SC_F"

definition components :: "state_component list \<Rightarrow> u16" where
  "components cs = fold (\<lambda>c m. m OR state_component_mask c) cs 0"

fun add_operand_read :: "u16 \<Rightarrow> operand8 \<Rightarrow> u16" where
  "add_operand_read m (Opd_Register r) = m OR state_component_mask (register_component r)"
| "add_operand_read m Opd_Immediate = m"
| "add_operand_read m Opd_IndirectHl = m OR register_mask R16_Hl"

fun add_operand_write :: "u16 \<Rightarrow> operand8 \<Rightarrow> u16" where
  "add_operand_write m (Opd_Register r) = m OR state_component_mask (register_component r)"
| "add_operand_write m Opd_Immediate = m"
| "add_operand_write m Opd_IndirectHl = m"

definition add_destination_access :: "u16 \<times> u16 \<Rightarrow> operand8 \<Rightarrow> u16 \<times> u16" where
  "add_destination_access m opd =
     ((if opd = Opd_IndirectHl then fst m OR register_mask R16_Hl else fst m),
      add_operand_write (snd m) opd)"

fun add_indirect_read :: "u16 \<Rightarrow> indirect_address \<Rightarrow> u16" where
  "add_indirect_read m Ind_Bc = m OR register_mask R16_Bc"
| "add_indirect_read m Ind_De = m OR register_mask R16_De"
| "add_indirect_read m Ind_HlIncrement = m OR register_mask R16_Hl"
| "add_indirect_read m Ind_HlDecrement = m OR register_mask R16_Hl"

fun add_transfer_access :: "transfer_direction \<Rightarrow> u16 \<times> u16 \<Rightarrow> u16 \<times> u16" where
  "add_transfer_access Dir_IntoAccumulator (r, w) = (r, w OR state_component_mask SC_A)"
| "add_transfer_access Dir_FromAccumulator (r, w) = (r OR state_component_mask SC_A, w)"

definition add_indirect_transfer_access ::
  "indirect_address \<Rightarrow> transfer_direction \<Rightarrow> u16 \<times> u16 \<Rightarrow> u16 \<times> u16" where
  "add_indirect_transfer_access a d m =
     (let m1 = add_transfer_access d (add_indirect_read (fst m) a, snd m)
      in if a \<in> {Ind_HlIncrement, Ind_HlDecrement}
         then (fst m1, snd m1 OR register_mask R16_Hl) else m1)"

fun stack_access :: "operation \<Rightarrow> u16 \<times> u16 \<Rightarrow> u16 \<times> u16" where
  "stack_access (Op_Return _) (r, w) =
     (r OR state_component_mask SC_Sp, w OR state_component_mask SC_Sp)"
| "stack_access Op_ReturnFromInterrupt (r, w) =
     (r OR state_component_mask SC_Sp, w OR state_component_mask SC_Sp)"
| "stack_access (Op_Call _) (r, w) =
     (r OR state_component_mask SC_Sp, w OR state_component_mask SC_Sp)"
| "stack_access (Op_Push _) (r, w) =
     (r OR state_component_mask SC_Sp, w OR state_component_mask SC_Sp)"
| "stack_access (Op_Restart _) (r, w) =
     (r OR state_component_mask SC_Sp, w OR state_component_mask SC_Sp)"
| "stack_access _ m = m"

definition branch_access :: "operation \<Rightarrow> condition option \<Rightarrow> u16 \<times> u16 \<Rightarrow> u16 \<times> u16" where
  "branch_access op c m =
     stack_access op
       ((if c \<noteq> None then fst m OR state_component_mask SC_F else fst m), snd m)"

fun add_operation_access :: "operation \<Rightarrow> u16 \<times> u16 \<Rightarrow> u16 \<times> u16" where
  "add_operation_access Op_StoreSpAbsolute (r, w) = (r OR register_mask R16_Sp, w)"
| "add_operation_access Op_Stop (r, w) = (r, w OR state_component_mask SC_RunState)"
| "add_operation_access Op_Halt (r, w) = (r, w OR state_component_mask SC_RunState)"
| "add_operation_access (Op_RelativeJump c) m = branch_access (Op_RelativeJump c) c m"
| "add_operation_access (Op_Return c) m = branch_access (Op_Return c) c m"
| "add_operation_access (Op_Jump c) m = branch_access (Op_Jump c) c m"
| "add_operation_access (Op_Call c) m = branch_access (Op_Call c) c m"
| "add_operation_access (Op_Load16Immediate rg) (r, w) = (r, w OR register_mask rg)"
| "add_operation_access (Op_Increment16 rg) (r, w) =
     (r OR register_mask rg, w OR register_mask rg)"
| "add_operation_access (Op_Decrement16 rg) (r, w) =
     (r OR register_mask rg, w OR register_mask rg)"
| "add_operation_access (Op_AddHl rg) (r, w) =
     ((r OR register_mask R16_Hl) OR register_mask rg, w OR register_mask R16_Hl)"
| "add_operation_access (Op_LoadAccumulatorIndirect a d) m = add_indirect_transfer_access a d m"
| "add_operation_access (Op_Increment8 opd) (r, w) =
     (add_operand_read r opd, add_operand_write w opd)"
| "add_operation_access (Op_Decrement8 opd) (r, w) =
     (add_operand_read r opd, add_operand_write w opd)"
| "add_operation_access (Op_Load8Immediate opd) m = add_destination_access m opd"
| "add_operation_access (Op_RotateAccumulator _) (r, w) =
     (r OR state_component_mask SC_A, w OR state_component_mask SC_A)"
| "add_operation_access Op_DecimalAdjust (r, w) =
     (r OR state_component_mask SC_A, w OR state_component_mask SC_A)"
| "add_operation_access Op_ComplementAccumulator (r, w) =
     (r OR state_component_mask SC_A, w OR state_component_mask SC_A)"
| "add_operation_access (Op_Load8 dst src) (r, w) =
     add_destination_access (add_operand_read r src, w) dst"
| "add_operation_access (Op_Alu8 alu opd) (r, w) =
     (add_operand_read (r OR state_component_mask SC_A) opd,
      (if alu \<noteq> Alu_Compare then w OR state_component_mask SC_A else w))"
| "add_operation_access (Op_HighImmediateLoad d) m = add_transfer_access d m"
| "add_operation_access (Op_HighCLoad d) (r, w) =
     add_transfer_access d (r OR state_component_mask SC_C, w)"
| "add_operation_access (Op_AbsoluteAccumulatorLoad d) m = add_transfer_access d m"
| "add_operation_access Op_AddSpOffset (r, w) =
     (r OR register_mask R16_Sp, w OR register_mask R16_Sp)"
| "add_operation_access Op_LoadHlSpOffset (r, w) =
     (r OR register_mask R16_Sp, w OR register_mask R16_Hl)"
| "add_operation_access (Op_Pop rg) (r, w) =
     (r OR state_component_mask SC_Sp,
      (w OR state_component_mask SC_Sp) OR stack_register_mask rg)"
| "add_operation_access Op_ReturnFromInterrupt m = stack_access Op_ReturnFromInterrupt m"
| "add_operation_access Op_JumpHl (r, w) = (r OR register_mask R16_Hl, w)"
| "add_operation_access Op_LoadSpHl (r, w) =
     (r OR register_mask R16_Hl, w OR register_mask R16_Sp)"
| "add_operation_access Op_DisableInterrupts (r, w) = (r, w OR state_component_mask SC_Ime)"
| "add_operation_access Op_EnableInterrupts (r, w) = (r, w OR state_component_mask SC_Ime)"
| "add_operation_access (Op_Push rg) (r, w) =
     stack_access (Op_Push rg) (r OR stack_register_mask rg, w)"
| "add_operation_access (Op_Restart v) m = stack_access (Op_Restart v) m"
| "add_operation_access (Op_Cb cb opd) (r, w) =
     (add_operand_read r opd,
      (case cb of Cb_TestBit _ \<Rightarrow> w | _ \<Rightarrow> add_operand_write w opd))"
| "add_operation_access Op_Nop m = m"
| "add_operation_access Op_SetCarry m = m"
| "add_operation_access Op_ComplementCarry m = m"
| "add_operation_access Op_PrefixCb m = m"

definition state_access_of :: "operation \<Rightarrow> state_access" where
  "state_access_of op =
     (let reads = components [SC_Pc, SC_Ime, SC_RunState, SC_MCycles, SC_F];
          writes = components [SC_Pc, SC_Ime, SC_MCycles];
          m = add_operation_access op (reads, writes)
      in \<lparr>sa_reads = fst m,
          sa_writes = (if flag_effect_of op \<noteq> preserve_flags
                       then snd m OR state_component_mask SC_F else snd m)\<rparr>)"

section \<open>The metadata row\<close>

definition instruction ::
  "instruction_encoding \<Rightarrow> operation \<Rightarrow> u8 \<Rightarrow> u8 \<Rightarrow> u8 option \<Rightarrow> decoded_instruction" where
  "instruction enc op byte_len base taken =
     \<lparr>di_encoding = enc, di_class = instr_class op, di_operation = op, di_byte_len = byte_len,
      di_timing = \<lparr>base_m_cycles = base, taken_m_cycles = taken\<rparr>,
      di_flags = flag_effect_of op, di_state_access = state_access_of op,
      di_bus = bus_pattern enc op byte_len\<rparr>"

lemma instruction_simps [simp]:
  "di_encoding (instruction enc op n b t) = enc"
  "di_class (instruction enc op n b t) = instr_class op"
  "di_operation (instruction enc op n b t) = op"
  "di_byte_len (instruction enc op n b t) = n"
  "di_timing (instruction enc op n b t) = \<lparr>base_m_cycles = b, taken_m_cycles = t\<rparr>"
  "di_flags (instruction enc op n b t) = flag_effect_of op"
  "di_state_access (instruction enc op n b t) = state_access_of op"
  "di_bus (instruction enc op n b t) = bus_pattern enc op n"
  by (simp_all add: instruction_def)

end
