(* ===== verification/Isa_Decode.thy ===== *)
theory Isa_Decode
  imports Isa_Metadata
begin

text \<open>
  The opcode tables of \<open>crates/zksm83-isa/src/decode.rs\<close>: primary classification, the CB
  table, and the field decoders they use. The lemmas below show that decoding is total and
  keeps the byte, that the encoding lengths cover exactly the immediates an operation needs,
  and that timings are bounded.
\<close>

section \<open>Field decoders\<close>

definition decode_operand8 :: "u8 \<Rightarrow> operand8" where
  "decode_operand8 code =
     (if code = 0 then Opd_Register R8_B
      else if code = 1 then Opd_Register R8_C
      else if code = 2 then Opd_Register R8_D
      else if code = 3 then Opd_Register R8_E
      else if code = 4 then Opd_Register R8_H
      else if code = 5 then Opd_Register R8_L
      else if code = 6 then Opd_IndirectHl
      else Opd_Register R8_A)"

definition decode_register16 :: "u8 \<Rightarrow> register16" where
  "decode_register16 code =
     (if code = 0 then R16_Bc else if code = 1 then R16_De else if code = 2 then R16_Hl
      else R16_Sp)"

definition decode_stack_register16 :: "u8 \<Rightarrow> stack_register16" where
  "decode_stack_register16 code =
     (if code = 0 then SR16_Bc else if code = 1 then SR16_De else if code = 2 then SR16_Hl
      else SR16_Af)"

definition decode_condition :: "u8 \<Rightarrow> condition" where
  "decode_condition code =
     (if code = 0 then Cond_NotZero else if code = 1 then Cond_Zero
      else if code = 2 then Cond_NotCarry else Cond_Carry)"

definition decode_alu_operation :: "u8 \<Rightarrow> alu_operation" where
  "decode_alu_operation code =
     (if code = 0 then Alu_Add else if code = 1 then Alu_AddCarry
      else if code = 2 then Alu_Subtract else if code = 3 then Alu_SubtractCarry
      else if code = 4 then Alu_And else if code = 5 then Alu_Xor
      else if code = 6 then Alu_Or else Alu_Compare)"

definition cb_rotate :: "u8 \<Rightarrow> cb_operation" where
  "cb_rotate code =
     (if code = 0 then Cb_RotateLeftCircular else if code = 1 then Cb_RotateRightCircular
      else if code = 2 then Cb_RotateLeft else if code = 3 then Cb_RotateRight
      else if code = 4 then Cb_ShiftLeftArithmetic else if code = 5 then Cb_ShiftRightArithmetic
      else if code = 6 then Cb_SwapNibbles else Cb_ShiftRightLogical)"

definition indirect_accumulator :: "u8 \<Rightarrow> operation" where
  "indirect_accumulator y =
     (let h = drop_bit 1 y;
          address = (if h = 0 then Ind_Bc else if h = 1 then Ind_De
                     else if h = 2 then Ind_HlIncrement else Ind_HlDecrement);
          direction = (if y AND 1 = 0 then Dir_FromAccumulator else Dir_IntoAccumulator)
      in Op_LoadAccumulatorIndirect address direction)"

definition block_zero_misc :: "u8 \<Rightarrow> operation" where
  "block_zero_misc y =
     (if y = 0 then Op_RotateAccumulator Cb_RotateLeftCircular
      else if y = 1 then Op_RotateAccumulator Cb_RotateRightCircular
      else if y = 2 then Op_RotateAccumulator Cb_RotateLeft
      else if y = 3 then Op_RotateAccumulator Cb_RotateRight
      else if y = 4 then Op_DecimalAdjust
      else if y = 5 then Op_ComplementAccumulator
      else if y = 6 then Op_SetCarry
      else Op_ComplementCarry)"

section \<open>The four opcode blocks\<close>

type_synonym decoded_row = "operation \<times> u8 \<times> u8 \<times> u8 option"

definition tuple :: "operation \<Rightarrow> u8 \<Rightarrow> u8 \<Rightarrow> decoded_row" where
  "tuple op byte_len m_cycles = (op, byte_len, m_cycles, None)"

definition conditional :: "operation \<Rightarrow> u8 \<Rightarrow> u8 \<Rightarrow> u8 \<Rightarrow> decoded_row" where
  "conditional op byte_len base taken = (op, byte_len, base, Some taken)"

definition decode_block_zero :: "u8 \<Rightarrow> u8 \<Rightarrow> u8 \<Rightarrow> u8 \<Rightarrow> decoded_row" where
  "decode_block_zero y z p q =
     (if z = 0 then
        (if y = 0 then tuple Op_Nop 1 1
         else if y = 1 then tuple Op_StoreSpAbsolute 3 5
         else if y = 2 then tuple Op_Stop 2 1
         else if y = 3 then tuple (Op_RelativeJump None) 2 3
         else conditional (Op_RelativeJump (Some (decode_condition (y - 4)))) 2 2 3)
      else if z = 1 then
        (if q = 0 then tuple (Op_Load16Immediate (decode_register16 p)) 3 3
         else tuple (Op_AddHl (decode_register16 p)) 1 2)
      else if z = 2 then tuple (indirect_accumulator y) 1 2
      else if z = 3 then
        (if q = 0 then tuple (Op_Increment16 (decode_register16 p)) 1 2
         else tuple (Op_Decrement16 (decode_register16 p)) 1 2)
      else if z = 4 then tuple (Op_Increment8 (decode_operand8 y)) 1 (if y = 6 then 3 else 1)
      else if z = 5 then tuple (Op_Decrement8 (decode_operand8 y)) 1 (if y = 6 then 3 else 1)
      else if z = 6 then tuple (Op_Load8Immediate (decode_operand8 y)) 2 (if y = 6 then 3 else 2)
      else tuple (block_zero_misc y) 1 1)"

definition decode_block_one :: "u8 \<Rightarrow> u8 \<Rightarrow> decoded_row" where
  "decode_block_one y z =
     (if y = 6 \<and> z = 6 then tuple Op_Halt 1 1
      else tuple (Op_Load8 (decode_operand8 y) (decode_operand8 z)) 1
             (if y = 6 \<or> z = 6 then 2 else 1))"

definition decode_block_two :: "u8 \<Rightarrow> u8 \<Rightarrow> decoded_row" where
  "decode_block_two y z =
     tuple (Op_Alu8 (decode_alu_operation y) (decode_operand8 z)) 1 (if z = 6 then 2 else 1)"

definition decode_block_three_z_one :: "u8 \<Rightarrow> u8 \<Rightarrow> decoded_row" where
  "decode_block_three_z_one p q =
     (if q = 0 then tuple (Op_Pop (decode_stack_register16 p)) 1 3
      else if p = 0 then tuple (Op_Return None) 1 4
      else if p = 1 then tuple Op_ReturnFromInterrupt 1 4
      else if p = 2 then tuple Op_JumpHl 1 1
      else tuple Op_LoadSpHl 1 2)"

definition decode_block_three :: "u8 \<Rightarrow> u8 \<Rightarrow> u8 \<Rightarrow> u8 \<Rightarrow> decoded_row" where
  "decode_block_three y z p q =
     (if z = 0 then
        (if y \<le> 3 then conditional (Op_Return (Some (decode_condition y))) 1 2 5
         else if y = 4 then tuple (Op_HighImmediateLoad Dir_FromAccumulator) 2 3
         else if y = 5 then tuple Op_AddSpOffset 2 4
         else if y = 6 then tuple (Op_HighImmediateLoad Dir_IntoAccumulator) 2 3
         else tuple Op_LoadHlSpOffset 2 3)
      else if z = 1 then decode_block_three_z_one p q
      else if z = 2 then
        (if y \<le> 3 then conditional (Op_Jump (Some (decode_condition y))) 3 3 4
         else if y = 4 then tuple (Op_HighCLoad Dir_FromAccumulator) 1 2
         else if y = 5 then tuple (Op_AbsoluteAccumulatorLoad Dir_FromAccumulator) 3 4
         else if y = 6 then tuple (Op_HighCLoad Dir_IntoAccumulator) 1 2
         else tuple (Op_AbsoluteAccumulatorLoad Dir_IntoAccumulator) 3 4)
      else if z = 3 then
        (if y = 0 then tuple (Op_Jump None) 3 4
         else if y = 1 then tuple Op_PrefixCb 1 1
         else if y = 6 then tuple Op_DisableInterrupts 1 1
         else tuple Op_EnableInterrupts 1 1)
      else if z = 4 then conditional (Op_Call (Some (decode_condition y))) 3 3 6
      else if z = 5 then
        (if q = 0 then tuple (Op_Push (decode_stack_register16 p)) 1 4
         else tuple (Op_Call None) 3 6)
      else if z = 6 then tuple (Op_Alu8 (decode_alu_operation y) Opd_Immediate) 2 2
      else tuple (Op_Restart (push_bit 3 y)) 1 4)"

section \<open>The tables\<close>

definition is_undefined :: "u8 \<Rightarrow> bool" where
  "is_undefined b \<longleftrightarrow>
     b \<in> {0xd3, 0xdb, 0xdd, 0xe3, 0xe4, 0xeb, 0xec, 0xed, 0xf4, 0xfc, 0xfd}"

definition decode_row :: "u8 \<Rightarrow> decoded_row" where
  "decode_row b =
     (let x = drop_bit 6 b; y = drop_bit 3 b AND 7; z = b AND 7; p = drop_bit 1 y; q = y AND 1
      in if x = 0 then decode_block_zero y z p q
         else if x = 1 then decode_block_one y z
         else if x = 2 then decode_block_two y z
         else decode_block_three y z p q)"

definition decode_defined_primary :: "u8 \<Rightarrow> decoded_instruction" where
  "decode_defined_primary b =
     (case decode_row b of (op, byte_len, base, taken) \<Rightarrow>
        instruction (Enc_Primary b) op byte_len base taken)"

definition decode_primary :: "u8 \<Rightarrow> opcode_classification" where
  "decode_primary b =
     (if is_undefined b then Undefined b else Defined (decode_defined_primary b))"

definition cb_operation_of :: "u8 \<Rightarrow> u8 \<Rightarrow> cb_operation" where
  "cb_operation_of x y =
     (if x = 0 then cb_rotate y else if x = 1 then Cb_TestBit y else if x = 2 then Cb_ResetBit y
      else Cb_SetBit y)"

definition decode_cb :: "u8 \<Rightarrow> decoded_instruction" where
  "decode_cb b =
     (let x = drop_bit 6 b; y = drop_bit 3 b AND 7; z = b AND 7;
          target = decode_operand8 z;
          op = cb_operation_of x y;
          m_cycles = (if x = 1 \<and> target = Opd_IndirectHl then 3
                      else if target = Opd_IndirectHl then 4 else 2)
      in instruction (Enc_Cb b) (Op_Cb op target) 2 m_cycles None)"

text \<open>\<open>CompleteOpcodeTable\<close>: all 256 primary classifications and all 256 CB rows in byte order.\<close>

definition all_bytes :: "u8 list" where
  "all_bytes = map word_of_nat [0..<256]"

definition primary_entries :: "opcode_classification list" where
  "primary_entries = map decode_primary all_bytes"

definition cb_entries :: "decoded_instruction list" where
  "cb_entries = map decode_cb all_bytes"

section \<open>Facts about every opcode\<close>

named_theorems decode_defs \<open>definitions unfolded by a case analysis over the opcode table\<close>

lemmas decode_block_defs [decode_defs] =
  decode_row_def decode_block_zero_def decode_block_one_def decode_block_two_def
  decode_block_three_def decode_block_three_z_one_def tuple_def conditional_def
  indirect_accumulator_def block_zero_misc_def

text \<open>A property of an opcode's row holds for all bytes once it holds row by row.\<close>

lemma all_bytes_iff: "(\<forall>b. P b) \<longleftrightarrow> list_all P all_bytes"
  by (simp add: all_u8 all_bytes_def)

lemma set_all_bytes [simp]: "set all_bytes = UNIV"
  using all_bytes_iff [of "\<lambda>b. b \<in> set all_bytes"] by (auto simp: list_all_iff)

lemma length_all_bytes [simp]: "length all_bytes = 256"
  by (simp add: all_bytes_def)

lemma nth_all_bytes: "n < 256 \<Longrightarrow> all_bytes ! n = word_of_nat n"
  by (simp add: all_bytes_def)

lemma distinct_all_bytes [simp]: "distinct all_bytes"
proof -
  have "inj_on (word_of_nat :: nat \<Rightarrow> u8) {0..<256}"
    by (rule inj_on_inverseI [where g = unat]) (simp add: unat_of_nat)
  then show ?thesis by (simp add: all_bytes_def distinct_map)
qed

text \<open>
  The immediates an operation's semantics reads: this is what the decoder's byte length has to
  provide (\<open>byte_len - 1\<close> bytes for a primary encoding).
\<close>

fun immediates_needed :: "operation \<Rightarrow> nat" where
  "immediates_needed Op_StoreSpAbsolute = 2"
| "immediates_needed (Op_Load16Immediate _) = 2"
| "immediates_needed (Op_AbsoluteAccumulatorLoad _) = 2"
| "immediates_needed (Op_Jump _) = 2"
| "immediates_needed (Op_Call _) = 2"
| "immediates_needed Op_Stop = 1"
| "immediates_needed (Op_RelativeJump _) = 1"
| "immediates_needed (Op_Load8Immediate _) = 1"
| "immediates_needed (Op_Alu8 _ Opd_Immediate) = 1"
| "immediates_needed (Op_HighImmediateLoad _) = 1"
| "immediates_needed Op_AddSpOffset = 1"
| "immediates_needed Op_LoadHlSpOffset = 1"
| "immediates_needed _ = 0"

text \<open>
  Operations a decoded instruction can carry: destinations are never the immediate operand,
  bit indices are below eight, accumulator rotates are one of the four rotate forms.
\<close>

fun operand_writable :: "operand8 \<Rightarrow> bool" where
  "operand_writable Opd_Immediate = False"
| "operand_writable _ = True"

fun decodable_operation :: "operation \<Rightarrow> bool" where
  "decodable_operation (Op_Increment8 opd) = operand_writable opd"
| "decodable_operation (Op_Decrement8 opd) = operand_writable opd"
| "decodable_operation (Op_Load8Immediate opd) = operand_writable opd"
| "decodable_operation (Op_Load8 dst src) = (operand_writable dst \<and> operand_writable src)"
| "decodable_operation (Op_Cb cb opd) =
     (operand_writable opd \<and>
      (case cb of Cb_TestBit b \<Rightarrow> b < 8 | Cb_ResetBit b \<Rightarrow> b < 8 | Cb_SetBit b \<Rightarrow> b < 8 | _ \<Rightarrow> True))"
| "decodable_operation (Op_RotateAccumulator cb) = is_rotate_form cb"
| "decodable_operation (Op_Restart v) = (v AND 7 = 0)"
| "decodable_operation _ = True"

definition row_ok :: "decoded_row \<Rightarrow> bool" where
  "row_ok r \<longleftrightarrow>
     (case r of (op, n, base, taken) \<Rightarrow>
        decodable_operation op \<and> canonical_operation op \<and>
        unat n = Suc (immediates_needed op) \<and>
        1 \<le> base \<and> base \<le> 6 \<and>
        (case taken of None \<Rightarrow> True | Some t \<Rightarrow> base < t \<and> t \<le> 6))"

lemma operand_writable_decode [simp]: "operand_writable (decode_operand8 c)"
  by (simp add: decode_operand8_def)

lemma immediates_needed_alu [simp]: "immediates_needed (Op_Alu8 a (decode_operand8 c)) = 0"
  by (simp add: decode_operand8_def)

lemma push_3_and_7 [simp]: "push_bit 3 y AND 7 = (0 :: u8)"
proof -
  have "(7 :: u8) = mask 3" by (simp add: mask_eq_exp_minus_1)
  then show ?thesis by (auto simp: bit_eq_iff bit_simps)
qed

lemma row_ok_blocks:
  "row_ok (decode_block_zero y z p q)" "row_ok (decode_block_one y z)"
  "row_ok (decode_block_two y z)" "row_ok (decode_block_three y z p q)"
  by (simp_all add: row_ok_def decode_defs Let_def)

lemma row_ok_all: "row_ok (decode_row b)"
  by (simp add: decode_row_def Let_def row_ok_blocks)

lemma row_ok_prefix:
  "fst (decode_row b) = Op_PrefixCb \<longleftrightarrow> b = 0xcb"
proof -
  have fields: "\<forall>b::u8. drop_bit 6 b \<noteq> 0 \<and> drop_bit 6 b \<noteq> 1 \<and> drop_bit 6 b \<noteq> 2 \<and>
     drop_bit 3 b AND 7 = 1 \<and> b AND 7 = 3 \<longleftrightarrow> b = 0xcb"
    unfolding all_u8 by code_simp
  have "fst (decode_row b) = Op_PrefixCb \<longleftrightarrow>
     drop_bit 6 b \<noteq> 0 \<and> drop_bit 6 b \<noteq> 1 \<and> drop_bit 6 b \<noteq> 2 \<and> drop_bit 3 b AND 7 = 1 \<and> b AND 7 = 3"
    by (simp add: decode_defs Let_def)
  with fields show ?thesis by blast
qed

definition cb_ok :: "decoded_instruction \<Rightarrow> bool" where
  "cb_ok i \<longleftrightarrow>
     decodable_operation (di_operation i) \<and> canonical_operation (di_operation i) \<and>
     di_byte_len i = 2 \<and> 2 \<le> base_m_cycles (di_timing i) \<and> base_m_cycles (di_timing i) \<le> 4 \<and>
     taken_m_cycles (di_timing i) = None"

lemma and_7_less_8 [simp]: "(y :: u8) AND 7 < 8"
  using word_and_mask_less [of 3 y] by (simp add: mask_eq_exp_minus_1)

lemma cb_ok_all: "cb_ok (decode_cb b)"
  by (simp add: cb_ok_def decode_cb_def Let_def cb_operation_of_def cb_rotate_def)

lemma decode_primary_Defined:
  "decode_primary b = Defined i \<longleftrightarrow> \<not> is_undefined b \<and> i = decode_defined_primary b"
  by (auto simp: decode_primary_def)

lemma decode_defined_primary_simps [simp]:
  "di_encoding (decode_defined_primary b) = Enc_Primary b"
  "di_operation (decode_defined_primary b) = fst (decode_row b)"
  "di_byte_len (decode_defined_primary b) = fst (snd (decode_row b))"
  "di_class (decode_defined_primary b) = instr_class (fst (decode_row b))"
  "di_flags (decode_defined_primary b) = flag_effect_of (fst (decode_row b))"
  "di_state_access (decode_defined_primary b) = state_access_of (fst (decode_row b))"
  "base_m_cycles (di_timing (decode_defined_primary b)) = fst (snd (snd (decode_row b)))"
  "taken_m_cycles (di_timing (decode_defined_primary b)) = snd (snd (snd (decode_row b)))"
  by (auto simp: decode_defined_primary_def split: prod.splits)

lemma decode_cb_simps [simp]:
  "di_encoding (decode_cb b) = Enc_Cb b"
  "di_byte_len (decode_cb b) = 2"
  "di_class (decode_cb b) = instr_class (di_operation (decode_cb b))"
  "di_flags (decode_cb b) = flag_effect_of (di_operation (decode_cb b))"
  "di_state_access (decode_cb b) = state_access_of (di_operation (decode_cb b))"
  by (simp_all add: decode_cb_def Let_def)

text \<open>The defined instructions: what either table produces.\<close>

definition defined_instruction :: "decoded_instruction \<Rightarrow> bool" where
  "defined_instruction i \<longleftrightarrow> (\<exists>b. decode_primary b = Defined i) \<or> (\<exists>b. i = decode_cb b)"

lemma defined_instructionE:
  assumes "defined_instruction i"
  obtains b where "\<not> is_undefined b" "i = decode_defined_primary b" | b where "i = decode_cb b"
  using assms by (auto simp: defined_instruction_def decode_primary_Defined)

lemma defined_class: "defined_instruction i \<Longrightarrow> di_class i = instr_class (di_operation i)"
  by (erule defined_instructionE) simp_all

lemma defined_flags: "defined_instruction i \<Longrightarrow> di_flags i = flag_effect_of (di_operation i)"
  by (erule defined_instructionE) simp_all

lemma defined_state_access:
  "defined_instruction i \<Longrightarrow> di_state_access i = state_access_of (di_operation i)"
  by (erule defined_instructionE) simp_all

lemma defined_decodable: "defined_instruction i \<Longrightarrow> decodable_operation (di_operation i)"
  by (erule defined_instructionE)
     (use row_ok_all cb_ok_all in \<open>force simp: row_ok_def cb_ok_def case_prod_beta\<close>)+

lemma defined_canonical: "defined_instruction i \<Longrightarrow> canonical_operation (di_operation i)"
  by (erule defined_instructionE)
     (use row_ok_all cb_ok_all in \<open>force simp: row_ok_def cb_ok_def case_prod_beta\<close>)+

lemma primary_byte_len:
  "unat (di_byte_len (decode_defined_primary b)) =
     Suc (immediates_needed (di_operation (decode_defined_primary b)))"
  using row_ok_all [of b] by (simp add: row_ok_def case_prod_beta)

lemma primary_prefix_iff:
  "di_operation (decode_defined_primary b) = Op_PrefixCb \<longleftrightarrow> b = 0xcb"
  by (simp add: row_ok_prefix)

lemma defined_timing:
  assumes "defined_instruction i"
  shows "1 \<le> base_m_cycles (di_timing i)" "base_m_cycles (di_timing i) \<le> 6"
    and "taken_m_cycles (di_timing i) = Some t \<Longrightarrow> base_m_cycles (di_timing i) < t \<and> t \<le> 6"
proof -
  have "1 \<le> base_m_cycles (di_timing i) \<and> base_m_cycles (di_timing i) \<le> 6 \<and>
    (\<forall>t. taken_m_cycles (di_timing i) = Some t \<longrightarrow> base_m_cycles (di_timing i) < t \<and> t \<le> 6)"
    using assms
  proof (cases rule: defined_instructionE)
    case (1 b)
    then show ?thesis
      using row_ok_all [of b] by (auto simp: row_ok_def case_prod_beta split: option.splits)
  next
    case (2 b)
    then have "2 \<le> base_m_cycles (di_timing i)" "base_m_cycles (di_timing i) \<le> 4"
      "taken_m_cycles (di_timing i) = None"
      using cb_ok_all [of b] by (auto simp: cb_ok_def)
    then show ?thesis
      using order_trans [of 1 2 "base_m_cycles (di_timing i)"]
        order_trans [of "base_m_cycles (di_timing i)" 4 6] by simp
  qed
  then show "1 \<le> base_m_cycles (di_timing i)" "base_m_cycles (di_timing i) \<le> 6"
    "taken_m_cycles (di_timing i) = Some t \<Longrightarrow> base_m_cycles (di_timing i) < t \<and> t \<le> 6"
    by auto
qed

end
