(* ===== verification/Isa_Alignment.thy ===== *)
theory Isa_Alignment
  imports Isa_Decode
begin

text \<open>
  The proof-ISA alignment rows of \<open>crates/zksm83-isa/src/alignment.rs\<close>: the uniform record
  built from a decoded instruction, the table of all defined rows, and the fixed-width packing
  into one 128-bit integer. The lemmas show that packing is collision free (unpacking inverts
  it), that a packed row fits 106 bits, and that every defined instruction packs.
\<close>

section \<open>Rows\<close>

record alignment_key =
  ak_prefix :: u8
  ak_opcode :: u8

datatype program_counter_rule =
    Pcr_Sequential | Pcr_Relative | Pcr_Absolute | Pcr_IndirectHl | Pcr_Call | Pcr_Return
  | Pcr_Restart

fun program_counter_rule_code :: "program_counter_rule \<Rightarrow> u8" where
  "program_counter_rule_code Pcr_Sequential = 0"
| "program_counter_rule_code Pcr_Relative = 1"
| "program_counter_rule_code Pcr_Absolute = 2"
| "program_counter_rule_code Pcr_IndirectHl = 3"
| "program_counter_rule_code Pcr_Call = 4"
| "program_counter_rule_code Pcr_Return = 5"
| "program_counter_rule_code Pcr_Restart = 6"

record aligned_instruction =
  ai_key :: alignment_key
  ai_family_id :: u8
  ai_operation :: u8
  ai_argument_zero :: u8
  ai_argument_one :: u8
  ai_byte_len :: u8
  ai_base_m_cycles :: u8
  ai_taken_m_cycles :: u8
  ai_pc_rule :: u8
  ai_flag_rule :: u8
  ai_register_reads :: u16
  ai_register_writes :: u16
  ai_opcode_fetches :: u8
  ai_immediate_reads :: u8
  ai_data_reads :: u8
  ai_data_writes :: u8
  ai_taken_data_reads :: u8
  ai_taken_data_writes :: u8

fun flag_action_code :: "flag_action \<Rightarrow> u8" where
  "flag_action_code FA_Preserve = 0"
| "flag_action_code FA_Clear = 1"
| "flag_action_code FA_Set = 2"
| "flag_action_code FA_Derived = 3"

fun pc_rule :: "operation \<Rightarrow> program_counter_rule" where
  "pc_rule (Op_RelativeJump _) = Pcr_Relative"
| "pc_rule (Op_Jump _) = Pcr_Absolute"
| "pc_rule Op_JumpHl = Pcr_IndirectHl"
| "pc_rule (Op_Call _) = Pcr_Call"
| "pc_rule (Op_Return _) = Pcr_Return"
| "pc_rule Op_ReturnFromInterrupt = Pcr_Return"
| "pc_rule (Op_Restart _) = Pcr_Restart"
| "pc_rule _ = Pcr_Sequential"

text \<open>The fold over \<open>StateComponent::all().enumerate()\<close> that rebuilds the two masks.\<close>

definition access_masks :: "state_access \<Rightarrow> u16 \<times> u16" where
  "access_masks sa =
     fold (\<lambda>(i, c) (reads, writes).
        ((if state_access_reads sa c then reads OR push_bit i 1 else reads),
         (if state_access_writes sa c then writes OR push_bit i 1 else writes)))
       (List.enumerate 0 state_component_all) (0, 0)"

definition flag_rule_code :: "flag_effect \<Rightarrow> u8" where
  "flag_rule_code fe =
     flag_action_code (fe_zero fe) OR push_bit 2 (flag_action_code (fe_subtract fe)) OR
     push_bit 4 (flag_action_code (fe_half_carry fe)) OR push_bit 6 (flag_action_code (fe_carry fe))"

definition from_decoded :: "decoded_instruction \<Rightarrow> aligned_instruction" where
  "from_decoded i =
     (let key = (case di_encoding i of
                   Enc_Primary b \<Rightarrow> \<lparr>ak_prefix = 0, ak_opcode = b\<rparr>
                 | Enc_Cb b \<Rightarrow> \<lparr>ak_prefix = 1, ak_opcode = b\<rparr>);
          d = descriptor (di_operation i);
          m = access_masks (di_state_access i)
      in \<lparr>ai_key = key,
          ai_family_id = instruction_class_code (di_class i),
          ai_operation = id_operation d,
          ai_argument_zero = id_argument_zero d,
          ai_argument_one = id_argument_one d,
          ai_byte_len = di_byte_len i,
          ai_base_m_cycles = base_m_cycles (di_timing i),
          ai_taken_m_cycles = (case taken_m_cycles (di_timing i) of None \<Rightarrow> 0 | Some t \<Rightarrow> t),
          ai_pc_rule = program_counter_rule_code (pc_rule (di_operation i)),
          ai_flag_rule = flag_rule_code (di_flags i),
          ai_register_reads = fst m,
          ai_register_writes = snd m,
          ai_opcode_fetches = opcode_fetches (di_bus i),
          ai_immediate_reads = immediate_reads (di_bus i),
          ai_data_reads = data_reads (di_bus i),
          ai_data_writes = data_writes (di_bus i),
          ai_taken_data_reads = taken_data_reads (di_bus i),
          ai_taken_data_writes = taken_data_writes (di_bus i)\<rparr>)"

definition alignment_all :: "aligned_instruction list" where
  "alignment_all =
     List.map_filter
       (\<lambda>e. case e of Defined i \<Rightarrow> Some (from_decoded i) | Undefined _ \<Rightarrow> None) primary_entries
     @ map from_decoded cb_entries"

section \<open>Packing\<close>

record alignment_packing_error =
  ape_field :: string
  ape_value :: u64
  ape_bits :: u8

definition checked_shl_u64 :: "u64 \<Rightarrow> u8 \<Rightarrow> u64 option" where
  "checked_shl_u64 x bits = (if unat bits < 64 then Some (push_bit (unat bits) x) else None)"

definition append_packed ::
  "u128 \<times> u8 \<Rightarrow> string \<times> u64 \<times> u8 \<Rightarrow> alignment_packing_error + (u128 \<times> u8)" where
  "append_packed st fld =
     (case st of (packed, shift) \<Rightarrow> case fld of (name, value, bits) \<Rightarrow>
        let limit = (case checked_shl_u64 1 bits of None \<Rightarrow> 0 | Some l \<Rightarrow> l)
        in if limit \<le> value \<or> 128 < unat shift + unat bits
           then Inl \<lparr>ape_field = name, ape_value = value, ape_bits = bits\<rparr>
           else Inr (packed OR push_bit (unat shift) (ucast value), saturating_add shift bits))"

definition packed_fields :: "aligned_instruction \<Rightarrow> (string \<times> u64 \<times> u8) list" where
  "packed_fields r =
     [(''prefix'', ucast (ak_prefix (ai_key r)), 1),
      (''opcode'', ucast (ak_opcode (ai_key r)), 8),
      (''family_id'', ucast (ai_family_id r), 8),
      (''operation'', ucast (ai_operation r), 8),
      (''argument_zero'', ucast (ai_argument_zero r), 8),
      (''argument_one'', ucast (ai_argument_one r), 8),
      (''byte_len'', ucast (ai_byte_len r), 2),
      (''base_m_cycles'', ucast (ai_base_m_cycles r), 4),
      (''taken_m_cycles'', ucast (ai_taken_m_cycles r), 4),
      (''pc_rule'', ucast (ai_pc_rule r), 3),
      (''flag_rule'', ucast (ai_flag_rule r), 8),
      (''register_reads'', ucast (ai_register_reads r), 16),
      (''register_writes'', ucast (ai_register_writes r), 16),
      (''opcode_fetches'', ucast (ai_opcode_fetches r), 2),
      (''immediate_reads'', ucast (ai_immediate_reads r), 2),
      (''data_reads'', ucast (ai_data_reads r), 2),
      (''data_writes'', ucast (ai_data_writes r), 2),
      (''taken_data_reads'', ucast (ai_taken_data_reads r), 2),
      (''taken_data_writes'', ucast (ai_taken_data_writes r), 2)]"

definition packed_row :: "aligned_instruction \<Rightarrow> alignment_packing_error + u128" where
  "packed_row r = and_then (try_fold append_packed (0, 0) (packed_fields r)) (\<lambda>st. Inr (fst st))"

section \<open>Unpacking inverts packing\<close>

fun unpack_fields :: "u8 list \<Rightarrow> u128 \<Rightarrow> u64 list" where
  "unpack_fields [] p = []"
| "unpack_fields (b # bs) p =
     ucast (take_bit (unat b) p) # unpack_fields bs (drop_bit (unat b) p)"

text \<open>One accepted field occupies exactly its own bits above the fields already packed.\<close>

lemma append_packed_Inr:
  assumes "append_packed (p, s) (n, v, b) = Inr (p', s')" and fit: "take_bit (unat s) p = p"
  shows "unat s' = unat s + unat b" "unat s' \<le> 128"
    "take_bit (unat s) p' = p" "take_bit (unat b) (drop_bit (unat s) p') = ucast v"
    "take_bit (unat s') p' = p'" "unat v < 2 ^ unat b"
proof -
  have le: "unat s + unat b \<le> 128" and p': "p' = p OR push_bit (unat s) (ucast v)"
    and s': "s' = saturating_add s b" and lim: "\<not> (case checked_shl_u64 1 b of None \<Rightarrow> 0 | Some l \<Rightarrow> l) \<le> v"
    using assms(1) by (auto simp: append_packed_def Let_def not_less split: if_splits)
  from lim have b64: "unat b < 64" by (auto simp: checked_shl_u64_def split: if_splits)
  with lim have "v < push_bit (unat b) 1" by (simp add: checked_shl_u64_def)
  then have "v < 2 ^ unat b" by (simp add: push_bit_eq_mult)
  then show v: "unat v < 2 ^ unat b" using b64 by (simp add: word_less_nat_alt unat_pow2)
  from s' le show s'': "unat s' = unat s + unat b" by (simp add: saturating_add_def unat_word_ariths)
  from s'' le show "unat s' \<le> 128" by simp
  have vb: "\<And>k. bit v k \<Longrightarrow> k < unat b"
    using bit_word_bound v by blast
  have pb: "\<And>k. bit p k \<Longrightarrow> k < unat s"
    using fit by (metis bit_take_bit_iff)
  show "take_bit (unat s) p' = p" using pb
    by (intro bit_word_eqI) (auto simp: p' bit_simps dest: pb)
  show "take_bit (unat b) (drop_bit (unat s) p') = ucast v"
    using le by (intro bit_word_eqI) (auto simp: p' bit_simps dest: vb pb bit_imp_le_length)
  show "take_bit (unat s') p' = p'"
    unfolding s'' by (intro bit_word_eqI) (auto simp: p' bit_simps dest: vb pb)
qed

lemma unpack_try_fold:
  assumes "try_fold append_packed (p, s) fs = Inr (p', s')" "take_bit (unat s) p = p"
  shows "take_bit (unat s) p' = p \<and> take_bit (unat s') p' = p' \<and>
    unat s' = unat s + (\<Sum>f\<leftarrow>fs. unat (snd (snd f))) \<and>
    unpack_fields (map (snd \<circ> snd) fs) (drop_bit (unat s) p') = map (fst \<circ> snd) fs"
  using assms
proof (induction fs arbitrary: p s)
  case Nil
  then show ?case by simp
next
  case (Cons f fs)
  obtain n v b where f: "f = (n, v, b)" by (cases f) auto
  from Cons.prems(1) obtain p1 s1 where one: "append_packed (p, s) (n, v, b) = Inr (p1, s1)"
    and rest: "try_fold append_packed (p1, s1) fs = Inr (p', s')"
    by (auto simp: f)
  note a = append_packed_Inr [OF one Cons.prems(2)]
  from Cons.IH [OF rest a(5)] have ih: "take_bit (unat s1) p' = p1" "take_bit (unat s') p' = p'"
    "unat s' = unat s1 + (\<Sum>f\<leftarrow>fs. unat (snd (snd f)))"
    "unpack_fields (map (snd \<circ> snd) fs) (drop_bit (unat s1) p') = map (fst \<circ> snd) fs"
    by blast+
  have low: "take_bit (unat s) p' = p"
  proof -
    have "take_bit (unat s) p' = take_bit (unat s) (take_bit (unat s1) p')"
      using a(1) by simp
    with ih(1) a(3) show ?thesis by simp
  qed
  have mid: "take_bit (unat b) (drop_bit (unat s) p') = ucast v"
  proof -
    have "take_bit (unat b) (drop_bit (unat s) p') = take_bit (unat b) (drop_bit (unat s) (take_bit (unat s1) p'))"
      using a(1) by (intro bit_word_eqI) (auto simp: bit_simps)
    with ih(1) a(4) show ?thesis by simp
  qed
  have "drop_bit (unat b) (drop_bit (unat s) p') = drop_bit (unat s1) p'"
    using a(1) by (simp add: add.commute)
  then show ?case using low mid ih a(1) by (simp add: f comp_def)
qed

lemma packed_row_Inr:
  assumes "packed_row r = Inr p"
  shows "unpack_fields (map (snd \<circ> snd) (packed_fields r)) p = map (fst \<circ> snd) (packed_fields r)"
    and "take_bit 106 p = p"
proof -
  obtain s where "try_fold append_packed (0, 0) (packed_fields r) = Inr (p, s)"
    using assms by (auto simp: packed_row_def)
  from unpack_try_fold [OF this] have "take_bit (unat s) p = p"
    and s: "unat s = (\<Sum>f\<leftarrow>packed_fields r. unat (snd (snd f)))"
    and u: "unpack_fields (map (snd \<circ> snd) (packed_fields r)) p = map (fst \<circ> snd) (packed_fields r)"
    by auto
  moreover have "unat s = 106" unfolding s by (simp add: packed_fields_def)
  ultimately show "take_bit 106 p = p" by simp
  from u show "unpack_fields (map (snd \<circ> snd) (packed_fields r)) p = map (fst \<circ> snd) (packed_fields r)" .
qed

lemma packed_fields_inject:
  "map (fst \<circ> snd) (packed_fields a) = map (fst \<circ> snd) (packed_fields b) \<longleftrightarrow> a = b"
proof
  assume "map (fst \<circ> snd) (packed_fields a) = map (fst \<circ> snd) (packed_fields b)"
  then show "a = b"
    by (simp add: packed_fields_def aligned_instruction.equality alignment_key.equality)
qed simp

section \<open>Every defined instruction packs\<close>

text \<open>When each field is within its width, the packing loop accepts it.\<close>

definition fields_fit :: "(string \<times> u64 \<times> u8) list \<Rightarrow> bool" where
  "fields_fit fs \<longleftrightarrow> (\<forall>(n, v, b) \<in> set fs. unat b < 64 \<and> v < 2 ^ unat b)"

lemma try_fold_append_packed_ok:
  assumes "fields_fit fs" "unat s + (\<Sum>f\<leftarrow>fs. unat (snd (snd f))) \<le> 128"
  shows "is_ok (try_fold append_packed (p, s) fs)"
  using assms
proof (induction fs arbitrary: p s)
  case Nil
  then show ?case by simp
next
  case (Cons f fs)
  obtain n v b where f: "f = (n, v, b)" by (cases f) auto
  have b: "unat b < 64" "v < 2 ^ unat b" using Cons.prems(1) by (auto simp: fields_fit_def f)
  have "\<not> push_bit (unat b) 1 \<le> v" using b by (simp add: push_bit_eq_mult not_le)
  then have one: "append_packed (p, s) f = Inr (p OR push_bit (unat s) (ucast v), s + b)"
    using Cons.prems(2) b by (simp add: append_packed_def f Let_def checked_shl_u64_def saturating_add_def)
  have "unat (s + b) = unat s + unat b" using Cons.prems(2) by (simp add: f unat_word_ariths)
  then have "is_ok (try_fold append_packed (p OR push_bit (unat s) (ucast v), s + b) fs)"
    using Cons.IH Cons.prems by (simp add: f fields_fit_def)
  then show ?case by (simp add: one)
qed

lemma immediates_needed_le_2: "immediates_needed op \<le> 2"
  by (cases op rule: immediates_needed.cases) simp_all

lemma data_bus_le_2:
  "data_bus op = (a, b, c, d) \<Longrightarrow> a \<le> 2 \<and> b \<le> 2 \<and> c \<le> 2 \<and> d \<le> 2"
proof (cases op rule: data_bus.cases)
qed (auto split: cb_operation.splits elim!: direction_bus.elims operand_transfer_bus.elims)

lemma fields_fit_packed:
  "fields_fit (packed_fields r) \<longleftrightarrow>
     ak_prefix (ai_key r) < 2 \<and> ai_byte_len r < 4 \<and> ai_base_m_cycles r < 16 \<and>
     ai_taken_m_cycles r < 16 \<and> ai_pc_rule r < 8 \<and> ai_opcode_fetches r < 4 \<and>
     ai_immediate_reads r < 4 \<and> ai_data_reads r < 4 \<and> ai_data_writes r < 4 \<and>
     ai_taken_data_reads r < 4 \<and> ai_taken_data_writes r < 4"
  by (auto simp: fields_fit_def packed_fields_def word_less_nat_alt)

lemma pc_rule_code_less: "program_counter_rule_code r < 8"
  by (cases r) simp_all

lemma defined_bus_bounds:
  assumes "defined_instruction i"
  shows "opcode_fetches (di_bus i) \<le> 2" "immediate_reads (di_bus i) \<le> 2"
    "data_reads (di_bus i) \<le> 2" "data_writes (di_bus i) \<le> 2"
    "taken_data_reads (di_bus i) \<le> 2" "taken_data_writes (di_bus i) \<le> 2"
proof -
  have "opcode_fetches (di_bus i) \<le> 2 \<and> immediate_reads (di_bus i) \<le> 2 \<and>
    data_reads (di_bus i) \<le> 2 \<and> data_writes (di_bus i) \<le> 2 \<and>
    taken_data_reads (di_bus i) \<le> 2 \<and> taken_data_writes (di_bus i) \<le> 2"
    using assms
  proof (cases rule: defined_instructionE)
    case (1 b)
    obtain op n base t where r: "decode_row b = (op, n, base, t)" by (cases "decode_row b") auto
    have "unat n \<le> 3" using row_ok_all [of b] immediates_needed_le_2 [of op]
      by (simp add: row_ok_def r)
    then have "n \<le> 3" by (simp add: word_le_nat_alt)
    then have "saturating_sub n 1 \<le> 2"
      using unat_sub [of 1 n] by (auto simp: saturating_sub_def word_le_nat_alt)
    then show ?thesis using 1
      by (auto simp: decode_defined_primary_def r bus_pattern_def dest: data_bus_le_2 split: prod.splits)
  next
    case (2 b)
    then show ?thesis
      by (auto simp: decode_cb_def Let_def bus_pattern_def dest: data_bus_le_2 split: prod.splits)
  qed
  then show "opcode_fetches (di_bus i) \<le> 2" "immediate_reads (di_bus i) \<le> 2"
    "data_reads (di_bus i) \<le> 2" "data_writes (di_bus i) \<le> 2"
    "taken_data_reads (di_bus i) \<le> 2" "taken_data_writes (di_bus i) \<le> 2" by auto
qed

lemma defined_byte_len_le: "defined_instruction i \<Longrightarrow> di_byte_len i \<le> 3"
  by (erule defined_instructionE)
     (use primary_byte_len immediates_needed_le_2 in \<open>auto simp: word_le_nat_alt le_Suc_eq\<close>)

lemma fields_fit_defined:
  assumes "defined_instruction i"
  shows "fields_fit (packed_fields (from_decoded i))"
proof -
  have less: "v \<le> m \<Longrightarrow> m < n \<Longrightarrow> v < n" for v m n :: u8 by simp
  have "(case taken_m_cycles (di_timing i) of None \<Rightarrow> 0 | Some t \<Rightarrow> t) < 16"
    using defined_timing(3) [OF assms] less [of _ 6 16] by (auto split: option.splits)
  then show ?thesis
    using defined_bus_bounds [OF assms, THEN less [of _ 2 4]] pc_rule_code_less
      defined_timing(2) [OF assms, THEN less [of _ 6 16]]
      defined_byte_len_le [OF assms, THEN less [of _ 3 4]]
    by (simp add: fields_fit_packed from_decoded_def Let_def split: instruction_encoding.split)
qed

lemma packed_defined_ok: "defined_instruction i \<Longrightarrow> is_ok (packed_row (from_decoded i))"
proof -
  assume "defined_instruction i"
  then have "fields_fit (packed_fields (from_decoded i))" by (rule fields_fit_defined)
  then have "is_ok (try_fold append_packed (0, 0) (packed_fields (from_decoded i)))"
    by (rule try_fold_append_packed_ok) (simp add: packed_fields_def)
  then show ?thesis by (auto simp: packed_row_def is_ok_def split: sum.splits)
qed

end
