(* ===== verification/Cpu_State.thy ===== *)
theory Cpu_State
  imports Isa_Types
begin

text \<open>
  CPU snapshot values of \<open>crates/zksm83-core/src/state.rs\<close>: the register file, the validated
  flag byte with a zero low nibble, the interrupt-master-enable and run states, and the
  complete CPU state with its two initial values.
\<close>

section \<open>Registers and flags\<close>

record registers =
  reg_a :: u8
  reg_b :: u8
  reg_c :: u8
  reg_d :: u8
  reg_e :: u8
  reg_h :: u8
  reg_l :: u8

datatype flags = Flags (flags_byte: u8)

definition ZERO_MASK :: u8 where "ZERO_MASK = 0x80"
definition SUBTRACT_MASK :: u8 where "SUBTRACT_MASK = 0x40"
definition HALF_CARRY_MASK :: u8 where "HALF_CARRY_MASK = 0x20"
definition CARRY_MASK :: u8 where "CARRY_MASK = 0x10"

definition bool_mask :: "bool \<Rightarrow> u8 \<Rightarrow> u8" where
  "bool_mask v m = (if v then m else 0)"

text \<open>\<open>Flags::from_byte\<close>: \<open>VmStateError::InvalidFlags\<close> is \<open>Inl\<close> of the rejected byte.\<close>

definition flags_from_byte :: "u8 \<Rightarrow> u8 + flags" where
  "flags_from_byte v = (if v AND 0x0f \<noteq> 0 then Inl v else Inr (Flags v))"

definition flags_from_bits :: "bool \<Rightarrow> bool \<Rightarrow> bool \<Rightarrow> bool \<Rightarrow> flags" where
  "flags_from_bits z n h c =
     Flags (bool_mask z ZERO_MASK OR bool_mask n SUBTRACT_MASK OR bool_mask h HALF_CARRY_MASK OR
            bool_mask c CARRY_MASK)"

definition flag_zero :: "flags \<Rightarrow> bool" where
  "flag_zero f \<longleftrightarrow> flags_byte f AND ZERO_MASK \<noteq> 0"

definition flag_subtract :: "flags \<Rightarrow> bool" where
  "flag_subtract f \<longleftrightarrow> flags_byte f AND SUBTRACT_MASK \<noteq> 0"

definition flag_half_carry :: "flags \<Rightarrow> bool" where
  "flag_half_carry f \<longleftrightarrow> flags_byte f AND HALF_CARRY_MASK \<noteq> 0"

definition flag_carry :: "flags \<Rightarrow> bool" where
  "flag_carry f \<longleftrightarrow> flags_byte f AND CARRY_MASK \<noteq> 0"

lemmas flag_mask_defs = ZERO_MASK_def SUBTRACT_MASK_def HALF_CARRY_MASK_def CARRY_MASK_def

section \<open>CPU state\<close>

datatype ime_state = Ime_Disabled | Ime_EnablePending | Ime_Enabled

fun ime_state_code :: "ime_state \<Rightarrow> u8" where
  "ime_state_code Ime_Disabled = 0"
| "ime_state_code Ime_EnablePending = 1"
| "ime_state_code Ime_Enabled = 2"

datatype run_state = Running | Halted | Stopped | HaltBug

fun run_state_code :: "run_state \<Rightarrow> u8" where
  "run_state_code Running = 0"
| "run_state_code Halted = 1"
| "run_state_code Stopped = 2"
| "run_state_code HaltBug = 3"

definition can_execute_instruction :: "run_state \<Rightarrow> bool" where
  "can_execute_instruction r \<longleftrightarrow> r = Running \<or> r = HaltBug"

record cpu_state =
  cpu_registers :: registers
  cpu_flags :: flags
  cpu_pc :: u16
  cpu_sp :: u16
  cpu_ime :: ime_state
  cpu_run_state :: run_state
  cpu_m_cycles :: u64

definition cpu_profile_initial :: cpu_state where
  "cpu_profile_initial =
     \<lparr>cpu_registers = \<lparr>reg_a = 0, reg_b = 0, reg_c = 0, reg_d = 0, reg_e = 0, reg_h = 0, reg_l = 0\<rparr>,
      cpu_flags = Flags 0, cpu_pc = 0, cpu_sp = 0xff00, cpu_ime = Ime_Disabled,
      cpu_run_state = Running, cpu_m_cycles = 0\<rparr>"

definition cpu_dmg_post_boot_initial :: cpu_state where
  "cpu_dmg_post_boot_initial =
     \<lparr>cpu_registers = \<lparr>reg_a = 0x01, reg_b = 0x00, reg_c = 0x13, reg_d = 0x00, reg_e = 0xd8,
        reg_h = 0x01, reg_l = 0x4d\<rparr>,
      cpu_flags = Flags 0xb0, cpu_pc = 0x0100, cpu_sp = 0xfffe, cpu_ime = Ime_Disabled,
      cpu_run_state = Running, cpu_m_cycles = 0\<rparr>"

section \<open>The flag-byte invariant\<close>

text \<open>The type's promise: only the four high bits are ever set.\<close>

definition flags_wf :: "flags \<Rightarrow> bool" where
  "flags_wf f \<longleftrightarrow> flags_byte f AND 0x0f = 0"

lemma flags_from_bits_bits [simp]:
  "flag_zero (flags_from_bits z n h c) = z"
  "flag_subtract (flags_from_bits z n h c) = n"
  "flag_half_carry (flags_from_bits z n h c) = h"
  "flag_carry (flags_from_bits z n h c) = c"
  by (cases z; cases n; cases h; cases c;
      simp add: flags_from_bits_def flag_zero_def flag_subtract_def flag_half_carry_def
        flag_carry_def bool_mask_def flag_mask_defs)+

lemma flags_wf_from_bits [simp]: "flags_wf (flags_from_bits z n h c)"
  by (simp add: flags_wf_def flags_from_bits_def bool_mask_def flag_mask_defs)

lemma flags_from_bits_inject [simp]:
  "flags_from_bits z n h c = flags_from_bits z' n' h' c' \<longleftrightarrow> z = z' \<and> n = n' \<and> h = h' \<and> c = c'"
  by (auto dest: arg_cong [where f = flag_zero] arg_cong [where f = flag_subtract]
      arg_cong [where f = flag_half_carry] arg_cong [where f = flag_carry])

lemma flags_from_byte_Inr: "flags_from_byte v = Inr f \<longleftrightarrow> f = Flags v \<and> flags_wf f"
  by (auto simp: flags_from_byte_def flags_wf_def)

lemma flags_from_byte_masked [simp]: "flags_from_byte (v AND 0xf0) = Inr (Flags (v AND 0xf0))"
  by (simp add: flags_from_byte_def and.assoc)

text \<open>A well-formed flag byte is its four propositions.\<close>

lemma flags_wf_byte:
  "v AND 0x0f = 0 \<Longrightarrow> flags_from_bits (v AND 0x80 \<noteq> 0) (v AND 0x40 \<noteq> 0) (v AND 0x20 \<noteq> 0)
     (v AND 0x10 \<noteq> 0) = Flags v"
proof -
  have "\<forall>v::u8. v AND 0x0f = 0 \<longrightarrow>
     bool_mask (v AND 0x80 \<noteq> 0) 0x80 OR bool_mask (v AND 0x40 \<noteq> 0) 0x40 OR
     bool_mask (v AND 0x20 \<noteq> 0) 0x20 OR bool_mask (v AND 0x10 \<noteq> 0) 0x10 = v"
    unfolding all_u8 by code_simp
  then show "v AND 0x0f = 0 \<Longrightarrow> ?thesis"
    by (simp add: flags_from_bits_def flag_mask_defs)
qed

lemma flags_wf_bits:
  "flags_wf f \<Longrightarrow>
     flags_from_bits (flag_zero f) (flag_subtract f) (flag_half_carry f) (flag_carry f) = f"
  by (cases f)
     (simp add: flags_wf_def flag_zero_def flag_subtract_def flag_half_carry_def flag_carry_def
       flag_mask_defs flags_wf_byte)

lemma flags_wfE:
  assumes "flags_wf f"
  obtains z n h c where "f = flags_from_bits z n h c"
  using flags_wf_bits [OF assms] by metis

end
