(* ===== verification/Alu.thy ===== *)
theory Alu
  imports Cpu_State
begin

text \<open>
  The pure arithmetic of \<open>crates/zksm83-core/src/alu.rs\<close>: byte and word addition, subtraction,
  logic, rotates and shifts, and the decimal adjustment, each with the flags it produces. The
  lemmas give the natural-number meaning of every result and flag; the decimal adjustment is
  characterised against packed-BCD arithmetic in both directions.
\<close>

section \<open>Operations\<close>

record byte_result =
  br_value :: u8
  br_flags :: flags

definition increment :: "u8 \<Rightarrow> flags \<Rightarrow> byte_result" where
  "increment v before =
     (let result = v + 1
      in \<lparr>br_value = result,
          br_flags = flags_from_bits (result = 0) False (v AND 0x0f = 0x0f) (flag_carry before)\<rparr>)"

definition decrement :: "u8 \<Rightarrow> flags \<Rightarrow> byte_result" where
  "decrement v before =
     (let result = v - 1
      in \<lparr>br_value = result,
          br_flags = flags_from_bits (result = 0) True (v AND 0x0f = 0) (flag_carry before)\<rparr>)"

definition add_hl :: "u16 \<Rightarrow> u16 \<Rightarrow> flags \<Rightarrow> u16 \<times> flags" where
  "add_hl left right before =
     (let result = left + right;
          half_carry = (left AND 0x0fff) + (right AND 0x0fff) > 0x0fff;
          carry = snd (overflowing_add left right)
      in (result, flags_from_bits (flag_zero before) False half_carry carry))"

text \<open>\<open>i16::from(i8)\<close> sign-extends, which is \<open>scast\<close>.\<close>

definition add_signed_to_sp :: "u16 \<Rightarrow> u8 \<Rightarrow> u16 \<times> flags" where
  "add_signed_to_sp sp encoded_offset =
     (let result = sp + scast encoded_offset;
          half_carry = (sp AND 0x000f) + (ucast encoded_offset AND 0x000f) > 0x000f;
          carry = (sp AND 0x00ff) + ucast encoded_offset > 0x00ff
      in (result, flags_from_bits False False half_carry carry))"

definition alu_add :: "u8 \<Rightarrow> u8 \<Rightarrow> bool \<Rightarrow> byte_result" where
  "alu_add left right carry_in =
     (let carry_byte = word_of_bool carry_in :: u8;
          (partial, first_carry) = overflowing_add left right;
          (value, second_carry) = overflowing_add partial carry_byte;
          half_carry =
            (ucast (left AND 0x0f) + ucast (right AND 0x0f) + ucast carry_byte :: u16) > 0x0f
      in \<lparr>br_value = value,
          br_flags = flags_from_bits (value = 0) False half_carry (first_carry \<or> second_carry)\<rparr>)"

definition alu_subtract :: "u8 \<Rightarrow> u8 \<Rightarrow> bool \<Rightarrow> byte_result" where
  "alu_subtract left right carry_in =
     (let carry_byte = word_of_bool carry_in :: u8;
          (partial, first_borrow) = overflowing_sub left right;
          (value, second_borrow) = overflowing_sub partial carry_byte;
          half_borrow =
            (ucast (left AND 0x0f) :: u16) < ucast (right AND 0x0f) + ucast carry_byte
      in \<lparr>br_value = value,
          br_flags = flags_from_bits (value = 0) True half_borrow (first_borrow \<or> second_borrow)\<rparr>)"

definition alu_logical :: "u8 \<Rightarrow> bool \<Rightarrow> byte_result" where
  "alu_logical v half_carry =
     \<lparr>br_value = v, br_flags = flags_from_bits (v = 0) False half_carry False\<rparr>"

fun apply_alu :: "alu_operation \<Rightarrow> u8 \<Rightarrow> u8 \<Rightarrow> flags \<Rightarrow> byte_result" where
  "apply_alu Alu_Add a x before = alu_add a x False"
| "apply_alu Alu_AddCarry a x before = alu_add a x (flag_carry before)"
| "apply_alu Alu_Subtract a x before = alu_subtract a x False"
| "apply_alu Alu_SubtractCarry a x before = alu_subtract a x (flag_carry before)"
| "apply_alu Alu_And a x before = alu_logical (a AND x) True"
| "apply_alu Alu_Xor a x before = alu_logical (a XOR x) False"
| "apply_alu Alu_Or a x before = alu_logical (a OR x) False"
| "apply_alu Alu_Compare a x before = alu_subtract a x False"

text \<open>The match of \<open>rotate_shift\<close>: the shifted byte and the carry that leaves it.\<close>

fun rotate_shift_parts :: "cb_operation \<Rightarrow> u8 \<Rightarrow> bool \<Rightarrow> (u8 \<times> bool) option" where
  "rotate_shift_parts Cb_RotateLeftCircular v c = Some (word_rotl 1 v, v AND 0x80 \<noteq> 0)"
| "rotate_shift_parts Cb_RotateRightCircular v c = Some (word_rotr 1 v, v AND 0x01 \<noteq> 0)"
| "rotate_shift_parts Cb_RotateLeft v c = Some (push_bit 1 v OR word_of_bool c, v AND 0x80 \<noteq> 0)"
| "rotate_shift_parts Cb_RotateRight v c =
     Some (drop_bit 1 v OR push_bit 7 (word_of_bool c), v AND 0x01 \<noteq> 0)"
| "rotate_shift_parts Cb_ShiftLeftArithmetic v c = Some (push_bit 1 v, v AND 0x80 \<noteq> 0)"
| "rotate_shift_parts Cb_ShiftRightArithmetic v c =
     Some (drop_bit 1 v OR (v AND 0x80), v AND 1 \<noteq> 0)"
| "rotate_shift_parts Cb_SwapNibbles v c = Some (word_rotl 4 v, False)"
| "rotate_shift_parts Cb_ShiftRightLogical v c = Some (drop_bit 1 v, v AND 1 \<noteq> 0)"
| "rotate_shift_parts (Cb_TestBit _) v c = None"
| "rotate_shift_parts (Cb_ResetBit _) v c = None"
| "rotate_shift_parts (Cb_SetBit _) v c = None"

definition rotate_shift :: "cb_operation \<Rightarrow> u8 \<Rightarrow> bool \<Rightarrow> bool \<Rightarrow> byte_result option" where
  "rotate_shift operation v carry_in zero_from_result =
     map_option (\<lambda>(result, carry).
         \<lparr>br_value = result,
          br_flags = flags_from_bits (zero_from_result \<and> result = 0) False False carry\<rparr>)
       (rotate_shift_parts operation v carry_in)"

definition decimal_adjust :: "u8 \<Rightarrow> flags \<Rightarrow> byte_result" where
  "decimal_adjust accumulator before =
     (let (correction, carry) =
        (if flag_subtract before then
           (let correction = (if flag_carry before then 0 OR 0x60 else 0);
                correction = (if flag_half_carry before then correction OR 0x06 else correction)
            in (correction, flag_carry before))
         else
           (let carry = (flag_carry before \<or> accumulator > 0x99);
                correction = (if carry then 0 OR 0x60 else 0);
                correction = (if flag_half_carry before \<or> accumulator AND 0x0f > 0x09
                              then correction OR 0x06 else correction)
            in (correction, carry)));
          value = (if flag_subtract before then accumulator - correction
                   else accumulator + correction)
      in \<lparr>br_value = value,
          br_flags = flags_from_bits (value = 0) (flag_subtract before) False carry\<rparr>)"

section \<open>Natural-number meaning of the results\<close>

lemma unat_word_of_bool [simp]: "unat (word_of_bool b :: 'a::len word) = (if b then 1 else 0)"
  by (simp add: word_of_bool_def)

lemma unat_low_nibble [simp]: "unat (v AND 0x0f :: u8) = unat v mod 16"
  using unat_and_mask [of v 4] by (simp add: mask_eq_exp_minus_1)

lemma unat_low_nibble16: "unat (v AND 0x0f :: u16) = unat v mod 16"
  using unat_and_mask [of v 4] by (simp add: mask_eq_exp_minus_1)

lemma unat_low_byte16: "unat (v AND 0xff :: u16) = unat v mod 256"
  using unat_and_mask [of v 8] by (simp add: mask_eq_exp_minus_1)

lemma unat_low_12: "unat (v AND 0xfff :: u16) = unat v mod 4096"
  using unat_and_mask [of v 12] by (simp add: mask_eq_exp_minus_1)

lemma mod_256_cases: "s < 512 \<Longrightarrow> s mod 256 = (if s < 256 then s else s - 256)" for s :: nat
  by (simp add: le_mod_geq not_less)

lemmas alu_flag_bits = flags_from_bits_bits flags_wf_from_bits

text \<open>Addition: the byte, the carry out of bit seven and the carry out of bit three.\<close>

lemma unat_alu_add:
  "unat (br_value (alu_add l r c)) = (unat l + unat r + (if c then 1 else 0)) mod 256"
  by (simp add: alu_add_def Let_def overflowing_add_def unat_word_ariths mod_simps)

lemma alu_add_carry:
  "flag_carry (br_flags (alu_add l r c)) \<longleftrightarrow> 256 \<le> unat l + unat r + (if c then 1 else 0)"
proof -
  have "unat l < 256" "unat r < 256" by simp_all
  then show ?thesis
    by (auto simp: alu_add_def Let_def overflowing_add_def unat_add_cases split: if_splits)
qed

lemma alu_add_half_carry:
  "flag_half_carry (br_flags (alu_add l r c)) \<longleftrightarrow>
     16 \<le> unat l mod 16 + unat r mod 16 + (if c then 1 else 0)"
proof -
  have "unat l mod 16 < 16" "unat r mod 16 < 16" by simp_all
  then show ?thesis
    by (auto simp: alu_add_def Let_def overflowing_add_def word_less_nat_alt unat_word_ariths)
qed

lemma alu_add_zero: "flag_zero (br_flags (alu_add l r c)) \<longleftrightarrow> br_value (alu_add l r c) = 0"
  by (simp add: alu_add_def Let_def overflowing_add_def)

lemma alu_add_subtract [simp]: "\<not> flag_subtract (br_flags (alu_add l r c))"
  by (simp add: alu_add_def Let_def overflowing_add_def)

text \<open>Subtraction: the byte, the borrow into bit eight and the borrow into bit four.\<close>

lemma unat_alu_subtract:
  "unat (br_value (alu_subtract l r c)) + unat r + (if c then 1 else 0) =
     unat l + (if flag_carry (br_flags (alu_subtract l r c)) then 256 else 0)"
proof -
  have "unat l < 256" "unat r < 256" by simp_all
  then show ?thesis
    by (auto simp: alu_subtract_def Let_def overflowing_sub_def word_of_bool_def
        unat_sub_cases word_le_nat_alt word_less_nat_alt simp del: unat_less_256)
qed

lemma alu_subtract_carry:
  "flag_carry (br_flags (alu_subtract l r c)) \<longleftrightarrow> unat l < unat r + (if c then 1 else 0)"
proof -
  have "unat l < 256" "unat r < 256" by simp_all
  then show ?thesis
    by (auto simp: alu_subtract_def Let_def overflowing_sub_def word_less_nat_alt word_of_bool_def
        unat_sub_cases word_le_nat_alt)
qed

lemma alu_subtract_half_carry:
  "flag_half_carry (br_flags (alu_subtract l r c)) \<longleftrightarrow>
     unat l mod 16 < unat r mod 16 + (if c then 1 else 0)"
proof -
  have "unat l mod 16 < 16" "unat r mod 16 < 16" by simp_all
  then show ?thesis
    by (auto simp: alu_subtract_def Let_def overflowing_sub_def word_less_nat_alt unat_word_ariths)
qed

lemma alu_subtract_zero:
  "flag_zero (br_flags (alu_subtract l r c)) \<longleftrightarrow> br_value (alu_subtract l r c) = 0"
  by (simp add: alu_subtract_def Let_def overflowing_sub_def)

lemma alu_subtract_subtract [simp]: "flag_subtract (br_flags (alu_subtract l r c))"
  by (simp add: alu_subtract_def Let_def overflowing_sub_def)

text \<open>Subtraction undoes addition, and its borrow is the addition's carry.\<close>

lemma alu_subtract_add:
  "br_value (alu_subtract (br_value (alu_add l r c)) r c) = l"
  "flag_carry (br_flags (alu_subtract (br_value (alu_add l r c)) r c))
     = flag_carry (br_flags (alu_add l r c))"
proof -
  show "br_value (alu_subtract (br_value (alu_add l r c)) r c) = l"
    by (simp add: alu_add_def alu_subtract_def Let_def overflowing_add_def overflowing_sub_def)
  have "unat l < 256" "unat r < 256" by simp_all
  then have "(s mod 256 < unat r + k) = (256 \<le> s)" if "s = unat l + unat r + k" "k \<le> 1" for s k
    using that by (subst mod_256_cases) (simp_all del: unat_less_256, linarith)
  then show "flag_carry (br_flags (alu_subtract (br_value (alu_add l r c)) r c))
     = flag_carry (br_flags (alu_add l r c))"
    unfolding alu_subtract_carry alu_add_carry unat_alu_add by simp
qed

text \<open>Sixteen-bit addition into HL and signed addition to SP.\<close>

lemma add_hl_meaning:
  assumes "add_hl l r f = (v, f')"
  shows "unat v = (unat l + unat r) mod 65536"
    and "flag_carry f' \<longleftrightarrow> 65536 \<le> unat l + unat r"
    and "flag_half_carry f' \<longleftrightarrow> 4096 \<le> unat l mod 4096 + unat r mod 4096"
    and "flag_zero f' = flag_zero f" and "\<not> flag_subtract f'"
proof -
  have b: "unat l mod 4096 < 4096" "unat r mod 4096 < 4096" by simp_all
  show "unat v = (unat l + unat r) mod 65536" "flag_carry f' \<longleftrightarrow> 65536 \<le> unat l + unat r"
    "flag_zero f' = flag_zero f" "\<not> flag_subtract f'"
    using assms by (auto simp: add_hl_def Let_def overflowing_add_def unat_word_ariths)
  show "flag_half_carry f' \<longleftrightarrow> 4096 \<le> unat l mod 4096 + unat r mod 4096"
    using assms b
    by (auto simp: add_hl_def Let_def word_less_nat_alt unat_word_ariths unat_low_12)
qed

lemma uint_add_scast: "uint (w + scast (e :: u8) :: u16) = (uint w + sint e) mod 65536"
proof -
  have "uint (scast e :: u16) = sint e mod 65536"
    unfolding scast_eq by (subst uint_word_of_int) simp
  then show ?thesis by (simp add: uint_word_ariths mod_add_right_eq)
qed

lemma add_signed_to_sp_meaning:
  assumes "add_signed_to_sp sp e = (v, f')"
  shows "uint v = (uint sp + sint e) mod 65536"
    and "flag_carry f' \<longleftrightarrow> 256 \<le> unat sp mod 256 + unat e"
    and "flag_half_carry f' \<longleftrightarrow> 16 \<le> unat sp mod 16 + unat e mod 16"
    and "\<not> flag_zero f'" and "\<not> flag_subtract f'"
proof -
  have b: "unat sp mod 256 < 256" "unat sp mod 16 < 16" "unat e mod 16 < 16" "unat e < 256"
    by simp_all
  have v: "v = sp + scast e" using assms by (simp add: add_signed_to_sp_def Let_def)
  show "uint v = (uint sp + sint e) mod 65536"
    unfolding v by (rule uint_add_scast)
  show "flag_carry f' \<longleftrightarrow> 256 \<le> unat sp mod 256 + unat e" "\<not> flag_zero f'" "\<not> flag_subtract f'"
    "flag_half_carry f' \<longleftrightarrow> 16 \<le> unat sp mod 16 + unat e mod 16"
    using assms b
    by (auto simp: add_signed_to_sp_def Let_def word_less_nat_alt unat_word_ariths
        unat_low_byte16 unat_low_nibble16)
qed

text \<open>Every operation produces a well-formed flag byte.\<close>

lemma alu_flags_wf [simp]:
  "flags_wf (br_flags (increment v f))" "flags_wf (br_flags (decrement v f))"
  "flags_wf (br_flags (alu_add l r c))" "flags_wf (br_flags (alu_subtract l r c))"
  "flags_wf (br_flags (alu_logical v h))" "flags_wf (br_flags (decimal_adjust v f))"
  by (simp_all add: increment_def decrement_def alu_add_def alu_subtract_def alu_logical_def
      decimal_adjust_def Let_def split_beta)

lemma apply_alu_flags_wf [simp]: "flags_wf (br_flags (apply_alu op a x f))"
  by (cases op) simp_all

lemma add_hl_flags_wf [simp]: "flags_wf (snd (add_hl l r f))"
  by (simp add: add_hl_def Let_def)

lemma add_signed_flags_wf [simp]: "flags_wf (snd (add_signed_to_sp sp e))"
  by (simp add: add_signed_to_sp_def Let_def)

lemma rotate_shift_flags_wf: "rotate_shift op v c z = Some r \<Longrightarrow> flags_wf (br_flags r)"
  by (auto simp: rotate_shift_def)

lemma rotate_shift_None: "rotate_shift op v c z = None \<longleftrightarrow> \<not> is_rotate_form op"
  by (cases op) (simp_all add: rotate_shift_def)

section \<open>Packed decimal arithmetic\<close>

text \<open>The packed-BCD encoding of a number below one hundred.\<close>

definition bcd :: "nat \<Rightarrow> u8" where
  "bcd n = word_of_nat (16 * (n div 10) + n mod 10)"

lemma unat_bcd: "n < 100 \<Longrightarrow> unat (bcd n) = 16 * (n div 10) + n mod 10"
  unfolding bcd_def by (subst unat_of_nat) simp

text \<open>The two branches of the adjustment in integers.\<close>

lemma uint_low_nibble [simp]: "uint (v AND 0x0f :: u8) = uint v mod 16"
  by (metis of_nat_unat unat_low_nibble of_nat_mod of_nat_numeral)

lemma decimal_adjust_add:
  assumes "\<not> flag_subtract f"
  shows "uint (br_value (decimal_adjust a f)) =
      (uint a + ((if flag_carry f \<or> 0x99 < uint a then 0x60 else 0) +
         (if flag_half_carry f \<or> 9 < uint a mod 16 then 6 else 0))) mod 256"
    and "flag_carry (br_flags (decimal_adjust a f)) \<longleftrightarrow> flag_carry f \<or> 0x99 < uint a"
  using assms
  by (auto simp: decimal_adjust_def Let_def word_less_def uint_word_ariths)

lemma decimal_adjust_subtract:
  assumes "flag_subtract f"
  shows "uint (br_value (decimal_adjust a f)) =
      (uint a - (if flag_carry f then 0x60 else 0) - (if flag_half_carry f then 6 else 0)) mod 256"
    and "flag_carry (br_flags (decimal_adjust a f)) \<longleftrightarrow> flag_carry f"
  using assms by (auto simp: decimal_adjust_def Let_def uint_word_ariths)

text \<open>
  Digit-wise arithmetic: \<open>x\<close> and \<open>y\<close> are the sums (differences) of the tens and of the units.
\<close>

lemma bcd_add_digits:
  fixes x y :: int
  assumes "0 \<le> x" "x \<le> 18" "0 \<le> y" "y \<le> 19"
  defines "s \<equiv> 16 * x + y"
  shows "(s mod 256 + ((if 256 \<le> s \<or> 0x99 < s mod 256 then 0x60 else 0) +
      (if 16 \<le> y \<or> 9 < s mod 256 mod 16 then 6 else 0))) mod 256
    = 16 * ((10 * x + y) mod 100 div 10) + (10 * x + y) mod 100 mod 10" (is ?v)
    and "(256 \<le> s \<or> 0x99 < s mod 256) = (100 \<le> 10 * x + y)" (is ?c)
proof -
  have "list_all (\<lambda>x. list_all (\<lambda>y. let s = 16 * x + y in
     (s mod 256 + ((if 256 \<le> s \<or> 0x99 < s mod 256 then 0x60 else 0) +
      (if 16 \<le> y \<or> 9 < s mod 256 mod 16 then 6 else 0))) mod 256
    = 16 * ((10 * x + y) mod 100 div 10) + (10 * x + y) mod 100 mod 10 \<and>
    (256 \<le> s \<or> 0x99 < s mod 256) = (100 \<le> 10 * x + y)) [0..19]) [0..(18::int)]"
    by code_simp
  moreover have "x \<in> set [0..18]" "y \<in> set [0..19]" using assms by simp_all
  ultimately show ?v ?c
    unfolding s_def list_all_iff Let_def by blast+
qed

lemma bcd_subtract_digits:
  fixes x y :: int
  assumes "- 9 \<le> x" "x \<le> 9" "- 10 \<le> y" "y \<le> 9"
  defines "s \<equiv> 16 * x + y"
  shows "(s mod 256 - (if s < 0 then 0x60 else 0) - (if y < 0 then 6 else 0)) mod 256
    = 16 * ((10 * x + y) mod 100 div 10) + (10 * x + y) mod 100 mod 10" (is ?v)
    and "(s < 0) = (10 * x + y < 0)" (is ?c)
proof -
  have "list_all (\<lambda>x. list_all (\<lambda>y. let s = 16 * x + y in
     (s mod 256 - (if s < 0 then 0x60 else 0) - (if y < 0 then 6 else 0)) mod 256
    = 16 * ((10 * x + y) mod 100 div 10) + (10 * x + y) mod 100 mod 10 \<and>
    (s < 0) = (10 * x + y < 0)) [- 10..9]) [- 9..(9::int)]"
    by code_simp
  moreover have "x \<in> set [- 9..9]" "y \<in> set [- 10..9]"
    unfolding set_upto using assms by auto
  ultimately show ?v ?c
    unfolding s_def list_all_iff Let_def by blast+
qed

lemma bcd_eqI:
  assumes "n < 100" "int (unat v) = 16 * (int n div 10) + int n mod 10"
  shows "v = bcd n"
proof -
  have "int (unat (bcd n)) = 16 * (int n div 10) + int n mod 10"
    using assms(1) by (simp add: unat_bcd zdiv_int zmod_int)
  then show ?thesis using assms(2) by (metis of_nat_eq_iff word_unat_eq_iff)
qed

lemma bcd_addition:
  fixes m n :: nat and c :: bool
  assumes "m < 100" "n < 100"
  defines "s \<equiv> m + n + (if c then 1 else 0)"
    and "r \<equiv> alu_add (bcd m) (bcd n) c"
  shows "br_value (decimal_adjust (br_value r) (br_flags r)) = bcd (s mod 100)"
    and "flag_carry (br_flags (decimal_adjust (br_value r) (br_flags r))) = (100 \<le> s)"
proof -
  define x where "x = int (m div 10 + n div 10)"
  define y where "y = int (m mod 10 + n mod 10 + (if c then 1 else 0))"
  have digits: "m mod 10 \<le> 9" "n mod 10 \<le> 9" "m div 10 \<le> 9" "n div 10 \<le> 9"
    using assms(1,2) by auto
  then have bounds: "0 \<le> x" "x \<le> 18" "0 \<le> y" "y \<le> 19"
    unfolding x_def y_def by simp_all
  have "int m = 10 * int (m div 10) + int (m mod 10)" "int n = 10 * int (n div 10) + int (n mod 10)"
    by presburger+
  then have s: "10 * x + y = int s" unfolding x_def y_def s_def by (cases c) simp_all
  have sum: "int (unat (bcd m) + unat (bcd n) + (if c then 1 else 0)) = 16 * x + y"
    using assms(1,2) by (simp add: unat_bcd x_def y_def)
  have carry: "flag_carry (br_flags r) = (256 \<le> 16 * x + y)"
    unfolding r_def alu_add_carry sum [symmetric] by linarith
  have half: "flag_half_carry (br_flags r) = (16 \<le> y)"
    unfolding r_def alu_add_half_carry using assms(1,2) by (auto simp: unat_bcd y_def)
  have "int (unat (br_value r)) = (16 * x + y) mod 256"
    unfolding r_def unat_alu_add sum [symmetric] by (simp only: zmod_int of_nat_numeral)
  then have v: "uint (br_value r) = (16 * x + y) mod 256" by simp
  have sub: "\<not> flag_subtract (br_flags r)" by (simp add: r_def)
  note adjust = decimal_adjust_add [OF sub, of "br_value r"]
  have "uint (br_value (decimal_adjust (br_value r) (br_flags r))) =
      16 * (int s mod 100 div 10) + int s mod 100 mod 10"
    unfolding adjust carry half v s [symmetric] using bcd_add_digits(1) [OF bounds] .
  then show "br_value (decimal_adjust (br_value r) (br_flags r)) = bcd (s mod 100)"
    by (intro bcd_eqI) (simp_all only: of_nat_unat zmod_int of_nat_numeral mod_less_divisor
        zero_less_numeral)
  show "flag_carry (br_flags (decimal_adjust (br_value r) (br_flags r))) = (100 \<le> s)"
    unfolding adjust carry v using bcd_add_digits(2) [OF bounds] s by simp
qed

lemma bcd_subtraction:
  fixes m n :: nat and c :: bool
  assumes "m < 100" "n < 100"
  defines "s \<equiv> int m - int n - (if c then 1 else 0)"
    and "r \<equiv> alu_subtract (bcd m) (bcd n) c"
  shows "br_value (decimal_adjust (br_value r) (br_flags r)) = bcd (nat (s mod 100))"
    and "flag_carry (br_flags (decimal_adjust (br_value r) (br_flags r))) = (s < 0)"
proof -
  define x where "x = int (m div 10) - int (n div 10)"
  define y where "y = int (m mod 10) - int (n mod 10) - (if c then 1 else 0)"
  have digits: "int (m mod 10) \<le> 9" "int (n mod 10) \<le> 9" "int (m div 10) \<le> 9" "int (n div 10) \<le> 9"
    using assms(1,2) by auto
  then have bounds: "- 9 \<le> x" "x \<le> 9" "- 10 \<le> y" "y \<le> 9"
    by (auto simp: x_def y_def)
  have "int m = 10 * int (m div 10) + int (m mod 10)" "int n = 10 * int (n div 10) + int (n mod 10)"
    by presburger+
  then have s: "10 * x + y = s" unfolding x_def y_def s_def by (cases c) simp_all
  have diff: "int (unat (bcd m)) - int (unat (bcd n)) - (if c then 1 else 0) = 16 * x + y"
    using assms(1,2) by (simp add: unat_bcd x_def y_def)
  have carry: "flag_carry (br_flags r) = (16 * x + y < 0)"
    unfolding r_def alu_subtract_carry diff [symmetric]
    by (cases c; simp only: if_True if_False; linarith)
  have half: "flag_half_carry (br_flags r) = (y < 0)"
    unfolding r_def alu_subtract_half_carry using assms(1,2) by (auto simp: unat_bcd y_def)
  have "int (unat (br_value r)) = 16 * x + y + (if flag_carry (br_flags r) then 256 else 0)"
    unfolding r_def diff [symmetric] using unat_alu_subtract [of "bcd m" "bcd n" c]
    by (cases c; cases "flag_carry (br_flags (alu_subtract (bcd m) (bcd n) c))";
        simp only: if_True if_False; linarith)
  then have "uint (br_value r) mod 256 = (16 * x + y) mod 256"
    by (cases "flag_carry (br_flags r)") simp_all
  moreover have "uint (br_value r) < 256" using uint_bounded [of "br_value r"] by simp
  ultimately have v: "uint (br_value r) = (16 * x + y) mod 256" by simp
  have sub: "flag_subtract (br_flags r)" by (simp add: r_def)
  note adjust = decimal_adjust_subtract [OF sub, of "br_value r"]
  have "uint (br_value (decimal_adjust (br_value r) (br_flags r))) =
      16 * (s mod 100 div 10) + s mod 100 mod 10"
    unfolding adjust carry half v using bcd_subtract_digits(1) [OF bounds] s by simp
  then show "br_value (decimal_adjust (br_value r) (br_flags r)) = bcd (nat (s mod 100))"
    by (intro bcd_eqI) simp_all
  show "flag_carry (br_flags (decimal_adjust (br_value r) (br_flags r))) = (s < 0)"
    unfolding adjust carry using bcd_subtract_digits(2) [OF bounds] s by simp
qed

end
