(* ===== verification/Isa_Lookup.thy ===== *)
theory Isa_Lookup
  imports Isa_Decode
begin

text \<open>
  The execution-table routing of \<open>crates/zksm83-isa/src/execution_lookup.rs\<close>: the thirteen
  verifier-fixed tables, their address widths and bases in the compact 19-bit domain, and the
  proof plan of each operation. The lemmas show that the tables occupy aligned, pairwise
  disjoint ranges of the domain, so one packed address identifies a table and a row.
\<close>

datatype execution_lookup_table =
    Tbl_Add8 | Tbl_Subtract8 | Tbl_And8 | Tbl_Xor8 | Tbl_Or8 | Tbl_Increment8 | Tbl_Decrement8
  | Tbl_RotateShift8 | Tbl_DecimalAdjust8 | Tbl_TestBit8 | Tbl_ResetBit8 | Tbl_SetBit8
  | Tbl_Condition

definition table_all :: "execution_lookup_table list" where
  "table_all = [Tbl_Add8, Tbl_Subtract8, Tbl_And8, Tbl_Xor8, Tbl_Or8, Tbl_Increment8,
     Tbl_Decrement8, Tbl_RotateShift8, Tbl_DecimalAdjust8, Tbl_TestBit8, Tbl_ResetBit8,
     Tbl_SetBit8, Tbl_Condition]"

fun table_code :: "execution_lookup_table \<Rightarrow> u8" where
  "table_code Tbl_Add8 = 1"
| "table_code Tbl_Subtract8 = 2"
| "table_code Tbl_And8 = 3"
| "table_code Tbl_Xor8 = 4"
| "table_code Tbl_Or8 = 5"
| "table_code Tbl_Increment8 = 6"
| "table_code Tbl_Decrement8 = 7"
| "table_code Tbl_RotateShift8 = 8"
| "table_code Tbl_DecimalAdjust8 = 9"
| "table_code Tbl_TestBit8 = 10"
| "table_code Tbl_ResetBit8 = 11"
| "table_code Tbl_SetBit8 = 12"
| "table_code Tbl_Condition = 13"

fun input_bit_count :: "execution_lookup_table \<Rightarrow> nat" where
  "input_bit_count Tbl_Add8 = 17"
| "input_bit_count Tbl_Subtract8 = 17"
| "input_bit_count Tbl_And8 = 16"
| "input_bit_count Tbl_Xor8 = 16"
| "input_bit_count Tbl_Or8 = 16"
| "input_bit_count Tbl_Increment8 = 9"
| "input_bit_count Tbl_Decrement8 = 9"
| "input_bit_count Tbl_RotateShift8 = 13"
| "input_bit_count Tbl_DecimalAdjust8 = 12"
| "input_bit_count Tbl_TestBit8 = 12"
| "input_bit_count Tbl_ResetBit8 = 11"
| "input_bit_count Tbl_SetBit8 = 11"
| "input_bit_count Tbl_Condition = 6"

fun packed_offset :: "execution_lookup_table \<Rightarrow> u32" where
  "packed_offset Tbl_Add8 = 0"
| "packed_offset Tbl_Subtract8 = 131072"
| "packed_offset Tbl_And8 = 262144"
| "packed_offset Tbl_Xor8 = 327680"
| "packed_offset Tbl_Or8 = 393216"
| "packed_offset Tbl_Increment8 = 479232"
| "packed_offset Tbl_Decrement8 = 480256"
| "packed_offset Tbl_RotateShift8 = 458752"
| "packed_offset Tbl_DecimalAdjust8 = 466944"
| "packed_offset Tbl_TestBit8 = 471040"
| "packed_offset Tbl_ResetBit8 = 475136"
| "packed_offset Tbl_SetBit8 = 477184"
| "packed_offset Tbl_Condition = 481280"

definition row_count :: "execution_lookup_table \<Rightarrow> u32" where
  "row_count t = push_bit (input_bit_count t) 1"

datatype execution_proof_plan =
    Plan_GlueOnly
  | Plan_Lookup execution_lookup_table
  | Plan_DoubleLookup execution_lookup_table

fun plan_lookup_table :: "execution_proof_plan \<Rightarrow> execution_lookup_table option" where
  "plan_lookup_table Plan_GlueOnly = None"
| "plan_lookup_table (Plan_Lookup t) = Some t"
| "plan_lookup_table (Plan_DoubleLookup t) = Some t"

fun plan_lookup_count :: "execution_proof_plan \<Rightarrow> nat" where
  "plan_lookup_count Plan_GlueOnly = 0"
| "plan_lookup_count (Plan_Lookup _) = 1"
| "plan_lookup_count (Plan_DoubleLookup _) = 2"

fun alu_lookup_table :: "alu_operation \<Rightarrow> execution_lookup_table" where
  "alu_lookup_table Alu_Add = Tbl_Add8"
| "alu_lookup_table Alu_AddCarry = Tbl_Add8"
| "alu_lookup_table Alu_Subtract = Tbl_Subtract8"
| "alu_lookup_table Alu_SubtractCarry = Tbl_Subtract8"
| "alu_lookup_table Alu_Compare = Tbl_Subtract8"
| "alu_lookup_table Alu_And = Tbl_And8"
| "alu_lookup_table Alu_Xor = Tbl_Xor8"
| "alu_lookup_table Alu_Or = Tbl_Or8"

fun cb_lookup_table :: "cb_operation \<Rightarrow> execution_lookup_table" where
  "cb_lookup_table (Cb_TestBit _) = Tbl_TestBit8"
| "cb_lookup_table (Cb_ResetBit _) = Tbl_ResetBit8"
| "cb_lookup_table (Cb_SetBit _) = Tbl_SetBit8"
| "cb_lookup_table _ = Tbl_RotateShift8"

fun execution_proof_plan_of :: "operation \<Rightarrow> execution_proof_plan" where
  "execution_proof_plan_of (Op_AddHl _) = Plan_DoubleLookup Tbl_Add8"
| "execution_proof_plan_of (Op_Increment8 _) = Plan_Lookup Tbl_Increment8"
| "execution_proof_plan_of (Op_Decrement8 _) = Plan_Lookup Tbl_Decrement8"
| "execution_proof_plan_of (Op_RotateAccumulator _) = Plan_Lookup Tbl_RotateShift8"
| "execution_proof_plan_of Op_DecimalAdjust = Plan_Lookup Tbl_DecimalAdjust8"
| "execution_proof_plan_of (Op_Alu8 alu _) = Plan_Lookup (alu_lookup_table alu)"
| "execution_proof_plan_of Op_AddSpOffset = Plan_DoubleLookup Tbl_Add8"
| "execution_proof_plan_of Op_LoadHlSpOffset = Plan_DoubleLookup Tbl_Add8"
| "execution_proof_plan_of (Op_RelativeJump (Some _)) = Plan_Lookup Tbl_Condition"
| "execution_proof_plan_of (Op_Return (Some _)) = Plan_Lookup Tbl_Condition"
| "execution_proof_plan_of (Op_Jump (Some _)) = Plan_Lookup Tbl_Condition"
| "execution_proof_plan_of (Op_Call (Some _)) = Plan_Lookup Tbl_Condition"
| "execution_proof_plan_of (Op_Cb cb _) = Plan_Lookup (cb_lookup_table cb)"
| "execution_proof_plan_of _ = Plan_GlueOnly"

section \<open>The packed domain\<close>

text \<open>The half-open range of packed addresses one table owns.\<close>

definition table_range :: "execution_lookup_table \<Rightarrow> nat set" where
  "table_range t = {unat (packed_offset t) ..< unat (packed_offset t) + 2 ^ input_bit_count t}"

lemma unat_row_count: "unat (row_count t) = 2 ^ input_bit_count t"
  by (cases t) (simp_all add: row_count_def)

lemma table_ranges_disjoint: "t \<noteq> u \<Longrightarrow> table_range t \<inter> table_range u = {}"
  by (cases t; cases u) (simp_all add: table_range_def ivl_disj_int)

lemma table_range_bound: "table_range t \<subseteq> {..< 2 ^ 19}"
  by (cases t) (auto simp: table_range_def)

lemma table_offset_aligned: "unat (packed_offset t) mod unat (row_count t) = 0"
  by (cases t) (simp_all add: row_count_def)

lemma table_code_dense: "i < 13 \<Longrightarrow> table_code (table_all ! i) = word_of_nat (Suc i)"
proof -
  assume "i < 13"
  moreover have "list_all (\<lambda>i. table_code (table_all ! i) = word_of_nat (Suc i)) [0..<13]"
    by code_simp
  ultimately show ?thesis by (simp add: list_all_iff)
qed

end
