(* ===== verification/Core_Lookup.thy ===== *)
theory Core_Lookup
  imports Alu Isa_Lookup
begin

text \<open>
  The execution-table queries of \<open>crates/zksm83-core/src/execution_lookup.rs\<close>: the query
  constructors with their domain checks, the canonical table address of a query, its inverse
  \<open>from_index\<close>, and the evaluation of a table entry through the ALU. The lemmas make addresses
  and validated queries a bijection per table and show that evaluation never fails on a
  validated query.
\<close>

section \<open>Queries\<close>

datatype rotate_shift_operation =
    RS_RotateLeftCircular | RS_RotateRightCircular | RS_RotateLeft | RS_RotateRight
  | RS_ShiftLeftArithmetic | RS_ShiftRightArithmetic | RS_SwapNibbles | RS_ShiftRightLogical

fun rotate_shift_from_cb :: "cb_operation \<Rightarrow> rotate_shift_operation option" where
  "rotate_shift_from_cb Cb_RotateLeftCircular = Some RS_RotateLeftCircular"
| "rotate_shift_from_cb Cb_RotateRightCircular = Some RS_RotateRightCircular"
| "rotate_shift_from_cb Cb_RotateLeft = Some RS_RotateLeft"
| "rotate_shift_from_cb Cb_RotateRight = Some RS_RotateRight"
| "rotate_shift_from_cb Cb_ShiftLeftArithmetic = Some RS_ShiftLeftArithmetic"
| "rotate_shift_from_cb Cb_ShiftRightArithmetic = Some RS_ShiftRightArithmetic"
| "rotate_shift_from_cb Cb_SwapNibbles = Some RS_SwapNibbles"
| "rotate_shift_from_cb Cb_ShiftRightLogical = Some RS_ShiftRightLogical"
| "rotate_shift_from_cb (Cb_TestBit _) = None"
| "rotate_shift_from_cb (Cb_ResetBit _) = None"
| "rotate_shift_from_cb (Cb_SetBit _) = None"

fun rotate_shift_as_cb :: "rotate_shift_operation \<Rightarrow> cb_operation" where
  "rotate_shift_as_cb RS_RotateLeftCircular = Cb_RotateLeftCircular"
| "rotate_shift_as_cb RS_RotateRightCircular = Cb_RotateRightCircular"
| "rotate_shift_as_cb RS_RotateLeft = Cb_RotateLeft"
| "rotate_shift_as_cb RS_RotateRight = Cb_RotateRight"
| "rotate_shift_as_cb RS_ShiftLeftArithmetic = Cb_ShiftLeftArithmetic"
| "rotate_shift_as_cb RS_ShiftRightArithmetic = Cb_ShiftRightArithmetic"
| "rotate_shift_as_cb RS_SwapNibbles = Cb_SwapNibbles"
| "rotate_shift_as_cb RS_ShiftRightLogical = Cb_ShiftRightLogical"

fun rotate_shift_code :: "rotate_shift_operation \<Rightarrow> u8" where
  "rotate_shift_code RS_RotateLeftCircular = 0"
| "rotate_shift_code RS_RotateRightCircular = 1"
| "rotate_shift_code RS_RotateLeft = 2"
| "rotate_shift_code RS_RotateRight = 3"
| "rotate_shift_code RS_ShiftLeftArithmetic = 4"
| "rotate_shift_code RS_ShiftRightArithmetic = 5"
| "rotate_shift_code RS_SwapNibbles = 6"
| "rotate_shift_code RS_ShiftRightLogical = 7"

datatype execution_lookup_query =
    Q_Binary8 execution_lookup_table u8 u8 bool
  | Q_Unary8 execution_lookup_table u8 bool
  | Q_RotateShift8 u8 rotate_shift_operation bool bool
  | Q_DecimalAdjust8 u8 flags
  | Q_Bit8 execution_lookup_table u8 u8 bool
  | Q_Condition condition flags

datatype execution_lookup_output =
    Out_ByteWithFlags u8 flags
  | Out_Byte u8
  | Out_Predicate bool

fun output_packed :: "execution_lookup_output \<Rightarrow> u32" where
  "output_packed (Out_ByteWithFlags v f) = ucast v OR push_bit 8 (ucast (flags_byte f))"
| "output_packed (Out_Byte v) = ucast v"
| "output_packed (Out_Predicate b) = word_of_bool b"

datatype execution_lookup_error =
    LE_InvalidBit u8
  | LE_InvalidRotateShift
  | LE_TableQueryMismatch execution_lookup_table
  | LE_AddressOutOfRange execution_lookup_table u64

definition add8 :: "u8 \<Rightarrow> u8 \<Rightarrow> bool \<Rightarrow> execution_lookup_query" where
  "add8 left right carry = Q_Binary8 Tbl_Add8 left right carry"

definition subtract8 :: "u8 \<Rightarrow> u8 \<Rightarrow> bool \<Rightarrow> execution_lookup_query" where
  "subtract8 left right borrow = Q_Binary8 Tbl_Subtract8 left right borrow"

definition and8 :: "u8 \<Rightarrow> u8 \<Rightarrow> execution_lookup_query" where
  "and8 left right = Q_Binary8 Tbl_And8 left right False"

definition xor8 :: "u8 \<Rightarrow> u8 \<Rightarrow> execution_lookup_query" where
  "xor8 left right = Q_Binary8 Tbl_Xor8 left right False"

definition or8 :: "u8 \<Rightarrow> u8 \<Rightarrow> execution_lookup_query" where
  "or8 left right = Q_Binary8 Tbl_Or8 left right False"

definition increment8 :: "u8 \<Rightarrow> bool \<Rightarrow> execution_lookup_query" where
  "increment8 v carry = Q_Unary8 Tbl_Increment8 v carry"

definition decrement8 :: "u8 \<Rightarrow> bool \<Rightarrow> execution_lookup_query" where
  "decrement8 v carry = Q_Unary8 Tbl_Decrement8 v carry"

definition rotate_shift8 ::
  "u8 \<Rightarrow> cb_operation \<Rightarrow> bool \<Rightarrow> bool \<Rightarrow> execution_lookup_error + execution_lookup_query" where
  "rotate_shift8 v operation carry zero_from_result =
     (case rotate_shift_from_cb operation of
        None \<Rightarrow> Inl LE_InvalidRotateShift
      | Some rs \<Rightarrow> Inr (Q_RotateShift8 v rs carry zero_from_result))"

definition bit8 ::
  "execution_lookup_table \<Rightarrow> u8 \<Rightarrow> u8 \<Rightarrow> bool \<Rightarrow> execution_lookup_error + execution_lookup_query" where
  "bit8 table v b carry = (if b \<ge> 8 then Inl (LE_InvalidBit b) else Inr (Q_Bit8 table v b carry))"

definition test_bit8 :: "u8 \<Rightarrow> u8 \<Rightarrow> bool \<Rightarrow> execution_lookup_error + execution_lookup_query" where
  "test_bit8 v b carry = bit8 Tbl_TestBit8 v b carry"

definition reset_bit8 :: "u8 \<Rightarrow> u8 \<Rightarrow> execution_lookup_error + execution_lookup_query" where
  "reset_bit8 v b = bit8 Tbl_ResetBit8 v b False"

definition set_bit8 :: "u8 \<Rightarrow> u8 \<Rightarrow> execution_lookup_error + execution_lookup_query" where
  "set_bit8 v b = bit8 Tbl_SetBit8 v b False"

fun query_table :: "execution_lookup_query \<Rightarrow> execution_lookup_table" where
  "query_table (Q_Binary8 t _ _ _) = t"
| "query_table (Q_Unary8 t _ _) = t"
| "query_table (Q_Bit8 t _ _ _) = t"
| "query_table (Q_RotateShift8 _ _ _ _) = Tbl_RotateShift8"
| "query_table (Q_DecimalAdjust8 _ _) = Tbl_DecimalAdjust8"
| "query_table (Q_Condition _ _) = Tbl_Condition"

definition lookup_num_variables :: "execution_lookup_query \<Rightarrow> nat" where
  "lookup_num_variables q = input_bit_count (query_table q)"

fun lookup_condition_code :: "condition \<Rightarrow> u8" where
  "lookup_condition_code Cond_NotZero = 0"
| "lookup_condition_code Cond_Zero = 1"
| "lookup_condition_code Cond_NotCarry = 2"
| "lookup_condition_code Cond_Carry = 3"

fun lookup_index :: "execution_lookup_query \<Rightarrow> u64" where
  "lookup_index (Q_Binary8 _ left right carry) =
     ucast left OR push_bit 8 (ucast right) OR push_bit 16 (word_of_bool carry)"
| "lookup_index (Q_Unary8 _ v carry) = ucast v OR push_bit 8 (word_of_bool carry)"
| "lookup_index (Q_RotateShift8 v operation carry zero_from_result) =
     ucast v OR push_bit 8 (ucast (rotate_shift_code operation)) OR
     push_bit 11 (word_of_bool carry) OR push_bit 12 (word_of_bool zero_from_result)"
| "lookup_index (Q_DecimalAdjust8 a f) = ucast a OR push_bit 8 (ucast (drop_bit 4 (flags_byte f)))"
| "lookup_index (Q_Bit8 _ v b carry) =
     ucast v OR push_bit 8 (ucast b) OR push_bit 11 (word_of_bool carry)"
| "lookup_index (Q_Condition c f) =
     ucast (drop_bit 4 (flags_byte f)) OR push_bit 4 (ucast (lookup_condition_code c))"

section \<open>Evaluation\<close>

fun condition_holds :: "flags \<Rightarrow> condition \<Rightarrow> bool" where
  "condition_holds f Cond_NotZero = (\<not> flag_zero f)"
| "condition_holds f Cond_Zero = flag_zero f"
| "condition_holds f Cond_NotCarry = (\<not> flag_carry f)"
| "condition_holds f Cond_Carry = flag_carry f"

definition byte_with_flags :: "byte_result \<Rightarrow> execution_lookup_output" where
  "byte_with_flags r = Out_ByteWithFlags (br_value r) (br_flags r)"

definition evaluate_binary8 ::
  "execution_lookup_table \<Rightarrow> u8 \<Rightarrow> u8 \<Rightarrow> bool \<Rightarrow> execution_lookup_error + execution_lookup_output" where
  "evaluate_binary8 table left right carry =
     and_then
       (case table of
          Tbl_Add8 \<Rightarrow> Inr (if carry then Alu_AddCarry else Alu_Add)
        | Tbl_Subtract8 \<Rightarrow> Inr (if carry then Alu_SubtractCarry else Alu_Subtract)
        | Tbl_And8 \<Rightarrow> Inr Alu_And
        | Tbl_Xor8 \<Rightarrow> Inr Alu_Xor
        | Tbl_Or8 \<Rightarrow> Inr Alu_Or
        | _ \<Rightarrow> Inl (LE_TableQueryMismatch table))
       (\<lambda>operation.
          Inr (byte_with_flags
            (apply_alu operation left right (flags_from_bits False False False carry))))"

definition evaluate_unary8 ::
  "execution_lookup_table \<Rightarrow> u8 \<Rightarrow> bool \<Rightarrow> execution_lookup_error + execution_lookup_output" where
  "evaluate_unary8 table v carry =
     (let before = flags_from_bits False False False carry
      in case table of
           Tbl_Increment8 \<Rightarrow> Inr (byte_with_flags (increment v before))
         | Tbl_Decrement8 \<Rightarrow> Inr (byte_with_flags (decrement v before))
         | _ \<Rightarrow> Inl (LE_TableQueryMismatch table))"

definition evaluate_bit8 ::
  "execution_lookup_table \<Rightarrow> u8 \<Rightarrow> u8 \<Rightarrow> bool \<Rightarrow> execution_lookup_error + execution_lookup_output" where
  "evaluate_bit8 table v b carry =
     (let m = push_bit (unat b) (1 :: u8)
      in case table of
           Tbl_TestBit8 \<Rightarrow>
             Inr (Out_ByteWithFlags v (flags_from_bits (v AND m = 0) False True carry))
         | Tbl_ResetBit8 \<Rightarrow> Inr (Out_Byte (v AND NOT m))
         | Tbl_SetBit8 \<Rightarrow> Inr (Out_Byte (v OR m))
         | _ \<Rightarrow> Inl (LE_TableQueryMismatch table))"

fun evaluate :: "execution_lookup_query \<Rightarrow> execution_lookup_error + execution_lookup_output" where
  "evaluate (Q_Binary8 t left right carry) = evaluate_binary8 t left right carry"
| "evaluate (Q_Unary8 t v carry) = evaluate_unary8 t v carry"
| "evaluate (Q_RotateShift8 v operation carry zero_from_result) =
     and_then (ok_or LE_InvalidRotateShift
         (rotate_shift (rotate_shift_as_cb operation) v carry zero_from_result))
       (\<lambda>r. Inr (byte_with_flags r))"
| "evaluate (Q_DecimalAdjust8 a f) = Inr (byte_with_flags (decimal_adjust a f))"
| "evaluate (Q_Bit8 t v b carry) = evaluate_bit8 t v b carry"
| "evaluate (Q_Condition c f) = Inr (Out_Predicate (condition_holds f c))"

section \<open>From an address back to the query\<close>

definition flags_from_nibble :: "u8 \<Rightarrow> flags" where
  "flags_from_nibble n =
     flags_from_bits (n AND 0x08 \<noteq> 0) (n AND 0x04 \<noteq> 0) (n AND 0x02 \<noteq> 0) (n AND 0x01 \<noteq> 0)"

definition rotate_shift_from_code :: "u8 \<Rightarrow> cb_operation" where
  "rotate_shift_from_code code =
     (if code = 0 then Cb_RotateLeftCircular
      else if code = 1 then Cb_RotateRightCircular
      else if code = 2 then Cb_RotateLeft
      else if code = 3 then Cb_RotateRight
      else if code = 4 then Cb_ShiftLeftArithmetic
      else if code = 5 then Cb_ShiftRightArithmetic
      else if code = 6 then Cb_SwapNibbles
      else Cb_ShiftRightLogical)"

definition condition_from_code :: "u8 \<Rightarrow> condition" where
  "condition_from_code code =
     (if code = 0 then Cond_NotZero else if code = 1 then Cond_Zero
      else if code = 2 then Cond_NotCarry else Cond_Carry)"

text \<open>\<open>u8::try_from\<close> of a \<open>u64\<close> and \<open>1_u64.checked_shl\<close>.\<close>

definition try_u8 :: "u64 \<Rightarrow> u8 option" where
  "try_u8 w = (if w < 256 then Some (ucast w) else None)"

definition checked_shl1 :: "nat \<Rightarrow> u64 option" where
  "checked_shl1 shift = (if shift < 64 then Some (push_bit shift 1) else None)"

definition index_byte ::
  "execution_lookup_table \<Rightarrow> u64 \<Rightarrow> nat \<Rightarrow> execution_lookup_error + u8" where
  "index_byte table index shift =
     ok_or (LE_AddressOutOfRange table index) (try_u8 (drop_bit shift index AND 0xff))"

definition index_bit :: "u64 \<Rightarrow> nat \<Rightarrow> bool" where
  "index_bit index shift \<longleftrightarrow> drop_bit shift index AND 1 \<noteq> 0"

definition from_index ::
  "execution_lookup_table \<Rightarrow> u64 \<Rightarrow> execution_lookup_error + execution_lookup_query" where
  "from_index table index =
     and_then (ok_or (LE_AddressOutOfRange table index) (checked_shl1 (input_bit_count table)))
       (\<lambda>bound.
     if index \<ge> bound then Inl (LE_AddressOutOfRange table index)
     else
       (let byte = index_byte table index; bit = index_bit index;
            binary = (\<lambda>k. and_then (byte 0) (\<lambda>l. and_then (byte 8) (\<lambda>r. k l r)))
        in case table of
             Tbl_Add8 \<Rightarrow> binary (\<lambda>l r. Inr (add8 l r (bit 16)))
           | Tbl_Subtract8 \<Rightarrow> binary (\<lambda>l r. Inr (subtract8 l r (bit 16)))
           | Tbl_And8 \<Rightarrow> binary (\<lambda>l r. Inr (and8 l r))
           | Tbl_Xor8 \<Rightarrow> binary (\<lambda>l r. Inr (xor8 l r))
           | Tbl_Or8 \<Rightarrow> binary (\<lambda>l r. Inr (or8 l r))
           | Tbl_Increment8 \<Rightarrow> and_then (byte 0) (\<lambda>v. Inr (increment8 v (bit 8)))
           | Tbl_Decrement8 \<Rightarrow> and_then (byte 0) (\<lambda>v. Inr (decrement8 v (bit 8)))
           | Tbl_RotateShift8 \<Rightarrow>
               binary (\<lambda>v c. rotate_shift8 v (rotate_shift_from_code (c AND 0x07)) (bit 11) (bit 12))
           | Tbl_DecimalAdjust8 \<Rightarrow>
               binary (\<lambda>v n. Inr (Q_DecimalAdjust8 v (flags_from_nibble (n AND 0x0f))))
           | Tbl_TestBit8 \<Rightarrow> binary (\<lambda>v b. test_bit8 v (b AND 0x07) (bit 11))
           | Tbl_ResetBit8 \<Rightarrow> binary (\<lambda>v b. reset_bit8 v (b AND 0x07))
           | Tbl_SetBit8 \<Rightarrow> binary (\<lambda>v b. set_bit8 v (b AND 0x07))
           | Tbl_Condition \<Rightarrow>
               and_then (byte 4) (\<lambda>c. and_then (byte 0) (\<lambda>n.
                 Inr (Q_Condition (condition_from_code (c AND 0x03))
                   (flags_from_nibble (n AND 0x0f)))))))"

definition evaluate_execution_table_entry ::
  "execution_lookup_table \<Rightarrow> u64 \<Rightarrow> execution_lookup_error + u32" where
  "evaluate_execution_table_entry table index =
     and_then (from_index table index) (\<lambda>q.
     and_then (evaluate q) (\<lambda>out. Inr (output_packed out)))"

section \<open>Validated queries\<close>

text \<open>
  The private \<open>kind\<close> field can only be built by the constructors; this is the set of values
  they produce.
\<close>

fun query_wf :: "execution_lookup_query \<Rightarrow> bool" where
  "query_wf (Q_Binary8 t _ _ carry) \<longleftrightarrow>
     t \<in> {Tbl_Add8, Tbl_Subtract8} \<or> (t \<in> {Tbl_And8, Tbl_Xor8, Tbl_Or8} \<and> \<not> carry)"
| "query_wf (Q_Unary8 t _ _) \<longleftrightarrow> t \<in> {Tbl_Increment8, Tbl_Decrement8}"
| "query_wf (Q_RotateShift8 _ _ _ _) \<longleftrightarrow> True"
| "query_wf (Q_DecimalAdjust8 _ f) \<longleftrightarrow> flags_wf f"
| "query_wf (Q_Bit8 t _ b carry) \<longleftrightarrow>
     b < 8 \<and> (t = Tbl_TestBit8 \<or> (t \<in> {Tbl_ResetBit8, Tbl_SetBit8} \<and> \<not> carry))"
| "query_wf (Q_Condition _ f) \<longleftrightarrow> flags_wf f"

lemma constructors_wf:
  "query_wf (add8 l r c)" "query_wf (subtract8 l r c)" "query_wf (and8 l r)" "query_wf (xor8 l r)"
  "query_wf (or8 l r)" "query_wf (increment8 v c)" "query_wf (decrement8 v c)"
  "rotate_shift8 v cb c z = Inr q \<Longrightarrow> query_wf q"
  "test_bit8 v b c = Inr q \<Longrightarrow> query_wf q"
  "reset_bit8 v b = Inr q \<Longrightarrow> query_wf q"
  "set_bit8 v b = Inr q \<Longrightarrow> query_wf q"
  by (auto simp: add8_def subtract8_def and8_def xor8_def or8_def increment8_def decrement8_def
      rotate_shift8_def test_bit8_def reset_bit8_def set_bit8_def bit8_def
      split: option.splits if_splits)

lemma rotate_shift_as_from_cb [simp]: "rotate_shift_from_cb (rotate_shift_as_cb rs) = Some rs"
  by (cases rs) simp_all

lemma rotate_shift_as_cb_form [simp]: "is_rotate_form (rotate_shift_as_cb rs)"
  by (cases rs) simp_all

text \<open>Evaluation never reaches an error branch on a validated query.\<close>

lemma evaluate_total:
  assumes "query_wf q" shows "\<exists>out. evaluate q = Inr out"
proof (cases q)
  case (Q_RotateShift8 v rs c z)
  then show ?thesis using rotate_shift_None [of "rotate_shift_as_cb rs" v c z] by force
qed (use assms in \<open>auto simp: evaluate_binary8_def evaluate_unary8_def evaluate_bit8_def Let_def\<close>)

section \<open>Addresses\<close>

lemma index_byte_eq [simp]: "index_byte t i s = Inr (ucast (drop_bit s i))"
proof -
  have "drop_bit s i AND 0xff = take_bit 8 (drop_bit s i)"
    by (simp add: take_bit_eq_mask mask_eq_exp_minus_1)
  moreover have "take_bit 8 (drop_bit s i) < 256"
    using and_mask_less' [of 8 "drop_bit s i"] by (simp add: take_bit_eq_mask)
  moreover have "ucast (take_bit 8 (drop_bit s i)) = (ucast (drop_bit s i) :: u8)"
    by (rule bit_word_eqI) (auto simp: bit_simps)
  ultimately show ?thesis by (simp add: index_byte_def try_u8_def)
qed

lemma index_bit_iff [simp]: "index_bit i s \<longleftrightarrow> bit i s"
  by (simp add: index_bit_def bit_iff_odd_drop_bit and_one_eq odd_iff_mod_2_eq_one)

lemma word_and_7: "b AND 0x07 = take_bit 3 (b :: u8)"
  by (simp add: take_bit_eq_mask mask_eq_exp_minus_1)

lemma word_and_3: "b AND 0x03 = take_bit 2 (b :: u8)"
  by (simp add: take_bit_eq_mask mask_eq_exp_minus_1)

lemma word_and_15: "b AND 0x0f = take_bit 4 (b :: u8)"
  by (simp add: take_bit_eq_mask mask_eq_exp_minus_1)

lemma take_bit_3_less_8 [simp]: "take_bit 3 (b :: u8) < 8"
  using and_mask_less' [of 3 b] by (simp add: take_bit_eq_mask)

lemma flags_nibble:
  "flags_byte (flags_from_nibble (take_bit 4 n)) = push_bit 4 n"
proof -
  have "\<forall>n. flags_byte (flags_from_nibble (n AND 0x0f)) = push_bit 4 n"
    unfolding all_u8 by code_simp
  then show ?thesis by (simp add: word_and_15)
qed

lemma flags_from_nibble_drop: "flags_wf f \<Longrightarrow> flags_from_nibble (take_bit 4 (drop_bit 4 (flags_byte f))) = f"
proof -
  have "\<forall>b. b AND 0x0f = 0 \<longrightarrow> flags_from_nibble (drop_bit 4 b AND 0x0f) = Flags b"
    unfolding all_u8 by code_simp
  then show "flags_wf f \<Longrightarrow> ?thesis" by (cases f) (simp add: flags_wf_def word_and_15)
qed

lemma flags_from_nibble_wf [simp]: "flags_wf (flags_from_nibble n)"
  by (simp add: flags_from_nibble_def)

lemma rotate_code_bound: "rotate_shift_code rs = take_bit 3 (rotate_shift_code rs)"
  by (cases rs) simp_all

lemma rotate_from_code [simp]:
  "rotate_shift_from_code (rotate_shift_code rs) = rotate_shift_as_cb rs"
  by (cases rs) (simp_all add: rotate_shift_from_code_def)

lemma rotate_code_from_code:
  "\<exists>rs. rotate_shift_from_code (take_bit 3 c) = rotate_shift_as_cb rs \<and>
        rotate_shift_code rs = take_bit 3 c"
proof -
  have "\<forall>c. map_option rotate_shift_code (rotate_shift_from_cb (rotate_shift_from_code (c AND 7)))
          = Some (c AND 7)"
    unfolding all_u8 by code_simp
  then have *: "map_option rotate_shift_code
      (rotate_shift_from_cb (rotate_shift_from_code (take_bit 3 c))) = Some (take_bit 3 c)"
    by (simp add: word_and_7)
  then obtain rs where "rotate_shift_from_cb (rotate_shift_from_code (take_bit 3 c)) = Some rs"
      "rotate_shift_code rs = take_bit 3 c"
    by auto
  then show ?thesis
    by (intro exI [of _ rs]) (cases "rotate_shift_from_code (take_bit 3 c)"; auto)
qed

lemma condition_from_code_code: "condition_from_code (lookup_condition_code c) = c"
  "lookup_condition_code c = take_bit 2 (lookup_condition_code c)"
  by (cases c; simp add: condition_from_code_def)+

lemma condition_code_from_code: "lookup_condition_code (condition_from_code (take_bit 2 c)) = take_bit 2 c"
proof -
  have "\<forall>c. lookup_condition_code (condition_from_code (c AND 3)) = c AND 3"
    unfolding all_u8 by code_simp
  then show ?thesis by (simp add: word_and_3)
qed

text \<open>
  Bit-level facts: each field of an address is recovered by its shift, and an address inside
  its table is the disjunction of its fields.
\<close>

lemma index_fields:
  "ucast (ucast l OR push_bit 8 (ucast r) OR push_bit 16 (word_of_bool c) :: u64) = (l :: u8)"
  "ucast (drop_bit 8 (ucast l OR push_bit 8 (ucast r) OR push_bit 16 (word_of_bool c) :: u64)) = (r :: u8)"
  "bit (ucast l OR push_bit 8 (ucast r) OR push_bit 16 (word_of_bool c) :: u64) 16 = c"
  by (rule bit_word_eqI; auto simp: bit_simps dest: bit_imp_le_length)+
     (auto simp: bit_simps dest: bit_imp_le_length)

lemma unary_fields:
  "ucast (ucast v OR push_bit 8 (word_of_bool c) :: u64) = (v :: u8)"
  "bit (ucast v OR push_bit 8 (word_of_bool c) :: u64) 8 = c"
  by (rule bit_word_eqI; auto simp: bit_simps dest: bit_imp_le_length)
     (auto simp: bit_simps dest: bit_imp_le_length)

lemma rotate_fields:
  "ucast (ucast v OR push_bit 8 (ucast (take_bit 3 k)) OR push_bit 11 (word_of_bool c) OR
     push_bit 12 (word_of_bool z) :: u64) = (v :: u8)"
  "take_bit 3 (ucast (drop_bit 8 (ucast v OR push_bit 8 (ucast (take_bit 3 k)) OR
     push_bit 11 (word_of_bool c) OR push_bit 12 (word_of_bool z) :: u64))) = (take_bit 3 k :: u8)"
  "bit (ucast v OR push_bit 8 (ucast (take_bit 3 k)) OR push_bit 11 (word_of_bool c) OR
     push_bit 12 (word_of_bool z) :: u64) 11 = c"
  "bit (ucast v OR push_bit 8 (ucast (take_bit 3 k)) OR push_bit 11 (word_of_bool c) OR
     push_bit 12 (word_of_bool z) :: u64) 12 = z"
  by (rule bit_word_eqI; auto simp: bit_simps dest: bit_imp_le_length)+
     (auto simp: bit_simps dest: bit_imp_le_length)

lemma bit_fields:
  "ucast (ucast v OR push_bit 8 (ucast (take_bit 3 k)) OR push_bit 11 (word_of_bool c) :: u64) = (v :: u8)"
  "take_bit 3 (ucast (drop_bit 8 (ucast v OR push_bit 8 (ucast (take_bit 3 k)) OR
     push_bit 11 (word_of_bool c) :: u64))) = (take_bit 3 k :: u8)"
  "bit (ucast v OR push_bit 8 (ucast (take_bit 3 k)) OR push_bit 11 (word_of_bool c) :: u64) 11 = c"
  by (rule bit_word_eqI; auto simp: bit_simps dest: bit_imp_le_length)+
     (auto simp: bit_simps dest: bit_imp_le_length)

lemma nibble_fields:
  "ucast (ucast a OR push_bit 8 (ucast (drop_bit 4 k)) :: u64) = (a :: u8)"
  "take_bit 4 (ucast (drop_bit 8 (ucast a OR push_bit 8 (ucast (drop_bit 4 k)) :: u64)))
     = (take_bit 4 (drop_bit 4 k) :: u8)"
  by (rule bit_word_eqI; auto simp: bit_simps dest: bit_imp_le_length)+

lemma condition_fields:
  "take_bit 4 (ucast (ucast (drop_bit 4 k) OR push_bit 4 (ucast (take_bit 2 c)) :: u64))
     = (take_bit 4 (drop_bit 4 k) :: u8)"
  "take_bit 2 (ucast (drop_bit 4 (ucast (drop_bit 4 k) OR push_bit 4 (ucast (take_bit 2 c)) :: u64)))
     = (take_bit 2 c :: u8)"
  by (rule bit_word_eqI; auto simp: bit_simps dest: bit_imp_le_length)+

text \<open>A word whose bits all lie below \<open>n\<close> is smaller than \<open>2 ^ n\<close>.\<close>

lemma unat_bit_bound:
  assumes "\<And>k. bit (w :: 'a::len word) k \<Longrightarrow> k < n"
  shows "unat w < 2 ^ n"
proof -
  have "take_bit n w = w" by (rule bit_word_eqI) (auto simp: bit_simps dest: assms)
  then have "unat w = take_bit n (unat w)" by (metis unsigned_take_bit_eq)
  then show ?thesis by (metis take_bit_nat_less_exp)
qed

lemma less_8_take_bit: "(b :: u8) < 8 \<Longrightarrow> take_bit 3 b = b"
  using less_mask_eq [of b 3] by (simp add: take_bit_eq_mask)

lemma lookup_index_bound:
  assumes "query_wf q"
  shows "unat (lookup_index q) < 2 ^ lookup_num_variables q"
proof (rule unat_bit_bound)
  fix k assume bit: "bit (lookup_index q) k"
  show "k < lookup_num_variables q"
  proof (cases q)
    case (Q_RotateShift8 v rs c z)
    then show ?thesis using bit bit_imp_le_length [of "rotate_shift_code rs"]
      by (subst (asm) Q_RotateShift8, simp, subst (asm) rotate_code_bound)
         (auto simp: lookup_num_variables_def bit_simps dest: bit_imp_le_length)
  next
    case (Q_Bit8 t v b c)
    with assms have "take_bit 3 b = b" by (simp add: less_8_take_bit)
    then have "bit b j \<Longrightarrow> j < 3" for j by (metis bit_take_bit_iff)
    with Q_Bit8 show ?thesis using bit assms
      by (auto simp: lookup_num_variables_def bit_simps dest: bit_imp_le_length)
        (force dest: bit_imp_le_length)+
  next
    case (Q_Condition c f)
    then show ?thesis using bit
      by (subst (asm) Q_Condition, simp, subst (asm) condition_from_code_code(2))
         (auto simp: lookup_num_variables_def bit_simps dest: bit_imp_le_length)
  qed (use assms bit in \<open>auto simp: lookup_num_variables_def bit_simps dest: bit_imp_le_length\<close>)
qed

lemma input_bit_count_small: "input_bit_count t < 64"
  by (cases t) simp_all

lemma index_bound_iff: "push_bit (input_bit_count t) 1 \<le> (i :: u64) \<longleftrightarrow> 2 ^ input_bit_count t \<le> unat i"
  by (simp add: word_le_nat_alt push_bit_eq_mult unat_pow2 input_bit_count_small)

lemma from_index_out_of_range:
  assumes "\<not> unat i < 2 ^ input_bit_count t"
  shows "from_index t i = Inl (LE_AddressOutOfRange t i)"
proof -
  have "push_bit (input_bit_count t) 1 \<le> i" using assms unfolding index_bound_iff by simp
  then show ?thesis
    by (simp add: from_index_def checked_shl1_def input_bit_count_small del: push_bit_of_1)
qed

lemmas query_defs = add8_def subtract8_def and8_def xor8_def or8_def increment8_def decrement8_def
  rotate_shift8_def test_bit8_def reset_bit8_def set_bit8_def bit8_def

text \<open>Inside the table, \<open>from_index\<close> reads the fields of the address and cannot fail.\<close>

lemma from_index_fields:
  assumes "unat i < 2 ^ input_bit_count t"
  shows "from_index t i =
     (let lo = ucast i; hi = ucast (drop_bit 8 i)
      in case t of
           Tbl_Add8 \<Rightarrow> Inr (Q_Binary8 Tbl_Add8 lo hi (bit i 16))
         | Tbl_Subtract8 \<Rightarrow> Inr (Q_Binary8 Tbl_Subtract8 lo hi (bit i 16))
         | Tbl_And8 \<Rightarrow> Inr (Q_Binary8 Tbl_And8 lo hi False)
         | Tbl_Xor8 \<Rightarrow> Inr (Q_Binary8 Tbl_Xor8 lo hi False)
         | Tbl_Or8 \<Rightarrow> Inr (Q_Binary8 Tbl_Or8 lo hi False)
         | Tbl_Increment8 \<Rightarrow> Inr (Q_Unary8 Tbl_Increment8 lo (bit i 8))
         | Tbl_Decrement8 \<Rightarrow> Inr (Q_Unary8 Tbl_Decrement8 lo (bit i 8))
         | Tbl_RotateShift8 \<Rightarrow>
             rotate_shift8 lo (rotate_shift_from_code (take_bit 3 hi)) (bit i 11) (bit i 12)
         | Tbl_DecimalAdjust8 \<Rightarrow> Inr (Q_DecimalAdjust8 lo (flags_from_nibble (take_bit 4 hi)))
         | Tbl_TestBit8 \<Rightarrow> Inr (Q_Bit8 Tbl_TestBit8 lo (take_bit 3 hi) (bit i 11))
         | Tbl_ResetBit8 \<Rightarrow> Inr (Q_Bit8 Tbl_ResetBit8 lo (take_bit 3 hi) False)
         | Tbl_SetBit8 \<Rightarrow> Inr (Q_Bit8 Tbl_SetBit8 lo (take_bit 3 hi) False)
         | Tbl_Condition \<Rightarrow>
             Inr (Q_Condition (condition_from_code (take_bit 2 (ucast (drop_bit 4 i))))
               (flags_from_nibble (take_bit 4 lo))))"
proof -
  have "\<not> push_bit (input_bit_count t) 1 \<le> i" using assms unfolding index_bound_iff by simp
  moreover have "\<not> 8 \<le> take_bit 3 (x :: u8)" for x by (simp add: not_le)
  ultimately show ?thesis
    by (simp add: from_index_def checked_shl1_def input_bit_count_small Let_def word_and_7 word_and_3
        word_and_15 query_defs del: push_bit_of_1 split: execution_lookup_table.split)
qed

lemma from_index_lookup_index:
  assumes "query_wf q"
  shows "from_index (query_table q) (lookup_index q) = Inr q"
proof -
  define i where "i = lookup_index q"
  note rd = from_index_fields [OF lookup_index_bound [OF assms, unfolded lookup_num_variables_def],
      folded i_def]
  have "from_index (query_table q) i = Inr q"
  proof (cases q)
    case (Q_Binary8 t l r c)
    have "ucast i = l" "ucast (drop_bit 8 i) = r" "bit i 16 = c"
      using index_fields [of l r c] unfolding i_def Q_Binary8 lookup_index.simps .
    with assms rd Q_Binary8 show ?thesis by auto
  next
    case (Q_Unary8 t v c)
    have "ucast i = v" "bit i 8 = c"
      using unary_fields [of v c] unfolding i_def Q_Unary8 lookup_index.simps .
    with assms rd Q_Unary8 show ?thesis by auto
  next
    case (Q_RotateShift8 v rs c z)
    have "ucast i = v" "take_bit 3 (ucast (drop_bit 8 i)) = rotate_shift_code rs"
      "bit i 11 = c" "bit i 12 = z"
      using rotate_fields [of v "rotate_shift_code rs" c z, folded rotate_code_bound]
      unfolding i_def Q_RotateShift8 lookup_index.simps .
    with rd Q_RotateShift8 show ?thesis by (simp add: rotate_shift8_def)
  next
    case (Q_DecimalAdjust8 a f)
    have "ucast i = a" "take_bit 4 (ucast (drop_bit 8 i)) = take_bit 4 (drop_bit 4 (flags_byte f))"
      using nibble_fields [of a "flags_byte f"] unfolding i_def Q_DecimalAdjust8 lookup_index.simps .
    with assms rd Q_DecimalAdjust8 show ?thesis
      by (simp add: flags_from_nibble_drop)
  next
    case (Q_Bit8 t v b c)
    with assms have b: "take_bit 3 b = b" by (simp add: less_8_take_bit)
    have "ucast i = v" "take_bit 3 (ucast (drop_bit 8 i)) = b" "bit i 11 = c"
      using bit_fields [of v b c] unfolding b i_def Q_Bit8 lookup_index.simps .
    with assms rd Q_Bit8 show ?thesis by auto
  next
    case (Q_Condition c f)
    have "take_bit 4 (ucast i) = take_bit 4 (drop_bit 4 (flags_byte f))"
      "take_bit 2 (ucast (drop_bit 4 i)) = lookup_condition_code c"
      using condition_fields [of "flags_byte f" "lookup_condition_code c",
        folded condition_from_code_code(2)]
      unfolding i_def Q_Condition lookup_index.simps .
    with assms rd Q_Condition show ?thesis
      by (simp add: flags_from_nibble_drop condition_from_code_code(1))
  qed
  then show ?thesis by (simp only: i_def)
qed

text \<open>Conversely the query read from an address is validated and has that address.\<close>

lemma from_index_wf:
  assumes "from_index t i = Inr q"
  shows "query_wf q \<and> query_table q = t \<and> unat i < 2 ^ input_bit_count t"
proof -
  have r: "unat i < 2 ^ input_bit_count t"
    using assms from_index_out_of_range by (metis Inl_Inr_False)
  have "rotate_shift8 v k c z = Inr q \<Longrightarrow> query_table q = Tbl_RotateShift8" for v k c z
    by (auto simp: rotate_shift8_def split: option.splits)
  with assms from_index_fields [OF r] r show ?thesis
    by (auto simp: Let_def constructors_wf(8) split: execution_lookup_table.splits)
qed

lemma flags_nibble_bit:
  "bit (flags_byte (flags_from_nibble (take_bit 4 n))) k \<longleftrightarrow> 4 \<le> k \<and> k < 8 \<and> bit n (k - 4)"
  by (simp add: flags_nibble bit_simps)

lemma below_17: "k < 17 \<Longrightarrow> k \<in> set [0, 1, 2, 3, 4, 5, 6, 7, 8, 9, 10, 11, 12, 13, 14, 15, 16]"
  for k :: nat
  by simp presburger

lemma input_bit_count_17: "input_bit_count t \<le> 17"
  by (cases t) simp_all

lemma lookup_index_from_index:
  assumes "from_index t i = Inr q"
  shows "lookup_index q = i"
proof (rule bit_word_eqI)
  fix k
  from from_index_wf [OF assms] have wf: "query_wf q" "query_table q = t"
    and r: "unat i < 2 ^ input_bit_count t" by simp_all
  obtain rs where rs: "rotate_shift_from_code (take_bit 3 (ucast (drop_bit 8 i))) = rotate_shift_as_cb rs"
      "rotate_shift_code rs = take_bit 3 (ucast (drop_bit 8 i))"
    using rotate_code_from_code by blast
  have out: "\<not> bit i k \<and> \<not> bit (lookup_index q) k" if "\<not> k < input_bit_count t"
    using that r lookup_index_bound [OF wf(1)] wf(2) bit_word_bound
    unfolding lookup_num_variables_def by blast
  show "bit (lookup_index q) k = bit i k"
  proof (cases "k < input_bit_count t")
    case True
    then have "k \<in> set [0, 1, 2, 3, 4, 5, 6, 7, 8, 9, 10, 11, 12, 13, 14, 15, 16]"
      using input_bit_count_17 [of t] below_17 [of k] by linarith
    with True assms show ?thesis unfolding from_index_fields [OF r] Let_def
      by (cases t)
         (auto simp: rs rotate_shift8_def condition_code_from_code flags_nibble_bit bit_simps)
  qed (use out in blast)
qed

end
