(* ===== verification/Isa_Properties.thy ===== *)
theory Isa_Properties
  imports Isa_Alignment Core_Lookup
begin

text \<open>
  The properties of the instruction-set and execution-table components: decoding, the packed
  alignment row, the table layout, the address bijection of the execution tables and the
  arithmetic the tables tabulate.
\<close>

section \<open>Decoding\<close>

text \<open>Every primary byte is classified: the eleven undefined opcodes are reported with
  their byte, every other byte decodes to an instruction that carries its own encoding, whose
  length is one opcode byte plus exactly the immediates its operation reads, and whose base
  timing is between one and six M-cycles with a strictly longer taken timing if any.\<close>

theorem decode_primary_complete:
  "case decode_primary b of
     Undefined u \<Rightarrow> u = b \<and> b \<in> {0xd3, 0xdb, 0xdd, 0xe3, 0xe4, 0xeb, 0xec, 0xed, 0xf4, 0xfc, 0xfd}
   | Defined i \<Rightarrow>
       di_encoding i = Enc_Primary b \<and>
       unat (di_byte_len i) = Suc (immediates_needed (di_operation i)) \<and>
       decodable_operation (di_operation i) \<and>
       (di_operation i = Op_PrefixCb) = (b = 0xcb) \<and>
       1 \<le> base_m_cycles (di_timing i) \<and> base_m_cycles (di_timing i) \<le> 6 \<and>
       (case taken_m_cycles (di_timing i) of
          None \<Rightarrow> True | Some t \<Rightarrow> base_m_cycles (di_timing i) < t \<and> t \<le> 6)"
proof (cases "is_undefined b")
  case True
  then show ?thesis by (simp add: decode_primary_def is_undefined_def)
next
  case False
  then have d: "decode_primary b = Defined (decode_defined_primary b)" by (simp add: decode_primary_def)
  then have "defined_instruction (decode_defined_primary b)" unfolding defined_instruction_def by blast
  then show ?thesis
    using defined_timing [of "decode_defined_primary b"] defined_decodable primary_byte_len
      primary_prefix_iff
    by (auto simp: d simp del: decode_defined_primary_simps(2-8) split: option.split)
qed

text \<open>The proof descriptor identifies the operation: two defined instructions with the same
  descriptor have the same operation.\<close>

theorem descriptor_identifies_operation:
  assumes "defined_instruction i" "defined_instruction j"
    and "descriptor (di_operation i) = descriptor (di_operation j)"
  shows "di_operation i = di_operation j"
  using assms descriptor_inject defined_canonical by blast

theorem descriptor_identifies_operation_witness:
  "di_operation (decode_cb 0x11) = di_operation (decode_cb 0x11)"
  by (rule descriptor_identifies_operation) (auto simp: defined_instruction_def)

section \<open>Alignment rows\<close>

text \<open>The packing of an alignment row is total on defined instructions and lossless: the row
  of a defined instruction packs without error into 106 bits, and reading the fields back at
  their declared widths returns the row's fields.\<close>

theorem alignment_pack_roundtrip:
  assumes "defined_instruction i"
  shows "\<exists>p. packed_row (from_decoded i) = Inr p \<and> unat p < 2 ^ 106 \<and>
    unpack_fields (map (snd \<circ> snd) (packed_fields (from_decoded i))) p
      = map (fst \<circ> snd) (packed_fields (from_decoded i))"
proof -
  obtain p where p: "packed_row (from_decoded i) = Inr p"
    using packed_defined_ok [OF assms] by (auto simp: is_ok_def split: sum.splits)
  have "unat (take_bit 106 p) < 2 ^ 106"
    unfolding unsigned_take_bit_eq by (rule take_bit_nat_less_exp)
  with packed_row_Inr [OF p] p show ?thesis by auto
qed

theorem alignment_pack_roundtrip_witness:
  "\<exists>p. packed_row (from_decoded (decode_cb 0x7c)) = Inr p \<and> unat p < 2 ^ 106 \<and>
    unpack_fields (map (snd \<circ> snd) (packed_fields (from_decoded (decode_cb 0x7c)))) p
      = map (fst \<circ> snd) (packed_fields (from_decoded (decode_cb 0x7c)))"
  by (rule alignment_pack_roundtrip) (auto simp: defined_instruction_def)

text \<open>Packed alignment rows never collide: two rows that pack to the same integer are the
  same row.\<close>

theorem packed_row_injective:
  assumes "packed_row a = Inr p" "packed_row b = Inr p"
  shows "a = b"
proof -
  have "map (snd \<circ> snd) (packed_fields a) = map (snd \<circ> snd) (packed_fields b)"
    by (simp add: packed_fields_def)
  then have "map (fst \<circ> snd) (packed_fields a) = map (fst \<circ> snd) (packed_fields b)"
    using packed_row_Inr(1) [OF assms(1)] packed_row_Inr(1) [OF assms(2)] by metis
  then show ?thesis by (simp add: packed_fields_inject)
qed

theorem packed_row_injective_witness:
  "\<exists>p. packed_row (from_decoded (decode_cb 0)) = Inr p \<and>
     (\<forall>b. b = from_decoded (decode_cb 0) \<or> packed_row b \<noteq> Inr p)"
proof -
  have "defined_instruction (decode_cb 0)" by (auto simp: defined_instruction_def)
  then obtain p where p: "packed_row (from_decoded (decode_cb 0)) = Inr p"
    using packed_defined_ok by (force simp: is_ok_def split: sum.splits)
  then show ?thesis using packed_row_injective [OF p] by metis
qed

section \<open>Execution tables\<close>

text \<open>The thirteen execution tables own pairwise disjoint ranges of the 19-bit packed domain,
  each aligned to its own size, so a packed address identifies one table and one row.\<close>

theorem packed_tables_partition:
  "(\<forall>t u. table_range t \<inter> table_range u = {} \<or> t = u) \<and>
   (\<forall>t. table_range t \<subseteq> {..< 2 ^ 19} \<and> unat (packed_offset t) mod unat (row_count t) = 0 \<and>
      card (table_range t) = unat (row_count t))"
  using table_ranges_disjoint table_range_bound table_offset_aligned
  by (auto simp: unat_row_count table_range_def [THEN arg_cong [where f = card]])

lemma from_index_total:
  assumes "unat i < 2 ^ input_bit_count t" shows "\<exists>r. from_index t i = Inr r"
proof -
  have "\<exists>r. rotate_shift8 v (rotate_shift_from_code (take_bit 3 c)) x y = Inr r" for v c x y
    using rotate_code_from_code [of c] by (auto simp: rotate_shift8_def)
  then show ?thesis
    unfolding from_index_fields [OF assms] Let_def by (cases t) simp_all
qed

text \<open>Table addresses and validated queries are in bijection: the address of a validated
  query lies inside its table and reads back to the query; an address inside a table reads back
  to a validated query of that table with that address; every other address is rejected with
  the out-of-range error.\<close>

theorem lookup_address_bijection:
  "(query_wf q \<longrightarrow>
      unat (lookup_index q) < 2 ^ lookup_num_variables q \<and>
      from_index (query_table q) (lookup_index q) = Inr q) \<and>
   (if unat i < 2 ^ input_bit_count t
    then (\<exists>r. from_index t i = Inr r \<and> query_wf r \<and> query_table r = t \<and> lookup_index r = i)
    else from_index t i = Inl (LE_AddressOutOfRange t i))"
  using lookup_index_bound [of q] from_index_lookup_index [of q] from_index_wf
    lookup_index_from_index from_index_out_of_range [of i t] from_index_total [of i t]
  by (metis (no_types, lifting))

theorem lookup_address_bijection_witness:
  "unat (lookup_index (add8 0xff 0xff True)) < 2 ^ lookup_num_variables (add8 0xff 0xff True) \<and>
   from_index (query_table (add8 0xff 0xff True)) (lookup_index (add8 0xff 0xff True))
     = Inr (add8 0xff 0xff True)"
  using lookup_address_bijection [of "add8 0xff 0xff True" 0 Tbl_Add8] constructors_wf(1) by blast

text \<open>A table entry exists at an address exactly when the address is in range, and then it is
  the packed output of the query with that address; no entry evaluation reaches an error.\<close>

theorem table_entry_total:
  "(\<exists>v. evaluate_execution_table_entry t i = Inr v) = (unat i < 2 ^ input_bit_count t) \<and>
   (query_wf q \<longrightarrow>
      (\<exists>out. evaluate q = Inr out \<and>
         evaluate_execution_table_entry (query_table q) (lookup_index q) = Inr (output_packed out)))"
proof -
  have "\<exists>r. from_index t i = Inr r \<and> query_wf r" if "unat i < 2 ^ input_bit_count t"
    using from_index_total [OF that] from_index_wf by blast
  moreover have "from_index t i = Inr r \<Longrightarrow> unat i < 2 ^ input_bit_count t" for r
    using from_index_wf by blast
  ultimately have "(\<exists>v. evaluate_execution_table_entry t i = Inr v) = (unat i < 2 ^ input_bit_count t)"
    using evaluate_total by (auto simp: evaluate_execution_table_entry_def)
  moreover have "query_wf q \<longrightarrow>
      (\<exists>out. evaluate q = Inr out \<and>
         evaluate_execution_table_entry (query_table q) (lookup_index q) = Inr (output_packed out))"
    using evaluate_total [of q] from_index_lookup_index [of q]
    by (auto simp: evaluate_execution_table_entry_def)
  ultimately show ?thesis by blast
qed

theorem table_entry_total_witness:
  "\<exists>out. evaluate (and8 0x0f 0x3c) = Inr out \<and>
     evaluate_execution_table_entry (query_table (and8 0x0f 0x3c)) (lookup_index (and8 0x0f 0x3c))
       = Inr (output_packed out)"
  using table_entry_total [of Tbl_And8 0 "and8 0x0f 0x3c"] constructors_wf(3) by blast

section \<open>Arithmetic\<close>

text \<open>Byte addition and subtraction in natural numbers: the result byte together with the
  carry (borrow) flag is the exact sum (difference), the half-carry flag is the carry across the
  nibble boundary, and subtracting what was added restores the byte with the same carry.\<close>

theorem alu_add_subtract_exact:
  "let k = (if c then 1 else 0); a = alu_add l r c; d = alu_subtract l r c in
     unat (br_value a) + (if flag_carry (br_flags a) then 256 else 0) = unat l + unat r + k \<and>
     flag_half_carry (br_flags a) = (16 \<le> unat l mod 16 + unat r mod 16 + k) \<and>
     flag_zero (br_flags a) = (br_value a = 0) \<and> \<not> flag_subtract (br_flags a) \<and>
     unat (br_value d) + unat r + k = unat l + (if flag_carry (br_flags d) then 256 else 0) \<and>
     flag_half_carry (br_flags d) = (unat l mod 16 < unat r mod 16 + k) \<and>
     flag_zero (br_flags d) = (br_value d = 0) \<and> flag_subtract (br_flags d) \<and>
     br_value (alu_subtract (br_value a) r c) = l \<and>
     flag_carry (br_flags (alu_subtract (br_value a) r c)) = flag_carry (br_flags a)"
proof -
  have "unat l < 256" "unat r < 256" by simp_all
  then have "unat (br_value (alu_add l r c)) + (if flag_carry (br_flags (alu_add l r c)) then 256 else 0)
      = unat l + unat r + (if c then 1 else 0)"
    unfolding unat_alu_add alu_add_carry
    by (subst mod_256_cases) (auto simp del: unat_less_256)
  then show ?thesis
    using unat_alu_subtract [of l r c]
    by (simp add: Let_def alu_add_half_carry alu_add_zero alu_subtract_half_carry
        alu_subtract_zero alu_subtract_add)
qed

text \<open>C36: The decimal adjustment makes packed-BCD arithmetic correct: after adding (subtracting)
  two packed decimals with a carry, the adjusted byte is the packed decimal of the sum
  (difference) modulo one hundred and the carry flag tells whether it wrapped.\<close>

theorem decimal_adjust_correct:
  assumes "m < 100" "n < 100"
  shows "let s = m + n + (if flag_carry f then 1 else 0);
      t = int m - int n - (if flag_carry f then 1 else 0);
      a = apply_alu Alu_AddCarry (bcd m) (bcd n) f;
      d = apply_alu Alu_SubtractCarry (bcd m) (bcd n) f
    in br_value (decimal_adjust (br_value a) (br_flags a)) = bcd (s mod 100) \<and>
       flag_carry (br_flags (decimal_adjust (br_value a) (br_flags a))) = (100 \<le> s) \<and>
       br_value (decimal_adjust (br_value d) (br_flags d)) = bcd (nat (t mod 100)) \<and>
       flag_carry (br_flags (decimal_adjust (br_value d) (br_flags d))) = (t < 0)"
  using bcd_addition [OF assms] bcd_subtraction [OF assms] by (simp add: Let_def)

theorem decimal_adjust_correct_witness:
  "br_value (decimal_adjust (br_value (apply_alu Alu_AddCarry (bcd 58) (bcd 46) (Flags 0)))
     (br_flags (apply_alu Alu_AddCarry (bcd 58) (bcd 46) (Flags 0)))) = bcd 4"
  using decimal_adjust_correct [of 58 46 "Flags 0"] 
  by (simp add: flag_carry_def CARRY_MASK_def Let_def)

end
