(* ===== verification/Mmio_Device.thy ===== *)
theory Mmio_Device
  imports Prelude
begin

text \<open>
  The contract the DMG devices share: a byte-addressed register file whose \<open>read\<close> is partial on
  the address alone and whose \<open>write\<close> returns the byte that was visible before it. The timer, the
  APU and the composed device state of \<open>crates/zksm83-core/src/dmg.rs\<close> all implement it.
\<close>

locale mmio_device =
  fixes rd :: "'s \<Rightarrow> u16 \<Rightarrow> u8 option"
    and wr :: "u16 \<Rightarrow> u8 \<Rightarrow> 's \<Rightarrow> (u8 \<times> 's) option"
    and mapped :: "u16 \<Rightarrow> bool"
    and wf :: "'s \<Rightarrow> bool"
  assumes rd_mapped: "wf s \<Longrightarrow> rd s a = None \<longleftrightarrow> \<not> mapped a"
    and wr_unmapped: "wf s \<Longrightarrow> \<not> mapped a \<Longrightarrow> wr a v s = None"
    and wr_mapped: "wf s \<Longrightarrow> mapped a \<Longrightarrow> \<exists>s'. wr a v s = Some (the (rd s a), s')"
    and wr_wf: "wf s \<Longrightarrow> wr a v s = Some (b, s') \<Longrightarrow> wf s'"
begin

text \<open>A write returns exactly the byte a read would have shown, and fails where a read fails.\<close>

lemma wr_prior: "wf s \<Longrightarrow> wr a v s = Some (b, s') \<Longrightarrow> rd s a = Some b"
  using rd_mapped [of s a] wr_mapped [of s a v] wr_unmapped [of s a v] by (cases "mapped a") auto

lemma wr_None_iff: "wf s \<Longrightarrow> wr a v s = None \<longleftrightarrow> rd s a = None"
  using rd_mapped [of s a] wr_mapped [of s a v] wr_unmapped [of s a v] by (cases "mapped a") auto

text \<open>A list of register writes, each address-value pair in turn.\<close>

fun writes :: "(u16 \<times> u8) list \<Rightarrow> 's \<Rightarrow> 's option" where
  "writes [] s = Some s"
| "writes ((a, v) # ws) s = (case wr a v s of None \<Rightarrow> None | Some (_, s') \<Rightarrow> writes ws s')"

lemma writes_wf: "wf s \<Longrightarrow> writes ws s = Some s' \<Longrightarrow> wf s'"
  by (induction ws s rule: writes.induct) (auto split: option.splits dest: wr_wf)

lemma writes_total_iff: "wf s \<Longrightarrow> (\<exists>s'. writes ws s = Some s') \<longleftrightarrow> (\<forall>(a, v) \<in> set ws. mapped a)"
proof (induction ws s rule: writes.induct)
  case (2 a v ws s)
  show ?case
  proof (cases "mapped a")
    case True
    then obtain s' where w: "wr a v s = Some (the (rd s a), s')" using wr_mapped 2(2) by blast
    then have "wf s'" using wr_wf 2(2) by blast
    then show ?thesis using 2(1) [OF w] w True by simp
  next
    case False
    then show ?thesis using wr_unmapped 2(2) by simp
  qed
qed simp

end

end
