(* ===== verification/Timer.thy ===== *)
theory Timer
  imports Mmio_Device
begin

text \<open>
  The divider and programmable timer of \<open>crates/zksm83-core/src/dmg/timer.rs\<close>: register reads and
  writes, the per-T-cycle tick with the falling-edge detector and the delayed reload pipeline,
  and the closed-form distance to the next reload interrupt. The main lemma proves that distance
  exact against the tick-by-tick simulation.
\<close>

section \<open>State and register access\<close>

record dmg_timer_state =
  raw_div :: u16
  tm_counter :: u8
  tm_modulo :: u8
  tm_control :: u8
  edge_latch :: bool
  reload_phase :: u8

definition TAC_UNUSED :: u8 where "TAC_UNUSED = 0xf8"
definition TIMER_INTERRUPT :: u8 where "TIMER_INTERRUPT = 0x04"

definition timer_empty :: dmg_timer_state where
  "timer_empty = \<lparr>raw_div = 0, tm_counter = 0, tm_modulo = 0, tm_control = 0, edge_latch = False,
     reload_phase = 0\<rparr>"

definition timer_dmg_post_boot :: dmg_timer_state where
  "timer_dmg_post_boot = \<lparr>raw_div = 0xabcc, tm_counter = 0, tm_modulo = 0, tm_control = 0,
     edge_latch = False, reload_phase = 0\<rparr>"

definition timer_read :: "dmg_timer_state \<Rightarrow> u16 \<Rightarrow> u8 option" where
  "timer_read t address =
     (if address = 0xff04 then Some (ucast (drop_bit 8 (raw_div t)))
      else if address = 0xff05 \<and> reload_phase t = 5 then Some (tm_modulo t)
      else if address = 0xff05 then Some (tm_counter t)
      else if address = 0xff06 then Some (tm_modulo t)
      else if address = 0xff07 then Some (TAC_UNUSED OR tm_control t)
      else None)"

definition write_counter :: "u8 \<Rightarrow> dmg_timer_state \<Rightarrow> dmg_timer_state" where
  "write_counter v t =
     (if reload_phase t = 5 then t\<lparr>tm_counter := tm_modulo t\<rparr>
      else t\<lparr>tm_counter := v, reload_phase := 0\<rparr>)"

definition write_modulo :: "u8 \<Rightarrow> dmg_timer_state \<Rightarrow> dmg_timer_state" where
  "write_modulo v t =
     (let t' = t\<lparr>tm_modulo := v\<rparr>
      in if reload_phase t' = 5 then t'\<lparr>tm_counter := v\<rparr> else t')"

definition timer_write :: "u16 \<Rightarrow> u8 \<Rightarrow> dmg_timer_state \<Rightarrow> (u8 \<times> dmg_timer_state) option" where
  "timer_write address v t =
     (case timer_read t address of
        None \<Rightarrow> None
      | Some before \<Rightarrow>
          if address = 0xff04 then Some (before, t\<lparr>raw_div := 0\<rparr>)
          else if address = 0xff05 then Some (before, write_counter v t)
          else if address = 0xff06 then Some (before, write_modulo v t)
          else if address = 0xff07 then Some (before, t\<lparr>tm_control := v AND 0x07\<rparr>)
          else None)"

section \<open>Ticking\<close>

definition detector_input :: "dmg_timer_state \<Rightarrow> bool" where
  "detector_input t =
     (let sel = tm_control t AND 0x03;
          m = (if sel = 0 then push_bit 9 1 else if sel = 1 then push_bit 3 1
               else if sel = 2 then push_bit 5 1 else push_bit 7 1)
      in tm_control t AND 0x04 \<noteq> 0 \<and> raw_div t AND m \<noteq> 0)"

definition increment_counter :: "dmg_timer_state \<Rightarrow> dmg_timer_state" where
  "increment_counter t =
     (if tm_counter t = 0xff then t\<lparr>tm_counter := 0, reload_phase := 1\<rparr>
      else t\<lparr>tm_counter := tm_counter t + 1\<rparr>)"

definition advance_reload_pipeline :: "dmg_timer_state \<Rightarrow> u8 \<times> dmg_timer_state" where
  "advance_reload_pipeline t =
     (if reload_phase t = 5 then
        (TIMER_INTERRUPT, t\<lparr>tm_counter := tm_modulo t, reload_phase := 0\<rparr>)
      else
        (0, if reload_phase t \<noteq> 0 then t\<lparr>reload_phase := reload_phase t + 1\<rparr> else t))"

definition timer_tick :: "dmg_timer_state \<Rightarrow> u8 \<times> dmg_timer_state" where
  "timer_tick t =
     (let (requested, t1) = advance_reload_pipeline t;
          t2 = t1\<lparr>raw_div := raw_div t1 + 1\<rparr>;
          detector = detector_input t2;
          falling = (edge_latch t2 \<and> \<not> detector);
          t3 = t2\<lparr>edge_latch := detector\<rparr>;
          t4 = (if falling then increment_counter t3 else t3)
      in (requested, t4))"

text \<open>The loop of \<open>advance_t_cycles\<close> with its accumulated request bits.\<close>

primrec timer_ticks :: "nat \<Rightarrow> dmg_timer_state \<Rightarrow> u8 \<times> dmg_timer_state" where
  "timer_ticks 0 t = (0, t)"
| "timer_ticks (Suc n) t =
     (let (requested, t') = timer_ticks n t; (r, t'') = timer_tick t' in (requested OR r, t''))"

definition advance_t_cycles :: "u8 \<Rightarrow> dmg_timer_state \<Rightarrow> u8 \<times> dmg_timer_state" where
  "advance_t_cycles ticks t = timer_ticks (unat ticks) t"

definition timer_period :: "u8 \<Rightarrow> u32" where
  "timer_period control =
     (let sel = control AND 0x03
      in if sel = 0 then 1024 else if sel = 1 then 16 else if sel = 2 then 64 else 256)"

definition t_cycles_until_interrupt :: "dmg_timer_state \<Rightarrow> u32 option" where
  "t_cycles_until_interrupt t =
     (if tm_control t AND 0x04 = 0 \<or> reload_phase t \<noteq> 0 \<or> edge_latch t \<noteq> detector_input t then None
      else
        (let period = timer_period (tm_control t);
             remainder = ucast (raw_div t) AND (period - 1);
             first_falling_edge = period - remainder;
             later_falling_edges = ucast (0xff - tm_counter t) * period
         in Option.bind (checked_add first_falling_edge later_falling_edges)
              (\<lambda>sum. checked_add sum 5)))"

section \<open>Invariant\<close>

definition timer_wf :: "dmg_timer_state \<Rightarrow> bool" where
  "timer_wf t \<longleftrightarrow> tm_control t \<le> 7 \<and> reload_phase t \<le> 5"

lemma timer_initial_wf [simp]: "timer_wf timer_empty" "timer_wf timer_dmg_post_boot"
  by (simp_all add: timer_wf_def timer_empty_def timer_dmg_post_boot_def)

lemma phase_step: "(p :: u8) \<le> 5 \<Longrightarrow> p \<noteq> 5 \<Longrightarrow> p + 1 \<le> 5"
proof -
  have "\<forall>p::u8. p \<le> 5 \<longrightarrow> p \<noteq> 5 \<longrightarrow> p + 1 \<le> 5" unfolding all_u8 by code_simp
  then show "p \<le> 5 \<Longrightarrow> p \<noteq> 5 \<Longrightarrow> p + 1 \<le> 5" by blast
qed

lemma timer_tick_wf: "timer_wf t \<Longrightarrow> timer_wf (snd (timer_tick t))"
  by (auto simp: timer_tick_def timer_wf_def Let_def advance_reload_pipeline_def
      increment_counter_def phase_step)

lemma timer_ticks_wf: "timer_wf t \<Longrightarrow> timer_wf (snd (timer_ticks n t))"
  by (induction n) (auto simp: Let_def split_beta timer_tick_wf)

lemma word_and_le_mask: "(v :: u8) AND 0x07 \<le> 7"
  by (metis word_and_le1 and.commute)

lemma timer_write_wf: "timer_wf t \<Longrightarrow> timer_write a v t = Some (b, t') \<Longrightarrow> timer_wf t'"
  by (auto simp: timer_write_def timer_wf_def write_counter_def write_modulo_def Let_def
      word_and_le_mask split: option.splits if_splits)

interpretation timer: mmio_device timer_read timer_write
  "\<lambda>a. a \<in> {0xff04, 0xff05, 0xff06, 0xff07}" timer_wf
proof
  show "timer_wf s \<Longrightarrow> timer_read s a = None \<longleftrightarrow> a \<notin> {0xff04, 0xff05, 0xff06, 0xff07}" for s a
    by (simp add: timer_read_def)
  show "timer_wf s \<Longrightarrow> a \<notin> {0xff04, 0xff05, 0xff06, 0xff07} \<Longrightarrow> timer_write a v s = None" for s a v
    by (simp add: timer_write_def timer_read_def)
  show "timer_wf s \<Longrightarrow> a \<in> {0xff04, 0xff05, 0xff06, 0xff07} \<Longrightarrow>
      \<exists>s'. timer_write a v s = Some (the (timer_read s a), s')" for s a v
    by (auto simp: timer_write_def timer_read_def)
qed (rule timer_write_wf)

text \<open>Composition of tick loops, and the request bits they can raise.\<close>

lemma timer_ticks_add:
  "timer_ticks (m + n) t =
     (fst (timer_ticks m t) OR fst (timer_ticks n (snd (timer_ticks m t))),
      snd (timer_ticks n (snd (timer_ticks m t))))"
  by (induction n) (simp_all add: Let_def split_beta or.assoc)

lemma timer_tick_request: "fst (timer_tick t) = (if reload_phase t = 5 then 4 else 0)"
  by (simp add: timer_tick_def Let_def advance_reload_pipeline_def TIMER_INTERRUPT_def)

lemma timer_ticks_request: "fst (timer_ticks n t) \<in> {0, 4}"
proof (induction n)
  case (Suc n)
  then show ?case by (auto simp: Let_def split_beta timer_tick_request)
qed simp

text \<open>A disabled, settled timer only counts its divider.\<close>

definition timer_quiet :: "dmg_timer_state \<Rightarrow> bool" where
  "timer_quiet t \<longleftrightarrow> tm_control t AND 0x04 = 0 \<and> reload_phase t = 0 \<and> \<not> edge_latch t"

lemma timer_tick_quiet: "timer_quiet t \<Longrightarrow> timer_tick t = (0, t\<lparr>raw_div := raw_div t + 1\<rparr>)"
  by (simp add: timer_quiet_def timer_tick_def Let_def advance_reload_pipeline_def detector_input_def)

lemma timer_ticks_quiet:
  "timer_quiet t \<Longrightarrow> timer_ticks n t = (0, t\<lparr>raw_div := raw_div t + word_of_nat n\<rparr>)"
proof (induction n)
  case (Suc n)
  then have "timer_quiet (t\<lparr>raw_div := raw_div t + word_of_nat n\<rparr>)" by (simp add: timer_quiet_def)
  then show ?case using Suc by (simp add: timer_tick_quiet ac_simps)
qed simp

section \<open>Exact distance to the reload interrupt\<close>

text \<open>The selected divider bit in natural numbers, by the period of its falling edges.\<close>

definition period_bits :: "dmg_timer_state \<Rightarrow> nat" where
  "period_bits t =
     (let sel = tm_control t AND 0x03
      in if sel = 0 then 10 else if sel = 1 then 4 else if sel = 2 then 6 else 8)"

lemma period_bits_bounds: "4 \<le> period_bits t" "period_bits t \<le> 10"
  by (simp_all add: period_bits_def Let_def)

lemma unat_timer_period: "unat (timer_period (tm_control t)) = 2 ^ period_bits t"
  by (simp add: timer_period_def period_bits_def Let_def)

lemma and_push_bit_1: "w AND push_bit k 1 \<noteq> 0 \<longleftrightarrow> bit (w :: 'a::len word) k"
  by (metis and_exp_eq_0_iff_not_bit push_bit_of_1)

lemma detector_bit:
  "tm_control t AND 0x04 \<noteq> 0 \<Longrightarrow> detector_input t \<longleftrightarrow> bit (raw_div t) (period_bits t - 1)"
  by (simp add: detector_input_def period_bits_def Let_def and_push_bit_1 del: push_bit_of_1)

lemma bit_high_half:
  assumes "0 < p"
  shows "bit (w :: 'a::len word) (p - 1) \<longleftrightarrow> 2 ^ (p - 1) \<le> unat w mod 2 ^ p"
proof -
  obtain q where p: "p = Suc q" using assms by (cases p) auto
  have m: "unat w mod 2 ^ Suc q = unat w mod 2 ^ q + 2 ^ q * (unat w div 2 ^ q mod 2)"
    using mod_mult2_eq [of "unat w" "2 ^ q" 2] by (simp add: mult.commute)
  have "unat w mod 2 ^ q < 2 ^ q" by simp
  then have "2 ^ q \<le> unat w mod 2 ^ Suc q \<longleftrightarrow> odd (unat w div 2 ^ q)"
    unfolding m by (cases "even (unat w div 2 ^ q)") (simp_all add: odd_iff_mod_2_eq_one not_le)
  moreover have "bit w q \<longleftrightarrow> bit (unat w) q" by (simp add: bit_unsigned_iff)
  ultimately show ?thesis by (simp add: p bit_iff_odd)
qed

lemma unat_Suc_mod:
  assumes "p \<le> 16"
  shows "unat ((w :: u16) + 1) mod 2 ^ p = Suc (unat w) mod 2 ^ p"
proof -
  have w: "unat (w + 1) = Suc (unat w) mod 2 ^ 16" by (simp add: unat_word_ariths)
  show ?thesis unfolding w by (rule mod_mod_cancel) (rule le_imp_power_dvd [OF assms])
qed

text \<open>The detector falls exactly when the divider's low bits wrap.\<close>

lemma falling_edge:
  fixes w :: u16
  assumes "0 < p" "p \<le> 16"
  shows "bit w (p - 1) \<and> \<not> bit (w + 1) (p - 1) \<longleftrightarrow> unat w mod 2 ^ p = 2 ^ p - 1"
proof -
  have half: "(2 :: nat) ^ p = 2 * 2 ^ (p - 1)" using assms(1) by (cases p) simp_all
  have "unat w mod 2 ^ p < 2 ^ p" by simp
  then show ?thesis unfolding bit_high_half [OF assms(1)] unat_Suc_mod [OF assms(2)]
    using half by (auto simp: mod_Suc)
qed

text \<open>A settled, enabled timer with no reload under way.\<close>

definition timer_armed :: "dmg_timer_state \<Rightarrow> bool" where
  "timer_armed t \<longleftrightarrow>
     tm_control t AND 0x04 \<noteq> 0 \<and> reload_phase t = 0 \<and> edge_latch t = detector_input t"

lemma tick_armed:
  assumes "timer_armed t"
  defines "p \<equiv> period_bits t"
  defines "t' \<equiv> t\<lparr>raw_div := raw_div t + 1, edge_latch := bit (raw_div t + 1) (p - 1)\<rparr>"
  shows "timer_tick t = (0, if unat (raw_div t) mod 2 ^ p = 2 ^ p - 1 then increment_counter t' else t')"
proof -
  have en: "tm_control t AND 0x04 \<noteq> 0" and ph: "reload_phase t = 0"
    and latch: "edge_latch t = bit (raw_div t) (p - 1)"
    using assms(1) by (auto simp: timer_armed_def detector_bit p_def)
  have d: "detector_input (t\<lparr>raw_div := x\<rparr>) = bit x (p - 1)" for x
    using detector_bit [of "t\<lparr>raw_div := x\<rparr>"] en by (simp add: p_def period_bits_def)
  have "0 < p" "p \<le> 16" using period_bits_bounds [of t] by (simp_all add: p_def)
  from falling_edge [OF this, of "raw_div t"] show ?thesis
    using ph latch by (auto simp: timer_tick_def Let_def advance_reload_pipeline_def d t'_def)
qed

text \<open>The armed timer after \<open>k\<close> ticks, as long as the counter has not overflowed.\<close>

lemma ticks_armed:
  assumes "timer_armed t"
  defines "p \<equiv> period_bits t"
  defines "s k \<equiv> unat (raw_div t) mod 2 ^ p + k"
  assumes "unat (tm_counter t) + s k div 2 ^ p < 256"
  shows "fst (timer_ticks k t) = 0 \<and> timer_armed (snd (timer_ticks k t)) \<and>
    tm_control (snd (timer_ticks k t)) = tm_control t \<and>
    unat (raw_div (snd (timer_ticks k t))) mod 2 ^ p = s k mod 2 ^ p \<and>
    unat (tm_counter (snd (timer_ticks k t))) = unat (tm_counter t) + s k div 2 ^ p"
  using assms(4)
proof (induction k)
  case 0
  then show ?case using assms(1) by (simp add: s_def)
next
  case (Suc k)
  have sk: "s (Suc k) = Suc (s k)" by (simp add: s_def)
  have step: "s (Suc k) div 2 ^ p = s k div 2 ^ p + (if s k mod 2 ^ p = 2 ^ p - 1 then 1 else 0)"
    unfolding sk by (auto simp: div_Suc mod_Suc)
  then have "unat (tm_counter t) + s k div 2 ^ p < 256" using Suc.prems by simp
  from Suc.IH [OF this] obtain u where u: "timer_ticks k t = (0, u)" "timer_armed u"
      "tm_control u = tm_control t" "unat (raw_div u) mod 2 ^ p = s k mod 2 ^ p"
      "unat (tm_counter u) = unat (tm_counter t) + s k div 2 ^ p"
    by (metis prod.collapse)
  have pu: "period_bits u = p" using u(3) by (simp add: period_bits_def p_def)
  have p16: "p \<le> 16" using period_bits_bounds [of t] by (simp add: p_def)
  let ?u' = "u\<lparr>raw_div := raw_div u + 1, edge_latch := bit (raw_div u + 1) (p - 1)\<rparr>"
  let ?v = "if s k mod 2 ^ p = 2 ^ p - 1 then increment_counter ?u' else ?u'"
  have tick: "timer_tick u = (0, ?v)" using tick_armed [OF u(2)] by (simp add: pu u(4))
  have noov: "tm_counter u \<noteq> 0xff" if "s k mod 2 ^ p = 2 ^ p - 1"
    using Suc.prems step that u(5) by auto
  have v: "tm_control ?v = tm_control t" "raw_div ?v = raw_div u + 1" "reload_phase ?v = 0"
    "edge_latch ?v = bit (raw_div u + 1) (p - 1)"
    using u noov by (auto simp: increment_counter_def timer_armed_def)
  have "timer_armed ?v"
    unfolding timer_armed_def v using detector_bit [of ?v] v u
    by (auto simp: timer_armed_def period_bits_def p_def)
  moreover have "unat (raw_div ?v) mod 2 ^ p = s (Suc k) mod 2 ^ p"
    unfolding v unat_Suc_mod [OF p16] sk using u(4) by (metis mod_Suc_eq)
  moreover have "unat (tm_counter ?v) = unat (tm_counter t) + s (Suc k) div 2 ^ p"
    using noov u(5) Suc.prems step by (auto simp: increment_counter_def unat_add_cases)
  ultimately show ?case using v(1) u(1) tick by (simp add: Let_def)
qed

text \<open>The overflow tick, and the phases of the reload pipeline behind it.\<close>

lemma ticks_overflow:
  assumes "timer_armed t"
  defines "p \<equiv> period_bits t"
  defines "n \<equiv> (2 ^ p - unat (raw_div t) mod 2 ^ p) + (255 - unat (tm_counter t)) * 2 ^ p"
  shows "k < n \<Longrightarrow> fst (timer_ticks k t) = 0 \<and> reload_phase (snd (timer_ticks k t)) = 0"
    and "fst (timer_ticks n t) = 0"
    and "reload_phase (snd (timer_ticks n t)) = 1" and "tm_counter (snd (timer_ticks n t)) = 0"
proof -
  define c where "c = unat (tm_counter t)"
  define r where "r = unat (raw_div t) mod 2 ^ p"
  have c: "c \<le> 255" using unat_less_256 [of "tm_counter t"] unfolding c_def by linarith
  have r: "r < 2 ^ p" by (simp add: r_def)
  have "n = (2 ^ p - r) + (255 - c) * 2 ^ p" by (simp add: n_def c_def r_def)
  moreover have dc: "256 - c = Suc (255 - c)" using c by simp
  ultimately have n: "r + n = (256 - c) * 2 ^ p" using r by simp
  have below: "c + (r + k) div 2 ^ p < 256" if "k < n" for k
  proof -
    have "r + k < (256 - c) * 2 ^ p" using n that by linarith
    then have "(r + k) div 2 ^ p < 256 - c" by (simp add: less_mult_imp_div_less)
    then show ?thesis using c by linarith
  qed
  have armed: "fst (timer_ticks k t) = 0 \<and> timer_armed (snd (timer_ticks k t)) \<and>
      tm_control (snd (timer_ticks k t)) = tm_control t \<and>
      unat (raw_div (snd (timer_ticks k t))) mod 2 ^ p = (r + k) mod 2 ^ p \<and>
      unat (tm_counter (snd (timer_ticks k t))) = c + (r + k) div 2 ^ p" if "k < n" for k
    using ticks_armed [OF assms(1), of k] below [OF that] by (simp add: c_def r_def p_def)
  then show "k < n \<Longrightarrow> fst (timer_ticks k t) = 0 \<and> reload_phase (snd (timer_ticks k t)) = 0"
    by (simp add: timer_armed_def)
  have "0 < n" using r by (simp add: n_def r_def [symmetric])
  then obtain m where m: "n = Suc m" by (cases n) auto
  obtain q :: nat where q: "2 ^ p = Suc q" by (metis not0_implies_Suc power_not_zero zero_neq_numeral)
  have "r + m = (255 - c) * 2 ^ p + q" using n dc by (simp add: m q)
  moreover have "q < 2 ^ p" by (simp add: q)
  ultimately have dm: "(r + m) div 2 ^ p = 255 - c" "(r + m) mod 2 ^ p = 2 ^ p - 1"
    by (simp_all, simp add: q)
  obtain u where u: "timer_ticks m t = (0, u)" "timer_armed u" "tm_control u = tm_control t"
      "unat (raw_div u) mod 2 ^ p = 2 ^ p - 1" "unat (tm_counter u) = 255"
    using armed [of m] dm m c by (metis lessI prod.collapse le_add_diff_inverse)
  have "period_bits u = p" using u(3) by (simp add: period_bits_def p_def)
  moreover have "tm_counter u = 0xff" using u(5) by (simp add: word_unat_eq_iff)
  ultimately show "fst (timer_ticks n t) = 0"
    "reload_phase (snd (timer_ticks n t)) = 1" "tm_counter (snd (timer_ticks n t)) = 0"
    using tick_armed [OF u(2)] u by (simp_all add: m Let_def increment_counter_def)
qed

lemma pipeline_tick:
  assumes "0 < reload_phase t" "reload_phase t < 5" "unat (tm_counter t) < 255"
  shows "fst (timer_tick t) = 0" "reload_phase (snd (timer_tick t)) = reload_phase t + 1"
    and "unat (tm_counter (snd (timer_tick t))) \<le> Suc (unat (tm_counter t))"
proof -
  have "tm_counter t \<noteq> 0xff" "reload_phase t \<noteq> 5" "reload_phase t \<noteq> 0" using assms by auto
  then show "fst (timer_tick t) = 0" "reload_phase (snd (timer_tick t)) = reload_phase t + 1"
    "unat (tm_counter (snd (timer_tick t))) \<le> Suc (unat (tm_counter t))"
    using assms(3)
    by (simp_all add: timer_tick_def Let_def advance_reload_pipeline_def increment_counter_def
        unat_add_cases)
qed

lemma pipeline_ticks:
  assumes "reload_phase t = 1" "tm_counter t = 0"
  shows "j \<le> 4 \<Longrightarrow> fst (timer_ticks j t) = 0 \<and>
      reload_phase (snd (timer_ticks j t)) = 1 + word_of_nat j \<and>
      unat (tm_counter (snd (timer_ticks j t))) \<le> j"
proof (induction j)
  case (Suc j)
  let ?u = "snd (timer_ticks j t)"
  have IH: "fst (timer_ticks j t) = 0" "reload_phase ?u = 1 + word_of_nat j" "unat (tm_counter ?u) \<le> j"
    using Suc by simp_all
  have "j \<in> {0, 1, 2, 3}" using Suc.prems by auto
  then have "0 < reload_phase ?u" "reload_phase ?u < 5" unfolding IH(2) by auto
  moreover have "unat (tm_counter ?u) < 255" using IH(3) Suc.prems by linarith
  ultimately show ?case
    using pipeline_tick [of ?u] IH by (simp add: Let_def split_beta ac_simps)
qed (simp add: assms)

lemma interrupt_distance:
  assumes "timer_armed t"
  defines "n \<equiv> (2 ^ period_bits t - unat (raw_div t) mod 2 ^ period_bits t)
      + (255 - unat (tm_counter t)) * 2 ^ period_bits t"
  shows "fst (timer_ticks (n + 5) t) = TIMER_INTERRUPT"
    and "k < n + 5 \<Longrightarrow> fst (timer_ticks k t) = 0"
proof -
  let ?u = "snd (timer_ticks n t)"
  note ov = ticks_overflow [OF assms(1), folded n_def]
  note pipe = pipeline_ticks [OF ov(3,4)]
  show "k < n + 5 \<Longrightarrow> fst (timer_ticks k t) = 0"
  proof (cases "k < n")
    case False
    moreover assume "k < n + 5"
    ultimately have "k = n + (k - n)" "k - n \<le> 4" by linarith+
    then obtain j where "k = n + j" "j \<le> 4" by blast
    then show ?thesis using pipe [of j] ov(2) by (simp add: timer_ticks_add)
  qed (use ov(1) in simp)
  have "timer_ticks (n + 5) t = timer_ticks (Suc (n + 4)) t"
    by (rule arg_cong [where f = "\<lambda>k. timer_ticks k t"]) simp
  also have "fst \<dots> = fst (timer_ticks (n + 4) t) OR fst (timer_tick (snd (timer_ticks (n + 4) t)))"
    by (simp only: timer_ticks.simps) (simp add: Let_def split_beta)
  finally show "fst (timer_ticks (n + 5) t) = TIMER_INTERRUPT"
    using pipe [of 4] ov(2) by (simp add: timer_ticks_add timer_tick_request TIMER_INTERRUPT_def)
qed

text \<open>The \<open>u32\<close> arithmetic of the closed form never overflows.\<close>

lemma until_interrupt_unarmed: "\<not> timer_armed t \<Longrightarrow> t_cycles_until_interrupt t = None"
  by (auto simp: t_cycles_until_interrupt_def timer_armed_def)

lemma until_interrupt_armed:
  assumes "timer_armed t"
  shows "\<exists>n. t_cycles_until_interrupt t = Some n \<and>
    unat n = (2 ^ period_bits t - unat (raw_div t) mod 2 ^ period_bits t)
      + (255 - unat (tm_counter t)) * 2 ^ period_bits t + 5"
proof -
  define p where "p = period_bits t"
  let ?P = "timer_period (tm_control t)"
  let ?first = "?P - (ucast (raw_div t) AND (?P - 1))"
  let ?later = "ucast (0xff - tm_counter t) * ?P"
  have p: "p \<le> 10" using period_bits_bounds by (simp add: p_def)
  then have pow: "(2 :: nat) ^ p \<le> 1024" using power_increasing [of p 10 "2 :: nat"] by simp
  have P: "unat ?P = 2 ^ p" using unat_timer_period by (simp add: p_def)
  have "?P - 1 = mask p"
    by (simp add: timer_period_def p_def period_bits_def Let_def mask_eq_exp_minus_1)
  then have r: "unat (ucast (raw_div t) AND (?P - 1)) = unat (raw_div t) mod 2 ^ p"
    by (simp add: unat_and_mask)
  then have "(ucast (raw_div t) AND (?P - 1)) \<le> ?P"
    by (simp add: word_le_nat_alt P less_imp_le)
  then have first: "unat ?first = 2 ^ p - unat (raw_div t) mod 2 ^ p"
    by (simp add: unat_sub_cases r P)
  have c: "unat (0xff - tm_counter t) = 255 - unat (tm_counter t)"
    using unat_less_256 [of "tm_counter t"]
    by (simp add: unat_sub_cases word_le_nat_alt del: unat_less_256)
  have bound: "(255 - unat (tm_counter t)) * 2 ^ p \<le> 255 * 1024"
    by (rule mult_le_mono) (use pow in simp_all)
  then have later: "unat ?later = (255 - unat (tm_counter t)) * 2 ^ p"
    by (simp add: unat_word_ariths c P)
  have "unat ?first \<le> 1024" using first pow by simp
  then have small: "unat ?first + unat ?later + 5 < 2 ^ 32" using later bound by simp
  then have "t_cycles_until_interrupt t = Some (?first + ?later + 5)"
    and "unat (?first + ?later + 5) = unat ?first + unat ?later + 5"
    using assms by (simp_all add: t_cycles_until_interrupt_def timer_armed_def Let_def checked_add_def
        unat_add_cases)
  then show ?thesis using first later by (auto simp: p_def)
qed

lemma until_interrupt_exact:
  assumes "t_cycles_until_interrupt t = Some n"
  shows "timer_armed t" "fst (timer_ticks (unat n) t) = TIMER_INTERRUPT"
    and "k < unat n \<Longrightarrow> fst (timer_ticks k t) = 0"
proof -
  show armed: "timer_armed t" using assms until_interrupt_unarmed by fastforce
  from until_interrupt_armed [OF this] assms
  have n: "unat n = (2 ^ period_bits t - unat (raw_div t) mod 2 ^ period_bits t)
      + (255 - unat (tm_counter t)) * 2 ^ period_bits t + 5" by auto
  show "fst (timer_ticks (unat n) t) = TIMER_INTERRUPT"
    and "k < unat n \<Longrightarrow> fst (timer_ticks k t) = 0"
    unfolding n using interrupt_distance [OF armed] by simp_all
qed

text \<open>What the registers show after a write.\<close>

lemma timer_read_after_write:
  assumes "timer_write a v t = Some (b, t')"
  shows "timer_read t' a =
    Some (if a = 0xff04 then 0 else if a = 0xff05 \<and> reload_phase t = 5 then tm_modulo t
      else if a = 0xff07 then 0xf8 OR (v AND 0x07) else v)"
  using assms
  by (auto simp: timer_write_def timer_read_def write_counter_def write_modulo_def Let_def
      TAC_UNUSED_def split: option.splits if_splits)

end
