(* ===== verification/Apu.thy ===== *)
theory Apu
  imports Mmio_Device
begin

text \<open>
  The APU register file of \<open>crates/zksm83-core/src/dmg/apu.rs\<close>: twenty-three control registers,
  sixteen wave-RAM bytes, the read masks, the power switch and the channel-status bits that the
  DAC and trigger writes maintain.
\<close>

section \<open>State and access\<close>

record dmg_apu_state =
  apu_registers :: "u8 list"
  wave_ram :: "u8 list"

definition REGISTER_START :: u16 where "REGISTER_START = 0xff10"
definition REGISTER_END :: u16 where "REGISTER_END = 0xff26"
definition WAVE_START :: u16 where "WAVE_START = 0xff30"
definition WAVE_END :: u16 where "WAVE_END = 0xff3f"

definition apu_empty :: dmg_apu_state where
  "apu_empty = \<lparr>apu_registers = replicate 23 0, wave_ram = replicate 16 0\<rparr>"

definition apu_dmg_post_boot :: dmg_apu_state where
  "apu_dmg_post_boot =
     \<lparr>apu_registers = [0, 0x80, 0xf3, 0, 0, 0, 0, 0, 0, 0, 0, 0, 0, 0, 0, 0, 0, 0, 0, 0, 0x77, 0xf3, 0x81],
      wave_ram = replicate 16 0\<rparr>"

text \<open>\<open>slice.get(i)\<close> and \<open>*slice.get_mut(i)? = v\<close>.\<close>

definition slice_get :: "'a list \<Rightarrow> nat \<Rightarrow> 'a option" where
  "slice_get xs i = (if i < length xs then Some (xs ! i) else None)"

definition slice_set :: "'a list \<Rightarrow> nat \<Rightarrow> 'a \<Rightarrow> 'a list option" where
  "slice_set xs i v = (if i < length xs then Some (xs[i := v]) else None)"

definition read_mask :: "u16 \<Rightarrow> u8" where
  "read_mask address =
     (if address = 0xff10 then 0x80
      else if address \<in> {0xff11, 0xff16} then 0x3f
      else if address \<in> {0xff13, 0xff15, 0xff18, 0xff1b, 0xff1d, 0xff1f, 0xff20} then 0xff
      else if address \<in> {0xff14, 0xff19, 0xff1e, 0xff23} then 0xbf
      else if address = 0xff1a then 0x7f
      else if address = 0xff1c then 0x9f
      else if address = 0xff26 then 0x70
      else 0)"

definition is_length_register :: "u16 \<Rightarrow> bool" where
  "is_length_register address \<longleftrightarrow> address \<in> {0xff11, 0xff16, 0xff1b, 0xff20}"

definition dac_register_channel :: "u16 \<Rightarrow> u8 option" where
  "dac_register_channel address =
     (if address = 0xff12 then Some 0 else if address = 0xff17 then Some 1
      else if address = 0xff21 then Some 3 else None)"

definition trigger_register_channel :: "u16 \<Rightarrow> u8 option" where
  "trigger_register_channel address =
     (if address = 0xff14 then Some 0 else if address = 0xff19 then Some 1
      else if address = 0xff1e then Some 2 else if address = 0xff23 then Some 3 else None)"

definition register_byte :: "dmg_apu_state \<Rightarrow> u16 \<Rightarrow> u8 option" where
  "register_byte s address =
     Option.bind (checked_sub address REGISTER_START) (\<lambda>offset.
       if address > REGISTER_END then None else slice_get (apu_registers s) (unat offset))"

definition set_register_byte :: "u16 \<Rightarrow> u8 \<Rightarrow> dmg_apu_state \<Rightarrow> dmg_apu_state option" where
  "set_register_byte address v s =
     Option.bind (checked_sub address REGISTER_START) (\<lambda>offset.
       if address > REGISTER_END then None
       else map_option (\<lambda>rs. s\<lparr>apu_registers := rs\<rparr>) (slice_set (apu_registers s) (unat offset) v))"

definition wave_byte :: "dmg_apu_state \<Rightarrow> u16 \<Rightarrow> u8 option" where
  "wave_byte s address =
     Option.bind (checked_sub address WAVE_START) (\<lambda>offset. slice_get (wave_ram s) (unat offset))"

definition set_wave_byte :: "u16 \<Rightarrow> u8 \<Rightarrow> dmg_apu_state \<Rightarrow> dmg_apu_state option" where
  "set_wave_byte address v s =
     Option.bind (checked_sub address WAVE_START) (\<lambda>offset.
       map_option (\<lambda>ws. s\<lparr>wave_ram := ws\<rparr>) (slice_set (wave_ram s) (unat offset) v))"

definition apu_read :: "dmg_apu_state \<Rightarrow> u16 \<Rightarrow> u8 option" where
  "apu_read s address =
     (if 0xff27 \<le> address \<and> address \<le> 0xff2f then Some 0xff
      else if WAVE_START \<le> address \<and> address \<le> WAVE_END then wave_byte s address
      else Option.bind (register_byte s address) (\<lambda>stored. Some (stored OR read_mask address)))"

definition apu_powered :: "dmg_apu_state \<Rightarrow> bool" where
  "apu_powered s = (case register_byte s 0xff26 of None \<Rightarrow> False | Some v \<Rightarrow> v AND 0x80 \<noteq> 0)"

text \<open>The \<open>if let Some(master) = self.registers.get_mut(22)\<close> updates.\<close>

definition update_master :: "(u8 \<Rightarrow> u8) \<Rightarrow> dmg_apu_state \<Rightarrow> dmg_apu_state" where
  "update_master f s =
     (case slice_get (apu_registers s) 22 of
        Some master \<Rightarrow> s\<lparr>apu_registers := (apu_registers s)[22 := f master]\<rparr>
      | None \<Rightarrow> s)"

definition write_power :: "u8 \<Rightarrow> dmg_apu_state \<Rightarrow> dmg_apu_state" where
  "write_power v s =
     (if v AND 0x80 = 0 then s\<lparr>apu_registers := map (\<lambda>_. 0) (apu_registers s)\<rparr>
      else update_master (\<lambda>master. master OR 0x80) s)"

definition set_channel_active :: "u8 \<Rightarrow> bool \<Rightarrow> dmg_apu_state \<Rightarrow> dmg_apu_state" where
  "set_channel_active channel active s =
     (let m = push_bit (unat channel) (1 :: u8)
      in update_master (\<lambda>master. if active then master OR m else master AND NOT m) s)"

definition channel_dac_enabled :: "dmg_apu_state \<Rightarrow> u8 \<Rightarrow> bool" where
  "channel_dac_enabled s channel =
     (let address = (if channel = 0 then 0xff12 else if channel = 1 then 0xff17
                     else if channel = 2 then 0xff1a else 0xff21)
      in case register_byte s address of
           None \<Rightarrow> False
         | Some v \<Rightarrow> if channel = 2 then v AND 0x80 \<noteq> 0 else v AND 0xf8 \<noteq> 0)"

definition apply_dac_and_trigger :: "u16 \<Rightarrow> u8 \<Rightarrow> dmg_apu_state \<Rightarrow> dmg_apu_state" where
  "apply_dac_and_trigger address v s =
     (let s1 = (case dac_register_channel address of
                  Some channel \<Rightarrow> if v AND 0xf8 = 0 then set_channel_active channel False s else s
                | None \<Rightarrow> s);
          s2 = (if address = 0xff1a \<and> v AND 0x80 = 0 then set_channel_active 2 False s1 else s1)
      in case trigger_register_channel address of
           Some channel \<Rightarrow>
             if v AND 0x80 \<noteq> 0 \<and> channel_dac_enabled s2 channel
             then set_channel_active channel True s2 else s2
         | None \<Rightarrow> s2)"

definition apu_write :: "u16 \<Rightarrow> u8 \<Rightarrow> dmg_apu_state \<Rightarrow> (u8 \<times> dmg_apu_state) option" where
  "apu_write address v s =
     Option.bind (apu_read s address) (\<lambda>before.
       if 0xff27 \<le> address \<and> address \<le> 0xff2f then Some (before, s)
       else if WAVE_START \<le> address \<and> address \<le> WAVE_END then
         Option.bind (set_wave_byte address v s) (\<lambda>s'. Some (before, s'))
       else if address = 0xff26 then Some (before, write_power v s)
       else if \<not> apu_powered s \<and> \<not> is_length_register address then Some (before, s)
       else
         (let stored = v AND NOT (read_mask address)
          in Option.bind (set_register_byte address stored s) (\<lambda>s'.
               Some (before, apply_dac_and_trigger address v s'))))"

text \<open>\<open>pack_eight\<close>: a slice of at most eight bytes, zero-extended, little-endian.\<close>

definition pack_eight :: "u8 list \<Rightarrow> u64" where
  "pack_eight bytes = from_le_bytes (take 8 (bytes @ replicate 8 0))"

definition control_low_pack :: "dmg_apu_state \<Rightarrow> u64" where
  "control_low_pack s = pack_eight (take 8 (apu_registers s))"

definition control_high_pack :: "dmg_apu_state \<Rightarrow> u64" where
  "control_high_pack s = pack_eight (take 8 (drop 8 (apu_registers s)))"

definition mixer_pack :: "dmg_apu_state \<Rightarrow> u64" where
  "mixer_pack s = pack_eight (take 7 (drop 16 (apu_registers s)))"

definition wave_low_pack :: "dmg_apu_state \<Rightarrow> u64" where
  "wave_low_pack s = pack_eight (take 8 (wave_ram s))"

definition wave_high_pack :: "dmg_apu_state \<Rightarrow> u64" where
  "wave_high_pack s = pack_eight (take 8 (drop 8 (wave_ram s)))"

section \<open>Invariant\<close>

text \<open>The fixed array sizes of the struct.\<close>

definition apu_wf :: "dmg_apu_state \<Rightarrow> bool" where
  "apu_wf s \<longleftrightarrow> length (apu_registers s) = 23 \<and> length (wave_ram s) = 16"

lemma apu_initial_wf [simp]: "apu_wf apu_empty" "apu_wf apu_dmg_post_boot"
  by (simp_all add: apu_wf_def apu_empty_def apu_dmg_post_boot_def)

lemma update_master_wf [simp]: "apu_wf (update_master f s) = apu_wf s"
  by (simp add: update_master_def apu_wf_def split: option.split)

lemma apply_dac_wf [simp]: "apu_wf (apply_dac_and_trigger a v s) = apu_wf s"
  by (simp add: apply_dac_and_trigger_def set_channel_active_def Let_def split: option.split)

lemma write_power_wf [simp]: "apu_wf s \<Longrightarrow> apu_wf (write_power v s)"
  by (simp add: write_power_def) (simp add: apu_wf_def)

lemma apu_write_wf: "apu_wf s \<Longrightarrow> apu_write a v s = Some (b, s') \<Longrightarrow> apu_wf s'"
  by (auto simp: apu_write_def set_wave_byte_def set_register_byte_def slice_set_def Let_def
      split: bind_splits if_splits)
     (auto simp: apu_wf_def)

definition apu_mapped :: "u16 \<Rightarrow> bool" where
  "apu_mapped a \<longleftrightarrow> 0xff10 \<le> a \<and> a \<le> 0xff3f"

lemma register_byte_Some:
  assumes "apu_wf s" "0xff10 \<le> a" "a \<le> 0xff26"
  shows "register_byte s a = Some (apu_registers s ! (unat a - 0xff10))"
    and "set_register_byte a v s = Some (s\<lparr>apu_registers := (apu_registers s)[unat a - 0xff10 := v]\<rparr>)"
  using assms
  by (auto simp: register_byte_def set_register_byte_def checked_sub_def REGISTER_START_def
      REGISTER_END_def slice_get_def slice_set_def apu_wf_def unat_sub_cases word_le_nat_alt
      word_less_nat_alt)

lemma wave_byte_Some:
  assumes "apu_wf s" "0xff30 \<le> a" "a \<le> 0xff3f"
  shows "wave_byte s a = Some (wave_ram s ! (unat a - 0xff30))"
    and "set_wave_byte a v s = Some (s\<lparr>wave_ram := (wave_ram s)[unat a - 0xff30 := v]\<rparr>)"
  using assms
  by (auto simp: wave_byte_def set_wave_byte_def checked_sub_def WAVE_START_def slice_get_def
      slice_set_def apu_wf_def unat_sub_cases word_le_nat_alt)

lemma apu_read_unmapped: "\<not> apu_mapped a \<Longrightarrow> apu_read s a = None"
  by (auto simp: apu_read_def apu_mapped_def register_byte_def wave_byte_def checked_sub_def
      REGISTER_START_def REGISTER_END_def WAVE_START_def WAVE_END_def word_le_nat_alt
      word_less_nat_alt)

lemma apu_address_cases:
  assumes "apu_mapped a"
  obtains (register) "0xff10 \<le> a" "a \<le> 0xff26" "\<not> (0xff27 \<le> a \<and> a \<le> 0xff2f)"
      "\<not> (0xff30 \<le> a \<and> a \<le> 0xff3f)"
  | (unused) "0xff27 \<le> a" "a \<le> 0xff2f"
  | (wave) "0xff30 \<le> a" "a \<le> 0xff3f" "\<not> (0xff27 \<le> a \<and> a \<le> 0xff2f)"
proof -
  have "0xff10 \<le> unat a" "unat a \<le> 0xff3f" using assms by (simp_all add: apu_mapped_def word_le_nat_alt)
  then show thesis using that unfolding word_le_nat_alt by (simp; linarith)
qed

lemma apu_read_mapped:
  assumes "apu_wf s" "apu_mapped a" shows "\<exists>b. apu_read s a = Some b"
  using assms(2)
proof (cases rule: apu_address_cases)
  case register
  then show ?thesis using register_byte_Some [OF assms(1) register(1,2)]
    by (auto simp: apu_read_def WAVE_START_def WAVE_END_def)
qed (simp_all add: apu_read_def WAVE_START_def WAVE_END_def wave_byte_Some [OF assms(1)])

lemma apu_write_mapped:
  assumes "apu_wf s" "apu_mapped a"
  shows "\<exists>s'. apu_write a v s = Some (the (apu_read s a), s')"
proof -
  obtain b where b: "apu_read s a = Some b" using apu_read_mapped [OF assms] by blast
  from assms(2) show ?thesis
    by (cases rule: apu_address_cases)
       (simp_all add: apu_write_def b WAVE_START_def WAVE_END_def wave_byte_Some [OF assms(1)]
         register_byte_Some [OF assms(1)] Let_def)
qed

interpretation apu: mmio_device apu_read apu_write apu_mapped apu_wf
proof
  show "apu_wf s \<Longrightarrow> apu_read s a = None \<longleftrightarrow> \<not> apu_mapped a" for s a
    using apu_read_unmapped apu_read_mapped by fastforce
  show "apu_wf s \<Longrightarrow> \<not> apu_mapped a \<Longrightarrow> apu_write a v s = None" for s a v
    by (simp add: apu_write_def apu_read_unmapped)
qed (rule apu_write_mapped apu_write_wf; assumption)+

text \<open>Powering off clears every control register and keeps wave RAM.\<close>

lemma apu_power_off:
  assumes "apu_wf s" "v AND 0x80 = 0" "apu_write 0xff26 v s = Some (b, s')"
  shows "apu_registers s' = replicate 23 0" "wave_ram s' = wave_ram s" "\<not> apu_powered s'"
proof -
  have "s' = s\<lparr>apu_registers := map (\<lambda>_. 0) (apu_registers s)\<rparr>"
    using assms by (auto simp: apu_write_def WAVE_START_def WAVE_END_def write_power_def
        split: bind_splits)
  moreover have "length (apu_registers s) = 23" using assms(1) by (simp add: apu_wf_def)
  ultimately show *: "apu_registers s' = replicate 23 0" "wave_ram s' = wave_ram s"
    by (simp_all add: map_replicate_const)
  then have "apu_wf s'" using assms(1) by (simp add: apu_wf_def)
  then show "\<not> apu_powered s'" using *(1) register_byte_Some(1) [of s' "0xff26"]
    by (simp add: apu_powered_def)
qed

text \<open>While powered off, only length registers, the power switch and wave RAM accept writes.\<close>

lemma apu_off_ignores:
  assumes "apu_wf s" "\<not> apu_powered s" "0xff10 \<le> a" "a < 0xff26" "\<not> is_length_register a"
  shows "\<exists>b. apu_write a v s = Some (b, s)"
proof -
  have m: "apu_mapped a" and a: "\<not> (0xff27 \<le> a \<and> a \<le> 0xff2f)" "\<not> (0xff30 \<le> a \<and> a \<le> 0xff3f)" "a \<noteq> 0xff26"
    using assms(3,4) by (auto simp: apu_mapped_def word_le_nat_alt word_less_nat_alt)
  obtain b where "apu_read s a = Some b" using apu_read_mapped [OF assms(1) m] by blast
  then show ?thesis using assms a by (auto simp: apu_write_def WAVE_START_def WAVE_END_def)
qed

end
