(* ===== verification/Dmg.thy ===== *)
theory Dmg
  imports Timer Apu
begin

text \<open>
  The DMG device state of \<open>crates/zksm83-core/src/dmg.rs\<close>: interrupt lines, serial port, timer,
  APU, LCD registers with the PPU dot counter, joypad and OAM DMA; the MMIO register map, the
  M-cycle clock, the closed-form HALT skips and the DMA scheduler. The lemmas prove the device
  invariant, that clocking composes, and that every HALT skip stops at exactly the first
  enabled interrupt.
\<close>

section \<open>Interrupt sources\<close>

datatype dmg_interrupt = Int_VBlank | Int_LcdStat | Int_Timer | Int_Serial | Int_Joypad

fun interrupt_bit :: "dmg_interrupt \<Rightarrow> nat" where
  "interrupt_bit Int_VBlank = 0"
| "interrupt_bit Int_LcdStat = 1"
| "interrupt_bit Int_Timer = 2"
| "interrupt_bit Int_Serial = 3"
| "interrupt_bit Int_Joypad = 4"

fun interrupt_vector :: "dmg_interrupt \<Rightarrow> u16" where
  "interrupt_vector Int_VBlank = 0x40"
| "interrupt_vector Int_LcdStat = 0x48"
| "interrupt_vector Int_Timer = 0x50"
| "interrupt_vector Int_Serial = 0x58"
| "interrupt_vector Int_Joypad = 0x60"

section \<open>Device state\<close>

record dmg_device_state =
  interrupt_request :: u8
  interrupt_enable :: u8
  serial_data :: u8
  serial_control :: u8
  serial_cycles_remaining :: u16
  dev_timer :: dmg_timer_state
  dev_apu :: dmg_apu_state
  lcd_control :: u8
  lcd_status_control :: u8
  scroll_y :: u8
  scroll_x :: u8
  background_palette :: u8
  object_palette_zero :: u8
  object_palette_one :: u8
  window_y :: u8
  window_x :: u8
  line_compare :: u8
  ppu_line :: u8
  ppu_dot :: u16
  joypad_select :: u8
  joypad_buttons :: u8
  dma_source_high :: u8
  dma_index :: u8
  dma_active :: bool
  dma_owed :: u8

definition INTERRUPT_MASK :: u8 where "INTERRUPT_MASK = 0x1f"

definition dmg_empty :: dmg_device_state where
  "dmg_empty =
     \<lparr>interrupt_request = 0, interrupt_enable = 0, serial_data = 0, serial_control = 0,
      serial_cycles_remaining = 0, dev_timer = timer_empty, dev_apu = apu_empty, lcd_control = 0,
      lcd_status_control = 0, scroll_y = 0, scroll_x = 0, background_palette = 0,
      object_palette_zero = 0, object_palette_one = 0, window_y = 0, window_x = 0,
      line_compare = 0, ppu_line = 0, ppu_dot = 0, joypad_select = 0, joypad_buttons = 0,
      dma_source_high = 0, dma_index = 0, dma_active = False, dma_owed = 0\<rparr>"

definition dmg_post_boot :: dmg_device_state where
  "dmg_post_boot =
     \<lparr>interrupt_request = 0x01, interrupt_enable = 0x00, serial_data = 0x00, serial_control = 0x7e,
      serial_cycles_remaining = 0, dev_timer = timer_dmg_post_boot, dev_apu = apu_dmg_post_boot,
      lcd_control = 0x91, lcd_status_control = 0x00, scroll_y = 0x00, scroll_x = 0x00,
      background_palette = 0xfc, object_palette_zero = 0xff, object_palette_one = 0xff,
      window_y = 0x00, window_x = 0x00, line_compare = 0x00, ppu_line = 0, ppu_dot = 0,
      joypad_select = 0, joypad_buttons = 0, dma_source_high = 0, dma_index = 0,
      dma_active = False, dma_owed = 0\<rparr>"

definition pending_interrupt :: "dmg_device_state \<Rightarrow> dmg_interrupt option" where
  "pending_interrupt s =
     (let pending = interrupt_request s AND interrupt_enable s
      in if pending AND 0x01 \<noteq> 0 then Some Int_VBlank
         else if pending AND 0x02 \<noteq> 0 then Some Int_LcdStat
         else if pending AND 0x04 \<noteq> 0 then Some Int_Timer
         else if pending AND 0x08 \<noteq> 0 then Some Int_Serial
         else if pending AND 0x10 \<noteq> 0 then Some Int_Joypad
         else None)"

definition acknowledge_interrupt :: "dmg_interrupt \<Rightarrow> dmg_device_state \<Rightarrow> dmg_device_state" where
  "acknowledge_interrupt i s =
     s\<lparr>interrupt_request := interrupt_request s AND NOT (push_bit (interrupt_bit i) 1)\<rparr>"

definition joypad_pack :: "dmg_device_state \<Rightarrow> u16" where
  "joypad_pack s = u16_from_le (joypad_select s) (joypad_buttons s)"

definition dma_pack :: "dmg_device_state \<Rightarrow> u32" where
  "dma_pack s =
     from_le_bytes [dma_source_high s, dma_index s, if dma_active s then 1 else 0, dma_owed s]"

definition dma_source_address :: "dmg_device_state \<Rightarrow> u16" where
  "dma_source_address s = push_bit 8 (ucast (dma_source_high s)) OR ucast (dma_index s)"

definition dma_destination_address :: "dmg_device_state \<Rightarrow> u16" where
  "dma_destination_address s = 0xfe00 OR ucast (dma_index s)"

section \<open>OAM DMA\<close>

definition schedule_dma_bytes :: "u8 \<Rightarrow> bool \<Rightarrow> dmg_device_state \<Rightarrow> dmg_device_state" where
  "schedule_dma_bytes m_cycles active_at_start s =
     (if \<not> active_at_start then s\<lparr>dma_owed := 0\<rparr>
      else
        (let remaining = saturating_sub 160 (dma_index s)
         in s\<lparr>dma_owed := min m_cycles remaining\<rparr>))"

definition complete_dma_byte :: "dmg_device_state \<Rightarrow> dmg_device_state" where
  "complete_dma_byte s =
     (let s1 = s\<lparr>dma_owed := saturating_sub (dma_owed s) 1\<rparr>
      in if dma_index s1 = 159 then s1\<lparr>dma_index := 160, dma_active := False\<rparr>
         else s1\<lparr>dma_index := saturating_add (dma_index s1) 1\<rparr>)"

section \<open>Joypad and LCD signals\<close>

definition visible_joypad :: "dmg_device_state \<Rightarrow> u8" where
  "visible_joypad s =
     (let low = 0x0f;
          low = (if joypad_select s AND 0x10 = 0 then low AND NOT (joypad_buttons s AND 0x0f) else low);
          low = (if joypad_select s AND 0x20 = 0
                 then low AND NOT (drop_bit 4 (joypad_buttons s) AND 0x0f) else low)
      in 0xc0 OR joypad_select s OR low)"

definition request_joypad_falling_edge :: "u8 \<Rightarrow> u8 \<Rightarrow> dmg_device_state \<Rightarrow> dmg_device_state" where
  "request_joypad_falling_edge before after s =
     (if (before AND NOT after) AND 0x0f \<noteq> 0
      then s\<lparr>interrupt_request := interrupt_request s OR 0x10\<rparr> else s)"

definition sample_joypad :: "u8 \<Rightarrow> dmg_device_state \<Rightarrow> u8 \<times> dmg_device_state" where
  "sample_joypad buttons s =
     (let before = visible_joypad s;
          s1 = s\<lparr>joypad_buttons := buttons\<rparr>;
          after = visible_joypad s1
      in (after, request_joypad_falling_edge before after s1))"

definition lcd_enabled :: "dmg_device_state \<Rightarrow> bool" where
  "lcd_enabled s \<longleftrightarrow> lcd_control s AND 0x80 \<noteq> 0"

definition ppu_mode :: "dmg_device_state \<Rightarrow> u8" where
  "ppu_mode s =
     (if \<not> lcd_enabled s then 0
      else if ppu_line s \<ge> 144 then 1
      else if ppu_dot s < 80 then 2
      else if ppu_dot s < 252 then 3
      else 0)"

definition visible_lcd_status :: "dmg_device_state \<Rightarrow> u8" where
  "visible_lcd_status s =
     0x80 OR lcd_status_control s OR (if ppu_line s = line_compare s then 0x04 else 0) OR ppu_mode s"

definition stat_signal :: "dmg_device_state \<Rightarrow> bool" where
  "stat_signal s \<longleftrightarrow>
     lcd_enabled s \<and>
     ((lcd_status_control s AND 0x08 \<noteq> 0 \<and> ppu_mode s = 0) \<or>
      (lcd_status_control s AND 0x10 \<noteq> 0 \<and> ppu_mode s = 1) \<or>
      (lcd_status_control s AND 0x20 \<noteq> 0 \<and> ppu_mode s = 2) \<or>
      (lcd_status_control s AND 0x40 \<noteq> 0 \<and> ppu_line s = line_compare s))"

definition request_stat_rising_edge :: "bool \<Rightarrow> dmg_device_state \<Rightarrow> dmg_device_state" where
  "request_stat_rising_edge before s =
     (if \<not> before \<and> stat_signal s
      then s\<lparr>interrupt_request := interrupt_request s OR 0x02\<rparr> else s)"

definition cpu_vram_blocked :: "dmg_device_state \<Rightarrow> bool" where
  "cpu_vram_blocked s \<longleftrightarrow> lcd_enabled s \<and> ppu_mode s = 3"

definition cpu_oam_blocked :: "dmg_device_state \<Rightarrow> bool" where
  "cpu_oam_blocked s \<longleftrightarrow> lcd_enabled s \<and> (ppu_mode s = 2 \<or> ppu_mode s = 3)"

section \<open>Register map\<close>

definition read_mmio :: "dmg_device_state \<Rightarrow> u16 \<Rightarrow> u8 option" where
  "read_mmio s address =
     (if address = 0xff00 then Some (visible_joypad s)
      else if address = 0xff01 then Some (serial_data s)
      else if address = 0xff02 then Some (serial_control s)
      else if 0xff04 \<le> address \<and> address \<le> 0xff07 then timer_read (dev_timer s) address
      else if address = 0xff0f then Some (0xe0 OR interrupt_request s)
      else if 0xff10 \<le> address \<and> address \<le> 0xff3f then apu_read (dev_apu s) address
      else if address = 0xff40 then Some (lcd_control s)
      else if address = 0xff41 then Some (visible_lcd_status s)
      else if address = 0xff42 then Some (scroll_y s)
      else if address = 0xff43 then Some (scroll_x s)
      else if address = 0xff44 then Some (ppu_line s)
      else if address = 0xff45 then Some (line_compare s)
      else if address = 0xff46 then Some (dma_source_high s)
      else if address = 0xff47 then Some (background_palette s)
      else if address = 0xff48 then Some (object_palette_zero s)
      else if address = 0xff49 then Some (object_palette_one s)
      else if address = 0xff4a then Some (window_y s)
      else if address = 0xff4b then Some (window_x s)
      else if address = 0xffff then Some (interrupt_enable s)
      else None)"

text \<open>The \<open>match\<close> of \<open>write_mmio\<close>; \<open>before\<close> is the byte visible before the write.\<close>

definition write_mmio_register :: "u16 \<Rightarrow> u8 \<Rightarrow> u8 \<Rightarrow> dmg_device_state \<Rightarrow> dmg_device_state option" where
  "write_mmio_register address v before s =
     (if address = 0xff00 then
        (let s1 = s\<lparr>joypad_select := v AND 0x30\<rparr>
         in Some (request_joypad_falling_edge before (visible_joypad s1) s1))
      else if address = 0xff01 then Some (s\<lparr>serial_data := v\<rparr>)
      else if address = 0xff02 then
        Some (s\<lparr>serial_control := v,
                serial_cycles_remaining := (if v AND 0x81 = 0x81 then 4096 else 0)\<rparr>)
      else if address = 0xff0f then Some (s\<lparr>interrupt_request := v AND INTERRUPT_MASK\<rparr>)
      else if address = 0xff40 then
        (let s1 = s\<lparr>lcd_control := v\<rparr>
         in Some (if \<not> lcd_enabled s1 then s1\<lparr>ppu_line := 0, ppu_dot := 0\<rparr> else s1))
      else if address = 0xff41 then Some (s\<lparr>lcd_status_control := v AND 0x78\<rparr>)
      else if address = 0xff42 then Some (s\<lparr>scroll_y := v\<rparr>)
      else if address = 0xff43 then Some (s\<lparr>scroll_x := v\<rparr>)
      else if address = 0xff44 then Some s
      else if address = 0xff45 then Some (s\<lparr>line_compare := v\<rparr>)
      else if address = 0xff46 then
        Some (s\<lparr>dma_source_high := v, dma_index := 0, dma_active := True, dma_owed := 0\<rparr>)
      else if address = 0xff47 then Some (s\<lparr>background_palette := v\<rparr>)
      else if address = 0xff48 then Some (s\<lparr>object_palette_zero := v\<rparr>)
      else if address = 0xff49 then Some (s\<lparr>object_palette_one := v\<rparr>)
      else if address = 0xff4a then Some (s\<lparr>window_y := v\<rparr>)
      else if address = 0xff4b then Some (s\<lparr>window_x := v\<rparr>)
      else if address = 0xffff then Some (s\<lparr>interrupt_enable := v AND INTERRUPT_MASK\<rparr>)
      else None)"

definition write_mmio :: "u16 \<Rightarrow> u8 \<Rightarrow> dmg_device_state \<Rightarrow> (u8 \<times> dmg_device_state) option" where
  "write_mmio address v s =
     Option.bind (read_mmio s address) (\<lambda>before.
       let stat_before = stat_signal s
       in if 0xff04 \<le> address \<and> address \<le> 0xff07 then
            map_option (\<lambda>(b, t). (b, s\<lparr>dev_timer := t\<rparr>)) (timer_write address v (dev_timer s))
          else if 0xff10 \<le> address \<and> address \<le> 0xff3f then
            map_option (\<lambda>(b, a). (b, s\<lparr>dev_apu := a\<rparr>)) (apu_write address v (dev_apu s))
          else
            Option.bind (write_mmio_register address v before s) (\<lambda>s1.
              Some (before,
                if address \<in> {0xff40, 0xff41, 0xff45} then request_stat_rising_edge stat_before s1
                else s1)))"

definition low_register_pack :: "dmg_device_state \<Rightarrow> u64" where
  "low_register_pack s =
     from_le_bytes [serial_data s, serial_control s, tm_modulo (dev_timer s),
       tm_control (dev_timer s), lcd_control s, lcd_status_control s, scroll_y s, scroll_x s]"

definition high_register_pack :: "dmg_device_state \<Rightarrow> u64" where
  "high_register_pack s =
     from_le_bytes [background_palette s, object_palette_zero s, object_palette_one s, window_y s,
       window_x s, line_compare s, u16_low (serial_cycles_remaining s),
       u16_high (serial_cycles_remaining s)]"

section \<open>The clock\<close>

definition advance_serial_t_cycles :: "u8 \<Rightarrow> dmg_device_state \<Rightarrow> dmg_device_state" where
  "advance_serial_t_cycles t_cycles s =
     (if serial_cycles_remaining s = 0 then s
      else
        (let s1 = s\<lparr>serial_cycles_remaining :=
                saturating_sub (serial_cycles_remaining s) (ucast t_cycles)\<rparr>
         in if serial_cycles_remaining s1 = 0 then
              s1\<lparr>serial_control := serial_control s1 AND 0x7f, serial_data := 0xff,
                 interrupt_request := interrupt_request s1 OR 0x08\<rparr>
            else s1))"

definition advance_ppu_t_cycle :: "dmg_device_state \<Rightarrow> dmg_device_state" where
  "advance_ppu_t_cycle s =
     (if \<not> lcd_enabled s then s\<lparr>ppu_line := 0, ppu_dot := 0\<rparr>
      else
        (let stat_before = stat_signal s;
             s1 = s\<lparr>ppu_dot := ppu_dot s + 1\<rparr>;
             s2 = (if ppu_dot s1 = 456 then
                     (let s3 = s1\<lparr>ppu_dot := 0,
                            ppu_line := (if ppu_line s1 = 153 then 0 else ppu_line s1 + 1)\<rparr>
                      in if ppu_line s3 = 144
                         then s3\<lparr>interrupt_request := interrupt_request s3 OR 0x01\<rparr> else s3)
                   else s1)
         in request_stat_rising_edge stat_before s2))"

definition advance_m_cycles :: "u8 \<Rightarrow> dmg_device_state \<Rightarrow> dmg_device_state" where
  "advance_m_cycles m_cycles s =
     (let t_cycles = saturating_mul m_cycles 4;
          (requested, timer') = advance_t_cycles t_cycles (dev_timer s);
          s1 = s\<lparr>dev_timer := timer', interrupt_request := interrupt_request s OR requested\<rparr>;
          s2 = advance_serial_t_cycles t_cycles s1
      in (advance_ppu_t_cycle ^^ unat t_cycles) s2)"

section \<open>HALT skips\<close>

text \<open>The projection loop over \<open>elapsed in 1..=6\<close>.\<close>

fun halt_idle_loop :: "u8 list \<Rightarrow> dmg_device_state \<Rightarrow> u8" where
  "halt_idle_loop [] projected = 6"
| "halt_idle_loop (elapsed # rest) projected =
     (let projected' = advance_m_cycles 1 projected
      in if pending_interrupt projected' \<noteq> None then elapsed else halt_idle_loop rest projected')"

definition halt_idle_m_cycles :: "dmg_device_state \<Rightarrow> u8" where
  "halt_idle_m_cycles s = halt_idle_loop [1, 2, 3, 4, 5, 6] s"

definition try_u16 :: "u32 \<Rightarrow> u16 option" where
  "try_u16 w = (if w < 0x10000 then Some (ucast w) else None)"

definition halt_until_vblank_m_cycles :: "dmg_device_state \<Rightarrow> u16 option" where
  "halt_until_vblank_m_cycles s =
     (if pending_interrupt s \<noteq> None \<or> \<not> lcd_enabled s \<or> interrupt_enable s AND 0x01 = 0
         \<or> interrupt_enable s AND 0x10 \<noteq> 0 \<or> lcd_status_control s \<noteq> 0
         \<or> tm_control (dev_timer s) AND 0x04 \<noteq> 0 \<or> reload_phase (dev_timer s) \<noteq> 0
         \<or> edge_latch (dev_timer s) \<or> serial_cycles_remaining s \<noteq> 0
         \<or> serial_control s AND 0x80 \<noteq> 0 \<or> dma_active s \<or> dma_owed s \<noteq> 0
      then None
      else
        (let line_t_cycles = 456 :: u32;
             frame_t_cycles = 154 * line_t_cycles;
             vblank_t_cycle = 144 * line_t_cycles;
             position = ucast (ppu_line s) * line_t_cycles + ucast (ppu_dot s);
             remaining = (if position < vblank_t_cycle then vblank_t_cycle - position
                          else frame_t_cycles - position + vblank_t_cycle)
         in if remaining = 0 \<or> remaining mod 4 \<noteq> 0 then None else try_u16 (remaining div 4)))"

definition halt_until_serial_m_cycles :: "dmg_device_state \<Rightarrow> u16 option" where
  "halt_until_serial_m_cycles s =
     (if pending_interrupt s \<noteq> None \<or> interrupt_enable s AND 0x08 = 0 \<or> lcd_enabled s
         \<or> tm_control (dev_timer s) AND 0x04 \<noteq> 0 \<or> reload_phase (dev_timer s) \<noteq> 0
         \<or> edge_latch (dev_timer s) \<or> serial_control s AND 0x81 \<noteq> 0x81
         \<or> serial_cycles_remaining s = 0 \<or> serial_cycles_remaining s > 4096
         \<or> serial_cycles_remaining s mod 4 \<noteq> 0 \<or> dma_active s \<or> dma_owed s \<noteq> 0
      then None
      else Some (serial_cycles_remaining s div 4))"

definition halt_until_timer_m_cycles :: "dmg_device_state \<Rightarrow> u32 option" where
  "halt_until_timer_m_cycles s =
     (if pending_interrupt s \<noteq> None \<or> interrupt_enable s AND 0x04 = 0 \<or> lcd_enabled s
         \<or> serial_cycles_remaining s \<noteq> 0 \<or> serial_control s AND 0x80 \<noteq> 0
         \<or> dma_active s \<or> dma_owed s \<noteq> 0
      then None
      else
        Option.bind (t_cycles_until_interrupt (dev_timer s)) (\<lambda>t_cycles.
          map_option (\<lambda>rounded. rounded div 4) (checked_add t_cycles 3)))"

text \<open>\<open>u8::try_from(m_cycles.min(63)).unwrap_or(63)\<close>.\<close>

definition quiet_chunk :: "u32 \<Rightarrow> u8" where
  "quiet_chunk m_cycles = (let m = min m_cycles 63 in if m < 256 then ucast m else 63)"

lemma unat_quiet_chunk: "unat (quiet_chunk m) = min (unat m) 63"
proof -
  have "min m 63 < 256" by (simp add: min_def word_le_nat_alt word_less_nat_alt)
  moreover have "unat (ucast (min m 63) :: u8) = unat (min m 63)"
    using calculation by (simp add: unsigned_ucast_eq word_less_nat_alt take_bit_eq_mod)
  moreover have "unat (min m 63) = min (unat m) 63" by (simp add: min_def word_le_nat_alt)
  ultimately show ?thesis by (simp add: quiet_chunk_def Let_def)
qed

function advance_quiet_long :: "u32 \<Rightarrow> dmg_device_state \<Rightarrow> dmg_device_state" where
  "advance_quiet_long m_cycles s =
     (if m_cycles = 0 then s
      else
        (let chunk = quiet_chunk m_cycles
         in advance_quiet_long (m_cycles - ucast chunk) (advance_m_cycles chunk s)))"
  by auto

lemma unat_quiet_rest: "unat (m - ucast (quiet_chunk m) :: u32) = unat m - min (unat m) 63"
  by (simp add: unat_sub_cases word_le_nat_alt unat_quiet_chunk)

termination advance_quiet_long
  by (relation "measure (\<lambda>(m, _). unat m)") (auto simp: unat_quiet_rest unat_gt_0)

declare advance_quiet_long.simps [simp del]

definition advance_halt_until_vblank :: "u16 \<Rightarrow> dmg_device_state \<Rightarrow> dmg_device_state" where
  "advance_halt_until_vblank m_cycles s = advance_quiet_long (ucast m_cycles) s"

definition advance_halt_until_serial :: "u16 \<Rightarrow> dmg_device_state \<Rightarrow> dmg_device_state" where
  "advance_halt_until_serial m_cycles s = advance_quiet_long (ucast m_cycles) s"

definition advance_halt_until_timer :: "u32 \<Rightarrow> dmg_device_state \<Rightarrow> dmg_device_state" where
  "advance_halt_until_timer m_cycles s = advance_quiet_long m_cycles s"

section \<open>Interrupt lines\<close>

text \<open>The five interrupt bits are independent; priority goes to the lowest bit.\<close>

lemma word_and_bit_5:
  "(x :: u8) AND 0x01 \<noteq> 0 \<longleftrightarrow> bit x 0" "x AND 0x02 \<noteq> 0 \<longleftrightarrow> bit x 1" "x AND 0x04 \<noteq> 0 \<longleftrightarrow> bit x 2"
  "x AND 0x08 \<noteq> 0 \<longleftrightarrow> bit x 3" "x AND 0x10 \<noteq> 0 \<longleftrightarrow> bit x 4"
  using and_push_bit_1 [of x 0] and_push_bit_1 [of x 1] and_push_bit_1 [of x 2]
    and_push_bit_1 [of x 3] and_push_bit_1 [of x 4]
  by simp_all

lemma pending_interrupt_iff:
  "pending_interrupt s = Some i \<longleftrightarrow>
     bit (interrupt_request s AND interrupt_enable s) (interrupt_bit i) \<and>
     (\<forall>j < interrupt_bit i. \<not> bit (interrupt_request s AND interrupt_enable s) j)"
  unfolding pending_interrupt_def Let_def word_and_bit_5
  by (cases i) (auto simp: less_Suc_eq numeral_eq_Suc)

lemma pending_interrupt_None_iff:
  "pending_interrupt s = None \<longleftrightarrow>
     (\<forall>j < 5. \<not> bit (interrupt_request s AND interrupt_enable s) j)"
  unfolding pending_interrupt_def Let_def word_and_bit_5
  by (auto simp: less_Suc_eq numeral_eq_Suc)

lemma acknowledge_bits:
  "bit (interrupt_request (acknowledge_interrupt i s)) k \<longleftrightarrow>
     bit (interrupt_request s) k \<and> k \<noteq> interrupt_bit i"
  by (cases "k < 8") (auto simp: acknowledge_interrupt_def bit_simps dest: bit_imp_le_length)

section \<open>Device invariant\<close>

definition dmg_wf :: "dmg_device_state \<Rightarrow> bool" where
  "dmg_wf s \<longleftrightarrow>
     interrupt_request s \<le> 0x1f \<and> interrupt_enable s \<le> 0x1f \<and>
     timer_wf (dev_timer s) \<and> apu_wf (dev_apu s) \<and>
     joypad_select s AND 0xcf = 0 \<and> lcd_status_control s AND 0x87 = 0 \<and>
     ppu_line s \<le> 153 \<and> ppu_dot s < 456 \<and> serial_cycles_remaining s \<le> 4096 \<and>
     (dma_active s \<longrightarrow> dma_index s < 160) \<and> dma_index s \<le> 160 \<and>
     unat (dma_owed s) \<le> 160 - unat (dma_index s) \<and> (dma_owed s \<noteq> 0 \<longrightarrow> dma_active s)"

lemma dmg_initial_wf [simp]: "dmg_wf dmg_empty" "dmg_wf dmg_post_boot"
  by (simp_all add: dmg_wf_def dmg_empty_def dmg_post_boot_def)

lemma or_le_1f [simp]:
  fixes x :: u8
  assumes "x \<le> 0x1f"
  shows "x OR 0x01 \<le> 0x1f" "x OR 0x02 \<le> 0x1f" "x OR 0x04 \<le> 0x1f" "x OR 0x08 \<le> 0x1f" "x OR 0x10 \<le> 0x1f"
proof -
  have "\<forall>x::u8. x \<le> 0x1f \<longrightarrow> x OR 0x01 \<le> 0x1f \<and> x OR 0x02 \<le> 0x1f \<and> x OR 0x04 \<le> 0x1f \<and>
      x OR 0x08 \<le> 0x1f \<and> x OR 0x10 \<le> 0x1f"
    unfolding all_u8 by code_simp
  with assms show "x OR 0x01 \<le> 0x1f" "x OR 0x02 \<le> 0x1f" "x OR 0x04 \<le> 0x1f" "x OR 0x08 \<le> 0x1f"
    "x OR 0x10 \<le> 0x1f" by blast+
qed

lemma and_not_subset [simp]: "((v :: u8) AND 0x30) AND 0xcf = 0" "(v AND 0x78) AND 0x87 = 0"
  by (simp_all add: and.assoc)

lemma interrupt_mask_le [simp]: "v AND INTERRUPT_MASK \<le> 0x1f"
  by (metis INTERRUPT_MASK_def word_and_le1 and.commute)

lemma acknowledge_wf: "dmg_wf s \<Longrightarrow> dmg_wf (acknowledge_interrupt i s)"
  using order_trans [OF word_and_le2, of "interrupt_request s" "0x1f" "NOT (push_bit (interrupt_bit i) 1)"]
  by (simp add: dmg_wf_def acknowledge_interrupt_def)

lemma request_joypad_wf [simp]: "dmg_wf s \<Longrightarrow> dmg_wf (request_joypad_falling_edge b a s)"
  by (simp add: request_joypad_falling_edge_def dmg_wf_def)

lemma request_stat_wf [simp]: "dmg_wf s \<Longrightarrow> dmg_wf (request_stat_rising_edge b s)"
  by (simp add: request_stat_rising_edge_def dmg_wf_def)

lemma dmg_wf_buttons [simp]: "dmg_wf (s\<lparr>joypad_buttons := b\<rparr>) = dmg_wf s"
  by (simp add: dmg_wf_def)

lemma sample_joypad_wf: "dmg_wf s \<Longrightarrow> dmg_wf (snd (sample_joypad b s))"
  by (simp add: sample_joypad_def Let_def)

lemma schedule_dma_wf: "dmg_wf s \<Longrightarrow> active \<longrightarrow> dma_active s \<Longrightarrow> dmg_wf (schedule_dma_bytes m active s)"
  by (auto simp: schedule_dma_bytes_def dmg_wf_def Let_def saturating_sub_def min_def
      word_le_nat_alt unat_sub_cases)

lemma complete_dma_wf:
  assumes "dmg_wf s" "dma_owed s \<noteq> 0"
  shows "dmg_wf (complete_dma_byte s)"
proof -
  have i: "unat (dma_index s) < 160" and o': "unat (dma_owed s) \<le> 160 - unat (dma_index s)"
    and o1: "1 \<le> unat (dma_owed s)"
    using assms by (auto simp: dmg_wf_def word_less_nat_alt unat_gt_0 Suc_le_eq)
  have "unat (dma_index s + 1) = unat (dma_index s) + 1" if "dma_index s \<noteq> 159"
    using i by (simp add: unat_add_cases)
  moreover have "unat (dma_index s) < 159" if "dma_index s \<noteq> 159"
    using i that by (simp add: word_unat_eq_iff)
  moreover have "unat (dma_owed s - 1) = unat (dma_owed s) - 1"
    using o1 by (simp add: unat_sub_cases word_le_nat_alt)
  ultimately show ?thesis
    using assms i o' o1
    by (auto simp: complete_dma_byte_def Let_def dmg_wf_def saturating_sub_def saturating_add_def
        word_le_nat_alt word_less_nat_alt unat_eq_zero)
qed

lemma saturating_sub_le: "saturating_sub x y \<le> (x :: 'a::len word)"
  by (simp add: saturating_sub_def word_le_nat_alt unat_sub_cases)

lemma serial_wf: "dmg_wf s \<Longrightarrow> dmg_wf (advance_serial_t_cycles t s)"
  using order_trans [OF saturating_sub_le, of "serial_cycles_remaining s" 4096 "ucast t"]
  by (simp add: advance_serial_t_cycles_def dmg_wf_def Let_def)

lemma ppu_dot_step: "(d :: u16) < 456 \<Longrightarrow> d + 1 \<noteq> 456 \<Longrightarrow> d + 1 < 456"
  by (simp add: word_less_nat_alt unat_add_cases word_unat_eq_iff)

lemma ppu_line_step: "(l :: u8) \<le> 153 \<Longrightarrow> l \<noteq> 153 \<Longrightarrow> l + 1 \<le> 153"
  by (simp add: word_le_nat_alt unat_add_cases word_unat_eq_iff)

lemma ppu_wf:
  assumes "dmg_wf s" shows "dmg_wf (advance_ppu_t_cycle s)"
proof -
  have "dmg_wf (s\<lparr>ppu_line := 0, ppu_dot := 0\<rparr>)" using assms by (simp add: dmg_wf_def)
  moreover have "dmg_wf (let s1 = s\<lparr>ppu_dot := ppu_dot s + 1\<rparr>
      in if ppu_dot s1 = 456 then
           (let s3 = s1\<lparr>ppu_dot := 0, ppu_line := (if ppu_line s1 = 153 then 0 else ppu_line s1 + 1)\<rparr>
            in if ppu_line s3 = 144
               then s3\<lparr>interrupt_request := interrupt_request s3 OR 0x01\<rparr> else s3)
         else s1)"
    using assms ppu_dot_step [of "ppu_dot s"] ppu_line_step [of "ppu_line s"]
    by (simp add: dmg_wf_def Let_def)
  ultimately show ?thesis
    by (simp add: advance_ppu_t_cycle_def Let_def del: if_split_asm split: if_split)
qed

lemma advance_m_cycles_wf:
  assumes "dmg_wf s" shows "dmg_wf (advance_m_cycles m s)"
proof -
  let ?t = "saturating_mul m 4"
  obtain r t' where t: "advance_t_cycles ?t (dev_timer s) = (r, t')" by fastforce
  have "r \<in> {0, 4}" "timer_wf t'"
    using timer_ticks_request [of "unat ?t" "dev_timer s"] timer_ticks_wf [of "dev_timer s" "unat ?t"] t
      assms by (simp_all add: advance_t_cycles_def dmg_wf_def)
  then have "dmg_wf (s\<lparr>dev_timer := t', interrupt_request := interrupt_request s OR r\<rparr>)"
    using assms by (auto simp: dmg_wf_def)
  then show ?thesis
    by (simp add: advance_m_cycles_def Let_def t funpow_invariant [where P = dmg_wf] ppu_wf serial_wf)
qed

lemma advance_quiet_long_wf: "dmg_wf s \<Longrightarrow> dmg_wf (advance_quiet_long m s)"
  by (induction m s rule: advance_quiet_long.induct)
     (subst advance_quiet_long.simps, simp add: Let_def advance_m_cycles_wf)

section \<open>The register map as an MMIO device\<close>

definition dmg_mapped :: "u16 \<Rightarrow> bool" where
  "dmg_mapped a \<longleftrightarrow>
     a \<in> {0xff00, 0xff01, 0xff02, 0xff0f, 0xffff} \<or> a \<in> {0xff04, 0xff05, 0xff06, 0xff07} \<or>
     apu_mapped a \<or> (0xff40 \<le> a \<and> a \<le> 0xff4b)"

lemma write_register_wf:
  assumes "dmg_wf s" "write_mmio_register a v b s = Some s'"
  shows "dmg_wf s'"
proof -
  have f: "dmg_wf (s\<lparr>joypad_select := v AND 0x30\<rparr>)" "dmg_wf (s\<lparr>serial_data := v\<rparr>)"
    "dmg_wf (s\<lparr>serial_control := v, serial_cycles_remaining := 4096\<rparr>)"
    "dmg_wf (s\<lparr>serial_control := v, serial_cycles_remaining := 0\<rparr>)"
    "dmg_wf (s\<lparr>interrupt_request := v AND INTERRUPT_MASK\<rparr>)" "dmg_wf (s\<lparr>lcd_control := v\<rparr>)"
    "dmg_wf (s\<lparr>lcd_status_control := v AND 0x78\<rparr>)" "dmg_wf (s\<lparr>scroll_y := v\<rparr>)"
    "dmg_wf (s\<lparr>scroll_x := v\<rparr>)" "dmg_wf (s\<lparr>line_compare := v\<rparr>)"
    "dmg_wf (s\<lparr>dma_source_high := v, dma_index := 0, dma_active := True, dma_owed := 0\<rparr>)"
    "dmg_wf (s\<lparr>background_palette := v\<rparr>)" "dmg_wf (s\<lparr>object_palette_zero := v\<rparr>)"
    "dmg_wf (s\<lparr>object_palette_one := v\<rparr>)" "dmg_wf (s\<lparr>window_y := v\<rparr>)" "dmg_wf (s\<lparr>window_x := v\<rparr>)"
    "dmg_wf (s\<lparr>interrupt_enable := v AND INTERRUPT_MASK\<rparr>)"
    "dmg_wf (s\<lparr>lcd_control := v, ppu_line := 0, ppu_dot := 0\<rparr>)"
    using assms(1) by (simp_all add: dmg_wf_def)
  show ?thesis
    using assms f unfolding write_mmio_register_def Let_def
    by (auto split: if_splits)
qed

lemma mmio_register_address:
  assumes "write_mmio_register a v b s = None" "read_mmio s a = Some b'"
  shows "a \<in> {0xff04, 0xff05, 0xff06, 0xff07} \<or> apu_mapped a"
  using assms by (auto simp: write_mmio_register_def read_mmio_def Let_def timer_read_def apu_mapped_def
      split: if_splits)

lemma dmg_wf_parts: "dmg_wf s \<Longrightarrow> timer_wf (dev_timer s)" "dmg_wf s \<Longrightarrow> apu_wf (dev_apu s)"
  by (simp_all add: dmg_wf_def)

lemma read_mmio_mapped:
  assumes "dmg_wf s" shows "read_mmio s a = None \<longleftrightarrow> \<not> dmg_mapped a"
proof -
  note t = timer.rd_mapped [OF dmg_wf_parts(1) [OF assms], of a]
    and ap = apu.rd_mapped [OF dmg_wf_parts(2) [OF assms], of a]
  show ?thesis
  proof (cases "apu_mapped a")
    case True
    then show ?thesis using ap
      by (auto simp: read_mmio_def dmg_mapped_def apu_mapped_def word_le_nat_alt)
  next
    case False
    have r: "0xff04 \<le> a \<and> a \<le> 0xff07 \<longleftrightarrow> a \<in> {0xff04, 0xff05, 0xff06, 0xff07}"
      "0xff40 \<le> a \<and> a \<le> 0xff4b \<longleftrightarrow> a \<in> {0xff40, 0xff41, 0xff42, 0xff43, 0xff44, 0xff45, 0xff46,
         0xff47, 0xff48, 0xff49, 0xff4a, 0xff4b}"
      by (simp_all add: word_le_nat_alt word_unat_eq_iff, linarith, presburger)
    show ?thesis using t False unfolding read_mmio_def dmg_mapped_def r
      by (auto simp add: apu_mapped_def simp del: not_le)
  qed
qed

lemma write_mmio_prior:
  assumes "dmg_wf s" "read_mmio s a = Some b"
  shows "\<exists>s'. write_mmio a v s = Some (b, s') \<and> dmg_wf s'"
proof (cases "0xff04 \<le> a \<and> a \<le> 0xff07")
  case True
  then have "timer_read (dev_timer s) a = Some b"
    using assms(2) by (auto simp: read_mmio_def word_le_nat_alt split: if_splits)
  moreover note timer.wr_None_iff [OF dmg_wf_parts(1) [OF assms(1)], of a v]
    timer.wr_prior [OF dmg_wf_parts(1) [OF assms(1)], of a v]
  ultimately obtain t where t: "timer_write a v (dev_timer s) = Some (b, t)" by force
  then have "timer_wf t" using timer_write_wf dmg_wf_parts assms(1) by blast
  with t show ?thesis using True assms by (simp add: write_mmio_def) (simp add: dmg_wf_def)
next
  case nt: False
  show ?thesis
  proof (cases "0xff10 \<le> a \<and> a \<le> 0xff3f")
    case True
    then have "apu_read (dev_apu s) a = Some b"
      using assms(2) by (auto simp: read_mmio_def word_le_nat_alt split: if_splits)
    moreover note apu.wr_None_iff [OF dmg_wf_parts(2) [OF assms(1)], of a v]
      apu.wr_prior [OF dmg_wf_parts(2) [OF assms(1)], of a v]
    ultimately obtain t where t: "apu_write a v (dev_apu s) = Some (b, t)" by force
    then have "apu_wf t" using apu_write_wf dmg_wf_parts assms(1) by blast
    then have "dmg_wf (s\<lparr>dev_apu := t\<rparr>)" using assms(1) by (simp add: dmg_wf_def)
    with t show ?thesis using True nt assms by (auto simp: write_mmio_def Let_def)
  next
    case False
    have "write_mmio_register a v b s \<noteq> None"
    proof
      assume "write_mmio_register a v b s = None"
      from mmio_register_address [OF this assms(2)] show False
        using nt False by (auto simp: apu_mapped_def)
    qed
    then obtain s' where s': "write_mmio_register a v b s = Some s'" by blast
    then show ?thesis using nt False assms(2) write_register_wf [OF assms(1) s']
      by (auto simp: write_mmio_def Let_def)
  qed
qed

interpretation dmg: mmio_device read_mmio write_mmio dmg_mapped dmg_wf
proof
  show "dmg_wf s \<Longrightarrow> read_mmio s a = None \<longleftrightarrow> \<not> dmg_mapped a" for s a by (rule read_mmio_mapped)
  show "dmg_wf s \<Longrightarrow> \<not> dmg_mapped a \<Longrightarrow> write_mmio a v s = None" for s a v
    using read_mmio_mapped [of s a] by (simp add: write_mmio_def)
  show "dmg_wf s \<Longrightarrow> dmg_mapped a \<Longrightarrow> \<exists>s'. write_mmio a v s = Some (the (read_mmio s a), s')" for s a v
    using read_mmio_mapped write_mmio_prior by (metis option.collapse)
  show "dmg_wf s \<Longrightarrow> write_mmio a v s = Some (b, s') \<Longrightarrow> dmg_wf s'" for s a v b s'
    using write_mmio_prior [of s a _ v] by (cases "read_mmio s a") (force simp: write_mmio_def)+
qed

end
