(* ===== verification/Dmg_Clock.thy ===== *)
theory Dmg_Clock
  imports Dmg
begin

text \<open>
  The device clock of \<open>crates/zksm83-core/src/dmg.rs\<close>: clocking by M-cycles composes, the chunked
  \<open>advance_quiet_long\<close> is the same as single M-cycles, and each of the closed-form HALT skips
  stops exactly at the first pending interrupt.
\<close>

section \<open>The clock in T-cycles\<close>

text \<open>The three clocked parts as functions of a number of T-cycles.\<close>

definition clock_timer :: "nat \<Rightarrow> dmg_device_state \<Rightarrow> dmg_device_state" where
  "clock_timer k s =
     s\<lparr>dev_timer := snd (timer_ticks k (dev_timer s)),
       interrupt_request := interrupt_request s OR fst (timer_ticks k (dev_timer s))\<rparr>"

definition clock_serial :: "nat \<Rightarrow> dmg_device_state \<Rightarrow> dmg_device_state" where
  "clock_serial k s =
     (if serial_cycles_remaining s = 0 then s
      else if unat (serial_cycles_remaining s) \<le> k then
        s\<lparr>serial_cycles_remaining := 0, serial_control := serial_control s AND 0x7f,
          serial_data := 0xff, interrupt_request := interrupt_request s OR 0x08\<rparr>
      else s\<lparr>serial_cycles_remaining := serial_cycles_remaining s - word_of_nat k\<rparr>)"

definition clock :: "nat \<Rightarrow> dmg_device_state \<Rightarrow> dmg_device_state" where
  "clock k s = (advance_ppu_t_cycle ^^ k) (clock_serial k (clock_timer k s))"

lemma advance_serial_clock: "advance_serial_t_cycles t s = clock_serial (unat t) s"
proof -
  have u: "word_of_nat (unat t) = (ucast t :: u16)"
    by (simp add: word_unat_eq_iff unat_of_nat)
  have le: "(ucast t \<le> serial_cycles_remaining s) = (unat t \<le> unat (serial_cycles_remaining s))"
    by (simp add: word_le_nat_alt)
  have eq: "serial_cycles_remaining s = ucast t \<longleftrightarrow> unat (serial_cycles_remaining s) = unat t"
    by (simp add: word_unat_eq_iff)
  then have z: "serial_cycles_remaining s - ucast t = 0 \<longleftrightarrow> unat (serial_cycles_remaining s) = unat t"
    by simp
  show ?thesis
    by (cases "unat t" "unat (serial_cycles_remaining s)" rule: linorder_cases)
       (auto simp: advance_serial_t_cycles_def clock_serial_def Let_def saturating_sub_def u le z eq)
qed

lemma unat_saturating_4: "unat (saturating_mul m 4 :: u8) = (if unat m \<le> 63 then 4 * unat m else 255)"
proof -
  have "unat (- 1 :: u8) = 255" by (simp add: unsigned_minus_1_eq_mask mask_eq_exp_minus_1)
  then show ?thesis by (auto simp: saturating_mul_def unat_word_ariths)
qed

lemma advance_m_cycles_saturates: "advance_m_cycles m s = clock (min 255 (4 * unat m)) s"
  by (auto simp: advance_m_cycles_def Let_def split_beta advance_t_cycles_def unat_saturating_4
      advance_serial_clock clock_def clock_timer_def min_def)

lemma advance_m_cycles_clock: "unat m \<le> 63 \<Longrightarrow> advance_m_cycles m s = clock (4 * unat m) s"
  by (simp add: advance_m_cycles_saturates)

section \<open>The parts commute\<close>

text \<open>
  One PPU T-cycle depends on the LCD registers and the dot position only: the signals and the
  next position as functions of those five fields.
\<close>

definition ppu_stat :: "u8 \<Rightarrow> u8 \<Rightarrow> u8 \<Rightarrow> u8 \<Rightarrow> u16 \<Rightarrow> bool" where
  "ppu_stat lc st cmp l d \<longleftrightarrow>
     (let mode = (if lc AND 0x80 = 0 then 0 else if l \<ge> 144 then 1 else if d < 80 then 2
                  else if d < 252 then 3 else (0 :: u8))
      in lc AND 0x80 \<noteq> 0 \<and>
         ((st AND 0x08 \<noteq> 0 \<and> mode = 0) \<or> (st AND 0x10 \<noteq> 0 \<and> mode = 1) \<or>
          (st AND 0x20 \<noteq> 0 \<and> mode = 2) \<or> (st AND 0x40 \<noteq> 0 \<and> l = cmp)))"

definition ppu_next :: "u8 \<Rightarrow> u8 \<Rightarrow> u8 \<Rightarrow> u8 \<Rightarrow> u16 \<Rightarrow> u8 \<times> u16 \<times> u8" where
  "ppu_next lc st cmp l d =
     (if lc AND 0x80 = 0 then (0, 0, 0)
      else
        (let wrap = (d + 1 = 456);
             d' = (if wrap then 0 else d + 1);
             l' = (if wrap then if l = 153 then 0 else l + 1 else l);
             vblank = (if wrap \<and> l' = 144 then 0x01 else 0);
             stat = (if \<not> ppu_stat lc st cmp l d \<and> ppu_stat lc st cmp l' d' then 0x02 else 0)
         in (l', d', vblank OR stat)))"

definition ppu_apply :: "u8 \<times> u16 \<times> u8 \<Rightarrow> dmg_device_state \<Rightarrow> dmg_device_state" where
  "ppu_apply v s =
     s\<lparr>ppu_line := fst v, ppu_dot := fst (snd v),
       interrupt_request := interrupt_request s OR snd (snd v)\<rparr>"

lemma stat_signal_view:
  "stat_signal s = ppu_stat (lcd_control s) (lcd_status_control s) (line_compare s) (ppu_line s) (ppu_dot s)"
  by (simp add: stat_signal_def ppu_stat_def ppu_mode_def lcd_enabled_def Let_def)

lemma ppu_form:
  "advance_ppu_t_cycle s = ppu_apply (ppu_next (lcd_control s) (lcd_status_control s)
     (line_compare s) (ppu_line s) (ppu_dot s)) s"
  by (cases "ppu_dot s + 1 = 456")
     (simp_all add: advance_ppu_t_cycle_def ppu_apply_def ppu_next_def Let_def
       request_stat_rising_edge_def stat_signal_view lcd_enabled_def or.assoc)

lemma ppu_apply_fields [simp]:
  "dev_timer (ppu_apply v s) = dev_timer s" "lcd_control (ppu_apply v s) = lcd_control s"
  "lcd_status_control (ppu_apply v s) = lcd_status_control s"
  "line_compare (ppu_apply v s) = line_compare s"
  "serial_cycles_remaining (ppu_apply v s) = serial_cycles_remaining s"
  "serial_control (ppu_apply v s) = serial_control s"
  "interrupt_enable (ppu_apply v s) = interrupt_enable s"
  "interrupt_request (ppu_apply v s) = interrupt_request s OR snd (snd v)"
  by (simp_all add: ppu_apply_def)

lemma clock_timer_fields [simp]:
  "lcd_control (clock_timer k s) = lcd_control s"
  "lcd_status_control (clock_timer k s) = lcd_status_control s"
  "line_compare (clock_timer k s) = line_compare s" "ppu_line (clock_timer k s) = ppu_line s"
  "ppu_dot (clock_timer k s) = ppu_dot s"
  "serial_cycles_remaining (clock_timer k s) = serial_cycles_remaining s"
  "serial_control (clock_timer k s) = serial_control s"
  "interrupt_enable (clock_timer k s) = interrupt_enable s"
  by (simp_all add: clock_timer_def)

lemma clock_serial_fields [simp]:
  "lcd_control (clock_serial k s) = lcd_control s"
  "lcd_status_control (clock_serial k s) = lcd_status_control s"
  "line_compare (clock_serial k s) = line_compare s" "ppu_line (clock_serial k s) = ppu_line s"
  "ppu_dot (clock_serial k s) = ppu_dot s" "dev_timer (clock_serial k s) = dev_timer s"
  "interrupt_enable (clock_serial k s) = interrupt_enable s"
  by (simp_all add: clock_serial_def)

lemma or_swap: "(a OR b) OR c = (a OR c) OR (b :: 'a::len word)"
  by (simp add: ac_simps)

lemma ppu_apply_timer: "ppu_apply v (clock_timer k s) = clock_timer k (ppu_apply v s)"
  by (simp add: ppu_apply_def clock_timer_def or_swap)

lemma ppu_apply_serial: "ppu_apply v (clock_serial k s) = clock_serial k (ppu_apply v s)"
  by (simp add: ppu_apply_def clock_serial_def or_swap)

lemma serial_timer: "clock_serial j (clock_timer k s) = clock_timer k (clock_serial j s)"
  by (simp add: clock_timer_def clock_serial_def or_swap)

lemma clock_timer_add: "clock_timer (m + n) s = clock_timer n (clock_timer m s)"
  by (simp add: clock_timer_def timer_ticks_add or.assoc)

lemma clock_serial_add: "clock_serial (m + n) s = clock_serial n (clock_serial m s)"
proof -
  let ?r = "serial_cycles_remaining s"
  have "unat (?r - word_of_nat m) = unat ?r - m" if "m < unat ?r"
  proof -
    have "m < 65536" using that unat_less_65536 [of ?r] by linarith
    then have "unat (word_of_nat m :: u16) = m" by (simp add: unat_of_nat)
    then show ?thesis using that by (simp add: unat_sub_cases word_le_nat_alt)
  qed
  moreover have "?r - word_of_nat m \<noteq> 0" if "m < unat ?r"
    using calculation [OF that] that by (metis diff_is_0_eq leD unat_0)
  ultimately show ?thesis
    by (auto simp: clock_serial_def algebra_simps)
qed

lemma ppu_timer: "advance_ppu_t_cycle (clock_timer k s) = clock_timer k (advance_ppu_t_cycle s)"
  by (simp add: ppu_form ppu_apply_timer)

lemma ppu_serial: "advance_ppu_t_cycle (clock_serial k s) = clock_serial k (advance_ppu_t_cycle s)"
  by (simp add: ppu_form ppu_apply_serial)

lemma funpow_commute: "(\<And>s. f (g s) = g (f s)) \<Longrightarrow> (f ^^ n) (g s) = g ((f ^^ n) s)"
  by (induction n) simp_all

lemma ppu_pow_timer:
  "(advance_ppu_t_cycle ^^ n) (clock_timer k s) = clock_timer k ((advance_ppu_t_cycle ^^ n) s)"
  by (rule funpow_commute) (rule ppu_timer)

lemma ppu_pow_serial:
  "(advance_ppu_t_cycle ^^ n) (clock_serial k s) = clock_serial k ((advance_ppu_t_cycle ^^ n) s)"
  by (rule funpow_commute) (rule ppu_serial)

text \<open>Clocking for \<open>m\<close> and then for \<open>n\<close> T-cycles is clocking for \<open>m + n\<close>.\<close>

lemma clock_add: "clock (m + n) s = clock n (clock m s)"
  by (simp add: clock_def clock_timer_add clock_serial_add serial_timer funpow_add_apply
      ppu_pow_timer ppu_pow_serial)

lemma clock_0 [simp]: "clock 0 s = s"
  by (simp add: clock_def clock_timer_def clock_serial_def unat_eq_zero)

text \<open>The clock is the iteration of one T-cycle of the three parts.\<close>

definition device_t_cycle :: "dmg_device_state \<Rightarrow> dmg_device_state" where
  "device_t_cycle s =
     (let (requested, timer') = advance_t_cycles 1 (dev_timer s);
          s1 = s\<lparr>dev_timer := timer', interrupt_request := interrupt_request s OR requested\<rparr>
      in advance_ppu_t_cycle (advance_serial_t_cycles 1 s1))"

lemma clock_t_cycles: "clock k s = (device_t_cycle ^^ k) s"
proof (induction k)
  case (Suc k)
  have "clock 1 s = device_t_cycle s" for s
    by (simp add: clock_def device_t_cycle_def split_beta advance_t_cycles_def advance_serial_clock clock_timer_def)
  then show ?case using Suc clock_add [of k 1 s] by simp
qed simp

lemma clock_mult: "clock (4 * k) s = (advance_m_cycles 1 ^^ k) s"
proof (induction k)
  case (Suc k)
  have "clock (4 * Suc k) s = clock 4 (clock (4 * k) s)"
    using clock_add [of "4 * k" 4 s] by (simp add: add.commute)
  then show ?case using Suc advance_m_cycles_clock [of 1] by simp
qed simp

lemma quiet_long_clock: "advance_quiet_long m s = clock (4 * unat m) s"
proof (induction m s rule: advance_quiet_long.induct)
  case (1 m s)
  show ?case
  proof (cases "m = 0")
    case False
    let ?c = "quiet_chunk m"
    have c: "unat ?c \<le> 63" "unat ?c \<le> unat m" by (simp_all add: unat_quiet_chunk)
    have "advance_quiet_long m s = clock (4 * (unat m - unat ?c)) (advance_m_cycles ?c s)"
      using 1 [OF False] False by (subst advance_quiet_long.simps)
        (simp add: Let_def unat_quiet_rest unat_quiet_chunk)
    also have "\<dots> = clock (4 * unat ?c + 4 * (unat m - unat ?c)) s"
      using c by (simp add: advance_m_cycles_clock clock_add)
    also have "4 * unat ?c + 4 * (unat m - unat ?c) = 4 * unat m" using c by simp
    finally show ?thesis .
  qed (subst advance_quiet_long.simps, simp)
qed

section \<open>Exact HALT skips\<close>

lemma clock_interrupt_enable [simp]: "interrupt_enable (clock k s) = interrupt_enable s"
proof -
  have "interrupt_enable ((advance_ppu_t_cycle ^^ n) s) = interrupt_enable s" for n s
    by (induction n) (simp_all add: ppu_form)
  then show ?thesis by (simp add: clock_def)
qed

text \<open>
  When the only request raised within \<open>n\<close> M-cycles is source \<open>i\<close>, from T-cycle \<open>t\<close> on, and \<open>t\<close>
  falls in the last of those M-cycles, then single M-cycles first see an interrupt after \<open>n\<close>.
\<close>

lemma halt_exact:
  assumes raise: "\<And>k. k \<le> 4 * n \<Longrightarrow> interrupt_request (clock k s) =
      interrupt_request s OR (if t \<le> k then push_bit (interrupt_bit i) 1 else 0)"
    and window: "t \<le> 4 * n" "4 * n < t + 4"
    and none: "pending_interrupt s = None" and enabled: "bit (interrupt_enable s) (interrupt_bit i)"
  shows "pending_interrupt ((advance_m_cycles 1 ^^ n) s) = Some i"
    and "k < n \<Longrightarrow> pending_interrupt ((advance_m_cycles 1 ^^ k) s) = None"
proof -
  have i5: "interrupt_bit i < 5" by (cases i) simp_all
  have off: "\<not> (bit (interrupt_request s) j \<and> bit (interrupt_enable s) j)" if "j < 5" for j
    using none that by (simp add: pending_interrupt_None_iff bit_simps)
  show "pending_interrupt ((advance_m_cycles 1 ^^ n) s) = Some i"
    unfolding pending_interrupt_iff clock_mult [symmetric]
    using raise [of "4 * n"] window(1) enabled off i5
    by (auto simp: bit_simps)
  assume "k < n"
  then have "4 * k \<le> 4 * n" "\<not> t \<le> 4 * k" using window(2) by linarith+
  then have "interrupt_request (clock (4 * k) s) = interrupt_request s" using raise by simp
  then show "pending_interrupt ((advance_m_cycles 1 ^^ k) s) = None"
    using none by (simp add: pending_interrupt_def clock_mult [symmetric])
qed

text \<open>PPU ticks with the LCD off reset the position and request nothing.\<close>

lemma ppu_off:
  "\<not> lcd_enabled s \<Longrightarrow> interrupt_request ((advance_ppu_t_cycle ^^ k) s) = interrupt_request s \<and>
     \<not> lcd_enabled ((advance_ppu_t_cycle ^^ k) s)"
  by (induction k) (auto simp: ppu_form ppu_next_def lcd_enabled_def)

text \<open>PPU ticks with the LCD on and no STAT source: the dot position runs through the frame.\<close>

definition frame_position :: "dmg_device_state \<Rightarrow> nat" where
  "frame_position s = 456 * unat (ppu_line s) + unat (ppu_dot s)"

definition ppu_plain :: "dmg_device_state \<Rightarrow> bool" where
  "ppu_plain s \<longleftrightarrow> lcd_enabled s \<and> lcd_status_control s = 0 \<and> ppu_line s \<le> 153 \<and> ppu_dot s < 456"

lemma ppu_plain_step:
  assumes "ppu_plain s"
  shows "ppu_plain (advance_ppu_t_cycle s)"
    and "frame_position (advance_ppu_t_cycle s) = Suc (frame_position s) mod 70224"
    and "interrupt_request (advance_ppu_t_cycle s) =
      interrupt_request s OR (if Suc (frame_position s) = 65664 then 1 else 0)"
proof -
  have l: "unat (ppu_line s) \<le> 153" and d: "unat (ppu_dot s) < 456" and on: "lcd_control s AND 0x80 \<noteq> 0"
    and st: "\<not> ppu_stat (lcd_control s) (lcd_status_control s) c l' d'" for c l' d'
    using assms by (simp_all add: ppu_plain_def word_le_nat_alt word_less_nat_alt lcd_enabled_def
        ppu_stat_def Let_def)
  have wrap: "ppu_dot s + 1 = 456 \<longleftrightarrow> unat (ppu_dot s) = 455"
    using d by (simp add: word_unat_eq_iff unat_add_cases)
  have line: "ppu_line s = 153 \<longleftrightarrow> unat (ppu_line s) = 153"
    "ppu_line s + 1 = 144 \<longleftrightarrow> unat (ppu_line s) = 143"
    using l by (simp_all add: word_unat_eq_iff unat_add_cases)
  have u: "unat (ppu_dot s + 1) = unat (ppu_dot s) + 1"
    "unat (ppu_line s + 1) = unat (ppu_line s) + 1"
    using d l by (simp_all add: unat_add_cases)
  show "ppu_plain (advance_ppu_t_cycle s)"
    using assms on l d by (auto simp: ppu_form ppu_plain_def ppu_next_def Let_def lcd_enabled_def
        ppu_apply_def word_le_nat_alt word_less_nat_alt u wrap line)
  show "frame_position (advance_ppu_t_cycle s) = Suc (frame_position s) mod 70224"
  proof (cases "unat (ppu_dot s) = 455")
    case True
    then show ?thesis using on l
      by (cases "unat (ppu_line s) = 153")
         (simp_all add: ppu_form frame_position_def ppu_next_def Let_def ppu_apply_def u wrap line)
  next
    case False
    then show ?thesis using on l d
      by (simp add: ppu_form frame_position_def ppu_next_def Let_def ppu_apply_def u wrap)
  qed
  have "Suc (frame_position s) = 65664 \<longleftrightarrow> unat (ppu_dot s) = 455 \<and> unat (ppu_line s) = 143"
    using radix_inject [OF d, of 455 "unat (ppu_line s)" 143] unfolding frame_position_def
    by (simp add: mult.commute conj_commute)
  then show "interrupt_request (advance_ppu_t_cycle s) =
      interrupt_request s OR (if Suc (frame_position s) = 65664 then 1 else 0)"
    using on st by (auto simp: ppu_form ppu_next_def Let_def wrap line)
qed

lemma ppu_plain_run:
  assumes "ppu_plain s"
  shows "ppu_plain ((advance_ppu_t_cycle ^^ k) s) \<and>
    frame_position ((advance_ppu_t_cycle ^^ k) s) mod 70224 = (frame_position s + k) mod 70224 \<and>
    interrupt_request ((advance_ppu_t_cycle ^^ k) s) = interrupt_request s OR
      (if \<exists>j. 0 < j \<and> j \<le> k \<and> (frame_position s + j) mod 70224 = 65664 then 1 else 0)"
proof (induction k)
  case 0
  then show ?case using assms by simp
next
  case (Suc k)
  let ?u = "(advance_ppu_t_cycle ^^ k) s"
  have plain: "ppu_plain ?u" using Suc by simp
  have "frame_position ?u < 70224"
    using plain by (simp add: ppu_plain_def frame_position_def word_le_nat_alt word_less_nat_alt)
  then have f: "frame_position ?u = (frame_position s + k) mod 70224" using Suc by simp
  have hit: "Suc (frame_position ?u) = 65664 \<longleftrightarrow> (frame_position s + Suc k) mod 70224 = 65664"
    unfolding f by (simp add: mod_Suc)
  have ex: "(\<exists>j. 0 < j \<and> j \<le> Suc k \<and> P j) \<longleftrightarrow> (\<exists>j. 0 < j \<and> j \<le> k \<and> P j) \<or> P (Suc k)" for P :: "nat \<Rightarrow> bool"
    by (auto simp: le_Suc_eq)
  have "interrupt_request (advance_ppu_t_cycle ?u) = interrupt_request s OR
      (if \<exists>j. 0 < j \<and> j \<le> Suc k \<and> (frame_position s + j) mod 70224 = 65664 then 1 else 0)"
    unfolding ppu_plain_step(3) [OF plain] hit ex using Suc by (auto simp: or.assoc)
  then show ?case
    using ppu_plain_step(1,2) [OF plain] by (simp add: f mod_Suc_eq)
qed

lemma first_vblank:
  fixes p t k :: nat
  assumes "p < 70224" "t = (if p < 65664 then 65664 - p else 70224 - p + 65664)" "k \<le> t"
  shows "(\<exists>j. 0 < j \<and> j \<le> k \<and> (p + j) mod 70224 = 65664) \<longleftrightarrow> t \<le> k"
proof -
  have "(p + j) mod 70224 = 65664 \<longleftrightarrow> j = t" if "0 < j" "j \<le> t" for j
  proof (cases "p + j < 70224")
    case True
    then show ?thesis using assms that by (auto split: if_splits)
  next
    case False
    moreover have "p + j < 2 * 70224" using assms that by (auto split: if_splits)
    ultimately have "(p + j) mod 70224 = p + j - 70224" by (simp add: le_mod_geq)
    then show ?thesis using assms that False by (auto split: if_splits)
  qed
  then have "(\<exists>j. 0 < j \<and> j \<le> k \<and> (p + j) mod 70224 = 65664) \<longleftrightarrow> (\<exists>j. 0 < j \<and> j \<le> k \<and> j = t)"
    using assms(3) by (intro iff_exI conj_cong refl) auto
  moreover have "0 < t" using assms(1,2) by (simp split: if_splits)
  ultimately show ?thesis using assms(3) by auto
qed

lemma clock_quiet_parts:
  assumes "timer_quiet (dev_timer s)" "serial_cycles_remaining s = 0"
  shows "interrupt_request (clock k s) = interrupt_request ((advance_ppu_t_cycle ^^ k) s)"
proof -
  have "clock k s = clock_timer k ((advance_ppu_t_cycle ^^ k) s)"
    using assms(2) by (simp add: clock_def serial_timer clock_serial_def ppu_pow_timer)
  moreover have "dev_timer ((advance_ppu_t_cycle ^^ k) s) = dev_timer s"
    by (induction k) (simp_all add: ppu_form)
  ultimately show ?thesis using assms(1) by (simp add: clock_timer_def timer_ticks_quiet)
qed

lemma halt_vblank_raise:
  assumes "dmg_wf s" "halt_until_vblank_m_cycles s = Some n"
  defines "t \<equiv> (if frame_position s < 65664 then 65664 - frame_position s
      else 70224 - frame_position s + 65664)"
  shows "4 * unat n = t"
    and "k \<le> t \<Longrightarrow> interrupt_request (clock k s) = interrupt_request s OR (if t \<le> k then 1 else 0)"
proof -
  have g: "pending_interrupt s = None" "lcd_enabled s" "lcd_status_control s = 0"
    "timer_quiet (dev_timer s)" "serial_cycles_remaining s = 0"
    using assms(2) by (auto simp: halt_until_vblank_m_cycles_def timer_quiet_def split: if_splits)
  have plain: "ppu_plain s" using assms(1) g by (simp add: ppu_plain_def dmg_wf_def)
  have b: "unat (ppu_line s) \<le> 153" "unat (ppu_dot s) < 456"
    using assms(1) by (simp_all add: dmg_wf_def word_le_nat_alt word_less_nat_alt)
  have fp: "frame_position s < 70224" using b by (simp add: frame_position_def)
  define pos where "pos = (ucast (ppu_line s) * 456 + ucast (ppu_dot s) :: u32)"
  have m: "unat (ucast (ppu_line s) * 456 :: u32) = unat (ppu_line s) * 456"
    using b by (simp add: unat_word_ariths)
  have pos: "unat pos = frame_position s"
    using b unfolding pos_def by (simp add: unat_add_cases m frame_position_def)
  define rem where "rem = (if pos < 65664 then 65664 - pos else 70224 - pos + 65664)"
  have rem: "unat rem = t"
    using fp by (auto simp: rem_def t_def word_less_nat_alt pos unat_sub_cases word_le_nat_alt
        unat_add_cases)
  have "rem mod 4 = 0" and n: "try_u16 (rem div 4) = Some n"
    using assms(2) by (auto simp: halt_until_vblank_m_cycles_def Let_def pos_def [symmetric]
        rem_def split: if_splits)
  then have "unat (rem mod 4) = 0" by simp
  then have t4: "t mod 4 = 0" by (simp add: unat_mod rem)
  have "t \<le> 70224 + 65664" by (auto simp: t_def)
  moreover have "unat n = t div 4"
    using n calculation by (auto simp: try_u16_def unat_div rem unsigned_ucast_eq take_bit_eq_mod
        word_less_nat_alt split: if_splits)
  ultimately show "4 * unat n = t" using t4 by auto
  show "k \<le> t \<Longrightarrow> interrupt_request (clock k s) = interrupt_request s OR (if t \<le> k then 1 else 0)"
    using ppu_plain_run [OF plain, of k] first_vblank [OF fp t_def [THEN meta_eq_to_obj_eq], of k]
    by (simp add: clock_quiet_parts [OF g(4,5)])
qed

lemma clock_off:
  assumes "\<not> lcd_enabled s"
  shows "interrupt_request (clock k s) = interrupt_request (clock_serial k (clock_timer k s))"
proof -
  have "\<not> lcd_enabled (clock_serial k (clock_timer k s))"
    using assms by (simp add: lcd_enabled_def)
  then show ?thesis using ppu_off by (simp add: clock_def)
qed

lemma halt_serial_raise:
  assumes "halt_until_serial_m_cycles s = Some n"
  defines "t \<equiv> unat (serial_cycles_remaining s)"
  shows "4 * unat n = t" "0 < t"
    and "interrupt_request (clock k s) = interrupt_request s OR (if t \<le> k then 0x08 else 0)"
proof -
  have g: "timer_quiet (dev_timer s)" "\<not> lcd_enabled s" "serial_cycles_remaining s mod 4 = 0"
    "serial_cycles_remaining s \<noteq> 0" "n = serial_cycles_remaining s div 4"
    using assms(1) by (auto simp: halt_until_serial_m_cycles_def timer_quiet_def split: if_splits)
  have "unat (serial_cycles_remaining s mod 4) = 0" using g(3) by simp
  then have "t mod 4 = 0" by (simp add: unat_mod t_def)
  moreover have "unat n = t div 4" by (simp add: g(5) unat_div t_def)
  ultimately show "4 * unat n = t" by auto
  show "0 < t" using g(4) by (simp add: t_def unat_gt_0)
  show "interrupt_request (clock k s) = interrupt_request s OR (if t \<le> k then 0x08 else 0)"
    using g(1,4) by (simp add: clock_off [OF g(2)] clock_serial_def clock_timer_def timer_ticks_quiet t_def)
qed

lemma halt_timer_raise:
  assumes "halt_until_timer_m_cycles s = Some n"
  shows "\<exists>t. t_cycles_until_interrupt (dev_timer s) = Some t \<and> unat n = (unat t + 3) div 4 \<and>
    (\<forall>k \<le> unat t + 3. interrupt_request (clock k s) =
        interrupt_request s OR (if unat t \<le> k then 0x04 else 0))"
proof -
  have off: "\<not> lcd_enabled s" "serial_cycles_remaining s = 0"
    using assms by (auto simp: halt_until_timer_m_cycles_def split: if_splits)
  obtain t where t: "t_cycles_until_interrupt (dev_timer s) = Some t"
      "checked_add t 3 = Some (t + 3)" "n = (t + 3) div 4" "unat t + 3 < 2 ^ 32"
    using assms by (auto simp: halt_until_timer_m_cycles_def checked_add_def
        split: if_splits bind_splits)
  have n: "unat n = (unat t + 3) div 4" using t(4) by (simp add: t(3) unat_div unat_add_cases)
  have r: "fst (timer_ticks k (dev_timer s)) = (if unat t \<le> k then 0x04 else 0)" if "k \<le> unat t + 3" for k
  proof (cases "unat t \<le> k")
    case True
    then obtain j where k: "k = unat t + j" by (metis le_Suc_ex)
    have "0x04 OR r = 0x04" if "r \<in> {0, 0x04}" for r :: u8 using that by auto
    then show ?thesis
      using until_interrupt_exact(2) [OF t(1)] timer_ticks_request
      by (simp add: k timer_ticks_add TIMER_INTERRUPT_def)
  next
    case False
    then show ?thesis using until_interrupt_exact(3) [OF t(1), of k] by simp
  qed
  have "interrupt_request (clock k s) = interrupt_request s OR fst (timer_ticks k (dev_timer s))" for k
    using off(2) by (simp add: clock_off [OF off(1)] clock_serial_def clock_timer_def)
  with t(1) n r show ?thesis by auto
qed

text \<open>The bounded idle projection: one to six M-cycles, stopping at the first interrupt.\<close>

lemma halt_idle_cases:
  defines "P s k \<equiv> pending_interrupt ((advance_m_cycles 1 ^^ k) s) \<noteq> None"
  shows "halt_idle_m_cycles s =
    (if P s 1 then 1 else if P s 2 then 2 else if P s 3 then 3 else if P s 4 then 4
     else if P s 5 then 5 else 6)"
  by (simp add: halt_idle_m_cycles_def P_def Let_def numeral_eq_Suc)

lemma below_6: "0 < k \<Longrightarrow> k < 6 \<Longrightarrow> k \<in> {1, 2, 3, 4, 5}" for k :: nat
  by auto

lemma halt_idle_first:
  defines "P s k \<equiv> pending_interrupt ((advance_m_cycles 1 ^^ k) s) \<noteq> None"
  shows "1 \<le> unat (halt_idle_m_cycles s) \<and> unat (halt_idle_m_cycles s) \<le> 6"
    and "0 < k \<Longrightarrow> k < unat (halt_idle_m_cycles s) \<Longrightarrow> \<not> P s k"
    and "unat (halt_idle_m_cycles s) < 6 \<Longrightarrow> P s (unat (halt_idle_m_cycles s))"
proof -
  note first = halt_idle_cases [of s, folded P_def]
  show bound: "1 \<le> unat (halt_idle_m_cycles s) \<and> unat (halt_idle_m_cycles s) \<le> 6"
    unfolding first by simp
  show "\<not> P s k" if "0 < k" "k < unat (halt_idle_m_cycles s)"
  proof -
    have "k \<in> {1, 2, 3, 4, 5}" using that bound by (intro below_6) linarith+
    then show ?thesis using that(2) unfolding first by (auto split: if_splits)
  qed
  show "unat (halt_idle_m_cycles s) < 6 \<Longrightarrow> P s (unat (halt_idle_m_cycles s))"
    unfolding first by (auto split: if_splits)
qed

section \<open>OAM DMA\<close>

text \<open>
  Completing owed bytes walks the source and destination cursors through the 160 OAM bytes and
  then stops the transfer.
\<close>

lemma complete_dma_step:
  assumes "unat (dma_index s) < 160"
  shows "unat (dma_index (complete_dma_byte s)) = Suc (unat (dma_index s))"
    and "dma_active (complete_dma_byte s) = (dma_active s \<and> Suc (unat (dma_index s)) < 160)"
    and "dma_source_high (complete_dma_byte s) = dma_source_high s"
proof -
  have "dma_index s = 159 \<longleftrightarrow> unat (dma_index s) = 159" by (simp add: word_unat_eq_iff)
  moreover have "unat (dma_index s + 1) = Suc (unat (dma_index s))"
    using assms by (simp add: unat_add_cases)
  ultimately show "unat (dma_index (complete_dma_byte s)) = Suc (unat (dma_index s))"
    "dma_active (complete_dma_byte s) = (dma_active s \<and> Suc (unat (dma_index s)) < 160)"
    "dma_source_high (complete_dma_byte s) = dma_source_high s"
    using assms by (auto simp: complete_dma_byte_def Let_def saturating_add_def)
qed

lemma dma_run:
  assumes "dma_index s = 0" "dma_active s" "n \<le> 160"
  shows "unat (dma_index ((complete_dma_byte ^^ n) s)) = n \<and>
    dma_active ((complete_dma_byte ^^ n) s) = (n < 160) \<and>
    dma_source_high ((complete_dma_byte ^^ n) s) = dma_source_high s"
  using assms(3)
proof (induction n)
  case (Suc n)
  then show ?case using complete_dma_step [of "(complete_dma_byte ^^ n) s"] by auto
qed (use assms in simp)

lemma dma_addresses:
  shows "unat (dma_destination_address s) = 0xfe00 + unat (dma_index s)"
    and "unat (dma_source_address s) = 256 * unat (dma_source_high s) + unat (dma_index s)"
proof -
  have "dma_source_address s = u16_from_be (dma_source_high s) (dma_index s)"
    by (simp add: dma_source_address_def u16_from_be_def)
  moreover have "dma_destination_address s = u16_from_be 0xfe (dma_index s)"
    by (simp add: dma_destination_address_def u16_from_be_def)
  ultimately show "unat (dma_destination_address s) = 0xfe00 + unat (dma_index s)"
    "unat (dma_source_address s) = 256 * unat (dma_source_high s) + unat (dma_index s)"
    by (simp_all add: unat_u16_from_be)
qed

end
