(* ===== verification/Mbc3.thy ===== *)
theory Mbc3
  imports Prelude
begin

text \<open>
  The MBC3 mapper of \<open>crates/zksm83-core/src/mbc3.rs\<close>: cartridge profiles, the mapper registers
  with their validated construction, the mapping of CPU addresses to physical byte indices and
  the control-register writes. The invariant \<open>mbc3_wf\<close> is what \<open>from_profile_parts\<close> accepts;
  every control write preserves it, and under it every mapped index lies inside the cartridge.
\<close>

section \<open>Cartridge profiles\<close>

datatype mbc3_rom_size = Rom256KiB | Rom1MiB

fun rom_byte_length :: "mbc3_rom_size \<Rightarrow> nat" where
  "rom_byte_length Rom256KiB = 256 * 1024"
| "rom_byte_length Rom1MiB = 1024 * 1024"

fun max_bank :: "mbc3_rom_size \<Rightarrow> u8" where
  "max_bank Rom256KiB = 0x0f"
| "max_bank Rom1MiB = 0x3f"

definition bank_mask :: "mbc3_rom_size \<Rightarrow> u8" where
  "bank_mask rom_size = max_bank rom_size"

datatype mbc3_rtc_mode = NoRtc | RtcCapable

record mbc3_cartridge_profile =
  prof_rom_size :: mbc3_rom_size
  prof_rtc :: mbc3_rtc_mode

definition one_mib_no_rtc :: mbc3_cartridge_profile where
  "one_mib_no_rtc = \<lparr>prof_rom_size = Rom1MiB, prof_rtc = NoRtc\<rparr>"

datatype mbc3_external_window = Win_Ram u32 | Win_RtcRegister u8 | Win_Unavailable

section \<open>Mapper state\<close>

record mbc3_state =
  ram_enabled :: bool
  rom_bank :: u8
  ram_rtc_select :: u8

datatype mbc3_state_error = InvalidRomBank u8 | InvalidRamRtcSelect u8

definition mbc3_profile_initial :: mbc3_state where
  "mbc3_profile_initial = \<lparr>ram_enabled = False, rom_bank = 1, ram_rtc_select = 0\<rparr>"

definition from_profile_parts ::
  "mbc3_cartridge_profile \<Rightarrow> bool \<Rightarrow> u8 \<Rightarrow> u8 \<Rightarrow> mbc3_state_error + mbc3_state" where
  "from_profile_parts profile enabled bank select =
     (if bank = 0 \<or> bank > max_bank (prof_rom_size profile) then Inl (InvalidRomBank bank)
      else if select > 0x0f then Inl (InvalidRamRtcSelect select)
      else Inr \<lparr>ram_enabled = enabled, rom_bank = bank, ram_rtc_select = select\<rparr>)"

definition from_parts :: "bool \<Rightarrow> u8 \<Rightarrow> u8 \<Rightarrow> mbc3_state_error + mbc3_state" where
  "from_parts enabled bank select = from_profile_parts one_mib_no_rtc enabled bank select"

definition ROM_BANK_BYTES :: u32 where "ROM_BANK_BYTES = 0x4000"
definition SRAM_PHYSICAL_BASE :: u32 where "SRAM_PHYSICAL_BASE = 0x10000"
definition SRAM_BANK_BYTES :: u32 where "SRAM_BANK_BYTES = 0x2000"

definition map_rom_for :: "mbc3_state \<Rightarrow> mbc3_cartridge_profile \<Rightarrow> u16 \<Rightarrow> u32" where
  "map_rom_for s profile address =
     (if address < 0x4000 then ucast address
      else ucast (rom_bank s) * ROM_BANK_BYTES + (ucast address - ROM_BANK_BYTES))"

definition map_rom :: "mbc3_state \<Rightarrow> u16 \<Rightarrow> u32" where
  "map_rom s address = map_rom_for s one_mib_no_rtc address"

definition external_window_for ::
  "mbc3_state \<Rightarrow> mbc3_cartridge_profile \<Rightarrow> u16 \<Rightarrow> mbc3_external_window" where
  "external_window_for s profile address =
     (if \<not> ram_enabled s \<or> \<not> (0xa000 \<le> address \<and> address \<le> 0xbfff) then Win_Unavailable
      else if ram_rtc_select s \<le> 3 then
        Win_Ram (SRAM_PHYSICAL_BASE + ucast (ram_rtc_select s) * SRAM_BANK_BYTES
          + (ucast address - 0xa000))
      else if prof_rtc profile = RtcCapable \<and> 0x08 \<le> ram_rtc_select s \<and> ram_rtc_select s \<le> 0x0c
      then Win_RtcRegister (ram_rtc_select s)
      else Win_Unavailable)"

definition map_ram :: "mbc3_state \<Rightarrow> u16 \<Rightarrow> u32 option" where
  "map_ram s address =
     (case external_window_for s one_mib_no_rtc address of
        Win_Ram physical \<Rightarrow> Some physical
      | Win_RtcRegister _ \<Rightarrow> None
      | Win_Unavailable \<Rightarrow> None)"

definition apply_control_write_for ::
  "mbc3_cartridge_profile \<Rightarrow> u16 \<Rightarrow> u8 \<Rightarrow> mbc3_state \<Rightarrow> mbc3_state" where
  "apply_control_write_for profile address v s =
     (if address \<le> 0x1fff then s\<lparr>ram_enabled := (v AND 0x0f = 0x0a)\<rparr>
      else if address \<le> 0x3fff then
        (let selected = v AND bank_mask (prof_rom_size profile)
         in s\<lparr>rom_bank := (if selected = 0 then 1 else selected)\<rparr>)
      else if address \<le> 0x5fff then s\<lparr>ram_rtc_select := v AND 0x0f\<rparr>
      else s)"

section \<open>Invariant and address bounds\<close>

definition mbc3_wf :: "mbc3_cartridge_profile \<Rightarrow> mbc3_state \<Rightarrow> bool" where
  "mbc3_wf profile s \<longleftrightarrow>
     rom_bank s \<noteq> 0 \<and> rom_bank s \<le> max_bank (prof_rom_size profile) \<and> ram_rtc_select s \<le> 0x0f"

lemma from_profile_parts_iff:
  "from_profile_parts p e b r = Inr s \<longleftrightarrow>
     s = \<lparr>ram_enabled = e, rom_bank = b, ram_rtc_select = r\<rparr> \<and> mbc3_wf p s"
  by (auto simp: from_profile_parts_def mbc3_wf_def)

lemma mbc3_initial_wf [simp]: "mbc3_wf p mbc3_profile_initial"
  by (cases "prof_rom_size p") (simp_all add: mbc3_wf_def mbc3_profile_initial_def)

lemma word_and_le: "(v :: 'a::len word) AND m \<le> m"
  by (metis word_and_le1 and.commute)

lemma control_write_wf:
  assumes "mbc3_wf p s"
  shows "mbc3_wf p (apply_control_write_for p a v s)"
proof -
  have "1 \<le> max_bank (prof_rom_size p)" by (cases "prof_rom_size p") simp_all
  then show ?thesis using assms
    by (auto simp: mbc3_wf_def apply_control_write_for_def bank_mask_def Let_def word_and_le)
qed

lemma control_write_above: "0x6000 \<le> a \<Longrightarrow> apply_control_write_for p a v s = s"
  by (auto simp: apply_control_write_for_def word_le_nat_alt)

text \<open>The word arithmetic of the address maps does not wrap.\<close>

lemma unat_map_rom_for:
  "unat (map_rom_for s p a) =
     (if unat a < 0x4000 then unat a else unat (rom_bank s) * 0x4000 + (unat a - 0x4000))"
proof -
  have a: "unat a < 65536" and b: "unat (rom_bank s) < 256" by simp_all
  have m: "unat (ucast (rom_bank s) * (0x4000 :: u32)) = unat (rom_bank s) * 0x4000"
    using b by (simp add: unat_word_ariths del: unat_less_256)
  have d: "unat (ucast a - (0x4000 :: u32)) = unat a - 0x4000" if "0x4000 \<le> unat a"
    using that by (simp add: unat_sub_cases word_le_nat_alt)
  show ?thesis
    using a b m d
    by (auto simp: map_rom_for_def ROM_BANK_BYTES_def word_less_nat_alt unat_add_cases
        simp del: unat_less_65536 unat_less_256)
qed

lemma map_rom_bound:
  assumes "mbc3_wf p s" "unat a < 0x8000"
  shows "unat (map_rom_for s p a) < rom_byte_length (prof_rom_size p)"
proof -
  have "unat (rom_bank s) \<le> unat (max_bank (prof_rom_size p))"
    using assms(1) by (simp add: mbc3_wf_def word_le_nat_alt)
  then show ?thesis using assms(2)
    by (cases "prof_rom_size p") (auto simp: unat_map_rom_for)
qed

lemma unat_window_ram:
  assumes "external_window_for s p a = Win_Ram i"
  shows "unat i = 0x10000 + unat (ram_rtc_select s) * 0x2000 + (unat a - 0xa000)"
    and "unat (ram_rtc_select s) \<le> 3" "0xa000 \<le> unat a" "unat a \<le> 0xbfff" "ram_enabled s"
proof -
  from assms show r: "unat (ram_rtc_select s) \<le> 3" "0xa000 \<le> unat a" "unat a \<le> 0xbfff"
      "ram_enabled s"
    by (auto simp: external_window_for_def word_le_nat_alt split: if_splits)
  have i: "i = 0x10000 + ucast (ram_rtc_select s) * 0x2000 + (ucast a - 0xa000)"
    using assms by (auto simp: external_window_for_def SRAM_PHYSICAL_BASE_def SRAM_BANK_BYTES_def
        split: if_splits)
  have m: "unat (ucast (ram_rtc_select s) * (0x2000 :: u32)) = unat (ram_rtc_select s) * 0x2000"
    using r by (simp add: unat_mult_lem [THEN iffD1])
  have d: "unat (ucast a - (0xa000 :: u32)) = unat a - 0xa000"
    using r by (simp add: unat_sub_cases word_le_nat_alt)
  show "unat i = 0x10000 + unat (ram_rtc_select s) * 0x2000 + (unat a - 0xa000)"
    unfolding i using r m d by (simp add: unat_add_cases)
qed

lemma map_ram_range: "external_window_for s p a = Win_Ram i \<Longrightarrow> 0x10000 \<le> unat i \<and> unat i < 0x18000"
  using unat_window_ram [of s p a i] by auto

text \<open>Distinct banks and distinct window addresses reach distinct bytes.\<close>

lemma map_rom_switch_inject:
  assumes "0x4000 \<le> unat a" "unat a < 0x8000" "0x4000 \<le> unat b" "unat b < 0x8000"
  shows "map_rom_for s p a = map_rom_for t q b \<longleftrightarrow> rom_bank s = rom_bank t \<and> a = b"
proof -
  have "map_rom_for s p a = map_rom_for t q b \<longleftrightarrow>
    unat (rom_bank s) * 0x4000 + (unat a - 0x4000) = unat (rom_bank t) * 0x4000 + (unat b - 0x4000)"
    using assms by (auto simp: word_unat_eq_iff unat_map_rom_for)
  also have "\<dots> \<longleftrightarrow> unat (rom_bank s) = unat (rom_bank t) \<and> unat a - 0x4000 = unat b - 0x4000"
    by (rule radix_inject) (use assms in simp_all)
  also have "\<dots> \<longleftrightarrow> unat (rom_bank s) = unat (rom_bank t) \<and> unat a = unat b"
    using assms by auto
  finally show ?thesis by (simp add: word_unat_eq_iff)
qed

lemma map_rom_fixed_switch:
  assumes "mbc3_wf q t" "unat a < 0x4000" "0x4000 \<le> unat b"
  shows "map_rom_for s p a \<noteq> map_rom_for t q b"
proof -
  have "0 < unat (rom_bank t)" using assms(1) by (simp add: mbc3_wf_def unat_gt_0)
  then have "0x4000 \<le> unat (map_rom_for t q b)" using assms(3) by (simp add: unat_map_rom_for)
  then show ?thesis using assms(2) by (auto simp: unat_map_rom_for word_unat_eq_iff)
qed

lemma map_ram_inject:
  assumes "external_window_for s p a = Win_Ram i" "external_window_for t q b = Win_Ram j"
  shows "i = j \<longleftrightarrow> ram_rtc_select s = ram_rtc_select t \<and> a = b"
proof -
  note first = unat_window_ram [OF assms(1)] and second = unat_window_ram [OF assms(2)]
  have "i = j \<longleftrightarrow> unat (ram_rtc_select s) * 0x2000 + (unat a - 0xa000) = unat (ram_rtc_select t) * 0x2000 + (unat b - 0xa000)"
    by (simp add: word_unat_eq_iff first(1) second(1))
  also have "\<dots> \<longleftrightarrow> unat (ram_rtc_select s) = unat (ram_rtc_select t) \<and> unat a - 0xa000 = unat b - 0xa000"
    by (rule radix_inject) (use first second in simp_all)
  also have "\<dots> \<longleftrightarrow> unat (ram_rtc_select s) = unat (ram_rtc_select t) \<and> unat a = unat b"
    using first(3) second(3) by auto
  finally show ?thesis by (simp add: word_unat_eq_iff)
qed

section \<open>Reachable mappers\<close>

text \<open>The states control writes reach from the initial state or from one the constructor accepts.\<close>

inductive mbc3_reachable :: "mbc3_cartridge_profile \<Rightarrow> mbc3_state \<Rightarrow> bool" for p where
  initial: "mbc3_reachable p mbc3_profile_initial"
| parts: "from_profile_parts p e b r = Inr s \<Longrightarrow> mbc3_reachable p s"
| control: "mbc3_reachable p s \<Longrightarrow> mbc3_reachable p (apply_control_write_for p a v s)"

lemma mbc3_reachable_wf: "mbc3_reachable p s \<Longrightarrow> mbc3_wf p s"
  by (induction rule: mbc3_reachable.induct) (simp_all add: from_profile_parts_iff control_write_wf)

end
