(* ===== verification/Device_Properties.thy ===== *)
theory Device_Properties
  imports Dmg_Clock Mbc3
begin

text \<open>
  The properties of the DMG devices and of the cartridge mapper: the invariant of the device
  state over every operation, the register map, exact timer and HALT behaviour, interrupt
  priority, OAM DMA, and the address maps of MBC3.
\<close>

section \<open>Reachable device states\<close>

text \<open>
  The operations other components apply to a device state: register writes, clocking, joypad
  samples, interrupt acknowledgement, HALT skips and the DMA scheduler, each with the guard its
  callers establish.
\<close>

inductive dmg_step :: "dmg_device_state \<Rightarrow> dmg_device_state \<Rightarrow> bool" where
  mmio_write: "write_mmio a v s = Some (b, s') \<Longrightarrow> dmg_step s s'"
| clock: "dmg_step s (advance_m_cycles m s)"
| joypad: "sample_joypad b s = (v, s') \<Longrightarrow> dmg_step s s'"
| acknowledge: "pending_interrupt s = Some i \<Longrightarrow> dmg_step s (acknowledge_interrupt i s)"
| skip: "dmg_step s (advance_quiet_long n s)"
| schedule: "active \<longrightarrow> dma_active s \<Longrightarrow> dmg_step s (schedule_dma_bytes m active s)"
| transfer: "dma_owed s \<noteq> 0 \<Longrightarrow> dmg_step s (complete_dma_byte s)"

inductive dmg_reachable :: "dmg_device_state \<Rightarrow> bool" where
  empty: "dmg_reachable dmg_empty"
| boot: "dmg_reachable dmg_post_boot"
| step: "dmg_reachable s \<Longrightarrow> dmg_step s s' \<Longrightarrow> dmg_reachable s'"

lemma dmg_step_wf: "dmg_step s s' \<Longrightarrow> dmg_wf s \<Longrightarrow> dmg_wf s'"
proof (induction rule: dmg_step.induct)
  case (mmio_write a v s b s')
  then show ?case using dmg.wr_wf by blast
next
  case (joypad b s v s')
  then show ?case using sample_joypad_wf [of s b] by simp
qed (simp_all add: advance_m_cycles_wf acknowledge_wf advance_quiet_long_wf schedule_dma_wf complete_dma_wf)

text \<open>C31: Every device state reachable from either initial state by register writes, clocking,
  joypad samples, interrupt acknowledgements, HALT skips and DMA transfers is well formed: the
  interrupt registers hold five bits, the PPU position is a dot of the 154-line frame, the
  reload phase, serial countdown and DMA cursor are in range, and owed DMA bytes never exceed
  what is left of the transfer.\<close>

theorem dmg_invariant:
  assumes "dmg_reachable s"
  shows "dmg_wf s"
  using assms by (induction rule: dmg_reachable.induct) (simp_all add: dmg_step_wf)

theorem dmg_invariant_witness: "dmg_wf (advance_m_cycles 20 (complete_dma_byte (schedule_dma_bytes 3 True
    (dmg_post_boot\<lparr>dma_source_high := 0xc1, dma_active := True\<rparr>))))"
proof -
  let ?s = "dmg_post_boot\<lparr>dma_source_high := 0xc1, dma_active := True\<rparr>"
  have "write_mmio 0xff46 0xc1 dmg_post_boot = Some (0, ?s)"
    by (simp add: write_mmio_def read_mmio_def write_mmio_register_def dmg_post_boot_def)
  then have "dmg_reachable ?s" by (intro dmg_reachable.step [OF dmg_reachable.boot] dmg_step.mmio_write)
  then have "dmg_reachable (schedule_dma_bytes 3 True ?s)"
    by (rule dmg_reachable.step) (rule dmg_step.schedule, simp)
  then have "dmg_reachable (complete_dma_byte (schedule_dma_bytes 3 True ?s))"
    by (rule dmg_reachable.step)
       (rule dmg_step.transfer, simp add: schedule_dma_bytes_def saturating_sub_def dmg_post_boot_def)
  then show ?thesis by (intro dmg_invariant) (rule dmg_reachable.step, assumption, rule dmg_step.clock)
qed

text \<open>The MMIO register map is total on its addresses and nothing else: on a well-formed state
  a write succeeds exactly at the mapped addresses, returns the byte a read would have shown,
  and keeps the state well formed.\<close>

theorem mmio_write_contract:
  assumes "dmg_wf s"
  shows "(if dmg_mapped a
    then (\<exists>b s'. read_mmio s a = Some b \<and> write_mmio a v s = Some (b, s') \<and> dmg_wf s')
    else read_mmio s a = None \<and> write_mmio a v s = None)"
  using dmg.rd_mapped [OF assms] dmg.wr_mapped [OF assms] dmg.wr_unmapped [OF assms]
    dmg.wr_wf [OF assms] by (cases "dmg_mapped a") fastforce+

theorem mmio_write_contract_witness:
  "\<exists>b s'. read_mmio dmg_post_boot 0xff40 = Some b \<and>
     write_mmio 0xff40 0x11 dmg_post_boot = Some (b, s') \<and> dmg_wf s'"
  using mmio_write_contract [where s = dmg_post_boot and a = "0xff40" and v = "0x11"]
  by (simp add: dmg_mapped_def)

section \<open>Timer and HALT\<close>

text \<open>C32: The closed-form distance to the timer interrupt is exact: it is defined exactly for an
  enabled timer with no reload pending and a settled edge latch, ticking that many T-cycles
  raises the timer interrupt, and no shorter run of ticks raises anything.\<close>

theorem timer_distance_exact:
  "case t_cycles_until_interrupt t of
     None \<Rightarrow> \<not> timer_armed t
   | Some n \<Rightarrow> timer_armed t \<and> fst (timer_ticks (unat n) t) = TIMER_INTERRUPT \<and>
       (\<forall>k. k < unat n \<longrightarrow> fst (timer_ticks k t) = 0)"
  using until_interrupt_armed [of t] until_interrupt_exact [of t]
  by (auto split: option.split)

theorem timer_distance_exact_witness:
  "fst (timer_ticks 20 (timer_empty\<lparr>tm_counter := 0xff, tm_control := 5\<rparr>)) = 0"
proof -
  have "t_cycles_until_interrupt (timer_empty\<lparr>tm_counter := 0xff, tm_control := 5\<rparr>) = Some 21"
    by (simp add: t_cycles_until_interrupt_def timer_empty_def detector_input_def timer_period_def
        checked_add_def Let_def)
  then show ?thesis
    using timer_distance_exact [of "timer_empty\<lparr>tm_counter := 0xff, tm_control := 5\<rparr>"] by simp
qed

text \<open>C35: Clocking the devices runs them one T-cycle at a time: a count of M-cycles is four times as
  many T-cycles, saturating at 255, so two counts compose to their sum as long as the sum is at
  most 63; the chunked long advance never saturates, is that many single M-cycles, and composes
  for all counts whose sum fits its type.\<close>

theorem clock_composition:
  "advance_m_cycles a s = (device_t_cycle ^^ min 255 (4 * unat a)) s \<and>
   (unat a + unat b \<le> 63 \<longrightarrow>
      advance_m_cycles b (advance_m_cycles a s) = advance_m_cycles (a + b) s) \<and>
   advance_quiet_long n s = (device_t_cycle ^^ (4 * unat n)) s \<and>
   advance_quiet_long n s = (advance_m_cycles 1 ^^ unat n) s \<and>
   (unat m + unat n < 2 ^ 32 \<longrightarrow>
      advance_quiet_long n (advance_quiet_long m s) = advance_quiet_long (m + n) s)"
proof -
  have "advance_m_cycles b (advance_m_cycles a s) = advance_m_cycles (a + b) s"
    if "unat a + unat b \<le> 63"
  proof -
    have "unat (a + b) = unat a + unat b" using that by (simp add: unat_add_cases)
    then show ?thesis using that
      by (simp add: advance_m_cycles_clock clock_add [symmetric] distrib_left)
  qed
  moreover have "advance_quiet_long n (advance_quiet_long m s) = advance_quiet_long (m + n) s"
    if "unat m + unat n < 2 ^ 32"
  proof -
    have "unat (m + n) = unat m + unat n" using that by (simp add: unat_add_cases)
    then show ?thesis by (simp add: quiet_long_clock clock_add [symmetric] distrib_left)
  qed
  ultimately show ?thesis
    using advance_m_cycles_saturates [of a s] quiet_long_clock [of n s] clock_mult [of "unat n" s]
    by (simp add: clock_t_cycles)
qed

theorem clock_composition_witness:
  "advance_m_cycles 3 (advance_m_cycles 60 dmg_post_boot) = advance_m_cycles 63 dmg_post_boot \<and>
   advance_quiet_long 40 (advance_quiet_long 100 dmg_post_boot) = advance_quiet_long 140 dmg_post_boot"
proof -
  have sums: "60 + 3 = (63 :: u8)" "100 + 40 = (140 :: u32)" by simp_all
  have "unat (60 :: u8) + unat (3 :: u8) \<le> 63" "unat (100 :: u32) + unat (40 :: u32) < 2 ^ 32" by simp_all
  then show ?thesis using clock_composition [of 60 dmg_post_boot 3 40 100, unfolded sums] by blast
qed

text \<open>C33: The long HALT skip to VBlank is exact: when it is offered for a well-formed state, it
  equals that many single M-cycles, the VBlank interrupt is pending afterwards, and no interrupt
  is pending after any smaller number of M-cycles.\<close>

theorem halt_vblank_exact:
  assumes "dmg_wf s" "halt_until_vblank_m_cycles s = Some n"
  shows "advance_halt_until_vblank n s = (advance_m_cycles 1 ^^ unat n) s \<and>
    pending_interrupt (advance_halt_until_vblank n s) = Some Int_VBlank \<and>
    (\<forall>k < unat n. pending_interrupt ((advance_m_cycles 1 ^^ k) s) = None)"
proof -
  have eq: "advance_halt_until_vblank n s = (advance_m_cycles 1 ^^ unat n) s"
    by (simp add: advance_halt_until_vblank_def quiet_long_clock clock_mult)
  have "pending_interrupt s = None" "bit (interrupt_enable s) 0"
    using assms(2) word_and_bit_5(1) [of "interrupt_enable s"]
    by (auto simp: halt_until_vblank_m_cycles_def split: if_splits)
  with halt_vblank_raise [OF assms]
    halt_exact [of "unat n" s "4 * unat n" Int_VBlank]
  show ?thesis unfolding eq by simp
qed

theorem halt_vblank_exact_witness:
  "pending_interrupt (advance_halt_until_vblank 16416
     (dmg_post_boot\<lparr>interrupt_request := 0, interrupt_enable := 1\<rparr>)) = Some Int_VBlank"
proof -
  let ?s = "dmg_post_boot\<lparr>interrupt_request := 0, interrupt_enable := 1\<rparr>"
  have "halt_until_vblank_m_cycles ?s = Some 16416" by code_simp
  moreover have "dmg_wf ?s" using dmg_initial_wf(2) by (simp add: dmg_wf_def)
  ultimately show ?thesis using halt_vblank_exact [of ?s 16416] by blast
qed

text \<open>The long HALT skip to serial completion is exact in the same sense.\<close>

theorem halt_serial_exact:
  assumes "halt_until_serial_m_cycles s = Some n"
  shows "advance_halt_until_serial n s = (advance_m_cycles 1 ^^ unat n) s \<and>
    pending_interrupt (advance_halt_until_serial n s) = Some Int_Serial \<and>
    (\<forall>k < unat n. pending_interrupt ((advance_m_cycles 1 ^^ k) s) = None)"
proof -
  have eq: "advance_halt_until_serial n s = (advance_m_cycles 1 ^^ unat n) s"
    by (simp add: advance_halt_until_serial_def quiet_long_clock clock_mult)
  have "pending_interrupt s = None" "bit (interrupt_enable s) 3"
    using assms word_and_bit_5(4) [of "interrupt_enable s"]
    by (auto simp: halt_until_serial_m_cycles_def split: if_splits)
  with halt_serial_raise [OF assms]
    halt_exact [of "unat n" s "4 * unat n" Int_Serial]
  show ?thesis unfolding eq by simp
qed

theorem halt_serial_exact_witness:
  "pending_interrupt (advance_halt_until_serial 1024 (dmg_empty\<lparr>interrupt_enable := 8,
     serial_control := 0x81, serial_cycles_remaining := 4096\<rparr>)) = Some Int_Serial"
proof -
  let ?s = "dmg_empty\<lparr>interrupt_enable := 8, serial_control := 0x81, serial_cycles_remaining := 4096\<rparr>"
  have "halt_until_serial_m_cycles ?s = Some 1024" by code_simp
  then show ?thesis using halt_serial_exact [of ?s 1024] by blast
qed

text \<open>The long HALT skip to the timer is exact in the same sense: the T-cycle distance is
  rounded up to the M-cycle that contains the interrupt.\<close>

theorem halt_timer_exact:
  assumes "halt_until_timer_m_cycles s = Some n"
  shows "advance_halt_until_timer n s = (advance_m_cycles 1 ^^ unat n) s \<and>
    pending_interrupt (advance_halt_until_timer n s) = Some Int_Timer \<and>
    (\<forall>k < unat n. pending_interrupt ((advance_m_cycles 1 ^^ k) s) = None)"
proof -
  have eq: "advance_halt_until_timer n s = (advance_m_cycles 1 ^^ unat n) s"
    by (simp add: advance_halt_until_timer_def quiet_long_clock clock_mult)
  have g: "pending_interrupt s = None" "bit (interrupt_enable s) 2"
    using assms word_and_bit_5(3) [of "interrupt_enable s"]
    by (auto simp: halt_until_timer_m_cycles_def split: if_splits)
  obtain t :: u32 where t: "unat n = (unat t + 3) div 4"
      "\<forall>k \<le> unat t + 3. interrupt_request (clock k s) =
        interrupt_request s OR (if unat t \<le> k then 0x04 else 0)"
    using halt_timer_raise [OF assms] by blast
  have "4 * unat n \<le> unat t + 3" "unat t \<le> 4 * unat n" "4 * unat n < unat t + 4"
    using t(1) by linarith+
  with t(2) g halt_exact [of "unat n" s "unat t" Int_Timer]
  show ?thesis unfolding eq by simp
qed

theorem halt_timer_exact_witness:
  "pending_interrupt (advance_halt_until_timer 1026 (dmg_empty\<lparr>interrupt_enable := 4,
     dev_timer := timer_empty\<lparr>tm_control := 5\<rparr>\<rparr>)) = Some Int_Timer"
proof -
  let ?s = "dmg_empty\<lparr>interrupt_enable := 4, dev_timer := timer_empty\<lparr>tm_control := 5\<rparr>\<rparr>"
  have "halt_until_timer_m_cycles ?s = Some 1026"
    by (simp add: halt_until_timer_m_cycles_def pending_interrupt_def lcd_enabled_def dmg_empty_def
        t_cycles_until_interrupt_def timer_empty_def detector_input_def timer_period_def
        checked_add_def Let_def)
  then show ?thesis using halt_timer_exact [of ?s 1026] by blast
qed

text \<open>C34: The bounded HALT projection returns between one and six M-cycles, no interrupt is pending
  after any smaller positive number of M-cycles, and a result below six stops at a pending
  interrupt.\<close>

theorem halt_idle_exact:
  "let e = unat (halt_idle_m_cycles s)
   in 1 \<le> e \<and> e \<le> 6 \<and>
      (\<forall>k. 0 < k \<and> k < e \<longrightarrow> pending_interrupt ((advance_m_cycles 1 ^^ k) s) = None) \<and>
      (e < 6 \<longrightarrow> pending_interrupt ((advance_m_cycles 1 ^^ e) s) \<noteq> None)"
  using halt_idle_first [where s = s] by (auto simp: Let_def)

theorem halt_idle_exact_witness: "pending_interrupt ((advance_m_cycles 1 ^^ 3) dmg_empty) = None"
proof -
  have "halt_idle_m_cycles dmg_empty = 6" by code_simp
  then show ?thesis using halt_idle_exact [of dmg_empty] by (simp add: Let_def)
qed

section \<open>Interrupts\<close>

text \<open>Interrupt selection takes the lowest requested and enabled line, and acknowledging it
  clears exactly that request bit, so a lower-priority request is never lost.\<close>

theorem interrupt_priority:
  assumes "pending_interrupt s = Some i"
  shows "bit (interrupt_request s) (interrupt_bit i) \<and> bit (interrupt_enable s) (interrupt_bit i) \<and>
    (\<forall>j < interrupt_bit i. \<not> (bit (interrupt_request s) j \<and> bit (interrupt_enable s) j)) \<and>
    (\<forall>k. bit (interrupt_request (acknowledge_interrupt i s)) k =
       (bit (interrupt_request s) k \<and> k \<noteq> interrupt_bit i))"
  using assms by (auto simp: pending_interrupt_iff acknowledge_bits bit_and_iff)

theorem interrupt_priority_witness:
  "bit (interrupt_request (dmg_post_boot\<lparr>interrupt_enable := 0x1f\<rparr>)) (interrupt_bit Int_VBlank)"
  using interrupt_priority [of "dmg_post_boot\<lparr>interrupt_enable := 0x1f\<rparr>" Int_VBlank]
  by (simp add: pending_interrupt_def dmg_post_boot_def)

section \<open>OAM DMA\<close>

text \<open>A DMA register write copies exactly the 160 OAM bytes: the n-th completed byte reads
  source page plus n and writes OAM plus n, and the transfer stops being active after byte 159.\<close>

theorem dma_transfer:
  assumes "write_mmio 0xff46 page s = Some (b, s')" "n \<le> 160"
  shows "let u = (complete_dma_byte ^^ n) s'
    in dma_active u = (n < 160) \<and>
       unat (dma_source_address u) = 256 * unat page + n \<and>
       unat (dma_destination_address u) = 0xfe00 + n"
proof -
  have s': "dma_index s' = 0" "dma_active s'" "dma_source_high s' = page"
    using assms(1) by (auto simp: write_mmio_def write_mmio_register_def Let_def split: bind_splits)
  from dma_run [OF s'(1,2) assms(2)] show ?thesis
    by (simp add: Let_def dma_addresses s'(3))
qed

theorem dma_transfer_witness:
  "let u = (complete_dma_byte ^^ 160)
        (dmg_post_boot\<lparr>dma_source_high := 0xc1, dma_index := 0, dma_active := True, dma_owed := 0\<rparr>)
   in dma_active u = (160 < (160 :: nat)) \<and> unat (dma_source_address u) = 256 * unat (0xc1 :: u8) + 160 \<and>
      unat (dma_destination_address u) = 0xfe00 + 160"
proof -
  have "write_mmio 0xff46 0xc1 dmg_post_boot = Some (0, dmg_post_boot\<lparr>dma_source_high := 0xc1,
      dma_index := 0, dma_active := True, dma_owed := 0\<rparr>)"
    by (simp add: write_mmio_def read_mmio_def write_mmio_register_def dmg_post_boot_def)
  from dma_transfer [OF this, of 160] show ?thesis by simp
qed

section \<open>Cartridge mapper\<close>

text \<open>C40: Every mapper that control writes reach from the initial state or from one the validated
  constructor accepts is itself accepted by the constructor.  Its ROM windows map inside the
  cartridge, the fixed window to bank zero and the switchable one never to it, and distinct switchable
  banks or addresses reach distinct ROM bytes; its RAM window maps inside the 32-KiB battery SRAM
  range, and distinct RAM banks or addresses reach distinct RAM bytes.\<close>

theorem mbc3_mapping_safe:
  assumes "mbc3_reachable p s" "mbc3_reachable p t"
  shows "from_profile_parts p (ram_enabled s) (rom_bank s) (ram_rtc_select s) = Inr s \<and>
    (unat w < 0x8000 \<longrightarrow> unat (map_rom_for s p w) < rom_byte_length (prof_rom_size p)) \<and>
    (unat w < 0x4000 \<longrightarrow> unat (map_rom_for s p w) = unat w) \<and>
    (unat w < 0x4000 \<and> 0x4000 \<le> unat x \<and> unat x < 0x8000 \<longrightarrow> map_rom_for s p w \<noteq> map_rom_for t p x) \<and>
    (0x4000 \<le> unat w \<and> unat w < 0x8000 \<and> 0x4000 \<le> unat x \<and> unat x < 0x8000 \<longrightarrow>
       (map_rom_for s p w = map_rom_for t p x) = (rom_bank s = rom_bank t \<and> w = x)) \<and>
    (external_window_for s p w = Win_Ram i \<longrightarrow> 0x10000 \<le> unat i \<and> unat i < 0x18000) \<and>
    (external_window_for s p w = Win_Ram i \<and> external_window_for t p x = Win_Ram j \<longrightarrow>
       (i = j) = (ram_rtc_select s = ram_rtc_select t \<and> w = x))"
proof (intro conjI impI)
  note wf = assms [THEN mbc3_reachable_wf]
  show "from_profile_parts p (ram_enabled s) (rom_bank s) (ram_rtc_select s) = Inr s"
    using wf(1) by (simp add: from_profile_parts_iff)
  show "unat (map_rom_for s p w) < rom_byte_length (prof_rom_size p)" if "unat w < 0x8000"
    using map_rom_bound [OF wf(1) that] .
  show "unat (map_rom_for s p w) = unat w" if "unat w < 0x4000"
    using that by (simp add: unat_map_rom_for)
  show "map_rom_for s p w \<noteq> map_rom_for t p x" if "unat w < 0x4000 \<and> 0x4000 \<le> unat x \<and> unat x < 0x8000"
    using that map_rom_fixed_switch [OF wf(2)] by blast
  show "(map_rom_for s p w = map_rom_for t p x) = (rom_bank s = rom_bank t \<and> w = x)"
    if "0x4000 \<le> unat w \<and> unat w < 0x8000 \<and> 0x4000 \<le> unat x \<and> unat x < 0x8000"
    using that map_rom_switch_inject by blast
  show "0x10000 \<le> unat i" "unat i < 0x18000" if "external_window_for s p w = Win_Ram i"
    using map_ram_range [OF that] by simp_all
  show "(i = j) = (ram_rtc_select s = ram_rtc_select t \<and> w = x)"
    if "external_window_for s p w = Win_Ram i \<and> external_window_for t p x = Win_Ram j"
    using that map_ram_inject by blast
qed

text \<open>RAM bank two of an enabled cartridge and bank three, at the same address.\<close>

theorem mbc3_mapping_safe_witness:
  "\<exists>s t i j. mbc3_reachable one_mib_no_rtc s \<and> mbc3_reachable one_mib_no_rtc t \<and>
     external_window_for s one_mib_no_rtc 0xa000 = Win_Ram i \<and> external_window_for t one_mib_no_rtc 0xa000 = Win_Ram j \<and>
     i = 0x14000 \<and> j = 0x16000 \<and> i \<noteq> j \<and> unat (map_rom_for s one_mib_no_rtc 0x7fff) < rom_byte_length Rom1MiB"
proof -
  let ?c = "apply_control_write_for one_mib_no_rtc"
  let ?s = "?c 0x4000 2 (?c 0 0x0a mbc3_profile_initial)" and ?t = "?c 0x4000 3 (?c 0 0x0a mbc3_profile_initial)"
  have reach: "mbc3_reachable one_mib_no_rtc ?s" "mbc3_reachable one_mib_no_rtc ?t"
    by (intro mbc3_reachable.intros)+
  have windows: "external_window_for ?s one_mib_no_rtc 0xa000 = Win_Ram 0x14000" "external_window_for ?t one_mib_no_rtc 0xa000 = Win_Ram 0x16000"
    by (simp_all add: external_window_for_def apply_control_write_for_def mbc3_profile_initial_def SRAM_PHYSICAL_BASE_def SRAM_BANK_BYTES_def)
  have selects: "ram_rtc_select ?s \<noteq> ram_rtc_select ?t"
    by (simp add: apply_control_write_for_def mbc3_profile_initial_def)
  have "unat (map_rom_for ?s one_mib_no_rtc 0x7fff) < rom_byte_length Rom1MiB"
    using mbc3_mapping_safe [OF reach, of "0x7fff"] by (simp add: one_mib_no_rtc_def)
  moreover have "(0x14000 :: u32) \<noteq> 0x16000"
    using mbc3_mapping_safe [OF reach, of "0xa000" "0xa000" "0x14000" "0x16000"] windows selects by blast
  ultimately show ?thesis using reach windows by blast
qed

end
