(* ===== verification/Commitment.thy ===== *)
theory Commitment
  imports Prelude
begin

text \<open>
  Commitment roots and domain-separated hashing (\<open>zksm83-memory/src/commitment.rs\<close>).

  SHA-256 comes from a crate outside the repository, so it is the parameter \<open>sha\<close> of every
  definition that hashes: a function from the bytes fed to it to a 32-byte digest.  Nothing is
  assumed of it.  The security statements of the development exhibit a collision: two different
  messages, among those the code hashes, with the same digest.
\<close>

section \<open>Roots\<close>

text \<open>
  \<open>CommitmentRoot([u8; 32])\<close> is the 256-bit word whose bytes, least significant first, are the
  array; the fixed length of the array is the width of the word.
\<close>

type_synonym commitment_root = "256 word"

type_synonym digest = "u8 list \<Rightarrow> commitment_root"

definition root_zero :: commitment_root where
  "root_zero = 0"

definition root_to_bytes :: "commitment_root \<Rightarrow> u8 list" where
  "root_to_bytes r = to_le_bytes r"

lemma length_root_to_bytes [simp]: "length (root_to_bytes r) = 32"
  by (simp add: root_to_bytes_def)

lemma root_to_bytes_inject [simp]: "root_to_bytes r = root_to_bytes s \<longleftrightarrow> r = s"
  by (simp add: root_to_bytes_def to_le_bytes_inject)

section \<open>Domain separation\<close>

datatype hash_domain =
    RomLeaf | MemoryLeaf | RomNode u8 | MemoryNode u8 | InputEmpty | OutputEmpty
  | InputElement | OutputElement | BusTranscriptEmpty | BusTranscriptElement
  | IsaTranscriptEmpty | IsaTranscriptElement

fun hash_domain_code :: "hash_domain \<Rightarrow> u16" where
  "hash_domain_code RomLeaf = 0x1000"
| "hash_domain_code MemoryLeaf = 0x2000"
| "hash_domain_code (RomNode level) = 0x3000 + ucast level"
| "hash_domain_code (MemoryNode level) = 0x4000 + ucast level"
| "hash_domain_code InputEmpty = 0x5000"
| "hash_domain_code OutputEmpty = 0x6000"
| "hash_domain_code InputElement = 0x7000"
| "hash_domain_code OutputElement = 0x8000"
| "hash_domain_code BusTranscriptEmpty = 0x9000"
| "hash_domain_code BusTranscriptElement = 0xa000"
| "hash_domain_code IsaTranscriptEmpty = 0xb000"
| "hash_domain_code IsaTranscriptElement = 0xc000"

definition HASH_PROTOCOL :: "u8 list" where
  "HASH_PROTOCOL = map of_char ''zksm83/witness-auth-sha256/v1''"

text \<open>The bytes the hasher has consumed when \<open>hash_parts\<close> finalizes it.\<close>

definition hash_preimage :: "hash_domain \<Rightarrow> u8 list \<Rightarrow> u8 list \<Rightarrow> u8 list" where
  "hash_preimage domain left right =
     HASH_PROTOCOL @ to_le_bytes (hash_domain_code domain)
       @ to_le_bytes (word_of_nat (length left) :: u128) @ left
       @ to_le_bytes (word_of_nat (length right) :: u128) @ right"

definition hash_parts :: "digest \<Rightarrow> hash_domain \<Rightarrow> u8 list \<Rightarrow> u8 list \<Rightarrow> commitment_root" where
  "hash_parts sha domain left right = sha (hash_preimage domain left right)"

section \<open>Injectivity of the encoding\<close>

text \<open>The high nibble of the code is the kind of the domain, the rest its level.\<close>

lemma level_code [simp]:
  "unat (0x3000 + ucast (l :: u8) :: u16) = 0x3000 + unat l"
  "unat (0x4000 + ucast (l :: u8) :: u16) = 0x4000 + unat l"
proof -
  have "unat l < 256" by simp
  then show "unat (0x3000 + ucast l :: u16) = 0x3000 + unat l"
    "unat (0x4000 + ucast l :: u16) = 0x4000 + unat l"
    by (simp_all add: unat_add_cases del: unat_less_256)
qed

lemma level_code_div [simp]:
  "(0x3000 + unat (l :: u8)) div 0x1000 = 3" "(0x4000 + unat (l :: u8)) div 0x1000 = 4"
proof -
  have "unat l < 256" by simp
  then show "(0x3000 + unat l) div 0x1000 = 3" "(0x4000 + unat l) div 0x1000 = 4"
    by (auto intro!: div_nat_eqI simp del: unat_less_256)
qed

lemma hash_domain_code_inject: "hash_domain_code d = hash_domain_code d' \<longleftrightarrow> d = d'"
proof
  assume "hash_domain_code d = hash_domain_code d'"
  then have eq: "unat (hash_domain_code d) = unat (hash_domain_code d')" by simp
  then have "unat (hash_domain_code d) div 0x1000 = unat (hash_domain_code d') div 0x1000" by simp
  then have "d = d' \<or> (\<exists>l l'. d = RomNode l \<and> d' = RomNode l') \<or>
      (\<exists>l l'. d = MemoryNode l \<and> d' = MemoryNode l')"
    by (cases d; cases d'; simp)
  with eq show "d = d'" by (auto simp: word_unat_eq_iff)
qed simp

lemma length_word_inject:
  assumes "length xs < 2 ^ 128" "length ys < 2 ^ 128"
  shows "to_le_bytes (word_of_nat (length xs) :: u128) = to_le_bytes (word_of_nat (length ys) :: u128)
    \<longleftrightarrow> length xs = length ys"
proof -
  have "unat (word_of_nat (length xs) :: u128) = length xs"
    "unat (word_of_nat (length ys) :: u128) = length ys"
    using assms by (simp_all add: unat_of_nat)
  moreover have "to_le_bytes v = to_le_bytes w \<longleftrightarrow> v = w" for v w :: u128
    by (rule to_le_bytes_inject) simp
  ultimately show ?thesis by metis
qed

lemma hash_preimage_inject:
  assumes "length l < 2 ^ 128" "length l' < 2 ^ 128"
  shows "hash_preimage d l r = hash_preimage d' l' r' \<longleftrightarrow> d = d' \<and> l = l' \<and> r = r'"
proof
  assume eq: "hash_preimage d l r = hash_preimage d' l' r'"
  then have "to_le_bytes (hash_domain_code d) = to_le_bytes (hash_domain_code d')"
    and len: "to_le_bytes (word_of_nat (length l) :: u128) = to_le_bytes (word_of_nat (length l') :: u128)"
    and rest: "l @ to_le_bytes (word_of_nat (length r) :: u128) @ r =
       l' @ to_le_bytes (word_of_nat (length r') :: u128) @ r'"
    by (simp_all add: hash_preimage_def)
  then have "d = d'" "length l = length l'"
    using length_word_inject [OF assms] by (simp_all add: to_le_bytes_inject hash_domain_code_inject)
  with rest show "d = d' \<and> l = l' \<and> r = r'" by simp
qed simp

section \<open>Collisions\<close>

definition collide :: "digest \<Rightarrow> u8 list \<Rightarrow> u8 list \<Rightarrow> bool" where
  "collide sha x y \<longleftrightarrow> x \<noteq> y \<and> sha x = sha y"

text \<open>Two message lists that hold a collision of \<open>sha\<close>, one message from each.\<close>

definition collision_in :: "digest \<Rightarrow> u8 list list \<Rightarrow> u8 list list \<Rightarrow> bool" where
  "collision_in sha xs ys \<longleftrightarrow> (\<exists>x \<in> set xs. \<exists>y \<in> set ys. collide sha x y)"

lemma collision_in_Cons [intro]:
  "collide sha x y \<Longrightarrow> collision_in sha (x # xs) (y # ys)"
  "collision_in sha xs ys \<Longrightarrow> collision_in sha (x # xs) (y # ys)"
  by (auto simp: collision_in_def)

lemma hash_parts_inject:
  assumes "hash_parts sha d l r = hash_parts sha d' l' r'"
    and "length l < 2 ^ 128" "length l' < 2 ^ 128"
  shows "(d = d' \<and> l = l' \<and> r = r') \<or>
    collide sha (hash_preimage d l r) (hash_preimage d' l' r')"
  using assms hash_preimage_inject [OF assms(2,3)] by (auto simp: hash_parts_def collide_def)

end
