(* ===== verification/Merkle.thy ===== *)
theory Merkle
  imports Commitment
begin

text \<open>
  Merkle authentication of single bytes: the root derivation of \<open>transcript.rs\<close>, the reference
  root of a byte function over the 20-level tree, and the two facts every user needs: an honest
  path derives the reference root of the updated bytes (completeness), and two derivations of
  one root at one address agree unless a collision is among the messages they hash (binding).
\<close>

section \<open>Nodes\<close>

datatype tree_kind = Kind_Rom | Kind_Memory

fun leaf_domain :: "tree_kind \<Rightarrow> hash_domain" where
  "leaf_domain Kind_Rom = RomLeaf"
| "leaf_domain Kind_Memory = MemoryLeaf"

fun node_domain :: "tree_kind \<Rightarrow> u8 \<Rightarrow> hash_domain" where
  "node_domain Kind_Rom level = RomNode level"
| "node_domain Kind_Memory level = MemoryNode level"

lemma node_domain_fun [simp]: "node_domain Kind_Rom = RomNode" "node_domain Kind_Memory = MemoryNode"
  by auto

definition leaf :: "digest \<Rightarrow> tree_kind \<Rightarrow> u8 \<Rightarrow> commitment_root" where
  "leaf sha kind v = hash_parts sha (leaf_domain kind) [v] []"

definition node :: "digest \<Rightarrow> tree_kind \<Rightarrow> u8 \<Rightarrow> commitment_root \<Rightarrow> commitment_root \<Rightarrow> commitment_root" where
  "node sha kind level left right =
     hash_parts sha (node_domain kind level) (root_to_bytes left) (root_to_bytes right)"

section \<open>Paths and root derivation\<close>

text \<open>\<open>[CommitmentRoot; 20]\<close> is a list; \<open>path_wf\<close> is the array length.\<close>

record merkle_path =
  siblings :: "commitment_root list"

definition path_wf :: "merkle_path \<Rightarrow> bool" where
  "path_wf p \<longleftrightarrow> length (siblings p) = 20"

definition lookup_placeholder :: merkle_path where
  "lookup_placeholder = \<lparr>siblings = replicate 20 root_zero\<rparr>"

definition path_from_slice :: "commitment_root list \<Rightarrow> merkle_path option" where
  "path_from_slice values = (if length values = 20 then Some \<lparr>siblings = values\<rparr> else None)"

text \<open>One level of the loop of \<open>derive_root\<close>: the low address bit orders the pair.\<close>

definition derive_pair :: "u32 \<Rightarrow> commitment_root \<Rightarrow> commitment_root \<Rightarrow> commitment_root \<times> commitment_root" where
  "derive_pair address_bits current sibling =
     (if address_bits AND 1 = 0 then (current, sibling) else (sibling, current))"

fun derive_loop ::
  "digest \<Rightarrow> (u8 \<Rightarrow> hash_domain) \<Rightarrow> u8 \<Rightarrow> u32 \<Rightarrow> commitment_root \<Rightarrow> commitment_root list \<Rightarrow> commitment_root" where
  "derive_loop sha node_dom level address_bits current [] = current"
| "derive_loop sha node_dom level address_bits current (sibling # rest) =
     (let (left, right) = derive_pair address_bits current sibling
      in derive_loop sha node_dom (level + 1) (drop_bit 1 address_bits)
           (hash_parts sha (node_dom level) (root_to_bytes left) (root_to_bytes right)) rest)"

definition derive_root ::
  "digest \<Rightarrow> hash_domain \<Rightarrow> (u8 \<Rightarrow> hash_domain) \<Rightarrow> u32 \<Rightarrow> u8 \<Rightarrow> merkle_path \<Rightarrow> commitment_root" where
  "derive_root sha leaf_dom node_dom address v path =
     derive_loop sha node_dom 0 address (hash_parts sha leaf_dom [v] []) (take 20 (siblings path))"

definition mutable_root :: "digest \<Rightarrow> u32 \<Rightarrow> u8 \<Rightarrow> merkle_path \<Rightarrow> commitment_root" where
  "mutable_root sha address v path = derive_root sha MemoryLeaf MemoryNode address v path"

section \<open>Reference tree\<close>

text \<open>
  The node at a level and index of the full tree over a byte function; level zero holds the
  leaves.  The root of the one-MiB commitment is the node at level 20, index 0.
\<close>

primrec tree_node :: "digest \<Rightarrow> tree_kind \<Rightarrow> (nat \<Rightarrow> u8) \<Rightarrow> nat \<Rightarrow> nat \<Rightarrow> commitment_root" where
  "tree_node sha kind f 0 = (\<lambda>i. leaf sha kind (f i))"
| "tree_node sha kind f (Suc l) =
     (\<lambda>i. node sha kind (word_of_nat l)
            (tree_node sha kind f l (2 * i)) (tree_node sha kind f l (2 * i + 1)))"

definition tree_commit :: "digest \<Rightarrow> tree_kind \<Rightarrow> (nat \<Rightarrow> u8) \<Rightarrow> commitment_root" where
  "tree_commit sha kind f = tree_node sha kind f 20 0"

definition sibling_index :: "nat \<Rightarrow> nat" where
  "sibling_index p = (if even p then p + 1 else p - 1)"

definition tree_path :: "digest \<Rightarrow> tree_kind \<Rightarrow> (nat \<Rightarrow> u8) \<Rightarrow> nat \<Rightarrow> merkle_path" where
  "tree_path sha kind f a =
     \<lparr>siblings = map (\<lambda>l. tree_node sha kind f l (sibling_index (a div 2 ^ l))) [0..<20]\<rparr>"

lemma tree_path_wf [simp]: "path_wf (tree_path sha kind f a)"
  by (simp add: path_wf_def tree_path_def)

lemma div_pow2_Suc: "(a :: nat) div 2 ^ Suc l = a div 2 ^ l div 2"
  by (simp only: power_Suc2 div_mult2_eq)

lemma tree_node_cong:
  "(\<And>j. j div 2 ^ l = i \<Longrightarrow> f j = g j) \<Longrightarrow> tree_node sha kind f l i = tree_node sha kind g l i"
proof (induction l arbitrary: i)
  case (Suc l)
  have "f j = g j" if "j div 2 ^ l = 2 * i \<or> j div 2 ^ l = 2 * i + 1" for j
  proof (rule Suc.prems)
    show "j div 2 ^ Suc l = i" unfolding div_pow2_Suc using that by auto
  qed
  then show ?case
    using Suc.IH [of "2 * i"] Suc.IH [of "2 * i + 1"] by simp
qed simp

lemma sibling_index_neq: "sibling_index p \<noteq> p"
  by (auto simp: sibling_index_def elim: oddE)

lemma tree_node_sibling:
  "tree_node sha kind (f(a := v)) l (sibling_index (a div 2 ^ l)) =
   tree_node sha kind f l (sibling_index (a div 2 ^ l))"
  by (rule tree_node_cong) (use sibling_index_neq [of "a div 2 ^ l"] in auto)

text \<open>A parent from a node and its sibling, in the order the parity of the index selects.\<close>

lemma tree_node_parent:
  "tree_node sha kind f (Suc l) (p div 2) =
     (if even p then node sha kind (word_of_nat l) (tree_node sha kind f l p) (tree_node sha kind f l (sibling_index p))
      else node sha kind (word_of_nat l) (tree_node sha kind f l (sibling_index p)) (tree_node sha kind f l p))"
  by (auto simp: sibling_index_def elim!: evenE oddE)

lemma even_and_1: "(b :: u32) AND 1 = 0 \<longleftrightarrow> even (unat b)"
proof -
  have "even b \<longleftrightarrow> even (unat b)"
    using bit_unsigned_iff [of b 0, where ?'a = nat] by (simp add: bit_0)
  then show ?thesis by (simp add: and_one_eq mod_2_eq_odd)
qed

lemma unat_drop_bit_1: "unat (drop_bit 1 (b :: u32)) = unat b div 2"
  unfolding unat_drop_bit_eq by (simp add: drop_bit_eq_div)

lemma derive_loop_honest:
  assumes "unat bits = a div 2 ^ l" "l \<le> n"
  shows "derive_loop sha (node_domain kind) (word_of_nat l) bits
      (tree_node sha kind (f(a := v)) l (a div 2 ^ l))
      (map (\<lambda>k. tree_node sha kind f k (sibling_index (a div 2 ^ k))) [l..<n]) =
    tree_node sha kind (f(a := v)) n (a div 2 ^ n)"
  using assms
proof (induction "n - l" arbitrary: l bits)
  case (Suc m)
  let ?p = "a div 2 ^ l"
  have p: "unat (drop_bit 1 bits) = a div 2 ^ Suc l" "?p div 2 = a div 2 ^ Suc l"
    unfolding div_pow2_Suc unat_drop_bit_1 by (simp_all add: Suc.prems(1))
  have "derive_loop sha (node_domain kind) (word_of_nat (Suc l)) (drop_bit 1 bits)
      (tree_node sha kind (f(a := v)) (Suc l) (a div 2 ^ Suc l))
      (map (\<lambda>k. tree_node sha kind f k (sibling_index (a div 2 ^ k))) [Suc l..<n]) =
    tree_node sha kind (f(a := v)) n (a div 2 ^ n)"
    by (rule Suc.hyps(1)) (use Suc.hyps(2) Suc.prems p in auto)
  moreover have "[l..<n] = l # [Suc l..<n]" using Suc.hyps(2) by (simp add: upt_conv_Cons)
  moreover have "tree_node sha kind (f(a := v)) (Suc l) (a div 2 ^ Suc l) =
      (let (left, right) = derive_pair bits (tree_node sha kind (f(a := v)) l ?p)
             (tree_node sha kind f l (sibling_index ?p))
       in node sha kind (word_of_nat l) left right)"
    unfolding p(2) [symmetric] tree_node_parent
    by (simp add: derive_pair_def even_and_1 Suc.prems tree_node_sibling)
  ultimately show ?case
    by (simp add: node_def Let_def case_prod_unfold add.commute)
qed simp

theorem derive_honest:
  assumes "unat address < 2 ^ 20"
  shows "derive_root sha (leaf_domain kind) (node_domain kind) address v
           (tree_path sha kind f (unat address)) = tree_commit sha kind (f(unat address := v))"
  using derive_loop_honest [of address "unat address" 0 20 sha kind f v] assms
  by (simp add: derive_root_def tree_path_def tree_commit_def leaf_def)

section \<open>Binding\<close>

text \<open>The messages hashed by a derivation, leaf first.\<close>

fun derive_loop_messages ::
  "digest \<Rightarrow> (u8 \<Rightarrow> hash_domain) \<Rightarrow> u8 \<Rightarrow> u32 \<Rightarrow> commitment_root \<Rightarrow> commitment_root list \<Rightarrow> u8 list list" where
  "derive_loop_messages sha node_dom level address_bits current [] = []"
| "derive_loop_messages sha node_dom level address_bits current (sibling # rest) =
     (let (left, right) = derive_pair address_bits current sibling;
          m = hash_preimage (node_dom level) (root_to_bytes left) (root_to_bytes right)
      in m # derive_loop_messages sha node_dom (level + 1) (drop_bit 1 address_bits) (sha m) rest)"

definition derive_messages ::
  "digest \<Rightarrow> hash_domain \<Rightarrow> (u8 \<Rightarrow> hash_domain) \<Rightarrow> u32 \<Rightarrow> u8 \<Rightarrow> merkle_path \<Rightarrow> u8 list list" where
  "derive_messages sha leaf_dom node_dom address v path =
     hash_preimage leaf_dom [v] [] #
       derive_loop_messages sha node_dom 0 address (hash_parts sha leaf_dom [v] []) (take 20 (siblings path))"

lemma derive_loop_binding:
  assumes "length ss = length ss'"
    and "derive_loop sha nd l bits c ss = derive_loop sha nd l bits c' ss'"
  shows "(c = c' \<and> ss = ss') \<or>
    collision_in sha (derive_loop_messages sha nd l bits c ss) (derive_loop_messages sha nd l bits c' ss')"
  using assms
proof (induction ss ss' arbitrary: l bits c c' rule: list_induct2)
  case (Cons s ss s' ss')
  obtain L R where LR: "derive_pair bits c s = (L, R)" by fastforce
  obtain L' R' where LR': "derive_pair bits c' s' = (L', R')" by fastforce
  let ?m = "hash_preimage (nd l) (root_to_bytes L) (root_to_bytes R)"
  let ?m' = "hash_preimage (nd l) (root_to_bytes L') (root_to_bytes R')"
  have "derive_loop sha nd (l + 1) (drop_bit 1 bits) (sha ?m) ss =
        derive_loop sha nd (l + 1) (drop_bit 1 bits) (sha ?m') ss'"
    using Cons.prems by (simp add: LR LR' hash_parts_def)
  from Cons.IH [OF this] consider
      (eq) "sha ?m = sha ?m'" "ss = ss'"
    | (col) "collision_in sha (derive_loop_messages sha nd (l + 1) (drop_bit 1 bits) (sha ?m) ss)
               (derive_loop_messages sha nd (l + 1) (drop_bit 1 bits) (sha ?m') ss')" by blast
  then show ?case
  proof cases
    case eq
    show ?thesis
    proof (cases "?m = ?m'")
      case True
      then have "L = L' \<and> R = R'" by (simp add: hash_preimage_inject)
      then have "c = c' \<and> s = s'" using LR LR' by (auto simp: derive_pair_def split: if_splits)
      with eq show ?thesis by simp
    next
      case False
      with eq have "collide sha ?m ?m'" by (simp add: collide_def)
      then show ?thesis by (auto simp: LR LR' Let_def)
    qed
  next
    case col
    then show ?thesis by (auto simp: LR LR' Let_def)
  qed
qed simp

theorem derive_binding:
  assumes "path_wf p" "path_wf p'"
    and "derive_root sha ld nd a v p = derive_root sha ld nd a v' p'"
  shows "(v = v' \<and> siblings p = siblings p') \<or>
    collision_in sha (derive_messages sha ld nd a v p) (derive_messages sha ld nd a v' p')"
proof -
  from derive_loop_binding [of "siblings p" "siblings p'" sha nd 0 a
      "hash_parts sha ld [v] []" "hash_parts sha ld [v'] []"] assms
  consider (eq) "hash_parts sha ld [v] [] = hash_parts sha ld [v'] []" "siblings p = siblings p'"
    | (col) "collision_in sha
        (derive_loop_messages sha nd 0 a (hash_parts sha ld [v] []) (siblings p))
        (derive_loop_messages sha nd 0 a (hash_parts sha ld [v'] []) (siblings p'))"
    by (auto simp: derive_root_def path_wf_def)
  then show ?thesis
  proof cases
    case eq
    from hash_parts_inject [OF eq(1)] eq(2) show ?thesis by (auto simp: derive_messages_def)
  next
    case col
    then show ?thesis using assms(1,2) by (auto simp: derive_messages_def path_wf_def)
  qed
qed

section \<open>Authenticated stores\<close>

text \<open>
  What a user of a commitment relies on: an honest path, with any byte at its leaf, derives the
  commitment of the store updated at that address.  Reads, writes and whole access sequences
  follow.
\<close>

locale authenticated_store =
  fixes commit :: "(nat \<Rightarrow> u8) \<Rightarrow> commitment_root"
    and path_of :: "(nat \<Rightarrow> u8) \<Rightarrow> nat \<Rightarrow> merkle_path"
    and derive :: "u32 \<Rightarrow> u8 \<Rightarrow> merkle_path \<Rightarrow> commitment_root"
    and messages :: "u32 \<Rightarrow> u8 \<Rightarrow> merkle_path \<Rightarrow> u8 list list"
    and sha :: digest
  assumes update: "unat a < 2 ^ 20 \<Longrightarrow> derive a v (path_of f (unat a)) = commit (f(unat a := v))"
    and path_valid: "path_wf (path_of f i)"
    and binding: "path_wf p \<Longrightarrow> path_wf p' \<Longrightarrow> derive a v p = derive a v' p' \<Longrightarrow>
      (v = v' \<and> siblings p = siblings p') \<or> collision_in sha (messages a v p) (messages a v' p')"
begin

lemma read_complete: "unat a < 2 ^ 20 \<Longrightarrow> derive a (f (unat a)) (path_of f (unat a)) = commit f"
  using update [of a "f (unat a)" f] by simp

lemma read_sound:
  assumes "unat a < 2 ^ 20" "path_wf p" "derive a v p = commit f"
  shows "(v = f (unat a) \<and> p = path_of f (unat a)) \<or>
    collision_in sha (messages a v p) (messages a (f (unat a)) (path_of f (unat a)))"
  using binding [OF assms(2) path_valid, of a v "f (unat a)" f "unat a"] read_complete [OF assms(1)] assms(3)
  by (auto simp: merkle_path.equality)

lemma write_sound:
  assumes "unat a < 2 ^ 20" "path_wf p" "derive a v p = commit f"
  shows "derive a w p = commit (f(unat a := w)) \<or>
    collision_in sha (messages a v p) (messages a (f (unat a)) (path_of f (unat a)))"
  using read_sound [OF assms] update [OF assms(1), of w f] by auto

end

interpretation rom_store: authenticated_store
  "tree_commit sha Kind_Rom" "tree_path sha Kind_Rom"
  "derive_root sha RomLeaf RomNode" "derive_messages sha RomLeaf RomNode" sha
  for sha
proof unfold_locales
  fix a v f assume "unat (a :: u32) < 2 ^ 20"
  then show "derive_root sha RomLeaf RomNode a v (tree_path sha Kind_Rom f (unat a)) =
      tree_commit sha Kind_Rom (f(unat a := v))"
    using derive_honest [of a sha Kind_Rom v f] by simp
qed (simp_all add: derive_binding)

interpretation memory_store: authenticated_store
  "tree_commit sha Kind_Memory" "tree_path sha Kind_Memory"
  "mutable_root sha" "derive_messages sha MemoryLeaf MemoryNode" sha
  for sha
proof unfold_locales
  fix a v f assume "unat (a :: u32) < 2 ^ 20"
  then show "mutable_root sha a v (tree_path sha Kind_Memory f (unat a)) =
      tree_commit sha Kind_Memory (f(unat a := v))"
    using derive_honest [of a sha Kind_Memory v f] by (simp add: mutable_root_def)
qed (simp_all add: derive_binding mutable_root_def)

end
