(* ===== verification/Merkle_Tree.thy ===== *)
theory Merkle_Tree
  imports Merkle
begin

text \<open>
  The prover-side Merkle tree (\<open>MerkleTree\<close> of \<open>zksm83-memory/src/image.rs\<close>): building all
  levels with the zero-subtree shortcut, reading a byte with its path, and rewriting one path.
  The reference is \<open>tree_of\<close>, the tree as a function of its bytes: building returns it, and a
  write of one path returns the tree of the updated bytes.
\<close>

section \<open>Vectors and powers of two\<close>

text \<open>\<open>usize\<close> positions are natural numbers; \<open>Vec::get\<close> and \<open>get_mut\<close> return \<open>None\<close> out of
  range.\<close>

definition vec_get :: "'a list \<Rightarrow> nat \<Rightarrow> 'a option" where
  "vec_get xs i = (if i < length xs then Some (xs ! i) else None)"

definition vec_set :: "'a list \<Rightarrow> nat \<Rightarrow> 'a \<Rightarrow> 'a list option" where
  "vec_set xs i v = (if i < length xs then Some (xs[i := v]) else None)"

fun ilog2 :: "nat \<Rightarrow> nat" where
  "ilog2 n = (if n < 2 then 0 else Suc (ilog2 (n div 2)))"

declare ilog2.simps [simp del]

definition is_power_of_two :: "nat \<Rightarrow> bool" where
  "is_power_of_two n \<longleftrightarrow> n \<noteq> 0 \<and> 2 ^ ilog2 n = n"

lemma ilog2_pow2 [simp]: "ilog2 (2 ^ k) = k"
proof (induction k)
  case (Suc k)
  have "\<not> (2 :: nat) ^ Suc k < 2" by simp
  then show ?case using Suc by (subst ilog2.simps) simp
qed (simp add: ilog2.simps)

lemma is_power_of_two_pow2 [simp]: "is_power_of_two (2 ^ k)"
  by (simp add: is_power_of_two_def)

lemma is_power_of_twoD: "is_power_of_two n \<Longrightarrow> n = 2 ^ ilog2 n"
  by (simp add: is_power_of_two_def)

section \<open>The tree\<close>

definition CPU_ADDRESS_SPACE_BYTES :: nat where
  "CPU_ADDRESS_SPACE_BYTES = 65536"

definition ROM_BYTES :: nat where
  "ROM_BYTES = 1048576"

definition MIN_TREE_DEPTH :: nat where
  "MIN_TREE_DEPTH = 16"

definition TREE_DEPTH :: nat where
  "TREE_DEPTH = 20"

record merkle_tree =
  mt_kind :: tree_kind
  mt_bytes :: "u8 list"
  mt_levels :: "commitment_root list list"
  mt_zero_roots :: "commitment_root list"
  mt_stored_depth :: nat
  mt_root :: commitment_root

datatype tree_shape_error = TreeShapeError

type_synonym build_state = "commitment_root list list \<times> commitment_root \<times> commitment_root list"

text \<open>The parents of one level, by \<open>chunks_exact(2)\<close>, with the zero-pair shortcut.\<close>

fun pair_parents ::
  "digest \<Rightarrow> tree_kind \<Rightarrow> u8 \<Rightarrow> commitment_root \<Rightarrow> commitment_root \<Rightarrow> commitment_root list \<Rightarrow> commitment_root list" where
  "pair_parents sha kind level zero_child zero_parent (left # right # rest) =
     (if left = zero_child \<and> right = zero_child then zero_parent else node sha kind level left right)
       # pair_parents sha kind level zero_child zero_parent rest"
| "pair_parents sha kind level zero_child zero_parent _ = []"

definition build_level :: "digest \<Rightarrow> tree_kind \<Rightarrow> build_state \<Rightarrow> nat \<Rightarrow> tree_shape_error + build_state" where
  "build_level sha kind st level =
     (case st of (levels, zero_child, zero_roots) \<Rightarrow>
        if levels = [] then Inl TreeShapeError
        else
          let current = last levels;
              zero_parent = node sha kind (word_of_nat level) zero_child zero_child;
              parents = pair_parents sha kind (word_of_nat level) zero_child zero_parent current
          in Inr (levels @ [parents], zero_parent, zero_roots @ [zero_parent]))"

definition levels_root :: "commitment_root list list \<Rightarrow> tree_shape_error + commitment_root" where
  "levels_root levels =
     ok_or TreeShapeError
       (Option.bind (if levels = [] then None else Some (last levels)) (\<lambda>level. vec_get level 0))"

definition pad_level ::
  "digest \<Rightarrow> tree_kind \<Rightarrow> nat \<Rightarrow> commitment_root \<times> commitment_root \<times> commitment_root list \<Rightarrow>
     commitment_root \<times> commitment_root \<times> commitment_root list" where
  "pad_level sha kind level st =
     (case st of (root, zero_child, zero_roots) \<Rightarrow>
        let root = node sha kind (word_of_nat level) root zero_child;
            zero_child = node sha kind (word_of_nat level) zero_child zero_child
        in (root, zero_child, zero_roots @ [zero_child]))"

definition tree_build :: "digest \<Rightarrow> tree_kind \<Rightarrow> u8 list \<Rightarrow> tree_shape_error + merkle_tree" where
  "tree_build sha kind bytes =
     (if \<not> is_power_of_two (length bytes) \<or> length bytes < CPU_ADDRESS_SPACE_BYTES
         \<or> length bytes > ROM_BYTES then Inl TreeShapeError
      else let stored_depth = ilog2 (length bytes) in
        if \<not> (MIN_TREE_DEPTH \<le> stored_depth \<and> stored_depth \<le> TREE_DEPTH) then Inl TreeShapeError
        else
          let zero_leaf = leaf sha kind 0;
              leaves = map (\<lambda>v. if v = 0 then zero_leaf else leaf sha kind v) bytes
          in and_then (try_fold (build_level sha kind) ([leaves], zero_leaf, [zero_leaf]) [0..<stored_depth])
               (\<lambda>(levels, zero_child, zero_roots).
                  and_then (levels_root levels) (\<lambda>root.
                    let (root, _, zero_roots) =
                          fold (pad_level sha kind) [stored_depth..<TREE_DEPTH] (root, zero_child, zero_roots)
                    in Inr \<lparr>mt_kind = kind, mt_bytes = bytes, mt_levels = levels, mt_zero_roots = zero_roots,
                             mt_stored_depth = stored_depth, mt_root = root\<rparr>)))"

definition read_level ::
  "nat \<times> commitment_root list \<Rightarrow> commitment_root list \<Rightarrow> tree_shape_error + (nat \<times> commitment_root list)" where
  "read_level st level =
     (case st of (position, sibs) \<Rightarrow>
        and_then (ok_or TreeShapeError (vec_get level (position XOR 1))) (\<lambda>sibling.
          Inr (drop_bit 1 position, sibs @ [sibling])))"

definition read_zero ::
  "commitment_root list \<Rightarrow> commitment_root list \<Rightarrow> nat \<Rightarrow> tree_shape_error + commitment_root list" where
  "read_zero zero_roots sibs level =
     and_then (ok_or TreeShapeError (vec_get zero_roots level)) (\<lambda>zero. Inr (sibs @ [zero]))"

definition tree_read :: "merkle_tree \<Rightarrow> u32 \<Rightarrow> tree_shape_error + (u8 \<times> merkle_path)" where
  "tree_read t address =
     and_then (ok_or TreeShapeError (vec_get (mt_bytes t) (unat address))) (\<lambda>v.
       and_then (try_fold read_level (unat address, []) (take (mt_stored_depth t) (mt_levels t)))
         (\<lambda>(_, sibs).
            and_then (try_fold (read_zero (mt_zero_roots t)) sibs [mt_stored_depth t..<TREE_DEPTH])
              (\<lambda>sibs.
                 and_then (ok_or TreeShapeError (path_from_slice sibs)) (\<lambda>path. Inr (v, path)))))"

definition tree_parent ::
  "digest \<Rightarrow> tree_kind \<Rightarrow> commitment_root list list \<Rightarrow> u8 \<Rightarrow> nat \<Rightarrow> nat \<Rightarrow> tree_shape_error + commitment_root" where
  "tree_parent sha kind levels level_number level_index position =
     and_then (ok_or TreeShapeError (vec_get levels level_index)) (\<lambda>level.
       let even_position = position - (position AND 1) in
       and_then (ok_or TreeShapeError (vec_get level even_position)) (\<lambda>left.
         and_then (ok_or TreeShapeError (vec_get level (even_position + 1))) (\<lambda>right.
           Inr (node sha kind level_number left right))))"

definition write_level ::
  "digest \<Rightarrow> tree_kind \<Rightarrow> nat \<times> commitment_root list list \<Rightarrow> nat \<Rightarrow>
     tree_shape_error + (nat \<times> commitment_root list list)" where
  "write_level sha kind st level_number =
     (case st of (position, levels) \<Rightarrow>
        let next_level = level_number + 1 in
        and_then (tree_parent sha kind levels (word_of_nat level_number) (next_level - 1) position) (\<lambda>parent.
          let position = drop_bit 1 position in
          and_then (ok_or TreeShapeError (vec_get levels next_level)) (\<lambda>level.
            and_then (ok_or TreeShapeError (vec_set level position parent)) (\<lambda>level'.
              Inr (position, levels[next_level := level'])))))"

definition write_root :: "digest \<Rightarrow> tree_kind \<Rightarrow> commitment_root list \<Rightarrow> commitment_root \<Rightarrow> nat \<Rightarrow>
    tree_shape_error + commitment_root" where
  "write_root sha kind zero_roots root level =
     and_then (ok_or TreeShapeError (vec_get zero_roots level)) (\<lambda>zero.
       Inr (node sha kind (word_of_nat level) root zero))"

definition tree_write :: "digest \<Rightarrow> merkle_tree \<Rightarrow> u32 \<Rightarrow> u8 \<Rightarrow> tree_shape_error + merkle_tree" where
  "tree_write sha t address v =
     and_then (ok_or TreeShapeError (vec_set (mt_bytes t) (unat address) v)) (\<lambda>bytes.
       and_then (ok_or TreeShapeError (vec_get (mt_levels t) 0)) (\<lambda>first_level.
         and_then (ok_or TreeShapeError (vec_set first_level (unat address) (leaf sha (mt_kind t) v))) (\<lambda>first_level.
           and_then (try_fold (write_level sha (mt_kind t))
               (unat address, (mt_levels t)[0 := first_level]) [0..<mt_stored_depth t]) (\<lambda>(_, levels).
             and_then (levels_root levels) (\<lambda>root.
               and_then (try_fold (write_root sha (mt_kind t) (mt_zero_roots t)) root
                   [mt_stored_depth t..<TREE_DEPTH]) (\<lambda>root.
                 Inr (t\<lparr>mt_bytes := bytes, mt_levels := levels, mt_root := root\<rparr>)))))))"

section \<open>Reference\<close>

text \<open>The bytes padded with zeros, and the tree they determine.\<close>

definition padded :: "u8 list \<Rightarrow> nat \<Rightarrow> u8" where
  "padded bs i = (if i < length bs then bs ! i else 0)"

definition level_row :: "digest \<Rightarrow> tree_kind \<Rightarrow> (nat \<Rightarrow> u8) \<Rightarrow> nat \<Rightarrow> nat \<Rightarrow> commitment_root list" where
  "level_row sha kind f d l = map (tree_node sha kind f l) [0..<2 ^ (d - l)]"

definition zero_node :: "digest \<Rightarrow> tree_kind \<Rightarrow> nat \<Rightarrow> commitment_root" where
  "zero_node sha kind l = tree_node sha kind (\<lambda>_. 0) l 0"

definition tree_of :: "digest \<Rightarrow> tree_kind \<Rightarrow> u8 list \<Rightarrow> merkle_tree" where
  "tree_of sha kind bs =
     (let d = ilog2 (length bs)
      in \<lparr>mt_kind = kind, mt_bytes = bs,
          mt_levels = map (level_row sha kind (padded bs) d) [0..<Suc d],
          mt_zero_roots = map (zero_node sha kind) [0..<21],
          mt_stored_depth = d, mt_root = tree_commit sha kind (padded bs)\<rparr>)"

definition tree_length_ok :: "nat \<Rightarrow> bool" where
  "tree_length_ok n \<longleftrightarrow> is_power_of_two n \<and> 65536 \<le> n \<and> n \<le> 1048576"

lemma zero_node_index: "tree_node sha kind (\<lambda>_. 0) l i = zero_node sha kind l"
proof (induction l arbitrary: i)
  case (Suc l)
  show ?case unfolding zero_node_def tree_node.simps
    using Suc.IH [of "2 * i"] Suc.IH [of "2 * i + 1"] Suc.IH [of "2 * 0"] Suc.IH [of "2 * 0 + 1"] by metis
qed (simp add: zero_node_def)

lemma zero_node_Suc:
  "zero_node sha kind (Suc l) = node sha kind (word_of_nat l) (zero_node sha kind l) (zero_node sha kind l)"
  unfolding zero_node_def [of _ _ "Suc l"] tree_node.simps zero_node_index ..

lemma padded_beyond:
  assumes "length bs \<le> i * 2 ^ l"
  shows "tree_node sha kind (padded bs) l i = zero_node sha kind l"
proof -
  have "padded bs j = 0" if "j div 2 ^ l = i" for j
  proof -
    have "i * 2 ^ l \<le> j" using that by (metis div_times_less_eq_dividend)
    then show ?thesis using assms by (simp add: padded_def)
  qed
  then have "tree_node sha kind (padded bs) l i = tree_node sha kind (\<lambda>_. 0) l i"
    by (intro tree_node_cong) simp
  then show ?thesis by (simp add: zero_node_index)
qed

lemma pair_parents_upt:
  "pair_parents sha kind level zc (node sha kind level zc zc) (map g [2 * m..<2 * (m + n)]) =
     map (\<lambda>i. node sha kind level (g (2 * i)) (g (2 * i + 1))) [m..<m + n]"
proof (induction n arbitrary: m)
  case (Suc n)
  have "[2 * m..<2 * (m + Suc n)] = 2 * m # (2 * m + 1) # [2 * Suc m..<2 * (Suc m + n)]"
    by (simp add: upt_conv_Cons)
  moreover have "[m..<m + Suc n] = m # [Suc m..<Suc m + n]" by (simp add: upt_conv_Cons)
  ultimately show ?case using Suc.IH [of "Suc m"] by simp
qed simp

lemma pair_parents_row:
  assumes "l < d"
  shows "pair_parents sha kind (word_of_nat l) zc (node sha kind (word_of_nat l) zc zc)
      (level_row sha kind f d l) = level_row sha kind f d (Suc l)"
proof -
  have "(2 :: nat) ^ (d - l) = 2 * (0 + 2 ^ (d - Suc l))"
    using assms by (metis Suc_diff_Suc add_0 power_Suc)
  then show ?thesis
    using pair_parents_upt [where m = 0 and n = "2 ^ (d - Suc l)"] by (simp add: level_row_def)
qed

section \<open>Building\<close>

lemma try_fold_invariant:
  assumes "\<And>k. k < n \<Longrightarrow> step (st k) k = Inr (st (Suc k))"
  shows "m \<le> n \<Longrightarrow> try_fold step (st m) [m..<n] = Inr (st n)"
proof (induction "n - m" arbitrary: m)
  case (Suc x)
  then have "m < n" by simp
  with Suc show ?case using assms [of m] by (simp add: upt_conv_Cons)
qed simp

lemma fold_invariant:
  assumes "\<And>k. k < n \<Longrightarrow> m \<le> k \<Longrightarrow> step k (st k) = st (Suc k)"
  shows "m \<le> n \<Longrightarrow> fold step [m..<n] (st m) = st n"
proof -
  have "i + m \<le> n \<Longrightarrow> fold step [m..<i + m] (st m) = st (i + m)" for i
    by (induction i) (simp_all add: assms)
  then show "m \<le> n \<Longrightarrow> fold step [m..<n] (st m) = st n" by (metis le_add_diff_inverse2 order_refl)
qed

lemma leaves_row:
  "map (\<lambda>v. if v = 0 then leaf sha kind 0 else leaf sha kind v) bs =
     map (tree_node sha kind (padded bs) 0) [0..<length bs]"
  by (rule nth_equalityI) (auto simp: padded_def)

lemma build_levels:
  assumes "length bs = 2 ^ d"
  shows "try_fold (build_level sha kind)
      ([map (\<lambda>v. if v = 0 then leaf sha kind 0 else leaf sha kind v) bs], leaf sha kind 0, [leaf sha kind 0]) [0..<d] =
    Inr (map (level_row sha kind (padded bs) d) [0..<Suc d], zero_node sha kind d,
         map (zero_node sha kind) [0..<Suc d])"
proof -
  let ?st = "\<lambda>k. (map (level_row sha kind (padded bs) d) [0..<Suc k], zero_node sha kind k,
      map (zero_node sha kind) [0..<Suc k])"
  have "build_level sha kind (?st k) k = Inr (?st (Suc k))" if "k < d" for k
    using pair_parents_row [OF that, of sha kind] by (simp add: build_level_def Let_def zero_node_Suc)
  from try_fold_invariant [of d "build_level sha kind" ?st 0, OF this]
  show ?thesis unfolding leaves_row by (simp add: level_row_def assms zero_node_def)
qed

lemma levels_root_of:
  "levels_root (map (level_row sha kind f d) [0..<Suc d]) = Inr (tree_node sha kind f d 0)"
  by (simp add: levels_root_def level_row_def vec_get_def)

lemma padded_root_step:
  assumes "length bs = 2 ^ d" "d \<le> l"
  shows "tree_node sha kind (padded bs) (Suc l) 0 =
    node sha kind (word_of_nat l) (tree_node sha kind (padded bs) l 0) (zero_node sha kind l)"
proof -
  have "length bs \<le> 1 * 2 ^ l" using assms by simp
  from padded_beyond [OF this, of sha kind] show ?thesis by simp
qed

lemma pad_levels:
  assumes "length bs = 2 ^ d" "d \<le> n"
  shows "fold (pad_level sha kind) [d..<n]
      (tree_node sha kind (padded bs) d 0, zero_node sha kind d, map (zero_node sha kind) [0..<Suc d]) =
    (tree_node sha kind (padded bs) n 0, zero_node sha kind n, map (zero_node sha kind) [0..<Suc n])"
proof -
  let ?st = "\<lambda>k. (tree_node sha kind (padded bs) k 0, zero_node sha kind k, map (zero_node sha kind) [0..<Suc k])"
  have "pad_level sha kind k (?st k) = ?st (Suc k)" if "d \<le> k" for k
    using padded_root_step [OF assms(1) that, of sha kind]
    by (simp add: pad_level_def Let_def zero_node_Suc del: tree_node.simps)
  then show ?thesis using fold_invariant [of n d "pad_level sha kind" ?st] assms(2) by blast
qed

lemma tree_depth_ok:
  assumes "tree_length_ok n"
  shows "n = 2 ^ ilog2 n" "16 \<le> ilog2 n" "ilog2 n \<le> 20"
proof -
  show n: "n = 2 ^ ilog2 n" using assms by (simp add: tree_length_ok_def is_power_of_twoD)
  have "(2 :: nat) ^ 16 \<le> 2 ^ ilog2 n" "(2 :: nat) ^ ilog2 n \<le> 2 ^ 20"
    using assms n by (simp_all add: tree_length_ok_def)
  then show "16 \<le> ilog2 n" "ilog2 n \<le> 20" by (simp_all only: power_increasing_iff one_less_numeral_iff semiring_norm)
qed

lemma tree_build_exact:
  "tree_build sha kind bs =
     (if tree_length_ok (length bs) then Inr (tree_of sha kind bs) else Inl TreeShapeError)"
proof (cases "tree_length_ok (length bs)")
  case True
  note d = tree_depth_ok [OF True]
  show ?thesis
    using True d pad_levels [OF d(1), of 20 sha kind] build_levels [OF d(1), of sha kind]
    by (simp add: tree_build_def tree_length_ok_def CPU_ADDRESS_SPACE_BYTES_def ROM_BYTES_def
        MIN_TREE_DEPTH_def TREE_DEPTH_def Let_def levels_root_of tree_of_def tree_commit_def
        del: upt_Suc tree_node.simps)
next
  case False
  then show ?thesis
    by (auto simp: tree_build_def tree_length_ok_def CPU_ADDRESS_SPACE_BYTES_def ROM_BYTES_def)
qed

section \<open>Reading\<close>

lemma xor_one_sibling: "p XOR 1 = sibling_index p" for p :: nat
  by (simp add: sibling_index_def Suc_0_xor_eq xor_Suc_0_eq)

lemma position_in_row:
  assumes "a < 2 ^ d" "l < d"
  shows "a div 2 ^ l < 2 ^ (d - l)" "sibling_index (a div 2 ^ l) < 2 ^ (d - l)"
proof -
  have "(2 :: nat) ^ d = 2 ^ (d - l) * 2 ^ l" using assms(2) by (simp flip: power_add)
  then show p: "a div 2 ^ l < 2 ^ (d - l)" using assms(1) by (simp add: less_mult_imp_div_less)
  have "even ((2 :: nat) ^ (d - l))" using assms(2) by simp
  moreover have "p + 1 < m" if "p < m" "even p" "even m" for p m :: nat
    using that by presburger
  ultimately show "sibling_index (a div 2 ^ l) < 2 ^ (d - l)"
    using p by (auto simp: sibling_index_def)
qed

lemma vec_get_row:
  "i < 2 ^ (d - l) \<Longrightarrow> vec_get (level_row sha kind f d l) i = Some (tree_node sha kind f l i)"
  by (simp add: vec_get_def level_row_def)

lemma read_levels:
  assumes "a < 2 ^ d"
  shows "try_fold read_level (a, []) (map (level_row sha kind f d) [0..<d]) =
    Inr (a div 2 ^ d, map (\<lambda>l. tree_node sha kind f l (sibling_index (a div 2 ^ l))) [0..<d])"
proof -
  have "k \<le> d \<Longrightarrow> try_fold read_level (a, []) (map (level_row sha kind f d) [0..<k]) =
    Inr (a div 2 ^ k, map (\<lambda>l. tree_node sha kind f l (sibling_index (a div 2 ^ l))) [0..<k])" for k
  proof (induction k)
    case (Suc k)
    then show ?case
      using position_in_row [OF assms, of k]
      by (simp add: try_fold_append read_level_def xor_one_sibling vec_get_row drop_bit_eq_div
          div_pow2_Suc [of a k, unfolded power_Suc] del: tree_node.simps One_nat_def)
  qed simp
  then show ?thesis by simp
qed

lemma read_zeros:
  assumes "length bs = 2 ^ d" "a < 2 ^ d" "d \<le> 20"
  shows "try_fold (read_zero (map (zero_node sha kind) [0..<21]))
      (map (\<lambda>l. tree_node sha kind (padded bs) l (sibling_index (a div 2 ^ l))) [0..<d]) [d..<20] =
    Inr (map (\<lambda>l. tree_node sha kind (padded bs) l (sibling_index (a div 2 ^ l))) [0..<20])"
proof -
  let ?st = "\<lambda>n. map (\<lambda>l. tree_node sha kind (padded bs) l (sibling_index (a div 2 ^ l))) [0..<n]"
  have "d + i \<le> 20 \<Longrightarrow> try_fold (read_zero (map (zero_node sha kind) [0..<21])) (?st d) [d..<d + i] =
      Inr (?st (d + i))" for i
  proof (induction i)
    case (Suc i)
    have "a < 2 ^ (d + i)" using assms(2) by (rule less_le_trans) simp
    moreover have "length bs \<le> 1 * 2 ^ (d + i)" by (simp add: assms(1))
    ultimately have "tree_node sha kind (padded bs) (d + i) (sibling_index (a div 2 ^ (d + i))) =
        zero_node sha kind (d + i)"
      using padded_beyond [of bs 1 "d + i" sha kind] by (simp add: sibling_index_def)
    with Suc show ?case
      by (simp add: try_fold_append read_zero_def vec_get_def)
  qed simp
  from this [of "20 - d"] assms(3) show ?thesis by simp
qed

lemma tree_read_exact:
  assumes "tree_length_ok (length bs)"
  shows "tree_read (tree_of sha kind bs) a =
    (if unat a < length bs then Inr (bs ! unat a, tree_path sha kind (padded bs) (unat a))
     else Inl TreeShapeError)"
proof (cases "unat a < length bs")
  case True
  note d = tree_depth_ok [OF assms]
  have a: "unat a < 2 ^ ilog2 (length bs)" using True d(1) by simp
  show ?thesis
    using True d read_levels [OF a, of sha kind "padded bs"] read_zeros [OF d(1) a d(3), of sha kind]
    by (simp add: tree_read_def tree_of_def Let_def vec_get_def take_map TREE_DEPTH_def
        path_from_slice_def tree_path_def take_upt del: upt_Suc tree_node.simps)
qed (simp add: tree_read_def tree_of_def Let_def vec_get_def)

section \<open>Writing\<close>

lemma row_update:
  assumes "a div 2 ^ l < 2 ^ (d - l)"
  shows "(level_row sha kind f d l)[a div 2 ^ l := tree_node sha kind (f(a := v)) l (a div 2 ^ l)] =
    level_row sha kind (f(a := v)) d l"
proof (rule nth_equalityI)
  fix i assume "i < length ((level_row sha kind f d l)[a div 2 ^ l := tree_node sha kind (f(a := v)) l (a div 2 ^ l)])"
  then have i: "i < 2 ^ (d - l)" by (simp add: level_row_def)
  have "tree_node sha kind f l i = tree_node sha kind (f(a := v)) l i" if "i \<noteq> a div 2 ^ l"
    by (rule tree_node_cong) (use that in auto)
  with i show "(level_row sha kind f d l)[a div 2 ^ l := tree_node sha kind (f(a := v)) l (a div 2 ^ l)] ! i =
      level_row sha kind (f(a := v)) d l ! i"
    by (cases "i = a div 2 ^ l") (simp_all add: level_row_def)
qed (simp add: level_row_def)

lemma padded_update: "i < length bs \<Longrightarrow> padded (bs[i := v]) = (padded bs)(i := v)"
  by (auto simp: padded_def)

text \<open>The rows during a write: levels up to \<open>n\<close> hold the new nodes.\<close>

definition mixed_rows ::
  "digest \<Rightarrow> tree_kind \<Rightarrow> (nat \<Rightarrow> u8) \<Rightarrow> (nat \<Rightarrow> u8) \<Rightarrow> nat \<Rightarrow> nat \<Rightarrow> commitment_root list list" where
  "mixed_rows sha kind f g d n = map (\<lambda>l. level_row sha kind (if l \<le> n then g else f) d l) [0..<Suc d]"

lemma mixed_rows_nth:
  "l \<le> d \<Longrightarrow> mixed_rows sha kind f g d n ! l = level_row sha kind (if l \<le> n then g else f) d l"
  by (simp add: mixed_rows_def del: upt_Suc)

lemma mixed_rows_step:
  assumes "Suc n \<le> d" "r = level_row sha kind g d (Suc n)"
  shows "(mixed_rows sha kind f g d n)[Suc n := r] = mixed_rows sha kind f g d (Suc n)"
  by (rule nth_equalityI)
     (auto simp: nth_list_update mixed_rows_nth mixed_rows_def assms le_Suc_eq simp del: upt_Suc)

lemma tree_parent_mixed:
  assumes "p div 2 < 2 ^ (d - Suc n)" "n < d"
  shows "tree_parent sha kind (mixed_rows sha kind f g d n) (word_of_nat n) n p =
    Inr (tree_node sha kind g (Suc n) (p div 2))"
proof -
  have "(2 :: nat) ^ (d - n) = 2 * 2 ^ (d - Suc n)" using assms(2) by (metis Suc_diff_Suc power_Suc)
  then have "2 * (p div 2) + 1 < 2 ^ (d - n)" using assms(1) by linarith
  moreover have "length (mixed_rows sha kind f g d n) = Suc d" by (simp add: mixed_rows_def)
  ultimately show ?thesis
    using assms(2)
    by (simp add: tree_parent_def vec_get_def [of "mixed_rows sha kind f g d n"] mixed_rows_nth Let_def
        and_one_eq minus_mod_eq_mult_div vec_get_row)
qed

lemma write_levels:
  assumes "a < 2 ^ d" "g = f(a := v)"
  shows "k \<le> d \<Longrightarrow> try_fold (write_level sha kind) (a, mixed_rows sha kind f g d 0) [0..<k] =
    Inr (a div 2 ^ k, mixed_rows sha kind f g d k)"
proof (induction k)
  case (Suc k)
  let ?q = "a div 2 ^ k div 2"
  have q: "?q = a div 2 ^ Suc k" by (simp only: div_pow2_Suc)
  have lt: "?q < 2 ^ (d - Suc k)"
    unfolding q using assms(1) Suc.prems
    by (metis add_diff_inverse_nat less_mult_imp_div_less linorder_not_less mult.commute power_add)
  have "(level_row sha kind f d (Suc k))[?q := tree_node sha kind g (Suc k) ?q] =
      level_row sha kind g d (Suc k)"
    using row_update [of a "Suc k" d sha kind f v] lt unfolding q assms(2) by simp
  moreover have "length (level_row sha kind f d (Suc k)) = 2 ^ (d - Suc k)"
    by (simp add: level_row_def)
  ultimately have "write_level sha kind (a div 2 ^ k, mixed_rows sha kind f g d k) k =
      Inr (a div 2 ^ Suc k, mixed_rows sha kind f g d (Suc k))"
    using Suc.prems lt tree_parent_mixed [OF lt, of sha kind f g] mixed_rows_step [of k d _ sha kind g f]
    by (simp add: write_level_def Let_def vec_get_def vec_set_def mixed_rows_nth drop_bit_eq_div
        mixed_rows_def [of _ _ _ _ _ k] q [symmetric] del: upt_Suc tree_node.simps power_Suc)
  with Suc show ?case by (simp add: try_fold_append)
qed simp

lemma write_roots:
  assumes "length bs = 2 ^ d" "d \<le> 20"
  shows "try_fold (write_root sha kind (map (zero_node sha kind) [0..<21]))
      (tree_node sha kind (padded bs) d 0) [d..<20] = Inr (tree_commit sha kind (padded bs))"
proof -
  have "d + i \<le> 20 \<Longrightarrow> try_fold (write_root sha kind (map (zero_node sha kind) [0..<21]))
      (tree_node sha kind (padded bs) d 0) [d..<d + i] = Inr (tree_node sha kind (padded bs) (d + i) 0)" for i
  proof (induction i)
    case (Suc i)
    then show ?case
      using padded_root_step [OF assms(1), of "d + i" sha kind]
      by (simp add: try_fold_append write_root_def vec_get_def del: tree_node.simps)
  qed simp
  from this [of "20 - d"] assms(2) show ?thesis by (simp add: tree_commit_def)
qed

lemma mixed_rows_full: "mixed_rows sha kind f g d d = map (level_row sha kind g d) [0..<Suc d]"
  by (simp add: mixed_rows_def del: upt_Suc)

lemma first_row_update:
  assumes "a < 2 ^ d" "g = f(a := v)"
  shows "(map (level_row sha kind f d) [0..<Suc d])[0 := (level_row sha kind f d 0)[a := leaf sha kind v]] =
    mixed_rows sha kind f g d 0"
proof -
  have "(level_row sha kind f d 0)[a := leaf sha kind v] = level_row sha kind g d 0"
    using row_update [of a 0 d sha kind f v] assms by simp
  then show ?thesis
    by (intro nth_equalityI) (auto simp: nth_list_update mixed_rows_def simp del: upt_Suc)
qed

lemma tree_write_exact:
  assumes "tree_length_ok (length bs)"
  shows "tree_write sha (tree_of sha kind bs) a v =
    (if unat a < length bs then Inr (tree_of sha kind (bs[unat a := v])) else Inl TreeShapeError)"
proof (cases "unat a < length bs")
  case True
  note d = tree_depth_ok [OF assms]
  let ?d = "ilog2 (length bs)"
  have a: "unat a < 2 ^ ?d" using True d(1) by simp
  have g: "padded (bs[unat a := v]) = (padded bs)(unat a := v)" using True by (rule padded_update)
  have rows: "try_fold (write_level sha kind)
      (unat a, (map (level_row sha kind (padded bs) ?d) [0..<Suc ?d])[0 := (level_row sha kind (padded bs) ?d 0)[unat a := leaf sha kind v]]) [0..<?d] =
      Inr (unat a div 2 ^ ?d, map (level_row sha kind (padded (bs[unat a := v])) ?d) [0..<Suc ?d])"
    unfolding first_row_update [OF a g]
    using write_levels [OF a g, of ?d sha kind] by (simp only: mixed_rows_full le_refl)
  have "try_fold (write_root sha kind (map (zero_node sha kind) [0..<21]))
      (tree_node sha kind (padded (bs[unat a := v])) ?d 0) [?d..<20] =
      Inr (tree_commit sha kind (padded (bs[unat a := v])))"
    by (rule write_roots) (use d in simp_all)
  moreover have "length (level_row sha kind (padded bs) ?d 0) = 2 ^ ?d" by (simp add: level_row_def)
  ultimately show ?thesis
    using True a rows
    by (simp add: tree_write_def tree_of_def Let_def vec_get_def vec_set_def nth_map_upt [where m = 0]
        levels_root_of TREE_DEPTH_def del: upt_Suc tree_node.simps)
qed (simp add: tree_write_def tree_of_def Let_def vec_set_def)

end
