(* ===== verification/Address.thy ===== *)
theory Address
  imports Prelude
begin

text \<open>Address ownership of the two machine profiles (\<open>zksm83-memory/src/address.rs\<close>).\<close>

datatype address_owner =
    Own_Rom | Own_Memory | Own_Input | Own_Output | Own_DmgMmio | Own_DmgEcho | Own_Unowned

definition INPUT_PORT :: u16 where
  "INPUT_PORT = 0xfff0"

definition OUTPUT_PORT :: u16 where
  "OUTPUT_PORT = 0xfff1"

definition owner :: "u16 \<Rightarrow> address_owner" where
  "owner address =
     (if address \<le> 0x7fff then Own_Rom
      else if 0x8000 \<le> address \<and> address \<le> 0xffef then Own_Memory
      else if address = INPUT_PORT then Own_Input
      else if address = OUTPUT_PORT then Own_Output
      else Own_Unowned)"

definition dmg_owner :: "u16 \<Rightarrow> address_owner" where
  "dmg_owner address =
     (if address \<le> 0x7fff then Own_Rom
      else if (0x8000 \<le> address \<and> address \<le> 0xdfff) \<or> (0xfe00 \<le> address \<and> address \<le> 0xfe9f)
              \<or> (0xff80 \<le> address \<and> address \<le> 0xfffe) then Own_Memory
      else if 0xe000 \<le> address \<and> address \<le> 0xfdff then Own_DmgEcho
      else if (0xff00 \<le> address \<and> address \<le> 0xff7f) \<or> address = 0xffff then Own_DmgMmio
      else Own_Unowned)"

lemma owner_rom_iff: "owner address = Own_Rom \<longleftrightarrow> address \<le> 0x7fff"
  by (simp add: owner_def)

lemma dmg_owner_rom_iff: "dmg_owner address = Own_Rom \<longleftrightarrow> address \<le> 0x7fff"
  by (simp add: dmg_owner_def)

lemma owner_memory_iff: "owner address = Own_Memory \<longleftrightarrow> 0x8000 \<le> address \<and> address \<le> 0xffef"
  by (auto simp: owner_def word_le_nat_alt)

lemma dmg_owner_memory_iff: "dmg_owner address = Own_Memory \<longleftrightarrow>
    (0x8000 \<le> address \<and> address \<le> 0xdfff) \<or> (0xfe00 \<le> address \<and> address \<le> 0xfe9f)
      \<or> (0xff80 \<le> address \<and> address \<le> 0xfffe)"
  by (auto simp: dmg_owner_def word_le_nat_alt)

end
