(* ===== verification/Transcript.thy ===== *)
theory Transcript
  imports Merkle Address "HOL-Library.AList"
begin

text \<open>
  Authenticated reads and writes and the root-threaded transcript
  (\<open>zksm83-memory/src/transcript.rs\<close>).  The three thread-local verification caches are explicit
  state: each \<open>verify\<close> takes them and returns them updated.  A hash map is an association list
  with \<open>AList.update\<close> for \<open>insert\<close>, \<open>map_of\<close> for \<open>get\<close> and \<open>length\<close> for \<open>len\<close>.
\<close>

section \<open>Witnesses\<close>

record rom_read =
  rr_address :: u16
  rr_physical_address :: u32
  rr_value :: u8
  rr_path :: merkle_path

record memory_read =
  mr_address :: u16
  mr_physical_address :: u32
  mr_value :: u8
  mr_path :: merkle_path

record memory_write =
  mw_address :: u16
  mw_physical_address :: u32
  mw_before :: u8
  mw_after :: u8
  mw_path :: merkle_path

datatype rom_read_error =
    RR_AddressNotRom u16
  | RR_PhysicalAddressOutOfRange u32
  | RR_RootMismatch commitment_root commitment_root

datatype memory_transcript_error =
    MT_AddressNotMutable u16
  | MT_PhysicalAddressOutOfRange u32
  | MT_RootMismatch commitment_root commitment_root

section \<open>Caches\<close>

record rom_verification_key =
  rk_expected_root :: commitment_root
  rk_physical_address :: u32

record verified_rom_witness =
  vr_value :: u8
  vr_path :: merkle_path

record memory_verification_key =
  mk_expected_root :: commitment_root
  mk_physical_address :: u32

record memory_write_verification_key =
  wk_expected_root :: commitment_root
  wk_physical_address :: u32
  wk_after :: u8

record verified_memory_read_witness =
  vm_value :: u8
  vm_path :: merkle_path

record verified_memory_write_witness =
  vw_before :: u8
  vw_path :: merkle_path
  vw_after_root :: commitment_root

record verification_caches =
  rom_cache :: "(rom_verification_key \<times> verified_rom_witness) list"
  memory_read_cache :: "(memory_verification_key \<times> verified_memory_read_witness) list"
  memory_write_cache :: "(memory_write_verification_key \<times> verified_memory_write_witness) list"

definition empty_caches :: verification_caches where
  "empty_caches = \<lparr>rom_cache = [], memory_read_cache = [], memory_write_cache = []\<rparr>"

definition ROM_VERIFICATION_CACHE_CAPACITY :: nat where
  "ROM_VERIFICATION_CACHE_CAPACITY = 32768"

definition MEMORY_VERIFICATION_CACHE_CAPACITY :: nat where
  "MEMORY_VERIFICATION_CACHE_CAPACITY = 8192"

definition cached_rom_witness :: "rom_verification_key \<Rightarrow> verification_caches \<Rightarrow> verified_rom_witness option" where
  "cached_rom_witness key c = map_of (rom_cache c) key"

definition cache_verified_rom_witness ::
  "rom_verification_key \<Rightarrow> verified_rom_witness \<Rightarrow> verification_caches \<Rightarrow> verification_caches" where
  "cache_verified_rom_witness key witness c =
     (if length (rom_cache c) < ROM_VERIFICATION_CACHE_CAPACITY
      then c\<lparr>rom_cache := AList.update key witness (rom_cache c)\<rparr> else c)"

definition insert_bounded :: "('k \<times> 'v) list \<Rightarrow> 'k \<Rightarrow> 'v \<Rightarrow> ('k \<times> 'v) list" where
  "insert_bounded cache key v =
     (let cache = (if length cache \<ge> MEMORY_VERIFICATION_CACHE_CAPACITY then [] else cache)
      in AList.update key v cache)"

definition cached_memory_read ::
  "memory_verification_key \<Rightarrow> verification_caches \<Rightarrow> verified_memory_read_witness option" where
  "cached_memory_read key c = map_of (memory_read_cache c) key"

definition cache_verified_memory_read ::
  "memory_verification_key \<Rightarrow> verified_memory_read_witness \<Rightarrow> verification_caches \<Rightarrow> verification_caches" where
  "cache_verified_memory_read key witness c =
     c\<lparr>memory_read_cache := insert_bounded (memory_read_cache c) key witness\<rparr>"

definition cached_memory_write ::
  "memory_write_verification_key \<Rightarrow> verification_caches \<Rightarrow> verified_memory_write_witness option" where
  "cached_memory_write key c = map_of (memory_write_cache c) key"

definition cache_verified_memory_write ::
  "memory_write_verification_key \<Rightarrow> verified_memory_write_witness \<Rightarrow> verification_caches \<Rightarrow> verification_caches" where
  "cache_verified_memory_write key witness c =
     c\<lparr>memory_write_cache := insert_bounded (memory_write_cache c) key witness\<rparr>"

section \<open>Verification\<close>

definition validate_physical_address :: "u32 \<Rightarrow> rom_read_error + unit" where
  "validate_physical_address address =
     (if address \<ge> push_bit 20 1 then Inl (RR_PhysicalAddressOutOfRange address) else Inr ())"

definition validate_physical_memory_address :: "u32 \<Rightarrow> memory_transcript_error + unit" where
  "validate_physical_memory_address address =
     (if address \<ge> push_bit 20 1 then Inl (MT_PhysicalAddressOutOfRange address) else Inr ())"

definition validate_memory_address :: "u16 \<Rightarrow> memory_transcript_error + unit" where
  "validate_memory_address address =
     (if owner address \<noteq> Own_Memory \<and> dmg_owner address \<noteq> Own_Memory
      then Inl (MT_AddressNotMutable address) else Inr ())"

definition require_root :: "commitment_root \<Rightarrow> commitment_root \<Rightarrow> memory_transcript_error + unit" where
  "require_root expected actual =
     (if actual \<noteq> expected then Inl (MT_RootMismatch expected actual) else Inr ())"

definition rom_read_verify ::
  "digest \<Rightarrow> rom_read \<Rightarrow> commitment_root \<Rightarrow> verification_caches \<Rightarrow> (rom_read_error + unit) \<times> verification_caches" where
  "rom_read_verify sha r expected_root c =
     (if owner (rr_address r) \<noteq> Own_Rom then (Inl (RR_AddressNotRom (rr_address r)), c)
      else case validate_physical_address (rr_physical_address r) of
        Inl e \<Rightarrow> (Inl e, c)
      | Inr _ \<Rightarrow>
          let key = \<lparr>rk_expected_root = expected_root, rk_physical_address = rr_physical_address r\<rparr>;
              witness = \<lparr>vr_value = rr_value r, vr_path = rr_path r\<rparr>
          in if cached_rom_witness key c = Some witness then (Inr (), c)
             else let actual = derive_root sha RomLeaf RomNode (rr_physical_address r) (rr_value r) (rr_path r)
                  in if actual \<noteq> expected_root then (Inl (RR_RootMismatch expected_root actual), c)
                     else (Inr (), cache_verified_rom_witness key witness c))"

definition memory_read_verify ::
  "digest \<Rightarrow> memory_read \<Rightarrow> commitment_root \<Rightarrow> verification_caches \<Rightarrow>
     (memory_transcript_error + unit) \<times> verification_caches" where
  "memory_read_verify sha r expected_root c =
     (case and_then (validate_memory_address (mr_address r))
             (\<lambda>_. validate_physical_memory_address (mr_physical_address r)) of
        Inl e \<Rightarrow> (Inl e, c)
      | Inr _ \<Rightarrow>
          let key = \<lparr>mk_expected_root = expected_root, mk_physical_address = mr_physical_address r\<rparr>;
              witness = \<lparr>vm_value = mr_value r, vm_path = mr_path r\<rparr>
          in if cached_memory_read key c = Some witness then (Inr (), c)
             else let actual = mutable_root sha (mr_physical_address r) (mr_value r) (mr_path r)
                  in case require_root expected_root actual of
                       Inl e \<Rightarrow> (Inl e, c)
                     | Inr _ \<Rightarrow> (Inr (), cache_verified_memory_read key witness c))"

text \<open>The part of \<open>MemoryWrite::verify\<close> after a cache miss.\<close>

definition memory_write_derive ::
  "digest \<Rightarrow> memory_write \<Rightarrow> commitment_root \<Rightarrow> memory_write_verification_key \<Rightarrow> verification_caches \<Rightarrow>
     (memory_transcript_error + commitment_root) \<times> verification_caches" where
  "memory_write_derive sha w expected_root key c =
     (let before_root = mutable_root sha (mw_physical_address w) (mw_before w) (mw_path w)
      in case require_root expected_root before_root of
           Inl e \<Rightarrow> (Inl e, c)
         | Inr _ \<Rightarrow>
             let after_root = mutable_root sha (mw_physical_address w) (mw_after w) (mw_path w)
             in (Inr after_root,
                 cache_verified_memory_write key
                   \<lparr>vw_before = mw_before w, vw_path = mw_path w, vw_after_root = after_root\<rparr> c))"

definition memory_write_verify ::
  "digest \<Rightarrow> memory_write \<Rightarrow> commitment_root \<Rightarrow> verification_caches \<Rightarrow>
     (memory_transcript_error + commitment_root) \<times> verification_caches" where
  "memory_write_verify sha w expected_root c =
     (case and_then (validate_memory_address (mw_address w))
             (\<lambda>_. validate_physical_memory_address (mw_physical_address w)) of
        Inl e \<Rightarrow> (Inl e, c)
      | Inr _ \<Rightarrow>
          let key = \<lparr>wk_expected_root = expected_root, wk_physical_address = mw_physical_address w,
                      wk_after = mw_after w\<rparr>
          in case cached_memory_write key c of
               Some witness \<Rightarrow>
                 if vw_before witness = mw_before w \<and> vw_path witness = mw_path w
                 then (Inr (vw_after_root witness), c) else memory_write_derive sha w expected_root key c
             | None \<Rightarrow> memory_write_derive sha w expected_root key c)"

section \<open>Transcript\<close>

datatype memory_access = Access_Read memory_read | Access_Write memory_write

record memory_transcript =
  initial_root :: commitment_root
  current_root :: commitment_root
  accesses :: "memory_access list"

definition transcript_new :: "commitment_root \<Rightarrow> memory_transcript" where
  "transcript_new root = \<lparr>initial_root = root, current_root = root, accesses = []\<rparr>"

definition transcript_read ::
  "digest \<Rightarrow> memory_read \<Rightarrow> memory_transcript \<times> verification_caches \<Rightarrow>
     (memory_transcript_error + unit) \<times> memory_transcript \<times> verification_caches" where
  "transcript_read sha r st =
     (case st of (t, c) \<Rightarrow>
        case memory_read_verify sha r (current_root t) c of
          (Inl e, c') \<Rightarrow> (Inl e, t, c')
        | (Inr _, c') \<Rightarrow> (Inr (), t\<lparr>accesses := accesses t @ [Access_Read r]\<rparr>, c'))"

definition transcript_write ::
  "digest \<Rightarrow> memory_write \<Rightarrow> memory_transcript \<times> verification_caches \<Rightarrow>
     (memory_transcript_error + unit) \<times> memory_transcript \<times> verification_caches" where
  "transcript_write sha w st =
     (case st of (t, c) \<Rightarrow>
        case memory_write_verify sha w (current_root t) c of
          (Inl e, c') \<Rightarrow> (Inl e, t, c')
        | (Inr root, c') \<Rightarrow>
            (Inr (), t\<lparr>current_root := root, accesses := accesses t @ [Access_Write w]\<rparr>, c'))"

section \<open>The caches are transparent\<close>

text \<open>The relation without caches: what \<open>verify\<close> accepts on an empty cache.\<close>

definition rom_read_check :: "digest \<Rightarrow> rom_read \<Rightarrow> commitment_root \<Rightarrow> rom_read_error + unit" where
  "rom_read_check sha r root = fst (rom_read_verify sha r root empty_caches)"

definition memory_read_check :: "digest \<Rightarrow> memory_read \<Rightarrow> commitment_root \<Rightarrow> memory_transcript_error + unit" where
  "memory_read_check sha r root = fst (memory_read_verify sha r root empty_caches)"

definition memory_write_check ::
  "digest \<Rightarrow> memory_write \<Rightarrow> commitment_root \<Rightarrow> memory_transcript_error + commitment_root" where
  "memory_write_check sha w root = fst (memory_write_verify sha w root empty_caches)"

text \<open>Every cached witness derives its key's root, and the caches respect their capacities.\<close>

definition caches_valid :: "digest \<Rightarrow> verification_caches \<Rightarrow> bool" where
  "caches_valid sha c \<longleftrightarrow>
     (\<forall>k w. map_of (rom_cache c) k = Some w \<longrightarrow>
        derive_root sha RomLeaf RomNode (rk_physical_address k) (vr_value w) (vr_path w) = rk_expected_root k) \<and>
     (\<forall>k w. map_of (memory_read_cache c) k = Some w \<longrightarrow>
        mutable_root sha (mk_physical_address k) (vm_value w) (vm_path w) = mk_expected_root k) \<and>
     (\<forall>k w. map_of (memory_write_cache c) k = Some w \<longrightarrow>
        mutable_root sha (wk_physical_address k) (vw_before w) (vw_path w) = wk_expected_root k \<and>
        mutable_root sha (wk_physical_address k) (wk_after k) (vw_path w) = vw_after_root w) \<and>
     length (rom_cache c) \<le> ROM_VERIFICATION_CACHE_CAPACITY \<and>
     length (memory_read_cache c) \<le> MEMORY_VERIFICATION_CACHE_CAPACITY \<and>
     length (memory_write_cache c) \<le> MEMORY_VERIFICATION_CACHE_CAPACITY"

lemma empty_caches_valid [simp]: "caches_valid sha empty_caches"
  by (simp add: caches_valid_def empty_caches_def)

lemma update_capacity: "length c < n \<Longrightarrow> length (AList.update k v c) \<le> n"
  by (induction c arbitrary: n) (auto, metis Suc_lessE Suc_le_mono)

lemma insert_bounded_get:
  "map_of (insert_bounded c k v) k' = Some w \<Longrightarrow> (k' = k \<and> w = v) \<or> map_of c k' = Some w"
  by (auto simp: insert_bounded_def Let_def update_conv' split: if_splits)

lemma insert_bounded_capacity: "length (insert_bounded c k v) \<le> MEMORY_VERIFICATION_CACHE_CAPACITY"
  by (simp add: insert_bounded_def Let_def update_capacity MEMORY_VERIFICATION_CACHE_CAPACITY_def)

lemma rom_read_verify_exact:
  assumes "caches_valid sha c"
  shows "fst (rom_read_verify sha r root c) = rom_read_check sha r root \<and>
    caches_valid sha (snd (rom_read_verify sha r root c))"
proof -
  have cached: "derive_root sha RomLeaf RomNode (rr_physical_address r) (rr_value r) (rr_path r) = root"
    if "map_of (rom_cache c) \<lparr>rk_expected_root = root, rk_physical_address = rr_physical_address r\<rparr> =
        Some \<lparr>vr_value = rr_value r, vr_path = rr_path r\<rparr>"
    using assms that by (fastforce simp: caches_valid_def)
  show ?thesis
    using assms cached
    by (auto simp: rom_read_verify_def rom_read_check_def cached_rom_witness_def empty_caches_def Let_def
        cache_verified_rom_witness_def caches_valid_def update_conv' update_capacity
        split: sum.split if_splits)
qed

lemma memory_read_verify_exact:
  assumes "caches_valid sha c"
  shows "fst (memory_read_verify sha r root c) = memory_read_check sha r root \<and>
    caches_valid sha (snd (memory_read_verify sha r root c))"
proof -
  have cached: "mutable_root sha (mr_physical_address r) (mr_value r) (mr_path r) = root"
    if "map_of (memory_read_cache c) \<lparr>mk_expected_root = root, mk_physical_address = mr_physical_address r\<rparr> =
        Some \<lparr>vm_value = mr_value r, vm_path = mr_path r\<rparr>"
    using assms that by (fastforce simp: caches_valid_def)
  show ?thesis
    using assms cached
    by (auto simp: memory_read_verify_def memory_read_check_def cached_memory_read_def empty_caches_def
        Let_def cache_verified_memory_read_def caches_valid_def require_root_def insert_bounded_capacity
        dest!: insert_bounded_get split: sum.split if_splits)
qed

lemma memory_write_derive_exact:
  assumes "caches_valid sha c" "wk_physical_address key = mw_physical_address w"
    "wk_expected_root key = root" "wk_after key = mw_after w"
  shows "caches_valid sha (snd (memory_write_derive sha w root key c))"
  using assms
  by (auto simp: memory_write_derive_def Let_def cache_verified_memory_write_def caches_valid_def
      require_root_def insert_bounded_capacity dest!: insert_bounded_get split: sum.split if_splits)

lemma memory_write_derive_result:
  "fst (memory_write_derive sha w root key c) =
     and_then (require_root root (mutable_root sha (mw_physical_address w) (mw_before w) (mw_path w)))
       (\<lambda>_. Inr (mutable_root sha (mw_physical_address w) (mw_after w) (mw_path w)))"
  by (simp add: memory_write_derive_def Let_def split: sum.split)

lemma memory_write_verify_exact:
  assumes "caches_valid sha c"
  shows "fst (memory_write_verify sha w root c) = memory_write_check sha w root \<and>
    caches_valid sha (snd (memory_write_verify sha w root c))"
proof -
  let ?key = "\<lparr>wk_expected_root = root, wk_physical_address = mw_physical_address w, wk_after = mw_after w\<rparr>"
  have cached: "mutable_root sha (mw_physical_address w) (mw_before w) (mw_path w) = root \<and>
      mutable_root sha (mw_physical_address w) (mw_after w) (mw_path w) = vw_after_root v"
    if "map_of (memory_write_cache c) ?key = Some v" "vw_before v = mw_before w" "vw_path v = mw_path w" for v
    using assms that by (fastforce simp: caches_valid_def)
  have "memory_write_check sha w root =
      and_then (and_then (validate_memory_address (mw_address w))
          (\<lambda>_. validate_physical_memory_address (mw_physical_address w)))
        (\<lambda>_. fst (memory_write_derive sha w root ?key c))"
    by (simp add: memory_write_check_def memory_write_verify_def cached_memory_write_def empty_caches_def
        Let_def memory_write_derive_result split: sum.split)
  moreover have "fst (memory_write_derive sha w root ?key c) = Inr (vw_after_root v)"
    if "map_of (memory_write_cache c) ?key = Some v" "vw_before v = mw_before w" "vw_path v = mw_path w" for v
    using cached [OF that] by (simp add: memory_write_derive_result require_root_def)
  ultimately show ?thesis
    using assms memory_write_derive_exact [OF assms, of ?key w root]
    by (simp add: memory_write_verify_def cached_memory_write_def Let_def split: sum.split option.split)
qed

section \<open>The relation\<close>

lemma rom_read_check_iff:
  "rom_read_check sha r root = Inr u \<longleftrightarrow>
     owner (rr_address r) = Own_Rom \<and> rr_physical_address r < 2 ^ 20 \<and>
     derive_root sha RomLeaf RomNode (rr_physical_address r) (rr_value r) (rr_path r) = root"
  by (auto simp: rom_read_check_def rom_read_verify_def validate_physical_address_def empty_caches_def
      cached_rom_witness_def Let_def push_bit_eq_mult)

lemma memory_read_check_iff:
  "memory_read_check sha r root = Inr u \<longleftrightarrow>
     (owner (mr_address r) = Own_Memory \<or> dmg_owner (mr_address r) = Own_Memory) \<and>
     mr_physical_address r < 2 ^ 20 \<and>
     mutable_root sha (mr_physical_address r) (mr_value r) (mr_path r) = root"
  by (auto simp: memory_read_check_def memory_read_verify_def validate_physical_memory_address_def
      validate_memory_address_def require_root_def empty_caches_def cached_memory_read_def Let_def
      push_bit_eq_mult)

lemma memory_write_check_iff:
  "memory_write_check sha w root = Inr root' \<longleftrightarrow>
     (owner (mw_address w) = Own_Memory \<or> dmg_owner (mw_address w) = Own_Memory) \<and>
     mw_physical_address w < 2 ^ 20 \<and>
     mutable_root sha (mw_physical_address w) (mw_before w) (mw_path w) = root \<and>
     mutable_root sha (mw_physical_address w) (mw_after w) (mw_path w) = root'"
  by (auto simp: memory_write_check_def memory_write_verify_def validate_physical_memory_address_def
      validate_memory_address_def require_root_def empty_caches_def cached_memory_write_def
      memory_write_derive_def Let_def push_bit_eq_mult)

end
