(* ===== verification/Image.thy ===== *)
theory Image
  imports Merkle_Tree Transcript
begin

text \<open>
  ROM and mutable-memory images (\<open>zksm83-memory/src/image.rs\<close>): the constructors with their
  padding and length checks, the authenticated reads and writes, checkpoints and battery SRAM.
\<close>

section \<open>ROM image\<close>

record rom_image =
  ri_tree :: merkle_tree

datatype rom_image_error =
    RI_EmptyProgram
  | RI_ProgramTooLarge nat nat
  | RI_AddressNotRom u16
  | RI_PhysicalAddressOutOfRange u32
  | RI_CommitmentInvariant

text \<open>\<open>checked_next_power_of_two\<close> of a 64-bit \<open>usize\<close>, and \<open>Vec::resize\<close> with zero.\<close>

definition checked_next_power_of_two :: "nat \<Rightarrow> nat option" where
  "checked_next_power_of_two n =
     (let p = (if n \<le> 1 then 1 else 2 ^ Suc (ilog2 (n - 1))) in if p < 2 ^ 64 then Some p else None)"

definition vec_resize :: "nat \<Rightarrow> u8 list \<Rightarrow> u8 list" where
  "vec_resize n bs = take n bs @ replicate (n - length bs) 0"

definition rom_image_new :: "digest \<Rightarrow> u8 list \<Rightarrow> rom_image_error + rom_image" where
  "rom_image_new sha program =
     (if program = [] then Inl RI_EmptyProgram
      else if length program > ROM_BYTES then Inl (RI_ProgramTooLarge (length program) ROM_BYTES)
      else
        and_then (ok_or RI_CommitmentInvariant (checked_next_power_of_two (length program))) (\<lambda>p.
          let stored_bytes = max p CPU_ADDRESS_SPACE_BYTES;
              bytes = vec_resize stored_bytes program
          in and_then (map_err (\<lambda>_. RI_CommitmentInvariant) (tree_build sha Kind_Rom bytes)) (\<lambda>tree.
               Inr \<lparr>ri_tree = tree\<rparr>)))"

definition rom_image_root :: "rom_image \<Rightarrow> commitment_root" where
  "rom_image_root img = mt_root (ri_tree img)"

definition rom_image_read_mapped :: "rom_image \<Rightarrow> u16 \<Rightarrow> u32 \<Rightarrow> rom_image_error + rom_read" where
  "rom_image_read_mapped img address physical_address =
     (if owner address \<noteq> Own_Rom then Inl (RI_AddressNotRom address)
      else
        and_then (map_err (\<lambda>_. RI_PhysicalAddressOutOfRange physical_address)
            (tree_read (ri_tree img) physical_address)) (\<lambda>(v, path).
          Inr \<lparr>rr_address = address, rr_physical_address = physical_address, rr_value = v, rr_path = path\<rparr>))"

definition rom_image_read :: "rom_image \<Rightarrow> u16 \<Rightarrow> rom_image_error + rom_read" where
  "rom_image_read img address = rom_image_read_mapped img address (ucast address)"

section \<open>Memory image\<close>

record memory_image =
  mi_tree :: merkle_tree

datatype memory_image_error =
    MI_InitialMemoryTooLarge nat nat
  | MI_InvalidCheckpointLength nat nat
  | MI_InvalidBatterySramLength nat nat
  | MI_AddressNotMutable u16
  | MI_PhysicalAddressOutOfRange u32
  | MI_CommitmentInvariant

definition MUTABLE_BYTES :: nat where
  "MUTABLE_BYTES = 32752"

definition MUTABLE_COMMITMENT_BYTES :: nat where
  "MUTABLE_COMMITMENT_BYTES = 131072"

definition BATTERY_SRAM_START :: nat where
  "BATTERY_SRAM_START = 0x10000"

definition BATTERY_SRAM_BYTES :: nat where
  "BATTERY_SRAM_BYTES = 32768"

definition memory_tree :: "digest \<Rightarrow> u8 list \<Rightarrow> memory_image_error + memory_image" where
  "memory_tree sha bytes =
     and_then (map_err (\<lambda>_. MI_CommitmentInvariant) (tree_build sha Kind_Memory bytes)) (\<lambda>tree.
       Inr \<lparr>mi_tree = tree\<rparr>)"

definition memory_image_new :: "digest \<Rightarrow> u8 list \<Rightarrow> memory_image_error + memory_image" where
  "memory_image_new sha initial_bytes =
     (if length initial_bytes > MUTABLE_BYTES
      then Inl (MI_InitialMemoryTooLarge (length initial_bytes) MUTABLE_BYTES)
      else
        and_then (try_fold (\<lambda>bytes (address, v). ok_or MI_CommitmentInvariant (vec_set bytes address v))
            (replicate MUTABLE_COMMITMENT_BYTES 0) (zip [0x8000..<0xfff0] initial_bytes))
          (memory_tree sha))"

definition memory_image_zeroed :: "digest \<Rightarrow> memory_image_error + memory_image" where
  "memory_image_zeroed sha = memory_image_new sha []"

definition memory_image_from_checkpoint :: "digest \<Rightarrow> u8 list \<Rightarrow> memory_image_error + memory_image" where
  "memory_image_from_checkpoint sha bytes =
     (if length bytes \<noteq> MUTABLE_COMMITMENT_BYTES
      then Inl (MI_InvalidCheckpointLength (length bytes) MUTABLE_COMMITMENT_BYTES)
      else memory_tree sha bytes)"

text \<open>\<open>get_mut(start..end)\<close> with \<open>copy_from_slice\<close>, and \<open>get(start..end)\<close>.\<close>

definition vec_copy :: "u8 list \<Rightarrow> nat \<Rightarrow> nat \<Rightarrow> u8 list \<Rightarrow> u8 list option" where
  "vec_copy bs start stop xs =
     (if start \<le> stop \<and> stop \<le> length bs then Some (take start bs @ xs @ drop stop bs) else None)"

definition vec_slice :: "u8 list \<Rightarrow> nat \<Rightarrow> nat \<Rightarrow> u8 list option" where
  "vec_slice bs start stop =
     (if start \<le> stop \<and> stop \<le> length bs then Some (take (stop - start) (drop start bs)) else None)"

definition memory_image_with_battery_sram :: "digest \<Rightarrow> u8 list \<Rightarrow> memory_image_error + memory_image" where
  "memory_image_with_battery_sram sha sram =
     (if length sram \<noteq> BATTERY_SRAM_BYTES
      then Inl (MI_InvalidBatterySramLength (length sram) BATTERY_SRAM_BYTES)
      else
        and_then (ok_or MI_CommitmentInvariant
            (vec_copy (replicate MUTABLE_COMMITMENT_BYTES 0) BATTERY_SRAM_START
               (BATTERY_SRAM_START + BATTERY_SRAM_BYTES) sram))
          (memory_tree sha))"

definition checkpoint_bytes :: "memory_image \<Rightarrow> u8 list" where
  "checkpoint_bytes img = mt_bytes (mi_tree img)"

definition battery_sram_bytes :: "memory_image \<Rightarrow> memory_image_error + u8 list" where
  "battery_sram_bytes img =
     ok_or MI_CommitmentInvariant
       (vec_slice (mt_bytes (mi_tree img)) BATTERY_SRAM_START (BATTERY_SRAM_START + BATTERY_SRAM_BYTES))"

definition memory_image_root :: "memory_image \<Rightarrow> commitment_root" where
  "memory_image_root img = mt_root (mi_tree img)"

definition validate_mutable_address :: "u16 \<Rightarrow> memory_image_error + unit" where
  "validate_mutable_address address =
     (if owner address \<noteq> Own_Memory \<and> dmg_owner address \<noteq> Own_Memory
      then Inl (MI_AddressNotMutable address) else Inr ())"

definition memory_image_read_mapped :: "memory_image \<Rightarrow> u16 \<Rightarrow> u32 \<Rightarrow> memory_image_error + memory_read" where
  "memory_image_read_mapped img address physical_address =
     and_then (validate_mutable_address address) (\<lambda>_.
       and_then (map_err (\<lambda>_. MI_PhysicalAddressOutOfRange physical_address)
           (tree_read (mi_tree img) physical_address)) (\<lambda>(v, path).
         Inr \<lparr>mr_address = address, mr_physical_address = physical_address, mr_value = v, mr_path = path\<rparr>))"

definition memory_image_read :: "memory_image \<Rightarrow> u16 \<Rightarrow> memory_image_error + memory_read" where
  "memory_image_read img address = memory_image_read_mapped img address (ucast address)"

definition preview_write_mapped :: "memory_image \<Rightarrow> u16 \<Rightarrow> u32 \<Rightarrow> u8 \<Rightarrow> memory_image_error + memory_write" where
  "preview_write_mapped img address physical_address after =
     and_then (validate_mutable_address address) (\<lambda>_.
       and_then (map_err (\<lambda>_. MI_PhysicalAddressOutOfRange physical_address)
           (tree_read (mi_tree img) physical_address)) (\<lambda>(before, path).
         Inr \<lparr>mw_address = address, mw_physical_address = physical_address, mw_before = before,
               mw_after = after, mw_path = path\<rparr>))"

definition preview_write :: "memory_image \<Rightarrow> u16 \<Rightarrow> u8 \<Rightarrow> memory_image_error + memory_write" where
  "preview_write img address after = preview_write_mapped img address (ucast address) after"

definition memory_image_write_mapped ::
  "digest \<Rightarrow> memory_image \<Rightarrow> u16 \<Rightarrow> u32 \<Rightarrow> u8 \<Rightarrow> memory_image_error + (memory_write \<times> memory_image)" where
  "memory_image_write_mapped sha img address physical_address after =
     and_then (preview_write_mapped img address physical_address after) (\<lambda>witness.
       and_then (map_err (\<lambda>_. MI_PhysicalAddressOutOfRange physical_address)
           (tree_write sha (mi_tree img) physical_address after)) (\<lambda>tree.
         Inr (witness, img\<lparr>mi_tree := tree\<rparr>)))"

definition memory_image_write ::
  "digest \<Rightarrow> memory_image \<Rightarrow> u16 \<Rightarrow> u8 \<Rightarrow> memory_image_error + (memory_write \<times> memory_image)" where
  "memory_image_write sha img address after = memory_image_write_mapped sha img address (ucast address) after"

section \<open>Images as byte arrays\<close>

text \<open>A well-formed image is the tree of its bytes; the constructors return such images.\<close>

definition memory_of :: "digest \<Rightarrow> u8 list \<Rightarrow> memory_image" where
  "memory_of sha bs = \<lparr>mi_tree = tree_of sha Kind_Memory bs\<rparr>"

definition rom_of :: "digest \<Rightarrow> u8 list \<Rightarrow> rom_image" where
  "rom_of sha bs = \<lparr>ri_tree = tree_of sha Kind_Rom bs\<rparr>"

lemma memory_tree_exact:
  "length bs = MUTABLE_COMMITMENT_BYTES \<Longrightarrow> memory_tree sha bs = Inr (memory_of sha bs)"
proof -
  assume len: "length bs = MUTABLE_COMMITMENT_BYTES"
  have "is_power_of_two (2 ^ 17)" by (rule is_power_of_two_pow2)
  with len have "tree_length_ok (length bs)" by (simp add: tree_length_ok_def MUTABLE_COMMITMENT_BYTES_def)
  then show ?thesis by (simp add: memory_tree_def memory_of_def tree_build_exact)
qed

lemma mutable_length_ok: "length bs = MUTABLE_COMMITMENT_BYTES \<Longrightarrow> tree_length_ok (length bs)"
  using is_power_of_two_pow2 [of 17] by (simp add: tree_length_ok_def MUTABLE_COMMITMENT_BYTES_def)

lemma memory_of_facts [simp]:
  "checkpoint_bytes (memory_of sha bs) = bs"
  "memory_image_root (memory_of sha bs) = tree_commit sha Kind_Memory (padded bs)"
  "mi_tree (memory_of sha bs) = tree_of sha Kind_Memory bs"
  by (simp_all add: checkpoint_bytes_def memory_image_root_def memory_of_def tree_of_def Let_def)

lemma rom_of_facts [simp]:
  "rom_image_root (rom_of sha bs) = tree_commit sha Kind_Rom (padded bs)"
  "ri_tree (rom_of sha bs) = tree_of sha Kind_Rom bs"
  by (simp_all add: rom_image_root_def rom_of_def tree_of_def Let_def)

lemma ilog2_bound: "0 < n \<Longrightarrow> 2 ^ ilog2 n \<le> n \<and> n < 2 ^ Suc (ilog2 n)"
proof (induction n rule: ilog2.induct)
  case (1 n)
  show ?case
  proof (cases "n < 2")
    case True
    with 1 show ?thesis by (subst ilog2.simps) (auto simp: ilog2.simps [of n])
  next
    case False
    then have "2 ^ ilog2 (n div 2) \<le> n div 2 \<and> n div 2 < 2 ^ Suc (ilog2 (n div 2))" using 1 by simp
    moreover have "ilog2 n = Suc (ilog2 (n div 2))" using False by (subst ilog2.simps) simp
    ultimately show ?thesis by auto
  qed
qed

lemma next_power_of_two:
  assumes "0 < n" "n \<le> 2 ^ k" "k < 64"
  shows "\<exists>p. checked_next_power_of_two n = Some p \<and> is_power_of_two p \<and> n \<le> p \<and> p \<le> 2 ^ k"
proof (cases "n = 1")
  case True
  then show ?thesis using is_power_of_two_pow2 [of 0] by (simp add: checked_next_power_of_two_def)
next
  case False
  with assms(1) have n: "0 < n - 1" by simp
  let ?m = "Suc (ilog2 (n - 1))"
  have "2 ^ ilog2 (n - 1) < (2 :: nat) ^ k" using ilog2_bound [OF n] assms by linarith
  then have m: "?m \<le> k" by simp
  then have "(2 :: nat) ^ ?m \<le> 2 ^ k" by (intro power_increasing) simp_all
  moreover have "(2 :: nat) ^ ?m < 2 ^ 64" using m assms(3) by (intro power_strict_increasing) simp_all
  moreover have "n \<le> 2 ^ ?m" using ilog2_bound [OF n] by linarith
  ultimately show ?thesis using False assms(1) is_power_of_two_pow2 [of ?m]
    by (simp add: checked_next_power_of_two_def Let_def)
qed

lemma rom_image_new_exact:
  assumes "program \<noteq> []" "length program \<le> 2 ^ 20"
  shows "\<exists>n. rom_image_new sha program = Inr (rom_of sha (vec_resize n program)) \<and>
    length program \<le> n \<and> tree_length_ok n"
proof -
  obtain p where p: "checked_next_power_of_two (length program) = Some p" "is_power_of_two p"
      "length program \<le> p" "p \<le> 2 ^ 20"
    using next_power_of_two [of "length program" 20] assms by auto
  let ?n = "max p CPU_ADDRESS_SPACE_BYTES"
  have "is_power_of_two 65536" using is_power_of_two_pow2 [of 16] by simp
  with p have ok: "tree_length_ok ?n"
    by (simp add: tree_length_ok_def max_def CPU_ADDRESS_SPACE_BYTES_def)
  have "length (vec_resize ?n program) = ?n" using p(3) by (simp add: vec_resize_def)
  with ok p assms show ?thesis
    by (intro exI [of _ ?n])
       (simp add: rom_image_new_def ROM_BYTES_def Let_def tree_build_exact rom_of_def)
qed

lemma padded_resize: "length bs \<le> n \<Longrightarrow> padded (vec_resize n bs) = padded bs"
  by (auto simp: padded_def vec_resize_def nth_append)

end
