(* ===== verification/Hash_Chain.thy ===== *)
theory Hash_Chain
  imports Commitment
begin

text \<open>
  Ordered hash chains.  The byte logs, the bus transcript and the ISA transcript all extend a
  root with one element under its ordinal; this theory states that contract once, as a locale,
  and proves that the root of a chain binds the whole element sequence.
\<close>

section \<open>Chains\<close>

text \<open>
  The root of a chain over a list of elements, newest first, and the messages hashed to reach
  it: \<open>seed\<close> is the message of the empty chain, \<open>enc r i e\<close> the message that extends root \<open>r\<close>
  with the element \<open>e\<close> at ordinal \<open>i\<close>.
\<close>

primrec chain_root ::
  "digest \<Rightarrow> u8 list \<Rightarrow> (commitment_root \<Rightarrow> u64 \<Rightarrow> 'e \<Rightarrow> u8 list) \<Rightarrow> 'e list \<Rightarrow> commitment_root" where
  "chain_root sha seed enc [] = sha seed"
| "chain_root sha seed enc (e # es) =
     sha (enc (chain_root sha seed enc es) (word_of_nat (length es)) e)"

primrec chain_messages ::
  "digest \<Rightarrow> u8 list \<Rightarrow> (commitment_root \<Rightarrow> u64 \<Rightarrow> 'e \<Rightarrow> u8 list) \<Rightarrow> 'e list \<Rightarrow> u8 list list" where
  "chain_messages sha seed enc [] = [seed]"
| "chain_messages sha seed enc (e # es) =
     enc (chain_root sha seed enc es) (word_of_nat (length es)) e # chain_messages sha seed enc es"

lemma chain_root_head: "chain_root sha seed enc es = sha (hd (chain_messages sha seed enc es))"
  by (cases es) simp_all

locale hash_chain =
  fixes seed :: "u8 list"
    and enc :: "commitment_root \<Rightarrow> u64 \<Rightarrow> 'e \<Rightarrow> u8 list"
  assumes enc_inject: "enc r i e = enc r' i' e' \<Longrightarrow> r = r' \<and> i = i' \<and> e = e'"
    and enc_fresh: "enc r i e \<noteq> seed"
begin

lemma chain_binding:
  "chain_root sha seed enc xs = chain_root sha seed enc ys \<Longrightarrow>
     xs = ys \<or> collision_in sha (chain_messages sha seed enc xs) (chain_messages sha seed enc ys)"
proof (induction xs arbitrary: ys)
  case Nil
  then show ?case
  proof (cases ys)
    case (Cons y ys')
    then have "collide sha seed (enc (chain_root sha seed enc ys') (word_of_nat (length ys')) y)"
      using Nil.prems enc_fresh by (metis chain_root.simps collide_def)
    then show ?thesis using Cons by (auto simp: collision_in_def)
  qed simp
next
  case (Cons x xs)
  show ?case
  proof (cases ys)
    case Nil
    then have "collide sha (enc (chain_root sha seed enc xs) (word_of_nat (length xs)) x) seed"
      using Cons.prems enc_fresh by (metis chain_root.simps collide_def)
    then show ?thesis using Nil by auto
  next
    case (Cons y ys')
    show ?thesis
    proof (cases "enc (chain_root sha seed enc xs) (word_of_nat (length xs)) x =
                  enc (chain_root sha seed enc ys') (word_of_nat (length ys')) y")
      case True
      then have "x = y" "chain_root sha seed enc xs = chain_root sha seed enc ys'"
        using enc_inject by blast+
      with Cons.IH [of ys'] \<open>ys = y # ys'\<close> show ?thesis by auto
    next
      case False
      with Cons.prems \<open>ys = y # ys'\<close> show ?thesis by (auto simp: collide_def)
    qed
  qed
qed

end

text \<open>
  Folding \<open>append\<close> over a sequence: an accumulator that counts its elements and steps by \<open>enc\<close>
  reaches the root of the chain.
\<close>

lemma try_fold_chain:
  assumes step: "\<And>a e a'. app a e = Inr a' \<Longrightarrow>
      idx a' = idx a + 1 \<and> rt a' = sha (enc (rt a) (idx a) e)"
    and run: "try_fold app a es = Inr b"
    and start: "rt a = chain_root sha seed enc ds" "idx a = word_of_nat (length ds)"
  shows "rt b = chain_root sha seed enc (rev es @ ds) \<and> idx b = word_of_nat (length ds + length es)"
  using run start
proof (induction es arbitrary: a ds)
  case (Cons e es)
  then obtain a' where a': "app a e = Inr a'" "try_fold app a' es = Inr b" by auto
  with step [OF a'(1)] Cons.prems have
    "rt a' = chain_root sha seed enc (e # ds)" "idx a' = word_of_nat (length (e # ds))" by simp_all
  from Cons.IH [OF a'(2) this] show ?case by simp
qed simp

end
