(* ===== verification/Logs.thy ===== *)
theory Logs
  imports Hash_Chain
begin

text \<open>
  The ordered commitments of \<open>zksm83-memory\<close>: input and output byte logs (\<open>log.rs\<close>), the bus
  transcript (\<open>bus_transcript.rs\<close>) and the ISA transcript (\<open>isa_transcript.rs\<close>).  Each is a hash
  chain: the interpretations at the end discharge the chain laws for the three encodings.
\<close>

section \<open>Byte logs\<close>

datatype log_kind = Log_Input | Log_Output

record log_accumulator =
  log_kind :: log_kind
  log_next_index :: u64
  log_root :: commitment_root

datatype log_error = LogIndexOverflow

fun log_empty_domain :: "log_kind \<Rightarrow> hash_domain" where
  "log_empty_domain Log_Input = InputEmpty"
| "log_empty_domain Log_Output = OutputEmpty"

fun log_element_domain :: "log_kind \<Rightarrow> hash_domain" where
  "log_element_domain Log_Input = InputElement"
| "log_element_domain Log_Output = OutputElement"

definition log_empty :: "digest \<Rightarrow> log_kind \<Rightarrow> log_accumulator" where
  "log_empty sha kind =
     \<lparr>log_kind = kind, log_next_index = 0, log_root = hash_parts sha (log_empty_domain kind) [] []\<rparr>"

definition log_append :: "digest \<Rightarrow> log_accumulator \<Rightarrow> u8 \<Rightarrow> log_error + log_accumulator" where
  "log_append sha acc v =
     and_then (ok_or LogIndexOverflow (checked_add (log_next_index acc) 1)) (\<lambda>next_index.
       let element = to_le_bytes (log_next_index acc) @ [v];
           root = hash_parts sha (log_element_domain (log_kind acc)) (root_to_bytes (log_root acc)) element
       in Inr \<lparr>log_kind = log_kind acc, log_next_index = next_index, log_root = root\<rparr>)"

definition log_commit :: "digest \<Rightarrow> log_kind \<Rightarrow> u8 list \<Rightarrow> log_error + log_accumulator" where
  "log_commit sha kind values = try_fold (log_append sha) (log_empty sha kind) values"

section \<open>Bus transcript\<close>

record bus_transcript_event =
  ev_kind :: u8
  ev_address :: u16
  ev_physical_address :: u32
  ev_before :: u8
  ev_auxiliary :: u8
  ev_value :: u8
  ev_index :: u64

definition canonical_bytes :: "bus_transcript_event \<Rightarrow> u64 \<Rightarrow> u8 list" where
  "canonical_bytes e transcript_index =
     [ev_kind e] @ to_le_bytes (ev_address e) @ to_le_bytes (ev_physical_address e)
       @ [ev_before e] @ [ev_auxiliary e] @ [ev_value e]
       @ to_le_bytes (ev_index e) @ to_le_bytes transcript_index"

record bus_transcript =
  bt_next_index :: u64
  bt_root :: commitment_root

datatype bus_transcript_error = BusIndexOverflow | NonCanonicalEvent

definition bus_transcript_empty :: "digest \<Rightarrow> bus_transcript" where
  "bus_transcript_empty sha =
     \<lparr>bt_next_index = 0, bt_root = hash_parts sha BusTranscriptEmpty [] []\<rparr>"

definition bus_transcript_append ::
  "digest \<Rightarrow> bus_transcript \<Rightarrow> bus_transcript_event \<Rightarrow> bus_transcript_error + bus_transcript" where
  "bus_transcript_append sha acc e =
     (if ev_kind e \<ge> 19 \<or> ev_physical_address e \<ge> push_bit 20 1 then Inl NonCanonicalEvent
      else
        and_then (ok_or BusIndexOverflow (checked_add (bt_next_index acc) 1)) (\<lambda>next_index.
          let encoded = canonical_bytes e (bt_next_index acc);
              root = hash_parts sha BusTranscriptElement (root_to_bytes (bt_root acc)) encoded
          in Inr \<lparr>bt_next_index = next_index, bt_root = root\<rparr>))"

section \<open>ISA transcript\<close>

definition PACKED_ROW_BITS :: nat where
  "PACKED_ROW_BITS = 106"

definition PACKED_ROW_LIMIT :: u128 where
  "PACKED_ROW_LIMIT = push_bit PACKED_ROW_BITS 1"

record isa_transcript =
  it_next_index :: u64
  it_root :: commitment_root

datatype isa_transcript_error = IsaIndexOverflow | NonCanonicalRow

definition isa_transcript_empty :: "digest \<Rightarrow> isa_transcript" where
  "isa_transcript_empty sha =
     \<lparr>it_next_index = 0, it_root = hash_parts sha IsaTranscriptEmpty [] []\<rparr>"

definition isa_transcript_append ::
  "digest \<Rightarrow> isa_transcript \<Rightarrow> u128 \<Rightarrow> isa_transcript_error + isa_transcript" where
  "isa_transcript_append sha acc packed_row =
     (if packed_row \<ge> PACKED_ROW_LIMIT then Inl NonCanonicalRow
      else
        and_then (ok_or IsaIndexOverflow (checked_add (it_next_index acc) 1)) (\<lambda>next_index.
          let row = to_le_bytes (it_next_index acc) @ to_le_bytes packed_row;
              root = hash_parts sha IsaTranscriptElement (root_to_bytes (it_root acc)) row
          in Inr \<lparr>it_next_index = next_index, it_root = root\<rparr>))"

section \<open>The messages\<close>

text \<open>The message each accumulator hashes for an element, as a chain encoding.\<close>

definition log_message :: "log_kind \<Rightarrow> commitment_root \<Rightarrow> u64 \<Rightarrow> u8 \<Rightarrow> u8 list" where
  "log_message kind r i v =
     hash_preimage (log_element_domain kind) (root_to_bytes r) (to_le_bytes i @ [v])"

definition bus_message :: "commitment_root \<Rightarrow> u64 \<Rightarrow> bus_transcript_event \<Rightarrow> u8 list" where
  "bus_message r i e = hash_preimage BusTranscriptElement (root_to_bytes r) (canonical_bytes e i)"

definition isa_message :: "commitment_root \<Rightarrow> u64 \<Rightarrow> u128 \<Rightarrow> u8 list" where
  "isa_message r i row =
     hash_preimage IsaTranscriptElement (root_to_bytes r) (to_le_bytes i @ to_le_bytes row)"

abbreviation empty_message :: "hash_domain \<Rightarrow> u8 list" where
  "empty_message d \<equiv> hash_preimage d [] []"

lemma canonical_bytes_inject: "canonical_bytes e i = canonical_bytes e' i' \<longleftrightarrow> e = e' \<and> i = i'"
  by (cases e; cases e') (auto simp: canonical_bytes_def to_le_bytes_inject)

lemma root_message_inject:
  "hash_preimage d (root_to_bytes r) x = hash_preimage d' (root_to_bytes r') y \<longleftrightarrow>
     d = d' \<and> r = r' \<and> x = y"
  by (simp add: hash_preimage_inject)

lemma root_message_fresh: "hash_preimage d (root_to_bytes r) x \<noteq> empty_message d'"
proof
  assume "hash_preimage d (root_to_bytes r) x = empty_message d'"
  then have "root_to_bytes r = []" by (subst (asm) hash_preimage_inject) simp_all
  then show False by (metis length_root_to_bytes list.size(3) zero_neq_numeral)
qed

interpretation byte_log: hash_chain "empty_message (log_empty_domain kind)" "log_message kind"
  for kind
  by unfold_locales
    (auto simp: log_message_def root_message_inject root_message_fresh to_le_bytes_inject)

interpretation bus_chain: hash_chain "empty_message BusTranscriptEmpty" bus_message
  by unfold_locales
    (auto simp: bus_message_def root_message_inject root_message_fresh canonical_bytes_inject)

interpretation isa_chain: hash_chain "empty_message IsaTranscriptEmpty" isa_message
  by unfold_locales
    (auto simp: isa_message_def root_message_inject root_message_fresh to_le_bytes_inject)

section \<open>Accumulators as chains\<close>

lemma log_append_step:
  "log_append sha a v = Inr a' \<Longrightarrow>
     log_kind a' = log_kind a \<and> log_next_index a' = log_next_index a + 1 \<and>
     log_root a' = sha (log_message (log_kind a) (log_root a) (log_next_index a) v)"
  by (auto simp: log_append_def log_message_def hash_parts_def checked_add_def Let_def
      split: if_splits)

lemma bus_append_step:
  "bus_transcript_append sha a e = Inr a' \<Longrightarrow>
     bt_next_index a' = bt_next_index a + 1 \<and>
     bt_root a' = sha (bus_message (bt_root a) (bt_next_index a) e)"
  by (auto simp: bus_transcript_append_def bus_message_def hash_parts_def checked_add_def Let_def
      split: if_splits)

lemma isa_append_step:
  "isa_transcript_append sha a row = Inr a' \<Longrightarrow>
     it_next_index a' = it_next_index a + 1 \<and>
     it_root a' = sha (isa_message (it_root a) (it_next_index a) row)"
  by (auto simp: isa_transcript_append_def isa_message_def hash_parts_def checked_add_def Let_def
      split: if_splits)

definition log_root_of :: "digest \<Rightarrow> log_kind \<Rightarrow> u8 list \<Rightarrow> commitment_root" where
  "log_root_of sha kind vs =
     chain_root sha (empty_message (log_empty_domain kind)) (log_message kind) (rev vs)"

definition log_messages :: "digest \<Rightarrow> log_kind \<Rightarrow> u8 list \<Rightarrow> u8 list list" where
  "log_messages sha kind vs =
     chain_messages sha (empty_message (log_empty_domain kind)) (log_message kind) (rev vs)"

definition bus_root_of :: "digest \<Rightarrow> bus_transcript_event list \<Rightarrow> commitment_root" where
  "bus_root_of sha es = chain_root sha (empty_message BusTranscriptEmpty) bus_message (rev es)"

definition bus_messages :: "digest \<Rightarrow> bus_transcript_event list \<Rightarrow> u8 list list" where
  "bus_messages sha es = chain_messages sha (empty_message BusTranscriptEmpty) bus_message (rev es)"

definition isa_root_of :: "digest \<Rightarrow> u128 list \<Rightarrow> commitment_root" where
  "isa_root_of sha rows = chain_root sha (empty_message IsaTranscriptEmpty) isa_message (rev rows)"

definition isa_messages :: "digest \<Rightarrow> u128 list \<Rightarrow> u8 list list" where
  "isa_messages sha rows = chain_messages sha (empty_message IsaTranscriptEmpty) isa_message (rev rows)"

lemma log_fold_kind:
  "try_fold (log_append sha) a vs = Inr b \<Longrightarrow> log_kind b = log_kind a"
  by (induction vs arbitrary: a) (auto dest: log_append_step)

lemma log_fold_chain:
  "try_fold (log_append sha) a vs = Inr b \<Longrightarrow>
   log_root a = log_root_of sha (log_kind a) us \<Longrightarrow> log_next_index a = word_of_nat (length us) \<Longrightarrow>
     log_root b = log_root_of sha (log_kind a) (us @ vs) \<and>
     log_next_index b = word_of_nat (length us + length vs)"
proof (induction vs arbitrary: a us)
  case (Cons v vs)
  then obtain a' where a': "log_append sha a v = Inr a'" "try_fold (log_append sha) a' vs = Inr b"
    by auto
  with log_append_step [OF a'(1)] Cons.prems
  have "log_root a' = log_root_of sha (log_kind a') (us @ [v])"
    "log_next_index a' = word_of_nat (length (us @ [v]))" "log_kind a' = log_kind a"
    by (simp_all add: log_root_of_def)
  with Cons.IH [OF a'(2), of "us @ [v]"] show ?case by simp
qed simp

lemma log_commit_chain:
  assumes "log_commit sha kind vs = Inr a"
  shows "log_kind a = kind \<and> log_root a = log_root_of sha kind vs \<and>
    log_next_index a = word_of_nat (length vs)"
  using log_fold_chain [of sha "log_empty sha kind" vs a "[]"] log_fold_kind [of sha _ vs a] assms
  by (simp add: log_commit_def log_empty_def log_root_of_def hash_parts_def)

lemma bus_fold_chain:
  assumes "try_fold (bus_transcript_append sha) (bus_transcript_empty sha) es = Inr a"
  shows "bt_root a = bus_root_of sha es \<and> bt_next_index a = word_of_nat (length es)"
  using try_fold_chain [where app = "bus_transcript_append sha" and idx = bt_next_index
      and rt = bt_root and sha = sha and enc = bus_message and ds = "[]", OF bus_append_step [of sha] assms]
  by (simp add: bus_root_of_def bus_transcript_empty_def hash_parts_def)

lemma isa_fold_chain:
  assumes "try_fold (isa_transcript_append sha) (isa_transcript_empty sha) rows = Inr a"
  shows "it_root a = isa_root_of sha rows \<and> it_next_index a = word_of_nat (length rows)"
  using try_fold_chain [where app = "isa_transcript_append sha" and idx = it_next_index
      and rt = it_root and sha = sha and enc = isa_message and ds = "[]", OF isa_append_step [of sha] assms]
  by (simp add: isa_root_of_def isa_transcript_empty_def hash_parts_def)

text \<open>Appending succeeds exactly on canonical elements while the ordinal can advance.\<close>

lemma append_total:
  "is_ok (log_append sha a v) \<longleftrightarrow> unat (log_next_index a) + 1 < 2 ^ 64"
  "is_ok (bus_transcript_append sha t e) \<longleftrightarrow>
     ev_kind e < 19 \<and> ev_physical_address e < 2 ^ 20 \<and> unat (bt_next_index t) + 1 < 2 ^ 64"
  "is_ok (isa_transcript_append sha u row) \<longleftrightarrow>
     row < 2 ^ 106 \<and> unat (it_next_index u) + 1 < 2 ^ 64"
  by (simp_all add: log_append_def bus_transcript_append_def isa_transcript_append_def
      checked_add_def Let_def PACKED_ROW_LIMIT_def PACKED_ROW_BITS_def push_bit_eq_mult not_le not_less
      linorder_not_less)

end
