(* ===== verification/Openings.thy ===== *)
theory Openings
  imports Transcript
begin

text \<open>
  Soundness of single verified openings: a witness accepted under the root of a byte store
  carries the store's byte, unless the derivation exhibits a hash collision.
\<close>

text \<open>
  The collision a false opening exhibits: one message of the opening's own derivation and one of
  the derivation along the store's path have the same digest and differ.
\<close>

definition opening_collision ::
  "digest \<Rightarrow> tree_kind \<Rightarrow> (nat \<Rightarrow> u8) \<Rightarrow> u32 \<Rightarrow> u8 \<Rightarrow> merkle_path \<Rightarrow> bool" where
  "opening_collision sha kind f a v p \<longleftrightarrow>
     collision_in sha (derive_messages sha (leaf_domain kind) (node_domain kind) a v p)
       (derive_messages sha (leaf_domain kind) (node_domain kind) a (f (unat a)) (tree_path sha kind f (unat a)))"

lemma u32_bound: "(a :: u32) < 2 ^ 20 \<Longrightarrow> unat a < 2 ^ 20"
  by (simp add: word_less_nat_alt)

lemma memory_read_sound:
  assumes "path_wf (mr_path r)" "memory_read_check sha r (tree_commit sha Kind_Memory f) = Inr u"
  shows "mr_value r = f (unat (mr_physical_address r)) \<or>
    opening_collision sha Kind_Memory f (mr_physical_address r) (mr_value r) (mr_path r)"
  using assms memory_store.read_sound [OF u32_bound, of "mr_physical_address r" "mr_path r" sha "mr_value r" f]
  by (auto simp: memory_read_check_iff opening_collision_def)

lemma rom_read_sound:
  assumes "path_wf (rr_path r)" "rom_read_check sha r (tree_commit sha Kind_Rom f) = Inr u"
  shows "rr_value r = f (unat (rr_physical_address r)) \<or>
    opening_collision sha Kind_Rom f (rr_physical_address r) (rr_value r) (rr_path r)"
  using assms rom_store.read_sound [OF u32_bound, of "rr_physical_address r" "rr_path r" sha "rr_value r" f]
  by (auto simp: rom_read_check_iff opening_collision_def)

lemma memory_write_sound:
  assumes "path_wf (mw_path w)" "memory_write_check sha w (tree_commit sha Kind_Memory f) = Inr root"
  shows "(mw_before w = f (unat (mw_physical_address w)) \<and>
      root = tree_commit sha Kind_Memory (f(unat (mw_physical_address w) := mw_after w))) \<or>
    opening_collision sha Kind_Memory f (mw_physical_address w) (mw_before w) (mw_path w)"
  using assms memory_store.read_sound [OF u32_bound, of "mw_physical_address w" "mw_path w" sha "mw_before w" f]
    memory_store.write_sound [OF u32_bound, of "mw_physical_address w" "mw_path w" sha "mw_before w" f "mw_after w"]
  by (auto simp: memory_write_check_iff opening_collision_def)

section \<open>The constant digest\<close>

lemma zero_digest_root: "derive_root (\<lambda>_. 0) ld nd a v p = 0"
proof -
  have "derive_loop (\<lambda>_. 0) nd l bits 0 ss = 0" for l bits ss
    by (induction ss arbitrary: l bits) (simp_all add: hash_parts_def case_prod_unfold)
  then show ?thesis by (simp add: derive_root_def hash_parts_def)
qed

lemma zero_digest_commit: "tree_commit (\<lambda>_. 0) kind f = 0"
proof -
  have "tree_node (\<lambda>_. 0) kind f l i = 0" for l i
    by (cases l) (simp_all add: leaf_def node_def hash_parts_def)
  then show ?thesis by (simp add: tree_commit_def)
qed

end
