(* ===== verification/Memory_Properties.thy ===== *)
theory Memory_Properties
  imports Image Logs Openings
begin

text \<open>
  The properties of authenticated memory and of the ordered logs: the incremental tree agrees
  with a rebuild, image witnesses verify, verified witnesses are truthful up to an exhibited
  hash collision, the caches change nothing, transcripts replay, log roots bind their contents,
  and battery SRAM and checkpoints round-trip.
\<close>

text \<open>A concrete digest for the examples: the sum of the bytes.\<close>

definition checksum :: digest where
  "checksum m = sum_list (map ucast m)"

lemma memory_of_update [simp]:
  "(memory_of sha bs)\<lparr>mi_tree := tree_of sha Kind_Memory bs'\<rparr> = memory_of sha bs'"
  by (simp add: memory_of_def)

text \<open>
  A transcript run: accesses are verified and appended in order until one is rejected.
\<close>

fun transcript_step ::
  "digest \<Rightarrow> memory_access \<Rightarrow> memory_transcript \<times> verification_caches \<Rightarrow>
     (memory_transcript_error + unit) \<times> memory_transcript \<times> verification_caches" where
  "transcript_step sha (Access_Read r) st = transcript_read sha r st"
| "transcript_step sha (Access_Write w) st = transcript_write sha w st"

fun transcript_run ::
  "digest \<Rightarrow> memory_access list \<Rightarrow> memory_transcript \<times> verification_caches \<Rightarrow>
     (memory_transcript_error + unit) \<times> memory_transcript \<times> verification_caches" where
  "transcript_run sha [] st = (Inr (), st)"
| "transcript_run sha (a # as) st =
     (case transcript_step sha a st of
        (Inl e, st') \<Rightarrow> (Inl e, st')
      | (Inr _, st') \<Rightarrow> transcript_run sha as st')"

text \<open>The abstract memory: what an access requires of it and does to it.\<close>

fun access_opening :: "memory_access \<Rightarrow> u32 \<times> u8 \<times> merkle_path" where
  "access_opening (Access_Read r) = (mr_physical_address r, mr_value r, mr_path r)"
| "access_opening (Access_Write w) = (mw_physical_address w, mw_before w, mw_path w)"

definition access_truthful :: "(nat \<Rightarrow> u8) \<Rightarrow> memory_access \<Rightarrow> bool" where
  "access_truthful f acc \<longleftrightarrow> (case access_opening acc of (a, v, _) \<Rightarrow> v = f (unat a))"

fun access_apply :: "memory_access \<Rightarrow> (nat \<Rightarrow> u8) \<Rightarrow> nat \<Rightarrow> u8" where
  "access_apply (Access_Read r) f = f"
| "access_apply (Access_Write w) f = f(unat (mw_physical_address w) := mw_after w)"

fun accesses_truthful :: "(nat \<Rightarrow> u8) \<Rightarrow> memory_access list \<Rightarrow> bool" where
  "accesses_truthful f [] = True"
| "accesses_truthful f (a # as) \<longleftrightarrow> access_truthful f a \<and> accesses_truthful (access_apply a f) as"

fun accesses_collide :: "digest \<Rightarrow> (nat \<Rightarrow> u8) \<Rightarrow> memory_access list \<Rightarrow> bool" where
  "accesses_collide sha f [] = False"
| "accesses_collide sha f (a # as) \<longleftrightarrow>
     (case access_opening a of (p, v, path) \<Rightarrow> opening_collision sha Kind_Memory f p v path) \<or>
     accesses_collide sha (access_apply a f) as"

section \<open>Images\<close>

text \<open>Rewriting one path of a Merkle tree is the same as rebuilding the whole tree: a write to a
  freshly built tree returns exactly the tree built from the updated bytes, for every stored
  size, and fails exactly when the address is outside the stored bytes.\<close>

theorem merkle_write_is_rebuild:
  assumes "tree_build sha kind bs = Inr t"
  shows "tree_write sha t a v =
    (if unat a < length bs then tree_build sha kind (bs[unat a := v]) else Inl TreeShapeError)"
  using assms tree_write_exact [of bs sha kind a v] by (auto simp: tree_build_exact split: if_splits)

theorem merkle_write_is_rebuild_witness:
  "tree_write checksum (tree_of checksum Kind_Rom (replicate 65536 0)) 3 7 =
     tree_build checksum Kind_Rom ((replicate 65536 0)[3 := 7])"
proof -
  have "tree_length_ok 65536" using is_power_of_two_pow2 [of 16] by (simp add: tree_length_ok_def)
  then have "tree_build checksum Kind_Rom (replicate 65536 0) =
      Inr (tree_of checksum Kind_Rom (replicate 65536 0))"
    by (simp add: tree_build_exact)
  from merkle_write_is_rebuild [OF this, of 3 7] show ?thesis by simp
qed

text \<open>Every read of a ROM image is the program byte, or zero padding, with a path that verifies
  against the image root; construction succeeds exactly for one byte to one MiB of program.\<close>

theorem rom_image_authenticated:
  "case rom_image_new sha program of
     Inl e \<Rightarrow> program = [] \<or> length program > 2 ^ 20
   | Inr img \<Rightarrow>
       program \<noteq> [] \<and> length program \<le> 2 ^ 20 \<and>
       (\<forall>address physical. owner address = Own_Rom \<and>
          (unat physical < length program \<or> unat physical < 65536) \<longrightarrow>
          (\<exists>r. rom_image_read_mapped img address physical = Inr r \<and> rr_address r = address \<and>
             rr_physical_address r = physical \<and> rr_value r = padded program (unat physical) \<and>
             rom_read_check sha r (rom_image_root img) = Inr ()))"
proof (cases "program = [] \<or> length program > 2 ^ 20")
  case True
  then show ?thesis by (auto simp: rom_image_new_def ROM_BYTES_def)
next
  case False
  then obtain n where n: "rom_image_new sha program = Inr (rom_of sha (vec_resize n program))"
      "length program \<le> n" "tree_length_ok n"
    using rom_image_new_exact [of program sha] by (auto simp: not_less)
  have len: "length (vec_resize n program) = n" using n(2) by (simp add: vec_resize_def)
  have "\<exists>r. rom_image_read_mapped (rom_of sha (vec_resize n program)) address physical = Inr r \<and>
      rr_address r = address \<and> rr_physical_address r = physical \<and>
      rr_value r = padded program (unat physical) \<and>
      rom_read_check sha r (rom_image_root (rom_of sha (vec_resize n program))) = Inr ()"
    if "owner address = Own_Rom" "unat physical < length program \<or> unat physical < 65536"
    for address physical
  proof -
    have p: "unat physical < n" "n \<le> 2 ^ 20" using that(2) n by (auto simp: tree_length_ok_def)
    then have "unat physical < 2 ^ 20" by simp
    moreover from this have "physical < 2 ^ 20" by (simp add: word_less_nat_alt)
    moreover have "vec_resize n program ! unat physical = padded program (unat physical)"
      using p len padded_resize [OF n(2)] by (metis padded_def)
    ultimately show ?thesis
      using that(1) p n(3) tree_read_exact [of "vec_resize n program" sha Kind_Rom physical]
        rom_store.read_complete [of physical sha "padded program"]
      by (simp add: rom_image_read_mapped_def len rom_read_check_iff padded_resize [OF n(2)])
  qed
  then show ?thesis using n False by simp
qed

theorem rom_image_authenticated_witness:
  "\<exists>r. rom_image_read_mapped (rom_of checksum (vec_resize 65536 [0x3e, 7])) 0x0001 1 = Inr r \<and>
     rr_value r = 7"
proof -
  have "rom_image_new checksum [0x3e, 7] = Inr (rom_of checksum (vec_resize 65536 [0x3e, 7]))"
  proof -
    have "tree_length_ok 65536" using is_power_of_two_pow2 [of 16] by (simp add: tree_length_ok_def)
    then show ?thesis
      by (simp add: rom_image_new_def ROM_BYTES_def checked_next_power_of_two_def ilog2.simps
          CPU_ADDRESS_SPACE_BYTES_def tree_build_exact vec_resize_def rom_of_def)
  qed
  with rom_image_authenticated [where sha = checksum and program = "[0x3e, 7]"]
  show ?thesis by (auto simp: owner_rom_iff padded_def dest!: spec [where x = "1 :: u16"] spec [where x = "1 :: u32"])
qed

text \<open>A memory-image write is authenticated: the returned witness carries the previous byte,
  verifies against the root before the write, and yields exactly the root of the image after it,
  which is the image restored from the updated checkpoint bytes.\<close>

theorem memory_write_authenticated:
  assumes "memory_image_from_checkpoint sha bs = Inr img"
    and "owner address = Own_Memory \<or> dmg_owner address = Own_Memory" "unat physical < 131072"
  shows "\<exists>w img'. memory_image_write_mapped sha img address physical v = Inr (w, img') \<and>
    mw_before w = bs ! unat physical \<and> mw_after w = v \<and>
    memory_write_check sha w (memory_image_root img) = Inr (memory_image_root img') \<and>
    memory_image_from_checkpoint sha (bs[unat physical := v]) = Inr img' \<and>
    checkpoint_bytes img' = bs[unat physical := v]"
proof -
  have len: "length bs = MUTABLE_COMMITMENT_BYTES" and img: "img = memory_of sha bs"
    using assms(1) by (auto simp: memory_image_from_checkpoint_def memory_tree_exact split: if_splits)
  note ok = mutable_length_ok [OF len]
  have p: "unat physical < length bs" "unat physical < 2 ^ 20" "physical < 2 ^ 20"
    using assms(3) len by (simp_all add: MUTABLE_COMMITMENT_BYTES_def word_less_nat_alt)
  have upd: "mutable_root sha physical u (tree_path sha Kind_Memory (padded bs) (unat physical)) =
      tree_commit sha Kind_Memory ((padded bs)(unat physical := u))" for u
    using p(2) by (rule memory_store.update)
  have "(padded bs)(unat physical := bs ! unat physical) = padded bs"
    using p(1) by (auto simp: padded_def)
  then show ?thesis
    using assms(2) p len ok tree_read_exact [OF ok, of sha Kind_Memory physical]
      tree_write_exact [OF ok, of sha Kind_Memory physical v]
    by (auto simp: memory_image_write_mapped_def preview_write_mapped_def validate_mutable_address_def
        img memory_write_check_iff upd padded_update memory_image_from_checkpoint_def memory_tree_exact)
qed

theorem memory_write_authenticated_witness:
  "\<exists>w img'. memory_image_write_mapped checksum (memory_of checksum (replicate 131072 0)) 0xc000 0xc000 9 = Inr (w, img') \<and>
     mw_before w = 0 \<and> memory_write_check checksum w (memory_image_root (memory_of checksum (replicate 131072 0))) =
       Inr (memory_image_root img')"
proof -
  have "memory_image_from_checkpoint checksum (replicate 131072 0) = Inr (memory_of checksum (replicate 131072 0))"
    by (simp add: memory_image_from_checkpoint_def MUTABLE_COMMITMENT_BYTES_def memory_tree_exact)
  from memory_write_authenticated [OF this, of "0xc000" "0xc000" 9] show ?thesis
    by (force simp: owner_memory_iff)
qed

text \<open>C37: A verified access cannot lie: a memory read, ROM read or write witness accepted under an
  image's root carries the image's byte (and a write's new root is the root of the updated
  bytes), unless two of the messages hashed for it and for the image's own path collide.\<close>

theorem verified_access_sound:
  "(path_wf (mr_path r) \<and> memory_read_check sha r (tree_commit sha Kind_Memory f) = Inr () \<longrightarrow>
      mr_value r = f (unat (mr_physical_address r)) \<or>
      opening_collision sha Kind_Memory f (mr_physical_address r) (mr_value r) (mr_path r)) \<and>
   (path_wf (rr_path q) \<and> rom_read_check sha q (tree_commit sha Kind_Rom g) = Inr () \<longrightarrow>
      rr_value q = g (unat (rr_physical_address q)) \<or>
      opening_collision sha Kind_Rom g (rr_physical_address q) (rr_value q) (rr_path q)) \<and>
   (path_wf (mw_path w) \<and> memory_write_check sha w (tree_commit sha Kind_Memory f) = Inr root' \<longrightarrow>
      (mw_before w = f (unat (mw_physical_address w)) \<and>
       root' = tree_commit sha Kind_Memory (f(unat (mw_physical_address w) := mw_after w))) \<or>
      opening_collision sha Kind_Memory f (mw_physical_address w) (mw_before w) (mw_path w))"
  using memory_read_sound [of r sha f] rom_read_sound [of q sha g] memory_write_sound [of w sha f root']
  by blast

theorem verified_access_sound_witness:
  "opening_collision (\<lambda>_. 0) Kind_Memory (\<lambda>_. 0) 0xc000 5 lookup_placeholder"
proof -
  let ?r = "\<lparr>mr_address = 0xc000, mr_physical_address = 0xc000, mr_value = 5, mr_path = lookup_placeholder\<rparr>"
  have "memory_read_check (\<lambda>_. 0) ?r (tree_commit (\<lambda>_. 0) Kind_Memory (\<lambda>_. 0)) = Inr ()"
    by (simp add: memory_read_check_iff owner_memory_iff mutable_root_def zero_digest_root zero_digest_commit)
  then show ?thesis
    using verified_access_sound [of ?r "\<lambda>_. 0" "\<lambda>_. 0"]
    by (simp add: path_wf_def lookup_placeholder_def)
qed

section \<open>Caches and transcripts\<close>

text \<open>The verification caches never change an answer: from any state whose entries were verified,
  each verification returns exactly what an empty cache returns, keeps every entry verified, and
  respects the 32768- and 8192-entry capacities.\<close>

theorem caches_transparent:
  assumes "caches_valid sha c"
  shows "fst (rom_read_verify sha r root c) = rom_read_check sha r root \<and>
    caches_valid sha (snd (rom_read_verify sha r root c)) \<and>
    fst (memory_read_verify sha m root c) = memory_read_check sha m root \<and>
    caches_valid sha (snd (memory_read_verify sha m root c)) \<and>
    fst (memory_write_verify sha w root c) = memory_write_check sha w root \<and>
    caches_valid sha (snd (memory_write_verify sha w root c))"
  using rom_read_verify_exact [OF assms] memory_read_verify_exact [OF assms]
    memory_write_verify_exact [OF assms] by blast

theorem caches_transparent_witness:
  "fst (rom_read_verify checksum \<lparr>rr_address = 0x100, rr_physical_address = 0x100, rr_value = 0,
      rr_path = lookup_placeholder\<rparr> 5 empty_caches) =
   rom_read_check checksum \<lparr>rr_address = 0x100, rr_physical_address = 0x100, rr_value = 0,
      rr_path = lookup_placeholder\<rparr> 5"
  using caches_transparent [OF empty_caches_valid] by blast

lemma transcript_step_sound:
  assumes "caches_valid sha c" "path_wf (snd (snd (access_opening a)))"
    and "current_root t = tree_commit sha Kind_Memory f"
    and "transcript_step sha a (t, c) = (Inr (), t', c')"
  shows "accesses t' = accesses t @ [a] \<and> caches_valid sha c' \<and>
    ((access_truthful f a \<and> current_root t' = tree_commit sha Kind_Memory (access_apply a f)) \<or>
     accesses_collide sha f [a])"
proof (cases a)
  case (Access_Read r)
  have v: "memory_read_verify sha r (current_root t) c = (Inr (), c')"
    and t': "t' = t\<lparr>accesses := accesses t @ [a]\<rparr>"
    using assms(4) Access_Read by (auto simp: transcript_read_def split: prod.splits sum.splits)
  have "memory_read_check sha r (tree_commit sha Kind_Memory f) = Inr ()" "caches_valid sha c'"
    using memory_read_verify_exact [OF assms(1), of r "current_root t"] v assms(3) by simp_all
  then show ?thesis
    using memory_read_sound [of r sha f] assms(2,3) Access_Read t' by (auto simp: access_truthful_def)
next
  case (Access_Write w)
  obtain root' where v: "memory_write_verify sha w (current_root t) c = (Inr root', c')"
    and t': "t' = t\<lparr>current_root := root', accesses := accesses t @ [a]\<rparr>"
    using assms(4) Access_Write by (auto simp: transcript_write_def split: prod.splits sum.splits)
  have "memory_write_check sha w (tree_commit sha Kind_Memory f) = Inr root'" "caches_valid sha c'"
    using memory_write_verify_exact [OF assms(1), of w "current_root t"] v assms(3) by simp_all
  then show ?thesis
    using memory_write_sound [of w sha f root'] assms(2,3) Access_Write t' by (auto simp: access_truthful_def)
qed

lemma transcript_run_sound:
  assumes "caches_valid sha c" "\<forall>a \<in> set as. path_wf (snd (snd (access_opening a)))"
    and "current_root t = tree_commit sha Kind_Memory f"
    and "transcript_run sha as (t, c) = (Inr (), t', c')"
  shows "accesses_collide sha f as \<or>
    (accesses t' = accesses t @ as \<and> accesses_truthful f as \<and>
     current_root t' = tree_commit sha Kind_Memory (fold access_apply as f))"
  using assms
proof (induction as arbitrary: t c f)
  case (Cons a as)
  then obtain t1 c1 where s: "transcript_step sha a (t, c) = (Inr (), t1, c1)"
      "transcript_run sha as (t1, c1) = (Inr (), t', c')"
    by (auto split: prod.splits sum.splits)
  have "path_wf (snd (snd (access_opening a)))" using Cons.prems(2) by simp
  from transcript_step_sound [OF Cons.prems(1) this Cons.prems(3) s(1)]
  show ?case using Cons.IH [of c1 t1 "access_apply a f"] s(2) Cons.prems(2) by auto
qed simp

text \<open>C38: An accepted transcript is a truthful history: replayed from the bytes behind its initial
  root, every read value and every overwritten byte is the byte the abstract memory holds at
  that point, and the final root commits the replayed memory, unless one of the accesses
  exhibits a hash collision.\<close>

theorem transcript_replays:
  assumes "caches_valid sha c" "\<forall>a \<in> set as. path_wf (snd (snd (access_opening a)))"
    and "transcript_run sha as (transcript_new (tree_commit sha Kind_Memory f), c) = (Inr (), t, c')"
  shows "accesses_collide sha f as \<or>
    (accesses t = as \<and> accesses_truthful f as \<and>
     current_root t = tree_commit sha Kind_Memory (fold access_apply as f))"
  using transcript_run_sound [OF assms(1,2) _ assms(3), of f] by (simp add: transcript_new_def)

theorem transcript_replays_witness:
  "accesses_collide (\<lambda>_. 0) (\<lambda>_. 0)
     [Access_Write \<lparr>mw_address = 0xc000, mw_physical_address = 0xc000, mw_before = 0, mw_after = 3, mw_path = lookup_placeholder\<rparr>,
      Access_Read \<lparr>mr_address = 0xc000, mr_physical_address = 0xc000, mr_value = 4, mr_path = lookup_placeholder\<rparr>]"
proof -
  let ?as = "[Access_Write \<lparr>mw_address = 0xc000, mw_physical_address = 0xc000, mw_before = 0, mw_after = 3, mw_path = lookup_placeholder\<rparr>,
      Access_Read \<lparr>mr_address = 0xc000, mr_physical_address = 0xc000, mr_value = 4, mr_path = lookup_placeholder\<rparr>]"
  have "fst (transcript_run (\<lambda>_. 0) ?as (transcript_new (tree_commit (\<lambda>_. 0) Kind_Memory (\<lambda>_. 0)), empty_caches)) = Inr ()"
    by (simp add: transcript_write_def transcript_read_def transcript_new_def memory_write_verify_def
        memory_read_verify_def memory_write_derive_def validate_memory_address_def owner_memory_iff
        validate_physical_memory_address_def cached_memory_write_def cached_memory_read_def require_root_def
        empty_caches_def cache_verified_memory_write_def mutable_root_def zero_digest_root zero_digest_commit Let_def)
  then obtain t c where run: "transcript_run (\<lambda>_. 0) ?as
      (transcript_new (tree_commit (\<lambda>_. 0) Kind_Memory (\<lambda>_. 0)), empty_caches) = (Inr (), t, c)"
    by (metis fst_conv surj_pair)
  have "\<not> accesses_truthful (\<lambda>_. 0) ?as" by (simp add: access_truthful_def)
  moreover have "\<forall>a \<in> set ?as. path_wf (snd (snd (access_opening a)))"
    by (simp add: path_wf_def lookup_placeholder_def)
  ultimately show ?thesis using transcript_replays [OF empty_caches_valid _ run] by blast
qed

section \<open>Ordered logs\<close>

text \<open>C39: The ordered commitments bind their contents: two byte logs of one kind, two bus transcripts
  or two ISA transcripts with the same root have the same elements in the same order (and the
  same length), unless two of the messages hashed for them collide.\<close>

theorem ordered_logs_bind:
  "(log_commit sha kind xs = Inr a \<and> log_commit sha kind ys = Inr b \<and> log_root a = log_root b \<longrightarrow>
      xs = ys \<or> collision_in sha (log_messages sha kind xs) (log_messages sha kind ys)) \<and>
   (try_fold (bus_transcript_append sha) (bus_transcript_empty sha) es = Inr s \<and>
    try_fold (bus_transcript_append sha) (bus_transcript_empty sha) es' = Inr s' \<and> bt_root s = bt_root s' \<longrightarrow>
      es = es' \<or> collision_in sha (bus_messages sha es) (bus_messages sha es')) \<and>
   (try_fold (isa_transcript_append sha) (isa_transcript_empty sha) rows = Inr t \<and>
    try_fold (isa_transcript_append sha) (isa_transcript_empty sha) rows' = Inr t' \<and> it_root t = it_root t' \<longrightarrow>
      rows = rows' \<or> collision_in sha (isa_messages sha rows) (isa_messages sha rows'))"
proof (intro conjI impI; elim conjE)
  assume "log_commit sha kind xs = Inr a" "log_commit sha kind ys = Inr b" "log_root a = log_root b"
  then show "xs = ys \<or> collision_in sha (log_messages sha kind xs) (log_messages sha kind ys)"
    using byte_log.chain_binding [of sha kind "rev xs" "rev ys"]
    by (auto dest!: log_commit_chain simp: log_root_of_def log_messages_def)
next
  assume "try_fold (bus_transcript_append sha) (bus_transcript_empty sha) es = Inr s"
    "try_fold (bus_transcript_append sha) (bus_transcript_empty sha) es' = Inr s'" "bt_root s = bt_root s'"
  then show "es = es' \<or> collision_in sha (bus_messages sha es) (bus_messages sha es')"
    using bus_chain.chain_binding [of sha "rev es" "rev es'"]
    by (auto dest!: bus_fold_chain simp: bus_root_of_def bus_messages_def)
next
  assume "try_fold (isa_transcript_append sha) (isa_transcript_empty sha) rows = Inr t"
    "try_fold (isa_transcript_append sha) (isa_transcript_empty sha) rows' = Inr t'" "it_root t = it_root t'"
  then show "rows = rows' \<or> collision_in sha (isa_messages sha rows) (isa_messages sha rows')"
    using isa_chain.chain_binding [of sha "rev rows" "rev rows'"]
    by (auto dest!: isa_fold_chain simp: isa_root_of_def isa_messages_def)
qed

theorem ordered_logs_bind_witness:
  "collision_in (\<lambda>_. 0) (log_messages (\<lambda>_. 0) Log_Input [1, 2]) (log_messages (\<lambda>_. 0) Log_Input [2, 1])"
proof -
  have ok: "\<exists>a. log_commit (\<lambda>_. 0) Log_Input [u, v] = Inr a \<and> log_root a = 0" for u v
    by (simp add: log_commit_def log_empty_def log_append_def hash_parts_def checked_add_def Let_def)
  show ?thesis
    using ok [of 1 2] ok [of 2 1] ordered_logs_bind [of "\<lambda>_. 0" Log_Input "[1, 2]" _ "[2, 1]"] by fastforce
qed

section \<open>Checkpoints and battery SRAM\<close>

text \<open>Restoring is the inverse of saving: the battery SRAM written into a fresh image is read back
  byte for byte, a checkpoint of any constructed image restores that very image, and inputs of
  any other length are refused.\<close>

theorem image_persistence_roundtrip:
  "(case memory_image_with_battery_sram sha sram of
      Inl e \<Rightarrow> length sram \<noteq> BATTERY_SRAM_BYTES
    | Inr img \<Rightarrow> battery_sram_bytes img = Inr sram \<and>
        memory_image_from_checkpoint sha (checkpoint_bytes img) = Inr img) \<and>
   (case memory_image_from_checkpoint sha bs of
      Inl e \<Rightarrow> e = MI_InvalidCheckpointLength (length bs) 131072 \<and> length bs \<noteq> 131072
    | Inr img \<Rightarrow> checkpoint_bytes img = bs)"
proof -
  let ?bs = "replicate 0x10000 0 @ sram @ replicate 32768 0"
  have "memory_image_with_battery_sram sha sram = Inr (memory_of sha ?bs)"
    if "length sram = BATTERY_SRAM_BYTES"
    using that
    by (simp add: memory_image_with_battery_sram_def vec_copy_def BATTERY_SRAM_BYTES_def
        BATTERY_SRAM_START_def MUTABLE_COMMITMENT_BYTES_def memory_tree_exact)
  moreover have "battery_sram_bytes (memory_of sha ?bs) = Inr sram"
    if "length sram = BATTERY_SRAM_BYTES"
    using that
    by (simp add: battery_sram_bytes_def memory_of_def tree_of_def Let_def vec_slice_def
        BATTERY_SRAM_BYTES_def BATTERY_SRAM_START_def)
  ultimately show ?thesis
    by (auto simp: memory_image_from_checkpoint_def memory_tree_exact MUTABLE_COMMITMENT_BYTES_def
        BATTERY_SRAM_BYTES_def memory_image_with_battery_sram_def split: sum.split)
qed

end
