(* ===== verification/Vm_State.thy ===== *)
theory Vm_State
  imports Cpu_State Mbc3 Dmg Logs
begin

text \<open>
  Machine profiles and the complete VM snapshot (\<open>zksm83-core/src/state.rs\<close>): the constructors
  with their validation, and the invariant \<open>vm_wf\<close> every transition keeps.
\<close>

section \<open>Profiles\<close>

datatype machine_profile =
    CleanCoreV1
  | DmgPostBootMbc3V1
  | DmgPostBootMbc3Rom256KiBNoRtcV1
  | DmgPostBootMbc3Rom256KiBRtcV1
  | DmgPostBootMbc3Rom1MiBRtcV1

fun machine_profile_code :: "machine_profile \<Rightarrow> u8" where
  "machine_profile_code CleanCoreV1 = 0"
| "machine_profile_code DmgPostBootMbc3V1 = 1"
| "machine_profile_code DmgPostBootMbc3Rom256KiBNoRtcV1 = 2"
| "machine_profile_code DmgPostBootMbc3Rom256KiBRtcV1 = 3"
| "machine_profile_code DmgPostBootMbc3Rom1MiBRtcV1 = 4"

fun is_dmg_post_boot_mbc3 :: "machine_profile \<Rightarrow> bool" where
  "is_dmg_post_boot_mbc3 CleanCoreV1 = False"
| "is_dmg_post_boot_mbc3 DmgPostBootMbc3V1 = True"
| "is_dmg_post_boot_mbc3 DmgPostBootMbc3Rom256KiBNoRtcV1 = True"
| "is_dmg_post_boot_mbc3 DmgPostBootMbc3Rom256KiBRtcV1 = True"
| "is_dmg_post_boot_mbc3 DmgPostBootMbc3Rom1MiBRtcV1 = True"

fun cartridge_profile :: "machine_profile \<Rightarrow> mbc3_cartridge_profile" where
  "cartridge_profile CleanCoreV1 = one_mib_no_rtc"
| "cartridge_profile DmgPostBootMbc3V1 = one_mib_no_rtc"
| "cartridge_profile DmgPostBootMbc3Rom256KiBNoRtcV1 = \<lparr>prof_rom_size = Rom256KiB, prof_rtc = NoRtc\<rparr>"
| "cartridge_profile DmgPostBootMbc3Rom256KiBRtcV1 = \<lparr>prof_rom_size = Rom256KiB, prof_rtc = RtcCapable\<rparr>"
| "cartridge_profile DmgPostBootMbc3Rom1MiBRtcV1 = \<lparr>prof_rom_size = Rom1MiB, prof_rtc = RtcCapable\<rparr>"

definition dmg_post_boot_for_cartridge :: "mbc3_cartridge_profile \<Rightarrow> machine_profile" where
  "dmg_post_boot_for_cartridge p =
     (case (prof_rom_size p, prof_rtc p) of
        (Rom256KiB, NoRtc) \<Rightarrow> DmgPostBootMbc3Rom256KiBNoRtcV1
      | (Rom256KiB, RtcCapable) \<Rightarrow> DmgPostBootMbc3Rom256KiBRtcV1
      | (Rom1MiB, NoRtc) \<Rightarrow> DmgPostBootMbc3V1
      | (Rom1MiB, RtcCapable) \<Rightarrow> DmgPostBootMbc3Rom1MiBRtcV1)"

lemma cartridge_profile_roundtrip:
  "cartridge_profile (dmg_post_boot_for_cartridge p) = p \<and>
   is_dmg_post_boot_mbc3 (dmg_post_boot_for_cartridge p)"
  by (cases p; cases "prof_rom_size p"; cases "prof_rtc p")
     (simp_all add: dmg_post_boot_for_cartridge_def one_mib_no_rtc_def)

record machine_context =
  mc_profile :: machine_profile
  mc_dmg_devices :: dmg_device_state

section \<open>Snapshot\<close>

record vm_state =
  vm_profile :: machine_profile
  vm_cpu :: cpu_state
  vm_mbc3 :: mbc3_state
  vm_dmg_devices :: dmg_device_state
  vm_rom_root :: commitment_root
  vm_memory_root :: commitment_root
  vm_input_log :: log_accumulator
  vm_output_log :: log_accumulator
  vm_bus_transcript :: bus_transcript
  vm_isa_transcript :: isa_transcript

datatype vm_state_error =
    InvalidFlags u8
  | WrongInputLogDomain
  | WrongOutputLogDomain
  | InvalidMbc3 mbc3_state_error
  | UnsupportedMachineProfile machine_profile

definition vm_profile_initial :: "digest \<Rightarrow> commitment_root \<Rightarrow> commitment_root \<Rightarrow> vm_state" where
  "vm_profile_initial sha rom_root memory_root =
     \<lparr>vm_profile = CleanCoreV1, vm_cpu = cpu_profile_initial, vm_mbc3 = mbc3_profile_initial,
      vm_dmg_devices = dmg_empty, vm_rom_root = rom_root, vm_memory_root = memory_root,
      vm_input_log = log_empty sha Log_Input, vm_output_log = log_empty sha Log_Output,
      vm_bus_transcript = bus_transcript_empty sha, vm_isa_transcript = isa_transcript_empty sha\<rparr>"

definition vm_dmg_unchecked ::
  "digest \<Rightarrow> machine_profile \<Rightarrow> commitment_root \<Rightarrow> commitment_root \<Rightarrow> vm_state" where
  "vm_dmg_unchecked sha profile rom_root memory_root =
     \<lparr>vm_profile = profile, vm_cpu = cpu_dmg_post_boot_initial, vm_mbc3 = mbc3_profile_initial,
      vm_dmg_devices = dmg_post_boot, vm_rom_root = rom_root, vm_memory_root = memory_root,
      vm_input_log = log_empty sha Log_Input, vm_output_log = log_empty sha Log_Output,
      vm_bus_transcript = bus_transcript_empty sha, vm_isa_transcript = isa_transcript_empty sha\<rparr>"

definition vm_dmg_initial :: "digest \<Rightarrow> commitment_root \<Rightarrow> commitment_root \<Rightarrow> vm_state" where
  "vm_dmg_initial sha rom_root memory_root = vm_dmg_unchecked sha DmgPostBootMbc3V1 rom_root memory_root"

definition vm_dmg_profile_initial ::
  "digest \<Rightarrow> machine_profile \<Rightarrow> commitment_root \<Rightarrow> commitment_root \<Rightarrow> vm_state_error + vm_state" where
  "vm_dmg_profile_initial sha profile rom_root memory_root =
     (if \<not> is_dmg_post_boot_mbc3 profile then Inl (UnsupportedMachineProfile profile)
      else Inr (vm_dmg_unchecked sha profile rom_root memory_root))"

definition vm_from_parts ::
  "digest \<Rightarrow> cpu_state \<Rightarrow> commitment_root \<Rightarrow> commitment_root \<Rightarrow> log_accumulator \<Rightarrow> log_accumulator \<Rightarrow>
     vm_state_error + vm_state" where
  "vm_from_parts sha cpu rom_root memory_root input_log output_log =
     (if log_kind input_log \<noteq> Log_Input then Inl WrongInputLogDomain
      else if log_kind output_log \<noteq> Log_Output then Inl WrongOutputLogDomain
      else Inr
        \<lparr>vm_profile = CleanCoreV1, vm_cpu = cpu, vm_mbc3 = mbc3_profile_initial,
         vm_dmg_devices = dmg_empty, vm_rom_root = rom_root, vm_memory_root = memory_root,
         vm_input_log = input_log, vm_output_log = output_log,
         vm_bus_transcript = bus_transcript_empty sha, vm_isa_transcript = isa_transcript_empty sha\<rparr>)"

definition vm_from_parts_with_mbc3 ::
  "digest \<Rightarrow> cpu_state \<Rightarrow> mbc3_state \<Rightarrow> commitment_root \<Rightarrow> commitment_root \<Rightarrow> log_accumulator \<Rightarrow>
     log_accumulator \<Rightarrow> vm_state_error + vm_state" where
  "vm_from_parts_with_mbc3 sha cpu mapper rom_root memory_root input_log output_log =
     and_then (vm_from_parts sha cpu rom_root memory_root input_log output_log) (\<lambda>state.
       Inr (state\<lparr>vm_mbc3 := mapper\<rparr>))"

definition vm_from_profile_parts ::
  "digest \<Rightarrow> machine_context \<Rightarrow> cpu_state \<Rightarrow> mbc3_state \<Rightarrow> commitment_root \<Rightarrow> commitment_root \<Rightarrow>
     log_accumulator \<Rightarrow> log_accumulator \<Rightarrow> vm_state_error + vm_state" where
  "vm_from_profile_parts sha machine cpu mapper rom_root memory_root input_log output_log =
     and_then (vm_from_parts_with_mbc3 sha cpu mapper rom_root memory_root input_log output_log) (\<lambda>state.
       Inr (state\<lparr>vm_profile := mc_profile machine, vm_dmg_devices := mc_dmg_devices machine\<rparr>))"

section \<open>Invariant\<close>

definition vm_wf :: "vm_state \<Rightarrow> bool" where
  "vm_wf s \<longleftrightarrow>
     flags_wf (cpu_flags (vm_cpu s)) \<and>
     mbc3_wf (cartridge_profile (vm_profile s)) (vm_mbc3 s) \<and>
     dmg_wf (vm_dmg_devices s) \<and>
     log_kind (vm_input_log s) = Log_Input \<and> log_kind (vm_output_log s) = Log_Output"

lemma mbc3_initial_profile_wf: "mbc3_wf (cartridge_profile p) mbc3_profile_initial"
  by (cases p) (simp_all add: mbc3_wf_def mbc3_profile_initial_def one_mib_no_rtc_def)

lemma vm_initial_wf:
  "vm_wf (vm_profile_initial sha r m)" "vm_wf (vm_dmg_unchecked sha p r m)"
  using mbc3_initial_profile_wf [of CleanCoreV1] mbc3_initial_profile_wf [of p]
  by (simp_all add: vm_wf_def vm_profile_initial_def vm_dmg_unchecked_def log_empty_def
      cpu_profile_initial_def cpu_dmg_post_boot_initial_def flags_wf_def)

end
