(* ===== verification/Exec_Monad.thy ===== *)
theory Exec_Monad
  imports Prelude
begin

text \<open>
  Fallible stateful code: a function from a state to an error or a result and the next state.
  A Rust method on \<open>&mut self\<close> returning \<open>Result<T, E>\<close> is such a function; the \<open>?\<close> operator is
  \<open>ebind\<close>.  Two judgements carry the proofs over such code: \<open>ekeeps\<close>, every accepted run relates
  the states before and after by a reflexive and transitive relation and every rejected run
  fails with an admissible error, and \<open>esim\<close>, a run accepted from one state is matched by a run
  from a related state with the same result.
\<close>

type_synonym ('s, 'e, 'a) exec = "'s \<Rightarrow> 'e + ('a \<times> 's)"

definition eret :: "'a \<Rightarrow> ('s, 'e, 'a) exec" where
  "eret x = (\<lambda>s. Inr (x, s))"

definition ethrow :: "'e \<Rightarrow> ('s, 'e, 'a) exec" where
  "ethrow e = (\<lambda>s. Inl e)"

definition ebind :: "('s, 'e, 'a) exec \<Rightarrow> ('a \<Rightarrow> ('s, 'e, 'b) exec) \<Rightarrow> ('s, 'e, 'b) exec" where
  "ebind m f = (\<lambda>s. case m s of Inl e \<Rightarrow> Inl e | Inr (x, s') \<Rightarrow> f x s')"

definition ethen :: "('s, 'e, 'a) exec \<Rightarrow> ('s, 'e, 'b) exec \<Rightarrow> ('s, 'e, 'b) exec" where
  "ethen m n = ebind m (\<lambda>_. n)"

definition egets :: "('s \<Rightarrow> 'a) \<Rightarrow> ('s, 'e, 'a) exec" where
  "egets f = (\<lambda>s. Inr (f s, s))"

definition emodify :: "('s \<Rightarrow> 's) \<Rightarrow> ('s, 'e, unit) exec" where
  "emodify f = (\<lambda>s. Inr ((), f s))"

text \<open>A pure \<open>Result\<close> with \<open>?\<close>, and the early return of an \<open>if\<close> guard.\<close>

definition elift :: "'e + 'a \<Rightarrow> ('s, 'e, 'a) exec" where
  "elift r = (\<lambda>s. case r of Inl e \<Rightarrow> Inl e | Inr x \<Rightarrow> Inr (x, s))"

definition ewhen :: "bool \<Rightarrow> ('s, 'e, unit) exec \<Rightarrow> ('s, 'e, unit) exec" where
  "ewhen b m = (if b then m else eret ())"

lemmas exec_defs = eret_def ethrow_def ebind_def ethen_def egets_def emodify_def elift_def ewhen_def

section \<open>Runs\<close>

lemma ebind_Inr: "ebind m f s = Inr r \<longleftrightarrow> (\<exists>x s'. m s = Inr (x, s') \<and> f x s' = Inr r)"
  by (auto simp: ebind_def split: sum.splits)

lemma ethen_Inr: "ethen m n s = Inr r \<longleftrightarrow> (\<exists>x s'. m s = Inr (x, s') \<and> n s' = Inr r)"
  by (auto simp: ethen_def ebind_Inr)

lemma exec_simps [simp]:
  "eret x s = Inr (x, s)" "egets f s = Inr (f s, s)" "emodify g s = Inr ((), g s)" "ethrow e s = Inl e"
  "elift (Inr x) s = Inr (x, s)" "elift (Inl e) s = Inl e"
  by (simp_all add: exec_defs)

lemma elift_Inr: "elift r s = Inr (x, s') \<longleftrightarrow> r = Inr x \<and> s' = s"
  by (auto simp: elift_def split: sum.splits)

lemma ewhen_Inr: "ewhen b m s = Inr (x, s') \<longleftrightarrow> (if b then m s = Inr (x, s') else s' = s)"
  by (auto simp: ewhen_def eret_def)

lemmas exec_Inr = ebind_Inr ethen_Inr elift_Inr ewhen_Inr

section \<open>Preserved relations\<close>

definition ekeeps :: "('s \<Rightarrow> 's \<Rightarrow> bool) \<Rightarrow> ('e \<Rightarrow> bool) \<Rightarrow> ('s, 'e, 'a) exec \<Rightarrow> bool" where
  "ekeeps R E m \<longleftrightarrow> (\<forall>s. case m s of Inl e \<Rightarrow> E e | Inr (x, s') \<Rightarrow> R s s')"

lemma ekeepsI: "(\<And>s e. m s = Inl e \<Longrightarrow> E e) \<Longrightarrow> (\<And>s x s'. m s = Inr (x, s') \<Longrightarrow> R s s') \<Longrightarrow> ekeeps R E m"
  by (auto simp: ekeeps_def split: sum.split)

lemma ekeepsD: "ekeeps R E m \<Longrightarrow> m s = Inr (x, s') \<Longrightarrow> R s s'" "ekeeps R E m \<Longrightarrow> m s = Inl e \<Longrightarrow> E e"
  by (auto simp: ekeeps_def split: sum.splits elim!: allE [of _ s])

text \<open>
  The structural rules hold for every reflexive and transitive relation; components instantiate
  the relation.
\<close>

locale exec_frame =
  fixes R :: "'s \<Rightarrow> 's \<Rightarrow> bool" and E :: "'e \<Rightarrow> bool"
  assumes R_refl: "R s s"
    and R_trans: "R s t \<Longrightarrow> R t u \<Longrightarrow> R s u"
begin

lemma keeps_ret: "ekeeps R E (eret x)"
  by (simp add: ekeeps_def R_refl)

lemma keeps_gets: "ekeeps R E (egets f)"
  by (simp add: ekeeps_def R_refl)

lemma keeps_throw: "E e \<Longrightarrow> ekeeps R E (ethrow e)"
  by (simp add: ekeeps_def)

lemma keeps_modify: "(\<And>s. R s (f s)) \<Longrightarrow> ekeeps R E (emodify f)"
  by (simp add: ekeeps_def)

lemma keeps_lift: "(\<And>e. r = Inl e \<Longrightarrow> E e) \<Longrightarrow> ekeeps R E (elift r)"
  by (cases r) (simp_all add: ekeeps_def R_refl)

lemma keeps_bind: "ekeeps R E m \<Longrightarrow> (\<And>x. ekeeps R E (f x)) \<Longrightarrow> ekeeps R E (ebind m f)"
  by (rule ekeepsI)
     (auto simp: ebind_def split: sum.splits dest: ekeepsD intro: R_trans)

lemma keeps_then: "ekeeps R E m \<Longrightarrow> ekeeps R E n \<Longrightarrow> ekeeps R E (ethen m n)"
  by (simp add: ethen_def keeps_bind)

lemma keeps_when: "(b \<Longrightarrow> ekeeps R E m) \<Longrightarrow> ekeeps R E (ewhen b m)"
  by (simp add: ewhen_def keeps_ret)

lemma keeps_if: "(b \<Longrightarrow> ekeeps R E m) \<Longrightarrow> (\<not> b \<Longrightarrow> ekeeps R E n) \<Longrightarrow> ekeeps R E (if b then m else n)"
  by simp

lemma keeps_bind_gets: "(\<And>s. ekeeps R E (f (g s))) \<Longrightarrow> ekeeps R E (ebind (egets g) f)"
  by (rule ekeepsI) (auto simp: ebind_def split: sum.splits dest: ekeepsD)

lemma keeps_bind_lift:
  "(\<And>e. r = Inl e \<Longrightarrow> E e) \<Longrightarrow> (\<And>x. r = Inr x \<Longrightarrow> ekeeps R E (f x)) \<Longrightarrow> ekeeps R E (ebind (elift r) f)"
  by (cases r) (simp_all add: ekeeps_def ebind_def)

lemma keeps_lift_Inr [simp]: "ekeeps R E (elift (Inr x))"
  by (rule keeps_lift) simp

lemma keeps_bind_value:
  assumes m: "ekeeps R E m" and f: "\<And>s x s'. m s = Inr (x, s') \<Longrightarrow> ekeeps R E (f x)"
  shows "ekeeps R E (ebind m f)"
proof (rule ekeepsI)
  fix s e assume "ebind m f s = Inl e"
  then show "E e" using ekeepsD(2) [OF m] ekeepsD(2) [OF f] by (auto simp: ebind_def split: sum.splits)
next
  fix s x s' assume "ebind m f s = Inr (x, s')"
  then obtain y t where "m s = Inr (y, t)" "f y t = Inr (x, s')" by (auto simp: ebind_Inr)
  then show "R s s'" using ekeepsD(1) [OF m] ekeepsD(1) [OF f] R_trans by blast
qed

end

section \<open>Simulation\<close>

definition esim :: "('s \<Rightarrow> 's \<Rightarrow> bool) \<Rightarrow> ('s, 'e, 'a) exec \<Rightarrow> bool" where
  "esim S m \<longleftrightarrow>
     (\<forall>s t x s'. S s t \<longrightarrow> m s = Inr (x, s') \<longrightarrow> (\<exists>t'. m t = Inr (x, t') \<and> S s' t'))"

lemma esim_ret: "esim S (eret x)"
  by (simp add: esim_def)

lemma esim_throw: "esim S (ethrow e)"
  by (simp add: esim_def)

lemma esim_gets: "(\<And>s t. S s t \<Longrightarrow> f s = f t) \<Longrightarrow> esim S (egets f)"
  by (auto simp: esim_def)

lemma esim_modify: "(\<And>s t. S s t \<Longrightarrow> S (f s) (f t)) \<Longrightarrow> esim S (emodify f)"
  by (auto simp: esim_def)

lemma esim_lift: "esim S (elift r)"
  by (auto simp: esim_def elift_Inr)

lemma esim_bind: "esim S m \<Longrightarrow> (\<And>x. esim S (f x)) \<Longrightarrow> esim S (ebind m f)"
  unfolding esim_def ebind_Inr by metis

lemma esim_then: "esim S m \<Longrightarrow> esim S n \<Longrightarrow> esim S (ethen m n)"
  by (simp add: ethen_def esim_bind)

lemma esim_when: "esim S m \<Longrightarrow> esim S (ewhen b m)"
  by (simp add: ewhen_def esim_ret)

lemma esim_if: "esim S m \<Longrightarrow> esim S n \<Longrightarrow> esim S (if b then m else n)"
  by simp

lemmas esim_intros = esim_ret esim_throw esim_lift esim_bind esim_then esim_when esim_if

lemma esimD: "esim S m \<Longrightarrow> S s t \<Longrightarrow> m s = Inr (x, s') \<Longrightarrow> \<exists>t'. m t = Inr (x, t') \<and> S s' t'"
  by (simp add: esim_def)

end
