(* ===== verification/Bus_Types.thy ===== *)
theory Bus_Types
  imports Vm_State Transcript Isa_Alignment Exec_Monad
begin

text \<open>
  Witnesses, requests, events, step effects and step errors (the data of
  \<open>zksm83-core/src/bus.rs\<close> and the error type of \<open>transition.rs\<close>).
\<close>

section \<open>Witnesses\<close>

datatype bus_role = Role_OpcodeFetch | Role_ImmediateRead | Role_DataRead | Role_DataWrite

datatype bus_witness =
    Wit_Rom rom_read
  | Wit_MemoryRead memory_read
  | Wit_MemoryWrite memory_write
  | Wit_InputByte u8

datatype witness_kind = WK_Rom | WK_MemoryRead | WK_MemoryWrite | WK_InputByte

fun bus_witness_kind :: "bus_witness \<Rightarrow> witness_kind" where
  "bus_witness_kind (Wit_Rom _) = WK_Rom"
| "bus_witness_kind (Wit_MemoryRead _) = WK_MemoryRead"
| "bus_witness_kind (Wit_MemoryWrite _) = WK_MemoryWrite"
| "bus_witness_kind (Wit_InputByte _) = WK_InputByte"

datatype witness_request =
    Req_Rom u16 u32 bus_role
  | Req_MemoryRead u16 u32
  | Req_MemoryWrite u16 u32 u8
  | Req_InputByte

fun witness_request_kind :: "witness_request \<Rightarrow> witness_kind" where
  "witness_request_kind (Req_Rom _ _ _) = WK_Rom"
| "witness_request_kind (Req_MemoryRead _ _) = WK_MemoryRead"
| "witness_request_kind (Req_MemoryWrite _ _ _) = WK_MemoryWrite"
| "witness_request_kind Req_InputByte = WK_InputByte"

record step_input =
  input_witnesses :: "bus_witness list"

section \<open>Events\<close>

datatype bus_event =
    Ev_OpcodeFetch rom_read
  | Ev_ImmediateRead rom_read
  | Ev_MemoryOpcodeFetch memory_read
  | Ev_MemoryImmediateRead memory_read
  | Ev_RomRead rom_read
  | Ev_MemoryRead memory_read
  | Ev_DmgDmaRomRead rom_read
  | Ev_DmgDmaMemoryRead memory_read
  | Ev_DmgDmaWrite memory_write
  | Ev_MemoryWrite memory_write
  | Ev_Mbc3ControlWrite u16 u8
  | Ev_Mbc3OpenBusRead u16 u8
  | Ev_Mbc3IgnoredWrite u16 u8
  | Ev_InputRead u64 u8
  | Ev_OutputWrite u64 u8
  | Ev_DmgMmioRead u16 u8
  | Ev_DmgMmioWrite u16 u8 u8
  | Ev_DmgJoypadRead u64 u8 u8 u8

datatype bus_event_kind =
    EK_Unused | EK_OpcodeFetch | EK_ImmediateRead | EK_RomRead | EK_MemoryRead | EK_MemoryWrite
  | EK_InputRead | EK_OutputWrite | EK_Mbc3ControlWrite | EK_Mbc3OpenBusRead | EK_Mbc3IgnoredWrite
  | EK_DmgMmioRead | EK_DmgMmioWrite | EK_DmgJoypadRead | EK_MemoryOpcodeFetch
  | EK_MemoryImmediateRead | EK_DmgDmaRomRead | EK_DmgDmaMemoryRead | EK_DmgDmaWrite

fun bus_event_kind_code :: "bus_event_kind \<Rightarrow> u8" where
  "bus_event_kind_code EK_Unused = 0"
| "bus_event_kind_code EK_OpcodeFetch = 1"
| "bus_event_kind_code EK_ImmediateRead = 2"
| "bus_event_kind_code EK_RomRead = 3"
| "bus_event_kind_code EK_MemoryRead = 4"
| "bus_event_kind_code EK_MemoryWrite = 5"
| "bus_event_kind_code EK_InputRead = 6"
| "bus_event_kind_code EK_OutputWrite = 7"
| "bus_event_kind_code EK_Mbc3ControlWrite = 8"
| "bus_event_kind_code EK_Mbc3OpenBusRead = 9"
| "bus_event_kind_code EK_Mbc3IgnoredWrite = 10"
| "bus_event_kind_code EK_DmgMmioRead = 11"
| "bus_event_kind_code EK_DmgMmioWrite = 12"
| "bus_event_kind_code EK_DmgJoypadRead = 13"
| "bus_event_kind_code EK_MemoryOpcodeFetch = 14"
| "bus_event_kind_code EK_MemoryImmediateRead = 15"
| "bus_event_kind_code EK_DmgDmaRomRead = 16"
| "bus_event_kind_code EK_DmgDmaMemoryRead = 17"
| "bus_event_kind_code EK_DmgDmaWrite = 18"

text \<open>\<open>TryFrom<u8>\<close>: the rejected code is the error.\<close>

definition bus_event_kind_try_from :: "u8 \<Rightarrow> u8 + bus_event_kind" where
  "bus_event_kind_try_from code =
     (if code = 0 then Inr EK_Unused
      else if code = 1 then Inr EK_OpcodeFetch
      else if code = 2 then Inr EK_ImmediateRead
      else if code = 3 then Inr EK_RomRead
      else if code = 4 then Inr EK_MemoryRead
      else if code = 5 then Inr EK_MemoryWrite
      else if code = 6 then Inr EK_InputRead
      else if code = 7 then Inr EK_OutputWrite
      else if code = 8 then Inr EK_Mbc3ControlWrite
      else if code = 9 then Inr EK_Mbc3OpenBusRead
      else if code = 10 then Inr EK_Mbc3IgnoredWrite
      else if code = 11 then Inr EK_DmgMmioRead
      else if code = 12 then Inr EK_DmgMmioWrite
      else if code = 13 then Inr EK_DmgJoypadRead
      else if code = 14 then Inr EK_MemoryOpcodeFetch
      else if code = 15 then Inr EK_MemoryImmediateRead
      else if code = 16 then Inr EK_DmgDmaRomRead
      else if code = 17 then Inr EK_DmgDmaMemoryRead
      else if code = 18 then Inr EK_DmgDmaWrite
      else Inl code)"

fun event_kind :: "bus_event \<Rightarrow> bus_event_kind" where
  "event_kind (Ev_OpcodeFetch _) = EK_OpcodeFetch"
| "event_kind (Ev_ImmediateRead _) = EK_ImmediateRead"
| "event_kind (Ev_MemoryOpcodeFetch _) = EK_MemoryOpcodeFetch"
| "event_kind (Ev_MemoryImmediateRead _) = EK_MemoryImmediateRead"
| "event_kind (Ev_RomRead _) = EK_RomRead"
| "event_kind (Ev_MemoryRead _) = EK_MemoryRead"
| "event_kind (Ev_DmgDmaRomRead _) = EK_DmgDmaRomRead"
| "event_kind (Ev_DmgDmaMemoryRead _) = EK_DmgDmaMemoryRead"
| "event_kind (Ev_DmgDmaWrite _) = EK_DmgDmaWrite"
| "event_kind (Ev_MemoryWrite _) = EK_MemoryWrite"
| "event_kind (Ev_Mbc3ControlWrite _ _) = EK_Mbc3ControlWrite"
| "event_kind (Ev_Mbc3OpenBusRead _ _) = EK_Mbc3OpenBusRead"
| "event_kind (Ev_Mbc3IgnoredWrite _ _) = EK_Mbc3IgnoredWrite"
| "event_kind (Ev_InputRead _ _) = EK_InputRead"
| "event_kind (Ev_OutputWrite _ _) = EK_OutputWrite"
| "event_kind (Ev_DmgMmioRead _ _) = EK_DmgMmioRead"
| "event_kind (Ev_DmgMmioWrite _ _ _) = EK_DmgMmioWrite"
| "event_kind (Ev_DmgJoypadRead _ _ _ _) = EK_DmgJoypadRead"

text \<open>The tuple before its payload is filled in, and the payloads by event family.\<close>

definition blank_event :: "bus_event \<Rightarrow> bus_transcript_event" where
  "blank_event e =
     \<lparr>ev_kind = bus_event_kind_code (event_kind e), ev_address = 0, ev_physical_address = 0,
      ev_before = 0, ev_auxiliary = 0, ev_value = 0, ev_index = 0\<rparr>"

definition rom_event :: "rom_read \<Rightarrow> bus_transcript_event \<Rightarrow> bus_transcript_event" where
  "rom_event r e =
     e\<lparr>ev_address := rr_address r, ev_physical_address := rr_physical_address r, ev_value := rr_value r\<rparr>"

definition memory_read_event :: "memory_read \<Rightarrow> bus_transcript_event \<Rightarrow> bus_transcript_event" where
  "memory_read_event r e =
     e\<lparr>ev_address := mr_address r, ev_physical_address := mr_physical_address r, ev_value := mr_value r\<rparr>"

definition memory_write_event :: "memory_write \<Rightarrow> bus_transcript_event \<Rightarrow> bus_transcript_event" where
  "memory_write_event w e =
     e\<lparr>ev_address := mw_address w, ev_physical_address := mw_physical_address w,
       ev_before := mw_before w, ev_value := mw_after w\<rparr>"

definition device_event :: "u16 \<Rightarrow> u8 \<Rightarrow> bus_transcript_event \<Rightarrow> bus_transcript_event" where
  "device_event address v e = e\<lparr>ev_address := address, ev_value := v\<rparr>"

definition transcript_event :: "bus_event \<Rightarrow> bus_transcript_event" where
  "transcript_event e =
     (let event = blank_event e in
      case e of
        Ev_OpcodeFetch r \<Rightarrow> rom_event r event
      | Ev_ImmediateRead r \<Rightarrow> rom_event r event
      | Ev_RomRead r \<Rightarrow> rom_event r event
      | Ev_DmgDmaRomRead r \<Rightarrow> rom_event r event
      | Ev_MemoryOpcodeFetch r \<Rightarrow> memory_read_event r event
      | Ev_MemoryImmediateRead r \<Rightarrow> memory_read_event r event
      | Ev_MemoryRead r \<Rightarrow> memory_read_event r event
      | Ev_DmgDmaMemoryRead r \<Rightarrow> memory_read_event r event
      | Ev_MemoryWrite w \<Rightarrow> memory_write_event w event
      | Ev_DmgDmaWrite w \<Rightarrow> memory_write_event w event
      | Ev_Mbc3ControlWrite a v \<Rightarrow> device_event a v event
      | Ev_Mbc3OpenBusRead a v \<Rightarrow> device_event a v event
      | Ev_Mbc3IgnoredWrite a v \<Rightarrow> device_event a v event
      | Ev_DmgMmioRead a v \<Rightarrow> device_event a v event
      | Ev_InputRead i v \<Rightarrow> event\<lparr>ev_address := INPUT_PORT, ev_value := v, ev_index := i\<rparr>
      | Ev_OutputWrite i v \<Rightarrow> event\<lparr>ev_address := OUTPUT_PORT, ev_value := v, ev_index := i\<rparr>
      | Ev_DmgMmioWrite a before v \<Rightarrow> event\<lparr>ev_address := a, ev_before := before, ev_value := v\<rparr>
      | Ev_DmgJoypadRead i before_buttons buttons v \<Rightarrow>
          event\<lparr>ev_address := 0xff00, ev_before := before_buttons, ev_auxiliary := buttons,
                ev_value := v, ev_index := i\<rparr>)"

section \<open>Effects and errors\<close>

datatype step_kind =
    SK_Instruction
  | SK_HaltIdle
  | SK_HaltUntilVBlank
  | SK_HaltUntilSerial
  | SK_HaltUntilTimer
  | SK_HaltWake
  | SK_InterruptDispatch dmg_interrupt
  | SK_DmaByte

record step_effects =
  eff_kind :: step_kind
  eff_instruction :: decoded_instruction
  eff_branch_taken :: bool
  eff_bus_events :: "bus_event list"

definition step_effects_new :: "decoded_instruction \<Rightarrow> bool \<Rightarrow> bus_event list \<Rightarrow> step_effects" where
  "step_effects_new i branch_taken events =
     \<lparr>eff_kind = SK_Instruction, eff_instruction = i, eff_branch_taken = branch_taken, eff_bus_events = events\<rparr>"

definition step_effects_machine :: "step_kind \<Rightarrow> decoded_instruction \<Rightarrow> bus_event list \<Rightarrow> step_effects" where
  "step_effects_machine kind i events =
     \<lparr>eff_kind = kind, eff_instruction = i, eff_branch_taken = False, eff_bus_events = events\<rparr>"

datatype step_error =
    CpuNotRunning run_state
  | MissingWitness witness_request
  | UnexpectedWitness witness_request witness_kind
  | WitnessKindInvariant
  | AddressMismatch bus_role u16 u16
  | PhysicalAddressMismatch bus_role u32 u32
  | WriteValueMismatch u8 u8
  | SurplusWitnesses nat
  | RomAuthentication rom_read_error
  | MemoryAuthentication memory_transcript_error
  | Mbc3RtcRegisterUnavailable u8
  | LogCommitment log_error
  | BusTranscriptCommitment bus_transcript_error
  | IsaTranscriptCommitment isa_transcript_error
  | AlignmentPacking alignment_packing_error
  | InvalidState vm_state_error
  | UndefinedOpcode u8
  | InstructionMetadataInvariant
  | MissingImmediateByte
  | InvalidStopPadding u8
  | UndispatchedCbPrefix
  | WriteToRom u16
  | WriteToInputPort
  | ReadFromOutputPort
  | UnownedRead u16
  | UnownedInstructionFetch u16
  | UnownedWrite u16
  | DmgMmioUnavailable u16
  | DmgDmaCpuBusUnavailable u16
  | DmgDmaSourceUnavailable u16
  | DmgPpuCpuBusUnavailable u16
  | DmgEchoUnavailable u16
  | CycleCountOverflow
  | MachineEventMarkerInvariant

text \<open>The errors that report a broken internal invariant of the relation itself.\<close>

fun internal_error :: "step_error \<Rightarrow> bool" where
  "internal_error WitnessKindInvariant = True"
| "internal_error InstructionMetadataInvariant = True"
| "internal_error MissingImmediateByte = True"
| "internal_error UndispatchedCbPrefix = True"
| "internal_error MachineEventMarkerInvariant = True"
| "internal_error (AlignmentPacking _) = True"
| "internal_error (InvalidState _) = True"
| "internal_error _ = False"

section \<open>Codes\<close>

lemma bus_event_kind_roundtrip:
  "bus_event_kind_try_from (bus_event_kind_code k) = Inr k"
  "bus_event_kind_try_from c = Inr k \<Longrightarrow> bus_event_kind_code k = c"
  by (cases k; simp add: bus_event_kind_try_from_def)
     (auto simp: bus_event_kind_try_from_def split: if_splits)

lemma bus_event_kind_code_bound: "bus_event_kind_code k < 19"
  by (cases k) simp_all

lemma transcript_event_kind: "ev_kind (transcript_event e) = bus_event_kind_code (event_kind e)"
  by (cases e)
     (simp_all add: transcript_event_def blank_event_def rom_event_def memory_read_event_def
       memory_write_event_def device_event_def Let_def)

end
