(* ===== verification/Bus.thy ===== *)
theory Bus
  imports Bus_Types
begin

text \<open>
  The executor of \<open>zksm83-core/src/bus.rs\<close>: it owns the VM state, consumes one witness per
  authenticated access in the order the instruction asks for them, and records one bus event per
  access.  Under Merkle authentication every ROM and memory witness is verified against the
  committed root and writes move the memory root; under lookup authentication the enclosing
  proof is responsible for the bytes.  Verification is the cache-free relation
  (\<open>rom_read_check\<close> and its siblings), which the caches are proved to agree with.
\<close>

datatype bus_authentication = Auth_Merkle | Auth_Lookup

record executor =
  ex_state :: vm_state
  ex_witnesses :: "bus_witness list"
  ex_events :: "bus_event list"
  ex_authentication :: bus_authentication

type_synonym 'a ex = "(executor, step_error, 'a) exec"

definition executor_new :: "vm_state \<Rightarrow> step_input \<Rightarrow> bus_authentication \<Rightarrow> executor" where
  "executor_new state input authentication =
     \<lparr>ex_state = state, ex_witnesses = input_witnesses input, ex_events = [],
      ex_authentication = authentication\<rparr>"

section \<open>State access\<close>

text \<open>\<open>state_mut()\<close> and \<open>cpu_mut()\<close> as update functions, \<open>events.push\<close> as an append.\<close>

abbreviation (input) the_cpu :: "executor \<Rightarrow> cpu_state" where
  "the_cpu x \<equiv> vm_cpu (ex_state x)"

abbreviation (input) the_cartridge :: "executor \<Rightarrow> mbc3_cartridge_profile" where
  "the_cartridge x \<equiv> cartridge_profile (vm_profile (ex_state x))"

definition update_state :: "(vm_state \<Rightarrow> vm_state) \<Rightarrow> executor \<Rightarrow> executor" where
  "update_state f x = x\<lparr>ex_state := f (ex_state x)\<rparr>"

definition update_cpu :: "(cpu_state \<Rightarrow> cpu_state) \<Rightarrow> executor \<Rightarrow> executor" where
  "update_cpu f = update_state (\<lambda>s. s\<lparr>vm_cpu := f (vm_cpu s)\<rparr>)"

definition update_devices :: "(dmg_device_state \<Rightarrow> dmg_device_state) \<Rightarrow> executor \<Rightarrow> executor" where
  "update_devices f = update_state (\<lambda>s. s\<lparr>vm_dmg_devices := f (vm_dmg_devices s)\<rparr>)"

definition push_event :: "bus_event \<Rightarrow> unit ex" where
  "push_event e = emodify (\<lambda>x. x\<lparr>ex_events := ex_events x @ [e]\<rparr>)"

definition state_owner :: "vm_state \<Rightarrow> u16 \<Rightarrow> address_owner" where
  "state_owner s address =
     (if is_dmg_post_boot_mbc3 (vm_profile s) then dmg_owner address else owner address)"

definition require_address :: "u16 \<Rightarrow> u16 \<Rightarrow> bus_role \<Rightarrow> step_error + unit" where
  "require_address expected actual role =
     (if actual \<noteq> expected then Inl (AddressMismatch role expected actual) else Inr ())"

definition require_physical_address :: "u32 \<Rightarrow> u32 \<Rightarrow> bus_role \<Rightarrow> step_error + unit" where
  "require_physical_address expected actual role =
     (if actual \<noteq> expected then Inl (PhysicalAddressMismatch role expected actual) else Inr ())"

section \<open>Witness consumption\<close>

definition next_witness :: "witness_request \<Rightarrow> bus_witness ex" where
  "next_witness request = (\<lambda>x.
     case ex_witnesses x of
       [] \<Rightarrow> Inl (MissingWitness request)
     | w # ws \<Rightarrow>
         let actual = bus_witness_kind w
         in if actual \<noteq> witness_request_kind request then Inl (UnexpectedWitness request actual)
            else Inr (w, x\<lparr>ex_witnesses := ws\<rparr>))"

definition take_rom_read :: "digest \<Rightarrow> u16 \<Rightarrow> u32 \<Rightarrow> bus_role \<Rightarrow> rom_read ex" where
  "take_rom_read sha address physical_address role =
     ebind (next_witness (Req_Rom address physical_address role)) (\<lambda>witness.
       case witness of
         Wit_Rom read \<Rightarrow>
           ethen (elift (require_address address (rr_address read) role))
          (ethen (elift (require_physical_address physical_address (rr_physical_address read) role))
          (ebind (egets (\<lambda>x. x)) (\<lambda>x.
           ethen (ewhen (ex_authentication x = Auth_Merkle)
                    (elift (map_err RomAuthentication (rom_read_check sha read (vm_rom_root (ex_state x))))))
                 (eret read))))
       | _ \<Rightarrow> ethrow WitnessKindInvariant)"

definition take_memory_read :: "digest \<Rightarrow> u16 \<Rightarrow> u32 \<Rightarrow> bus_role \<Rightarrow> memory_read ex" where
  "take_memory_read sha address physical_address role =
     ebind (next_witness (Req_MemoryRead address physical_address)) (\<lambda>witness.
       case witness of
         Wit_MemoryRead read \<Rightarrow>
           ethen (elift (require_address address (mr_address read) role))
          (ethen (elift (require_physical_address physical_address (mr_physical_address read) role))
          (ebind (egets (\<lambda>x. x)) (\<lambda>x.
           ethen (ewhen (ex_authentication x = Auth_Merkle)
                    (elift (map_err MemoryAuthentication
                       (memory_read_check sha read (vm_memory_root (ex_state x))))))
                 (eret read))))
       | _ \<Rightarrow> ethrow WitnessKindInvariant)"

definition take_memory_write :: "u16 \<Rightarrow> u32 \<Rightarrow> u8 \<Rightarrow> memory_write ex" where
  "take_memory_write address physical_address v =
     ebind (next_witness (Req_MemoryWrite address physical_address v)) (\<lambda>witness.
       case witness of
         Wit_MemoryWrite w \<Rightarrow>
           ethen (elift (require_address address (mw_address w) Role_DataWrite))
          (ethen (elift (require_physical_address physical_address (mw_physical_address w) Role_DataWrite))
          (if mw_after w \<noteq> v then ethrow (WriteValueMismatch v (mw_after w)) else eret w))
       | _ \<Rightarrow> ethrow WitnessKindInvariant)"

text \<open>The Merkle-only part of a write: verify and move the memory root.\<close>

definition commit_write :: "digest \<Rightarrow> memory_write \<Rightarrow> unit ex" where
  "commit_write sha w =
     ebind (egets (\<lambda>x. x)) (\<lambda>x.
       ewhen (ex_authentication x = Auth_Merkle)
         (ebind (elift (map_err MemoryAuthentication (memory_write_check sha w (vm_memory_root (ex_state x)))))
            (\<lambda>next_root. emodify (update_state (\<lambda>s. s\<lparr>vm_memory_root := next_root\<rparr>)))))"

section \<open>Accesses\<close>

definition fetch :: "digest \<Rightarrow> u16 \<Rightarrow> bus_role \<Rightarrow> u8 ex" where
  "fetch sha address role =
     ebind (egets (\<lambda>x. map_rom_for (vm_mbc3 (ex_state x)) (the_cartridge x) address)) (\<lambda>physical_address.
     ebind (take_rom_read sha address physical_address role) (\<lambda>read.
       ethen (case role of
                Role_OpcodeFetch \<Rightarrow> push_event (Ev_OpcodeFetch read)
              | Role_ImmediateRead \<Rightarrow> push_event (Ev_ImmediateRead read)
              | Role_DataRead \<Rightarrow> push_event (Ev_RomRead read)
              | Role_DataWrite \<Rightarrow> ethrow InstructionMetadataInvariant)
             (eret (rr_value read))))"

definition read_memory :: "digest \<Rightarrow> u16 \<Rightarrow> u32 \<Rightarrow> u8 ex" where
  "read_memory sha address physical_address =
     ebind (take_memory_read sha address physical_address Role_DataRead) (\<lambda>read.
       ethen (push_event (Ev_MemoryRead read)) (eret (mr_value read)))"

definition read_instruction_memory :: "digest \<Rightarrow> u16 \<Rightarrow> bus_role \<Rightarrow> u8 ex" where
  "read_instruction_memory sha address role =
     ebind (take_memory_read sha address (ucast address) role) (\<lambda>read.
       ethen (case role of
                Role_OpcodeFetch \<Rightarrow> push_event (Ev_MemoryOpcodeFetch read)
              | Role_ImmediateRead \<Rightarrow> push_event (Ev_MemoryImmediateRead read)
              | _ \<Rightarrow> ethrow InstructionMetadataInvariant)
             (eret (mr_value read)))"

definition read_input :: "digest \<Rightarrow> u8 ex" where
  "read_input sha =
     ebind (next_witness Req_InputByte) (\<lambda>witness.
       case witness of
         Wit_InputByte v \<Rightarrow>
           ebind (egets (\<lambda>x. vm_input_log (ex_state x))) (\<lambda>log.
           ebind (elift (map_err LogCommitment (log_append sha log v))) (\<lambda>next.
           ethen (emodify (update_state (\<lambda>s. s\<lparr>vm_input_log := next\<rparr>)))
          (ethen (push_event (Ev_InputRead (log_next_index log) v)) (eret v))))
       | _ \<Rightarrow> ethrow WitnessKindInvariant)"

definition read_dmg_mmio :: "u16 \<Rightarrow> u8 ex" where
  "read_dmg_mmio address =
     ebind (egets (\<lambda>x. vm_dmg_devices (ex_state x))) (\<lambda>devices.
     ebind (elift (ok_or (DmgMmioUnavailable address) (read_mmio devices address))) (\<lambda>v.
       ethen (push_event (Ev_DmgMmioRead address v)) (eret v)))"

definition read_dmg_joypad :: "digest \<Rightarrow> u8 ex" where
  "read_dmg_joypad sha =
     ebind (next_witness Req_InputByte) (\<lambda>witness.
       case witness of
         Wit_InputByte buttons \<Rightarrow>
           ebind (egets (\<lambda>x. vm_input_log (ex_state x))) (\<lambda>log.
           ebind (elift (map_err LogCommitment (log_append sha log buttons))) (\<lambda>next.
           ebind (egets (\<lambda>x. vm_dmg_devices (ex_state x))) (\<lambda>devices.
             let before_buttons = joypad_buttons devices;
                 (v, devices') = sample_joypad buttons devices
             in ethen (emodify (update_devices (\<lambda>_. devices')))
               (ethen (emodify (update_state (\<lambda>s. s\<lparr>vm_input_log := next\<rparr>)))
               (ethen (push_event (Ev_DmgJoypadRead (log_next_index log) before_buttons buttons v))
                      (eret v))))))
       | _ \<Rightarrow> ethrow WitnessKindInvariant)"

definition write_dmg_mmio :: "u16 \<Rightarrow> u8 \<Rightarrow> unit ex" where
  "write_dmg_mmio address v =
     ebind (egets (\<lambda>x. vm_dmg_devices (ex_state x))) (\<lambda>devices.
     ebind (elift (ok_or (DmgMmioUnavailable address) (write_mmio address v devices))) (\<lambda>(before, devices').
       ethen (emodify (update_devices (\<lambda>_. devices')))
             (push_event (Ev_DmgMmioWrite address before v))))"

definition write_memory :: "digest \<Rightarrow> u16 \<Rightarrow> u32 \<Rightarrow> u8 \<Rightarrow> unit ex" where
  "write_memory sha address physical_address v =
     ebind (take_memory_write address physical_address v) (\<lambda>w.
       ethen (commit_write sha w) (push_event (Ev_MemoryWrite w)))"

definition write_output :: "digest \<Rightarrow> u8 \<Rightarrow> unit ex" where
  "write_output sha v =
     ebind (egets (\<lambda>x. vm_output_log (ex_state x))) (\<lambda>log.
     ebind (elift (map_err LogCommitment (log_append sha log v))) (\<lambda>next.
       ethen (emodify (update_state (\<lambda>s. s\<lparr>vm_output_log := next\<rparr>)))
             (push_event (Ev_OutputWrite (log_next_index log) v))))"

text \<open>The deterministic mapper accesses of \<open>read_data\<close> and \<open>write_data\<close>.\<close>

definition control_write :: "u16 \<Rightarrow> u8 \<Rightarrow> unit ex" where
  "control_write address v =
     ethen (emodify (\<lambda>x. update_state
              (\<lambda>s. s\<lparr>vm_mbc3 := apply_control_write_for (the_cartridge x) address v (vm_mbc3 s)\<rparr>) x))
           (push_event (Ev_Mbc3ControlWrite address v))"

definition open_bus_read :: "u16 \<Rightarrow> u8 ex" where
  "open_bus_read address = ethen (push_event (Ev_Mbc3OpenBusRead address 0xff)) (eret 0xff)"

section \<open>CPU accesses\<close>

definition require_cpu_dma_access :: "u16 \<Rightarrow> unit ex" where
  "require_cpu_dma_access address =
     ebind (egets (\<lambda>x. ex_state x)) (\<lambda>s.
       if is_dmg_post_boot_mbc3 (vm_profile s) \<and> dma_active (vm_dmg_devices s)
          \<and> \<not> (0xff80 \<le> address \<and> address \<le> 0xfffe)
       then ethrow (DmgDmaCpuBusUnavailable address) else eret ())"

definition require_cpu_ppu_access :: "u16 \<Rightarrow> unit ex" where
  "require_cpu_ppu_access address =
     ebind (egets (\<lambda>x. ex_state x)) (\<lambda>s.
       if \<not> is_dmg_post_boot_mbc3 (vm_profile s) then eret ()
       else
         let devices = vm_dmg_devices s;
             blocked = ((0x8000 \<le> address \<and> address \<le> 0x9fff) \<and> cpu_vram_blocked devices) \<or>
                       ((0xfe00 \<le> address \<and> address \<le> 0xfe9f) \<and> cpu_oam_blocked devices)
         in if blocked then ethrow (DmgPpuCpuBusUnavailable address) else eret ())"

definition fetch_instruction :: "digest \<Rightarrow> u16 \<Rightarrow> bus_role \<Rightarrow> u8 ex" where
  "fetch_instruction sha address role =
     ethen (require_cpu_dma_access address)
    (ethen (require_cpu_ppu_access address)
    (ebind (egets (\<lambda>x. state_owner (ex_state x) address)) (\<lambda>who.
       case who of
         Own_Rom \<Rightarrow> fetch sha address role
       | Own_Memory \<Rightarrow> read_instruction_memory sha address role
       | _ \<Rightarrow> ethrow (UnownedInstructionFetch address))))"

definition read_data :: "digest \<Rightarrow> u16 \<Rightarrow> u8 ex" where
  "read_data sha address =
     ethen (require_cpu_dma_access address)
    (ethen (require_cpu_ppu_access address)
    (ebind (egets (\<lambda>x. ex_state x)) (\<lambda>s.
       if is_dmg_post_boot_mbc3 (vm_profile s) \<and> address = 0xff00 then read_dmg_joypad sha
       else if 0xa000 \<le> address \<and> address \<le> 0xbfff then
         (case external_window_for (vm_mbc3 s) (cartridge_profile (vm_profile s)) address of
            Win_Ram physical_address \<Rightarrow> read_memory sha address physical_address
          | Win_RtcRegister select \<Rightarrow> ethrow (Mbc3RtcRegisterUnavailable select)
          | Win_Unavailable \<Rightarrow> open_bus_read address)
       else
         (case state_owner s address of
            Own_Rom \<Rightarrow> fetch sha address Role_DataRead
          | Own_Memory \<Rightarrow> read_memory sha address (ucast address)
          | Own_Input \<Rightarrow> read_input sha
          | Own_Output \<Rightarrow> ethrow ReadFromOutputPort
          | Own_DmgMmio \<Rightarrow> read_dmg_mmio address
          | Own_DmgEcho \<Rightarrow> ethrow (DmgEchoUnavailable address)
          | Own_Unowned \<Rightarrow> ethrow (UnownedRead address)))))"

definition write_data :: "digest \<Rightarrow> u16 \<Rightarrow> u8 \<Rightarrow> unit ex" where
  "write_data sha address v =
     ethen (require_cpu_dma_access address)
    (ethen (require_cpu_ppu_access address)
    (ebind (egets (\<lambda>x. ex_state x)) (\<lambda>s.
       if address \<le> 0x7fff then control_write address v
       else if 0xa000 \<le> address \<and> address \<le> 0xbfff then
         (case external_window_for (vm_mbc3 s) (cartridge_profile (vm_profile s)) address of
            Win_Ram physical_address \<Rightarrow> write_memory sha address physical_address v
          | Win_RtcRegister select \<Rightarrow> ethrow (Mbc3RtcRegisterUnavailable select)
          | Win_Unavailable \<Rightarrow> push_event (Ev_Mbc3IgnoredWrite address v))
       else
         (case state_owner s address of
            Own_Memory \<Rightarrow> write_memory sha address (ucast address) v
          | Own_Output \<Rightarrow> write_output sha v
          | Own_Rom \<Rightarrow> ethrow (WriteToRom address)
          | Own_Input \<Rightarrow> ethrow WriteToInputPort
          | Own_DmgMmio \<Rightarrow> write_dmg_mmio address v
          | Own_DmgEcho \<Rightarrow> ethrow (DmgEchoUnavailable address)
          | Own_Unowned \<Rightarrow> ethrow (UnownedWrite address)))))"

section \<open>OAM DMA\<close>

definition dma_source_byte :: "digest \<Rightarrow> u16 \<Rightarrow> u8 ex" where
  "dma_source_byte sha source =
     ebind (egets (\<lambda>x. ex_state x)) (\<lambda>s.
       case state_owner s source of
         Own_Rom \<Rightarrow>
           ebind (take_rom_read sha source
                    (map_rom_for (vm_mbc3 s) (cartridge_profile (vm_profile s)) source) Role_DataRead) (\<lambda>read.
             ethen (push_event (Ev_DmgDmaRomRead read)) (eret (rr_value read)))
       | Own_Memory \<Rightarrow>
           ebind (if 0xa000 \<le> source \<and> source \<le> 0xbfff then
                    (case external_window_for (vm_mbc3 s) (cartridge_profile (vm_profile s)) source of
                       Win_Ram physical \<Rightarrow> eret physical
                     | Win_RtcRegister select \<Rightarrow> ethrow (Mbc3RtcRegisterUnavailable select)
                     | Win_Unavailable \<Rightarrow> ethrow (DmgDmaSourceUnavailable source))
                  else eret (ucast source)) (\<lambda>physical.
           ebind (take_memory_read sha source physical Role_DataRead) (\<lambda>read.
             ethen (push_event (Ev_DmgDmaMemoryRead read)) (eret (mr_value read))))
       | _ \<Rightarrow> ethrow (DmgDmaSourceUnavailable source))"

definition dma_write_byte :: "digest \<Rightarrow> u16 \<Rightarrow> u8 \<Rightarrow> unit ex" where
  "dma_write_byte sha destination v =
     ebind (take_memory_write destination (ucast destination) v) (\<lambda>w.
       ethen (commit_write sha w) (push_event (Ev_DmgDmaWrite w)))"

definition copy_dma_byte :: "digest \<Rightarrow> unit ex" where
  "copy_dma_byte sha =
     ebind (egets (\<lambda>x. vm_dmg_devices (ex_state x))) (\<lambda>devices.
       let source = dma_source_address devices;
           destination = dma_destination_address devices
       in if source > 0xdf9f then ethrow (DmgDmaSourceUnavailable source)
          else ebind (dma_source_byte sha source) (\<lambda>v.
            ethen (dma_write_byte sha destination v)
                  (emodify (update_devices complete_dma_byte))))"

section \<open>Finishing a step\<close>

definition finalize :: "digest \<Rightarrow> decoded_instruction \<Rightarrow> executor \<Rightarrow> step_error + (vm_state \<times> bus_event list)" where
  "finalize sha i x =
     (if length (ex_witnesses x) \<noteq> 0 then Inl (SurplusWitnesses (length (ex_witnesses x)))
      else if ex_authentication x = Auth_Merkle then
        and_then (map_err BusTranscriptCommitment
            (try_fold (\<lambda>transcript e. bus_transcript_append sha transcript (transcript_event e))
               (vm_bus_transcript (ex_state x)) (ex_events x))) (\<lambda>transcript.
        and_then (map_err AlignmentPacking (packed_row (from_decoded i))) (\<lambda>aligned_row.
        and_then (map_err IsaTranscriptCommitment
            (isa_transcript_append sha (vm_isa_transcript (ex_state x)) aligned_row)) (\<lambda>isa.
          Inr ((ex_state x)\<lparr>vm_bus_transcript := transcript, vm_isa_transcript := isa\<rparr>, ex_events x))))
      else Inr (ex_state x, ex_events x))"

definition finish ::
  "digest \<Rightarrow> decoded_instruction \<Rightarrow> bool \<Rightarrow> executor \<Rightarrow> step_error + (vm_state \<times> step_effects)" where
  "finish sha i branch_taken x =
     and_then (finalize sha i x) (\<lambda>(state, events). Inr (state, step_effects_new i branch_taken events))"

definition finish_machine ::
  "digest \<Rightarrow> step_kind \<Rightarrow> decoded_instruction \<Rightarrow> executor \<Rightarrow> step_error + (vm_state \<times> step_effects)" where
  "finish_machine sha kind i x =
     and_then (finalize sha i x) (\<lambda>(state, events). Inr (state, step_effects_machine kind i events))"

end
