(* ===== verification/Execute.thy ===== *)
theory Execute
  imports Bus Alu
begin

text \<open>Instruction semantics over the bus executor (\<open>zksm83-core/src/execute.rs\<close>).\<close>

section \<open>Immediate bytes\<close>

record immediate_bytes =
  imm_first :: "u8 option"
  imm_second :: "u8 option"

definition immediate_default :: immediate_bytes where
  "immediate_default = \<lparr>imm_first = None, imm_second = None\<rparr>"

definition immediate_push :: "u8 \<Rightarrow> immediate_bytes \<Rightarrow> step_error + immediate_bytes" where
  "immediate_push v imm =
     (if imm_first imm = None then Inr (imm\<lparr>imm_first := Some v\<rparr>)
      else if imm_second imm = None then Inr (imm\<lparr>imm_second := Some v\<rparr>)
      else Inl InstructionMetadataInvariant)"

definition immediate_byte :: "immediate_bytes \<Rightarrow> step_error + u8" where
  "immediate_byte imm = ok_or MissingImmediateByte (imm_first imm)"

definition immediate_word :: "immediate_bytes \<Rightarrow> step_error + u16" where
  "immediate_word imm =
     and_then (ok_or MissingImmediateByte (imm_first imm)) (\<lambda>low.
     and_then (ok_or MissingImmediateByte (imm_second imm)) (\<lambda>high.
       Inr (u16_from_le low high)))"

section \<open>Registers\<close>

fun register8_of :: "registers \<Rightarrow> register8 \<Rightarrow> u8" where
  "register8_of r R8_A = reg_a r"
| "register8_of r R8_B = reg_b r"
| "register8_of r R8_C = reg_c r"
| "register8_of r R8_D = reg_d r"
| "register8_of r R8_E = reg_e r"
| "register8_of r R8_H = reg_h r"
| "register8_of r R8_L = reg_l r"

fun with_register8 :: "register8 \<Rightarrow> u8 \<Rightarrow> registers \<Rightarrow> registers" where
  "with_register8 R8_A v r = r\<lparr>reg_a := v\<rparr>"
| "with_register8 R8_B v r = r\<lparr>reg_b := v\<rparr>"
| "with_register8 R8_C v r = r\<lparr>reg_c := v\<rparr>"
| "with_register8 R8_D v r = r\<lparr>reg_d := v\<rparr>"
| "with_register8 R8_E v r = r\<lparr>reg_e := v\<rparr>"
| "with_register8 R8_H v r = r\<lparr>reg_h := v\<rparr>"
| "with_register8 R8_L v r = r\<lparr>reg_l := v\<rparr>"

fun register16_of :: "cpu_state \<Rightarrow> register16 \<Rightarrow> u16" where
  "register16_of c R16_Bc = u16_from_be (reg_b (cpu_registers c)) (reg_c (cpu_registers c))"
| "register16_of c R16_De = u16_from_be (reg_d (cpu_registers c)) (reg_e (cpu_registers c))"
| "register16_of c R16_Hl = u16_from_be (reg_h (cpu_registers c)) (reg_l (cpu_registers c))"
| "register16_of c R16_Sp = cpu_sp c"

fun with_register16 :: "register16 \<Rightarrow> u16 \<Rightarrow> cpu_state \<Rightarrow> cpu_state" where
  "with_register16 R16_Bc v c =
     c\<lparr>cpu_registers := (cpu_registers c)\<lparr>reg_b := u16_high v, reg_c := u16_low v\<rparr>\<rparr>"
| "with_register16 R16_De v c =
     c\<lparr>cpu_registers := (cpu_registers c)\<lparr>reg_d := u16_high v, reg_e := u16_low v\<rparr>\<rparr>"
| "with_register16 R16_Hl v c =
     c\<lparr>cpu_registers := (cpu_registers c)\<lparr>reg_h := u16_high v, reg_l := u16_low v\<rparr>\<rparr>"
| "with_register16 R16_Sp v c = c\<lparr>cpu_sp := v\<rparr>"

definition set_flags :: "flags \<Rightarrow> cpu_state \<Rightarrow> cpu_state" where
  "set_flags f c = c\<lparr>cpu_flags := f\<rparr>"

definition set_accumulator :: "u8 \<Rightarrow> cpu_state \<Rightarrow> cpu_state" where
  "set_accumulator v c = c\<lparr>cpu_registers := (cpu_registers c)\<lparr>reg_a := v\<rparr>\<rparr>"

definition get_cpu :: "cpu_state ex" where
  "get_cpu = egets (\<lambda>x. vm_cpu (ex_state x))"

definition modify_cpu :: "(cpu_state \<Rightarrow> cpu_state) \<Rightarrow> unit ex" where
  "modify_cpu f = emodify (update_cpu f)"

definition register8_ex :: "register8 \<Rightarrow> u8 ex" where
  "register8_ex r = ebind get_cpu (\<lambda>c. eret (register8_of (cpu_registers c) r))"

definition set_register8 :: "register8 \<Rightarrow> u8 \<Rightarrow> unit ex" where
  "set_register8 r v = modify_cpu (\<lambda>c. c\<lparr>cpu_registers := with_register8 r v (cpu_registers c)\<rparr>)"

definition register16_ex :: "register16 \<Rightarrow> u16 ex" where
  "register16_ex r = ebind get_cpu (\<lambda>c. eret (register16_of c r))"

definition set_register16 :: "register16 \<Rightarrow> u16 \<Rightarrow> unit ex" where
  "set_register16 r v = modify_cpu (with_register16 r v)"

fun stack_register_of :: "cpu_state \<Rightarrow> stack_register16 \<Rightarrow> u16" where
  "stack_register_of c SR16_Bc = register16_of c R16_Bc"
| "stack_register_of c SR16_De = register16_of c R16_De"
| "stack_register_of c SR16_Hl = register16_of c R16_Hl"
| "stack_register_of c SR16_Af = u16_from_be (reg_a (cpu_registers c)) (flags_byte (cpu_flags c))"

definition stack_register :: "stack_register16 \<Rightarrow> u16 ex" where
  "stack_register r = ebind get_cpu (\<lambda>c. eret (stack_register_of c r))"

fun set_stack_register :: "stack_register16 \<Rightarrow> u16 \<Rightarrow> unit ex" where
  "set_stack_register SR16_Bc v = set_register16 R16_Bc v"
| "set_stack_register SR16_De v = set_register16 R16_De v"
| "set_stack_register SR16_Hl v = set_register16 R16_Hl v"
| "set_stack_register SR16_Af v =
     ethen (modify_cpu (set_accumulator (u16_high v)))
     (ebind (elift (map_err (\<lambda>b. InvalidState (InvalidFlags b)) (flags_from_byte (u16_low v AND 0xf0)))) (\<lambda>f.
        modify_cpu (set_flags f)))"

fun flag_condition :: "flags \<Rightarrow> condition \<Rightarrow> bool" where
  "flag_condition f Cond_NotZero = (\<not> flag_zero f)"
| "flag_condition f Cond_Zero = flag_zero f"
| "flag_condition f Cond_NotCarry = (\<not> flag_carry f)"
| "flag_condition f Cond_Carry = flag_carry f"

text \<open>\<open>condition.is_none_or(|predicate| condition_holds(executor, predicate))\<close>.\<close>

definition branch_condition :: "condition option \<Rightarrow> bool ex" where
  "branch_condition c =
     ebind get_cpu (\<lambda>cpu. eret (case c of None \<Rightarrow> True | Some p \<Rightarrow> flag_condition (cpu_flags cpu) p))"

definition bit_mask :: "u8 \<Rightarrow> step_error + u8" where
  "bit_mask b = ok_or InstructionMetadataInvariant (if b < 8 then Some (push_bit (unat b) 1) else None)"

section \<open>Operands and memory words\<close>

fun read_operand :: "digest \<Rightarrow> operand8 \<Rightarrow> immediate_bytes \<Rightarrow> u8 ex" where
  "read_operand sha (Opd_Register r) imm = register8_ex r"
| "read_operand sha Opd_Immediate imm = elift (immediate_byte imm)"
| "read_operand sha Opd_IndirectHl imm = ebind (register16_ex R16_Hl) (read_data sha)"

fun write_operand :: "digest \<Rightarrow> operand8 \<Rightarrow> u8 \<Rightarrow> unit ex" where
  "write_operand sha (Opd_Register r) v = set_register8 r v"
| "write_operand sha Opd_Immediate v = ethrow InstructionMetadataInvariant"
| "write_operand sha Opd_IndirectHl v = ebind (register16_ex R16_Hl) (\<lambda>a. write_data sha a v)"

fun transfer_accumulator :: "digest \<Rightarrow> u16 \<Rightarrow> transfer_direction \<Rightarrow> unit ex" where
  "transfer_accumulator sha address Dir_IntoAccumulator =
     ebind (read_data sha address) (\<lambda>v. modify_cpu (set_accumulator v))"
| "transfer_accumulator sha address Dir_FromAccumulator =
     ebind get_cpu (\<lambda>c. write_data sha address (reg_a (cpu_registers c)))"

definition store_sp_absolute :: "digest \<Rightarrow> u16 \<Rightarrow> unit ex" where
  "store_sp_absolute sha address =
     ebind get_cpu (\<lambda>c.
       ethen (write_data sha address (u16_low (cpu_sp c)))
             (write_data sha (address + 1) (u16_high (cpu_sp c))))"

definition push_word :: "digest \<Rightarrow> u16 \<Rightarrow> unit ex" where
  "push_word sha v =
     ebind get_cpu (\<lambda>c.
       let high_address = cpu_sp c - 1; low_address = high_address - 1
       in ethen (write_data sha high_address (u16_high v))
         (ethen (modify_cpu (\<lambda>c. c\<lparr>cpu_sp := high_address\<rparr>))
         (ethen (write_data sha low_address (u16_low v))
                (modify_cpu (\<lambda>c. c\<lparr>cpu_sp := low_address\<rparr>)))))"

definition pop_word :: "digest \<Rightarrow> u16 ex" where
  "pop_word sha =
     ebind get_cpu (\<lambda>c.
       let low_address = cpu_sp c; high_address = low_address + 1
       in ebind (read_data sha low_address) (\<lambda>low.
          ebind (read_data sha high_address) (\<lambda>high.
          ethen (modify_cpu (\<lambda>c. c\<lparr>cpu_sp := high_address + 1\<rparr>))
                (eret (u16_from_le low high)))))"

fun indirect_register :: "indirect_address \<Rightarrow> register16" where
  "indirect_register Ind_Bc = R16_Bc"
| "indirect_register Ind_De = R16_De"
| "indirect_register Ind_HlIncrement = R16_Hl"
| "indirect_register Ind_HlDecrement = R16_Hl"

definition indirect_address_of :: "indirect_address \<Rightarrow> u16 ex" where
  "indirect_address_of a = register16_ex (indirect_register a)"

fun update_hl_after_indirect :: "indirect_address \<Rightarrow> unit ex" where
  "update_hl_after_indirect Ind_HlIncrement =
     ebind (register16_ex R16_Hl) (\<lambda>current. set_register16 R16_Hl (current + 1))"
| "update_hl_after_indirect Ind_HlDecrement =
     ebind (register16_ex R16_Hl) (\<lambda>current. set_register16 R16_Hl (current - 1))"
| "update_hl_after_indirect Ind_Bc = eret ()"
| "update_hl_after_indirect Ind_De = eret ()"

section \<open>Instruction families\<close>

definition execute_control :: "operation \<Rightarrow> bool ex" where
  "execute_control operation =
     (case operation of
        Op_Nop \<Rightarrow> eret False
      | Op_DecimalAdjust \<Rightarrow>
          ethen (modify_cpu (\<lambda>c. let result = decimal_adjust (reg_a (cpu_registers c)) (cpu_flags c)
                   in set_flags (br_flags result) (set_accumulator (br_value result) c))) (eret False)
      | Op_ComplementAccumulator \<Rightarrow>
          ethen (modify_cpu (\<lambda>c. set_flags
                   (flags_from_bits (flag_zero (cpu_flags c)) True True (flag_carry (cpu_flags c)))
                   (set_accumulator (NOT (reg_a (cpu_registers c))) c))) (eret False)
      | Op_SetCarry \<Rightarrow>
          ethen (modify_cpu (\<lambda>c. set_flags (flags_from_bits (flag_zero (cpu_flags c)) False False True) c))
            (eret False)
      | Op_ComplementCarry \<Rightarrow>
          ethen (modify_cpu (\<lambda>c. set_flags
                   (flags_from_bits (flag_zero (cpu_flags c)) False False (\<not> flag_carry (cpu_flags c))) c))
            (eret False)
      | _ \<Rightarrow> ethrow InstructionMetadataInvariant)"

definition execute_load :: "digest \<Rightarrow> operation \<Rightarrow> immediate_bytes \<Rightarrow> bool ex" where
  "execute_load sha operation imm =
     (case operation of
        Op_StoreSpAbsolute \<Rightarrow>
          ebind (elift (immediate_word imm)) (\<lambda>a. ethen (store_sp_absolute sha a) (eret False))
      | Op_Load16Immediate r \<Rightarrow>
          ebind (elift (immediate_word imm)) (\<lambda>v. ethen (set_register16 r v) (eret False))
      | Op_LoadAccumulatorIndirect a direction \<Rightarrow>
          ebind (indirect_address_of a) (\<lambda>target.
            ethen (transfer_accumulator sha target direction)
           (ethen (update_hl_after_indirect a) (eret False)))
      | Op_Load8Immediate target \<Rightarrow>
          ebind (elift (immediate_byte imm)) (\<lambda>v. ethen (write_operand sha target v) (eret False))
      | Op_Load8 destination source \<Rightarrow>
          ebind (read_operand sha source imm) (\<lambda>v. ethen (write_operand sha destination v) (eret False))
      | Op_HighImmediateLoad direction \<Rightarrow>
          ebind (elift (immediate_byte imm)) (\<lambda>b.
            ethen (transfer_accumulator sha (0xff00 OR ucast b) direction) (eret False))
      | Op_LoadHlSpOffset \<Rightarrow>
          ebind get_cpu (\<lambda>c.
          ebind (elift (immediate_byte imm)) (\<lambda>b.
            let (v, f) = add_signed_to_sp (cpu_sp c) b
            in ethen (set_register16 R16_Hl v) (ethen (modify_cpu (set_flags f)) (eret False))))
      | Op_LoadSpHl \<Rightarrow>
          ebind (register16_ex R16_Hl) (\<lambda>v. ethen (modify_cpu (\<lambda>c. c\<lparr>cpu_sp := v\<rparr>)) (eret False))
      | Op_HighCLoad direction \<Rightarrow>
          ebind get_cpu (\<lambda>c.
            ethen (transfer_accumulator sha (0xff00 OR ucast (reg_c (cpu_registers c))) direction) (eret False))
      | Op_AbsoluteAccumulatorLoad direction \<Rightarrow>
          ebind (elift (immediate_word imm)) (\<lambda>a.
            ethen (transfer_accumulator sha a direction) (eret False))
      | _ \<Rightarrow> ethrow InstructionMetadataInvariant)"

text \<open>Read, compute and write back one operand, setting the flags of the result.\<close>

definition update_operand :: "digest \<Rightarrow> operand8 \<Rightarrow> immediate_bytes \<Rightarrow> (u8 \<Rightarrow> flags \<Rightarrow> byte_result) \<Rightarrow> bool ex" where
  "update_operand sha target imm f =
     ebind (read_operand sha target imm) (\<lambda>before.
     ebind get_cpu (\<lambda>c.
       let result = f before (cpu_flags c)
       in ethen (write_operand sha target (br_value result))
         (ethen (modify_cpu (set_flags (br_flags result))) (eret False))))"

definition execute_alu8 :: "digest \<Rightarrow> operation \<Rightarrow> immediate_bytes \<Rightarrow> bool ex" where
  "execute_alu8 sha operation imm =
     (case operation of
        Op_Increment8 target \<Rightarrow> update_operand sha target imm increment
      | Op_Decrement8 target \<Rightarrow> update_operand sha target imm decrement
      | Op_Alu8 alu source \<Rightarrow>
          ebind (read_operand sha source imm) (\<lambda>operand.
          ebind get_cpu (\<lambda>c.
            let result = apply_alu alu (reg_a (cpu_registers c)) operand (cpu_flags c)
            in ethen (ewhen (alu \<noteq> Alu_Compare) (modify_cpu (set_accumulator (br_value result))))
              (ethen (modify_cpu (set_flags (br_flags result))) (eret False))))
      | _ \<Rightarrow> ethrow InstructionMetadataInvariant)"

definition execute_alu16 :: "operation \<Rightarrow> immediate_bytes \<Rightarrow> bool ex" where
  "execute_alu16 operation imm =
     (case operation of
        Op_AddHl source \<Rightarrow>
          ebind (register16_ex R16_Hl) (\<lambda>left.
          ebind (register16_ex source) (\<lambda>right.
          ebind get_cpu (\<lambda>c.
            let (v, f) = add_hl left right (cpu_flags c)
            in ethen (set_register16 R16_Hl v) (ethen (modify_cpu (set_flags f)) (eret False)))))
      | Op_Increment16 target \<Rightarrow>
          ebind (register16_ex target) (\<lambda>v. ethen (set_register16 target (v + 1)) (eret False))
      | Op_Decrement16 target \<Rightarrow>
          ebind (register16_ex target) (\<lambda>v. ethen (set_register16 target (v - 1)) (eret False))
      | Op_AddSpOffset \<Rightarrow>
          ebind get_cpu (\<lambda>c.
          ebind (elift (immediate_byte imm)) (\<lambda>b.
            let (v, f) = add_signed_to_sp (cpu_sp c) b
            in ethen (modify_cpu (\<lambda>c. c\<lparr>cpu_sp := v\<rparr>)) (ethen (modify_cpu (set_flags f)) (eret False))))
      | _ \<Rightarrow> ethrow InstructionMetadataInvariant)"

definition execute_rotate :: "digest \<Rightarrow> operation \<Rightarrow> immediate_bytes \<Rightarrow> bool ex" where
  "execute_rotate sha operation imm =
     (case operation of
        Op_RotateAccumulator shift \<Rightarrow>
          ebind get_cpu (\<lambda>c.
          ebind (elift (ok_or InstructionMetadataInvariant
                   (rotate_shift shift (reg_a (cpu_registers c)) (flag_carry (cpu_flags c)) False))) (\<lambda>result.
            ethen (modify_cpu (set_accumulator (br_value result)))
           (ethen (modify_cpu (set_flags (br_flags result))) (eret False))))
      | Op_Cb shift target \<Rightarrow>
          ebind (read_operand sha target imm) (\<lambda>before.
          ebind get_cpu (\<lambda>c.
          ebind (elift (ok_or InstructionMetadataInvariant
                   (rotate_shift shift before (flag_carry (cpu_flags c)) True))) (\<lambda>result.
            ethen (write_operand sha target (br_value result))
           (ethen (modify_cpu (set_flags (br_flags result))) (eret False)))))
      | _ \<Rightarrow> ethrow InstructionMetadataInvariant)"

definition execute_bit :: "digest \<Rightarrow> operation \<Rightarrow> immediate_bytes \<Rightarrow> bool ex" where
  "execute_bit sha operation imm =
     (case operation of
        Op_Cb cb target \<Rightarrow>
          ebind (read_operand sha target imm) (\<lambda>v.
            case cb of
              Cb_TestBit b \<Rightarrow>
                ebind (elift (bit_mask b)) (\<lambda>m.
                  ethen (modify_cpu (\<lambda>c. set_flags
                           (flags_from_bits (v AND m = 0) False True (flag_carry (cpu_flags c))) c))
                        (eret False))
            | Cb_ResetBit b \<Rightarrow>
                ebind (elift (bit_mask b)) (\<lambda>m. ethen (write_operand sha target (v AND NOT m)) (eret False))
            | Cb_SetBit b \<Rightarrow>
                ebind (elift (bit_mask b)) (\<lambda>m. ethen (write_operand sha target (v OR m)) (eret False))
            | _ \<Rightarrow> ethrow InstructionMetadataInvariant)
      | _ \<Rightarrow> ethrow InstructionMetadataInvariant)"

definition execute_jump :: "operation \<Rightarrow> immediate_bytes \<Rightarrow> bool ex" where
  "execute_jump operation imm =
     (case operation of
        Op_RelativeJump condition \<Rightarrow>
          ebind (branch_condition condition) (\<lambda>taken.
            ethen (ewhen taken (ebind (elift (immediate_byte imm)) (\<lambda>offset.
                     modify_cpu (\<lambda>c. c\<lparr>cpu_pc := cpu_pc c + scast offset\<rparr>))))
                  (eret taken))
      | Op_JumpHl \<Rightarrow>
          ebind (register16_ex R16_Hl) (\<lambda>target.
            ethen (modify_cpu (\<lambda>c. c\<lparr>cpu_pc := target\<rparr>)) (eret True))
      | Op_Jump condition \<Rightarrow>
          ebind (branch_condition condition) (\<lambda>taken.
            ethen (ewhen taken (ebind (elift (immediate_word imm)) (\<lambda>target.
                     modify_cpu (\<lambda>c. c\<lparr>cpu_pc := target\<rparr>))))
                  (eret taken))
      | _ \<Rightarrow> ethrow InstructionMetadataInvariant)"

definition execute_call_return :: "digest \<Rightarrow> operation \<Rightarrow> immediate_bytes \<Rightarrow> bool ex" where
  "execute_call_return sha operation imm =
     (case operation of
        Op_Return condition \<Rightarrow>
          ebind (branch_condition condition) (\<lambda>taken.
            ethen (ewhen taken (ebind (pop_word sha) (\<lambda>target. modify_cpu (\<lambda>c. c\<lparr>cpu_pc := target\<rparr>))))
                  (eret taken))
      | Op_ReturnFromInterrupt \<Rightarrow>
          ebind (pop_word sha) (\<lambda>target.
            ethen (modify_cpu (\<lambda>c. c\<lparr>cpu_pc := target\<rparr>))
           (ethen (modify_cpu (\<lambda>c. c\<lparr>cpu_ime := Ime_Enabled\<rparr>)) (eret True)))
      | Op_Call condition \<Rightarrow>
          ebind (branch_condition condition) (\<lambda>taken.
            ethen (ewhen taken
                     (ebind get_cpu (\<lambda>c.
                        ethen (push_word sha (cpu_pc c))
                       (ebind (elift (immediate_word imm)) (\<lambda>target.
                          modify_cpu (\<lambda>c. c\<lparr>cpu_pc := target\<rparr>))))))
                  (eret taken))
      | Op_Restart vector \<Rightarrow>
          ebind get_cpu (\<lambda>c.
            ethen (push_word sha (cpu_pc c))
           (ethen (modify_cpu (\<lambda>c. c\<lparr>cpu_pc := ucast vector\<rparr>)) (eret True)))
      | _ \<Rightarrow> ethrow InstructionMetadataInvariant)"

definition execute_stack :: "digest \<Rightarrow> operation \<Rightarrow> bool ex" where
  "execute_stack sha operation =
     (case operation of
        Op_Pop r \<Rightarrow> ebind (pop_word sha) (\<lambda>v. ethen (set_stack_register r v) (eret False))
      | Op_Push r \<Rightarrow> ebind (stack_register r) (\<lambda>v. ethen (push_word sha v) (eret False))
      | _ \<Rightarrow> ethrow InstructionMetadataInvariant)"

definition execute_interrupt :: "operation \<Rightarrow> bool ex" where
  "execute_interrupt operation =
     (case operation of
        Op_DisableInterrupts \<Rightarrow> ethen (modify_cpu (\<lambda>c. c\<lparr>cpu_ime := Ime_Disabled\<rparr>)) (eret False)
      | Op_EnableInterrupts \<Rightarrow> ethen (modify_cpu (\<lambda>c. c\<lparr>cpu_ime := Ime_EnablePending\<rparr>)) (eret False)
      | _ \<Rightarrow> ethrow InstructionMetadataInvariant)"

definition execute_low_power :: "operation \<Rightarrow> immediate_bytes \<Rightarrow> bool ex" where
  "execute_low_power operation imm =
     (case operation of
        Op_Halt \<Rightarrow> ethen (modify_cpu (\<lambda>c. c\<lparr>cpu_run_state := Halted\<rparr>)) (eret False)
      | Op_Stop \<Rightarrow>
          ebind (elift (immediate_byte imm)) (\<lambda>padding.
            if padding \<noteq> 0 then ethrow (InvalidStopPadding padding)
            else ethen (modify_cpu (\<lambda>c. c\<lparr>cpu_run_state := Stopped\<rparr>)) (eret False))
      | _ \<Rightarrow> ethrow InstructionMetadataInvariant)"

definition execute :: "digest \<Rightarrow> decoded_instruction \<Rightarrow> immediate_bytes \<Rightarrow> bool ex" where
  "execute sha i imm =
     (let operation = di_operation i in
      case di_class i of
        Cls_Control \<Rightarrow> execute_control operation
      | Cls_Load \<Rightarrow> execute_load sha operation imm
      | Cls_Alu8 \<Rightarrow> execute_alu8 sha operation imm
      | Cls_Alu16 \<Rightarrow> execute_alu16 operation imm
      | Cls_RotateShift \<Rightarrow> execute_rotate sha operation imm
      | Cls_Bit \<Rightarrow> execute_bit sha operation imm
      | Cls_Jump \<Rightarrow> execute_jump operation imm
      | Cls_CallReturn \<Rightarrow> execute_call_return sha operation imm
      | Cls_Stack \<Rightarrow> execute_stack sha operation
      | Cls_Interrupt \<Rightarrow> execute_interrupt operation
      | Cls_LowPower \<Rightarrow> execute_low_power operation imm
      | Cls_Prefix \<Rightarrow> ethrow UndispatchedCbPrefix)"

lemmas execute_defs = execute_control_def execute_load_def execute_alu8_def execute_alu16_def
  execute_rotate_def execute_bit_def execute_jump_def execute_call_return_def execute_stack_def
  execute_interrupt_def execute_low_power_def

end
