(* ===== verification/Transition.thy ===== *)
theory Transition
  imports Execute Isa_Decode
begin

text \<open>
  The step relation (\<open>zksm83-core/src/transition.rs\<close>): machine events of the DMG profiles, the
  fetch-decode-execute cycle, timing, and the two authentication modes.
\<close>

section \<open>Machine events\<close>

datatype dmg_machine_event =
    ME_Interrupt dmg_interrupt
  | ME_HaltWake
  | ME_HaltUntilVBlank u16
  | ME_HaltUntilSerial u16
  | ME_HaltUntilTimer u32
  | ME_HaltIdle

definition classify_halted :: "dmg_device_state \<Rightarrow> dmg_machine_event" where
  "classify_halted devices =
     (case halt_until_vblank_m_cycles devices of
        Some cycles \<Rightarrow> ME_HaltUntilVBlank cycles
      | None \<Rightarrow>
          (case halt_until_serial_m_cycles devices of
             Some cycles \<Rightarrow> ME_HaltUntilSerial cycles
           | None \<Rightarrow>
               (case halt_until_timer_m_cycles devices of
                  Some cycles \<Rightarrow> ME_HaltUntilTimer cycles
                | None \<Rightarrow> ME_HaltIdle)))"

definition classify_dmg_machine_event :: "vm_state \<Rightarrow> step_error + dmg_machine_event option" where
  "classify_dmg_machine_event s =
     (let pending = pending_interrupt (vm_dmg_devices s) in
      case cpu_run_state (vm_cpu s) of
        Stopped \<Rightarrow> Inl (CpuNotRunning Stopped)
      | Halted \<Rightarrow>
          (case pending of
             Some interrupt \<Rightarrow>
               if cpu_ime (vm_cpu s) = Ime_Enabled then Inr (Some (ME_Interrupt interrupt))
               else Inr (Some ME_HaltWake)
           | None \<Rightarrow> Inr (Some (classify_halted (vm_dmg_devices s))))
      | _ \<Rightarrow>
          if cpu_ime (vm_cpu s) = Ime_Enabled then Inr (map_option ME_Interrupt pending) else Inr None)"

definition machine_event_marker :: "u8 \<Rightarrow> step_error + decoded_instruction" where
  "machine_event_marker opcode =
     (case decode_primary opcode of
        Defined i \<Rightarrow> Inr i
      | Undefined _ \<Rightarrow> Inl MachineEventMarkerInvariant)"

text \<open>Add a number of M-cycles to the checked counter.\<close>

definition add_m_cycles :: "u64 \<Rightarrow> unit ex" where
  "add_m_cycles cycles =
     ebind get_cpu (\<lambda>c.
     ebind (elift (ok_or CycleCountOverflow (checked_add (cpu_m_cycles c) cycles))) (\<lambda>next.
       modify_cpu (\<lambda>c. c\<lparr>cpu_m_cycles := next\<rparr>)))"

definition add_machine_timing :: "u8 \<Rightarrow> unit ex" where
  "add_machine_timing cycles =
     ebind (egets (\<lambda>x. dma_active (vm_dmg_devices (ex_state x)))) (\<lambda>dma_active_at_start.
       ethen (add_m_cycles (ucast cycles))
      (ethen (emodify (update_devices (advance_m_cycles cycles)))
             (emodify (update_devices (schedule_dma_bytes cycles dma_active_at_start)))))"

definition push_interrupt_return :: "digest \<Rightarrow> u16 \<Rightarrow> unit ex" where
  "push_interrupt_return sha v =
     ebind get_cpu (\<lambda>c.
       let high_address = cpu_sp c - 1; low_address = high_address - 1
       in ethen (write_data sha high_address (u16_high v))
         (ethen (modify_cpu (\<lambda>c. c\<lparr>cpu_sp := high_address\<rparr>))
         (ethen (write_data sha low_address (u16_low v))
                (modify_cpu (\<lambda>c. c\<lparr>cpu_sp := low_address\<rparr>)))))"

text \<open>Run an executor program and finish the step on the executor it leaves.\<close>

definition run_machine ::
  "digest \<Rightarrow> unit ex \<Rightarrow> step_kind \<Rightarrow> u8 \<Rightarrow> executor \<Rightarrow> step_error + (vm_state \<times> step_effects)" where
  "run_machine sha m kind marker x =
     and_then (m x) (\<lambda>(_, x').
     and_then (machine_event_marker marker) (\<lambda>i. finish_machine sha kind i x'))"

text \<open>\<open>dispatch_interrupt\<close>: the entry sequence, then five M-cycles.\<close>

definition interrupt_entry :: "digest \<Rightarrow> dmg_interrupt \<Rightarrow> unit ex" where
  "interrupt_entry sha interrupt =
     ethen (modify_cpu (\<lambda>c. c\<lparr>cpu_run_state := Running\<rparr>))
    (ethen (modify_cpu (\<lambda>c. c\<lparr>cpu_ime := Ime_Disabled\<rparr>))
    (ethen (emodify (update_devices (acknowledge_interrupt interrupt)))
    (ebind get_cpu (\<lambda>c.
     ethen (push_interrupt_return sha (cpu_pc c))
           (modify_cpu (\<lambda>c. c\<lparr>cpu_pc := interrupt_vector interrupt\<rparr>))))))"

definition interrupt_program :: "digest \<Rightarrow> dmg_interrupt \<Rightarrow> unit ex" where
  "interrupt_program sha interrupt = ethen (interrupt_entry sha interrupt) (add_machine_timing 5)"

definition dispatch_interrupt ::
  "digest \<Rightarrow> vm_state \<Rightarrow> step_input \<Rightarrow> dmg_interrupt \<Rightarrow> bus_authentication \<Rightarrow>
     step_error + (vm_state \<times> step_effects)" where
  "dispatch_interrupt sha s input interrupt authentication =
     run_machine sha (interrupt_program sha interrupt) (SK_InterruptDispatch interrupt) 0xff
       (executor_new s input authentication)"

definition halt_wake ::
  "digest \<Rightarrow> vm_state \<Rightarrow> step_input \<Rightarrow> bus_authentication \<Rightarrow> step_error + (vm_state \<times> step_effects)" where
  "halt_wake sha s input authentication =
     run_machine sha (modify_cpu (\<lambda>c. c\<lparr>cpu_run_state := Running\<rparr>)) SK_HaltWake 0x76
       (executor_new s input authentication)"

definition halt_until_vblank ::
  "digest \<Rightarrow> vm_state \<Rightarrow> step_input \<Rightarrow> u16 \<Rightarrow> bus_authentication \<Rightarrow> step_error + (vm_state \<times> step_effects)" where
  "halt_until_vblank sha s input cycles authentication =
     run_machine sha
       (ethen (add_m_cycles (ucast cycles)) (emodify (update_devices (advance_halt_until_vblank cycles))))
       SK_HaltUntilVBlank 0x76 (executor_new s input authentication)"

definition halt_until_serial ::
  "digest \<Rightarrow> vm_state \<Rightarrow> step_input \<Rightarrow> u16 \<Rightarrow> bus_authentication \<Rightarrow> step_error + (vm_state \<times> step_effects)" where
  "halt_until_serial sha s input cycles authentication =
     run_machine sha
       (ethen (add_m_cycles (ucast cycles)) (emodify (update_devices (advance_halt_until_serial cycles))))
       SK_HaltUntilSerial 0x76 (executor_new s input authentication)"

definition halt_until_timer ::
  "digest \<Rightarrow> vm_state \<Rightarrow> step_input \<Rightarrow> u32 \<Rightarrow> bus_authentication \<Rightarrow> step_error + (vm_state \<times> step_effects)" where
  "halt_until_timer sha s input cycles authentication =
     run_machine sha
       (ethen (add_m_cycles (ucast cycles)) (emodify (update_devices (advance_halt_until_timer cycles))))
       SK_HaltUntilTimer 0x76 (executor_new s input authentication)"

definition halt_idle ::
  "digest \<Rightarrow> vm_state \<Rightarrow> step_input \<Rightarrow> bus_authentication \<Rightarrow> step_error + (vm_state \<times> step_effects)" where
  "halt_idle sha s input authentication =
     run_machine sha (add_machine_timing (halt_idle_m_cycles (vm_dmg_devices s))) SK_HaltIdle 0x76
       (executor_new s input authentication)"

definition dma_byte ::
  "digest \<Rightarrow> vm_state \<Rightarrow> step_input \<Rightarrow> bus_authentication \<Rightarrow> step_error + (vm_state \<times> step_effects)" where
  "dma_byte sha s input authentication =
     run_machine sha (copy_dma_byte sha) SK_DmaByte 0x00 (executor_new s input authentication)"

section \<open>Fetching\<close>

definition fetch_and_advance :: "digest \<Rightarrow> bus_role \<Rightarrow> u8 ex" where
  "fetch_and_advance sha role =
     ebind get_cpu (\<lambda>c.
     ebind (fetch_instruction sha (cpu_pc c) role) (\<lambda>v.
       ethen (modify_cpu (\<lambda>c'. c'\<lparr>cpu_pc := cpu_pc c + 1\<rparr>)) (eret v)))"

definition fetch_first_opcode :: "digest \<Rightarrow> bool \<Rightarrow> u8 ex" where
  "fetch_first_opcode sha halt_bug =
     ebind get_cpu (\<lambda>c.
     ebind (fetch_instruction sha (cpu_pc c) Role_OpcodeFetch) (\<lambda>v.
       ethen (if halt_bug then modify_cpu (\<lambda>c'. c'\<lparr>cpu_run_state := Running\<rparr>)
              else modify_cpu (\<lambda>c'. c'\<lparr>cpu_pc := cpu_pc c + 1\<rparr>))
             (eret v)))"

text \<open>\<open>for _ in 0..instruction_len.saturating_sub(1)\<close>.\<close>

primrec fetch_immediate_loop :: "digest \<Rightarrow> nat \<Rightarrow> immediate_bytes \<Rightarrow> immediate_bytes ex" where
  "fetch_immediate_loop sha 0 imm = eret imm"
| "fetch_immediate_loop sha (Suc n) imm =
     ebind (fetch_and_advance sha Role_ImmediateRead) (\<lambda>v.
     ebind (elift (immediate_push v imm)) (\<lambda>imm'. fetch_immediate_loop sha n imm'))"

definition fetch_immediates :: "digest \<Rightarrow> u8 \<Rightarrow> immediate_bytes ex" where
  "fetch_immediates sha instruction_len =
     fetch_immediate_loop sha (unat (saturating_sub instruction_len 1)) immediate_default"

definition apply_delayed_ime :: "operation \<Rightarrow> bool \<Rightarrow> unit ex" where
  "apply_delayed_ime operation enable_after_step =
     ewhen (enable_after_step \<and> operation \<noteq> Op_DisableInterrupts)
       (modify_cpu (\<lambda>c. c\<lparr>cpu_ime := Ime_Enabled\<rparr>))"

definition step_increment :: "decoded_instruction \<Rightarrow> bool \<Rightarrow> u8" where
  "step_increment i branch_taken =
     (if branch_taken then
        (case taken_m_cycles (di_timing i) of None \<Rightarrow> base_m_cycles (di_timing i) | Some n \<Rightarrow> n)
      else base_m_cycles (di_timing i))"

definition add_timing :: "decoded_instruction \<Rightarrow> bool \<Rightarrow> bool \<Rightarrow> unit ex" where
  "add_timing i branch_taken dma_active_at_start =
     (let cycles = step_increment i branch_taken
      in ethen (add_m_cycles (ucast cycles))
        (ethen (emodify (update_devices (advance_m_cycles cycles)))
               (emodify (update_devices (schedule_dma_bytes cycles dma_active_at_start)))))"

section \<open>The step\<close>

definition decode_fetched :: "digest \<Rightarrow> u8 \<Rightarrow> (decoded_instruction \<times> immediate_bytes) ex" where
  "decode_fetched sha opcode =
     (if opcode = 0xcb then
        ebind (fetch_and_advance sha Role_OpcodeFetch) (\<lambda>secondary.
          eret (decode_cb secondary, immediate_default))
      else
        (case decode_primary opcode of
           Undefined b \<Rightarrow> ethrow (UndefinedOpcode b)
         | Defined i \<Rightarrow>
             ebind (fetch_immediates sha (di_byte_len i)) (\<lambda>imm. eret (i, imm))))"

text \<open>The body of \<open>apply\<close> up to the delayed IME, then the timing and the HALT bug.\<close>

definition step_execute :: "digest \<Rightarrow> vm_state \<Rightarrow> (decoded_instruction \<times> bool) ex" where
  "step_execute sha s =
     ebind (fetch_first_opcode sha (cpu_run_state (vm_cpu s) = HaltBug)) (\<lambda>opcode.
     ebind (decode_fetched sha opcode) (\<lambda>(i, imm).
     ebind (execute sha i imm) (\<lambda>branch_taken.
     ethen (apply_delayed_ime (di_operation i) (cpu_ime (vm_cpu s) = Ime_EnablePending))
           (eret (i, branch_taken)))))"

definition step_program :: "digest \<Rightarrow> vm_state \<Rightarrow> (decoded_instruction \<times> bool) ex" where
  "step_program sha s =
     ebind (step_execute sha s) (\<lambda>(i, branch_taken).
     ethen (add_timing i branch_taken (dma_active (vm_dmg_devices s)))
    (ethen (ewhen (di_operation i = Op_Halt \<and> cpu_ime (vm_cpu s) \<noteq> Ime_Enabled
                   \<and> pending_interrupt (vm_dmg_devices s) \<noteq> None)
              (modify_cpu (\<lambda>c. c\<lparr>cpu_run_state := HaltBug\<rparr>)))
           (eret (i, branch_taken))))"

definition apply_instruction ::
  "digest \<Rightarrow> vm_state \<Rightarrow> step_input \<Rightarrow> bus_authentication \<Rightarrow> step_error + (vm_state \<times> step_effects)" where
  "apply_instruction sha s input authentication =
     (if \<not> can_execute_instruction (cpu_run_state (vm_cpu s))
      then Inl (CpuNotRunning (cpu_run_state (vm_cpu s)))
      else
        and_then (step_program sha s (executor_new s input authentication)) (\<lambda>((i, branch_taken), x).
          finish sha i branch_taken x))"

definition apply_step ::
  "digest \<Rightarrow> vm_state \<Rightarrow> step_input \<Rightarrow> bus_authentication \<Rightarrow> step_error + (vm_state \<times> step_effects)" where
  "apply_step sha s input authentication =
     (if is_dmg_post_boot_mbc3 (vm_profile s) then
        if dma_owed (vm_dmg_devices s) \<noteq> 0 then dma_byte sha s input authentication
        else
          and_then (classify_dmg_machine_event s) (\<lambda>event.
            case event of
              Some (ME_Interrupt interrupt) \<Rightarrow> dispatch_interrupt sha s input interrupt authentication
            | Some ME_HaltWake \<Rightarrow> halt_wake sha s input authentication
            | Some (ME_HaltUntilVBlank n) \<Rightarrow> halt_until_vblank sha s input n authentication
            | Some (ME_HaltUntilSerial n) \<Rightarrow> halt_until_serial sha s input n authentication
            | Some (ME_HaltUntilTimer n) \<Rightarrow> halt_until_timer sha s input n authentication
            | Some ME_HaltIdle \<Rightarrow> halt_idle sha s input authentication
            | None \<Rightarrow> apply_instruction sha s input authentication)
      else apply_instruction sha s input authentication)"

definition step_relation_apply :: "digest \<Rightarrow> vm_state \<Rightarrow> step_input \<Rightarrow> step_error + (vm_state \<times> step_effects)" where
  "step_relation_apply sha s input = apply_step sha s input Auth_Merkle"

definition lookup_step_apply :: "digest \<Rightarrow> vm_state \<Rightarrow> step_input \<Rightarrow> step_error + (vm_state \<times> step_effects)" where
  "lookup_step_apply sha s input = apply_step sha s input Auth_Lookup"

end
