(* ===== verification/Bus_Steps.thy ===== *)
theory Bus_Steps
  imports Bus
begin

text \<open>
  The bus as a labelled transition system: \<open>bus_step\<close> relates VM states by the bus event that
  happens, with the checks the event passed and the state change it makes.  The executor's
  accesses refine it: an accepted access consumes exactly the witness of its event, records that
  event and makes that step, and a rejected access never reports an internal invariant.
\<close>

section \<open>Events\<close>

fun event_witness :: "bus_event \<Rightarrow> bus_witness list" where
  "event_witness (Ev_OpcodeFetch r) = [Wit_Rom r]"
| "event_witness (Ev_ImmediateRead r) = [Wit_Rom r]"
| "event_witness (Ev_RomRead r) = [Wit_Rom r]"
| "event_witness (Ev_DmgDmaRomRead r) = [Wit_Rom r]"
| "event_witness (Ev_MemoryOpcodeFetch r) = [Wit_MemoryRead r]"
| "event_witness (Ev_MemoryImmediateRead r) = [Wit_MemoryRead r]"
| "event_witness (Ev_MemoryRead r) = [Wit_MemoryRead r]"
| "event_witness (Ev_DmgDmaMemoryRead r) = [Wit_MemoryRead r]"
| "event_witness (Ev_MemoryWrite w) = [Wit_MemoryWrite w]"
| "event_witness (Ev_DmgDmaWrite w) = [Wit_MemoryWrite w]"
| "event_witness (Ev_InputRead i v) = [Wit_InputByte v]"
| "event_witness (Ev_DmgJoypadRead i bb b v) = [Wit_InputByte b]"
| "event_witness _ = []"

fun is_opcode_fetch :: "bus_event \<Rightarrow> bool" where
  "is_opcode_fetch (Ev_OpcodeFetch _) = True"
| "is_opcode_fetch (Ev_MemoryOpcodeFetch _) = True"
| "is_opcode_fetch _ = False"

fun is_immediate_read :: "bus_event \<Rightarrow> bool" where
  "is_immediate_read (Ev_ImmediateRead _) = True"
| "is_immediate_read (Ev_MemoryImmediateRead _) = True"
| "is_immediate_read _ = False"

fun is_data_read :: "bus_event \<Rightarrow> bool" where
  "is_data_read (Ev_RomRead _) = True"
| "is_data_read (Ev_MemoryRead _) = True"
| "is_data_read (Ev_Mbc3OpenBusRead _ _) = True"
| "is_data_read (Ev_InputRead _ _) = True"
| "is_data_read (Ev_DmgMmioRead _ _) = True"
| "is_data_read (Ev_DmgJoypadRead _ _ _ _) = True"
| "is_data_read _ = False"

fun is_data_write :: "bus_event \<Rightarrow> bool" where
  "is_data_write (Ev_MemoryWrite _) = True"
| "is_data_write (Ev_Mbc3ControlWrite _ _) = True"
| "is_data_write (Ev_Mbc3IgnoredWrite _ _) = True"
| "is_data_write (Ev_OutputWrite _ _) = True"
| "is_data_write (Ev_DmgMmioWrite _ _ _) = True"
| "is_data_write _ = False"

definition event_address :: "bus_event \<Rightarrow> u16" where
  "event_address e = ev_address (transcript_event e)"

definition event_value :: "bus_event \<Rightarrow> u8" where
  "event_value e = ev_value (transcript_event e)"

lemma event_fields [simp]:
  "event_address (Ev_OpcodeFetch r) = rr_address r" "event_value (Ev_OpcodeFetch r) = rr_value r"
  "event_address (Ev_ImmediateRead r) = rr_address r" "event_value (Ev_ImmediateRead r) = rr_value r"
  "event_address (Ev_RomRead r) = rr_address r" "event_value (Ev_RomRead r) = rr_value r"
  "event_address (Ev_DmgDmaRomRead r) = rr_address r" "event_value (Ev_DmgDmaRomRead r) = rr_value r"
  "event_address (Ev_MemoryOpcodeFetch m) = mr_address m" "event_value (Ev_MemoryOpcodeFetch m) = mr_value m"
  "event_address (Ev_MemoryImmediateRead m) = mr_address m" "event_value (Ev_MemoryImmediateRead m) = mr_value m"
  "event_address (Ev_MemoryRead m) = mr_address m" "event_value (Ev_MemoryRead m) = mr_value m"
  "event_address (Ev_DmgDmaMemoryRead m) = mr_address m" "event_value (Ev_DmgDmaMemoryRead m) = mr_value m"
  "event_address (Ev_MemoryWrite w) = mw_address w" "event_value (Ev_MemoryWrite w) = mw_after w"
  "event_address (Ev_DmgDmaWrite w) = mw_address w" "event_value (Ev_DmgDmaWrite w) = mw_after w"
  "event_address (Ev_Mbc3ControlWrite a v) = a" "event_value (Ev_Mbc3ControlWrite a v) = v"
  "event_address (Ev_Mbc3OpenBusRead a v) = a" "event_value (Ev_Mbc3OpenBusRead a v) = v"
  "event_address (Ev_Mbc3IgnoredWrite a v) = a" "event_value (Ev_Mbc3IgnoredWrite a v) = v"
  "event_address (Ev_InputRead i v) = INPUT_PORT" "event_value (Ev_InputRead i v) = v"
  "event_address (Ev_OutputWrite i v) = OUTPUT_PORT" "event_value (Ev_OutputWrite i v) = v"
  "event_address (Ev_DmgMmioRead a v) = a" "event_value (Ev_DmgMmioRead a v) = v"
  "event_address (Ev_DmgMmioWrite a b v) = a" "event_value (Ev_DmgMmioWrite a b v) = v"
  "event_address (Ev_DmgJoypadRead i bb b v) = 0xff00" "event_value (Ev_DmgJoypadRead i bb b v) = v"
  by (simp_all add: event_address_def event_value_def transcript_event_def blank_event_def rom_event_def
      memory_read_event_def memory_write_event_def device_event_def Let_def)

section \<open>The bus transition system\<close>

text \<open>The physical byte behind a data access: the mapper's window for cartridge RAM, otherwise
  the CPU address itself.\<close>

definition data_physical :: "vm_state \<Rightarrow> u16 \<Rightarrow> u32 \<Rightarrow> bool" where
  "data_physical s a p \<longleftrightarrow>
     (if 0xa000 \<le> a \<and> a \<le> 0xbfff
      then external_window_for (vm_mbc3 s) (cartridge_profile (vm_profile s)) a = Win_Ram p
      else p = ucast a)"

inductive bus_step :: "digest \<Rightarrow> bus_authentication \<Rightarrow> vm_state \<Rightarrow> bus_event \<Rightarrow> vm_state \<Rightarrow> bool"
  for sha :: digest and auth :: bus_authentication where
  rom: "e \<in> {Ev_OpcodeFetch r, Ev_ImmediateRead r, Ev_RomRead r, Ev_DmgDmaRomRead r} \<Longrightarrow>
    rr_physical_address r = map_rom_for (vm_mbc3 s) (cartridge_profile (vm_profile s)) (rr_address r) \<Longrightarrow>
    rr_address r \<le> 0x7fff \<Longrightarrow>
    auth = Auth_Merkle \<longrightarrow> rom_read_check sha r (vm_rom_root s) = Inr () \<Longrightarrow> bus_step sha auth s e s"
| code: "e \<in> {Ev_MemoryOpcodeFetch m, Ev_MemoryImmediateRead m} \<Longrightarrow>
    mr_physical_address m = ucast (mr_address m) \<Longrightarrow>
    auth = Auth_Merkle \<longrightarrow> memory_read_check sha m (vm_memory_root s) = Inr () \<Longrightarrow> bus_step sha auth s e s"
| data: "e \<in> {Ev_MemoryRead m, Ev_DmgDmaMemoryRead m} \<Longrightarrow>
    data_physical s (mr_address m) (mr_physical_address m) \<Longrightarrow>
    auth = Auth_Merkle \<longrightarrow> memory_read_check sha m (vm_memory_root s) = Inr () \<Longrightarrow> bus_step sha auth s e s"
| store_merkle: "e \<in> {Ev_MemoryWrite w, Ev_DmgDmaWrite w} \<Longrightarrow>
    data_physical s (mw_address w) (mw_physical_address w) \<Longrightarrow>
    auth = Auth_Merkle \<Longrightarrow> memory_write_check sha w (vm_memory_root s) = Inr root \<Longrightarrow>
    bus_step sha auth s e (s\<lparr>vm_memory_root := root\<rparr>)"
| store_lookup: "e \<in> {Ev_MemoryWrite w, Ev_DmgDmaWrite w} \<Longrightarrow>
    data_physical s (mw_address w) (mw_physical_address w) \<Longrightarrow>
    auth = Auth_Lookup \<Longrightarrow> bus_step sha auth s e s"
| control: "a \<le> 0x7fff \<Longrightarrow> bus_step sha auth s (Ev_Mbc3ControlWrite a v)
    (s\<lparr>vm_mbc3 := apply_control_write_for (cartridge_profile (vm_profile s)) a v (vm_mbc3 s)\<rparr>)"
| open_bus: "bus_step sha auth s (Ev_Mbc3OpenBusRead a 0xff) s"
| ignored: "bus_step sha auth s (Ev_Mbc3IgnoredWrite a v) s"
| input_read: "log_append sha (vm_input_log s) v = Inr l \<Longrightarrow> i = log_next_index (vm_input_log s) \<Longrightarrow>
    bus_step sha auth s (Ev_InputRead i v) (s\<lparr>vm_input_log := l\<rparr>)"
| joypad: "log_append sha (vm_input_log s) b = Inr l \<Longrightarrow> i = log_next_index (vm_input_log s) \<Longrightarrow>
    sample_joypad b (vm_dmg_devices s) = (v, d) \<Longrightarrow> bb = joypad_buttons (vm_dmg_devices s) \<Longrightarrow>
    bus_step sha auth s (Ev_DmgJoypadRead i bb b v) (s\<lparr>vm_dmg_devices := d, vm_input_log := l\<rparr>)"
| output_write: "log_append sha (vm_output_log s) v = Inr l \<Longrightarrow> i = log_next_index (vm_output_log s) \<Longrightarrow>
    bus_step sha auth s (Ev_OutputWrite i v) (s\<lparr>vm_output_log := l\<rparr>)"
| mmio_read: "read_mmio (vm_dmg_devices s) a = Some v \<Longrightarrow> bus_step sha auth s (Ev_DmgMmioRead a v) s"
| mmio_write: "write_mmio a v (vm_dmg_devices s) = Some (b, d) \<Longrightarrow>
    bus_step sha auth s (Ev_DmgMmioWrite a b v) (s\<lparr>vm_dmg_devices := d\<rparr>)"

definition exec_step :: "digest \<Rightarrow> executor \<Rightarrow> bus_event \<Rightarrow> executor \<Rightarrow> bool" where
  "exec_step sha x e x' \<longleftrightarrow>
     ex_authentication x' = ex_authentication x \<and>
     ex_witnesses x = event_witness e @ ex_witnesses x' \<and>
     ex_events x' = ex_events x @ [e] \<and>
     bus_step sha (ex_authentication x) (ex_state x) e (ex_state x')"

section \<open>Taking witnesses\<close>

lemma next_witness_Inr: "next_witness q x = Inr (w, x') \<longleftrightarrow>
    (\<exists>ws. ex_witnesses x = w # ws \<and> x' = x\<lparr>ex_witnesses := ws\<rparr> \<and> bus_witness_kind w = witness_request_kind q)"
  by (auto simp: next_witness_def Let_def split: list.splits if_splits)

lemma next_witness_Inl: "next_witness q x = Inl e \<Longrightarrow> \<not> internal_error e"
  by (auto simp: next_witness_def Let_def split: list.splits if_splits)

lemma require_Inr [simp]:
  "require_address a b role = Inr u \<longleftrightarrow> b = a" "require_physical_address p q role = Inr u \<longleftrightarrow> q = p"
  by (auto simp: require_address_def require_physical_address_def)

lemma require_Inl:
  "require_address a b role = Inl e \<Longrightarrow> \<not> internal_error e"
  "require_physical_address p q role = Inl e \<Longrightarrow> \<not> internal_error e"
  by (auto simp: require_address_def require_physical_address_def split: if_splits)

lemma take_rom_read_Inr: "take_rom_read sha a p role x = Inr (r, x') \<longleftrightarrow>
    (\<exists>ws. ex_witnesses x = Wit_Rom r # ws \<and> x' = x\<lparr>ex_witnesses := ws\<rparr> \<and> rr_address r = a \<and>
      rr_physical_address r = p \<and>
      (ex_authentication x = Auth_Merkle \<longrightarrow> rom_read_check sha r (vm_rom_root (ex_state x)) = Inr ()))"
proof (cases "ex_witnesses x")
  case Nil
  then show ?thesis by (auto simp: take_rom_read_def exec_Inr next_witness_Inr)
next
  case (Cons w' ws)
  then show ?thesis
    by (cases w')
       (auto simp: take_rom_read_def next_witness_def ebind_def ethen_def ewhen_def elift_def egets_def eret_def
         require_address_def require_physical_address_def map_err_def split: sum.splits if_splits)
qed

lemma take_memory_read_Inr: "take_memory_read sha a p role x = Inr (r, x') \<longleftrightarrow>
    (\<exists>ws. ex_witnesses x = Wit_MemoryRead r # ws \<and> x' = x\<lparr>ex_witnesses := ws\<rparr> \<and> mr_address r = a \<and>
      mr_physical_address r = p \<and>
      (ex_authentication x = Auth_Merkle \<longrightarrow> memory_read_check sha r (vm_memory_root (ex_state x)) = Inr ()))"
proof (cases "ex_witnesses x")
  case Nil
  then show ?thesis by (auto simp: take_memory_read_def exec_Inr next_witness_Inr)
next
  case (Cons w' ws)
  then show ?thesis
    by (cases w')
       (auto simp: take_memory_read_def next_witness_def ebind_def ethen_def ewhen_def elift_def egets_def eret_def
         require_address_def require_physical_address_def map_err_def split: sum.splits if_splits)
qed

lemma take_memory_write_Inr: "take_memory_write a p v x = Inr (w, x') \<longleftrightarrow>
    (\<exists>ws. ex_witnesses x = Wit_MemoryWrite w # ws \<and> x' = x\<lparr>ex_witnesses := ws\<rparr> \<and> mw_address w = a \<and>
      mw_physical_address w = p \<and> mw_after w = v)"
proof (cases "ex_witnesses x")
  case Nil
  then show ?thesis by (auto simp: take_memory_write_def exec_Inr next_witness_Inr)
next
  case (Cons w' ws)
  then show ?thesis
    by (cases w')
       (auto simp: take_memory_write_def next_witness_def ebind_def ethen_def ewhen_def elift_def egets_def eret_def
         require_address_def require_physical_address_def map_err_def split: sum.splits if_splits)
qed

lemma commit_write_Inr: "commit_write sha w x = Inr (u, x') \<longleftrightarrow>
    (if ex_authentication x = Auth_Merkle
     then \<exists>root. memory_write_check sha w (vm_memory_root (ex_state x)) = Inr root \<and>
       x' = x\<lparr>ex_state := (ex_state x)\<lparr>vm_memory_root := root\<rparr>\<rparr>
     else x' = x)"
  by (auto simp: commit_write_def exec_Inr update_state_def)

text \<open>Rejected accesses fail for an external reason.\<close>

lemma take_Inl:
  "take_rom_read sha a p role x = Inl e \<Longrightarrow> \<not> internal_error e"
  "take_memory_read sha a p role x = Inl e \<Longrightarrow> \<not> internal_error e"
  "take_memory_write a p v x = Inl e \<Longrightarrow> \<not> internal_error e"
  "commit_write sha w x = Inl e \<Longrightarrow> \<not> internal_error e"
  by (cases "ex_witnesses x"; (cases "hd (ex_witnesses x)")?;
      auto simp: take_rom_read_def take_memory_read_def take_memory_write_def commit_write_def
        next_witness_def exec_defs require_address_def require_physical_address_def map_err_def
        split: sum.splits if_splits)+

section \<open>Accesses refine the transition system\<close>

text \<open>An accepted access is one step whose event satisfies \<open>P\<close>; a rejected one is external.\<close>

definition performs :: "digest \<Rightarrow> ('a \<Rightarrow> bus_event \<Rightarrow> bool) \<Rightarrow> 'a ex \<Rightarrow> executor \<Rightarrow> bool" where
  "performs sha P m x \<longleftrightarrow>
     (case m x of
        Inl e \<Rightarrow> \<not> internal_error e
      | Inr (v, x') \<Rightarrow> (\<exists>e. exec_step sha x e x' \<and> P v e))"

lemma performsI:
  "(\<And>e. m x = Inl e \<Longrightarrow> \<not> internal_error e) \<Longrightarrow>
   (\<And>v x'. m x = Inr (v, x') \<Longrightarrow> \<exists>e. exec_step sha x e x' \<and> P v e) \<Longrightarrow> performs sha P m x"
  by (auto simp: performs_def split: sum.split)

lemma fetch_performs:
  assumes "role \<noteq> Role_DataWrite" "a \<le> 0x7fff"
  shows "performs sha (\<lambda>v e. event_address e = a \<and> event_value e = v \<and>
    is_opcode_fetch e = (role = Role_OpcodeFetch) \<and> is_immediate_read e = (role = Role_ImmediateRead) \<and>
    is_data_read e = (role = Role_DataRead) \<and> \<not> is_data_write e) (fetch sha a role) x"
proof (rule performsI)
  fix e assume "fetch sha a role x = Inl e"
  then show "\<not> internal_error e"
    using assms by (cases role) (auto simp: fetch_def push_event_def exec_defs split: sum.splits dest: take_Inl)
next
  fix v x' assume "fetch sha a role x = Inr (v, x')"
  then show "\<exists>e. exec_step sha x e x' \<and> event_address e = a \<and> event_value e = v \<and>
      is_opcode_fetch e = (role = Role_OpcodeFetch) \<and> is_immediate_read e = (role = Role_ImmediateRead) \<and>
      is_data_read e = (role = Role_DataRead) \<and> \<not> is_data_write e"
    using assms
    by (cases role)
       (auto simp: fetch_def push_event_def exec_Inr take_rom_read_Inr exec_step_def intro!: bus_step.rom)
qed

lemma read_memory_performs:
  "data_physical (ex_state x) a p \<Longrightarrow>
     performs sha (\<lambda>v e. event_address e = a \<and> event_value e = v \<and> is_data_read e) (read_memory sha a p) x"
  by (rule performsI)
     (auto simp: read_memory_def push_event_def exec_defs take_memory_read_Inr exec_step_def
       split: sum.splits dest: take_Inl intro!: bus_step.data exI [of _ "Ev_MemoryRead r" for r])

lemma read_instruction_memory_performs:
  assumes "role = Role_OpcodeFetch \<or> role = Role_ImmediateRead"
  shows "performs sha (\<lambda>v e. event_address e = a \<and> event_value e = v \<and>
    is_opcode_fetch e = (role = Role_OpcodeFetch) \<and> is_immediate_read e = (role = Role_ImmediateRead) \<and>
    \<not> is_data_read e \<and> \<not> is_data_write e) (read_instruction_memory sha a role) x"
proof (rule performsI)
  fix e assume "read_instruction_memory sha a role x = Inl e"
  then show "\<not> internal_error e"
    using assms
    by (auto simp: read_instruction_memory_def push_event_def exec_defs split: sum.splits dest: take_Inl)
next
  fix v x' assume "read_instruction_memory sha a role x = Inr (v, x')"
  then show "\<exists>e. exec_step sha x e x' \<and> event_address e = a \<and> event_value e = v \<and>
      is_opcode_fetch e = (role = Role_OpcodeFetch) \<and> is_immediate_read e = (role = Role_ImmediateRead) \<and>
      \<not> is_data_read e \<and> \<not> is_data_write e"
    using assms
    by (auto simp: read_instruction_memory_def push_event_def exec_Inr take_memory_read_Inr exec_step_def
        intro!: bus_step.code)
qed

lemma write_memory_performs:
  assumes "data_physical (ex_state x) a p"
  shows "performs sha (\<lambda>_ e. event_address e = a \<and> event_value e = v \<and> is_data_write e) (write_memory sha a p v) x"
proof (rule performsI)
  fix e assume "write_memory sha a p v x = Inl e"
  then show "\<not> internal_error e"
    by (auto simp: write_memory_def push_event_def exec_defs split: sum.splits dest: take_Inl)
next
  fix u x' assume "write_memory sha a p v x = Inr (u, x')"
  then show "\<exists>e. exec_step sha x e x' \<and> event_address e = a \<and> event_value e = v \<and> is_data_write e"
    using assms
    by (cases "ex_authentication x")
       (auto simp: write_memory_def push_event_def exec_Inr take_memory_write_Inr commit_write_Inr
         exec_step_def intro!: bus_step.store_merkle bus_step.store_lookup exI [of _ "Ev_MemoryWrite w" for w])
qed

lemma read_input_performs:
  "performs sha (\<lambda>v e. event_address e = INPUT_PORT \<and> event_value e = v \<and> is_data_read e) (read_input sha) x"
proof (rule performsI)
  fix e assume "read_input sha x = Inl e"
  then show "\<not> internal_error e"
    by (cases "ex_witnesses x"; (cases "hd (ex_witnesses x)")?)
       (auto simp: read_input_def push_event_def next_witness_def exec_defs map_err_def split: sum.splits)
next
  fix v x' assume "read_input sha x = Inr (v, x')"
  then show "\<exists>e. exec_step sha x e x' \<and> event_address e = INPUT_PORT \<and> event_value e = v \<and> is_data_read e"
    by (cases "ex_witnesses x"; (cases "hd (ex_witnesses x)")?)
       (auto simp: read_input_def push_event_def exec_Inr next_witness_Inr update_state_def exec_step_def
         intro!: bus_step.input_read exI [of _ "Ev_InputRead i v" for i] split: bus_witness.splits)
qed

lemma read_joypad_performs:
  "performs sha (\<lambda>v e. event_address e = 0xff00 \<and> event_value e = v \<and> is_data_read e) (read_dmg_joypad sha) x"
proof (rule performsI)
  fix e assume "read_dmg_joypad sha x = Inl e"
  then show "\<not> internal_error e"
    by (cases "ex_witnesses x"; (cases "hd (ex_witnesses x)")?)
       (auto simp: read_dmg_joypad_def push_event_def next_witness_def exec_defs map_err_def Let_def
         case_prod_unfold split: sum.splits)
next
  fix v x' assume "read_dmg_joypad sha x = Inr (v, x')"
  then show "\<exists>e. exec_step sha x e x' \<and> event_address e = 0xff00 \<and> event_value e = v \<and> is_data_read e"
    by (cases "ex_witnesses x"; (cases "hd (ex_witnesses x)")?)
       (auto simp: read_dmg_joypad_def push_event_def exec_Inr next_witness_Inr update_state_def
         update_devices_def exec_step_def Let_def case_prod_unfold
         intro!: bus_step.joypad exI [of _ "Ev_DmgJoypadRead i bb b v" for i bb b] split: bus_witness.splits)
qed

lemma simple_performs:
  "performs sha (\<lambda>v e. event_address e = a \<and> event_value e = v \<and> is_data_read e) (read_dmg_mmio a) x"
  "performs sha (\<lambda>_ e. event_address e = a \<and> event_value e = v \<and> is_data_write e) (write_dmg_mmio a v) x"
  "performs sha (\<lambda>_ e. event_address e = OUTPUT_PORT \<and> event_value e = v \<and> is_data_write e) (write_output sha v) x"
  "performs sha (\<lambda>v e. event_address e = a \<and> event_value e = v \<and> is_data_read e) (open_bus_read a) x"
  "performs sha (\<lambda>_ e. event_address e = a \<and> event_value e = v \<and> is_data_write e)
     (push_event (Ev_Mbc3IgnoredWrite a v)) x"
  "a \<le> 0x7fff \<Longrightarrow>
     performs sha (\<lambda>_ e. event_address e = a \<and> event_value e = v \<and> is_data_write e) (control_write a v) x"
  by (rule performsI;
      auto simp: read_dmg_mmio_def write_dmg_mmio_def write_output_def open_bus_read_def control_write_def
        push_event_def exec_defs ok_or_def map_err_def exec_step_def update_state_def update_devices_def
        intro: bus_step.intros split: sum.splits option.splits)+

lemma performs_gets [simp]: "performs sha P (ebind (egets f) g) x = performs sha P (g (f x)) x"
  by (simp add: performs_def ebind_def)

lemma performs_throw [simp]: "performs sha P (ethrow e) x \<longleftrightarrow> \<not> internal_error e"
  by (simp add: performs_def)

lemma performs_guarded:
  assumes "performs sha P m x"
  shows "performs sha P (ethen (require_cpu_dma_access a) (ethen (require_cpu_ppu_access a) m)) x"
  using assms
  by (auto simp: performs_def require_cpu_dma_access_def require_cpu_ppu_access_def exec_defs Let_def)

lemma performs_mono: "performs sha P m x \<Longrightarrow> (\<And>v e. P v e \<Longrightarrow> Q v e) \<Longrightarrow> performs sha Q m x"
  by (fastforce simp: performs_def split: sum.splits)

lemma state_owner_rom: "state_owner s a = Own_Rom \<Longrightarrow> a \<le> 0x7fff"
  by (auto simp: state_owner_def owner_rom_iff dmg_owner_rom_iff split: if_splits)

lemma state_owner_ports:
  "state_owner s a = Own_Input \<Longrightarrow> a = INPUT_PORT" "state_owner s a = Own_Output \<Longrightarrow> a = OUTPUT_PORT"
  by (auto simp: state_owner_def owner_def dmg_owner_def split: if_splits)

text \<open>A data read is one step of its address and value; likewise writes and instruction fetches.\<close>

lemma read_data_performs:
  "performs sha (\<lambda>v e. event_address e = a \<and> event_value e = v \<and> is_data_read e) (read_data sha a) x"
  unfolding read_data_def
proof (rule performs_guarded)
  let ?Q = "\<lambda>v e. event_address e = a \<and> event_value e = v \<and> is_data_read e"
  have rom: "performs sha ?Q (fetch sha a Role_DataRead) x" if "a \<le> 0x7fff"
    using fetch_performs [of Role_DataRead a sha x] that by (auto elim: performs_mono)
  have plain: "performs sha ?Q (read_memory sha a (ucast a)) x" if "\<not> (0xa000 \<le> a \<and> a \<le> 0xbfff)"
    using read_memory_performs [of x a "ucast a" sha] that by (simp add: data_physical_def)
  have window: "performs sha ?Q (read_memory sha a p) x"
    if "0xa000 \<le> a \<and> a \<le> 0xbfff"
      "external_window_for (vm_mbc3 (ex_state x)) (cartridge_profile (vm_profile (ex_state x))) a = Win_Ram p" for p
    using read_memory_performs [of x a p sha] that by (simp add: data_physical_def)
  show "performs sha ?Q
     (ebind (egets (\<lambda>x. ex_state x)) (\<lambda>s.
       if is_dmg_post_boot_mbc3 (vm_profile s) \<and> a = 0xff00 then read_dmg_joypad sha
       else if 0xa000 \<le> a \<and> a \<le> 0xbfff then
         (case external_window_for (vm_mbc3 s) (cartridge_profile (vm_profile s)) a of
            Win_Ram physical_address \<Rightarrow> read_memory sha a physical_address
          | Win_RtcRegister select \<Rightarrow> ethrow (Mbc3RtcRegisterUnavailable select)
          | Win_Unavailable \<Rightarrow> open_bus_read a)
       else
         (case state_owner s a of
            Own_Rom \<Rightarrow> fetch sha a Role_DataRead
          | Own_Memory \<Rightarrow> read_memory sha a (ucast a)
          | Own_Input \<Rightarrow> read_input sha
          | Own_Output \<Rightarrow> ethrow ReadFromOutputPort
          | Own_DmgMmio \<Rightarrow> read_dmg_mmio a
          | Own_DmgEcho \<Rightarrow> ethrow (DmgEchoUnavailable a)
          | Own_Unowned \<Rightarrow> ethrow (UnownedRead a)))) x"
    using read_joypad_performs [of sha x] read_input_performs [of sha x] simple_performs(1,4) [of sha a x]
      rom plain window state_owner_rom [of "ex_state x" a] state_owner_ports [of "ex_state x" a]
    by (auto split: mbc3_external_window.split address_owner.split)
qed

lemma write_data_performs:
  "performs sha (\<lambda>_ e. event_address e = a \<and> event_value e = v \<and> is_data_write e) (write_data sha a v) x"
  unfolding write_data_def
proof (rule performs_guarded)
  let ?Q = "\<lambda>_ e. event_address e = a \<and> event_value e = v \<and> is_data_write e"
  have plain: "performs sha ?Q (write_memory sha a (ucast a) v) x" if "\<not> (0xa000 \<le> a \<and> a \<le> 0xbfff)"
    using write_memory_performs [of x a "ucast a" sha v] that by (simp add: data_physical_def)
  have window: "performs sha ?Q (write_memory sha a p v) x"
    if "0xa000 \<le> a \<and> a \<le> 0xbfff"
      "external_window_for (vm_mbc3 (ex_state x)) (cartridge_profile (vm_profile (ex_state x))) a = Win_Ram p" for p
    using write_memory_performs [of x a p sha v] that by (simp add: data_physical_def)
  show "performs sha ?Q
     (ebind (egets (\<lambda>x. ex_state x)) (\<lambda>s.
       if a \<le> 0x7fff then control_write a v
       else if 0xa000 \<le> a \<and> a \<le> 0xbfff then
         (case external_window_for (vm_mbc3 s) (cartridge_profile (vm_profile s)) a of
            Win_Ram physical_address \<Rightarrow> write_memory sha a physical_address v
          | Win_RtcRegister select \<Rightarrow> ethrow (Mbc3RtcRegisterUnavailable select)
          | Win_Unavailable \<Rightarrow> push_event (Ev_Mbc3IgnoredWrite a v))
       else
         (case state_owner s a of
            Own_Memory \<Rightarrow> write_memory sha a (ucast a) v
          | Own_Output \<Rightarrow> write_output sha v
          | Own_Rom \<Rightarrow> ethrow (WriteToRom a)
          | Own_Input \<Rightarrow> ethrow WriteToInputPort
          | Own_DmgMmio \<Rightarrow> write_dmg_mmio a v
          | Own_DmgEcho \<Rightarrow> ethrow (DmgEchoUnavailable a)
          | Own_Unowned \<Rightarrow> ethrow (UnownedWrite a)))) x"
    using simple_performs(2) [of sha a v x] simple_performs(3) [of sha v x] simple_performs(5) [of sha a v x]
      simple_performs(6) [of a sha v x]
      plain window state_owner_ports [of "ex_state x" a]
    by (auto split: mbc3_external_window.split address_owner.split)
qed

lemma fetch_instruction_performs:
  assumes "role = Role_OpcodeFetch \<or> role = Role_ImmediateRead"
  shows "performs sha (\<lambda>v e. event_address e = a \<and> event_value e = v \<and>
    is_opcode_fetch e = (role = Role_OpcodeFetch) \<and> is_immediate_read e = (role = Role_ImmediateRead) \<and>
    \<not> is_data_read e \<and> \<not> is_data_write e) (fetch_instruction sha a role) x"
  unfolding fetch_instruction_def
proof (rule performs_guarded)
  show "performs sha (\<lambda>v e. event_address e = a \<and> event_value e = v \<and>
      is_opcode_fetch e = (role = Role_OpcodeFetch) \<and> is_immediate_read e = (role = Role_ImmediateRead) \<and>
      \<not> is_data_read e \<and> \<not> is_data_write e)
    (ebind (egets (\<lambda>x. state_owner (ex_state x) a)) (\<lambda>who.
       case who of
         Own_Rom \<Rightarrow> fetch sha a role
       | Own_Memory \<Rightarrow> read_instruction_memory sha a role
       | _ \<Rightarrow> ethrow (UnownedInstructionFetch a))) x"
    using fetch_performs [of role a sha x] read_instruction_memory_performs [OF assms, of sha a x] assms
      state_owner_rom [of "ex_state x" a]
    by (auto split: address_owner.split elim: performs_mono)
qed

lemma dma_source_performs:
  "performs sha (\<lambda>v e. event_address e = a \<and> event_value e = v \<and>
     \<not> is_opcode_fetch e \<and> \<not> is_immediate_read e \<and> \<not> is_data_read e \<and> \<not> is_data_write e) (dma_source_byte sha a) x"
proof (rule performsI)
  fix e assume "dma_source_byte sha a x = Inl e"
  then show "\<not> internal_error e"
    by (auto simp: dma_source_byte_def push_event_def exec_defs dest: take_Inl
        split: sum.splits address_owner.splits mbc3_external_window.splits if_splits)
next
  fix v x' assume run: "dma_source_byte sha a x = Inr (v, x')"
  let ?Q = "\<lambda>e. event_address e = a \<and> event_value e = v \<and>
      \<not> is_opcode_fetch e \<and> \<not> is_immediate_read e \<and> \<not> is_data_read e \<and> \<not> is_data_write e"
  show "\<exists>e. exec_step sha x e x' \<and> ?Q e"
  proof (cases "state_owner (ex_state x) a")
    case Own_Rom
    with run state_owner_rom [OF Own_Rom] show ?thesis
      by (auto simp: dma_source_byte_def push_event_def exec_Inr take_rom_read_Inr exec_step_def
          intro!: bus_step.rom exI [of _ "Ev_DmgDmaRomRead r" for r])
  next
    case Own_Memory
    with run show ?thesis
      by (auto simp: dma_source_byte_def push_event_def exec_Inr take_memory_read_Inr exec_step_def
          data_physical_def intro!: bus_step.data exI [of _ "Ev_DmgDmaMemoryRead r" for r]
          split: mbc3_external_window.splits if_splits)
  qed (use run in \<open>simp_all add: dma_source_byte_def ebind_def\<close>)
qed

lemma dma_write_performs:
  assumes "0xfe00 \<le> a"
  shows "performs sha (\<lambda>_ e. event_address e = a \<and> event_value e = v \<and>
     \<not> is_opcode_fetch e \<and> \<not> is_immediate_read e \<and> \<not> is_data_read e \<and> \<not> is_data_write e) (dma_write_byte sha a v) x"
proof (rule performsI)
  fix e assume "dma_write_byte sha a v x = Inl e"
  then show "\<not> internal_error e"
    by (auto simp: dma_write_byte_def push_event_def exec_defs split: sum.splits dest: take_Inl)
next
  have "\<not> a \<le> 0xbfff" using assms by (simp add: word_le_nat_alt)
  then have "data_physical (ex_state x) a (ucast a)" by (simp add: data_physical_def)
  moreover fix u x' assume "dma_write_byte sha a v x = Inr (u, x')"
  then obtain w ws root where "ex_witnesses x = Wit_MemoryWrite w # ws"
    "mw_address w = a" "mw_physical_address w = ucast a" "mw_after w = v"
    "ex_witnesses x' = ws" "ex_events x' = ex_events x @ [Ev_DmgDmaWrite w]"
    "ex_authentication x' = ex_authentication x"
    "if ex_authentication x = Auth_Merkle
     then memory_write_check sha w (vm_memory_root (ex_state x)) = Inr root \<and>
       ex_state x' = (ex_state x)\<lparr>vm_memory_root := root\<rparr>
     else ex_state x' = ex_state x"
    by (cases "ex_authentication x")
       (auto simp: dma_write_byte_def push_event_def exec_Inr take_memory_write_Inr commit_write_Inr)
  ultimately have "exec_step sha x (Ev_DmgDmaWrite w) x'" "event_address (Ev_DmgDmaWrite w) = a"
    "event_value (Ev_DmgDmaWrite w) = v"
    by (cases "ex_authentication x";
        auto simp: exec_step_def intro: bus_step.store_merkle [of _ w] bus_step.store_lookup [of _ w])+
  then show "\<exists>e. exec_step sha x e x' \<and> event_address e = a \<and> event_value e = v \<and>
      \<not> is_opcode_fetch e \<and> \<not> is_immediate_read e \<and> \<not> is_data_read e \<and> \<not> is_data_write e"
    by (intro exI [of _ "Ev_DmgDmaWrite w"]) simp
qed

end
