(* ===== verification/Step_Frame.thy ===== *)
theory Step_Frame
  imports Transition Bus_Steps Dmg_Clock
begin

text \<open>
  What the instruction semantics relies on from the bus, as locales.  A client gives a reflexive
  and transitive relation between executors and shows that every step of the bus transition
  system keeps it; the lemmas here carry it through data accesses, operand access, all
  instruction families, fetching, dispatch and the machine events.  The same lemmas show that no
  internal-invariant error is ever raised: the admissible errors exclude them.
\<close>

lemma ebind_lift_Inr [simp]: "ebind (elift (Inr y)) f = f y"
  by (rule ext) (simp add: exec_defs)

section \<open>Bus accesses\<close>

locale bus_frame = exec_frame R E
  for R :: "executor \<Rightarrow> executor \<Rightarrow> bool" and E :: "step_error \<Rightarrow> bool" +
  fixes sha :: digest
  assumes external: "\<not> internal_error err \<Longrightarrow> E err"
    and event_step: "exec_step sha x e x' \<Longrightarrow> R x x'"
begin

lemmas keeps_rules = keeps_ret keeps_gets keeps_throw keeps_then keeps_bind keeps_when external

lemma keeps_performs: "(\<And>x. performs sha P m x) \<Longrightarrow> ekeeps R E m"
  by (rule ekeepsI) (fastforce simp: performs_def intro: external event_step split: sum.splits)+

lemma keeps_fetch_instruction:
  "role = Role_OpcodeFetch \<or> role = Role_ImmediateRead \<Longrightarrow> ekeeps R E (fetch_instruction sha a role)"
  by (rule keeps_performs) (rule fetch_instruction_performs)

lemmas keeps_data = keeps_performs [OF read_data_performs] keeps_performs [OF write_data_performs]
  keeps_performs [OF dma_source_performs]

lemma keeps_dma_write: "0xfe00 \<le> a \<Longrightarrow> ekeeps R E (dma_write_byte sha a v)"
  by (rule keeps_performs) (rule dma_write_performs)

end

section \<open>Instruction semantics\<close>

text \<open>
  The immediates an operation needs are present; this is what fetching provides.
\<close>

definition immediates_ready :: "nat \<Rightarrow> immediate_bytes \<Rightarrow> bool" where
  "immediates_ready n imm \<longleftrightarrow>
     (1 \<le> n \<longrightarrow> imm_first imm \<noteq> None) \<and> (2 \<le> n \<longrightarrow> imm_second imm \<noteq> None)"

lemma immediates_ready_simps:
  "immediates_ready 0 imm"
  "immediates_ready (Suc 0) imm \<longleftrightarrow> (\<exists>b. immediate_byte imm = Inr b)"
  "immediates_ready 2 imm \<longleftrightarrow> (\<exists>b w. immediate_byte imm = Inr b \<and> immediate_word imm = Inr w)"
  by (auto simp: immediates_ready_def immediate_byte_def immediate_word_def)

text \<open>Fetching provides exactly the immediates, and decoding yields a dispatchable instruction.\<close>

lemma fetch_immediate_loop_ready:
  assumes "n \<le> 2" "fetch_immediate_loop sha n immediate_default x = Inr (imm, x')"
  shows "immediates_ready n imm"
proof -
  consider "n = 0" | "n = 1" | "n = 2" using assms(1) by linarith
  then show ?thesis
    using assms(2)
    by cases
       (auto simp: immediates_ready_def eval_nat_numeral exec_Inr immediate_push_def immediate_default_def
         split: if_splits)
qed

definition dispatchable :: "decoded_instruction \<Rightarrow> immediate_bytes \<Rightarrow> bool" where
  "dispatchable i imm \<longleftrightarrow>
     defined_instruction i \<and> di_operation i \<noteq> Op_PrefixCb \<and>
     immediates_ready (immediates_needed (di_operation i)) imm"

lemma immediates_needed_le: "immediates_needed op \<le> 2"
  by (cases op rule: immediates_needed.cases) simp_all

lemma primary_immediates:
  "decode_primary b = Defined i \<Longrightarrow>
     unat (saturating_sub (di_byte_len i) 1) = immediates_needed (di_operation i)"
proof -
  assume "decode_primary b = Defined i"
  then have "unat (di_byte_len i) = Suc (immediates_needed (di_operation i))"
    using primary_byte_len [of b] by (auto simp: decode_primary_Defined)
  then show ?thesis by (simp add: saturating_sub_def unat_sub_cases word_le_nat_alt)
qed

lemma cb_immediates: "immediates_needed (di_operation (decode_cb b)) = 0"
  by (simp add: decode_cb_def Let_def)

lemma cb_not_prefix: "di_operation (decode_cb b) \<noteq> Op_PrefixCb"
  by (simp add: decode_cb_def Let_def)

lemma decode_fetched_dispatchable:
  assumes "decode_fetched sha opcode x = Inr ((i, imm), x')"
  shows "dispatchable i imm"
proof (cases "opcode = 0xcb")
  case True
  then show ?thesis using assms
    by (auto simp: decode_fetched_def exec_Inr dispatchable_def cb_immediates cb_not_prefix
        immediates_ready_simps defined_instruction_def)
next
  case False
  with assms obtain x1 where i: "decode_primary opcode = Defined i"
    and imm: "fetch_immediates sha (di_byte_len i) x = Inr (imm, x1)"
    by (auto simp: decode_fetched_def exec_Inr split: opcode_classification.splits)
  have "di_operation i \<noteq> Op_PrefixCb"
    using i False primary_prefix_iff [of opcode] by (auto simp: decode_primary_Defined)
  moreover have "immediates_ready (immediates_needed (di_operation i)) imm"
    using imm fetch_immediate_loop_ready [OF immediates_needed_le] unfolding fetch_immediates_def
    by (simp add: primary_immediates [OF i])
  ultimately show ?thesis using i by (auto simp: dispatchable_def defined_instruction_def)
qed

text \<open>Updates of the CPU that keep the flag byte well formed and do not touch the cycle counter.\<close>

definition cpu_safe :: "(cpu_state \<Rightarrow> cpu_state) \<Rightarrow> bool" where
  "cpu_safe f \<longleftrightarrow> (\<forall>c. (flags_wf (cpu_flags c) \<longrightarrow> flags_wf (cpu_flags (f c))) \<and>
     cpu_m_cycles (f c) = cpu_m_cycles c)"

lemma with_register_safe [simp]:
  "cpu_flags (with_register16 r v c) = cpu_flags c" "cpu_m_cycles (with_register16 r v c) = cpu_m_cycles c"
  by (cases r; simp)+

lemma cpu_safe_rules [simp]:
  "cpu_safe (\<lambda>c. c\<lparr>cpu_registers := g c\<rparr>)" "cpu_safe (with_register16 r v)"
  "cpu_safe (\<lambda>c. c\<lparr>cpu_sp := h c\<rparr>)" "cpu_safe (\<lambda>c. c\<lparr>cpu_pc := h c\<rparr>)" "cpu_safe (\<lambda>c. c\<lparr>cpu_ime := i c\<rparr>)"
  "cpu_safe (\<lambda>c. c\<lparr>cpu_run_state := j c\<rparr>)" "cpu_safe (set_accumulator a)"
  "flags_wf f \<Longrightarrow> cpu_safe (set_flags f)"
  by (simp_all add: cpu_safe_def set_accumulator_def set_flags_def)

locale executor_frame = bus_frame +
  assumes cpu_update: "cpu_safe f \<Longrightarrow> R x (update_cpu f x)"
begin

lemma keeps_cpu: "cpu_safe f \<Longrightarrow> ekeeps R E (modify_cpu f)"
  by (simp add: modify_cpu_def keeps_modify cpu_update)

lemma keeps_registers:
  "ekeeps R E get_cpu" "ekeeps R E (register8_ex r)" "ekeeps R E (register16_ex q)"
  "ekeeps R E (set_register8 r b)" "ekeeps R E (set_register16 q w)" "ekeeps R E (stack_register s)"
  "ekeeps R E (branch_condition c)" "ekeeps R E (indirect_address_of i)"
  by (simp_all add: get_cpu_def register8_ex_def register16_ex_def set_register8_def set_register16_def
      stack_register_def branch_condition_def indirect_address_of_def keeps_bind keeps_gets keeps_ret keeps_cpu)

lemma keeps_set_stack_register: "ekeeps R E (set_stack_register r w)"
proof (cases r)
  case SR16_Af
  have "flags_wf (Flags (u16_low w AND 0xf0))" by (simp add: flags_wf_def and.assoc)
  then show ?thesis using SR16_Af by (auto intro!: keeps_then keeps_bind_lift keeps_cpu)
qed (simp_all add: keeps_registers)

lemma keeps_update_hl: "ekeeps R E (update_hl_after_indirect i)"
  by (cases i) (auto intro!: keeps_rules keeps_registers)

lemma keeps_read_operand:
  "opd = Opd_Immediate \<longrightarrow> (\<exists>b. immediate_byte imm = Inr b) \<Longrightarrow> ekeeps R E (read_operand sha opd imm)"
  by (cases opd) (auto intro!: keeps_rules keeps_registers keeps_data keeps_lift)

lemma keeps_write_operand: "operand_writable opd \<Longrightarrow> ekeeps R E (write_operand sha opd v)"
  by (cases opd) (auto intro!: keeps_rules keeps_registers keeps_data)

lemma keeps_transfer: "ekeeps R E (transfer_accumulator sha a d)"
  by (cases d) (auto intro!: keeps_rules keeps_registers keeps_data keeps_cpu)

lemma keeps_words:
  "ekeeps R E (push_word sha w)" "ekeeps R E (pop_word sha)" "ekeeps R E (store_sp_absolute sha a)"
  "ekeeps R E (push_interrupt_return sha w)"
  by (auto simp: push_word_def pop_word_def store_sp_absolute_def push_interrupt_return_def Let_def
      intro!: keeps_rules keeps_registers keeps_data keeps_cpu)

lemmas keeps_parts = keeps_registers keeps_set_stack_register keeps_update_hl keeps_read_operand
  keeps_write_operand keeps_transfer keeps_words keeps_cpu

lemma keeps_fetching:
  "role = Role_OpcodeFetch \<or> role = Role_ImmediateRead \<Longrightarrow> ekeeps R E (fetch_and_advance sha role)"
  "ekeeps R E (fetch_first_opcode sha b)"
  by (auto simp: fetch_and_advance_def fetch_first_opcode_def
      intro!: keeps_rules keeps_registers keeps_cpu keeps_fetch_instruction)

lemma keeps_delayed_ime: "ekeeps R E (apply_delayed_ime op b)"
  by (auto simp: apply_delayed_ime_def intro!: keeps_rules keeps_cpu)

lemma keeps_control:
  "instr_class op = Cls_Control \<Longrightarrow> ekeeps R E (execute_control op)"
  by (cases op)
     (auto simp: execute_control_def Let_def cpu_safe_def set_flags_def set_accumulator_def
       intro!: keeps_rules keeps_cpu split: cb_operation.splits)

lemma keeps_load:
  "instr_class op = Cls_Load \<Longrightarrow> decodable_operation op \<Longrightarrow> immediates_ready (immediates_needed op) imm \<Longrightarrow>
     ekeeps R E (execute_load sha op imm)"
  by (cases op)
     (auto simp: execute_load_def Let_def case_prod_unfold immediates_ready_simps
       intro!: keeps_then keeps_bind keeps_ret keeps_parts split: cb_operation.splits)

lemma keeps_update_operand:
  "operand_writable opd \<Longrightarrow> (\<And>v f. flags_wf (br_flags (g v f))) \<Longrightarrow> ekeeps R E (update_operand sha opd imm g)"
  by (auto simp: update_operand_def Let_def intro!: keeps_then keeps_bind keeps_ret keeps_parts)

lemma keeps_alu8:
  assumes "instr_class op = Cls_Alu8" "decodable_operation op" "immediates_ready (immediates_needed op) imm"
  shows "ekeeps R E (execute_alu8 sha op imm)"
proof (cases op)
  case (Op_Alu8 alu opd)
  then have "opd = Opd_Immediate \<longrightarrow> (\<exists>b. immediate_byte imm = Inr b)"
    using assms(3) by (auto simp: immediates_ready_simps)
  then show ?thesis using Op_Alu8
    by (auto simp: execute_alu8_def Let_def intro!: keeps_then keeps_bind keeps_ret keeps_when keeps_parts)
qed (use assms in \<open>auto simp: execute_alu8_def intro!: keeps_update_operand split: cb_operation.splits\<close>)

lemma keeps_alu16:
  "instr_class op = Cls_Alu16 \<Longrightarrow> immediates_ready (immediates_needed op) imm \<Longrightarrow>
     ekeeps R E (execute_alu16 op imm)"
  by (cases op)
     (auto simp: execute_alu16_def Let_def case_prod_unfold immediates_ready_simps
       intro!: keeps_then keeps_bind keeps_ret keeps_parts split: cb_operation.splits)

lemma keeps_rotate_result:
  "is_rotate_form cb \<Longrightarrow> (\<And>r. flags_wf (br_flags r) \<Longrightarrow> ekeeps R E (f r)) \<Longrightarrow>
     ekeeps R E (ebind (elift (ok_or InstructionMetadataInvariant (rotate_shift cb v c z))) f)"
  by (rule keeps_bind_lift)
     (use rotate_shift_None rotate_shift_flags_wf in \<open>auto simp: ok_or_def split: option.splits\<close>)

lemma keeps_rotate:
  assumes "instr_class op = Cls_RotateShift" "decodable_operation op"
  shows "ekeeps R E (execute_rotate sha op imm)"
proof (cases op)
  case (Op_RotateAccumulator cb)
  then show ?thesis using assms
    by (auto simp: execute_rotate_def intro!: keeps_then keeps_bind [OF keeps_registers(1)]
        keeps_rotate_result keeps_ret keeps_parts)
next
  case (Op_Cb cb opd)
  then have "is_rotate_form cb" "operand_writable opd" using assms by (cases cb; simp)+
  then show ?thesis using Op_Cb
    by (auto simp: execute_rotate_def intro!: keeps_then keeps_bind [OF keeps_registers(1)]
        keeps_bind [OF keeps_read_operand] keeps_rotate_result keeps_ret keeps_parts)
qed (use assms in \<open>auto split: cb_operation.splits\<close>)

lemma keeps_bit:
  assumes "instr_class op = Cls_Bit" "decodable_operation op"
  shows "ekeeps R E (execute_bit sha op imm)"
proof (cases op)
  case (Op_Cb cb opd)
  then have w: "operand_writable opd" using assms by (cases cb; simp)
  have "bit_mask b = Inr (push_bit (unat b) 1)" if "b < 8" for b using that by (simp add: bit_mask_def)
  with w show ?thesis using Op_Cb assms
    by (cases cb)
       (auto simp: execute_bit_def cpu_safe_def set_flags_def
         intro!: keeps_then keeps_bind keeps_ret keeps_parts)
qed (use assms in \<open>auto split: cb_operation.splits\<close>)

lemma keeps_jump:
  "instr_class op = Cls_Jump \<Longrightarrow> immediates_ready (immediates_needed op) imm \<Longrightarrow>
     ekeeps R E (execute_jump op imm)"
  by (cases op)
     (auto simp: execute_jump_def immediates_ready_simps
       intro!: keeps_then keeps_bind keeps_ret keeps_when keeps_parts split: cb_operation.splits)

lemma keeps_call_return:
  "instr_class op = Cls_CallReturn \<Longrightarrow> immediates_ready (immediates_needed op) imm \<Longrightarrow>
     ekeeps R E (execute_call_return sha op imm)"
  by (cases op)
     (auto simp: execute_call_return_def immediates_ready_simps
       intro!: keeps_then keeps_bind keeps_ret keeps_when keeps_parts split: cb_operation.splits)

lemma keeps_stack: "instr_class op = Cls_Stack \<Longrightarrow> ekeeps R E (execute_stack sha op)"
  by (cases op)
     (auto simp: execute_stack_def intro!: keeps_then keeps_bind keeps_ret keeps_parts
       split: cb_operation.splits)

lemma keeps_interrupt: "instr_class op = Cls_Interrupt \<Longrightarrow> ekeeps R E (execute_interrupt op)"
  by (cases op)
     (auto simp: execute_interrupt_def intro!: keeps_then keeps_ret keeps_parts split: cb_operation.splits)

lemma keeps_low_power:
  "instr_class op = Cls_LowPower \<Longrightarrow> immediates_ready (immediates_needed op) imm \<Longrightarrow>
     ekeeps R E (execute_low_power op imm)"
  by (cases op)
     (auto simp: execute_low_power_def immediates_ready_simps
       intro!: keeps_rules keeps_parts split: cb_operation.splits)

lemma keeps_execute:
  assumes "di_class i = instr_class (di_operation i)" "decodable_operation (di_operation i)"
    "immediates_ready (immediates_needed (di_operation i)) imm" "di_operation i \<noteq> Op_PrefixCb"
  shows "ekeeps R E (execute sha i imm)"
proof -
  have "di_class i = Cls_Prefix \<longleftrightarrow> di_operation i = Op_PrefixCb"
    unfolding assms(1) by (cases "di_operation i") (simp_all split: cb_operation.split)
  then show ?thesis
    using assms keeps_control [of "di_operation i"] keeps_load [of "di_operation i" imm]
      keeps_alu8 [of "di_operation i" imm] keeps_alu16 [of "di_operation i" imm]
      keeps_rotate [of "di_operation i" imm] keeps_bit [of "di_operation i" imm]
      keeps_jump [of "di_operation i" imm] keeps_call_return [of "di_operation i" imm]
      keeps_stack [of "di_operation i"] keeps_interrupt [of "di_operation i"]
      keeps_low_power [of "di_operation i" imm]
    by (simp add: execute_def Let_def split: instruction_class.split)
qed

lemma keeps_immediate_loop: "n \<le> 2 \<Longrightarrow> ekeeps R E (fetch_immediate_loop sha n immediate_default)"
proof -
  assume "n \<le> 2"
  then consider "n = 0" | "n = 1" | "n = 2" by linarith
  then show ?thesis
    by cases
       (auto simp: eval_nat_numeral immediate_push_def immediate_default_def
         intro!: keeps_bind keeps_ret keeps_ret [unfolded eret_def] keeps_fetching)
qed

lemma keeps_decode_fetched: "ekeeps R E (decode_fetched sha opcode)"
  by (auto simp: decode_fetched_def fetch_immediates_def primary_immediates immediates_needed_le
      intro!: keeps_rules keeps_fetching keeps_immediate_loop split: opcode_classification.split)

lemma keeps_dispatched: "dispatchable i imm \<Longrightarrow> ekeeps R E (execute sha i imm)"
  by (rule keeps_execute) (auto simp: dispatchable_def defined_class defined_decodable)

lemma keeps_step_execute: "ekeeps R E (step_execute sha s)"
  unfolding step_execute_def
proof (rule keeps_bind [OF keeps_fetching(2)], rule keeps_bind_value [OF keeps_decode_fetched])
  fix opcode x r x' assume "decode_fetched sha opcode x = Inr (r, x')"
  then have "dispatchable (fst r) (snd r)" using decode_fetched_dispatchable by (cases r) auto
  then show "ekeeps R E (case r of (i, imm) \<Rightarrow> ebind (execute sha i imm) (\<lambda>branch_taken.
      ethen (apply_delayed_ime (di_operation i) (cpu_ime (vm_cpu s) = Ime_EnablePending))
        (eret (i, branch_taken))))"
    by (cases r) (auto intro!: keeps_bind keeps_then keeps_ret keeps_delayed_ime keeps_dispatched)
qed

end

section \<open>Whole steps\<close>

text \<open>Device updates that keep the device invariant and never cancel an active DMA.\<close>

definition device_safe :: "(dmg_device_state \<Rightarrow> dmg_device_state) \<Rightarrow> bool" where
  "device_safe f \<longleftrightarrow> (\<forall>d. (dmg_wf d \<longrightarrow> dmg_wf (f d)) \<and> (dma_active d \<longrightarrow> dma_active (f d)))"

lemma dma_active_serial [simp]: "dma_active (advance_serial_t_cycles t d) = dma_active d"
  by (simp add: advance_serial_t_cycles_def Let_def)

lemma dma_active_ppu [simp]: "dma_active (advance_ppu_t_cycle d) = dma_active d"
  by (simp add: advance_ppu_t_cycle_def request_stat_rising_edge_def Let_def)

lemma dma_active_advance [simp]: "dma_active (advance_m_cycles m d) = dma_active d"
proof -
  have "dma_active ((advance_ppu_t_cycle ^^ n) d) = dma_active d" for n d by (induction n) simp_all
  then show ?thesis by (simp add: advance_m_cycles_def Let_def case_prod_unfold)
qed

lemma dma_active_quiet [simp]: "dma_active (advance_quiet_long m d) = dma_active d"
  by (induction m d rule: advance_quiet_long.induct) (subst advance_quiet_long.simps, simp add: Let_def)

lemma dma_active_acknowledge [simp]: "dma_active (acknowledge_interrupt i d) = dma_active d"
  by (simp add: acknowledge_interrupt_def)

lemma device_safe_rules:
  "device_safe (acknowledge_interrupt i)" "device_safe (advance_m_cycles m)" "device_safe (advance_quiet_long n)"
  by (simp_all add: device_safe_def acknowledge_wf advance_m_cycles_wf advance_quiet_long_wf)

lemma sample_joypad_active: "sample_joypad b d = (v, d') \<Longrightarrow> dma_active d' = dma_active d"
  by (auto simp: sample_joypad_def request_joypad_falling_edge_def Let_def split: if_splits)

lemma write_register_active:
  "write_mmio_register a v b d = Some d' \<Longrightarrow> dma_active d \<Longrightarrow> dma_active d'"
  by (auto simp: write_mmio_register_def request_joypad_falling_edge_def Let_def split: if_splits)

lemma write_mmio_active: "write_mmio a v d = Some (b, d') \<Longrightarrow> dma_active d \<Longrightarrow> dma_active d'"
  by (auto simp: write_mmio_def request_stat_rising_edge_def Let_def bind_eq_Some_conv
      dest: write_register_active split: if_splits)

lemma dma_destination_bound: "0xfe00 \<le> dma_destination_address d"
  by (simp add: word_le_nat_alt dma_addresses)

locale device_frame = executor_frame +
  assumes device_update: "device_safe f \<Longrightarrow> R x (update_devices f x)"
begin

lemma keeps_devices: "device_safe f \<Longrightarrow> ekeeps R E (emodify (update_devices f))"
  by (simp add: keeps_modify device_update)

lemma keeps_interrupt_entry: "ekeeps R E (interrupt_entry sha who)"
  by (auto simp: interrupt_entry_def
      intro!: keeps_rules keeps_cpu keeps_devices keeps_words keeps_registers device_safe_rules)

end

locale machine_frame = device_frame +
  assumes cycle_update: "R x (update_cpu (\<lambda>c. c\<lparr>cpu_m_cycles := n\<rparr>) x)"
begin

lemma keeps_add_cycles: "ekeeps R E (add_m_cycles n)"
  unfolding add_m_cycles_def
  by (auto simp: modify_cpu_def intro!: keeps_bind keeps_registers keeps_lift keeps_modify cycle_update external
      simp: ok_or_def split: option.splits)

end

text \<open>
  Relations that do not look at devices at all are kept by the DMA bookkeeping too, hence by
  every program a step runs.
\<close>

locale step_frame = machine_frame +
  assumes any_device_update: "R x (update_devices f x)"
begin

lemma keeps_any_devices: "ekeeps R E (emodify (update_devices f))"
  by (simp add: keeps_modify any_device_update)

lemma keeps_timing:
  "ekeeps R E (add_timing i b d)" "ekeeps R E (add_machine_timing c)"
  by (auto simp: add_timing_def add_machine_timing_def Let_def
      intro!: keeps_rules keeps_add_cycles keeps_any_devices)

lemma keeps_step_program: "ekeeps R E (step_program sha s)"
  unfolding step_program_def
  by (auto intro!: keeps_bind keeps_step_execute keeps_then keeps_timing keeps_when keeps_cpu keeps_ret)

lemma keeps_machine_programs:
  "ekeeps R E (interrupt_program sha who)" "ekeeps R E (copy_dma_byte sha)"
  "ekeeps R E (ethen (add_m_cycles n) (emodify (update_devices f)))"
  by (auto simp: interrupt_program_def interrupt_entry_def copy_dma_byte_def Let_def dma_destination_bound
      intro!: keeps_rules keeps_cpu keeps_any_devices keeps_words keeps_registers keeps_timing
        keeps_add_cycles keeps_data keeps_dma_write)

end

end
