(* ===== verification/Steps.thy ===== *)
theory Steps
  imports Step_Frame Logs
begin

text \<open>
  Whole steps.  \<open>step_body\<close> is the executor program a step runs, and \<open>apply_step\<close> is that program
  followed by finalization.  Every program of a step is a run of the bus transition system with
  silent CPU and device changes between the bus events (\<open>bus_trace\<close>): the interpretation
  \<open>traced\<close> discharges the frame for that relation, and what a run does to roots, logs, mapper
  and memory follows by rule induction on it.
\<close>

section \<open>The program of a step\<close>

definition machine_body :: "unit ex \<Rightarrow> step_kind \<Rightarrow> u8 \<Rightarrow> (step_kind \<times> decoded_instruction \<times> bool) ex" where
  "machine_body m kind marker =
     ethen m (ebind (elift (machine_event_marker marker)) (\<lambda>i. eret (kind, i, False)))"

definition instruction_body :: "digest \<Rightarrow> vm_state \<Rightarrow> (step_kind \<times> decoded_instruction \<times> bool) ex" where
  "instruction_body sha s =
     (if can_execute_instruction (cpu_run_state (vm_cpu s))
      then ebind (step_program sha s) (\<lambda>(i, b). eret (SK_Instruction, i, b))
      else ethrow (CpuNotRunning (cpu_run_state (vm_cpu s))))"

fun event_body :: "digest \<Rightarrow> vm_state \<Rightarrow> dmg_machine_event \<Rightarrow> (step_kind \<times> decoded_instruction \<times> bool) ex" where
  "event_body sha s (ME_Interrupt who) =
     machine_body (interrupt_program sha who) (SK_InterruptDispatch who) 0xff"
| "event_body sha s ME_HaltWake =
     machine_body (modify_cpu (\<lambda>c. c\<lparr>cpu_run_state := Running\<rparr>)) SK_HaltWake 0x76"
| "event_body sha s (ME_HaltUntilVBlank n) =
     machine_body (ethen (add_m_cycles (ucast n)) (emodify (update_devices (advance_halt_until_vblank n))))
       SK_HaltUntilVBlank 0x76"
| "event_body sha s (ME_HaltUntilSerial n) =
     machine_body (ethen (add_m_cycles (ucast n)) (emodify (update_devices (advance_halt_until_serial n))))
       SK_HaltUntilSerial 0x76"
| "event_body sha s (ME_HaltUntilTimer t) =
     machine_body (ethen (add_m_cycles (ucast t)) (emodify (update_devices (advance_halt_until_timer t))))
       SK_HaltUntilTimer 0x76"
| "event_body sha s ME_HaltIdle =
     machine_body (add_machine_timing (halt_idle_m_cycles (vm_dmg_devices s))) SK_HaltIdle 0x76"

definition step_body :: "digest \<Rightarrow> vm_state \<Rightarrow> (step_kind \<times> decoded_instruction \<times> bool) ex" where
  "step_body sha s =
     (if \<not> is_dmg_post_boot_mbc3 (vm_profile s) then instruction_body sha s
      else if dma_owed (vm_dmg_devices s) \<noteq> 0 then machine_body (copy_dma_byte sha) SK_DmaByte 0x00
      else
        (case classify_dmg_machine_event s of
           Inl e \<Rightarrow> ethrow e
         | Inr None \<Rightarrow> instruction_body sha s
         | Inr (Some event) \<Rightarrow> event_body sha s event))"

definition complete_step ::
  "digest \<Rightarrow> (step_kind \<times> decoded_instruction \<times> bool) \<times> executor \<Rightarrow> step_error + (vm_state \<times> step_effects)" where
  "complete_step sha = (\<lambda>((kind, i, b), x).
     and_then (finalize sha i x) (\<lambda>(s, es).
       Inr (s, \<lparr>eff_kind = kind, eff_instruction = i, eff_branch_taken = b, eff_bus_events = es\<rparr>)))"

lemma run_machine_body: "run_machine sha m kind marker x = and_then (machine_body m kind marker x) (complete_step sha)"
  by (auto simp: run_machine_def machine_body_def complete_step_def finish_machine_def step_effects_machine_def
      exec_defs and_then_def split: sum.splits)

lemma apply_instruction_body:
  "apply_instruction sha s input auth = and_then (instruction_body sha s (executor_new s input auth)) (complete_step sha)"
  by (auto simp: apply_instruction_def instruction_body_def complete_step_def finish_def step_effects_new_def
      exec_defs and_then_def split: sum.splits)

lemma apply_step_body:
  "apply_step sha s input auth = and_then (step_body sha s (executor_new s input auth)) (complete_step sha)"
  by (auto simp: apply_step_def step_body_def apply_instruction_body run_machine_body dispatch_interrupt_def
      halt_wake_def halt_until_vblank_def halt_until_serial_def halt_until_timer_def halt_idle_def dma_byte_def
      split: sum.split option.split dmg_machine_event.split)

section \<open>Markers\<close>

lemma marker_defined: "machine_event_marker m = Inr i \<Longrightarrow> defined_instruction i"
  by (auto simp: machine_event_marker_def defined_instruction_def split: opcode_classification.splits)

lemma marker_ok:
  assumes "m \<in> {0xff, 0x76, 0x00}"
  shows "\<exists>i. machine_event_marker m = Inr i"
proof -
  have "is_ok (machine_event_marker 0xff)" "is_ok (machine_event_marker 0x76)" "is_ok (machine_event_marker 0x00)"
    by code_simp+
  with assms show ?thesis by (auto simp: is_ok_def split: sum.splits)
qed

lemma step_program_defined:
  assumes "step_program sha s x = Inr ((i, b), x')"
  shows "defined_instruction i"
  using assms
  by (auto simp: step_program_def step_execute_def exec_Inr dispatchable_def
      dest!: decode_fetched_dispatchable)

lemma machine_body_defined: "machine_body m kind marker x = Inr ((k, i, b), x') \<Longrightarrow> defined_instruction i"
  by (auto simp: machine_body_def exec_Inr dest: marker_defined)

lemma event_body_defined: "event_body sha s e x = Inr ((k, i, b), x') \<Longrightarrow> defined_instruction i"
  by (cases e) (auto dest: machine_body_defined)

lemma step_body_defined:
  assumes "step_body sha s x = Inr ((k, i, b), x')"
  shows "defined_instruction i"
  using assms
  by (auto simp: step_body_def instruction_body_def exec_Inr
      dest: machine_body_defined event_body_defined step_program_defined
      split: if_splits sum.splits option.splits)

context step_frame
begin

lemma keeps_machine_body: "ekeeps R E m \<Longrightarrow> marker \<in> {0xff, 0x76, 0x00} \<Longrightarrow> ekeeps R E (machine_body m kind marker)"
  using marker_ok [of marker]
  by (auto simp: machine_body_def intro!: keeps_then keeps_ret [unfolded eret_def])

lemma keeps_event_body: "ekeeps R E (event_body sha s e)"
  by (cases e)
     (auto intro!: keeps_machine_body keeps_machine_programs keeps_cpu keeps_timing)

lemma keeps_step_body: "ekeeps R E (step_body sha s)"
proof -
  have instr: "ekeeps R E (instruction_body sha s)"
    by (auto simp: instruction_body_def intro!: keeps_bind keeps_step_program keeps_ret keeps_throw external)
  have "E e" if "classify_dmg_machine_event s = Inl e" for e
    using that by (auto simp: classify_dmg_machine_event_def Let_def intro: external
        split: run_state.splits option.splits if_splits)
  with instr show ?thesis
    by (auto simp: step_body_def intro!: keeps_throw keeps_event_body keeps_machine_body
        keeps_machine_programs split: sum.split option.split)
qed

end

section \<open>Runs of the bus transition system\<close>

text \<open>CPU and device changes are invisible on the bus.\<close>

definition silent :: "vm_state \<Rightarrow> vm_state \<Rightarrow> bool" where
  "silent s s' \<longleftrightarrow> s\<lparr>vm_cpu := vm_cpu s', vm_dmg_devices := vm_dmg_devices s'\<rparr> = s'"

inductive bus_trace :: "digest \<Rightarrow> bus_authentication \<Rightarrow> vm_state \<Rightarrow> bus_event list \<Rightarrow> vm_state \<Rightarrow> bool"
  for sha :: digest and auth :: bus_authentication where
  quiet: "silent s s' \<Longrightarrow> bus_trace sha auth s [] s'"
| event: "silent s s1 \<Longrightarrow> bus_step sha auth s1 e s2 \<Longrightarrow> bus_trace sha auth s2 es s3 \<Longrightarrow>
    bus_trace sha auth s (e # es) s3"

lemma silentD:
  assumes "silent s s'"
  shows "vm_profile s' = vm_profile s" "vm_mbc3 s' = vm_mbc3 s" "vm_rom_root s' = vm_rom_root s"
    "vm_memory_root s' = vm_memory_root s" "vm_input_log s' = vm_input_log s" "vm_output_log s' = vm_output_log s"
    "vm_bus_transcript s' = vm_bus_transcript s" "vm_isa_transcript s' = vm_isa_transcript s"
  using assms by (cases s; cases s'; simp add: silent_def)+

lemma silent_refl [simp]: "silent s s"
  by (simp add: silent_def)

lemma silent_trans: "silent s t \<Longrightarrow> silent t u \<Longrightarrow> silent s u"
  by (cases s; cases t; cases u) (simp add: silent_def)

lemma silent_updates [simp]: "silent s (s\<lparr>vm_cpu := c\<rparr>)" "silent s (s\<lparr>vm_dmg_devices := d\<rparr>)"
  by (simp_all add: silent_def)

lemma bus_trace_silent: "silent s t \<Longrightarrow> bus_trace sha auth t es u \<Longrightarrow> bus_trace sha auth s es u"
  by (erule bus_trace.cases) (auto intro: bus_trace.intros silent_trans)

lemma bus_trace_append:
  "bus_trace sha auth s es t \<Longrightarrow> bus_trace sha auth t fs u \<Longrightarrow> bus_trace sha auth s (es @ fs) u"
  by (induction rule: bus_trace.induct) (auto intro: bus_trace.intros bus_trace_silent)

lemma bus_trace_single: "bus_step sha auth s e t \<Longrightarrow> bus_trace sha auth s [e] t"
  by (rule bus_trace.event [OF silent_refl _ bus_trace.quiet [OF silent_refl]])

definition executor_trace :: "digest \<Rightarrow> executor \<Rightarrow> executor \<Rightarrow> bool" where
  "executor_trace sha x x' \<longleftrightarrow>
     ex_authentication x' = ex_authentication x \<and>
     (\<exists>es. ex_events x' = ex_events x @ es \<and>
        ex_witnesses x = concat (map event_witness es) @ ex_witnesses x' \<and>
        bus_trace sha (ex_authentication x) (ex_state x) es (ex_state x'))"

lemma executor_trace_silent:
  "silent (ex_state x) s \<Longrightarrow> executor_trace sha x (x\<lparr>ex_state := s\<rparr>)"
  by (auto simp: executor_trace_def intro: bus_trace.quiet)

interpretation traced: step_frame "executor_trace sha" "\<lambda>e. \<not> internal_error e" sha for sha
proof
  fix x y z assume "executor_trace sha x y" "executor_trace sha y z"
  then show "executor_trace sha x z"
    unfolding executor_trace_def using bus_trace_append by fastforce
next
  fix x e x' assume "exec_step sha x e x'"
  then show "executor_trace sha x x'"
    by (auto simp: exec_step_def executor_trace_def intro: bus_trace_single)
qed (auto simp: executor_trace_def update_cpu_def update_devices_def update_state_def
    intro!: bus_trace.quiet)

section \<open>Finalization\<close>

lemma finalize_Inr: "finalize sha i x = Inr (s, es) \<longleftrightarrow>
    ex_witnesses x = [] \<and> es = ex_events x \<and>
    (if ex_authentication x = Auth_Merkle
     then \<exists>bt row it.
       try_fold (\<lambda>t e. bus_transcript_append sha t (transcript_event e)) (vm_bus_transcript (ex_state x)) es = Inr bt \<and>
       packed_row (from_decoded i) = Inr row \<and>
       isa_transcript_append sha (vm_isa_transcript (ex_state x)) row = Inr it \<and>
       s = (ex_state x)\<lparr>vm_bus_transcript := bt, vm_isa_transcript := it\<rparr>
     else s = ex_state x)"
  by (auto simp: finalize_def)

lemma finalize_Inl:
  assumes "defined_instruction i" "finalize sha i x = Inl e"
  shows "\<not> internal_error e"
proof -
  obtain row where "packed_row (from_decoded i) = Inr row"
    using packed_defined_ok [OF assms(1)] by (auto simp: is_ok_def split: sum.splits)
  with assms(2) show ?thesis
    by (auto simp: finalize_def and_then_eq_Inl map_err_def split: if_splits sum.splits)
qed

text \<open>The witness list of an accepted step is what its events consumed, and the final state is
  the state the bus run reaches with the transcripts advanced.\<close>

lemma apply_step_trace:
  assumes "apply_step sha s input auth = Inr (s', eff)"
  obtains x where "step_body sha s (executor_new s input auth) =
      Inr ((eff_kind eff, eff_instruction eff, eff_branch_taken eff), x)"
    "ex_authentication x = auth" "ex_events x = eff_bus_events eff" "ex_witnesses x = []"
    "input_witnesses input = concat (map event_witness (eff_bus_events eff))"
    "bus_trace sha auth s (eff_bus_events eff) (ex_state x)"
    "finalize sha (eff_instruction eff) x = Inr (s', eff_bus_events eff)"
proof -
  obtain k i b x es where run: "step_body sha s (executor_new s input auth) = Inr ((k, i, b), x)"
    and fin: "finalize sha i x = Inr (s', es)"
    and eff: "eff = \<lparr>eff_kind = k, eff_instruction = i, eff_branch_taken = b, eff_bus_events = es\<rparr>"
    using assms by (auto simp: apply_step_body complete_step_def)
  have "executor_trace sha (executor_new s input auth) x"
    using ekeepsD(1) [OF traced.keeps_step_body run] .
  with run fin eff show thesis
    by (intro that) (auto simp: executor_trace_def executor_new_def finalize_Inr)
qed

end
