(* ===== verification/Step_Effects.thy ===== *)
theory Step_Effects
  imports Steps Openings
begin

text \<open>
  What a run of the bus transition system does to the committed world: reads are truthful to the
  committed ROM and memory bytes and writes replay on them (up to an exhibited collision), the
  input and output logs grow by the bytes that crossed the ports, and the mapper replays its
  control writes.  Everything is by rule induction on \<open>bus_trace\<close>.
\<close>

section \<open>The abstract memory\<close>

fun event_rom_read :: "bus_event \<Rightarrow> rom_read option" where
  "event_rom_read (Ev_OpcodeFetch r) = Some r"
| "event_rom_read (Ev_ImmediateRead r) = Some r"
| "event_rom_read (Ev_RomRead r) = Some r"
| "event_rom_read (Ev_DmgDmaRomRead r) = Some r"
| "event_rom_read _ = None"

fun event_memory_read :: "bus_event \<Rightarrow> memory_read option" where
  "event_memory_read (Ev_MemoryOpcodeFetch m) = Some m"
| "event_memory_read (Ev_MemoryImmediateRead m) = Some m"
| "event_memory_read (Ev_MemoryRead m) = Some m"
| "event_memory_read (Ev_DmgDmaMemoryRead m) = Some m"
| "event_memory_read _ = None"

fun event_memory_write :: "bus_event \<Rightarrow> memory_write option" where
  "event_memory_write (Ev_MemoryWrite w) = Some w"
| "event_memory_write (Ev_DmgDmaWrite w) = Some w"
| "event_memory_write _ = None"

text \<open>A witness path has one sibling per level, as the fixed-size array of the source.\<close>

fun witness_wf :: "bus_witness \<Rightarrow> bool" where
  "witness_wf (Wit_Rom r) = path_wf (rr_path r)"
| "witness_wf (Wit_MemoryRead m) = path_wf (mr_path m)"
| "witness_wf (Wit_MemoryWrite w) = path_wf (mw_path w)"
| "witness_wf (Wit_InputByte _) = True"

text \<open>What an event claims of the ROM and memory bytes, and what it does to memory.\<close>

definition event_truthful :: "(nat \<Rightarrow> u8) \<Rightarrow> (nat \<Rightarrow> u8) \<Rightarrow> bus_event \<Rightarrow> bool" where
  "event_truthful rom mem e \<longleftrightarrow>
     (case event_rom_read e of None \<Rightarrow> True | Some r \<Rightarrow> rr_value r = rom (unat (rr_physical_address r))) \<and>
     (case event_memory_read e of None \<Rightarrow> True | Some m \<Rightarrow> mr_value m = mem (unat (mr_physical_address m))) \<and>
     (case event_memory_write e of None \<Rightarrow> True | Some w \<Rightarrow> mw_before w = mem (unat (mw_physical_address w)))"

definition event_apply :: "bus_event \<Rightarrow> (nat \<Rightarrow> u8) \<Rightarrow> nat \<Rightarrow> u8" where
  "event_apply e mem =
     (case event_memory_write e of None \<Rightarrow> mem | Some w \<Rightarrow> mem(unat (mw_physical_address w) := mw_after w))"

definition event_collides :: "digest \<Rightarrow> (nat \<Rightarrow> u8) \<Rightarrow> (nat \<Rightarrow> u8) \<Rightarrow> bus_event \<Rightarrow> bool" where
  "event_collides sha rom mem e \<longleftrightarrow>
     (case event_rom_read e of None \<Rightarrow> False
      | Some r \<Rightarrow> opening_collision sha Kind_Rom rom (rr_physical_address r) (rr_value r) (rr_path r)) \<or>
     (case event_memory_read e of None \<Rightarrow> False
      | Some m \<Rightarrow> opening_collision sha Kind_Memory mem (mr_physical_address m) (mr_value m) (mr_path m)) \<or>
     (case event_memory_write e of None \<Rightarrow> False
      | Some w \<Rightarrow> opening_collision sha Kind_Memory mem (mw_physical_address w) (mw_before w) (mw_path w))"

primrec events_truthful :: "(nat \<Rightarrow> u8) \<Rightarrow> (nat \<Rightarrow> u8) \<Rightarrow> bus_event list \<Rightarrow> bool" where
  "events_truthful rom mem [] = True"
| "events_truthful rom mem (e # es) \<longleftrightarrow> event_truthful rom mem e \<and> events_truthful rom (event_apply e mem) es"

primrec events_collide :: "digest \<Rightarrow> (nat \<Rightarrow> u8) \<Rightarrow> (nat \<Rightarrow> u8) \<Rightarrow> bus_event list \<Rightarrow> bool" where
  "events_collide sha rom mem [] = False"
| "events_collide sha rom mem (e # es) \<longleftrightarrow>
     event_collides sha rom mem e \<or> events_collide sha rom (event_apply e mem) es"

definition events_apply :: "bus_event list \<Rightarrow> (nat \<Rightarrow> u8) \<Rightarrow> nat \<Rightarrow> u8" where
  "events_apply es mem = fold event_apply es mem"

lemmas event_memory_defs = event_truthful_def event_apply_def event_collides_def

section \<open>Truth\<close>

definition world :: "digest \<Rightarrow> (nat \<Rightarrow> u8) \<Rightarrow> (nat \<Rightarrow> u8) \<Rightarrow> vm_state \<Rightarrow> bool" where
  "world sha rom mem s \<longleftrightarrow>
     vm_rom_root s = tree_commit sha Kind_Rom rom \<and> vm_memory_root s = tree_commit sha Kind_Memory mem"

lemma world_silent: "silent s s' \<Longrightarrow> world sha rom mem s' = world sha rom mem s"
  by (simp add: world_def silentD)

lemma bus_step_world:
  assumes "bus_step sha Auth_Merkle s e s'" "world sha rom mem s" "\<forall>w \<in> set (event_witness e). witness_wf w"
  shows "(event_truthful rom mem e \<and> world sha rom (event_apply e mem) s') \<or> event_collides sha rom mem e"
  using assms
proof cases
  case (rom r)
  then show ?thesis using assms rom_read_sound [of r sha rom "()"]
    by (auto simp: event_memory_defs world_def)
next
  case (code m)
  then show ?thesis using assms memory_read_sound [of m sha mem "()"]
    by (auto simp: event_memory_defs world_def)
next
  case (data m)
  then show ?thesis using assms memory_read_sound [of m sha mem "()"]
    by (auto simp: event_memory_defs world_def)
next
  case (store_merkle w root)
  then show ?thesis using assms memory_write_sound [of w sha mem root]
    by (auto simp: event_memory_defs world_def)
qed (auto simp: event_memory_defs world_def)

lemma bus_trace_world:
  assumes "bus_trace sha Auth_Merkle s es s'" "world sha rom mem s"
    "\<forall>w \<in> set (concat (map event_witness es)). witness_wf w"
  shows "(events_truthful rom mem es \<and> world sha rom (events_apply es mem) s') \<or> events_collide sha rom mem es"
  using assms
proof (induction arbitrary: mem rule: bus_trace.induct)
  case (quiet s s')
  then show ?case by (simp add: events_apply_def world_silent)
next
  case (event s s1 e s2 es s3)
  then have "world sha rom mem s1" by (simp add: world_silent)
  from bus_step_world [OF event.hyps(2) this] event.prems(2) consider
    "event_truthful rom mem e" "world sha rom (event_apply e mem) s2" | "event_collides sha rom mem e" by auto
  then show ?case
    using event.IH [of "event_apply e mem"] event.prems(2) by cases (auto simp: events_apply_def)
qed

section \<open>Logs, mapper and fixed fields\<close>

fun event_input :: "bus_event \<Rightarrow> u8 list" where
  "event_input (Ev_InputRead i v) = [v]"
| "event_input (Ev_DmgJoypadRead i bb b v) = [b]"
| "event_input _ = []"

fun event_output :: "bus_event \<Rightarrow> u8 list" where
  "event_output (Ev_OutputWrite i v) = [v]"
| "event_output _ = []"

fun event_mapper :: "mbc3_cartridge_profile \<Rightarrow> bus_event \<Rightarrow> mbc3_state \<Rightarrow> mbc3_state" where
  "event_mapper p (Ev_Mbc3ControlWrite a v) m = apply_control_write_for p a v m"
| "event_mapper p _ m = m"

lemma bus_step_logs:
  assumes "bus_step sha auth s e s'"
  shows "try_fold (log_append sha) (vm_input_log s) (event_input e) = Inr (vm_input_log s') \<and>
    try_fold (log_append sha) (vm_output_log s) (event_output e) = Inr (vm_output_log s') \<and>
    vm_mbc3 s' = event_mapper (cartridge_profile (vm_profile s)) e (vm_mbc3 s) \<and>
    vm_profile s' = vm_profile s \<and> vm_rom_root s' = vm_rom_root s \<and>
    vm_bus_transcript s' = vm_bus_transcript s \<and> vm_isa_transcript s' = vm_isa_transcript s"
  using assms by cases auto

lemma bus_trace_logs:
  assumes "bus_trace sha auth s es s'"
  shows "try_fold (log_append sha) (vm_input_log s) (concat (map event_input es)) = Inr (vm_input_log s') \<and>
    try_fold (log_append sha) (vm_output_log s) (concat (map event_output es)) = Inr (vm_output_log s') \<and>
    vm_mbc3 s' = fold (event_mapper (cartridge_profile (vm_profile s))) es (vm_mbc3 s) \<and>
    vm_profile s' = vm_profile s \<and> vm_rom_root s' = vm_rom_root s \<and>
    vm_bus_transcript s' = vm_bus_transcript s \<and> vm_isa_transcript s' = vm_isa_transcript s"
  using assms
proof (induction rule: bus_trace.induct)
  case (event s s1 e s2 es s3)
  then show ?case
    using bus_step_logs [OF event.hyps(2)] by (simp add: silentD [OF event.hyps(1)] try_fold_append)
qed (simp add: silentD)

text \<open>Under lookup authentication the memory root never moves.\<close>

lemma bus_trace_lookup: "bus_trace sha Auth_Lookup s es s' \<Longrightarrow> vm_memory_root s' = vm_memory_root s"
  by (induction rule: bus_trace.induct) (auto elim!: bus_step.cases simp: silentD)

end
