(* ===== verification/Step_Invariant.thy ===== *)
theory Step_Invariant
  imports Steps
begin

text \<open>
  The VM invariant over whole steps: bus events, instruction semantics, timing, DMA scheduling
  and machine events keep \<open>vm_wf\<close>, and an active DMA is only ever ended by its last byte.
\<close>

definition wf_kept :: "executor \<Rightarrow> executor \<Rightarrow> bool" where
  "wf_kept x x' \<longleftrightarrow>
     (vm_wf (ex_state x) \<longrightarrow> vm_wf (ex_state x')) \<and>
     (dma_active (vm_dmg_devices (ex_state x)) \<longrightarrow> dma_active (vm_dmg_devices (ex_state x')))"

lemma vm_wf_simps [simp]:
  "vm_wf (s\<lparr>vm_memory_root := r\<rparr>) = vm_wf s" "vm_wf (s\<lparr>vm_bus_transcript := bt\<rparr>) = vm_wf s"
  "vm_wf (s\<lparr>vm_isa_transcript := it\<rparr>) = vm_wf s"
  by (simp_all add: vm_wf_def)

lemma bus_step_wf:
  assumes "bus_step sha auth s e s'" "vm_wf s"
  shows "vm_wf s'"
  using assms
proof cases
  case (joypad b l i v d bb)
  then have "dmg_wf d" using assms(2) sample_joypad_wf [of "vm_dmg_devices s" b] by (simp add: vm_wf_def)
  with joypad assms(2) show ?thesis by (auto simp: vm_wf_def dest: log_append_step)
next
  case (mmio_write a v b d)
  then have "dmg_wf d" using assms(2) dmg.wr_wf by (auto simp: vm_wf_def)
  with mmio_write assms(2) show ?thesis by (simp add: vm_wf_def)
next
  case (control a v)
  then show ?thesis using assms(2) control_write_wf by (simp add: vm_wf_def)
qed (auto simp: vm_wf_def dest: log_append_step)

lemma bus_step_active:
  "bus_step sha auth s e s' \<Longrightarrow> dma_active (vm_dmg_devices s) \<Longrightarrow> dma_active (vm_dmg_devices s')"
  by (erule bus_step.cases) (auto dest: write_mmio_active sample_joypad_active)

interpretation invariant: machine_frame wf_kept "\<lambda>e. \<not> internal_error e" sha for sha
proof
  fix f :: "cpu_state \<Rightarrow> cpu_state" and x assume "cpu_safe f"
  then show "wf_kept x (update_cpu f x)"
    by (simp add: wf_kept_def vm_wf_def cpu_safe_def update_cpu_def update_state_def)
next
  fix f :: "dmg_device_state \<Rightarrow> dmg_device_state" and x assume "device_safe f"
  then show "wf_kept x (update_devices f x)"
    by (simp add: wf_kept_def vm_wf_def device_safe_def update_devices_def update_state_def)
qed (auto simp: wf_kept_def exec_step_def vm_wf_def update_cpu_def update_state_def
    dest: bus_step_wf [unfolded vm_wf_def] bus_step_active)

section \<open>DMA bookkeeping\<close>

lemma schedule_wf:
  "vm_wf (ex_state x) \<Longrightarrow> d \<longrightarrow> dma_active (vm_dmg_devices (ex_state x)) \<Longrightarrow>
     vm_wf (ex_state (update_devices (schedule_dma_bytes c d) x))"
  by (simp add: vm_wf_def update_devices_def update_state_def schedule_dma_wf)

lemma add_timing_wf:
  assumes "add_timing i b d x = Inr (u, x')" "vm_wf (ex_state x)" "d \<longrightarrow> dma_active (vm_dmg_devices (ex_state x))"
  shows "vm_wf (ex_state x')"
proof -
  obtain x1 where x1: "add_m_cycles (ucast (step_increment i b)) x = Inr ((), x1)"
    and x': "x' = update_devices (schedule_dma_bytes (step_increment i b) d)
      (update_devices (advance_m_cycles (step_increment i b)) x1)"
    using assms(1) by (auto simp: add_timing_def Let_def exec_Inr)
  have "wf_kept x (update_devices (advance_m_cycles (step_increment i b)) x1)"
    using invariant.R_trans ekeepsD(1) [OF invariant.keeps_add_cycles x1]
      invariant.device_update [OF device_safe_rules(2)] by blast
  with assms show ?thesis by (auto simp: x' wf_kept_def intro: schedule_wf)
qed

lemma add_machine_timing_wf:
  assumes "add_machine_timing c x = Inr (u, x')" "vm_wf (ex_state x)"
  shows "vm_wf (ex_state x')"
proof -
  let ?d = "dma_active (vm_dmg_devices (ex_state x))"
  obtain x1 where x1: "add_m_cycles (ucast c) x = Inr ((), x1)"
    and x': "x' = update_devices (schedule_dma_bytes c ?d) (update_devices (advance_m_cycles c) x1)"
    using assms(1) by (auto simp: add_machine_timing_def Let_def exec_Inr)
  have "wf_kept x (update_devices (advance_m_cycles c) x1)"
    using invariant.R_trans ekeepsD(1) [OF invariant.keeps_add_cycles x1]
      invariant.device_update [OF device_safe_rules(2)] by blast
  with assms show ?thesis by (auto simp: x' wf_kept_def intro: schedule_wf)
qed

lemma wf_cpu: "cpu_safe f \<Longrightarrow> vm_wf (ex_state x) \<Longrightarrow> vm_wf (ex_state (update_cpu f x))"
  using invariant.cpu_update [of f x] by (simp add: wf_kept_def)

lemma step_program_wf:
  assumes "step_program sha s x = Inr (r, x')" "ex_state x = s" "vm_wf s"
  shows "vm_wf (ex_state x')"
proof -
  obtain i b x1 x2 where x1: "step_execute sha s x = Inr ((i, b), x1)"
    and x2: "add_timing i b (dma_active (vm_dmg_devices s)) x1 = Inr ((), x2)"
    and x': "x' = x2 \<or> x' = update_cpu (\<lambda>c. c\<lparr>cpu_run_state := HaltBug\<rparr>) x2"
    using assms(1) by (auto simp: step_program_def exec_Inr modify_cpu_def split: if_splits)
  have "wf_kept x x1" using ekeepsD(1) [OF invariant.keeps_step_execute x1] .
  then have "vm_wf (ex_state x2)"
    using add_timing_wf [OF x2] assms by (simp add: wf_kept_def)
  with x' show ?thesis by (auto intro: wf_cpu)
qed

lemma dma_source_state: "dma_source_byte sha a x = Inr (v, x') \<Longrightarrow> ex_state x' = ex_state x"
  by (auto simp: dma_source_byte_def push_event_def exec_Inr take_rom_read_Inr take_memory_read_Inr
      split: address_owner.splits mbc3_external_window.splits if_splits)

lemma dma_write_state:
  "dma_write_byte sha a v x = Inr (u, x') \<Longrightarrow> \<exists>r. ex_state x' = (ex_state x)\<lparr>vm_memory_root := r\<rparr>"
  by (cases "ex_state x")
     (auto simp: dma_write_byte_def push_event_def exec_Inr take_memory_write_Inr commit_write_Inr
      split: if_splits)

lemma copy_dma_wf:
  assumes "copy_dma_byte sha x = Inr (u, x')" "vm_wf (ex_state x)" "dma_owed (vm_dmg_devices (ex_state x)) \<noteq> 0"
  shows "vm_wf (ex_state x')"
proof -
  let ?d = "vm_dmg_devices (ex_state x)"
  obtain v x1 x2 where x1: "dma_source_byte sha (dma_source_address ?d) x = Inr (v, x1)"
    and x2: "dma_write_byte sha (dma_destination_address ?d) v x1 = Inr ((), x2)"
    and x': "x' = update_devices complete_dma_byte x2"
    using assms(1) by (auto simp: copy_dma_byte_def Let_def exec_Inr split: if_splits)
  have "vm_wf (ex_state x2)" "vm_dmg_devices (ex_state x2) = ?d"
    using dma_write_state [OF x2] assms(2) by (auto simp: dma_source_state [OF x1])
  with assms show ?thesis
    by (auto simp: x' vm_wf_def update_devices_def update_state_def intro: complete_dma_wf)
qed

lemma halt_skip_wf:
  assumes "ethen (add_m_cycles n) (emodify (update_devices (advance_quiet_long m))) x = Inr (u, x')"
    "vm_wf (ex_state x)"
  shows "vm_wf (ex_state x')"
proof -
  have "ekeeps wf_kept (\<lambda>e. \<not> internal_error e) (ethen (add_m_cycles n) (emodify (update_devices (advance_quiet_long m))))"
    by (intro invariant.keeps_then invariant.keeps_add_cycles invariant.keeps_devices device_safe_rules)
  from ekeepsD(1) [OF this assms(1)] assms(2) show ?thesis by (simp add: wf_kept_def)
qed

lemma interrupt_wf:
  assumes "interrupt_program sha who x = Inr (u, x')" "vm_wf (ex_state x)"
  shows "vm_wf (ex_state x')"
proof -
  obtain x1 where "interrupt_entry sha who x = Inr ((), x1)" "add_machine_timing 5 x1 = Inr (u, x')"
    using assms(1) by (auto simp: interrupt_program_def exec_Inr)
  then show ?thesis
    using ekeepsD(1) [OF invariant.keeps_interrupt_entry] add_machine_timing_wf assms(2)
    unfolding wf_kept_def by blast
qed

section \<open>Steps\<close>

lemma machine_body_Inr: "machine_body m kind marker x = Inr (r, x') \<Longrightarrow> \<exists>u. m x = Inr (u, x')"
  by (auto simp: machine_body_def exec_Inr)

lemma advance_halt_quiet:
  "advance_halt_until_vblank n = advance_quiet_long (ucast n)"
  "advance_halt_until_serial n = advance_quiet_long (ucast n)"
  "advance_halt_until_timer t = advance_quiet_long t"
  by (rule ext; simp add: advance_halt_until_vblank_def advance_halt_until_serial_def advance_halt_until_timer_def)+

lemma event_body_wf:
  assumes "event_body sha s e x = Inr (r, x')" "vm_wf (ex_state x)"
  shows "vm_wf (ex_state x')"
  using assms
  by (cases e)
     (auto dest!: machine_body_Inr simp: advance_halt_quiet modify_cpu_def
       intro: interrupt_wf add_machine_timing_wf halt_skip_wf wf_cpu [OF cpu_safe_rules(6)])

lemma step_body_wf:
  assumes "step_body sha s x = Inr (r, x')" "ex_state x = s" "vm_wf s"
  shows "vm_wf (ex_state x')"
proof -
  have "vm_wf (ex_state x')" if "instruction_body sha s x = Inr (r, x')"
    using that assms step_program_wf by (auto simp: instruction_body_def exec_Inr split: if_splits)
  then show ?thesis
    using assms by (auto simp: step_body_def dest!: machine_body_Inr intro: copy_dma_wf event_body_wf
        split: if_splits sum.splits option.splits)
qed

lemma apply_step_wf:
  assumes "apply_step sha s input auth = Inr (s', eff)" "vm_wf s"
  shows "vm_wf s'"
proof -
  obtain x where x: "step_body sha s (executor_new s input auth) =
      Inr ((eff_kind eff, eff_instruction eff, eff_branch_taken eff), x)"
    "finalize sha (eff_instruction eff) x = Inr (s', eff_bus_events eff)"
    using apply_step_trace [OF assms(1)] .
  have "vm_wf (ex_state x)"
    using step_body_wf [OF x(1)] assms(2) by (simp add: executor_new_def)
  with x(2) show ?thesis by (auto simp: finalize_Inr split: if_splits)
qed

end
