(* ===== verification/Step_Timing.thy ===== *)
theory Step_Timing
  imports Step_Invariant
begin

text \<open>
  Time: the checked M-cycle counter advances by exactly what the step kind prescribes, and
  nothing inside a step but its one timing update moves it.
\<close>

definition cycles_kept :: "executor \<Rightarrow> executor \<Rightarrow> bool" where
  "cycles_kept x x' \<longleftrightarrow> cpu_m_cycles (vm_cpu (ex_state x')) = cpu_m_cycles (vm_cpu (ex_state x))"

lemma bus_step_cpu: "bus_step sha auth s e s' \<Longrightarrow> vm_cpu s' = vm_cpu s"
  by (erule bus_step.cases) auto

interpretation timed: device_frame cycles_kept "\<lambda>e. \<not> internal_error e" sha for sha
  by unfold_locales
    (auto simp: cycles_kept_def exec_step_def update_cpu_def update_devices_def update_state_def cpu_safe_def
      dest: bus_step_cpu)

definition executor_cycles :: "executor \<Rightarrow> nat" where
  "executor_cycles x = unat (cpu_m_cycles (vm_cpu (ex_state x)))"

lemma cycles_kept_eq: "cycles_kept x x' \<Longrightarrow> executor_cycles x' = executor_cycles x"
  by (simp add: cycles_kept_def executor_cycles_def)

lemma executor_cycles_update [simp]:
  "executor_cycles (update_devices f x) = executor_cycles x"
  "executor_cycles (update_cpu (\<lambda>c. c\<lparr>cpu_run_state := r\<rparr>) x) = executor_cycles x"
  by (simp_all add: executor_cycles_def update_devices_def update_cpu_def update_state_def)

lemma add_m_cycles_exact:
  assumes "add_m_cycles n x = Inr (u, x')"
  shows "executor_cycles x' = executor_cycles x + unat n"
  using assms
  by (auto simp: add_m_cycles_def exec_Inr get_cpu_def modify_cpu_def update_cpu_def update_state_def
      executor_cycles_def checked_add_def unat_word_ariths split: if_splits)

lemma timing_exact:
  "add_timing i b d x = Inr (u, x') \<Longrightarrow> executor_cycles x' = executor_cycles x + unat (step_increment i b)"
  "add_machine_timing c x = Inr (u, x') \<Longrightarrow> executor_cycles x' = executor_cycles x + unat c"
  by (auto simp: add_timing_def add_machine_timing_def Let_def exec_Inr dest!: add_m_cycles_exact)

definition step_cycles :: "dmg_device_state \<Rightarrow> step_kind \<Rightarrow> decoded_instruction \<Rightarrow> bool \<Rightarrow> nat" where
  "step_cycles d kind i taken =
     (case kind of
        SK_Instruction \<Rightarrow> unat (step_increment i taken)
      | SK_HaltIdle \<Rightarrow> unat (halt_idle_m_cycles d)
      | SK_HaltUntilVBlank \<Rightarrow> unat (the (halt_until_vblank_m_cycles d))
      | SK_HaltUntilSerial \<Rightarrow> unat (the (halt_until_serial_m_cycles d))
      | SK_HaltUntilTimer \<Rightarrow> unat (the (halt_until_timer_m_cycles d))
      | SK_HaltWake \<Rightarrow> 0
      | SK_InterruptDispatch _ \<Rightarrow> 5
      | SK_DmaByte \<Rightarrow> 0)"

lemma step_program_cycles:
  assumes "step_program sha s x = Inr ((i, b), x')"
  shows "executor_cycles x' = executor_cycles x + unat (step_increment i b)"
proof -
  obtain x1 x2 where x1: "step_execute sha s x = Inr ((i, b), x1)"
    and x2: "add_timing i b (dma_active (vm_dmg_devices s)) x1 = Inr ((), x2)"
    and x': "x' = x2 \<or> x' = update_cpu (\<lambda>c. c\<lparr>cpu_run_state := HaltBug\<rparr>) x2"
    using assms by (auto simp: step_program_def exec_Inr modify_cpu_def split: if_splits)
  then show ?thesis
    using cycles_kept_eq [OF ekeepsD(1) [OF timed.keeps_step_execute x1]] timing_exact(1) [OF x2] by auto
qed

lemma interrupt_cycles:
  assumes "interrupt_program sha who x = Inr (u, x')"
  shows "executor_cycles x' = executor_cycles x + 5"
proof -
  obtain x1 where "interrupt_entry sha who x = Inr ((), x1)" "add_machine_timing 5 x1 = Inr (u, x')"
    using assms by (auto simp: interrupt_program_def exec_Inr)
  then show ?thesis
    using cycles_kept_eq [OF ekeepsD(1) [OF timed.keeps_interrupt_entry]] timing_exact(2) [of 5] by simp
qed

lemma copy_dma_cycles:
  assumes "copy_dma_byte sha x = Inr (u, x')"
  shows "executor_cycles x' = executor_cycles x"
  using assms
  by (auto simp: copy_dma_byte_def Let_def exec_Inr executor_cycles_def update_devices_def update_state_def
      dest!: dma_source_state dma_write_state split: if_splits)

lemma event_body_cycles:
  assumes "event_body sha s e x = Inr ((k, i, b), x')" "classify_dmg_machine_event s = Inr (Some e)"
  shows "executor_cycles x' = executor_cycles x + step_cycles (vm_dmg_devices s) k i b"
  using assms
  by (cases e)
     (auto simp: machine_body_def step_cycles_def exec_Inr modify_cpu_def classify_dmg_machine_event_def
       classify_halted_def Let_def
       dest!: interrupt_cycles add_m_cycles_exact timing_exact(2)
       split: run_state.splits option.splits if_splits)

lemma step_body_cycles:
  assumes "step_body sha s x = Inr ((k, i, b), x')"
  shows "executor_cycles x' = executor_cycles x + step_cycles (vm_dmg_devices s) k i b"
proof -
  have "executor_cycles x' = executor_cycles x + step_cycles (vm_dmg_devices s) k i b"
    if "instruction_body sha s x = Inr ((k, i, b), x')"
    using that step_program_cycles
    by (auto simp: instruction_body_def exec_Inr step_cycles_def split: if_splits)
  moreover have "executor_cycles x' = executor_cycles x + step_cycles (vm_dmg_devices s) k i b"
    if "machine_body (copy_dma_byte sha) SK_DmaByte 0x00 x = Inr ((k, i, b), x')"
    using that copy_dma_cycles by (auto simp: machine_body_def exec_Inr step_cycles_def)
  ultimately show ?thesis
    using assms event_body_cycles by (auto simp: step_body_def split: if_splits sum.splits option.splits)
qed

end
