(* ===== verification/Lookup_Refinement.thy ===== *)
theory Lookup_Refinement
  imports Steps
begin

text \<open>
  The two authentication modes: every step accepted under Merkle authentication is accepted by
  the lookup relation from any state that differs in the memory root and the transcripts only,
  with the same effects and again such a state.  The proof is a simulation carried through every
  program of the step by the \<open>esim\<close> rules.
\<close>

section \<open>The simulation relation\<close>

text \<open>What the lookup relation does not maintain: the memory root and the two transcripts.\<close>

definition same_machine :: "vm_state \<Rightarrow> vm_state \<Rightarrow> bool" where
  "same_machine s t \<longleftrightarrow>
     t = s\<lparr>vm_memory_root := vm_memory_root t, vm_bus_transcript := vm_bus_transcript t,
           vm_isa_transcript := vm_isa_transcript t\<rparr>"

definition lookup_sim :: "executor \<Rightarrow> executor \<Rightarrow> bool" where
  "lookup_sim x y \<longleftrightarrow>
     ex_authentication y = Auth_Lookup \<and> ex_witnesses y = ex_witnesses x \<and> ex_events y = ex_events x \<and>
     same_machine (ex_state x) (ex_state y)"

lemma same_machineD:
  assumes "same_machine s t"
  shows "vm_profile t = vm_profile s" "vm_cpu t = vm_cpu s" "vm_mbc3 t = vm_mbc3 s"
    "vm_dmg_devices t = vm_dmg_devices s" "vm_rom_root t = vm_rom_root s"
    "vm_input_log t = vm_input_log s" "vm_output_log t = vm_output_log s"
  using assms by (cases s; cases t; simp add: same_machine_def)+

lemma same_machine_update:
  "same_machine s t \<Longrightarrow> same_machine (s\<lparr>vm_cpu := c\<rparr>) (t\<lparr>vm_cpu := c\<rparr>)"
  "same_machine s t \<Longrightarrow> same_machine (s\<lparr>vm_dmg_devices := d\<rparr>) (t\<lparr>vm_dmg_devices := d\<rparr>)"
  "same_machine s t \<Longrightarrow> same_machine (s\<lparr>vm_mbc3 := b\<rparr>) (t\<lparr>vm_mbc3 := b\<rparr>)"
  "same_machine s t \<Longrightarrow> same_machine (s\<lparr>vm_input_log := l\<rparr>) (t\<lparr>vm_input_log := l\<rparr>)"
  "same_machine s t \<Longrightarrow> same_machine (s\<lparr>vm_output_log := l\<rparr>) (t\<lparr>vm_output_log := l\<rparr>)"
  "same_machine s t \<Longrightarrow> same_machine (s\<lparr>vm_memory_root := r\<rparr>) t"
  "same_machine s t \<Longrightarrow> same_machine (s\<lparr>vm_bus_transcript := bt, vm_isa_transcript := it\<rparr>) t"
  by (cases s; cases t; simp add: same_machine_def)+

lemma lookup_simD:
  assumes "lookup_sim x y"
  shows "vm_cpu (ex_state y) = vm_cpu (ex_state x)" "vm_profile (ex_state y) = vm_profile (ex_state x)"
    "vm_mbc3 (ex_state y) = vm_mbc3 (ex_state x)" "vm_dmg_devices (ex_state y) = vm_dmg_devices (ex_state x)"
    "vm_input_log (ex_state y) = vm_input_log (ex_state x)" "vm_output_log (ex_state y) = vm_output_log (ex_state x)"
    "ex_witnesses y = ex_witnesses x" "ex_events y = ex_events x" "ex_authentication y = Auth_Lookup"
    "same_machine (ex_state x) (ex_state y)"
  using assms by (simp_all add: lookup_sim_def same_machineD)

lemma lookup_sim_cpu: "lookup_sim x y \<Longrightarrow> lookup_sim (update_cpu f x) (update_cpu f y)"
  using same_machineD(2) [of "ex_state x" "ex_state y"]
  by (simp add: lookup_sim_def update_cpu_def update_state_def same_machine_update)

lemma lookup_sim_devices: "lookup_sim x y \<Longrightarrow> lookup_sim (update_devices f x) (update_devices f y)"
  using same_machineD(4) [of "ex_state x" "ex_state y"]
  by (simp add: lookup_sim_def update_devices_def update_state_def same_machine_update)

lemma esim_bind_gets:
  "(\<And>s t. S s t \<Longrightarrow> k (g s) = k (g t)) \<Longrightarrow> (\<And>v. esim S (k v)) \<Longrightarrow> esim S (ebind (egets g) k)"
  unfolding esim_def ebind_def by simp

section \<open>Primitives\<close>

abbreviation msim :: "'a ex \<Rightarrow> bool" where
  "msim \<equiv> esim lookup_sim"

lemma msim_cpu [simp]: "msim get_cpu" "msim (modify_cpu f)"
  by (auto simp: get_cpu_def modify_cpu_def intro!: esim_gets esim_modify lookup_sim_cpu dest: lookup_simD)

lemma msim_devices [simp]: "msim (emodify (update_devices f))"
  by (auto intro!: esim_modify lookup_sim_devices)

lemma msim_push [simp]: "msim (push_event e)"
  by (auto simp: push_event_def lookup_sim_def intro!: esim_modify)

lemma msim_take:
  "msim (take_rom_read sha a p role)" "msim (take_memory_read sha a p role)" "msim (take_memory_write a p v)"
  by (auto simp: esim_def take_rom_read_Inr take_memory_read_Inr take_memory_write_Inr lookup_sim_def)

lemma msim_commit: "msim (commit_write sha w)"
  by (auto simp: esim_def commit_write_Inr lookup_sim_def same_machine_update split: if_splits)

lemma msim_next_witness: "msim (next_witness q)"
  by (auto simp: esim_def next_witness_Inr lookup_sim_def)

lemma msim_fetch: "msim (fetch sha a role)"
  unfolding fetch_def
  by (rule esim_bind [OF esim_gets])
     (auto simp: lookup_simD intro!: esim_intros msim_take split: bus_role.split)

lemma msim_memory:
  "msim (read_memory sha a p)" "msim (read_instruction_memory sha a role)" "msim (write_memory sha a p v)"
  by (auto simp: read_memory_def read_instruction_memory_def write_memory_def
      intro!: esim_intros msim_take msim_commit split: bus_role.split)

lemma msim_log:
  "msim (emodify (update_state (\<lambda>s. s\<lparr>vm_input_log := l\<rparr>)))" "msim (emodify (update_state (\<lambda>s. s\<lparr>vm_output_log := l\<rparr>)))"
  by (auto simp: update_state_def lookup_sim_def same_machine_update intro!: esim_modify)

lemma msim_gets:
  "msim (egets (\<lambda>x. vm_input_log (ex_state x)))" "msim (egets (\<lambda>x. vm_output_log (ex_state x)))"
  "msim (egets (\<lambda>x. vm_dmg_devices (ex_state x)))" "msim (egets (\<lambda>x. dma_active (vm_dmg_devices (ex_state x))))"
  by (auto intro!: esim_gets simp: lookup_simD)

lemma msim_ports: "msim (read_input sha)" "msim (write_output sha v)" "msim (read_dmg_joypad sha)"
  by (auto simp: read_input_def write_output_def read_dmg_joypad_def Let_def case_prod_unfold
      intro!: esim_intros msim_next_witness msim_gets msim_log split: bus_witness.split)

lemma msim_mmio: "msim (read_dmg_mmio a)" "msim (write_dmg_mmio a v)"
  by (auto simp: read_dmg_mmio_def write_dmg_mmio_def intro!: esim_intros msim_gets)

lemma msim_mapper: "msim (control_write a v)" "msim (open_bus_read a)"
  by (auto simp: control_write_def open_bus_read_def update_state_def lookup_sim_def same_machineD
      intro!: esim_intros esim_modify same_machine_update)

lemmas msim_primitives = msim_fetch msim_memory msim_ports msim_mmio msim_mapper msim_take msim_commit

section \<open>Accesses and instructions\<close>

lemma state_owner_sim: "lookup_sim x y \<Longrightarrow> state_owner (ex_state y) a = state_owner (ex_state x) a"
  by (simp add: state_owner_def lookup_simD)

lemma msim_guards: "msim (require_cpu_dma_access a)" "msim (require_cpu_ppu_access a)"
  unfolding require_cpu_dma_access_def require_cpu_ppu_access_def
  by (rule esim_bind_gets; auto simp: lookup_simD Let_def intro!: esim_intros)+

lemma msim_fetch_instruction: "msim (fetch_instruction sha a role)"
  unfolding fetch_instruction_def
  by (intro esim_then msim_guards esim_bind [OF esim_gets])
     (auto simp: state_owner_sim intro!: esim_intros msim_primitives split: address_owner.split)

lemma msim_data: "msim (read_data sha a)" "msim (write_data sha a v)"
  unfolding read_data_def write_data_def
  by (intro esim_then msim_guards esim_bind_gets;
      auto simp: lookup_simD state_owner_sim intro!: esim_intros msim_primitives
        split: address_owner.split mbc3_external_window.split)+

lemma msim_dma: "msim (dma_source_byte sha a)" "msim (dma_write_byte sha a v)"
proof -
  show "msim (dma_source_byte sha a)"
    unfolding dma_source_byte_def
    by (rule esim_bind_gets)
       (auto simp: lookup_simD state_owner_sim intro!: esim_intros msim_primitives
         split: address_owner.split mbc3_external_window.split)
  show "msim (dma_write_byte sha a v)"
    by (auto simp: dma_write_byte_def intro!: esim_intros msim_primitives)
qed

lemma msim_registers:
  "msim (register8_ex r)" "msim (register16_ex q)" "msim (set_register8 r b)" "msim (set_register16 q w)"
  "msim (stack_register sr)" "msim (branch_condition c)" "msim (indirect_address_of i)"
  by (auto simp: register8_ex_def register16_ex_def set_register8_def set_register16_def stack_register_def
      branch_condition_def indirect_address_of_def intro!: esim_intros)

lemma msim_operands:
  "msim (set_stack_register sr w)" "msim (update_hl_after_indirect i)" "msim (read_operand sha opd imm)"
  "msim (write_operand sha opd v)" "msim (transfer_accumulator sha a d)"
  by (cases sr; cases i; cases opd; cases d; auto intro!: esim_intros msim_registers msim_data)+

lemma msim_words:
  "msim (push_word sha w)" "msim (pop_word sha)" "msim (store_sp_absolute sha a)" "msim (push_interrupt_return sha w)"
  by (auto simp: push_word_def pop_word_def store_sp_absolute_def push_interrupt_return_def Let_def
      intro!: esim_intros msim_data)

lemmas msim_parts = msim_registers msim_operands msim_words

lemma msim_update_operand: "msim (update_operand sha opd imm f)"
  by (auto simp: update_operand_def Let_def intro!: esim_intros msim_parts)

lemma msim_execute: "msim (execute sha i imm)"
  by (auto simp: execute_def execute_defs Let_def case_prod_unfold
      intro!: esim_intros msim_parts msim_update_operand
      split: instruction_class.split operation.split cb_operation.split)

section \<open>Steps\<close>

lemma msim_fetching: "msim (fetch_and_advance sha role)" "msim (fetch_first_opcode sha b)"
  by (auto simp: fetch_and_advance_def fetch_first_opcode_def intro!: esim_intros msim_fetch_instruction)

lemma msim_immediates: "msim (fetch_immediate_loop sha n imm)"
  by (induction n arbitrary: imm) (auto intro!: esim_intros msim_fetching)

lemma msim_decode: "msim (decode_fetched sha opcode)"
  by (auto simp: decode_fetched_def fetch_immediates_def intro!: esim_intros msim_fetching msim_immediates
      split: opcode_classification.split)

lemma msim_timing: "msim (add_m_cycles n)" "msim (add_timing i b d)" "msim (add_machine_timing c)"
  by (auto simp: add_m_cycles_def add_timing_def add_machine_timing_def Let_def intro!: esim_intros msim_gets)

lemma msim_step_program: "msim (step_program sha s)"
  by (auto simp: step_program_def step_execute_def apply_delayed_ime_def
      intro!: esim_intros msim_fetching msim_decode msim_execute msim_timing)

lemma msim_machine_body: "msim m \<Longrightarrow> msim (machine_body m kind marker)"
  by (auto simp: machine_body_def intro!: esim_intros)

lemma msim_copy_dma: "msim (copy_dma_byte sha)"
  by (auto simp: copy_dma_byte_def Let_def intro!: esim_intros msim_gets msim_dma)

lemma msim_step_body: "msim (step_body sha s)"
proof -
  have "msim (event_body sha s e)" for e
    by (cases e)
       (auto simp: interrupt_program_def interrupt_entry_def
         intro!: msim_machine_body esim_intros msim_timing msim_words)
  moreover have "msim (instruction_body sha s)"
    by (auto simp: instruction_body_def intro!: esim_intros msim_step_program)
  ultimately show ?thesis
    by (auto simp: step_body_def intro!: msim_machine_body msim_copy_dma esim_throw split: sum.split option.split)
qed

text \<open>The program of a step reads the state only through what both modes maintain.\<close>

lemma step_body_cong:
  assumes "same_machine s t"
  shows "step_body sha t = step_body sha s"
proof -
  note same = same_machineD [OF assms]
  have "event_body sha t e = event_body sha s e" for e by (cases e) (simp_all add: same)
  moreover have "classify_dmg_machine_event t = classify_dmg_machine_event s"
    unfolding classify_dmg_machine_event_def same ..
  moreover have "step_program sha t = step_program sha s"
    by (simp add: step_program_def step_execute_def same)
  then have "instruction_body sha t = instruction_body sha s" by (simp add: instruction_body_def same)
  ultimately show ?thesis by (simp add: step_body_def same split: sum.split option.split)
qed

lemma lookup_simulates:
  assumes "apply_step sha s input Auth_Merkle = Inr (s', eff)" "same_machine s t"
  shows "\<exists>t'. apply_step sha t input Auth_Lookup = Inr (t', eff) \<and> same_machine s' t'"
proof -
  obtain x where x: "step_body sha s (executor_new s input Auth_Merkle) =
      Inr ((eff_kind eff, eff_instruction eff, eff_branch_taken eff), x)"
    "ex_authentication x = Auth_Merkle" "ex_events x = eff_bus_events eff" "ex_witnesses x = []"
    "finalize sha (eff_instruction eff) x = Inr (s', eff_bus_events eff)"
    using apply_step_trace [OF assms(1)] .
  have "lookup_sim (executor_new s input Auth_Merkle) (executor_new t input Auth_Lookup)"
    using assms(2) by (simp add: lookup_sim_def executor_new_def)
  with esimD [OF msim_step_body this x(1)] obtain y where
    y: "step_body sha t (executor_new t input Auth_Lookup) =
      Inr ((eff_kind eff, eff_instruction eff, eff_branch_taken eff), y)" and sim: "lookup_sim x y"
    using step_body_cong [OF assms(2)] by auto
  have "finalize sha (eff_instruction eff) y = Inr (ex_state y, eff_bus_events eff)"
    using sim x(3,4) by (simp add: finalize_Inr lookup_sim_def)
  moreover have "same_machine s' (ex_state y)"
    using x(2,5) sim by (auto simp: finalize_Inr lookup_sim_def same_machine_update)
  ultimately show ?thesis using y by (simp add: apply_step_body complete_step_def)
qed

end
