(* ===== verification/Event_Counts.thy ===== *)
theory Event_Counts
  imports Steps
begin

text \<open>
  The bus accesses of an instruction are exactly the ones its metadata declares.  Events are
  weighed by class; a weight is additive over a program, and comparing total weights for
  arbitrary weights compares the four counts at once.
\<close>

section \<open>Weights\<close>

definition event_weight :: "nat \<Rightarrow> nat \<Rightarrow> nat \<Rightarrow> nat \<Rightarrow> nat \<Rightarrow> bus_event \<Rightarrow> nat" where
  "event_weight wx wo wi wr ww e =
     (if is_opcode_fetch e then wo else if is_immediate_read e then wi
      else if is_data_read e then wr else if is_data_write e then ww else wx)"

lemma event_weight_class:
  "is_opcode_fetch e \<Longrightarrow> event_weight wx wo wi wr ww e = wo" "is_immediate_read e \<Longrightarrow> event_weight wx wo wi wr ww e = wi"
  "is_data_read e \<Longrightarrow> event_weight wx wo wi wr ww e = wr" "is_data_write e \<Longrightarrow> event_weight wx wo wi wr ww e = ww"
  by (cases e; simp add: event_weight_def)+

definition issues :: "(bus_event \<Rightarrow> nat) \<Rightarrow> 'a ex \<Rightarrow> ('a \<Rightarrow> nat) \<Rightarrow> bool" where
  "issues w m n \<longleftrightarrow>
     (\<forall>x v x'. m x = Inr (v, x') \<longrightarrow> (\<exists>es. ex_events x' = ex_events x @ es \<and> sum_list (map w es) = n v))"

lemma issues_ret: "n v = 0 \<Longrightarrow> issues w (eret v) n"
  by (simp add: issues_def)

lemma issues_gets: "issues w (egets f) (\<lambda>_. 0)"
  by (simp add: issues_def)

lemma issues_lift: "issues w (elift r) (\<lambda>_. 0)"
  by (simp add: issues_def elift_Inr)

lemma issues_throw: "issues w (ethrow e) n"
  by (simp add: issues_def)

lemma issues_modify: "(\<And>x. ex_events (f x) = ex_events x) \<Longrightarrow> issues w (emodify f) (\<lambda>_. 0)"
  by (simp add: issues_def)

lemma issues_bind:
  assumes "issues w m (\<lambda>_. a)" "\<And>v. issues w (f v) (\<lambda>r. n r - a)" "\<And>r. a \<le> n r"
  shows "issues w (ebind m f) n"
  unfolding issues_def ebind_Inr
proof (intro allI impI, elim exE conjE)
  fix x v x' y z assume "m x = Inr (y, z)" "f y z = Inr (v, x')"
  then obtain es fs where "ex_events z = ex_events x @ es" "sum_list (map w es) = a"
    "ex_events x' = ex_events z @ fs" "sum_list (map w fs) = n v - a"
    using assms(1,2) unfolding issues_def by metis
  with assms(3) [of v] show "\<exists>es. ex_events x' = ex_events x @ es \<and> sum_list (map w es) = n v"
    by (intro exI [of _ "es @ fs"]) simp
qed

lemma issues_zero: "issues w m (\<lambda>_. 0) \<Longrightarrow> (\<And>v. issues w (f v) n) \<Longrightarrow> issues w (ebind m f) n"
  by (rule issues_bind [where a = 0]) simp_all

lemma issues_then_zero: "issues w m (\<lambda>_. 0) \<Longrightarrow> issues w k n \<Longrightarrow> issues w (ethen m k) n"
  by (simp add: ethen_def issues_zero)

text \<open>A program whose only accesses come first, then one that has none.\<close>

lemma issues_first: "issues w m (\<lambda>_. a) \<Longrightarrow> (\<And>v. issues w (f v) (\<lambda>_. 0)) \<Longrightarrow> issues w (ebind m f) (\<lambda>_. a)"
  by (rule issues_bind [where a = a]) simp_all

lemma issues_then_first: "issues w m (\<lambda>_. a) \<Longrightarrow> issues w k (\<lambda>_. 0) \<Longrightarrow> issues w (ethen m k) (\<lambda>_. a)"
  by (simp add: ethen_def issues_first)

lemma issues_plus:
  "issues w m (\<lambda>_. a) \<Longrightarrow> (\<And>v. issues w (f v) (\<lambda>_. b)) \<Longrightarrow> issues w (ebind m f) (\<lambda>_. a + b)"
  by (rule issues_bind [where a = a]) simp_all

lemma issues_then_plus: "issues w m (\<lambda>_. a) \<Longrightarrow> issues w k (\<lambda>_. b) \<Longrightarrow> issues w (ethen m k) (\<lambda>_. a + b)"
  by (simp add: ethen_def issues_plus)

lemma issues_when: "issues w m (\<lambda>_. a) \<Longrightarrow> issues w (ewhen b m) (\<lambda>_. if b then a else 0)"
  by (simp add: ewhen_def issues_ret)

lemma issues_performs:
  assumes "\<And>x. performs sha P m x" "\<And>v e. P v e \<Longrightarrow> w e = a"
  shows "issues w m (\<lambda>_. a)"
  unfolding issues_def
proof (intro allI impI)
  fix x v x' assume "m x = Inr (v, x')"
  then obtain e where "exec_step sha x e x'" "P v e" using assms(1) [of x] by (auto simp: performs_def)
  then show "\<exists>es. ex_events x' = ex_events x @ es \<and> sum_list (map w es) = a"
    using assms(2) by (intro exI [of _ "[e]"]) (simp add: exec_step_def)
qed

lemma issues_cong: "issues w m n \<Longrightarrow> (\<And>v. n v = n' v) \<Longrightarrow> issues w m n'"
  by (metis (no_types, lifting) issues_def)

section \<open>Accesses\<close>

lemma push_event_issues: "issues w (push_event e) (\<lambda>_. w e)"
  by (simp add: issues_def push_event_def)

lemma data_issues:
  "issues (event_weight wx wo wi wr ww) (read_data sha a) (\<lambda>_. wr)"
  "issues (event_weight wx wo wi wr ww) (write_data sha a v) (\<lambda>_. ww)"
  by (rule issues_performs [OF read_data_performs] issues_performs [OF write_data_performs];
      simp add: event_weight_class)+

lemma fetch_issues:
  "issues (event_weight wx wo wi wr ww) (fetch_instruction sha a Role_OpcodeFetch) (\<lambda>_. wo)"
  "issues (event_weight wx wo wi wr ww) (fetch_instruction sha a Role_ImmediateRead) (\<lambda>_. wi)"
  by (rule issues_performs [OF fetch_instruction_performs]; simp add: event_weight_class)+

lemma cpu_issues [simp]:
  "issues w get_cpu (\<lambda>_. 0)" "issues w (modify_cpu f) (\<lambda>_. 0)" "issues w (emodify (update_devices g)) (\<lambda>_. 0)"
  "issues w (register8_ex r) (\<lambda>_. 0)" "issues w (register16_ex q) (\<lambda>_. 0)" "issues w (set_register8 r b) (\<lambda>_. 0)"
  "issues w (set_register16 q v) (\<lambda>_. 0)" "issues w (stack_register sr) (\<lambda>_. 0)"
  "issues w (indirect_address_of i) (\<lambda>_. 0)" "issues w (branch_condition c) (\<lambda>_. 0)"
  "issues w (set_stack_register sr v) (\<lambda>_. 0)" "issues w (update_hl_after_indirect i) (\<lambda>_. 0)"
proof -
  show m: "issues w (modify_cpu f) (\<lambda>_. 0)" for f
    by (auto simp: modify_cpu_def update_cpu_def update_state_def intro!: issues_modify)
  show g: "issues w get_cpu (\<lambda>_. 0)" by (simp add: get_cpu_def issues_gets)
  show r: "issues w (register16_ex q) (\<lambda>_. 0)" for q by (simp add: register16_ex_def issues_zero g issues_ret)
  show s: "issues w (set_register16 q v) (\<lambda>_. 0)" for q v by (simp add: set_register16_def m)
  show "issues w (emodify (update_devices g)) (\<lambda>_. 0)"
    by (auto simp: update_devices_def update_state_def intro!: issues_modify)
  show "issues w (register8_ex r) (\<lambda>_. 0)" "issues w (set_register8 r b) (\<lambda>_. 0)"
    "issues w (stack_register sr) (\<lambda>_. 0)" "issues w (indirect_address_of i) (\<lambda>_. 0)"
    "issues w (branch_condition c) (\<lambda>_. 0)"
    by (simp_all add: register8_ex_def set_register8_def stack_register_def indirect_address_of_def
        branch_condition_def issues_zero g r m issues_ret)
  show "issues w (set_stack_register sr v) (\<lambda>_. 0)"
    by (cases sr) (simp_all add: s m issues_then_zero issues_zero issues_lift)
  show "issues w (update_hl_after_indirect i) (\<lambda>_. 0)"
    by (cases i) (simp_all add: r s issues_zero issues_ret)
qed

lemma operand_issues:
  "issues (event_weight wx wo wi wr ww) (read_operand sha opd imm) (\<lambda>_. if opd = Opd_IndirectHl then wr else 0)"
  "issues (event_weight wx wo wi wr ww) (write_operand sha opd v) (\<lambda>_. if opd = Opd_IndirectHl then ww else 0)"
  by (cases opd; simp add: issues_zero issues_lift issues_throw data_issues)+

lemma transfer_issues:
  "issues (event_weight wx wo wi wr ww) (transfer_accumulator sha a d) (\<lambda>_. if d = Dir_IntoAccumulator then wr else ww)"
  by (cases d; simp add: issues_first issues_zero data_issues)

lemma word_issues:
  "issues (event_weight wx wo wi wr ww) (push_word sha v) (\<lambda>_. 2 * ww)"
  "issues (event_weight wx wo wi wr ww) (pop_word sha) (\<lambda>_. 2 * wr)"
  "issues (event_weight wx wo wi wr ww) (store_sp_absolute sha a) (\<lambda>_. 2 * ww)"
  unfolding push_word_def pop_word_def store_sp_absolute_def Let_def mult_2
  by (intro issues_zero issues_then_zero cpu_issues issues_then_plus issues_then_first issues_plus
      issues_first data_issues issues_ret refl)+

section \<open>Instructions\<close>

definition data_weight :: "nat \<Rightarrow> nat \<Rightarrow> operation \<Rightarrow> bool \<Rightarrow> nat" where
  "data_weight wr ww op taken =
     (case data_bus op of (dr, dw, tdr, tdw) \<Rightarrow>
        wr * unat dr + ww * unat dw + (if taken then wr * unat tdr + ww * unat tdw else 0))"

lemma issues_false: "issues w (eret v) (\<lambda>_. 0)"
  by (simp add: issues_ret)

lemma issues_throw_zero: "issues w (ethrow e) (\<lambda>_. 0)"
  by (rule issues_throw)

text \<open>Straight-line programs: the weights of the parts add up.\<close>

lemmas issues_parts = issues_plus issues_then_plus issues_false issues_lift issues_throw_zero cpu_issues
  operand_issues transfer_issues word_issues data_issues issues_when

lemma issues_branch:
  assumes "\<And>t. issues w (m t) (\<lambda>_. if t then a else 0)"
  shows "issues w (ebind (branch_condition c) (\<lambda>t. ethen (m t) (eret t))) (\<lambda>t. if t then a else 0)"
  unfolding issues_def
proof (intro allI impI)
  fix x v x' assume "ebind (branch_condition c) (\<lambda>t. ethen (m t) (eret t)) x = Inr (v, x')"
  then obtain u where "m v x = Inr (u, x')"
    by (auto simp: exec_Inr branch_condition_def get_cpu_def)
  with assms [of v] show "\<exists>es. ex_events x' = ex_events x @ es \<and> sum_list (map w es) = (if v then a else 0)"
    by (simp add: issues_def)
qed

lemma branch_condition_None [simp]: "ebind (branch_condition None) f = f True"
  by (rule ext) (simp add: branch_condition_def get_cpu_def exec_defs)

lemma data_weight_operand [simp]:
  "data_weight wr ww (Op_LoadAccumulatorIndirect a d) t = (if d = Dir_IntoAccumulator then wr else ww)"
  "data_weight wr ww (Op_HighImmediateLoad d) t = (if d = Dir_IntoAccumulator then wr else ww)"
  "data_weight wr ww (Op_HighCLoad d) t = (if d = Dir_IntoAccumulator then wr else ww)"
  "data_weight wr ww (Op_AbsoluteAccumulatorLoad d) t = (if d = Dir_IntoAccumulator then wr else ww)"
  "data_weight wr ww (Op_Load8Immediate opd) t = (if opd = Opd_IndirectHl then ww else 0)"
  "data_weight wr ww (Op_Increment8 opd) t = (if opd = Opd_IndirectHl then wr + ww else 0)"
  "data_weight wr ww (Op_Decrement8 opd) t = (if opd = Opd_IndirectHl then wr + ww else 0)"
  "data_weight wr ww (Op_Alu8 alu opd) t = (if opd = Opd_IndirectHl then wr else 0)"
  "data_weight wr ww (Op_Load8 opd' opd) t =
     (if opd' = Opd_IndirectHl then ww else if opd = Opd_IndirectHl then wr else 0)"
  by (cases d; cases opd; cases opd'; simp add: data_weight_def)+

lemma data_weight_branch [simp]:
  "data_weight wr ww (Op_Return c) t = (if c = None \<or> t then 2 * wr else 0)"
  "data_weight wr ww (Op_Call c) t = (if c = None \<or> t then 2 * ww else 0)"
  by (cases c; simp add: data_weight_def)+

lemma data_weight_cb [simp]:
  "data_weight wr ww (Op_Cb cb opd) t =
     (if opd = Opd_IndirectHl then wr + (case cb of Cb_TestBit _ \<Rightarrow> 0 | _ \<Rightarrow> ww) else 0)"
  by (cases opd; cases cb; simp add: data_weight_def)

lemma data_weight_fixed [simp]:
  "data_weight wr ww Op_Nop t = 0" "data_weight wr ww Op_StoreSpAbsolute t = 2 * ww" "data_weight wr ww Op_Stop t = 0"
  "data_weight wr ww (Op_RelativeJump c) t = 0" "data_weight wr ww (Op_Load16Immediate q) t = 0"
  "data_weight wr ww (Op_AddHl q) t = 0" "data_weight wr ww (Op_Increment16 q) t = 0"
  "data_weight wr ww (Op_Decrement16 q) t = 0" "data_weight wr ww (Op_RotateAccumulator cb) t = 0"
  "data_weight wr ww Op_DecimalAdjust t = 0" "data_weight wr ww Op_ComplementAccumulator t = 0"
  "data_weight wr ww Op_SetCarry t = 0" "data_weight wr ww Op_ComplementCarry t = 0" "data_weight wr ww Op_Halt t = 0"
  "data_weight wr ww Op_AddSpOffset t = 0" "data_weight wr ww Op_LoadHlSpOffset t = 0"
  "data_weight wr ww (Op_Pop sr) t = 2 * wr" "data_weight wr ww Op_ReturnFromInterrupt t = 2 * wr"
  "data_weight wr ww Op_JumpHl t = 0" "data_weight wr ww Op_LoadSpHl t = 0" "data_weight wr ww (Op_Jump c) t = 0"
  "data_weight wr ww Op_DisableInterrupts t = 0" "data_weight wr ww Op_EnableInterrupts t = 0"
  "data_weight wr ww (Op_Push sr) t = 2 * ww" "data_weight wr ww (Op_Restart b) t = 2 * ww"
  by (simp_all add: data_weight_def)

lemma load_issues:
  assumes "decodable_operation op" "instr_class op = Cls_Load" "op \<noteq> Op_Load8 Opd_IndirectHl Opd_IndirectHl"
  shows "issues (event_weight wx wo wi wr ww) (execute_load sha op imm) (data_weight wr ww op)"
  by (cases op; simp only: execute_load_def operation.simps Let_def case_prod_unfold; rule issues_cong;
      ((rule issues_parts)+)?; (use assms in \<open>auto split: cb_operation.splits\<close>)?)

lemma alu8_issues:
  assumes "decodable_operation op" "instr_class op = Cls_Alu8"
  shows "issues (event_weight wx wo wi wr ww) (execute_alu8 sha op imm) (data_weight wr ww op)"
  by (cases op; simp only: execute_alu8_def update_operand_def operation.simps Let_def case_prod_unfold; rule issues_cong;
      ((rule issues_parts)+)?; (use assms in \<open>auto split: cb_operation.splits\<close>)?)

lemma alu16_issues:
  assumes "decodable_operation op" "instr_class op = Cls_Alu16"
  shows "issues (event_weight wx wo wi wr ww) (execute_alu16 op imm) (data_weight wr ww op)"
  by (cases op; simp only: execute_alu16_def operation.simps Let_def case_prod_unfold; rule issues_cong;
      ((rule issues_parts)+)?; (use assms in \<open>auto split: cb_operation.splits\<close>)?)

lemma control_issues:
  assumes "decodable_operation op" "instr_class op \<in> {Cls_Control, Cls_Interrupt, Cls_LowPower}"
  shows "issues (event_weight wx wo wi wr ww) (execute_control op) (data_weight wr ww op)"
    "issues (event_weight wx wo wi wr ww) (execute_interrupt op) (data_weight wr ww op)"
    "issues (event_weight wx wo wi wr ww) (execute_low_power op imm) (data_weight wr ww op)"
  by (cases op; simp only: execute_control_def execute_interrupt_def execute_low_power_def operation.simps;
      rule issues_cong; ((rule issues_parts)+)?; (use assms in \<open>auto split: cb_operation.splits\<close>)?)+

lemma stack_issues:
  assumes "instr_class op = Cls_Stack"
  shows "issues (event_weight wx wo wi wr ww) (execute_stack sha op) (data_weight wr ww op)"
  by (cases op; simp only: execute_stack_def operation.simps; rule issues_cong;
      ((rule issues_parts)+)?; (use assms in \<open>auto split: cb_operation.splits\<close>)?)

lemma rotate_issues:
  assumes "instr_class op = Cls_RotateShift"
  shows "issues (event_weight wx wo wi wr ww) (execute_rotate sha op imm) (data_weight wr ww op)"
  by (cases op; simp only: execute_rotate_def operation.simps; rule issues_cong;
      ((rule issues_parts)+)?; (use assms in \<open>auto split: cb_operation.splits\<close>)?)

lemma bit_issues:
  assumes "instr_class op = Cls_Bit"
  shows "issues (event_weight wx wo wi wr ww) (execute_bit sha op imm) (data_weight wr ww op)"
proof (cases op)
  case (Op_Cb cb opd)
  show ?thesis unfolding Op_Cb execute_bit_def operation.simps
    by (cases cb; simp only: cb_operation.simps; rule issues_cong; ((rule issues_parts)+)?;
        (use assms Op_Cb in \<open>auto split: cb_operation.splits\<close>)?)
qed (use assms in \<open>simp_all split: cb_operation.splits\<close>)

lemma jump_issues:
  assumes "instr_class op = Cls_Jump"
  shows "issues (event_weight wx wo wi wr ww) (execute_jump op imm) (data_weight wr ww op)"
  by (cases op; simp only: execute_jump_def operation.simps; rule issues_cong;
      (rule issues_branch | (rule issues_parts)+)?; ((rule issues_parts)+)?;
      (use assms in \<open>auto split: cb_operation.splits\<close>)?)

lemma call_issues:
  assumes "instr_class op = Cls_CallReturn"
  shows "issues (event_weight wx wo wi wr ww) (execute_call_return sha op imm) (data_weight wr ww op)"
proof (cases op)
  case (Op_Call c)
  have body: "issues (event_weight wx wo wi wr ww) (ewhen t (ebind get_cpu (\<lambda>c. ethen (push_word sha (cpu_pc c))
      (ebind (elift (immediate_word imm)) (\<lambda>target. modify_cpu (\<lambda>c. c\<lparr>cpu_pc := target\<rparr>))))))
      (\<lambda>_. if t then 2 * ww else 0)" for t
    by (rule issues_cong, (rule issues_parts)+) simp
  show ?thesis
    using body [of True] issues_cong [OF issues_branch [OF body, of c], of "data_weight wr ww op"]
    by (cases c) (auto simp: Op_Call execute_call_return_def intro!: issues_cong [OF issues_then_first [OF _ issues_false]])
next
  case (Op_Return c)
  have body: "issues (event_weight wx wo wi wr ww) (ewhen t (ebind (pop_word sha)
      (\<lambda>target. modify_cpu (\<lambda>c. c\<lparr>cpu_pc := target\<rparr>)))) (\<lambda>_. if t then 2 * wr else 0)" for t
    by (rule issues_cong, (rule issues_parts)+) simp
  show ?thesis
    using body [of True] issues_cong [OF issues_branch [OF body, of c], of "data_weight wr ww op"]
    by (cases c) (auto simp: Op_Return execute_call_return_def intro!: issues_cong [OF issues_then_first [OF _ issues_false]])
next
  case (Op_Restart v)
  show ?thesis unfolding Op_Restart execute_call_return_def operation.simps
    by (rule issues_cong, (rule issues_parts)+) simp
next
  case Op_ReturnFromInterrupt
  show ?thesis unfolding Op_ReturnFromInterrupt execute_call_return_def operation.simps
    by (rule issues_cong, (rule issues_parts)+) simp
qed (use assms in \<open>simp_all split: cb_operation.splits\<close>)

lemma execute_issues:
  assumes "di_class i = instr_class (di_operation i)" "decodable_operation (di_operation i)"
    "di_operation i \<noteq> Op_Load8 Opd_IndirectHl Opd_IndirectHl"
  shows "issues (event_weight wx wo wi wr ww) (execute sha i imm) (data_weight wr ww (di_operation i))"
  using assms load_issues [of "di_operation i" wx wo wi wr ww sha imm] alu8_issues [of "di_operation i" wx wo wi wr ww sha imm]
    alu16_issues [of "di_operation i" wx wo wi wr ww imm] rotate_issues [of "di_operation i" wx wo wi wr ww sha imm]
    bit_issues [of "di_operation i" wx wo wi wr ww sha imm] jump_issues [of "di_operation i" wx wo wi wr ww imm]
    call_issues [of "di_operation i" wx wo wi wr ww sha imm] stack_issues [of "di_operation i" wx wo wi wr ww sha]
    control_issues [of "di_operation i" wx wo wi wr ww]
  by (simp add: execute_def Let_def issues_throw split: instruction_class.split)

section \<open>Whole instructions\<close>

lemma no_memory_transfer:
  assumes "defined_instruction i"
  shows "di_operation i \<noteq> Op_Load8 Opd_IndirectHl Opd_IndirectHl"
proof -
  have "\<forall>b::u8. fst (decode_row b) \<noteq> Op_Load8 Opd_IndirectHl Opd_IndirectHl"
    unfolding all_u8 by code_simp
  then show ?thesis using assms by (auto elim!: defined_instructionE simp: decode_cb_def Let_def)
qed

definition instruction_weight :: "nat \<Rightarrow> nat \<Rightarrow> nat \<Rightarrow> nat \<Rightarrow> decoded_instruction \<Rightarrow> bool \<Rightarrow> nat" where
  "instruction_weight wo wi wr ww i taken =
     wo * unat (opcode_fetches (di_bus i)) + wi * unat (immediate_reads (di_bus i)) +
     wr * unat (data_reads (di_bus i)) + ww * unat (data_writes (di_bus i)) +
     (if taken then wr * unat (taken_data_reads (di_bus i)) + ww * unat (taken_data_writes (di_bus i)) else 0)"

lemma fetching_issues:
  "issues (event_weight wx wo wi wr ww) (fetch_and_advance sha Role_OpcodeFetch) (\<lambda>_. wo)"
  "issues (event_weight wx wo wi wr ww) (fetch_and_advance sha Role_ImmediateRead) (\<lambda>_. wi)"
  "issues (event_weight wx wo wi wr ww) (fetch_first_opcode sha b) (\<lambda>_. wo)"
  unfolding fetch_and_advance_def fetch_first_opcode_def
  by (cases b; intro issues_zero issues_first fetch_issues cpu_issues issues_then_zero issues_ret refl;
      simp add: issues_then_zero issues_ret)+

lemma immediates_issues: "issues (event_weight wx wo wi wr ww) (fetch_immediate_loop sha n imm) (\<lambda>_. n * wi)"
proof (induction n arbitrary: imm)
  case (Suc n)
  then show ?case by (auto intro!: issues_plus [OF fetching_issues(2)] issues_zero [OF issues_lift])
qed (simp add: issues_ret)

lemma decode_issues:
  assumes "decode_fetched sha opcode x = Inr ((i, imm), x')"
  shows "\<exists>es. ex_events x' = ex_events x @ es \<and>
    wo + sum_list (map (event_weight wx wo wi wr ww) es) =
      wo * unat (opcode_fetches (di_bus i)) + wi * unat (immediate_reads (di_bus i))"
proof (cases "opcode = 0xcb")
  case True
  then obtain b where "fetch_and_advance sha Role_OpcodeFetch x = Inr (b, x')" and i: "i = decode_cb b"
    using assms by (auto simp: decode_fetched_def exec_Inr)
  moreover have "unat (opcode_fetches (di_bus i)) = 2" "unat (immediate_reads (di_bus i)) = 0"
    by (simp_all add: i decode_cb_def Let_def bus_pattern_def case_prod_unfold)
  ultimately show ?thesis using fetching_issues(1) [of wx wo wi wr ww sha] unfolding issues_def by fastforce
next
  case False
  with assms have i: "decode_primary opcode = Defined i"
    and imm: "fetch_immediates sha (di_byte_len i) x = Inr (imm, x')"
    by (auto simp: decode_fetched_def exec_Inr split: opcode_classification.splits)
  then have "opcode_fetches (di_bus i) = 1" "immediate_reads (di_bus i) = saturating_sub (di_byte_len i) 1"
    by (auto simp: decode_primary_Defined decode_defined_primary_def bus_pattern_def case_prod_unfold)
  with imm immediates_issues [of wx wo wi wr ww sha "unat (saturating_sub (di_byte_len i) 1)" immediate_default]
  show ?thesis by (force simp: issues_def fetch_immediates_def)
qed

lemma step_execute_issues:
  assumes "step_execute sha s x = Inr ((i, b), x')"
  shows "\<exists>es. ex_events x' = ex_events x @ es \<and>
    sum_list (map (event_weight wx wo wi wr ww) es) = instruction_weight wo wi wr ww i b"
proof -
  let ?W = "event_weight wx wo wi wr ww"
  obtain opcode imm x1 x2 x3 where run: "fetch_first_opcode sha (cpu_run_state (vm_cpu s) = HaltBug) x = Inr (opcode, x1)"
    "decode_fetched sha opcode x1 = Inr ((i, imm), x2)" "execute sha i imm x2 = Inr (b, x3)"
    "ex_events x' = ex_events x3"
    using assms by (auto simp: step_execute_def exec_Inr apply_delayed_ime_def modify_cpu_def update_cpu_def
        update_state_def split: if_splits)
  have d: "defined_instruction i" using decode_fetched_dispatchable [OF run(2)] by (simp add: dispatchable_def)
  obtain es1 where es1: "ex_events x1 = ex_events x @ es1" "sum_list (map ?W es1) = wo"
    using run(1) fetching_issues(3) unfolding issues_def by blast
  obtain es2 where es2: "ex_events x2 = ex_events x1 @ es2"
    "wo + sum_list (map ?W es2) = wo * unat (opcode_fetches (di_bus i)) + wi * unat (immediate_reads (di_bus i))"
    using decode_issues [OF run(2)] by blast
  obtain es3 where es3: "ex_events x3 = ex_events x2 @ es3"
    "sum_list (map ?W es3) = data_weight wr ww (di_operation i) b"
    using run(3) execute_issues [OF defined_class [OF d] defined_decodable [OF d] no_memory_transfer [OF d]]
    unfolding issues_def by blast
  have "data_weight wr ww (di_operation i) b =
      wr * unat (data_reads (di_bus i)) + ww * unat (data_writes (di_bus i)) +
     (if b then wr * unat (taken_data_reads (di_bus i)) + ww * unat (taken_data_writes (di_bus i)) else 0)"
    using d by (auto elim!: defined_instructionE simp: data_weight_def decode_cb_def decode_defined_primary_def
        Let_def bus_pattern_def case_prod_unfold)
  with run(4) es1 es2 es3 show ?thesis
    by (intro exI [of _ "es1 @ es2 @ es3"]) (simp add: instruction_weight_def)
qed

lemma timing_events: "add_timing i b d x = Inr (u, x') \<Longrightarrow> ex_events x' = ex_events x"
  by (auto simp: add_timing_def add_m_cycles_def Let_def exec_Inr get_cpu_def modify_cpu_def update_cpu_def
      update_devices_def update_state_def)

lemma step_program_issues:
  assumes "step_program sha s x = Inr ((i, b), x')" "ex_events x = []"
  shows "sum_list (map (event_weight wx wo wi wr ww) (ex_events x')) = instruction_weight wo wi wr ww i b"
proof -
  obtain x1 x2 where x1: "step_execute sha s x = Inr ((i, b), x1)"
    and x2: "add_timing i b (dma_active (vm_dmg_devices s)) x1 = Inr ((), x2)"
    and x': "ex_events x' = ex_events x2"
    using assms(1) by (auto simp: step_program_def exec_Inr modify_cpu_def update_cpu_def update_state_def
        split: if_splits)
  then show ?thesis using step_execute_issues [OF x1] timing_events [OF x2] assms(2) by auto
qed

lemma weight_counts:
  "sum_list (map (event_weight 0 1 0 0 0) es) = length (filter is_opcode_fetch es)"
  "sum_list (map (event_weight 0 0 1 0 0) es) = length (filter is_immediate_read es)"
  "sum_list (map (event_weight 0 0 0 1 0) es) = length (filter is_data_read es)"
  "sum_list (map (event_weight 0 0 0 0 1) es) = length (filter is_data_write es)"
proof -
  have "event_weight 0 1 0 0 0 e = of_bool (is_opcode_fetch e)" "event_weight 0 0 1 0 0 e = of_bool (is_immediate_read e)"
    "event_weight 0 0 0 1 0 e = of_bool (is_data_read e)" "event_weight 0 0 0 0 1 e = of_bool (is_data_write e)" for e
    by (cases e; simp add: event_weight_def)+
  then show "sum_list (map (event_weight 0 1 0 0 0) es) = length (filter is_opcode_fetch es)"
    "sum_list (map (event_weight 0 0 1 0 0) es) = length (filter is_immediate_read es)"
    "sum_list (map (event_weight 0 0 0 1 0) es) = length (filter is_data_read es)"
    "sum_list (map (event_weight 0 0 0 0 1) es) = length (filter is_data_write es)"
    by (induction es) simp_all
qed

text \<open>With every class weighed one, the weight is the number of events: at most five.\<close>

lemma data_bus_bound:
  "case data_bus op of (dr, dw, tdr, tdw) \<Rightarrow> unat dr + unat dw + unat tdr + unat tdw \<le> 2"
proof -
  have "case direction_bus d of (dr, dw, tdr, tdw) \<Rightarrow> unat dr + unat dw + unat tdr + unat tdw \<le> 2" for d
    by (cases d) simp_all
  moreover have "case operand_transfer_bus a b of (dr, dw, tdr, tdw) \<Rightarrow> unat dr + unat dw + unat tdr + unat tdw \<le> 2" for a b
    by (cases a; cases b) simp_all
  ultimately show ?thesis
    by (cases op rule: data_bus.cases) (auto split: cb_operation.split)
qed

lemma instruction_weight_bound:
  assumes "defined_instruction i"
  shows "instruction_weight 1 1 1 1 i taken \<le> 5"
proof -
  obtain dr dw tdr tdw where d: "data_bus (di_operation i) = (dr, dw, tdr, tdw)" by (cases "data_bus (di_operation i)")
  have data: "unat dr + unat dw + unat tdr + unat tdw \<le> 2" using data_bus_bound [of "di_operation i"] d by simp
  show ?thesis
    using assms
  proof (cases rule: defined_instructionE)
    case (1 b)
    have "unat (saturating_sub (di_byte_len i) 1) = immediates_needed (di_operation i)"
      using primary_immediates [of b i] 1 by (simp add: decode_primary_Defined)
    moreover have "di_bus i = bus_pattern (Enc_Primary b) (di_operation i) (di_byte_len i)"
      using 1 by (auto simp: decode_defined_primary_def split: prod.splits)
    ultimately show ?thesis
      using data d immediates_needed_le [of "di_operation i"]
      by (auto simp: instruction_weight_def bus_pattern_def)
  next
    case (2 b)
    then have "di_bus i = bus_pattern (Enc_Cb b) (di_operation i) (di_byte_len i)" by (simp add: decode_cb_def Let_def)
    with data d show ?thesis by (auto simp: instruction_weight_def bus_pattern_def)
  qed
qed

lemma step_program_event_bound:
  assumes "step_program sha s x = Inr ((i, b), x')" "ex_events x = []" "defined_instruction i"
  shows "length (ex_events x') \<le> 5"
proof -
  have "event_weight 1 1 1 1 1 e = 1" for e by (simp add: event_weight_def)
  then have "sum_list (map (event_weight 1 1 1 1 1) es) = length es" for es by (induction es) simp_all
  with step_program_issues [OF assms(1,2), of 1 1 1 1 1] instruction_weight_bound [OF assms(3), of b]
  show ?thesis by simp
qed

text \<open>A step whose kind is an instruction ran the instruction program.\<close>

lemma event_body_kind: "event_body sha s e x = Inr ((k, i, b), x') \<Longrightarrow> k \<noteq> SK_Instruction"
  by (cases e) (auto simp: machine_body_def exec_Inr)

lemma instruction_step_body:
  assumes "step_body sha s x = Inr ((k, i, b), x')" "k = SK_Instruction"
  shows "step_program sha s x = Inr ((i, b), x')"
  using assms
  by (auto simp: step_body_def instruction_body_def machine_body_def exec_Inr dest!: event_body_kind
      split: if_splits sum.splits option.splits)

end
