(* ===== verification/Runs.thy ===== *)
theory Runs
  imports Step_Effects Step_Invariant Step_Timing Lookup_Refinement Event_Counts
begin

text \<open>
  Runs of several steps, the states they reach, and how the step-level lemmas compose: the
  memory replays over the concatenated events, the transcripts are the folds of all events and
  rows, and the lookup relation follows a Merkle run step by step.
\<close>

section \<open>Runs\<close>

fun run_steps ::
  "digest \<Rightarrow> bus_authentication \<Rightarrow> vm_state \<Rightarrow> step_input list \<Rightarrow> step_error + (vm_state \<times> step_effects list)" where
  "run_steps sha auth s [] = Inr (s, [])"
| "run_steps sha auth s (i # is) =
     and_then (apply_step sha s i auth) (\<lambda>(t, eff).
     and_then (run_steps sha auth t is) (\<lambda>(u, effs). Inr (u, eff # effs)))"

definition run_events :: "step_effects list \<Rightarrow> bus_event list" where
  "run_events effs = concat (map eff_bus_events effs)"

lemma run_events_simps [simp]: "run_events [] = []" "run_events (e # es) = eff_bus_events e @ run_events es"
  by (simp_all add: run_events_def)

inductive vm_reachable :: "digest \<Rightarrow> commitment_root \<Rightarrow> vm_state \<Rightarrow> bool"
  for sha :: digest and rom :: commitment_root where
  clean: "vm_reachable sha rom (vm_profile_initial sha rom m)"
| dmg: "vm_dmg_profile_initial sha p rom m = Inr s \<Longrightarrow> vm_reachable sha rom s"
| step: "vm_reachable sha rom s \<Longrightarrow> apply_step sha s input auth = Inr (s', eff) \<Longrightarrow> vm_reachable sha rom s'"

section \<open>One step, in the terms of a run\<close>

lemma apply_step_final:
  assumes "apply_step sha s input auth = Inr (s', eff)"
  obtains t where "bus_trace sha auth s (eff_bus_events eff) t"
    "input_witnesses input = concat (map event_witness (eff_bus_events eff))"
    "s' = t\<lparr>vm_bus_transcript := vm_bus_transcript s', vm_isa_transcript := vm_isa_transcript s'\<rparr>"
    "if auth = Auth_Merkle
     then try_fold (\<lambda>bt e. bus_transcript_append sha bt (transcript_event e)) (vm_bus_transcript s)
         (eff_bus_events eff) = Inr (vm_bus_transcript s') \<and>
       (\<exists>row. packed_row (from_decoded (eff_instruction eff)) = Inr row \<and>
         isa_transcript_append sha (vm_isa_transcript s) row = Inr (vm_isa_transcript s'))
     else s' = t"
proof -
  obtain x where x: "ex_authentication x = auth"
    "input_witnesses input = concat (map event_witness (eff_bus_events eff))"
    "bus_trace sha auth s (eff_bus_events eff) (ex_state x)"
    "finalize sha (eff_instruction eff) x = Inr (s', eff_bus_events eff)"
    using apply_step_trace [OF assms] .
  from bus_trace_logs [OF x(3)] x show thesis
    by (intro that [of "ex_state x"]) (auto simp: finalize_Inr split: if_splits)
qed

lemma apply_step_world:
  assumes "apply_step sha s input Auth_Merkle = Inr (s', eff)" "world sha rom mem s"
    "\<forall>w \<in> set (input_witnesses input). witness_wf w"
  shows "(events_truthful rom mem (eff_bus_events eff) \<and> world sha rom (events_apply (eff_bus_events eff) mem) s')
    \<or> events_collide sha rom mem (eff_bus_events eff)"
proof -
  obtain t where t: "bus_trace sha Auth_Merkle s (eff_bus_events eff) t"
    "input_witnesses input = concat (map event_witness (eff_bus_events eff))"
    "s' = t\<lparr>vm_bus_transcript := vm_bus_transcript s', vm_isa_transcript := vm_isa_transcript s'\<rparr>"
    using apply_step_final [OF assms(1)] .
  have "world sha rom m s' = world sha rom m t" for m
    by (subst t(3)) (simp add: world_def)
  with bus_trace_world [OF t(1) assms(2)] t(2) assms(3) show ?thesis by auto
qed

lemma apply_step_logs:
  assumes "apply_step sha s input auth = Inr (s', eff)"
  shows "try_fold (log_append sha) (vm_input_log s) (concat (map event_input (eff_bus_events eff))) = Inr (vm_input_log s')"
    "try_fold (log_append sha) (vm_output_log s) (concat (map event_output (eff_bus_events eff))) = Inr (vm_output_log s')"
    "vm_mbc3 s' = fold (event_mapper (cartridge_profile (vm_profile s))) (eff_bus_events eff) (vm_mbc3 s)"
    "vm_profile s' = vm_profile s" "vm_rom_root s' = vm_rom_root s"
proof -
  obtain t where t: "bus_trace sha auth s (eff_bus_events eff) t"
    "s' = t\<lparr>vm_bus_transcript := vm_bus_transcript s', vm_isa_transcript := vm_isa_transcript s'\<rparr>"
    using apply_step_final [OF assms] .
  have "vm_input_log s' = vm_input_log t" "vm_output_log s' = vm_output_log t" "vm_mbc3 s' = vm_mbc3 t"
    "vm_profile s' = vm_profile t" "vm_rom_root s' = vm_rom_root t"
    by (subst t(2), simp)+
  with bus_trace_logs [OF t(1)]
  show "try_fold (log_append sha) (vm_input_log s) (concat (map event_input (eff_bus_events eff))) = Inr (vm_input_log s')"
    "try_fold (log_append sha) (vm_output_log s) (concat (map event_output (eff_bus_events eff))) = Inr (vm_output_log s')"
    "vm_mbc3 s' = fold (event_mapper (cartridge_profile (vm_profile s))) (eff_bus_events eff) (vm_mbc3 s)"
    "vm_profile s' = vm_profile s" "vm_rom_root s' = vm_rom_root s"
    by simp_all
qed

section \<open>Composition\<close>

lemma events_truthful_append:
  "events_truthful rom mem (es @ fs) \<longleftrightarrow> events_truthful rom mem es \<and> events_truthful rom (events_apply es mem) fs"
  by (induction es arbitrary: mem) (auto simp: events_apply_def)

lemma events_collide_append:
  "events_collide sha rom mem (es @ fs) \<longleftrightarrow>
     events_collide sha rom mem es \<or> events_collide sha rom (events_apply es mem) fs"
  by (induction es arbitrary: mem) (auto simp: events_apply_def)

lemma events_apply_append: "events_apply (es @ fs) mem = events_apply fs (events_apply es mem)"
  by (simp add: events_apply_def)

lemma run_world:
  assumes "run_steps sha Auth_Merkle s inputs = Inr (s', effs)" "world sha rom mem s"
    "\<forall>input \<in> set inputs. \<forall>w \<in> set (input_witnesses input). witness_wf w"
  shows "(events_truthful rom mem (run_events effs) \<and> world sha rom (events_apply (run_events effs) mem) s')
    \<or> events_collide sha rom mem (run_events effs)"
  using assms
proof (induction inputs arbitrary: s mem effs)
  case (Cons i inputs)
  then obtain t eff effs' where step: "apply_step sha s i Auth_Merkle = Inr (t, eff)"
    and rest: "run_steps sha Auth_Merkle t inputs = Inr (s', effs')" and effs: "effs = eff # effs'" by auto
  let ?m = "events_apply (eff_bus_events eff) mem"
  from apply_step_world [OF step Cons.prems(2)] Cons.prems(3) consider
    "events_truthful rom mem (eff_bus_events eff)" "world sha rom ?m t"
    | "events_collide sha rom mem (eff_bus_events eff)" by auto
  then show ?case
    using Cons.IH [OF rest, of ?m] Cons.prems(3)
    by cases (auto simp: effs events_truthful_append events_collide_append events_apply_append)
qed (simp add: events_apply_def)

lemma run_logs:
  assumes "run_steps sha auth s inputs = Inr (s', effs)"
  shows "try_fold (log_append sha) (vm_input_log s) (concat (map event_input (run_events effs))) = Inr (vm_input_log s') \<and>
    try_fold (log_append sha) (vm_output_log s) (concat (map event_output (run_events effs))) = Inr (vm_output_log s') \<and>
    vm_mbc3 s' = fold (event_mapper (cartridge_profile (vm_profile s))) (run_events effs) (vm_mbc3 s) \<and>
    vm_profile s' = vm_profile s \<and> vm_rom_root s' = vm_rom_root s"
  using assms
proof (induction inputs arbitrary: s effs)
  case (Cons i inputs)
  then obtain t eff effs' where step: "apply_step sha s i auth = Inr (t, eff)"
    and rest: "run_steps sha auth t inputs = Inr (s', effs')" and effs: "effs = eff # effs'" by auto
  show ?case using Cons.IH [OF rest] apply_step_logs [OF step] by (simp add: effs try_fold_append)
qed simp

definition run_rows :: "step_effects list \<Rightarrow> (alignment_packing_error + u128) list" where
  "run_rows effs = map (\<lambda>e. packed_row (from_decoded (eff_instruction e))) effs"

lemma run_transcripts:
  assumes "run_steps sha Auth_Merkle s inputs = Inr (s', effs)"
  shows "try_fold (bus_transcript_append sha) (vm_bus_transcript s) (map transcript_event (run_events effs)) =
      Inr (vm_bus_transcript s') \<and>
    (\<exists>rows. run_rows effs = map Inr rows \<and>
      try_fold (isa_transcript_append sha) (vm_isa_transcript s) rows = Inr (vm_isa_transcript s'))"
  using assms
proof (induction inputs arbitrary: s effs)
  case (Cons i inputs)
  then obtain t eff effs' where step: "apply_step sha s i Auth_Merkle = Inr (t, eff)"
    and rest: "run_steps sha Auth_Merkle t inputs = Inr (s', effs')" and effs: "effs = eff # effs'" by auto
  have fold_map: "try_fold (\<lambda>bt e. bus_transcript_append sha bt (transcript_event e)) a es =
      try_fold (bus_transcript_append sha) a (map transcript_event es)" for a es
    by (induction es arbitrary: a) simp_all
  obtain row where row: "packed_row (from_decoded (eff_instruction eff)) = Inr row"
    "isa_transcript_append sha (vm_isa_transcript s) row = Inr (vm_isa_transcript t)"
    "try_fold (bus_transcript_append sha) (vm_bus_transcript s) (map transcript_event (eff_bus_events eff)) =
      Inr (vm_bus_transcript t)"
    using apply_step_final [OF step] by (metis fold_map)
  from Cons.IH [OF rest] obtain rows where "run_rows effs' = map Inr rows"
    "try_fold (isa_transcript_append sha) (vm_isa_transcript t) rows = Inr (vm_isa_transcript s')"
    "try_fold (bus_transcript_append sha) (vm_bus_transcript t) (map transcript_event (run_events effs')) =
      Inr (vm_bus_transcript s')" by blast
  with row show ?case
    by (auto simp: effs run_rows_def try_fold_append intro!: exI [of _ "row # rows"])
qed (simp add: run_rows_def)

lemma run_lookup:
  assumes "run_steps sha Auth_Merkle s inputs = Inr (s', effs)" "same_machine s t"
  shows "\<exists>t'. run_steps sha Auth_Lookup t inputs = Inr (t', effs) \<and> same_machine s' t' \<and>
    vm_memory_root t' = vm_memory_root t \<and> vm_bus_transcript t' = vm_bus_transcript t \<and>
    vm_isa_transcript t' = vm_isa_transcript t"
  using assms
proof (induction inputs arbitrary: s t effs)
  case (Cons i inputs)
  then obtain s1 eff effs' where step: "apply_step sha s i Auth_Merkle = Inr (s1, eff)"
    and rest: "run_steps sha Auth_Merkle s1 inputs = Inr (s', effs')" and effs: "effs = eff # effs'" by auto
  obtain t1 where t1: "apply_step sha t i Auth_Lookup = Inr (t1, eff)" "same_machine s1 t1"
    using lookup_simulates [OF step Cons.prems(2)] by blast
  obtain u where "bus_trace sha Auth_Lookup t (eff_bus_events eff) u" "t1 = u"
    using apply_step_final [OF t1(1)] by (metis bus_authentication.distinct(1))
  then have "vm_memory_root t1 = vm_memory_root t" "vm_bus_transcript t1 = vm_bus_transcript t"
    "vm_isa_transcript t1 = vm_isa_transcript t"
    using bus_trace_lookup bus_trace_logs by metis+
  with Cons.IH [OF rest t1(2)] t1(1) show ?case by (auto simp: effs)
qed simp

end
