(* ===== verification/Step_Examples.thy ===== *)
theory Step_Examples
  imports Runs
begin

text \<open>
  A concrete step for the examples: \<open>LD (HL), A\<close> at address 0 with HL at 0xc000, under the
  constant digest, with placeholder paths.  It fetches one ROM byte and writes one memory byte.
\<close>

section \<open>A store\<close>

definition store_fetch :: rom_read where
  "store_fetch = \<lparr>rr_address = 0, rr_physical_address = 0, rr_value = 0x77, rr_path = lookup_placeholder\<rparr>"

definition store_write :: memory_write where
  "store_write = \<lparr>mw_address = 0xc000, mw_physical_address = 0xc000, mw_before = 0, mw_after = 0x2a,
     mw_path = lookup_placeholder\<rparr>"

lemma store_fields [simp]:
  "rr_address store_fetch = 0" "rr_physical_address store_fetch = 0" "rr_value store_fetch = 0x77"
  "mw_address store_write = 0xc000" "mw_physical_address store_write = 0xc000" "mw_before store_write = 0"
  "mw_after store_write = 0x2a"
  by (simp_all add: store_fetch_def store_write_def)

definition store_input :: step_input where
  "store_input = \<lparr>input_witnesses = [Wit_Rom store_fetch, Wit_MemoryWrite store_write]\<rparr>"

definition store_cpu :: cpu_state where
  "store_cpu = cpu_profile_initial\<lparr>cpu_registers :=
     \<lparr>reg_a = 0x2a, reg_b = 0, reg_c = 0, reg_d = 0, reg_e = 0, reg_h = 0xc0, reg_l = 0\<rparr>\<rparr>"

definition store_vm :: "digest \<Rightarrow> vm_state" where
  "store_vm sha = (vm_profile_initial sha 0 0)\<lparr>vm_cpu := store_cpu\<rparr>"

abbreviation store_instruction :: decoded_instruction where
  "store_instruction \<equiv> decode_defined_primary 0x77"

lemma store_row: "decode_row 0x77 = (Op_Load8 Opd_IndirectHl (Opd_Register R8_A), 1, 2, None)"
  by code_simp

lemma store_decoded: "decode_primary 0x77 = Defined store_instruction"
  by (simp add: decode_primary_def is_undefined_def)

lemma store_defined: "defined_instruction store_instruction"
  using store_decoded by (auto simp: defined_instruction_def)

lemma store_checks:
  "rom_read_check (\<lambda>_. 0) store_fetch 0 = Inr ()" "memory_write_check (\<lambda>_. 0) store_write 0 = Inr 0"
  by (simp_all add: rom_read_check_iff memory_write_check_iff mutable_root_def zero_digest_root
      store_fetch_def store_write_def owner_rom_iff owner_memory_iff)

lemma store_body:
  assumes "sha = (\<lambda>_. 0)"
  shows "\<exists>x. step_body sha (store_vm sha) (executor_new (store_vm sha) store_input auth) =
      Inr ((SK_Instruction, store_instruction, False), x) \<and>
    ex_witnesses x = [] \<and> ex_events x = [Ev_OpcodeFetch store_fetch, Ev_MemoryWrite store_write] \<and>
    ex_authentication x = auth \<and> vm_bus_transcript (ex_state x) = bus_transcript_empty sha \<and>
    vm_isa_transcript (ex_state x) = isa_transcript_empty sha"
  by (cases auth)
     (simp_all add: step_body_def store_vm_def store_cpu_def vm_profile_initial_def cpu_profile_initial_def
      instruction_body_def can_execute_instruction_def step_program_def step_execute_def
      fetch_first_opcode_def exec_defs get_cpu_def fetch_instruction_def require_cpu_dma_access_def
      require_cpu_ppu_access_def executor_new_def state_owner_def owner_def fetch_def take_rom_read_def
      next_witness_def store_input_def require_address_def require_physical_address_def
      map_rom_for_def push_event_def modify_cpu_def update_cpu_def update_state_def decode_fetched_def store_decoded
      store_row fetch_immediates_def saturating_sub_def execute_def execute_load_def apply_delayed_ime_def
      add_timing_def step_increment_def add_m_cycles_def checked_add_def update_devices_def Let_def
      register8_ex_def register16_ex_def u16_from_be_def write_data_def write_memory_def take_memory_write_def
      commit_write_def store_checks assms)

lemma defined_row_canonical:
  assumes "defined_instruction i"
  shows "\<exists>row. packed_row (from_decoded i) = Inr row \<and> row < 2 ^ 106"
proof -
  obtain row where row: "packed_row (from_decoded i) = Inr row"
    using packed_defined_ok [OF assms] by (auto simp: is_ok_def split: sum.splits)
  have "unat (take_bit 106 row) < 2 ^ 106" unfolding unsigned_take_bit_eq by (rule take_bit_nat_less_exp)
  with packed_row_Inr(2) [OF row] row show ?thesis by (simp add: word_less_nat_alt)
qed

lemma store_final:
  assumes "sha = (\<lambda>_. 0)" "ex_witnesses x = []"
    "ex_events x = [Ev_OpcodeFetch store_fetch, Ev_MemoryWrite store_write]"
    "vm_bus_transcript (ex_state x) = bus_transcript_empty sha" "vm_isa_transcript (ex_state x) = isa_transcript_empty sha"
  shows "\<exists>s. finalize sha store_instruction x = Inr (s, ex_events x)"
proof -
  obtain row where row: "packed_row (from_decoded store_instruction) = Inr row" "row < 2 ^ 106"
    using defined_row_canonical [OF store_defined] by blast
  have "is_ok (isa_transcript_append sha (isa_transcript_empty sha) row)"
    unfolding append_total using row(2) by (simp add: isa_transcript_empty_def)
  moreover have "is_ok (try_fold (\<lambda>t e. bus_transcript_append sha t (transcript_event e)) (bus_transcript_empty sha) (ex_events x))"
    by (simp add: assms bus_transcript_append_def bus_transcript_empty_def checked_add_def Let_def
        transcript_event_def blank_event_def rom_event_def memory_write_event_def is_ok_def push_bit_eq_mult word_le_nat_alt)
  ultimately show ?thesis
    using row(1) by (cases "ex_authentication x") (auto simp: finalize_def assms is_ok_def split: sum.splits)
qed

lemma store_step:
  assumes "sha = (\<lambda>_. 0)"
  obtains s' eff where "apply_step sha (store_vm sha) store_input auth = Inr (s', eff)"
    "eff_kind eff = SK_Instruction" "eff_instruction eff = store_instruction" "\<not> eff_branch_taken eff"
    "eff_bus_events eff = [Ev_OpcodeFetch store_fetch, Ev_MemoryWrite store_write]"
proof -
  obtain x where x: "step_body sha (store_vm sha) (executor_new (store_vm sha) store_input auth) =
      Inr ((SK_Instruction, store_instruction, False), x)"
    "ex_witnesses x = []" "ex_events x = [Ev_OpcodeFetch store_fetch, Ev_MemoryWrite store_write]"
    "vm_bus_transcript (ex_state x) = bus_transcript_empty sha" "vm_isa_transcript (ex_state x) = isa_transcript_empty sha"
    using store_body [OF assms] by blast
  obtain s where "finalize sha store_instruction x = Inr (s, ex_events x)"
    using store_final [OF assms x(2-5)] by blast
  then show thesis using x
    by (intro that [of s "\<lparr>eff_kind = SK_Instruction, eff_instruction = store_instruction,
          eff_branch_taken = False, eff_bus_events = ex_events x\<rparr>"])
       (simp_all add: apply_step_body complete_step_def)
qed

lemma store_vm_facts [simp]:
  "vm_wf (store_vm sha)" "vm_bus_transcript (store_vm sha) = bus_transcript_empty sha"
  "vm_isa_transcript (store_vm sha) = isa_transcript_empty sha" "vm_rom_root (store_vm sha) = 0"
  "vm_memory_root (store_vm sha) = 0" "vm_cpu (store_vm sha) = store_cpu" "cpu_m_cycles store_cpu = 0"
  using vm_initial_wf(1) [of sha 0 0]
  by (simp_all add: store_vm_def vm_wf_def vm_profile_initial_def store_cpu_def cpu_profile_initial_def)

section \<open>An interrupt\<close>

text \<open>A VBlank interrupt taken from the DMG post-boot state, pushing to high RAM.\<close>

definition irq_vm :: "digest \<Rightarrow> vm_state" where
  "irq_vm sha = (vm_dmg_initial sha 0 0)
     \<lparr>vm_cpu := cpu_dmg_post_boot_initial\<lparr>cpu_ime := Ime_Enabled\<rparr>,
      vm_dmg_devices := dmg_post_boot\<lparr>interrupt_enable := 1\<rparr>\<rparr>"

definition irq_write :: "u16 \<Rightarrow> u8 \<Rightarrow> memory_write" where
  "irq_write a v = \<lparr>mw_address = a, mw_physical_address = ucast a, mw_before = 0, mw_after = v, mw_path = lookup_placeholder\<rparr>"

definition irq_input :: step_input where
  "irq_input = \<lparr>input_witnesses = [Wit_MemoryWrite (irq_write 0xfffd 0x01), Wit_MemoryWrite (irq_write 0xfffc 0x00)]\<rparr>"

lemma irq_step:
  obtains s' eff where "apply_step sha (irq_vm sha) irq_input Auth_Lookup = Inr (s', eff)"
    "eff_kind eff = SK_InterruptDispatch Int_VBlank"
proof -
  have m: "is_ok (machine_event_marker 0xff)" by code_simp
  then obtain i where i: "machine_event_marker 0xff = Inr i" by (auto simp: is_ok_def split: sum.splits)
  have "classify_dmg_machine_event (irq_vm sha) = Inr (Some (ME_Interrupt Int_VBlank))"
    by (simp add: classify_dmg_machine_event_def irq_vm_def cpu_dmg_post_boot_initial_def dmg_post_boot_def
        pending_interrupt_def Let_def)
  moreover have "is_dmg_post_boot_mbc3 (vm_profile (irq_vm sha))" "dma_owed (vm_dmg_devices (irq_vm sha)) = 0"
    by (simp_all add: irq_vm_def vm_dmg_initial_def vm_dmg_unchecked_def dmg_post_boot_def)
  ultimately have "step_body sha (irq_vm sha) = event_body sha (irq_vm sha) (ME_Interrupt Int_VBlank)"
    by (simp add: step_body_def)
  moreover have "\<exists>x. interrupt_program sha Int_VBlank (executor_new (irq_vm sha) irq_input Auth_Lookup) = Inr ((), x) \<and>
      ex_witnesses x = [] \<and> ex_authentication x = Auth_Lookup"
    by (simp add: interrupt_program_def interrupt_entry_def push_interrupt_return_def add_machine_timing_def
        add_m_cycles_def exec_defs get_cpu_def modify_cpu_def update_cpu_def update_state_def update_devices_def
        executor_new_def irq_vm_def vm_dmg_initial_def vm_dmg_unchecked_def cpu_dmg_post_boot_initial_def
        dmg_post_boot_def write_data_def require_cpu_dma_access_def require_cpu_ppu_access_def
        state_owner_def dmg_owner_def write_memory_def take_memory_write_def next_witness_def irq_input_def
        irq_write_def require_address_def require_physical_address_def commit_write_def push_event_def
        acknowledge_interrupt_def u16_high_def u16_low_def checked_add_def Let_def drop_bit_eq_div)
  ultimately obtain x where "step_body sha (irq_vm sha) (executor_new (irq_vm sha) irq_input Auth_Lookup) =
      Inr ((SK_InterruptDispatch Int_VBlank, i, False), x)" "ex_witnesses x = []" "ex_authentication x = Auth_Lookup"
    using i by (auto simp: machine_body_def exec_defs)
  then show thesis
    by (intro that [of "ex_state x" "\<lparr>eff_kind = SK_InterruptDispatch Int_VBlank, eff_instruction = i,
          eff_branch_taken = False, eff_bus_events = ex_events x\<rparr>"])
       (simp_all add: apply_step_body complete_step_def finalize_def)
qed

section \<open>Code in cartridge RAM\<close>

text \<open>A \<open>NOP\<close> fetched at 0xa000.\<close>

definition sram_read :: memory_read where
  "sram_read = \<lparr>mr_address = 0xa000, mr_physical_address = 0xa000, mr_value = 0, mr_path = lookup_placeholder\<rparr>"

definition sram_vm :: "digest \<Rightarrow> vm_state" where
  "sram_vm sha = (vm_profile_initial sha 0 0)\<lparr>vm_cpu := cpu_profile_initial\<lparr>cpu_pc := 0xa000\<rparr>\<rparr>"

definition sram_input :: step_input where
  "sram_input = \<lparr>input_witnesses = [Wit_MemoryRead sram_read]\<rparr>"

lemma nop_row: "decode_row 0 = (Op_Nop, 1, 1, None)"
  by code_simp

lemma nop_decoded: "decode_primary 0 = Defined (decode_defined_primary 0)"
  by (simp add: decode_primary_def is_undefined_def)

lemma sram_step:
  obtains s' eff where "apply_step sha (sram_vm sha) sram_input Auth_Lookup = Inr (s', eff)"
    "eff_bus_events eff = [Ev_MemoryOpcodeFetch sram_read]"
proof -
  have "\<exists>x. step_body sha (sram_vm sha) (executor_new (sram_vm sha) sram_input Auth_Lookup) =
      Inr ((SK_Instruction, decode_defined_primary 0, False), x) \<and>
    ex_witnesses x = [] \<and> ex_events x = [Ev_MemoryOpcodeFetch sram_read] \<and> ex_authentication x = Auth_Lookup"
    by (simp add: step_body_def sram_vm_def vm_profile_initial_def cpu_profile_initial_def
      instruction_body_def can_execute_instruction_def step_program_def step_execute_def
      fetch_first_opcode_def exec_defs get_cpu_def fetch_instruction_def require_cpu_dma_access_def
      require_cpu_ppu_access_def executor_new_def state_owner_def owner_def read_instruction_memory_def take_memory_read_def
      next_witness_def sram_input_def sram_read_def require_address_def require_physical_address_def
      push_event_def modify_cpu_def update_cpu_def update_state_def decode_fetched_def nop_decoded
      nop_row fetch_immediates_def saturating_sub_def execute_def execute_control_def apply_delayed_ime_def
      add_timing_def step_increment_def add_m_cycles_def checked_add_def update_devices_def Let_def)
  then obtain x where x: "step_body sha (sram_vm sha) (executor_new (sram_vm sha) sram_input Auth_Lookup) =
      Inr ((SK_Instruction, decode_defined_primary 0, False), x)"
    "ex_witnesses x = []" "ex_events x = [Ev_MemoryOpcodeFetch sram_read]" "ex_authentication x = Auth_Lookup" by blast
  then show thesis
    by (intro that [of "ex_state x" "\<lparr>eff_kind = SK_Instruction, eff_instruction = decode_defined_primary 0,
          eff_branch_taken = False, eff_bus_events = ex_events x\<rparr>"])
       (simp_all add: apply_step_body complete_step_def finalize_def)
qed

end
