(* ===== verification/Step_Properties.thy ===== *)
theory Step_Properties
  imports Step_Examples
begin

text \<open>
  The properties of the step relation: every accepted step is a run of the bus transition
  system, no step reports a broken internal invariant, memory and ROM are truthful over whole
  runs, the VM invariant holds in every reachable state, the lookup relation follows the Merkle
  relation, transcripts bind a run, and time and bus accesses are what the metadata declares.
\<close>

section \<open>Refinement\<close>

text \<open>C1: An accepted step is a run of the bus transition system: its recorded events are the labels of
  the run in order, the supplied witnesses are exactly the ones those events consume (none is
  skipped, reused or left over), and the final state is the one the run reaches, with the bus
  transcript advanced by every event and the ISA transcript by the packed row of the executed
  instruction under Merkle authentication, and unchanged under lookup authentication.\<close>

theorem step_refines_bus:
  assumes "apply_step sha s input auth = Inr (s', eff)"
  shows "\<exists>t. bus_trace sha auth s (eff_bus_events eff) t \<and>
    input_witnesses input = concat (map event_witness (eff_bus_events eff)) \<and>
    s' = t\<lparr>vm_bus_transcript := vm_bus_transcript s', vm_isa_transcript := vm_isa_transcript s'\<rparr> \<and>
    (if auth = Auth_Merkle
     then try_fold (\<lambda>bt e. bus_transcript_append sha bt (transcript_event e)) (vm_bus_transcript s)
         (eff_bus_events eff) = Inr (vm_bus_transcript s') \<and>
       (\<exists>row. packed_row (from_decoded (eff_instruction eff)) = Inr row \<and>
         isa_transcript_append sha (vm_isa_transcript s) row = Inr (vm_isa_transcript s'))
     else s' = t)"
  using apply_step_final [OF assms] by metis

theorem step_refines_bus_witness:
  "\<exists>s' t. bus_trace (\<lambda>_. 0) Auth_Merkle (store_vm (\<lambda>_. 0))
     [Ev_OpcodeFetch store_fetch, Ev_MemoryWrite store_write] t \<and>
     s' = t\<lparr>vm_bus_transcript := vm_bus_transcript s', vm_isa_transcript := vm_isa_transcript s'\<rparr>"
proof -
  obtain s' eff where "apply_step (\<lambda>_. 0) (store_vm (\<lambda>_. 0)) store_input Auth_Merkle = Inr (s', eff)"
    "eff_bus_events eff = [Ev_OpcodeFetch store_fetch, Ev_MemoryWrite store_write]"
    using store_step [OF refl] .
  with step_refines_bus [of "\<lambda>_. 0" "store_vm (\<lambda>_. 0)" store_input Auth_Merkle s' eff] show ?thesis by auto
qed

text \<open>C4: No step ever reports a broken internal invariant: from any state and any witness list,
  in either mode, a rejected step fails for an external reason (a witness, an address, a port, a
  counter or an undefined opcode), never because decoding, metadata, dispatch, packing or the
  flag register were inconsistent.\<close>

theorem step_never_internal:
  "case apply_step sha s input auth of Inl e \<Rightarrow> \<not> internal_error e | Inr (s', eff) \<Rightarrow> defined_instruction (eff_instruction eff)"
proof (cases "step_body sha s (executor_new s input auth)")
  case (Inl e)
  then show ?thesis
    using ekeepsD(2) [OF traced.keeps_step_body Inl] by (simp add: apply_step_body)
next
  case (Inr r)
  obtain k i b x where r: "r = ((k, i, b), x)" by (cases r) auto
  have d: "defined_instruction i" using step_body_defined Inr r by blast
  then show ?thesis
    using finalize_Inl [OF d, of sha x]
    by (auto simp: apply_step_body Inr r complete_step_def and_then_def split: sum.split)
qed

text \<open>C5: Under lookup authentication the same machine runs: whatever a Merkle run accepts, the
  lookup relation accepts from any state that agrees outside the memory root and the transcripts,
  with the same effects step by step and agreeing states throughout, and it leaves its own memory
  root and transcripts alone.\<close>

theorem lookup_refines_merkle:
  assumes "run_steps sha Auth_Merkle s inputs = Inr (s', effs)" "same_machine s t"
  shows "\<exists>t'. run_steps sha Auth_Lookup t inputs = Inr (t', effs) \<and> same_machine s' t' \<and>
    vm_memory_root t' = vm_memory_root t \<and> vm_bus_transcript t' = vm_bus_transcript t \<and>
    vm_isa_transcript t' = vm_isa_transcript t"
  using assms by (rule run_lookup)

theorem lookup_refines_merkle_witness:
  "\<exists>t' effs. run_steps (\<lambda>_. 0) Auth_Lookup (store_vm (\<lambda>_. 0)) [store_input] = Inr (t', effs) \<and>
     vm_memory_root t' = 0 \<and> length effs = 1"
proof -
  obtain s' eff where "apply_step (\<lambda>_. 0) (store_vm (\<lambda>_. 0)) store_input Auth_Merkle = Inr (s', eff)"
    using store_step [OF refl] .
  then have "run_steps (\<lambda>_. 0) Auth_Merkle (store_vm (\<lambda>_. 0)) [store_input] = Inr (s', [eff])" by simp
  from lookup_refines_merkle [OF this, of "store_vm (\<lambda>_. 0)"] show ?thesis
    by (auto simp: same_machine_def)
qed

section \<open>Memory, logs and transcripts\<close>

text \<open>C2: Memory is truthful over a whole run: from roots that commit ROM bytes and memory bytes, every
  ROM byte, memory byte and previous byte an accepted run of steps used was the current one, and
  the final memory root commits exactly the bytes left by the writes in order, unless one of the
  openings exhibits a hash collision.\<close>

theorem run_memory_truthful:
  assumes "run_steps sha Auth_Merkle s inputs = Inr (s', effs)"
    and "vm_rom_root s = tree_commit sha Kind_Rom rom" "vm_memory_root s = tree_commit sha Kind_Memory mem"
    and "\<forall>input \<in> set inputs. \<forall>w \<in> set (input_witnesses input). witness_wf w"
  shows "(events_truthful rom mem (run_events effs) \<and> vm_rom_root s' = tree_commit sha Kind_Rom rom \<and>
      vm_memory_root s' = tree_commit sha Kind_Memory (events_apply (run_events effs) mem)) \<or>
    events_collide sha rom mem (run_events effs)"
  using run_world [OF assms(1) _ assms(4), of rom mem] assms(2,3) by (simp add: world_def)

theorem run_memory_truthful_witness:
  "\<exists>es. length es = 2 \<and>
     (events_truthful (\<lambda>_. 0) (\<lambda>_. 0) es \<or> events_collide (\<lambda>_. 0) (\<lambda>_. 0) (\<lambda>_. 0) es)"
proof -
  obtain s' eff where "apply_step (\<lambda>_. 0) (store_vm (\<lambda>_. 0)) store_input Auth_Merkle = Inr (s', eff)"
    and e: "eff_bus_events eff = [Ev_OpcodeFetch store_fetch, Ev_MemoryWrite store_write]"
    using store_step [OF refl] .
  then have "run_steps (\<lambda>_. 0) Auth_Merkle (store_vm (\<lambda>_. 0)) [store_input] = Inr (s', [eff])" by simp
  from run_memory_truthful [OF this, of "\<lambda>_. 0" "\<lambda>_. 0"] e show ?thesis
    by (intro exI [of _ "run_events [eff]"])
       (auto simp: zero_digest_commit store_input_def store_fetch_def store_write_def path_wf_def
         lookup_placeholder_def)
qed

text \<open>C26: The ports and the mapper replay: over any run, the input log has grown by exactly the bytes
  sampled from the input port and the joypad, the output log by exactly the bytes written to the
  output port, in order; the mapper is the fold of the control writes; and the profile and the
  ROM root never change.\<close>

theorem run_replays_ports:
  assumes "run_steps sha auth s inputs = Inr (s', effs)"
  shows "try_fold (log_append sha) (vm_input_log s) (concat (map event_input (run_events effs))) = Inr (vm_input_log s') \<and>
    try_fold (log_append sha) (vm_output_log s) (concat (map event_output (run_events effs))) = Inr (vm_output_log s') \<and>
    vm_mbc3 s' = fold (event_mapper (cartridge_profile (vm_profile s))) (run_events effs) (vm_mbc3 s) \<and>
    vm_profile s' = vm_profile s \<and> vm_rom_root s' = vm_rom_root s"
  using assms by (rule run_logs)

theorem run_replays_ports_witness:
  "\<exists>s' effs. run_steps (\<lambda>_. 0) Auth_Lookup (store_vm (\<lambda>_. 0)) [store_input] = Inr (s', effs) \<and>
     vm_mbc3 s' = vm_mbc3 (store_vm (\<lambda>_. 0))"
proof -
  obtain s' eff where "apply_step (\<lambda>_. 0) (store_vm (\<lambda>_. 0)) store_input Auth_Lookup = Inr (s', eff)"
    and e: "eff_bus_events eff = [Ev_OpcodeFetch store_fetch, Ev_MemoryWrite store_write]"
    using store_step [OF refl] .
  then have run: "run_steps (\<lambda>_. 0) Auth_Lookup (store_vm (\<lambda>_. 0)) [store_input] = Inr (s', [eff])" by simp
  from run_replays_ports [OF run] e run show ?thesis by auto
qed

text \<open>C6: The transcript roots identify a run: two accepted Merkle runs that start from empty transcripts
  and end with the same bus and ISA roots made the same bus accesses and executed the same
  instruction rows, in the same order, unless two of the messages hashed for them collide.\<close>

theorem run_transcripts_bind:
  assumes "run_steps sha Auth_Merkle s inputs = Inr (s', effs)" "run_steps sha Auth_Merkle t inputs' = Inr (t', effs')"
    and "vm_bus_transcript s = bus_transcript_empty sha" "vm_isa_transcript s = isa_transcript_empty sha"
    and "vm_bus_transcript t = bus_transcript_empty sha" "vm_isa_transcript t = isa_transcript_empty sha"
    and "bt_root (vm_bus_transcript s') = bt_root (vm_bus_transcript t')"
    and "it_root (vm_isa_transcript s') = it_root (vm_isa_transcript t')"
  shows "(map transcript_event (run_events effs) = map transcript_event (run_events effs') \<or>
      collision_in sha (bus_messages sha (map transcript_event (run_events effs)))
        (bus_messages sha (map transcript_event (run_events effs')))) \<and>
    (\<exists>rows rows'. run_rows effs = map Inr rows \<and> run_rows effs' = map Inr rows' \<and>
      (rows = rows' \<or> collision_in sha (isa_messages sha rows) (isa_messages sha rows')))"
proof -
  let ?es = "map transcript_event (run_events effs)" and ?es' = "map transcript_event (run_events effs')"
  obtain rows rows' where rows: "run_rows effs = map Inr rows" "run_rows effs' = map Inr rows'"
    "it_root (vm_isa_transcript s') = isa_root_of sha rows" "it_root (vm_isa_transcript t') = isa_root_of sha rows'"
    using run_transcripts [OF assms(1)] run_transcripts [OF assms(2)] assms(4,6) isa_fold_chain by metis
  moreover have "bt_root (vm_bus_transcript s') = bus_root_of sha ?es" "bt_root (vm_bus_transcript t') = bus_root_of sha ?es'"
    using run_transcripts [OF assms(1)] run_transcripts [OF assms(2)] assms(3,5) bus_fold_chain by metis+
  ultimately show ?thesis
    using bus_chain.chain_binding [of sha "rev ?es" "rev ?es'"] isa_chain.chain_binding [of sha "rev rows" "rev rows'"]
      assms(7,8)
    by (auto simp: bus_root_of_def bus_messages_def isa_root_of_def isa_messages_def)
qed

theorem run_transcripts_bind_witness:
  "\<exists>effs effs'. length effs = 1 \<and> effs' = [] \<and>
     collision_in (\<lambda>_. 0) (bus_messages (\<lambda>_. 0) (map transcript_event (run_events effs)))
        (bus_messages (\<lambda>_. 0) (map transcript_event (run_events effs')))"
proof -
  obtain s' eff where step: "apply_step (\<lambda>_. 0) (store_vm (\<lambda>_. 0)) store_input Auth_Merkle = Inr (s', eff)"
    and e: "eff_bus_events eff = [Ev_OpcodeFetch store_fetch, Ev_MemoryWrite store_write]"
    using store_step [OF refl] .
  then have run: "run_steps (\<lambda>_. 0) Auth_Merkle (store_vm (\<lambda>_. 0)) [store_input] = Inr (s', [eff])" by simp
  have roots: "bt_root (vm_bus_transcript s') = 0" "it_root (vm_isa_transcript s') = 0"
    using run_transcripts [OF run] e
    by (auto simp: run_rows_def dest!: bus_append_step isa_fold_chain simp: isa_root_of_def)
  from run_transcripts_bind [OF run, of "store_vm (\<lambda>_. 0)" "[]" "store_vm (\<lambda>_. 0)" "[]"] roots e
  show ?thesis
    by (intro exI [of _ "[eff]"] exI [of _ "[]"])
       (auto simp: bus_transcript_empty_def isa_transcript_empty_def hash_parts_def)
qed

section \<open>Invariants, time and accesses\<close>

text \<open>C3: Every reachable machine state is well formed: from the clean or any DMG initial state, by any
  accepted steps in either mode with any inputs, the flag register keeps its low nibble zero, the
  mapper registers stay in the cartridge's ranges, every device register keeps its range and the
  DMA bookkeeping is consistent, the logs keep their domains, and the ROM root is the initial one.\<close>

theorem reachable_wf:
  assumes "vm_reachable sha rom s"
  shows "vm_wf s \<and> vm_rom_root s = rom"
  using assms
proof (induction rule: vm_reachable.induct)
  case (clean m)
  then show ?case using vm_initial_wf(1) [of sha rom m] by (simp add: vm_profile_initial_def)
next
  case (dmg p m s)
  then show ?case using vm_initial_wf(2) [of sha p rom m]
    by (auto simp: vm_dmg_profile_initial_def vm_dmg_unchecked_def split: if_splits)
next
  case (step s input auth s' eff)
  then show ?case using apply_step_wf apply_step_logs(5) by metis
qed

theorem reachable_wf_witness:
  "vm_wf (vm_dmg_initial (\<lambda>_. 0) 7 9) \<and> vm_rom_root (vm_dmg_initial (\<lambda>_. 0) 7 9) = 7"
  by (rule reachable_wf [where sha = "\<lambda>_. 0"], rule vm_reachable.dmg [of _ DmgPostBootMbc3V1 _ 9])
     (simp add: vm_dmg_profile_initial_def vm_dmg_initial_def)

text \<open>C24: Time is exact: an accepted step advances the M-cycle counter without wrapping by exactly the
  cycles of its kind, and the instruction, interrupt and idle steps take between one and six.\<close>

theorem step_time_exact:
  assumes "apply_step sha s input auth = Inr (s', eff)"
  shows "unat (cpu_m_cycles (vm_cpu s')) = unat (cpu_m_cycles (vm_cpu s)) +
      step_cycles (vm_dmg_devices s) (eff_kind eff) (eff_instruction eff) (eff_branch_taken eff) \<and>
    (eff_kind eff = SK_Instruction \<longrightarrow>
      1 \<le> step_increment (eff_instruction eff) (eff_branch_taken eff) \<and>
      step_increment (eff_instruction eff) (eff_branch_taken eff) \<le> 6)"
proof -
  obtain x where x: "step_body sha s (executor_new s input auth) =
      Inr ((eff_kind eff, eff_instruction eff, eff_branch_taken eff), x)"
    "finalize sha (eff_instruction eff) x = Inr (s', eff_bus_events eff)"
    using apply_step_trace [OF assms] .
  have "vm_cpu s' = vm_cpu (ex_state x)" using x(2) by (auto simp: finalize_Inr split: if_splits)
  moreover have d: "defined_instruction (eff_instruction eff)" using step_body_defined [OF x(1)] .
  ultimately show ?thesis
    using step_body_cycles [OF x(1)] defined_timing [OF d]
    by (auto simp: executor_cycles_def executor_new_def step_increment_def split: option.splits)
qed

theorem step_time_exact_witness:
  "\<exists>s' eff. apply_step (\<lambda>_. 0) (store_vm (\<lambda>_. 0)) store_input Auth_Merkle = Inr (s', eff) \<and>
     unat (cpu_m_cycles (vm_cpu s')) = 2"
proof -
  obtain s' eff where step: "apply_step (\<lambda>_. 0) (store_vm (\<lambda>_. 0)) store_input Auth_Merkle = Inr (s', eff)"
    "eff_kind eff = SK_Instruction" "eff_instruction eff = store_instruction" "\<not> eff_branch_taken eff"
    using store_step [OF refl] .
  with step_time_exact [OF step(1)] show ?thesis by (simp add: step_cycles_def step_increment_def store_row)
qed

text \<open>C23: An executed instruction makes exactly the bus accesses its metadata declares: the numbers of
  opcode fetches, immediate reads, data reads and data writes among the events of the step are
  those of its bus pattern, the branch-taken accesses included exactly when the branch is taken.\<close>

theorem instruction_accesses_exact:
  assumes "apply_step sha s input auth = Inr (s', eff)" "eff_kind eff = SK_Instruction"
  shows "let es = eff_bus_events eff; p = di_bus (eff_instruction eff); taken = eff_branch_taken eff in
    length (filter is_opcode_fetch es) = unat (opcode_fetches p) \<and>
    length (filter is_immediate_read es) = unat (immediate_reads p) \<and>
    length (filter is_data_read es) = unat (data_reads p) + (if taken then unat (taken_data_reads p) else 0) \<and>
    length (filter is_data_write es) = unat (data_writes p) + (if taken then unat (taken_data_writes p) else 0)"
proof -
  obtain x where x: "step_body sha s (executor_new s input auth) =
      Inr ((eff_kind eff, eff_instruction eff, eff_branch_taken eff), x)" "ex_events x = eff_bus_events eff"
    using apply_step_trace [OF assms(1)] .
  have "step_program sha s (executor_new s input auth) = Inr ((eff_instruction eff, eff_branch_taken eff), x)"
    using instruction_step_body [OF x(1) assms(2)] .
  from step_program_issues [OF this] x(2) show ?thesis
    unfolding Let_def weight_counts [symmetric] by (simp add: executor_new_def instruction_weight_def)
qed

theorem instruction_accesses_exact_witness:
  "data_writes (di_bus store_instruction) = 1"
proof -
  obtain s' eff where step: "apply_step (\<lambda>_. 0) (store_vm (\<lambda>_. 0)) store_input Auth_Merkle = Inr (s', eff)"
    "eff_kind eff = SK_Instruction" "eff_instruction eff = store_instruction" "\<not> eff_branch_taken eff"
    "eff_bus_events eff = [Ev_OpcodeFetch store_fetch, Ev_MemoryWrite store_write]"
    using store_step [OF refl] .
  with instruction_accesses_exact [OF step(1,2)] show ?thesis by (simp add: Let_def word_unat_eq_iff)
qed

section \<open>Interrupts\<close>

lemma write_data_run:
  assumes "write_data sha a v x = Inr (u, x')"
  shows "\<exists>e. ex_events x' = ex_events x @ [e] \<and> event_address e = a \<and> event_value e = v \<and> is_data_write e \<and>
    vm_cpu (ex_state x') = vm_cpu (ex_state x)"
  using write_data_performs [of sha a v x] assms by (auto simp: performs_def exec_step_def dest: bus_step_cpu)

lemma push_interrupt_run:
  assumes "push_interrupt_return sha v x = Inr (u, x')"
  shows "\<exists>e f. ex_events x' = ex_events x @ [e, f] \<and> is_data_write e \<and> is_data_write f \<and>
    event_address e = cpu_sp (vm_cpu (ex_state x)) - 1 \<and> event_value e = u16_high v \<and>
    event_address f = cpu_sp (vm_cpu (ex_state x)) - 2 \<and> event_value f = u16_low v \<and>
    vm_cpu (ex_state x') = (vm_cpu (ex_state x))\<lparr>cpu_sp := cpu_sp (vm_cpu (ex_state x)) - 2\<rparr>"
proof -
  let ?sp = "cpu_sp (vm_cpu (ex_state x))"
  obtain x1 x2 where x1: "write_data sha (?sp - 1) (u16_high v) x = Inr ((), x1)"
    and x2: "write_data sha (?sp - 1 - 1) (u16_low v) (update_cpu (\<lambda>c. c\<lparr>cpu_sp := ?sp - 1\<rparr>) x1) = Inr ((), x2)"
    and x': "x' = update_cpu (\<lambda>c. c\<lparr>cpu_sp := ?sp - 1 - 1\<rparr>) x2"
    using assms by (auto simp: push_interrupt_return_def Let_def exec_Inr get_cpu_def modify_cpu_def)
  from write_data_run [OF x1] write_data_run [OF x2] show ?thesis
    by (auto simp: x' update_cpu_def update_state_def)
qed

lemma interrupt_step_body:
  assumes "step_body sha s x = Inr ((SK_InterruptDispatch who, i, b), x')"
  shows "interrupt_program sha who x = Inr ((), x') \<and> classify_dmg_machine_event s = Inr (Some (ME_Interrupt who))"
proof -
  have "event_body sha s e x = Inr ((SK_InterruptDispatch who, i, b), x') \<Longrightarrow>
      interrupt_program sha who x = Inr ((), x') \<and> e = ME_Interrupt who" for e
    by (cases e) (auto simp: machine_body_def exec_Inr)
  then show ?thesis
    using assms
    by (auto simp: step_body_def instruction_body_def machine_body_def exec_Inr
        split: if_splits sum.splits option.splits)
qed

lemma classify_interrupt:
  "classify_dmg_machine_event s = Inr (Some (ME_Interrupt who)) \<Longrightarrow>
     pending_interrupt (vm_dmg_devices s) = Some who \<and> cpu_ime (vm_cpu s) = Ime_Enabled"
  by (auto simp: classify_dmg_machine_event_def classify_halted_def Let_def
      split: run_state.splits option.splits if_splits)

lemma interrupt_program_run:
  assumes "interrupt_program sha who x = Inr (u, x')"
  shows "(let c = vm_cpu (ex_state x) in vm_cpu (ex_state x') = c\<lparr>cpu_run_state := Running, cpu_ime := Ime_Disabled,
      cpu_sp := cpu_sp c - 2, cpu_pc := interrupt_vector who, cpu_m_cycles := cpu_m_cycles c + 5\<rparr>) \<and>
    (\<exists>e f. ex_events x' = ex_events x @ [e, f] \<and> is_data_write e \<and> is_data_write f \<and>
      event_address e = cpu_sp (vm_cpu (ex_state x)) - 1 \<and> event_value e = u16_high (cpu_pc (vm_cpu (ex_state x))) \<and>
      event_address f = cpu_sp (vm_cpu (ex_state x)) - 2 \<and> event_value f = u16_low (cpu_pc (vm_cpu (ex_state x))))"
proof -
  let ?c = "vm_cpu (ex_state x)"
  obtain x1 where push: "push_interrupt_return sha (cpu_pc ?c) (update_devices (acknowledge_interrupt who)
        (update_cpu (\<lambda>c. c\<lparr>cpu_ime := Ime_Disabled\<rparr>) (update_cpu (\<lambda>c. c\<lparr>cpu_run_state := Running\<rparr>) x))) = Inr ((), x1)"
    and rest: "add_machine_timing 5 (update_cpu (\<lambda>c. c\<lparr>cpu_pc := interrupt_vector who\<rparr>) x1) = Inr (u, x')"
    using assms
    by (auto simp: interrupt_program_def interrupt_entry_def exec_Inr get_cpu_def modify_cpu_def
        update_cpu_def update_devices_def update_state_def)
  have "vm_cpu (ex_state x') = (vm_cpu (ex_state x1))\<lparr>cpu_pc := interrupt_vector who,
      cpu_m_cycles := cpu_m_cycles (vm_cpu (ex_state x1)) + 5\<rparr>" "ex_events x' = ex_events x1"
    using rest
    by (auto simp: add_machine_timing_def add_m_cycles_def exec_Inr get_cpu_def modify_cpu_def update_cpu_def
        update_devices_def update_state_def checked_add_def Let_def split: if_splits)
  with push_interrupt_run [OF push] show ?thesis
    by (auto simp: update_cpu_def update_devices_def update_state_def Let_def)
qed

text \<open>C25: Dispatching an interrupt: it happens only with the master enable on, for the pending interrupt
  of highest priority; the return address is pushed high byte first below the stack pointer by
  exactly two bus writes, the CPU continues at the interrupt's vector running and with interrupts
  disabled, five cycles later, and every other register is unchanged.\<close>

theorem interrupt_dispatch_exact:
  assumes "apply_step sha s input auth = Inr (s', eff)" "eff_kind eff = SK_InterruptDispatch who"
  shows "pending_interrupt (vm_dmg_devices s) = Some who \<and> cpu_ime (vm_cpu s) = Ime_Enabled \<and>
    (let c = vm_cpu s in vm_cpu s' = c\<lparr>cpu_run_state := Running, cpu_ime := Ime_Disabled, cpu_sp := cpu_sp c - 2,
       cpu_pc := interrupt_vector who, cpu_m_cycles := cpu_m_cycles c + 5\<rparr>) \<and>
    (\<exists>e f. eff_bus_events eff = [e, f] \<and> is_data_write e \<and> is_data_write f \<and>
      event_address e = cpu_sp (vm_cpu s) - 1 \<and> event_value e = u16_high (cpu_pc (vm_cpu s)) \<and>
      event_address f = cpu_sp (vm_cpu s) - 2 \<and> event_value f = u16_low (cpu_pc (vm_cpu s)))"
proof -
  let ?x = "executor_new s input auth"
  obtain x where x: "step_body sha s ?x = Inr ((SK_InterruptDispatch who, eff_instruction eff, eff_branch_taken eff), x)"
    "ex_events x = eff_bus_events eff" "finalize sha (eff_instruction eff) x = Inr (s', eff_bus_events eff)"
    using apply_step_trace [OF assms(1)] assms(2) by metis
  from interrupt_step_body [OF x(1)] have
    run: "interrupt_program sha who ?x = Inr ((), x)" and cls: "classify_dmg_machine_event s = Inr (Some (ME_Interrupt who))"
    by blast+
  have "vm_cpu s' = vm_cpu (ex_state x)" using x(3) by (auto simp: finalize_Inr split: if_splits)
  then show ?thesis using interrupt_program_run [OF run] classify_interrupt [OF cls] x(2) by (simp add: executor_new_def Let_def)
qed

theorem interrupt_dispatch_exact_witness:
  "\<exists>s' eff. apply_step (\<lambda>_. 0) (irq_vm (\<lambda>_. 0)) irq_input Auth_Lookup = Inr (s', eff) \<and>
     cpu_pc (vm_cpu s') = 0x0040 \<and> cpu_sp (vm_cpu s') = 0xfffc"
proof -
  obtain s' eff where step: "apply_step (\<lambda>_. 0) (irq_vm (\<lambda>_. 0)) irq_input Auth_Lookup = Inr (s', eff)"
    "eff_kind eff = SK_InterruptDispatch Int_VBlank"
    using irq_step [of "\<lambda>_. 0"] .
  with interrupt_dispatch_exact [OF step] show ?thesis
    by (simp add: Let_def irq_vm_def cpu_dmg_post_boot_initial_def)
qed

section \<open>Cartridge RAM\<close>

lemma bus_trace_member: "bus_trace sha auth s es s' \<Longrightarrow> e \<in> set es \<Longrightarrow> \<exists>t u. bus_step sha auth t e u"
  by (induction rule: bus_trace.induct) auto

text \<open>C27: Instruction fetches and data accesses to cartridge RAM never meet: in any accepted step, a data
  read, data write or DMA read at 0xa000 to 0xbfff touches the mapper's SRAM window at physical
  0x10000 to 0x17fff, while an opcode or immediate fetched from the same CPU addresses is taken
  from physical 0xa000 to 0xbfff, so code stored to cartridge RAM is not the code that executes.\<close>

theorem cartridge_ram_code_data_disjoint:
  assumes "apply_step sha s input auth = Inr (s', eff)" "e \<in> set (eff_bus_events eff)"
    "0xa000 \<le> event_address e" "event_address e \<le> 0xbfff"
  shows "(e = Ev_MemoryOpcodeFetch m \<or> e = Ev_MemoryImmediateRead m \<longrightarrow>
      0xa000 \<le> unat (mr_physical_address m) \<and> unat (mr_physical_address m) \<le> 0xbfff) \<and>
    (e = Ev_MemoryRead m \<or> e = Ev_DmgDmaMemoryRead m \<longrightarrow>
      0x10000 \<le> unat (mr_physical_address m) \<and> unat (mr_physical_address m) < 0x18000) \<and>
    (e = Ev_MemoryWrite w \<longrightarrow>
      0x10000 \<le> unat (mw_physical_address w) \<and> unat (mw_physical_address w) < 0x18000)"
proof -
  obtain t where "bus_trace sha auth s (eff_bus_events eff) t" using apply_step_final [OF assms(1)] .
  with bus_trace_member assms(2) obtain t u where "bus_step sha auth t e u" by blast
  then show ?thesis
    using assms(3,4)
    by cases (auto simp: data_physical_def word_le_nat_alt dest!: map_ram_range)
qed

theorem cartridge_ram_code_data_disjoint_witness:
  "0xa000 \<le> unat (mr_physical_address sram_read) \<and> unat (mr_physical_address sram_read) \<le> 0xbfff"
proof -
  obtain s' eff where step: "apply_step (\<lambda>_. 0) (sram_vm (\<lambda>_. 0)) sram_input Auth_Lookup = Inr (s', eff)"
    "eff_bus_events eff = [Ev_MemoryOpcodeFetch sram_read]"
    using sram_step [of "\<lambda>_. 0"] .
  with cartridge_ram_code_data_disjoint [OF step(1), of "Ev_MemoryOpcodeFetch sram_read" sram_read] show ?thesis
    by (simp add: sram_read_def)
qed

end
