(* ===== verification/Witness_Demand.thy ===== *)
theory Witness_Demand
  imports Runs
begin

text \<open>
  How many witnesses a step can ask for.  A program demands at most \<open>n\<close> witnesses when it only
  reports a missing one with fewer than \<open>n\<close> in its queue and consumes at most \<open>n\<close> otherwise; the
  demand of a sequence is the sum of the demands.  No step demands more than five, which is the
  bound the trace builders use.
\<close>

definition demands :: "nat \<Rightarrow> 'a ex \<Rightarrow> bool" where
  "demands n m \<longleftrightarrow>
     (\<forall>x. case m x of
        Inl e \<Rightarrow> (\<forall>q. e = MissingWitness q \<longrightarrow> length (ex_witnesses x) < n)
      | Inr (v, x') \<Rightarrow> length (ex_witnesses x) \<le> n + length (ex_witnesses x'))"

lemma demandsI:
  "(\<And>x q. m x = Inl (MissingWitness q) \<Longrightarrow> length (ex_witnesses x) < n) \<Longrightarrow>
   (\<And>x v x'. m x = Inr (v, x') \<Longrightarrow> length (ex_witnesses x) \<le> n + length (ex_witnesses x')) \<Longrightarrow> demands n m"
  by (auto simp: demands_def split: sum.split)

lemma demandsD:
  "demands n m \<Longrightarrow> m x = Inl (MissingWitness q) \<Longrightarrow> length (ex_witnesses x) < n"
  "demands n m \<Longrightarrow> m x = Inr (v, x') \<Longrightarrow> length (ex_witnesses x) \<le> n + length (ex_witnesses x')"
  by (force simp: demands_def split: sum.splits elim!: allE [of _ x])+

lemma demands_mono: "demands n m \<Longrightarrow> n \<le> k \<Longrightarrow> demands k m"
  by (rule demandsI) (fastforce dest: demandsD)+

lemma demands_bind: "demands a m \<Longrightarrow> (\<And>v. demands b (f v)) \<Longrightarrow> demands (a + b) (ebind m f)"
proof (rule demandsI)
  fix x q assume m: "demands a m" and f: "\<And>v. demands b (f v)" and run: "ebind m f x = Inl (MissingWitness q)"
  show "length (ex_witnesses x) < a + b"
  proof (cases "m x")
    case (Inl e)
    with run demandsD(1) [OF m] show ?thesis by (force simp: ebind_def)
  next
    case (Inr r)
    obtain v y where r: "r = (v, y)" by (cases r)
    with Inr run have "f v y = Inl (MissingWitness q)" by (simp add: ebind_def)
    then show ?thesis using demandsD(1) [OF f] demandsD(2) [OF m Inr [unfolded r]] by fastforce
  qed
next
  fix x v x' assume m: "demands a m" and f: "\<And>v. demands b (f v)" and "ebind m f x = Inr (v, x')"
  then show "length (ex_witnesses x) \<le> a + b + length (ex_witnesses x')"
    using demandsD(2) [OF m] demandsD(2) [OF f] by (fastforce simp: ebind_Inr)
qed

lemma demands_then: "demands a m \<Longrightarrow> demands b k \<Longrightarrow> demands (a + b) (ethen m k)"
  by (simp add: ethen_def demands_bind)

lemma demands_simple:
  "demands 0 (eret v)" "demands 0 (egets g)" "(\<And>x. ex_witnesses (h x) = ex_witnesses x) \<Longrightarrow> demands 0 (emodify h)"
  by (simp_all add: demands_def)

lemma demands_throw: "\<forall>q. e \<noteq> MissingWitness q \<Longrightarrow> demands 0 (ethrow e)"
  by (simp add: demands_def)

lemma demands_lift: "\<forall>q. r \<noteq> Inl (MissingWitness q) \<Longrightarrow> demands 0 (elift r)"
  by (cases r) (simp_all add: demands_def)

lemma demands_when: "demands n m \<Longrightarrow> demands n (ewhen b m)"
  by (auto simp: ewhen_def intro: demands_mono [OF demands_simple(1)])

lemma demands_if: "demands a m \<Longrightarrow> demands a n \<Longrightarrow> demands a (if b then m else n)"
  by simp

lemma demands_max: "demands a m \<Longrightarrow> demands b n \<Longrightarrow> demands (max a b) (if c then m else n)"
  by (auto elim: demands_mono)

section \<open>Accesses\<close>

lemma demands_next_witness: "demands (Suc 0) (next_witness q)"
  by (rule demandsI) (auto simp: next_witness_def Let_def split: list.splits if_splits)

lemma demands_elements:
  "demands 0 (elift (require_address a b role))" "demands 0 (elift (require_physical_address p p' role))"
  "demands 0 (elift (map_err RomAuthentication u))" "demands 0 (elift (map_err MemoryAuthentication v))"
  "demands 0 (elift (map_err LogCommitment w))" "demands 0 (elift (ok_or (DmgMmioUnavailable a) x))"
  "demands 0 (push_event e)" "demands 0 (emodify (update_state g))" "demands 0 (emodify (update_devices h))"
  "demands 0 (emodify (update_cpu i))"
  by (auto intro!: demands_lift demands_simple simp: require_address_def require_physical_address_def map_err_def
      ok_or_def push_event_def update_state_def update_devices_def update_cpu_def split: sum.splits option.splits)

lemmas demands_parts = demands_bind demands_then demands_simple(1,2) demands_elements demands_when

lemma demands_first:
  assumes "demands a m" "\<And>v. demands 0 (f v)"
  shows "demands a (ebind m f)"
  using demands_bind [OF assms] by simp

lemma demands_quiet: "demands 0 m \<Longrightarrow> demands b k \<Longrightarrow> demands b (ethen m k)"
  using demands_then [of 0 m b k] by simp

lemma demands_quiet_bind: "demands 0 m \<Longrightarrow> (\<And>v. demands b (f v)) \<Longrightarrow> demands b (ebind m f)"
  using demands_bind [of 0 m b f] by simp

lemmas demands_zero = demands_quiet demands_quiet_bind demands_simple(1,2) demands_elements demands_when demands_if

lemma demands_commit: "demands 0 (commit_write sha w)"
  by (auto simp: commit_write_def intro!: demands_zero)

lemma demands_take:
  "demands (Suc 0) (take_rom_read sha a p role)" "demands (Suc 0) (take_memory_read sha a p role)" "demands (Suc 0) (take_memory_write a p v)"
  "demands (Suc 0) (read_input sha)" "demands (Suc 0) (read_dmg_joypad sha)"
  unfolding take_rom_read_def take_memory_read_def take_memory_write_def read_input_def read_dmg_joypad_def
  by (rule demands_first [OF demands_next_witness];
      auto simp: Let_def case_prod_unfold intro!: demands_zero demands_throw split: bus_witness.split)+

lemma demands_device:
  "demands 0 (read_dmg_mmio a)" "demands 0 (write_dmg_mmio a v)" "demands 0 (write_output sha v)"
  "demands 0 (control_write a v)" "demands 0 (open_bus_read a)"
  by (auto simp: read_dmg_mmio_def write_dmg_mmio_def write_output_def control_write_def open_bus_read_def
      intro!: demands_zero demands_simple(3)) (simp add: update_state_def)

lemma demands_access:
  "demands (Suc 0) (read_memory sha a p)" "demands (Suc 0) (write_memory sha a p v)" "demands (Suc 0) (fetch sha a role)"
  "demands (Suc 0) (read_instruction_memory sha a role)"
proof -
  show "demands (Suc 0) (read_memory sha a p)"
    unfolding read_memory_def by (rule demands_first [OF demands_take(2)]) (auto intro!: demands_zero)
  show "demands (Suc 0) (write_memory sha a p v)"
    unfolding write_memory_def by (rule demands_first [OF demands_take(3)]) (auto intro!: demands_zero demands_commit)
  show "demands (Suc 0) (fetch sha a role)"
    unfolding fetch_def
    by (rule demands_quiet_bind [OF demands_simple(2)], rule demands_first [OF demands_take(1)])
       (auto intro!: demands_zero demands_throw split: bus_role.split)
  show "demands (Suc 0) (read_instruction_memory sha a role)"
    unfolding read_instruction_memory_def
    by (rule demands_first [OF demands_take(2)]) (auto intro!: demands_zero demands_throw split: bus_role.split)
qed

lemma demands_guards: "demands 0 (require_cpu_dma_access a)" "demands 0 (require_cpu_ppu_access a)"
  by (auto simp: require_cpu_dma_access_def require_cpu_ppu_access_def Let_def intro!: demands_zero demands_throw)

lemmas demands_weak = demands_mono [OF demands_throw zero_le] demands_mono [OF demands_device(1) zero_le]
  demands_mono [OF demands_device(2) zero_le] demands_mono [OF demands_device(3) zero_le]
  demands_mono [OF demands_device(4) zero_le] demands_mono [OF demands_device(5) zero_le]
  demands_mono [OF demands_elements(7) zero_le] demands_mono [OF demands_simple(1) zero_le]

lemma demands_data:
  "demands (Suc 0) (read_data sha a)" "demands (Suc 0) (write_data sha a v)" "demands (Suc 0) (fetch_instruction sha a role)"
  unfolding read_data_def write_data_def fetch_instruction_def
  by (rule demands_quiet [OF demands_guards(1)], rule demands_quiet [OF demands_guards(2)],
      rule demands_quiet_bind [OF demands_simple(2)];
      auto intro!: demands_take demands_access demands_weak split: mbc3_external_window.split address_owner.split)+

lemma demands_dma: "demands 2 (copy_dma_byte sha)"
proof -
  have rom: "demands (Suc 0) (ebind (take_rom_read sha a p r) (\<lambda>read. ethen (push_event (Ev_DmgDmaRomRead read)) (eret (rr_value read))))" for a p r
    by (rule demands_first [OF demands_take(1)]) (auto intro!: demands_zero)
  have ram: "demands (Suc 0) (ebind (take_memory_read sha a p r) (\<lambda>read. ethen (push_event (Ev_DmgDmaMemoryRead read)) (eret (mr_value read))))" for a p r
    by (rule demands_first [OF demands_take(2)]) (auto intro!: demands_zero)
  have source: "demands (Suc 0) (dma_source_byte sha a)" for a
    unfolding dma_source_byte_def
    by (rule demands_quiet_bind [OF demands_simple(2)])
       (auto intro!: rom ram demands_quiet_bind [OF _ ram] demands_weak(1) demands_simple demands_throw
         split: address_owner.split mbc3_external_window.split)
  have dest: "demands (Suc 0) (dma_write_byte sha a v)" for a v
    unfolding dma_write_byte_def
    by (rule demands_first [OF demands_take(3)]) (auto intro!: demands_zero demands_commit)
  have "demands 2 (ebind (dma_source_byte sha a) (\<lambda>v. ethen (dma_write_byte sha b v) (emodify (update_devices f))))" for a b f
    by (rule demands_mono, rule demands_bind [OF source], rule demands_then [OF dest demands_elements(9)]) simp
  then show ?thesis
    unfolding copy_dma_byte_def
    by (intro demands_quiet_bind [OF demands_simple(2)]) (auto simp: Let_def intro!: demands_weak)
qed

section \<open>Instructions\<close>

lemma demands_cpu:
  "demands 0 get_cpu" "demands 0 (modify_cpu f)" "demands 0 (register8_ex r)" "demands 0 (register16_ex q)"
  "demands 0 (set_register8 r b)" "demands 0 (set_register16 q v)" "demands 0 (stack_register sr)"
  "demands 0 (indirect_address_of i)" "demands 0 (branch_condition c)"
  by (auto simp: get_cpu_def modify_cpu_def register8_ex_def register16_ex_def set_register8_def set_register16_def
      stack_register_def indirect_address_of_def branch_condition_def intro!: demands_zero)

lemma demands_lifts:
  "demands 0 (elift (immediate_byte imm))" "demands 0 (elift (immediate_word imm))" "demands 0 (elift (bit_mask b))"
  "demands 0 (elift (ok_or InstructionMetadataInvariant r))" "demands 0 (elift (immediate_push v imm))"
  "demands 0 (elift (map_err (\<lambda>b. InvalidState (InvalidFlags b)) fl))" "demands 0 (elift (machine_event_marker k))"
  by (auto intro!: demands_lift simp: immediate_byte_def immediate_word_def bit_mask_def ok_or_def immediate_push_def
      map_err_def machine_event_marker_def split: option.splits sum.splits opcode_classification.splits)

lemma demands_registers: "demands 0 (set_stack_register sr v)" "demands 0 (update_hl_after_indirect i)"
  by (cases sr; auto intro!: demands_zero demands_cpu demands_lifts) (cases i; auto intro!: demands_zero demands_cpu)

lemma demands_operands:
  "demands (Suc 0) (read_operand sha opd imm)" "demands (Suc 0) (write_operand sha opd v)"
  "demands (Suc 0) (transfer_accumulator sha a d)"
proof -
  note weak = demands_mono [OF demands_lifts(1) zero_le] demands_mono [OF demands_cpu(3) zero_le]
    demands_mono [OF demands_cpu(5) zero_le] demands_weak
  show "demands (Suc 0) (read_operand sha opd imm)" "demands (Suc 0) (write_operand sha opd v)"
    by (cases opd; auto intro!: demands_quiet_bind [OF demands_cpu(4)] demands_data weak)+
  show "demands (Suc 0) (transfer_accumulator sha a d)"
    by (cases d) (auto intro!: demands_quiet_bind [OF demands_cpu(1)] demands_first [OF demands_data(1)] demands_data demands_cpu)
qed

lemma demands_words:
  "demands 2 (push_word sha v)" "demands 2 (pop_word sha)" "demands 2 (store_sp_absolute sha a)"
  "demands 2 (push_interrupt_return sha v)"
  unfolding push_word_def pop_word_def store_sp_absolute_def push_interrupt_return_def Let_def
  by (rule demands_mono, (rule demands_bind demands_then demands_cpu demands_data demands_simple)+, simp)+

lemma demands_execute: "demands 2 (execute sha i imm)"
proof -
  note parts = demands_bind demands_then demands_when demands_max demands_operands demands_words demands_cpu demands_lifts
    demands_registers demands_simple(1,2) demands_throw
  have "demands 2 (execute_load sha op imm)" "demands 2 (execute_alu8 sha op imm)" "demands 2 (execute_alu16 op imm)"
    "demands 2 (execute_rotate sha op imm)" "demands 2 (execute_jump op imm)" "demands 2 (execute_call_return sha op imm)"
    "demands 2 (execute_stack sha op)" "demands 2 (execute_interrupt op)" "demands 2 (execute_control op)" for op
    by (cases op; simp only: execute_defs update_operand_def operation.simps Let_def case_prod_unfold; rule demands_mono;
        ((rule parts)+)?; simp add: demands_throw)+
  moreover have "demands 2 (execute_low_power op imm)" for op
  proof (cases op)
    case Op_Stop
    show ?thesis unfolding Op_Stop execute_low_power_def operation.simps
      by (rule demands_mono [OF demands_quiet_bind [OF demands_lifts(1)]], rule demands_if)
         (auto intro!: demands_throw demands_zero demands_cpu)
  qed (auto simp: execute_low_power_def intro!: demands_weak demands_mono [OF demands_quiet [OF demands_cpu(2) demands_simple(1)] zero_le])
  moreover have "demands 2 (execute_bit sha op imm)" for op
  proof (cases op)
    case (Op_Cb cb opd)
    show ?thesis unfolding Op_Cb execute_bit_def operation.simps
      by (cases cb; simp only: cb_operation.simps; rule demands_mono; ((rule parts)+)?; simp)
  qed (auto simp: execute_bit_def intro!: demands_weak)
  ultimately show ?thesis
    by (auto simp: execute_def Let_def intro!: demands_weak split: instruction_class.split)
qed

section \<open>Steps\<close>

lemma demands_fetching: "demands (Suc 0) (fetch_and_advance sha role)" "demands (Suc 0) (fetch_first_opcode sha b)"
  unfolding fetch_and_advance_def fetch_first_opcode_def
  by (rule demands_quiet_bind [OF demands_cpu(1)], rule demands_first [OF demands_data(3)];
      auto intro!: demands_zero demands_cpu)+

lemma demands_immediates: "demands n (fetch_immediate_loop sha n imm)"
proof (induction n arbitrary: imm)
  case (Suc n)
  have "demands (Suc 0 + n) (fetch_immediate_loop sha (Suc n) imm)"
    unfolding fetch_immediate_loop.simps
    by (intro demands_bind [OF demands_fetching(1)] demands_quiet_bind [OF demands_lifts(5)] Suc)
  then show ?case by simp
qed (simp add: demands_simple)

lemma demands_decode: "demands 2 (decode_fetched sha opcode)"
proof (cases "opcode = 0xcb")
  case True
  then show ?thesis
    unfolding decode_fetched_def
    by (simp, intro demands_mono [OF demands_first [OF demands_fetching(1)]]) (simp_all add: demands_simple)
next
  case False
  have "demands 2 (fetch_immediates sha (di_byte_len i))" if "decode_primary opcode = Defined i" for i
    unfolding fetch_immediates_def
    by (rule demands_mono [OF demands_immediates]) (simp add: primary_immediates [OF that] immediates_needed_le)
  with False show ?thesis
    by (auto simp: decode_fetched_def intro!: demands_weak demands_first demands_simple split: opcode_classification.split)
qed

lemma demands_timing: "demands 0 (add_m_cycles n)" "demands 0 (add_timing i b d)" "demands 0 (add_machine_timing c)"
proof -
  show m: "demands 0 (add_m_cycles n)" for n
    unfolding add_m_cycles_def
    by (auto intro!: demands_zero demands_cpu demands_lift simp: ok_or_def split: option.splits)
  show "demands 0 (add_timing i b d)" "demands 0 (add_machine_timing c)"
    by (auto simp: add_timing_def add_machine_timing_def Let_def intro!: demands_zero m)
qed

lemma demands_step_program: "demands 5 (step_program sha s)"
proof -
  have ime: "demands 0 (apply_delayed_ime op b)" for op b
    by (auto simp: apply_delayed_ime_def intro!: demands_zero demands_cpu)
  have "demands 5 (step_execute sha s)"
    unfolding step_execute_def case_prod_unfold
    by (rule demands_mono, (rule demands_bind demands_then demands_fetching demands_decode demands_execute ime demands_simple)+) simp
  then show ?thesis
    unfolding step_program_def case_prod_unfold
    by (rule demands_first) (auto intro!: demands_zero demands_timing demands_cpu)
qed

lemma demands_machine_body: "demands n m \<Longrightarrow> demands n (machine_body m kind marker)"
  using demands_then [of n m 0, OF _ demands_quiet_bind [OF demands_lifts(7) demands_simple(1)]]
  by (simp add: machine_body_def)

theorem demands_step_body: "demands 5 (step_body sha s)"
proof -
  have five: "demands 5 (machine_body m kind marker)" if "demands 2 m" for m kind marker
    using that by (auto intro!: demands_machine_body elim: demands_mono)
  have two: "demands 0 m \<Longrightarrow> demands 2 m" for m :: "unit ex" by (erule demands_mono) simp
  have entry: "demands 2 (interrupt_program sha who)" for who
    unfolding interrupt_program_def interrupt_entry_def
    by (rule demands_mono, (rule demands_bind demands_then demands_words demands_cpu demands_elements(9) demands_timing)+) simp
  have "demands 5 (event_body sha s e)" for e
    by (cases e) (auto intro!: five entry two demands_quiet demands_cpu demands_timing demands_elements)
  moreover have "demands 5 (instruction_body sha s)"
    by (auto simp: instruction_body_def case_prod_unfold intro!: demands_weak demands_first demands_step_program demands_simple)
  moreover have "e \<noteq> MissingWitness q" if "classify_dmg_machine_event s = Inl e" for e q
    using that by (auto simp: classify_dmg_machine_event_def Let_def split: run_state.splits option.splits if_splits)
  ultimately show ?thesis
    by (auto simp: step_body_def intro!: five demands_dma demands_weak split: sum.split option.split)
qed

text \<open>A step that reports a missing witness was given fewer than five.\<close>

lemma missing_witness_bound:
  assumes "apply_step sha s input auth = Inl (MissingWitness q)"
  shows "length (input_witnesses input) < 5"
proof -
  have "step_body sha s (executor_new s input auth) = Inl (MissingWitness q)"
    using assms by (auto simp: apply_step_body and_then_eq_Inl complete_step_def finalize_def map_err_def
        split: if_splits sum.splits)
  from demandsD(1) [OF demands_step_body this] show ?thesis by (simp add: executor_new_def)
qed

end
