(* ===== verification/Witness_Service.thy ===== *)
theory Witness_Service
  imports Witness_Demand
begin

text \<open>
  A step as a dialogue.  A program of the executor asks for one witness at a time; \<open>served\<close> says
  that, as long as every answer is the authenticated access that was asked for, the program never
  blames its witnesses: it asks again, ends, or fails for a reason of the machine itself.  This
  is what a prover that answers from the committed images relies on.
\<close>

section \<open>Answers\<close>

fun prover_error :: "step_error \<Rightarrow> bool" where
  "prover_error (MissingWitness _) = True"
| "prover_error (UnexpectedWitness _ _) = True"
| "prover_error WitnessKindInvariant = True"
| "prover_error (AddressMismatch _ _ _) = True"
| "prover_error (PhysicalAddressMismatch _ _ _) = True"
| "prover_error (WriteValueMismatch _ _) = True"
| "prover_error (SurplusWitnesses _) = True"
| "prover_error (RomAuthentication _) = True"
| "prover_error (MemoryAuthentication _) = True"
| "prover_error _ = False"

text \<open>A request that stays inside the committed images, and the witnesses that answer it under the
  current memory root; a write moves the root.\<close>

type_synonym cartridge = "commitment_root \<times> mbc3_cartridge_profile"

fun request_ok :: "cartridge \<Rightarrow> witness_request \<Rightarrow> bool" where
  "request_ok rom (Req_Rom a p _) \<longleftrightarrow> owner a = Own_Rom \<and> unat p < rom_byte_length (prof_rom_size (snd rom))"
| "request_ok rom (Req_MemoryRead a p) \<longleftrightarrow> (owner a = Own_Memory \<or> dmg_owner a = Own_Memory) \<and> unat p < 2 ^ 17"
| "request_ok rom (Req_MemoryWrite a p _) \<longleftrightarrow> (owner a = Own_Memory \<or> dmg_owner a = Own_Memory) \<and> unat p < 2 ^ 17"
| "request_ok rom Req_InputByte \<longleftrightarrow> True"

fun answers ::
  "digest \<Rightarrow> bus_authentication \<Rightarrow> cartridge \<Rightarrow> commitment_root \<Rightarrow> witness_request \<Rightarrow> bus_witness \<Rightarrow>
     commitment_root \<Rightarrow> bool" where
  "answers sha auth rom mem (Req_Rom a p _) w mem' \<longleftrightarrow>
     (\<exists>r. w = Wit_Rom r \<and> rr_address r = a \<and> rr_physical_address r = p \<and>
        (auth = Auth_Merkle \<longrightarrow> rom_read_check sha r (fst rom) = Inr ()) \<and> mem' = mem)"
| "answers sha auth rom mem (Req_MemoryRead a p) w mem' \<longleftrightarrow>
     (\<exists>m. w = Wit_MemoryRead m \<and> mr_address m = a \<and> mr_physical_address m = p \<and>
        (auth = Auth_Merkle \<longrightarrow> memory_read_check sha m mem = Inr ()) \<and> mem' = mem)"
| "answers sha auth rom mem (Req_MemoryWrite a p v) w mem' \<longleftrightarrow>
     (\<exists>m. w = Wit_MemoryWrite m \<and> mw_address m = a \<and> mw_physical_address m = p \<and> mw_after m = v \<and>
        (if auth = Auth_Merkle then memory_write_check sha m mem = Inr mem' else mem' = mem))"
| "answers sha auth rom mem Req_InputByte w mem' \<longleftrightarrow> (\<exists>v. w = Wit_InputByte v) \<and> mem' = mem"

section \<open>Dialogues\<close>

definition steady :: "bus_authentication \<Rightarrow> cartridge \<Rightarrow> executor \<Rightarrow> bool" where
  "steady auth rom x \<longleftrightarrow>
     ex_authentication x = auth \<and> vm_rom_root (ex_state x) = fst rom \<and> cartridge_profile (vm_profile (ex_state x)) = snd rom \<and>
     mbc3_wf (snd rom) (vm_mbc3 (ex_state x))"

inductive served ::
  "digest \<Rightarrow> bus_authentication \<Rightarrow> cartridge \<Rightarrow> commitment_root \<Rightarrow>
     (bus_witness list \<Rightarrow> step_error + ('a \<times> executor)) \<Rightarrow> bool"
  for sha :: digest and auth :: bus_authentication and rom :: cartridge where
  finished: "\<forall>ws. g ws = Inr (v, y\<lparr>ex_witnesses := ws\<rparr>) \<Longrightarrow> steady auth rom y \<Longrightarrow>
    vm_memory_root (ex_state y) = mem \<Longrightarrow> served sha auth rom mem g"
| failed: "\<forall>ws. g ws = Inl e \<Longrightarrow> \<not> prover_error e \<Longrightarrow> served sha auth rom mem g"
| asks: "g [] = Inl (MissingWitness q) \<Longrightarrow> request_ok rom q \<Longrightarrow>
    (\<And>w mem'. answers sha auth rom mem q w mem' \<Longrightarrow> served sha auth rom mem' (\<lambda>ws. g (w # ws))) \<Longrightarrow>
    served sha auth rom mem g"

definition serves :: "digest \<Rightarrow> bus_authentication \<Rightarrow> cartridge \<Rightarrow> 'a ex \<Rightarrow> bool" where
  "serves sha auth rom m \<longleftrightarrow>
     (\<forall>x. steady auth rom x \<longrightarrow>
        served sha auth rom (vm_memory_root (ex_state x)) (\<lambda>ws. m (x\<lparr>ex_witnesses := ws\<rparr>)))"

lemma steady_queue [simp]: "steady auth rom (x\<lparr>ex_witnesses := ws\<rparr>) = steady auth rom x"
  by (simp add: steady_def)

lemma servesI:
  "(\<And>x. steady auth rom x \<Longrightarrow> served sha auth rom (vm_memory_root (ex_state x)) (\<lambda>ws. m (x\<lparr>ex_witnesses := ws\<rparr>))) \<Longrightarrow>
     serves sha auth rom m"
  by (simp add: serves_def)

lemma served_bind:
  assumes "served sha auth rom mem g" "\<And>v. serves sha auth rom (f v)"
  shows "served sha auth rom mem (\<lambda>ws. case g ws of Inl e \<Rightarrow> Inl e | Inr (v, y) \<Rightarrow> f v y)"
  using assms(1)
proof (induction rule: served.induct)
  case (finished g v y mem)
  have "served sha auth rom (vm_memory_root (ex_state y)) (\<lambda>ws. f v (y\<lparr>ex_witnesses := ws\<rparr>))"
    using assms(2) [of v] finished(2) unfolding serves_def by blast
  with finished show ?case by simp
next
  case (failed g e mem)
  have "\<forall>ws. (case g ws of Inl e \<Rightarrow> Inl e | Inr (v, y) \<Rightarrow> f v y) = Inl e" using failed(1) by simp
  then show ?case using failed(2) by (rule served.failed)
next
  case (asks g q mem)
  have "(case g [] of Inl e \<Rightarrow> Inl e | Inr (v, y) \<Rightarrow> f v y) = Inl (MissingWitness q)" using asks(1) by simp
  then show ?case using asks(2,4) by (rule served.asks)
qed

lemma serves_bind: "serves sha auth rom m \<Longrightarrow> (\<And>v. serves sha auth rom (f v)) \<Longrightarrow> serves sha auth rom (ebind m f)"
  by (rule servesI) (simp add: ebind_def serves_def [of sha auth rom m] served_bind)

lemma serves_then: "serves sha auth rom m \<Longrightarrow> serves sha auth rom k \<Longrightarrow> serves sha auth rom (ethen m k)"
  by (simp add: ethen_def serves_bind)

lemma serves_ret: "serves sha auth rom (eret v)"
  by (rule servesI) (auto intro: served.finished)

lemma serves_throw: "\<not> prover_error e \<Longrightarrow> serves sha auth rom (ethrow e)"
  by (rule servesI) (auto intro: served.failed)

lemma serves_lift: "(\<And>e. r = Inl e \<Longrightarrow> \<not> prover_error e) \<Longrightarrow> serves sha auth rom (elift r)"
  by (cases r) (auto intro!: servesI intro: served.failed served.finished)

lemma serves_gets: "(\<And>x ws. g (x\<lparr>ex_witnesses := ws\<rparr>) = g x) \<Longrightarrow> serves sha auth rom (egets g)"
  by (rule servesI) (auto intro: served.finished)

lemma serves_bind_gets:
  assumes "\<And>x. steady auth rom x \<Longrightarrow> serves sha auth rom (f (g x))" "\<And>x ws. g (x\<lparr>ex_witnesses := ws\<rparr>) = g x"
  shows "serves sha auth rom (ebind (egets g) f)"
  using assms by (intro servesI) (simp add: ebind_def serves_def)

lemma serves_modify:
  assumes "\<And>x ws. h (x\<lparr>ex_witnesses := ws\<rparr>) = (h x)\<lparr>ex_witnesses := ws\<rparr>"
    "\<And>x. steady auth rom x \<Longrightarrow> steady auth rom (h x) \<and> vm_memory_root (ex_state (h x)) = vm_memory_root (ex_state x)"
  shows "serves sha auth rom (emodify h)"
  using assms by (intro servesI) (auto intro!: served.finished)

lemma serves_when: "serves sha auth rom m \<Longrightarrow> serves sha auth rom (ewhen b m)"
  by (simp add: ewhen_def serves_ret)

lemmas serves_intros = serves_ret serves_bind serves_then serves_when

lemma serves_updates:
  "serves sha auth rom (push_event e)" "serves sha auth rom (emodify (update_cpu f))"
  "serves sha auth rom (emodify (update_devices h))"
  "serves sha auth rom (emodify (update_state (\<lambda>s. s\<lparr>vm_input_log := l\<rparr>)))"
  "serves sha auth rom (emodify (update_state (\<lambda>s. s\<lparr>vm_output_log := l\<rparr>)))"
  unfolding push_event_def
  by (rule serves_modify; simp add: update_cpu_def update_devices_def update_state_def steady_def)+

section \<open>Accesses\<close>

lemma serves_take:
  "request_ok rom (Req_Rom a p role) \<Longrightarrow> serves sha auth rom (take_rom_read sha a p role)"
  "request_ok rom (Req_MemoryRead a p) \<Longrightarrow> serves sha auth rom (take_memory_read sha a p r)"
proof -
  show "serves sha auth rom (take_rom_read sha a p role)" if "request_ok rom (Req_Rom a p role)"
  proof (rule servesI)
    fix x assume x: "steady auth rom x"
    show "served sha auth rom (vm_memory_root (ex_state x)) (\<lambda>ws. take_rom_read sha a p role (x\<lparr>ex_witnesses := ws\<rparr>))"
      by (rule served.asks [of _ "Req_Rom a p role"])
         (use that x in \<open>auto simp: take_rom_read_def next_witness_def exec_defs require_address_def
           require_physical_address_def steady_def Let_def intro!: served.finished [of _ _ x]\<close>)
  qed
  show "serves sha auth rom (take_memory_read sha a p r)" if "request_ok rom (Req_MemoryRead a p)"
  proof (rule servesI)
    fix x assume x: "steady auth rom x"
    show "served sha auth rom (vm_memory_root (ex_state x)) (\<lambda>ws. take_memory_read sha a p r (x\<lparr>ex_witnesses := ws\<rparr>))"
      by (rule served.asks [of _ "Req_MemoryRead a p"])
         (use that x in \<open>auto simp: take_memory_read_def next_witness_def exec_defs require_address_def
           require_physical_address_def steady_def Let_def intro!: served.finished [of _ _ x]\<close>)
  qed
qed

text \<open>A write is asked for, verified and committed in one go: the answer moves the root.\<close>

lemma served_write:
  assumes "steady auth rom x" "request_ok rom (Req_MemoryWrite a p v)"
    "\<And>w x'. ex_witnesses x' = [] \<Longrightarrow> \<exists>y. push w x' = Inr ((), y) \<and> y = x'\<lparr>ex_events := ex_events y\<rparr> \<and>
       (\<forall>ws. push w (x'\<lparr>ex_witnesses := ws\<rparr>) = Inr ((), y\<lparr>ex_witnesses := ws\<rparr>))"
  shows "served sha auth rom (vm_memory_root (ex_state x))
    (\<lambda>ws. ebind (take_memory_write a p v) (\<lambda>w. ethen (commit_write sha w) (push w)) (x\<lparr>ex_witnesses := ws\<rparr>))"
proof (rule served.asks [of _ "Req_MemoryWrite a p v"])
  let ?g = "\<lambda>ws. ebind (take_memory_write a p v) (\<lambda>w. ethen (commit_write sha w) (push w)) (x\<lparr>ex_witnesses := ws\<rparr>)"
  show "?g [] = Inl (MissingWitness (Req_MemoryWrite a p v))"
    by (simp add: take_memory_write_def next_witness_def exec_defs)
  show "request_ok rom (Req_MemoryWrite a p v)" by (rule assms)
  fix w mem' assume "answers sha auth rom (vm_memory_root (ex_state x)) (Req_MemoryWrite a p v) w mem'"
  then obtain m where m: "w = Wit_MemoryWrite m" "mw_address m = a" "mw_physical_address m = p" "mw_after m = v"
      "if auth = Auth_Merkle then memory_write_check sha m (vm_memory_root (ex_state x)) = Inr mem'
       else mem' = vm_memory_root (ex_state x)"
    by auto
  let ?x = "x\<lparr>ex_state := (ex_state x)\<lparr>vm_memory_root := mem'\<rparr>, ex_witnesses := []\<rparr>"
  obtain y where y: "push m ?x = Inr ((), y)" "y = ?x\<lparr>ex_events := ex_events y\<rparr>"
      "\<forall>ws. push m (?x\<lparr>ex_witnesses := ws\<rparr>) = Inr ((), y\<lparr>ex_witnesses := ws\<rparr>)"
    using assms(3) [of ?x m] by auto
  have take: "take_memory_write a p v (x\<lparr>ex_witnesses := w # ws\<rparr>) = Inr (m, x\<lparr>ex_witnesses := ws\<rparr>)" for ws
    using m by (simp add: take_memory_write_Inr)
  have commit: "commit_write sha m (x\<lparr>ex_witnesses := ws\<rparr>) = Inr ((), ?x\<lparr>ex_witnesses := ws\<rparr>)" for ws
    using m(5) assms(1)
    by (cases "auth = Auth_Merkle") (auto simp: commit_write_def exec_defs steady_def update_state_def)
  show "served sha auth rom mem' (\<lambda>ws. ?g (w # ws))"
  proof (rule served.finished)
    show "\<forall>ws. ?g (w # ws) = Inr ((), y\<lparr>ex_witnesses := ws\<rparr>)"
      using y(3) by (simp add: ebind_def ethen_def take commit del: executor.update_convs)
    show "steady auth rom y" "vm_memory_root (ex_state y) = mem'"
      using assms(1) by (subst y(2); simp add: steady_def)+
  qed
qed

lemma serves_writes:
  "request_ok rom (Req_MemoryWrite a p v) \<Longrightarrow> serves sha auth rom (write_memory sha a p v)"
  "request_ok rom (Req_MemoryWrite a (ucast a) v) \<Longrightarrow> serves sha auth rom (dma_write_byte sha a v)"
  unfolding write_memory_def dma_write_byte_def
  by (rule servesI, rule served_write; simp add: push_event_def)+

lemma serves_log_error: "serves sha auth rom (elift (map_err LogCommitment r))"
  by (rule serves_lift) (auto simp: map_err_def split: sum.splits)

lemma serves_input: "serves sha auth rom (read_input sha)" "serves sha auth rom (read_dmg_joypad sha)"
proof -
  have ask: "serves sha auth rom (ebind (next_witness Req_InputByte) f)"
    if "\<And>b. serves sha auth rom (f (Wit_InputByte b))" for f :: "bus_witness \<Rightarrow> 'b ex"
  proof (rule servesI)
    fix x assume x: "steady auth rom x"
    show "served sha auth rom (vm_memory_root (ex_state x)) (\<lambda>ws. ebind (next_witness Req_InputByte) f (x\<lparr>ex_witnesses := ws\<rparr>))"
      by (rule served.asks [of _ Req_InputByte])
         (use that x in \<open>auto simp: next_witness_def exec_defs Let_def serves_def\<close>)
  qed
  show "serves sha auth rom (read_input sha)"
    unfolding read_input_def
    by (rule ask) (auto intro!: serves_intros serves_gets serves_log_error serves_updates)
  show "serves sha auth rom (read_dmg_joypad sha)"
    unfolding read_dmg_joypad_def
    by (rule ask) (auto simp: Let_def case_prod_unfold intro!: serves_intros serves_gets serves_log_error serves_updates)
qed

section \<open>CPU accesses\<close>

lemma serves_rom:
  assumes "a \<le> 0x7fff"
  shows "serves sha auth rom (fetch sha a role)"
  unfolding fetch_def
proof (rule serves_bind_gets)
  fix x assume "steady auth rom x"
  then have "request_ok rom (Req_Rom a (map_rom_for (vm_mbc3 (ex_state x)) (the_cartridge x) a) role)"
    using assms map_rom_bound [of "snd rom" "vm_mbc3 (ex_state x)" a]
    by (auto simp: steady_def owner_rom_iff word_le_nat_alt)
  then show "serves sha auth rom (ebind (take_rom_read sha a (map_rom_for (vm_mbc3 (ex_state x)) (the_cartridge x) a) role)
      (\<lambda>read. ethen (case role of Role_OpcodeFetch \<Rightarrow> push_event (Ev_OpcodeFetch read)
         | Role_ImmediateRead \<Rightarrow> push_event (Ev_ImmediateRead read) | Role_DataRead \<Rightarrow> push_event (Ev_RomRead read)
         | Role_DataWrite \<Rightarrow> ethrow InstructionMetadataInvariant) (eret (rr_value read))))"
    by (auto intro!: serves_intros serves_take serves_updates serves_throw split: bus_role.split)
qed simp

lemma serves_memory:
  "request_ok rom (Req_MemoryRead a p) \<Longrightarrow> serves sha auth rom (read_memory sha a p)"
  "request_ok rom (Req_MemoryRead a (ucast a)) \<Longrightarrow> serves sha auth rom (read_instruction_memory sha a role)"
  unfolding read_memory_def read_instruction_memory_def
  by (auto intro!: serves_intros serves_take serves_updates serves_throw simp del: request_ok.simps split: bus_role.split)

lemma serves_output: "serves sha auth rom (write_output sha v)"
  unfolding write_output_def by (auto intro!: serves_intros serves_gets serves_log_error serves_updates)

lemma serves_mmio: "serves sha auth rom (read_dmg_mmio a)" "serves sha auth rom (write_dmg_mmio a v)"
  unfolding read_dmg_mmio_def write_dmg_mmio_def
  by (auto intro!: serves_intros serves_gets serves_lift serves_updates simp: ok_or_def split: option.splits)

lemma serves_mapper: "serves sha auth rom (control_write a v)" "serves sha auth rom (open_bus_read a)"
proof -
  have "serves sha auth rom (emodify (\<lambda>x. update_state (\<lambda>s. s\<lparr>vm_mbc3 := apply_control_write_for (the_cartridge x) a v (vm_mbc3 s)\<rparr>) x))"
    by (rule serves_modify) (auto simp: update_state_def steady_def control_write_wf)
  then show "serves sha auth rom (control_write a v)"
    unfolding control_write_def by (intro serves_intros serves_updates)
  show "serves sha auth rom (open_bus_read a)"
    unfolding open_bus_read_def by (intro serves_intros serves_updates)
qed

lemma serves_bind_state:
  assumes "\<And>s. serves sha auth rom (f s)" "\<And>x ws. f (ex_state (x\<lparr>ex_witnesses := ws\<rparr>)) = f (ex_state x)"
  shows "serves sha auth rom (ebind (egets (\<lambda>x. ex_state x)) f)"
  using assms by (intro serves_bind_gets) simp_all

lemma serves_guards: "serves sha auth rom (require_cpu_dma_access a)" "serves sha auth rom (require_cpu_ppu_access a)"
  unfolding require_cpu_dma_access_def require_cpu_ppu_access_def
  by (rule serves_bind_state; auto simp: Let_def intro!: serves_throw serves_ret)+

text \<open>The physical byte behind a mutable address is inside the committed image.\<close>

lemma state_owner_mutable: "state_owner s a = Own_Memory \<Longrightarrow> owner a = Own_Memory \<or> dmg_owner a = Own_Memory"
  by (auto simp: state_owner_def split: if_splits)

lemma direct_physical: "unat (a :: u16) < 131072"
  using unat_less_65536 [of a] by linarith

lemma window_request:
  assumes "external_window_for m p a = Win_Ram i"
  shows "(owner a = Own_Memory \<or> dmg_owner a = Own_Memory) \<and> unat i < 131072"
  using unat_window_ram [OF assms] map_ram_range [OF assms] by (auto simp: owner_memory_iff word_le_nat_alt)

lemma serves_fetch_instruction: "serves sha auth rom (fetch_instruction sha a role)"
  unfolding fetch_instruction_def
  by (intro serves_then serves_guards serves_bind_gets)
     (auto simp: direct_physical intro!: serves_rom serves_memory serves_throw
        dest: state_owner_rom state_owner_mutable split: address_owner.split)

lemma serves_data: "serves sha auth rom (read_data sha a)" "serves sha auth rom (write_data sha a v)"
  unfolding read_data_def write_data_def
  by (intro serves_then serves_guards serves_bind_state;
      auto simp: direct_physical intro!: serves_rom serves_memory serves_writes serves_throw serves_input
        serves_output serves_mmio serves_mapper serves_updates
        dest: state_owner_rom state_owner_mutable window_request split: address_owner.split mbc3_external_window.split)+

section \<open>Instructions\<close>

lemma serves_cpu: "serves sha auth rom get_cpu" "serves sha auth rom (modify_cpu f)"
  unfolding get_cpu_def modify_cpu_def by (auto intro: serves_gets serves_updates)

lemma serves_registers:
  "serves sha auth rom (register8_ex r)" "serves sha auth rom (register16_ex q)" "serves sha auth rom (set_register8 r b)"
  "serves sha auth rom (set_register16 q w)" "serves sha auth rom (stack_register sr)"
  "serves sha auth rom (branch_condition c)" "serves sha auth rom (indirect_address_of i)"
  by (auto simp: register8_ex_def register16_ex_def set_register8_def set_register16_def stack_register_def
      branch_condition_def indirect_address_of_def intro!: serves_intros serves_cpu)

lemma serves_lifts:
  "serves sha auth rom (elift (immediate_byte imm))" "serves sha auth rom (elift (immediate_word imm))"
  "serves sha auth rom (elift (bit_mask b))" "serves sha auth rom (elift (ok_or InstructionMetadataInvariant r))"
  "serves sha auth rom (elift (immediate_push v imm))"
  "serves sha auth rom (elift (map_err (\<lambda>b. InvalidState (InvalidFlags b)) fl))"
  "serves sha auth rom (elift (machine_event_marker k))" "serves sha auth rom (elift (ok_or CycleCountOverflow w))"
  by (auto intro!: serves_lift simp: immediate_byte_def immediate_word_def bit_mask_def ok_or_def immediate_push_def
      map_err_def machine_event_marker_def split: option.splits sum.splits opcode_classification.splits)

lemmas serves_parts = serves_intros serves_cpu serves_registers serves_lifts serves_data serves_throw

lemma serves_operands:
  "serves sha auth rom (set_stack_register sr w)" "serves sha auth rom (update_hl_after_indirect i)"
  "serves sha auth rom (read_operand sha opd imm)" "serves sha auth rom (write_operand sha opd v)"
  "serves sha auth rom (transfer_accumulator sha a d)"
proof -
  show "serves sha auth rom (set_stack_register sr w)" by (cases sr) (auto intro!: serves_parts)
  show "serves sha auth rom (update_hl_after_indirect i)" by (cases i) (auto intro!: serves_parts)
  show "serves sha auth rom (read_operand sha opd imm)" "serves sha auth rom (write_operand sha opd v)"
    by (cases opd; auto intro!: serves_parts)+
  show "serves sha auth rom (transfer_accumulator sha a d)" by (cases d) (auto intro!: serves_parts)
qed

lemma serves_words:
  "serves sha auth rom (push_word sha w)" "serves sha auth rom (pop_word sha)"
  "serves sha auth rom (store_sp_absolute sha a)" "serves sha auth rom (push_interrupt_return sha w)"
  by (auto simp: push_word_def pop_word_def store_sp_absolute_def push_interrupt_return_def Let_def
      intro!: serves_intros serves_data serves_cpu)

lemma serves_update_operand: "serves sha auth rom (update_operand sha opd imm f)"
  by (auto simp: update_operand_def Let_def intro!: serves_parts serves_operands)

lemma serves_execute: "serves sha auth rom (execute sha i imm)"
  by (auto simp: execute_def execute_defs Let_def case_prod_unfold
      intro!: serves_parts serves_operands serves_words serves_update_operand
      split: instruction_class.split operation.split cb_operation.split)

section \<open>Steps\<close>

lemma serves_fetching: "serves sha auth rom (fetch_and_advance sha role)" "serves sha auth rom (fetch_first_opcode sha b)"
  by (auto simp: fetch_and_advance_def fetch_first_opcode_def intro!: serves_parts serves_fetch_instruction)

lemma serves_immediates: "serves sha auth rom (fetch_immediate_loop sha n imm)"
  by (induction n arbitrary: imm) (auto intro!: serves_parts serves_fetching)

lemma serves_decode: "serves sha auth rom (decode_fetched sha opcode)"
  by (auto simp: decode_fetched_def fetch_immediates_def intro!: serves_parts serves_fetching serves_immediates
      split: opcode_classification.split)

lemma serves_timing:
  "serves sha auth rom (add_m_cycles n)" "serves sha auth rom (add_timing i b d)" "serves sha auth rom (add_machine_timing c)"
  by (auto simp: add_m_cycles_def add_timing_def add_machine_timing_def Let_def
      intro!: serves_parts serves_gets serves_updates)

lemma serves_step_program: "serves sha auth rom (step_program sha s)"
  by (auto simp: step_program_def step_execute_def apply_delayed_ime_def case_prod_unfold
      intro!: serves_parts serves_fetching serves_decode serves_execute serves_timing)

lemma serves_machine_body: "serves sha auth rom m \<Longrightarrow> serves sha auth rom (machine_body m kind marker)"
  by (auto simp: machine_body_def intro!: serves_parts)

lemma serves_dma_source: "serves sha auth rom (dma_source_byte sha a)"
proof -
  have rom: "serves sha auth rom (ebind (take_rom_read sha a (map_rom_for (vm_mbc3 (ex_state x)) (cartridge_profile (vm_profile (ex_state x))) a) r)
      (\<lambda>read. ethen (push_event (Ev_DmgDmaRomRead read)) (eret (rr_value read))))"
    if "steady auth rom x" "a \<le> 0x7fff" for x r
    using that map_rom_bound [of "snd rom" "vm_mbc3 (ex_state x)" a]
    by (auto simp: steady_def owner_rom_iff word_le_nat_alt intro!: serves_intros serves_take serves_updates)
  have ram: "serves sha auth rom (ebind (take_memory_read sha a i r) (\<lambda>read. ethen (push_event (Ev_DmgDmaMemoryRead read)) (eret (mr_value read))))"
    if "request_ok rom (Req_MemoryRead a i)" for i r
    using that by (intro serves_intros serves_take serves_updates)
  have pure: "ebind (eret i) f = f i" "ebind (ethrow e) f = ethrow e" for i e and f :: "u32 \<Rightarrow> u8 ex"
    by (simp_all add: ebind_def fun_eq_iff)
  show ?thesis
    unfolding dma_source_byte_def
  proof (rule serves_bind_gets)
    fix x assume x: "steady auth rom x"
    let ?s = "ex_state x"
    show "serves sha auth rom
      (case state_owner ?s a of
         Own_Rom \<Rightarrow> ebind (take_rom_read sha a (map_rom_for (vm_mbc3 ?s) (cartridge_profile (vm_profile ?s)) a) Role_DataRead)
           (\<lambda>read. ethen (push_event (Ev_DmgDmaRomRead read)) (eret (rr_value read)))
       | Own_Memory \<Rightarrow>
           ebind (if 0xa000 \<le> a \<and> a \<le> 0xbfff then
                    (case external_window_for (vm_mbc3 ?s) (cartridge_profile (vm_profile ?s)) a of
                       Win_Ram physical \<Rightarrow> eret physical
                     | Win_RtcRegister select \<Rightarrow> ethrow (Mbc3RtcRegisterUnavailable select)
                     | Win_Unavailable \<Rightarrow> ethrow (DmgDmaSourceUnavailable a))
                  else eret (ucast a)) (\<lambda>physical.
           ebind (take_memory_read sha a physical Role_DataRead) (\<lambda>read.
             ethen (push_event (Ev_DmgDmaMemoryRead read)) (eret (mr_value read))))
       | _ \<Rightarrow> ethrow (DmgDmaSourceUnavailable a))"
    proof (cases "state_owner ?s a = Own_Memory")
      case True
      then show ?thesis
        using state_owner_mutable [OF True] window_request [of "vm_mbc3 ?s" "cartridge_profile (vm_profile ?s)" a]
        by (auto simp: pure direct_physical intro!: ram serves_throw split: mbc3_external_window.split)
    next
      case False
      then show ?thesis using x by (auto intro!: rom serves_throw dest: state_owner_rom split: address_owner.split)
    qed
  qed simp
qed

text \<open>A DMA copy writes one page, all of it mutable.\<close>

lemma serves_copy_dma: "serves sha auth rom (copy_dma_byte sha)"
proof -
  have "owner (dma_destination_address d) = Own_Memory" for d
    using dma_addresses(1) [of d] unat_less_256 [of "dma_index d"]
    by (simp add: owner_memory_iff word_le_nat_alt del: unat_less_256)
  then have "serves sha auth rom (dma_write_byte sha (dma_destination_address d) v)" for d v
    by (intro serves_writes) (simp add: direct_physical)
  then show ?thesis
    unfolding copy_dma_byte_def Let_def
    by (auto intro!: serves_bind [OF serves_gets] serves_then serves_bind [OF serves_dma_source] serves_throw serves_updates)
qed

lemma serves_step_body: "serves sha auth rom (step_body sha s)"
proof -
  have "serves sha auth rom (event_body sha s e)" for e
    by (cases e)
       (auto simp: interrupt_program_def interrupt_entry_def
         intro!: serves_machine_body serves_parts serves_updates serves_timing serves_words)
  moreover have "serves sha auth rom (instruction_body sha s)"
    by (auto simp: instruction_body_def case_prod_unfold intro!: serves_parts serves_step_program)
  moreover have "\<not> prover_error e" if "classify_dmg_machine_event s = Inl e" for e
    using that by (auto simp: classify_dmg_machine_event_def Let_def split: run_state.splits option.splits if_splits)
  ultimately show ?thesis
    by (auto simp: step_body_def intro!: serves_machine_body serves_copy_dma serves_throw split: sum.split option.split)
qed

end
