(* ===== verification/Trace_Model.thy ===== *)
theory Trace_Model
  imports Runs Image "HOL-Library.Product_Lexorder"
begin

text \<open>
  Trace rows, chunks and complete witnesses (\<open>zksm83-trace/src/model.rs\<close>): the validating
  constructors with their continuity checks, the 23 checked execution metrics, and the
  instruction-address histogram.
\<close>

section \<open>Errors\<close>

datatype trace_error =
    TE_Step step_error
  | TE_EmptyChunk
  | TE_DiscontinuousRow nat
  | TE_ChunkShapeInvariant
  | TE_EmptyWitness
  | TE_DiscontinuousChunk nat
  | TE_WitnessShapeInvariant
  | TE_StepCountOverflow
  | TE_MetricOverflow
  | TE_CycleRegression

text \<open>Recursion under \<open>?\<close>.\<close>

lemma and_then_cong [fundef_cong]:
  "r = r' \<Longrightarrow> (\<And>x. r' = Inr x \<Longrightarrow> f x = g x) \<Longrightarrow> and_then r f = and_then r' g"
  by (cases r') (simp_all add: and_then_def)

section \<open>Slices\<close>

text \<open>\<open>first\<close>, \<open>last\<close> and \<open>windows\<close> of a slice; \<open>u64::try_from(usize)\<close> on a 64-bit host.\<close>

fun slice_first :: "'a list \<Rightarrow> 'a option" where
  "slice_first [] = None"
| "slice_first (x # xs) = Some x"

definition slice_last :: "'a list \<Rightarrow> 'a option" where
  "slice_last xs = (if xs = [] then None else Some (last xs))"

definition windows :: "nat \<Rightarrow> 'a list \<Rightarrow> 'a list list" where
  "windows n xs = map (\<lambda>i. take n (drop i xs)) [0..<Suc (length xs) - n]"

definition u64_try_from :: "nat \<Rightarrow> u64 option" where
  "u64_try_from n = (if n < 2 ^ 64 then Some (word_of_nat n) else None)"

section \<open>Rows\<close>

record trace_row =
  row_before :: vm_state
  row_after :: vm_state
  row_effects :: step_effects

definition trace_row_from_accepted :: "vm_state \<Rightarrow> vm_state \<Rightarrow> step_effects \<Rightarrow> trace_row" where
  "trace_row_from_accepted before after effects =
     \<lparr>row_before = before, row_after = after, row_effects = effects\<rparr>"

definition trace_row_execute :: "digest \<Rightarrow> vm_state \<Rightarrow> step_input \<Rightarrow> trace_error + trace_row" where
  "trace_row_execute sha before input =
     and_then (map_err TE_Step (step_relation_apply sha before input)) (\<lambda>(after, effects).
       Inr \<lparr>row_before = before, row_after = after, row_effects = effects\<rparr>)"

section \<open>Chunks\<close>

record trace_chunk =
  chunk_rows :: "trace_row list"

definition check_row_pair :: "unit \<Rightarrow> nat \<times> trace_row list \<Rightarrow> trace_error + unit" where
  "check_row_pair _ = (\<lambda>(index, pair).
     and_then (ok_or TE_ChunkShapeInvariant (slice_first pair)) (\<lambda>before.
     and_then (ok_or TE_ChunkShapeInvariant (slice_last pair)) (\<lambda>after.
       if row_after before \<noteq> row_before after then Inl (TE_DiscontinuousRow index) else Inr ())))"

definition trace_chunk_new :: "trace_row list \<Rightarrow> trace_error + trace_chunk" where
  "trace_chunk_new rows =
     (if rows = [] then Inl TE_EmptyChunk
      else and_then (try_fold check_row_pair () (enumerate 0 (windows 2 rows))) (\<lambda>_.
        Inr \<lparr>chunk_rows = rows\<rparr>))"

definition chunk_initial_state :: "trace_chunk \<Rightarrow> trace_error + vm_state" where
  "chunk_initial_state c = ok_or TE_EmptyChunk (map_option row_before (slice_first (chunk_rows c)))"

definition chunk_final_state :: "trace_chunk \<Rightarrow> trace_error + vm_state" where
  "chunk_final_state c = ok_or TE_EmptyChunk (map_option row_after (slice_last (chunk_rows c)))"

section \<open>Witnesses\<close>

record exec_witness =
  wit_chunks :: "trace_chunk list"
  wit_initial_state :: vm_state
  wit_final_state :: vm_state
  wit_step_count :: u64

definition check_chunk_pair :: "unit \<Rightarrow> nat \<times> trace_chunk list \<Rightarrow> trace_error + unit" where
  "check_chunk_pair _ = (\<lambda>(index, pair).
     and_then (ok_or TE_WitnessShapeInvariant (slice_first pair)) (\<lambda>before.
     and_then (ok_or TE_WitnessShapeInvariant (slice_last pair)) (\<lambda>after.
     and_then (chunk_final_state before) (\<lambda>left.
     and_then (chunk_initial_state after) (\<lambda>right.
       if left \<noteq> right then Inl (TE_DiscontinuousChunk index) else Inr ())))))"

definition add_chunk_len :: "u64 \<Rightarrow> trace_chunk \<Rightarrow> trace_error + u64" where
  "add_chunk_len amount c =
     and_then (ok_or TE_StepCountOverflow (u64_try_from (length (chunk_rows c)))) (\<lambda>chunk_len.
       ok_or TE_StepCountOverflow (checked_add amount chunk_len))"

definition witness_new :: "trace_chunk list \<Rightarrow> trace_error + exec_witness" where
  "witness_new chunks =
     and_then (ok_or TE_EmptyWitness (slice_first chunks)) (\<lambda>first.
     and_then (ok_or TE_EmptyWitness (slice_last chunks)) (\<lambda>final.
     and_then (try_fold check_chunk_pair () (enumerate 0 (windows 2 chunks))) (\<lambda>_.
     and_then (try_fold add_chunk_len 0 chunks) (\<lambda>step_count.
     and_then (chunk_initial_state first) (\<lambda>initial_state.
     and_then (chunk_final_state final) (\<lambda>final_state.
       Inr \<lparr>wit_chunks = chunks, wit_initial_state = initial_state, wit_final_state = final_state,
             wit_step_count = step_count\<rparr>))))))"

definition witness_from_rows :: "trace_row list \<Rightarrow> trace_error + exec_witness" where
  "witness_from_rows rows = and_then (trace_chunk_new rows) (\<lambda>chunk. witness_new [chunk])"

definition witness_rows :: "exec_witness \<Rightarrow> trace_row list" where
  "witness_rows w = concat (map chunk_rows (wit_chunks w))"

section \<open>Metrics\<close>

record execution_metrics =
  met_relation_steps :: u64
  met_instructions :: u64
  met_halt_idle_steps :: u64
  met_halt_idle_m_cycles :: u64
  met_halt_until_vblank_steps :: u64
  met_halt_until_vblank_m_cycles :: u64
  met_halt_until_serial_steps :: u64
  met_halt_until_serial_m_cycles :: u64
  met_halt_until_timer_steps :: u64
  met_halt_until_timer_m_cycles :: u64
  met_halt_wake_steps :: u64
  met_interrupt_dispatches :: u64
  met_dma_byte_steps :: u64
  met_bus_events :: u64
  met_rom_reads :: u64
  met_memory_reads :: u64
  met_memory_writes :: u64
  met_input_events :: u64
  met_output_events :: u64
  met_isa_rows :: u64
  met_joypad_samples :: u64
  met_battery_sram_writes :: u64
  met_dma_starts :: u64

definition metrics_default :: execution_metrics where
  "metrics_default =
     \<lparr>met_relation_steps = 0, met_instructions = 0, met_halt_idle_steps = 0, met_halt_idle_m_cycles = 0,
      met_halt_until_vblank_steps = 0, met_halt_until_vblank_m_cycles = 0, met_halt_until_serial_steps = 0,
      met_halt_until_serial_m_cycles = 0, met_halt_until_timer_steps = 0, met_halt_until_timer_m_cycles = 0,
      met_halt_wake_steps = 0, met_interrupt_dispatches = 0, met_dma_byte_steps = 0, met_bus_events = 0,
      met_rom_reads = 0, met_memory_reads = 0, met_memory_writes = 0, met_input_events = 0,
      met_output_events = 0, met_isa_rows = 0, met_joypad_samples = 0, met_battery_sram_writes = 0,
      met_dma_starts = 0\<rparr>"

definition metric_increment :: "u64 \<Rightarrow> trace_error + u64" where
  "metric_increment v = ok_or TE_MetricOverflow (checked_add v 1)"

text \<open>\<open>increment(&mut self.field)?\<close>: a field is given by its selector and its update.\<close>

type_synonym metric_field = "(execution_metrics \<Rightarrow> u64) \<times> ((u64 \<Rightarrow> u64) \<Rightarrow> execution_metrics \<Rightarrow> execution_metrics)"

definition bump :: "metric_field \<Rightarrow> execution_metrics \<Rightarrow> trace_error + execution_metrics" where
  "bump f m = and_then (metric_increment (fst f m)) (\<lambda>v. Inr (snd f (\<lambda>_. v) m))"

definition add_elapsed :: "metric_field \<Rightarrow> trace_row \<Rightarrow> execution_metrics \<Rightarrow> trace_error + execution_metrics" where
  "add_elapsed f row m =
     and_then (ok_or TE_CycleRegression
         (checked_sub (cpu_m_cycles (vm_cpu (row_after row))) (cpu_m_cycles (vm_cpu (row_before row))))) (\<lambda>elapsed.
     and_then (ok_or TE_MetricOverflow (checked_add (fst f m) elapsed)) (\<lambda>v. Inr (snd f (\<lambda>_. v) m)))"

definition record_kind :: "trace_row \<Rightarrow> execution_metrics \<Rightarrow> trace_error + execution_metrics" where
  "record_kind row m =
     (case eff_kind (row_effects row) of
        SK_Instruction \<Rightarrow> bump (met_instructions, met_instructions_update) m
      | SK_HaltIdle \<Rightarrow>
          and_then (bump (met_halt_idle_steps, met_halt_idle_steps_update) m)
            (add_elapsed (met_halt_idle_m_cycles, met_halt_idle_m_cycles_update) row)
      | SK_HaltUntilVBlank \<Rightarrow>
          and_then (bump (met_halt_until_vblank_steps, met_halt_until_vblank_steps_update) m)
            (add_elapsed (met_halt_until_vblank_m_cycles, met_halt_until_vblank_m_cycles_update) row)
      | SK_HaltUntilSerial \<Rightarrow>
          and_then (bump (met_halt_until_serial_steps, met_halt_until_serial_steps_update) m)
            (add_elapsed (met_halt_until_serial_m_cycles, met_halt_until_serial_m_cycles_update) row)
      | SK_HaltUntilTimer \<Rightarrow>
          and_then (bump (met_halt_until_timer_steps, met_halt_until_timer_steps_update) m)
            (add_elapsed (met_halt_until_timer_m_cycles, met_halt_until_timer_m_cycles_update) row)
      | SK_HaltWake \<Rightarrow> bump (met_halt_wake_steps, met_halt_wake_steps_update) m
      | SK_InterruptDispatch _ \<Rightarrow> bump (met_interrupt_dispatches, met_interrupt_dispatches_update) m
      | SK_DmaByte \<Rightarrow> bump (met_dma_byte_steps, met_dma_byte_steps_update) m)"

definition bus_metric :: "bus_event \<Rightarrow> metric_field option" where
  "bus_metric e =
     (case e of
        Ev_OpcodeFetch _ \<Rightarrow> Some (met_rom_reads, met_rom_reads_update)
      | Ev_ImmediateRead _ \<Rightarrow> Some (met_rom_reads, met_rom_reads_update)
      | Ev_RomRead _ \<Rightarrow> Some (met_rom_reads, met_rom_reads_update)
      | Ev_DmgDmaRomRead _ \<Rightarrow> Some (met_rom_reads, met_rom_reads_update)
      | Ev_MemoryOpcodeFetch _ \<Rightarrow> Some (met_memory_reads, met_memory_reads_update)
      | Ev_MemoryImmediateRead _ \<Rightarrow> Some (met_memory_reads, met_memory_reads_update)
      | Ev_MemoryRead _ \<Rightarrow> Some (met_memory_reads, met_memory_reads_update)
      | Ev_DmgDmaMemoryRead _ \<Rightarrow> Some (met_memory_reads, met_memory_reads_update)
      | Ev_MemoryWrite _ \<Rightarrow> Some (met_memory_writes, met_memory_writes_update)
      | Ev_DmgDmaWrite _ \<Rightarrow> Some (met_memory_writes, met_memory_writes_update)
      | Ev_InputRead _ _ \<Rightarrow> Some (met_input_events, met_input_events_update)
      | Ev_DmgJoypadRead _ _ _ _ \<Rightarrow> Some (met_input_events, met_input_events_update)
      | Ev_OutputWrite _ _ \<Rightarrow> Some (met_output_events, met_output_events_update)
      | _ \<Rightarrow> None)"

definition device_metric :: "bus_event \<Rightarrow> metric_field option" where
  "device_metric e =
     (case e of
        Ev_DmgJoypadRead _ _ _ _ \<Rightarrow> Some (met_joypad_samples, met_joypad_samples_update)
      | Ev_MemoryWrite w \<Rightarrow>
          if 0x10000 \<le> mw_physical_address w \<and> mw_physical_address w \<le> 0x17fff
          then Some (met_battery_sram_writes, met_battery_sram_writes_update) else None
      | Ev_DmgMmioWrite address _ _ \<Rightarrow>
          if address = 0xff46 then Some (met_dma_starts, met_dma_starts_update) else None
      | _ \<Rightarrow> None)"

definition bump_opt :: "metric_field option \<Rightarrow> execution_metrics \<Rightarrow> trace_error + execution_metrics" where
  "bump_opt f m = (case f of None \<Rightarrow> Inr m | Some g \<Rightarrow> bump g m)"

definition record_bus_event :: "execution_metrics \<Rightarrow> bus_event \<Rightarrow> trace_error + execution_metrics" where
  "record_bus_event m e =
     and_then (bump (met_bus_events, met_bus_events_update) m) (\<lambda>m.
     and_then (bump_opt (bus_metric e) m) (bump_opt (device_metric e)))"

definition record_bus_events :: "trace_row \<Rightarrow> execution_metrics \<Rightarrow> trace_error + execution_metrics" where
  "record_bus_events row m = try_fold record_bus_event m (eff_bus_events (row_effects row))"

definition metrics_record :: "execution_metrics \<Rightarrow> trace_row \<Rightarrow> trace_error + execution_metrics" where
  "metrics_record m row =
     and_then (bump (met_relation_steps, met_relation_steps_update) m) (\<lambda>m.
     and_then (bump (met_isa_rows, met_isa_rows_update) m) (\<lambda>m.
     and_then (record_kind row m) (record_bus_events row)))"

section \<open>Boundaries\<close>

record execution_boundary =
  bnd_initial_state :: vm_state
  bnd_final_state :: vm_state
  bnd_step_count :: u64
  bnd_metrics :: execution_metrics

definition boundary_from_exact :: "vm_state \<Rightarrow> vm_state \<Rightarrow> execution_metrics \<Rightarrow> execution_boundary" where
  "boundary_from_exact initial_state final_state metrics =
     \<lparr>bnd_initial_state = initial_state, bnd_final_state = final_state,
      bnd_step_count = met_relation_steps metrics, bnd_metrics = metrics\<rparr>"

section \<open>Program-counter profile\<close>

text \<open>The \<open>BTreeMap\<close> as an association list in ascending key order.\<close>

record program_counter_count =
  pcc_pc :: u16
  pcc_rom_bank :: "u8 option"
  pcc_physical_pc :: u32
  pcc_count :: u64

type_synonym program_counter_profile = "(u32 \<times> u64) list"

definition physical_pc :: "vm_state \<Rightarrow> u32" where
  "physical_pc state =
     (let pc = cpu_pc (vm_cpu state) in
      if pc \<le> 0x3fff then ucast pc
      else if pc \<le> 0x7fff then ucast (rom_bank (vm_mbc3 state)) * 0x4000 + ucast (pc - 0x4000)
      else push_bit 20 1 + ucast pc)"

fun btree_insert :: "u32 \<Rightarrow> u64 \<Rightarrow> program_counter_profile \<Rightarrow> program_counter_profile" where
  "btree_insert k v [] = [(k, v)]"
| "btree_insert k v ((k', v') # xs) =
     (if k < k' then (k, v) # (k', v') # xs
      else if k = k' then (k, v) # xs
      else (k', v') # btree_insert k v xs)"

definition profile_record :: "program_counter_profile \<Rightarrow> trace_row \<Rightarrow> trace_error + program_counter_profile" where
  "profile_record counts row =
     (if eff_kind (row_effects row) \<noteq> SK_Instruction then Inr counts
      else
        let key = physical_pc (row_before row);
            count = (case map_of counts key of None \<Rightarrow> 0 | Some c \<Rightarrow> c)
        in and_then (metric_increment count) (\<lambda>c. Inr (btree_insert key c counts)))"

definition profile_entry :: "u32 \<times> u64 \<Rightarrow> program_counter_count option" where
  "profile_entry = (\<lambda>(physical, count).
     if physical < push_bit 20 1 then
       (if physical div 0x4000 \<le> 0xff \<and> physical mod 0x4000 \<le> 0xffff
        then
          let bank = (ucast (physical div 0x4000) :: u8);
              offset = (ucast (physical mod 0x4000) :: u16)
          in Some \<lparr>pcc_pc = (if bank = 0 then offset else 0x4000 + offset), pcc_rom_bank = Some bank,
                   pcc_physical_pc = physical, pcc_count = count\<rparr>
        else None)
     else if physical - push_bit 20 1 \<le> 0xffff then
       Some \<lparr>pcc_pc = ucast (physical - push_bit 20 1), pcc_rom_bank = None, pcc_physical_pc = physical,
             pcc_count = count\<rparr>
     else None)"

text \<open>\<open>sort_unstable_by\<close>: descending count, then ascending address; the addresses are distinct.\<close>

definition profile_order :: "program_counter_count \<Rightarrow> int \<times> u32" where
  "profile_order c = (- uint (pcc_count c), pcc_physical_pc c)"

definition profile_top :: "program_counter_profile \<Rightarrow> nat \<Rightarrow> program_counter_count list" where
  "profile_top counts limit = take limit (sort_key profile_order (List.map_filter profile_entry counts))"

section \<open>Continuity\<close>

fun contiguous :: "trace_row list \<Rightarrow> bool" where
  "contiguous (r # r' # rs) \<longleftrightarrow> row_after r = row_before r' \<and> contiguous (r' # rs)"
| "contiguous [] \<longleftrightarrow> True"
| "contiguous [r] \<longleftrightarrow> True"

lemma windows_Cons: "windows 2 (x # y # zs) = [x, y] # windows 2 (y # zs)"
proof -
  have "[0..<Suc (length (x # y # zs)) - 2] = 0 # map Suc [0..<length zs]"
    by (simp add: upt_conv_Cons map_Suc_upt del: upt_Suc)
  then show ?thesis by (simp add: windows_def o_def del: upt_Suc)
qed

lemma windows_short [simp]: "windows 2 [] = []" "windows 2 [x] = []"
  by (simp_all add: windows_def)

lemma slice_ends [simp]: "slice_last [x, y] = Some y" "xs \<noteq> [] \<Longrightarrow> slice_last xs = Some (last xs)"
  "xs \<noteq> [] \<Longrightarrow> slice_first xs = Some (hd xs)"
  by (cases xs; simp add: slice_last_def)+

lemma contiguous_iff: "contiguous rows \<longleftrightarrow> (\<forall>i. Suc i < length rows \<longrightarrow> row_after (rows ! i) = row_before (rows ! Suc i))"
proof (induction rows rule: contiguous.induct)
  case (1 r r' rs)
  then show ?case by (auto simp: nth_Cons less_Suc_eq_0_disj all_conj_distrib split: nat.splits)
qed auto

lemma contiguous_append:
  "contiguous (xs @ ys) \<longleftrightarrow> contiguous xs \<and> contiguous ys \<and>
     (xs \<noteq> [] \<longrightarrow> ys \<noteq> [] \<longrightarrow> row_after (last xs) = row_before (hd ys))"
proof (induction xs rule: contiguous.induct)
  case (3 r)
  then show ?case by (cases ys) auto
qed auto

lemma check_row_pairs:
  "try_fold check_row_pair () (enumerate n (windows 2 rows)) =
     (if contiguous rows then Inr ()
      else Inl (TE_DiscontinuousRow (n + (LEAST i. Suc i < length rows \<and> row_after (rows ! i) \<noteq> row_before (rows ! Suc i)))))"
proof (induction rows arbitrary: n rule: contiguous.induct)
  case (1 r r' rs)
  let ?P = "\<lambda>rows i. Suc i < length rows \<and> row_after (rows ! i) \<noteq> row_before (rows ! Suc i)"
  show ?case
  proof (cases "row_after r = row_before r'")
    case True
    have "(LEAST i. ?P (r # r' # rs) i) = Suc (LEAST i. ?P (r' # rs) i)" if "\<not> contiguous (r' # rs)"
    proof -
      obtain i where "?P (r' # rs) i" using \<open>\<not> contiguous (r' # rs)\<close> by (auto simp: contiguous_iff)
      then have "?P (r # r' # rs) (Suc i)" by simp
      from Least_Suc [of "?P (r # r' # rs)", OF this] True show ?thesis by simp
    qed
    with True 1 [of "Suc n"] show ?thesis by (simp add: windows_Cons check_row_pair_def)
  next
    case False
    then have "(LEAST i. ?P (r # r' # rs) i) = 0" by (intro Least_equality) simp_all
    with False show ?thesis by (simp add: windows_Cons check_row_pair_def)
  qed
qed simp_all

lemma trace_chunk_new_Inr:
  "trace_chunk_new rows = Inr c \<longleftrightarrow> rows \<noteq> [] \<and> contiguous rows \<and> c = \<lparr>chunk_rows = rows\<rparr>"
  by (auto simp: trace_chunk_new_def check_row_pairs)

text \<open>A chunk its constructor returned, and what a whole witness checks about such chunks.\<close>

definition chunk_valid :: "trace_chunk \<Rightarrow> bool" where
  "chunk_valid c \<longleftrightarrow> trace_chunk_new (chunk_rows c) = Inr c"

lemma chunk_validD: "chunk_valid c \<Longrightarrow> chunk_rows c \<noteq> [] \<and> contiguous (chunk_rows c)"
  by (simp add: chunk_valid_def trace_chunk_new_Inr)

lemma chunk_states:
  "chunk_valid c \<Longrightarrow> chunk_initial_state c = Inr (row_before (hd (chunk_rows c)))"
  "chunk_valid c \<Longrightarrow> chunk_final_state c = Inr (row_after (last (chunk_rows c)))"
  using chunk_validD [of c] by (simp_all add: chunk_initial_state_def chunk_final_state_def)

lemma check_chunk_pairs:
  assumes "\<forall>c \<in> set chunks. chunk_valid c"
  shows "try_fold check_chunk_pair () (enumerate n (windows 2 chunks)) = Inr u \<longleftrightarrow>
    contiguous (concat (map chunk_rows chunks))"
  using assms
proof (induction chunks arbitrary: n)
  case (Cons c cs)
  show ?case
  proof (cases cs)
    case Nil
    then show ?thesis using Cons.prems chunk_validD [of c] by simp
  next
    case (Cons d ds)
    then have v: "chunk_valid c" "chunk_valid d" using Cons.prems by simp_all
    have "hd (chunk_rows d @ xs) = hd (chunk_rows d)" for xs using chunk_validD [OF v(2)] by simp
    then show ?thesis
      using Cons.IH [of "Suc n"] Cons.prems chunk_validD [OF v(1)] chunk_validD [OF v(2)] chunk_states [OF v(1)]
        chunk_states [OF v(2)]
      by (auto simp: Cons windows_Cons check_chunk_pair_def contiguous_append)
  qed
qed simp

lemma unat_less_u64 [simp]: "unat (w :: u64) < 18446744073709551616"
  using unsigned_less [of w, where 'a = nat] by simp

lemma add_chunk_lens:
  "try_fold add_chunk_len amount chunks = Inr v \<longleftrightarrow>
     unat amount + length (concat (map chunk_rows chunks)) < 2 ^ 64 \<and>
     unat v = unat amount + length (concat (map chunk_rows chunks))"
proof (induction chunks arbitrary: amount)
  case (Cons c cs)
  have "add_chunk_len amount c = (if unat amount + length (chunk_rows c) < 2 ^ 64
      then Inr (amount + word_of_nat (length (chunk_rows c))) else Inl TE_StepCountOverflow)"
    by (auto simp: add_chunk_len_def u64_try_from_def checked_add_def unat_of_nat ok_or_def)
  moreover have "unat (amount + word_of_nat (length (chunk_rows c))) = unat amount + length (chunk_rows c)"
    if "unat amount + length (chunk_rows c) < 2 ^ 64"
    using that by (subst unat_add_lem [THEN iffD1]) (simp_all add: unat_of_nat)
  ultimately show ?case using Cons [of "amount + word_of_nat (length (chunk_rows c))"] by auto
qed (auto simp: word_unat_eq_iff)

lemma witness_new_Inr:
  assumes "\<forall>c \<in> set chunks. chunk_valid c"
  shows "witness_new chunks = Inr w \<longleftrightarrow>
    chunks \<noteq> [] \<and> contiguous (concat (map chunk_rows chunks)) \<and>
    length (concat (map chunk_rows chunks)) < 2 ^ 64 \<and>
    wit_chunks w = chunks \<and> wit_initial_state w = row_before (hd (witness_rows w)) \<and>
    wit_final_state w = row_after (last (witness_rows w)) \<and> unat (wit_step_count w) = length (witness_rows w)"
proof (cases "chunks = []")
  case False
  then have v: "chunk_valid (hd chunks)" "chunk_valid (last chunks)" using assms by simp_all
  let ?rows = "concat (map chunk_rows chunks)"
  have "hd ?rows = hd (chunk_rows (hd chunks))" using False chunk_validD [OF v(1)] by (cases chunks) simp_all
  moreover have "last ?rows = last (chunk_rows (last chunks))"
    using False chunk_validD [OF v(2)] by (cases chunks rule: rev_cases) simp_all
  ultimately show ?thesis
    using False check_chunk_pairs [OF assms, of 0 "()"] chunk_states [OF v(1)] chunk_states [OF v(2)]
      add_chunk_lens [of 0 chunks]
    by (cases w) (auto simp: witness_new_def witness_rows_def)
qed (simp add: witness_new_def)

section \<open>Accepted rows\<close>

text \<open>Rows the relation accepted; only such rows are ever constructed.\<close>

definition row_accepted :: "digest \<Rightarrow> bus_authentication \<Rightarrow> trace_row \<Rightarrow> bool" where
  "row_accepted sha auth row \<longleftrightarrow>
     (\<exists>input. apply_step sha (row_before row) input auth = Inr (row_after row, row_effects row))"

lemma trace_row_execute_accepted:
  "trace_row_execute sha before input = Inr row \<Longrightarrow> row_accepted sha Auth_Merkle row \<and> row_before row = before"
  by (auto simp: trace_row_execute_def step_relation_apply_def row_accepted_def)

lemma contiguous_run:
  assumes "contiguous rows" "\<forall>r \<in> set rows. row_accepted sha auth r" "rows \<noteq> []"
  shows "\<exists>inputs. length inputs = length rows \<and>
    run_steps sha auth (row_before (hd rows)) inputs = Inr (row_after (last rows), map row_effects rows)"
  using assms
proof (induction rows rule: contiguous.induct)
  case (1 r r' rs)
  then obtain inputs where i: "length inputs = length (r' # rs)"
    "run_steps sha auth (row_after r) inputs = Inr (row_after (last (r' # rs)), map row_effects (r' # rs))" by auto
  obtain input where "apply_step sha (row_before r) input auth = Inr (row_after r, row_effects r)"
    using 1 by (auto simp: row_accepted_def)
  with i show ?case by (intro exI [of _ "input # inputs"]) simp
next
  case (3 r)
  then obtain input where "apply_step sha (row_before r) input auth = Inr (row_after r, row_effects r)"
    by (auto simp: row_accepted_def)
  then show ?case by (intro exI [of _ "[input]"]) simp
qed simp

section \<open>What the metrics count\<close>

definition row_cycles :: "trace_row \<Rightarrow> nat" where
  "row_cycles row = unat (cpu_m_cycles (vm_cpu (row_after row))) - unat (cpu_m_cycles (vm_cpu (row_before row)))"

definition kind_weight :: "step_kind \<Rightarrow> trace_row \<Rightarrow> nat" where
  "kind_weight k row = of_bool (eff_kind (row_effects row) = k)"

definition kind_cycles :: "step_kind \<Rightarrow> trace_row \<Rightarrow> nat" where
  "kind_cycles k row = (if eff_kind (row_effects row) = k then row_cycles row else 0)"

definition event_count :: "(bus_event \<Rightarrow> bool) \<Rightarrow> trace_row \<Rightarrow> nat" where
  "event_count P row = length (filter P (eff_bus_events (row_effects row)))"

definition event_of :: "bus_event_kind set \<Rightarrow> bus_event \<Rightarrow> bool" where
  "event_of ks e \<longleftrightarrow> event_kind e \<in> ks"

definition sram_write :: "bus_event \<Rightarrow> bool" where
  "sram_write e \<longleftrightarrow> (case e of Ev_MemoryWrite w \<Rightarrow> 0x10000 \<le> mw_physical_address w \<and> mw_physical_address w \<le> 0x17fff | _ \<Rightarrow> False)"

definition dma_start :: "bus_event \<Rightarrow> bool" where
  "dma_start e \<longleftrightarrow> (case e of Ev_DmgMmioWrite a _ _ \<Rightarrow> a = 0xff46 | _ \<Rightarrow> False)"

text \<open>Every metric with the events it counts in a row, and every metric with its weight per row.\<close>

definition event_metrics :: "((execution_metrics \<Rightarrow> u64) \<times> (bus_event \<Rightarrow> bool)) list" where
  "event_metrics =
     [(met_bus_events, \<lambda>_. True),
      (met_rom_reads, event_of {EK_OpcodeFetch, EK_ImmediateRead, EK_RomRead, EK_DmgDmaRomRead}),
      (met_memory_reads, event_of {EK_MemoryOpcodeFetch, EK_MemoryImmediateRead, EK_MemoryRead, EK_DmgDmaMemoryRead}),
      (met_memory_writes, event_of {EK_MemoryWrite, EK_DmgDmaWrite}),
      (met_input_events, event_of {EK_InputRead, EK_DmgJoypadRead}),
      (met_output_events, event_of {EK_OutputWrite}),
      (met_joypad_samples, event_of {EK_DmgJoypadRead}),
      (met_battery_sram_writes, sram_write),
      (met_dma_starts, dma_start)]"

definition row_metrics :: "((execution_metrics \<Rightarrow> u64) \<times> (trace_row \<Rightarrow> nat)) list" where
  "row_metrics =
     [(met_relation_steps, \<lambda>_. 1), (met_isa_rows, \<lambda>_. 1),
      (met_instructions, kind_weight SK_Instruction),
      (met_halt_idle_steps, kind_weight SK_HaltIdle), (met_halt_idle_m_cycles, kind_cycles SK_HaltIdle),
      (met_halt_until_vblank_steps, kind_weight SK_HaltUntilVBlank),
      (met_halt_until_vblank_m_cycles, kind_cycles SK_HaltUntilVBlank),
      (met_halt_until_serial_steps, kind_weight SK_HaltUntilSerial),
      (met_halt_until_serial_m_cycles, kind_cycles SK_HaltUntilSerial),
      (met_halt_until_timer_steps, kind_weight SK_HaltUntilTimer),
      (met_halt_until_timer_m_cycles, kind_cycles SK_HaltUntilTimer),
      (met_halt_wake_steps, kind_weight SK_HaltWake),
      (met_interrupt_dispatches, \<lambda>row. of_bool (\<exists>i. eff_kind (row_effects row) = SK_InterruptDispatch i)),
      (met_dma_byte_steps, kind_weight SK_DmaByte)]"

definition metric_weights :: "((execution_metrics \<Rightarrow> u64) \<times> (trace_row \<Rightarrow> nat)) list" where
  "metric_weights = row_metrics @ map (\<lambda>(f, P). (f, event_count P)) event_metrics"

lemma checked_unat:
  "checked_add x y = Some (z :: 'a::len word) \<Longrightarrow> unat z = unat x + unat y"
  "checked_sub x y = Some (z :: 'a::len word) \<Longrightarrow> unat z = unat x - unat y"
  by (auto simp: checked_add_def checked_sub_def unat_sub unat_add_lem split: if_splits)

lemma bump_Inr: "bump f m = Inr m' \<Longrightarrow> \<exists>v. m' = snd f (\<lambda>_. v) m \<and> unat v = unat (fst f m) + 1"
  by (auto simp: bump_def metric_increment_def dest!: checked_unat)

lemma add_elapsed_Inr:
  "add_elapsed f row m = Inr m' \<Longrightarrow> \<exists>v. m' = snd f (\<lambda>_. v) m \<and> unat v = unat (fst f m) + row_cycles row"
  by (auto simp: add_elapsed_def row_cycles_def dest!: checked_unat)

lemma bump_opt_Inr:
  "bump_opt f m = Inr m' \<Longrightarrow>
     (case f of None \<Rightarrow> m' = m | Some g \<Rightarrow> \<exists>v. m' = snd g (\<lambda>_. v) m \<and> unat v = unat (fst g m) + 1)"
  using bump_Inr [of "the f" m m'] by (cases f) (auto simp: bump_opt_def)

lemma record_bus_event_counts:
  assumes "record_bus_event m e = Inr m'"
  shows "list_all (\<lambda>(f, P). unat (f m') = unat (f m) + of_bool (P e)) event_metrics"
    "list_all (\<lambda>(f, P). f m' = f m) row_metrics"
proof -
  obtain m1 m2 where "bump (met_bus_events, met_bus_events_update) m = Inr m1"
      "bump_opt (bus_metric e) m1 = Inr m2" "bump_opt (device_metric e) m2 = Inr m'"
    using assms by (auto simp: record_bus_event_def)
  note steps = bump_Inr [OF this(1)] bump_opt_Inr [OF this(2)] bump_opt_Inr [OF this(3)]
  show "list_all (\<lambda>(f, P). unat (f m') = unat (f m) + of_bool (P e)) event_metrics"
    using steps
    by (cases e) (auto simp: event_metrics_def bus_metric_def device_metric_def event_of_def sram_write_def
        dma_start_def split: if_splits)
  show "list_all (\<lambda>(f, P). f m' = f m) row_metrics"
    using steps by (cases e) (auto simp: row_metrics_def bus_metric_def device_metric_def split: if_splits)
qed

lemma record_kind_counts:
  assumes "record_kind row m = Inr m'"
  shows "list_all (\<lambda>(f, P). f m' = f m) event_metrics"
    "list_all (\<lambda>(f, w). unat (f m') = unat (f m) + w row) (drop 2 row_metrics)"
    "met_relation_steps m' = met_relation_steps m" "met_isa_rows m' = met_isa_rows m"
  using assms
  by (cases "eff_kind (row_effects row)";
      auto simp: record_kind_def row_metrics_def event_metrics_def kind_weight_def kind_cycles_def
        dest!: bump_Inr add_elapsed_Inr)+

lemma record_bus_events_counts:
  assumes "try_fold record_bus_event m es = Inr m'"
  shows "list_all (\<lambda>(f, P). unat (f m') = unat (f m) + length (filter P es)) event_metrics \<and>
    list_all (\<lambda>(f, P). f m' = f m) row_metrics"
  using assms
proof (induction es arbitrary: m)
  case (Cons e es)
  then obtain m1 where m1: "record_bus_event m e = Inr m1" "try_fold record_bus_event m1 es = Inr m'" by auto
  show ?case
    using Cons.IH [OF m1(2)] record_bus_event_counts [OF m1(1)]
    by (fastforce simp: list_all_iff)
qed (simp add: list_all_iff case_prod_unfold)

lemma metrics_record_counts:
  assumes "metrics_record m row = Inr m'"
  shows "list_all (\<lambda>(f, w). unat (f m') = unat (f m) + w row) metric_weights"
proof -
  obtain m1 m2 m3 where "bump (met_relation_steps, met_relation_steps_update) m = Inr m1"
      "bump (met_isa_rows, met_isa_rows_update) m1 = Inr m2" and k: "record_kind row m2 = Inr m3"
      and b: "try_fold record_bus_event m3 (eff_bus_events (row_effects row)) = Inr m'"
    using assms by (auto simp: metrics_record_def record_bus_events_def)
  note m = bump_Inr [OF this(1)] bump_Inr [OF this(2)]
  have "list_all (\<lambda>(f, P). f m2 = f m) event_metrics" "list_all (\<lambda>(f, w). f m2 = f m) (drop 2 row_metrics)"
      "unat (met_relation_steps m2) = unat (met_relation_steps m) + 1" "unat (met_isa_rows m2) = unat (met_isa_rows m) + 1"
    using m by (auto simp: event_metrics_def row_metrics_def)
  with record_kind_counts [OF k]
  have "list_all (\<lambda>(f, P). f m3 = f m) event_metrics" "list_all (\<lambda>(f, w). unat (f m3) = unat (f m) + w row) row_metrics"
    by (fastforce simp: list_all_iff row_metrics_def)+
  with record_bus_events_counts [OF b] show ?thesis
    unfolding metric_weights_def list_all_append list.pred_map
    by (fastforce simp: list_all_iff event_count_def)
qed

lemma metrics_fold_counts:
  assumes "try_fold metrics_record m rows = Inr m'"
  shows "list_all (\<lambda>(f, w). unat (f m') = unat (f m) + sum_list (map w rows)) metric_weights"
  using assms
proof (induction rows arbitrary: m)
  case (Cons row rows)
  then obtain m1 where m1: "metrics_record m row = Inr m1" "try_fold metrics_record m1 rows = Inr m'" by auto
  show ?case using Cons.IH [OF m1(2)] metrics_record_counts [OF m1(1)] by (fastforce simp: list_all_iff)
qed (simp add: list_all_iff case_prod_unfold)

section \<open>The profile\<close>

text \<open>The histogram counts instruction rows by physical address.\<close>

lemma btree_insert_map: "map_of (btree_insert k v xs) = (map_of xs)(k \<mapsto> v)"
  if "sorted_wrt (<) (map fst xs)"
  using that by (induction k v xs rule: btree_insert.induct) (auto simp: fun_eq_iff)

lemma btree_insert_sorted:
  "sorted_wrt (<) (map fst xs) \<Longrightarrow> sorted_wrt (<) (map fst (btree_insert k v xs))"
proof (induction k v xs rule: btree_insert.induct)
  case (2 k v k' v' xs)
  have "set (map fst (btree_insert k v xs)) \<subseteq> insert k (set (map fst xs))" for xs
    by (induction k v xs rule: btree_insert.induct) auto
  with 2 show ?case by fastforce
qed simp

definition pc_hits :: "u32 \<Rightarrow> trace_row list \<Rightarrow> nat" where
  "pc_hits k rows = length (filter (\<lambda>row. eff_kind (row_effects row) = SK_Instruction \<and> physical_pc (row_before row) = k) rows)"

definition profile_count :: "program_counter_profile \<Rightarrow> u32 \<Rightarrow> nat" where
  "profile_count counts k = (case map_of counts k of None \<Rightarrow> 0 | Some c \<Rightarrow> unat c)"

lemma profile_record_counts:
  assumes "profile_record counts row = Inr counts'" "sorted_wrt (<) (map fst counts)"
  shows "sorted_wrt (<) (map fst counts') \<and> profile_count counts' k = profile_count counts k + pc_hits k [row]"
  using assms
  by (auto simp: profile_record_def Let_def metric_increment_def pc_hits_def profile_count_def btree_insert_map
      btree_insert_sorted dest!: checked_unat split: if_splits option.splits)

lemma profile_fold_counts:
  assumes "try_fold profile_record counts rows = Inr counts'" "sorted_wrt (<) (map fst counts)"
  shows "sorted_wrt (<) (map fst counts') \<and> profile_count counts' k = profile_count counts k + pc_hits k rows"
  using assms
proof (induction rows arbitrary: counts)
  case (Cons row rows)
  then obtain c where c: "profile_record counts row = Inr c" "try_fold profile_record c rows = Inr counts'" by auto
  show ?case
    using Cons.IH [OF c(2)] profile_record_counts [OF c(1) Cons.prems(2), of k] by (simp add: pc_hits_def)
qed (simp add: pc_hits_def)

text \<open>An address decodes to the program counter and bank it was recorded from.\<close>

definition code_bank :: "vm_state \<Rightarrow> u8 option" where
  "code_bank s =
     (let pc = cpu_pc (vm_cpu s) in
      if pc \<le> 0x3fff then Some 0 else if pc \<le> 0x7fff then Some (rom_bank (vm_mbc3 s)) else None)"

lemma unat_physical_pc:
  "unat (physical_pc s) =
     (let pc = unat (cpu_pc (vm_cpu s)) in
      if pc < 0x4000 then pc
      else if pc < 0x8000 then unat (rom_bank (vm_mbc3 s)) * 0x4000 + (pc - 0x4000) else 2 ^ 20 + pc)"
proof -
  let ?pc = "cpu_pc (vm_cpu s)"
  have pc: "unat ?pc < 65536" and b: "unat (rom_bank (vm_mbc3 s)) < 256" by simp_all
  have m: "unat (ucast (rom_bank (vm_mbc3 s)) * (0x4000 :: u32)) = unat (rom_bank (vm_mbc3 s)) * 0x4000"
    using b by (simp add: unat_word_ariths del: unat_less_256)
  have d: "unat (ucast (?pc - 0x4000) :: u32) = unat ?pc - 0x4000" if "0x4000 \<le> unat ?pc"
    using that by (simp add: unat_sub_cases word_le_nat_alt)
  show ?thesis
    using pc b m d
    by (auto simp: physical_pc_def Let_def word_le_nat_alt unat_add_cases push_bit_eq_mult
        simp del: unat_less_65536 unat_less_256)
qed

lemma profile_entry_exact:
  assumes "vm_wf s"
  shows "profile_entry (physical_pc s, c) =
    Some \<lparr>pcc_pc = cpu_pc (vm_cpu s), pcc_rom_bank = code_bank s, pcc_physical_pc = physical_pc s, pcc_count = c\<rparr>"
proof -
  let ?pc = "cpu_pc (vm_cpu s)" and ?b = "rom_bank (vm_mbc3 s)"
  have bank: "?b \<noteq> 0" "unat ?b \<le> 63"
    using assms by (cases "prof_rom_size (cartridge_profile (vm_profile s))";
        auto simp: vm_wf_def mbc3_wf_def word_le_nat_alt)+
  have pc: "unat ?pc < 65536" by simp
  consider (fixed) "unat ?pc < 0x4000" | (banked) "0x4000 \<le> unat ?pc" "unat ?pc < 0x8000" | (mutable) "0x8000 \<le> unat ?pc"
    by linarith
  then show ?thesis
  proof cases
    case fixed
    then have p: "unat (physical_pc s) = unat ?pc" by (simp add: unat_physical_pc Let_def)
    then have "ucast (physical_pc s mod 0x4000) = ?pc" "(ucast (physical_pc s div 0x4000) :: u8) = 0"
      using fixed by (simp_all add: word_unat_eq_iff unsigned_ucast_eq take_bit_eq_mod unat_mod unat_div)
    with fixed p show ?thesis
      by (simp add: profile_entry_def code_bank_def Let_def word_less_nat_alt word_le_nat_alt unat_mod unat_div)
  next
    case banked
    then obtain k where k: "unat ?pc = 0x4000 + k" "k < 0x4000" using le_Suc_ex [OF banked(1)] by auto
    then have p: "unat (physical_pc s) = unat ?b * 0x4000 + k" by (simp add: unat_physical_pc Let_def)
    then have q: "unat (physical_pc s div 0x4000) = unat ?b" "unat (physical_pc s mod 0x4000) = k"
      using k by (simp_all add: unat_mod unat_div)
    then have "(ucast (physical_pc s div 0x4000) :: u8) = ?b"
      "0x4000 + (ucast (physical_pc s mod 0x4000) :: u16) = ?pc"
      using k bank by (simp_all add: word_unat_eq_iff unsigned_ucast_eq take_bit_eq_mod unat_word_ariths)
    with k p q bank show ?thesis
      by (simp add: profile_entry_def code_bank_def Let_def word_less_nat_alt word_le_nat_alt)
  next
    case mutable
    then have p: "unat (physical_pc s) = 2 ^ 20 + unat ?pc" by (simp add: unat_physical_pc Let_def)
    then have q: "unat (physical_pc s - 0x100000) = unat ?pc"
      by (simp add: unat_sub_cases word_le_nat_alt)
    then have "ucast (physical_pc s - 0x100000) = ?pc" using pc by (simp add: word_unat_eq_iff unsigned_ucast_eq take_bit_eq_mod del: unat_less_65536)
    with mutable p q pc show ?thesis
      by (simp add: profile_entry_def code_bank_def Let_def word_less_nat_alt word_le_nat_alt del: unat_less_65536)
  qed
qed

end
