(* ===== verification/Trace_Blocks.thy ===== *)
theory Trace_Blocks
  imports Trace_Model
begin

text \<open>
  Packed instruction blocks (\<open>zksm83-trace/src/block.rs\<close>): the planner that partitions accepted
  rows into bounded spans, the cut policy, and the packer that routes every instruction to a
  lane and every M-cycle and bus event to its owning lane.
\<close>

section \<open>Data\<close>

definition BASIC_BLOCK_INSTRUCTION_BOUND :: nat where "BASIC_BLOCK_INSTRUCTION_BOUND = 4"
definition BASIC_BLOCK_M_CYCLE_BOUND :: nat where "BASIC_BLOCK_M_CYCLE_BOUND = 6"
definition BASIC_BLOCK_BUS_EVENT_BOUND :: nat where "BASIC_BLOCK_BUS_EVENT_BOUND = 5"

lemmas block_bounds = BASIC_BLOCK_INSTRUCTION_BOUND_def BASIC_BLOCK_M_CYCLE_BOUND_def BASIC_BLOCK_BUS_EVENT_BOUND_def

datatype basic_block_cut =
    Cut_InstructionBound
  | Cut_CycleBound
  | Cut_BusEventBound
  | Cut_EndOfTrace
  | Cut_ControlFlow
  | Cut_LowPower
  | Cut_InterruptControl
  | Cut_InterruptPending
  | Cut_DeviceIo
  | Cut_PpuSensitiveMemory
  | Cut_ProtocolIo
  | Cut_MapperChange
  | Cut_MutableExecution
  | Cut_MachineEvent

record basic_block_span =
  span_row_start :: nat
  span_row_count :: nat
  span_instruction_count :: nat
  span_m_cycle_count :: u64
  span_bus_event_count :: nat
  span_cut :: basic_block_cut

record basic_block_lane_descriptor =
  ld_source_row_index :: nat
  ld_m_cycle_start :: u64
  ld_m_cycle_count :: u64
  ld_bus_event_start :: nat
  ld_bus_event_count :: nat

datatype basic_block_lane = Lane_Padding | Lane_Instruction basic_block_lane_descriptor

datatype basic_block_lane_index = Lane0 | Lane1 | Lane2 | Lane3

datatype basic_block_resource_owner = Owner_Padding | Owner_Instruction basic_block_lane_index

record basic_block_routing =
  rt_lanes :: "basic_block_lane list"
  rt_m_cycle_owners :: "basic_block_resource_owner list"
  rt_bus_event_owners :: "basic_block_resource_owner list"

record basic_block =
  bb_source_row_start :: nat
  bb_rows :: "trace_row list"
  bb_instruction_count :: nat
  bb_m_cycle_count :: u64
  bb_bus_event_count :: nat
  bb_cut :: basic_block_cut
  bb_initial_state :: vm_state
  bb_final_state :: vm_state
  bb_lanes :: "basic_block_lane list"
  bb_m_cycle_owners :: "basic_block_resource_owner list"
  bb_bus_event_owners :: "basic_block_resource_owner list"

datatype basic_block_plan_error =
    Plan_Discontinuous nat
  | Plan_ResourceAccounting nat
  | Plan_PartitionInvariant

fun lane_from_index :: "nat \<Rightarrow> basic_block_lane_index option" where
  "lane_from_index i =
     (if i = 0 then Some Lane0 else if i = 1 then Some Lane1 else if i = 2 then Some Lane2
      else if i = 3 then Some Lane3 else None)"

fun lane_index :: "basic_block_lane_index \<Rightarrow> nat" where
  "lane_index Lane0 = 0"
| "lane_index Lane1 = 1"
| "lane_index Lane2 = 2"
| "lane_index Lane3 = 3"

text \<open>\<open>usize::checked_add\<close> on a 64-bit host.\<close>

definition usize_checked_add :: "nat \<Rightarrow> nat \<Rightarrow> nat option" where
  "usize_checked_add a b = (if a + b < 2 ^ 64 then Some (a + b) else None)"

section \<open>Cut policy\<close>

definition row_resources :: "trace_row \<Rightarrow> nat \<Rightarrow> basic_block_plan_error + (u64 \<times> nat)" where
  "row_resources row index =
     and_then (ok_or (Plan_ResourceAccounting index)
         (checked_sub (cpu_m_cycles (vm_cpu (row_after row))) (cpu_m_cycles (vm_cpu (row_before row))))) (\<lambda>m_cycle_count.
       Inr (m_cycle_count, length (eff_bus_events (row_effects row))))"

definition ensure_contiguous :: "trace_row list \<Rightarrow> basic_block_plan_error + unit" where
  "ensure_contiguous rows =
     try_fold (\<lambda>_ index.
       and_then (ok_or (Plan_Discontinuous index) (vec_get rows index)) (\<lambda>before.
       and_then (ok_or (Plan_Discontinuous index) (vec_get rows (index + 1))) (\<lambda>after.
         if row_after before \<noteq> row_before after then Inl (Plan_Discontinuous index) else Inr ())))
       () [0..<length rows - 1]"

definition standalone_event_cut :: "bus_event \<Rightarrow> basic_block_cut option" where
  "standalone_event_cut e =
     (let address = ev_address (transcript_event e) in
      if event_kind e \<in> {EK_DmgMmioRead, EK_DmgMmioWrite, EK_DmgJoypadRead} then Some Cut_DeviceIo
      else if event_kind e \<in> {EK_MemoryRead, EK_MemoryWrite, EK_MemoryOpcodeFetch, EK_MemoryImmediateRead} \<and>
        ((0x8000 \<le> address \<and> address \<le> 0x9fff) \<or> (0xfe00 \<le> address \<and> address \<le> 0xfe9f))
      then Some Cut_PpuSensitiveMemory
      else None)"

text \<open>A \<open>for\<close> loop that returns the first event's cut.\<close>

fun first_cut :: "(bus_event \<Rightarrow> basic_block_cut option) \<Rightarrow> bus_event list \<Rightarrow> basic_block_cut option" where
  "first_cut f [] = None"
| "first_cut f (e # es) = (case f e of Some c \<Rightarrow> Some c | None \<Rightarrow> first_cut f es)"

definition standalone_cut :: "trace_row \<Rightarrow> basic_block_cut option" where
  "standalone_cut row = first_cut standalone_event_cut (eff_bus_events (row_effects row))"

definition semantic_event_cut :: "bus_event \<Rightarrow> basic_block_cut option" where
  "semantic_event_cut e =
     (case event_kind e of
        EK_InputRead \<Rightarrow> Some Cut_ProtocolIo
      | EK_OutputWrite \<Rightarrow> Some Cut_ProtocolIo
      | EK_DmgJoypadRead \<Rightarrow> Some Cut_ProtocolIo
      | EK_Mbc3ControlWrite \<Rightarrow> Some Cut_MapperChange
      | EK_MemoryOpcodeFetch \<Rightarrow> Some Cut_MutableExecution
      | EK_MemoryImmediateRead \<Rightarrow> Some Cut_MutableExecution
      | _ \<Rightarrow> None)"

definition operation_cut :: "operation \<Rightarrow> basic_block_cut option" where
  "operation_cut operation =
     (case operation of
        Op_Halt \<Rightarrow> Some Cut_LowPower
      | Op_Stop \<Rightarrow> Some Cut_LowPower
      | Op_DisableInterrupts \<Rightarrow> Some Cut_InterruptControl
      | Op_EnableInterrupts \<Rightarrow> Some Cut_InterruptControl
      | Op_ReturnFromInterrupt \<Rightarrow> Some Cut_InterruptControl
      | Op_RelativeJump _ \<Rightarrow> Some Cut_ControlFlow
      | Op_Return _ \<Rightarrow> Some Cut_ControlFlow
      | Op_JumpHl \<Rightarrow> Some Cut_ControlFlow
      | Op_Jump _ \<Rightarrow> Some Cut_ControlFlow
      | Op_Call _ \<Rightarrow> Some Cut_ControlFlow
      | Op_Restart _ \<Rightarrow> Some Cut_ControlFlow
      | _ \<Rightarrow> None)"

definition semantic_cut :: "trace_row \<Rightarrow> basic_block_cut option" where
  "semantic_cut row =
     (case operation_cut (di_operation (eff_instruction (row_effects row))) of
        Some reason \<Rightarrow> Some reason
      | None \<Rightarrow>
          (case standalone_cut row of
             Some reason \<Rightarrow> Some reason
           | None \<Rightarrow>
               (case first_cut semantic_event_cut (eff_bus_events (row_effects row)) of
                  Some reason \<Rightarrow> Some reason
                | None \<Rightarrow>
                    if cpu_ime (vm_cpu (row_after row)) = Ime_Enabled
                       \<and> pending_interrupt (vm_dmg_devices (row_after row)) \<noteq> None
                    then Some Cut_InterruptPending else None)))"

section \<open>Planning\<close>

text \<open>The inner loop: absorb rows from \<open>cursor\<close> on until a cut; \<open>u64::try_from(6)\<close> never fails.\<close>

definition m_cycle_bound :: u64 where
  "m_cycle_bound = word_of_nat BASIC_BLOCK_M_CYCLE_BOUND"

function block_loop ::
  "trace_row list \<Rightarrow> nat \<Rightarrow> nat \<Rightarrow> u64 \<Rightarrow> nat \<Rightarrow>
     basic_block_plan_error + (basic_block_cut \<times> nat \<times> u64 \<times> nat)" where
  "block_loop rows start cursor m_cycle_count bus_event_count =
     (case vec_get rows cursor of
        None \<Rightarrow> Inl (Plan_Discontinuous cursor)
      | Some current \<Rightarrow>
          (case (if cursor \<noteq> start then standalone_cut current else None) of
             Some reason \<Rightarrow> Inr (reason, cursor, m_cycle_count, bus_event_count)
           | None \<Rightarrow>
               and_then (row_resources current cursor) (\<lambda>(next_m_cycles, next_bus_events).
               and_then (ok_or (Plan_ResourceAccounting cursor) (checked_add m_cycle_count next_m_cycles)) (\<lambda>candidate_m_cycles.
               and_then (ok_or (Plan_ResourceAccounting cursor) (usize_checked_add bus_event_count next_bus_events)) (\<lambda>candidate_bus_events.
                 if cursor \<noteq> start \<and> candidate_m_cycles > m_cycle_bound
                 then Inr (Cut_CycleBound, cursor, m_cycle_count, bus_event_count)
                 else if cursor \<noteq> start \<and> candidate_bus_events > BASIC_BLOCK_BUS_EVENT_BOUND
                 then Inr (Cut_BusEventBound, cursor, m_cycle_count, bus_event_count)
                 else if candidate_m_cycles > m_cycle_bound \<or> candidate_bus_events > BASIC_BLOCK_BUS_EVENT_BOUND
                 then Inl (Plan_ResourceAccounting cursor)
                 else
                   (case semantic_cut current of
                      Some reason \<Rightarrow> Inr (reason, cursor + 1, candidate_m_cycles, candidate_bus_events)
                    | None \<Rightarrow>
                        if cursor + 1 - start = BASIC_BLOCK_INSTRUCTION_BOUND
                        then Inr (Cut_InstructionBound, cursor + 1, candidate_m_cycles, candidate_bus_events)
                        else
                          (case vec_get rows (cursor + 1) of
                             None \<Rightarrow> Inr (Cut_EndOfTrace, cursor + 1, candidate_m_cycles, candidate_bus_events)
                           | Some next \<Rightarrow>
                               if eff_kind (row_effects next) \<noteq> SK_Instruction
                               then Inr (Cut_MachineEvent, cursor + 1, candidate_m_cycles, candidate_bus_events)
                               else block_loop rows start (cursor + 1) candidate_m_cycles candidate_bus_events)))))))"
  by pat_completeness auto
termination
  by (relation "measure (\<lambda>(rows, start, cursor, m, b). length rows - cursor)")
     (auto simp: vec_get_def split: if_splits)

declare block_loop.simps [simp del]

text \<open>One iteration: the row is left for the next block, or it ends this block, or the loop goes on.\<close>

definition row_events :: "trace_row \<Rightarrow> nat" where
  "row_events row = length (eff_bus_events (row_effects row))"

definition left_for_next :: "trace_row \<Rightarrow> u64 \<Rightarrow> nat \<Rightarrow> basic_block_cut \<Rightarrow> bool" where
  "left_for_next row m b reason \<longleftrightarrow>
     standalone_cut row = Some reason \<or>
     reason = Cut_CycleBound \<and> 6 < unat m + row_cycles row \<or>
     reason = Cut_BusEventBound \<and> 5 < b + row_events row"

definition ends_block :: "trace_row list \<Rightarrow> nat \<Rightarrow> nat \<Rightarrow> basic_block_cut \<Rightarrow> bool" where
  "ends_block rows start cursor reason \<longleftrightarrow>
     semantic_cut (rows ! cursor) = Some reason \<or>
     semantic_cut (rows ! cursor) = None \<and>
     (reason = Cut_InstructionBound \<and> Suc cursor - start = 4 \<or>
      reason = Cut_EndOfTrace \<and> Suc cursor = length rows \<or>
      reason = Cut_MachineEvent \<and> Suc cursor < length rows \<and> eff_kind (row_effects (rows ! Suc cursor)) \<noteq> SK_Instruction)"

definition absorbs :: "trace_row \<Rightarrow> u64 \<Rightarrow> nat \<Rightarrow> u64 \<Rightarrow> nat \<Rightarrow> bool" where
  "absorbs row m b m' b' \<longleftrightarrow>
     unat m' = unat m + row_cycles row \<and> b' = b + row_events row \<and> unat m' \<le> 6 \<and> b' \<le> 5"

lemma row_resources_Inr:
  "row_resources row i = Inr (m, b) \<Longrightarrow> unat m = row_cycles row \<and> b = row_events row"
  by (auto simp: row_resources_def row_cycles_def row_events_def dest!: checked_unat)

lemma m_cycle_bound_unat: "m > m_cycle_bound \<longleftrightarrow> 6 < unat m"
  by (simp add: m_cycle_bound_def block_bounds word_less_nat_alt)

lemma block_loop_absorb:
  assumes "cursor < length rows" "cursor \<noteq> start \<longrightarrow> standalone_cut (rows ! cursor) = None"
    "row_resources (rows ! cursor) cursor = Inr (dm, db)" "checked_add m dm = Some m1" "usize_checked_add b db = Some b1"
  shows "block_loop rows start cursor m b =
    (if cursor \<noteq> start \<and> 6 < unat m1 then Inr (Cut_CycleBound, cursor, m, b)
     else if cursor \<noteq> start \<and> 5 < b1 then Inr (Cut_BusEventBound, cursor, m, b)
     else if 6 < unat m1 \<or> 5 < b1 then Inl (Plan_ResourceAccounting cursor)
     else
       (case semantic_cut (rows ! cursor) of
          Some c \<Rightarrow> Inr (c, Suc cursor, m1, b1)
        | None \<Rightarrow>
            if Suc cursor - start = 4 then Inr (Cut_InstructionBound, Suc cursor, m1, b1)
            else if Suc cursor < length rows then
              (if eff_kind (row_effects (rows ! Suc cursor)) \<noteq> SK_Instruction
               then Inr (Cut_MachineEvent, Suc cursor, m1, b1)
               else block_loop rows start (Suc cursor) m1 b1)
            else Inr (Cut_EndOfTrace, Suc cursor, m1, b1)))"
proof -
  have "(if cursor \<noteq> start then standalone_cut (rows ! cursor) else None) = None" using assms(2) by simp
  with assms show ?thesis
    by (subst block_loop.simps)
       (simp add: vec_get_def block_bounds m_cycle_bound_unat cong: option.case_cong if_cong)
qed

lemma block_loop_resources:
  assumes "block_loop rows start cursor m b = Inr r" "cursor \<noteq> start \<longrightarrow> standalone_cut (rows ! cursor) = None"
  obtains dm db m1 b1 where "cursor < length rows" "row_resources (rows ! cursor) cursor = Inr (dm, db)"
    "checked_add m dm = Some m1" "usize_checked_add b db = Some b1"
    "unat m1 = unat m + row_cycles (rows ! cursor)" "b1 = b + row_events (rows ! cursor)"
proof -
  have len: "cursor < length rows"
    using assms(1) by (subst (asm) block_loop.simps) (simp add: vec_get_def split: if_splits)
  have "(if cursor \<noteq> start then standalone_cut (rows ! cursor) else None) = None" using assms(2) by simp
  with assms(1) len obtain dm db m1 b1 where r: "row_resources (rows ! cursor) cursor = Inr (dm, db)"
      "checked_add m dm = Some m1" "usize_checked_add b db = Some b1"
    by (subst (asm) block_loop.simps) (auto simp: vec_get_def)
  moreover have "unat m1 = unat m + row_cycles (rows ! cursor)" "b1 = b + row_events (rows ! cursor)"
    using row_resources_Inr [OF r(1)] checked_unat(1) [OF r(2)] r(3)
    by (auto simp: usize_checked_add_def split: if_splits)
  ultimately show thesis using len that by blast
qed

lemma block_loop_step:
  assumes "block_loop rows start cursor m b = Inr (reason, stop, m', b')"
  shows "cursor < length rows \<and>
    ((cursor \<noteq> start \<and> stop = cursor \<and> m' = m \<and> b' = b \<and> left_for_next (rows ! cursor) m b reason) \<or>
     (stop = Suc cursor \<and> absorbs (rows ! cursor) m b m' b' \<and> ends_block rows start cursor reason \<and>
       (cursor \<noteq> start \<longrightarrow> standalone_cut (rows ! cursor) = None)) \<or>
     (\<exists>m1 b1. absorbs (rows ! cursor) m b m1 b1 \<and> semantic_cut (rows ! cursor) = None \<and> Suc cursor - start \<noteq> 4 \<and>
       Suc cursor < length rows \<and> eff_kind (row_effects (rows ! Suc cursor)) = SK_Instruction \<and>
       (cursor \<noteq> start \<longrightarrow> standalone_cut (rows ! cursor) = None) \<and>
       block_loop rows start (Suc cursor) m1 b1 = Inr (reason, stop, m', b')))"
proof (cases "cursor \<noteq> start \<and> standalone_cut (rows ! cursor) \<noteq> None")
  case True
  then obtain c where c: "standalone_cut (rows ! cursor) = Some c" by auto
  have len: "cursor < length rows"
    using assms by (subst (asm) block_loop.simps) (simp add: vec_get_def split: if_splits)
  have "block_loop rows start cursor m b = Inr (c, cursor, m, b)"
    using len c True by (subst block_loop.simps) (simp add: vec_get_def)
  with assms len True c show ?thesis by (auto simp: left_for_next_def)
next
  case False
  then have s: "cursor \<noteq> start \<longrightarrow> standalone_cut (rows ! cursor) = None" by auto
  obtain dm db m1 b1 where len: "cursor < length rows" and r: "row_resources (rows ! cursor) cursor = Inr (dm, db)"
      "checked_add m dm = Some m1" "usize_checked_add b db = Some b1"
      and t: "unat m1 = unat m + row_cycles (rows ! cursor)" "b1 = b + row_events (rows ! cursor)"
    using block_loop_resources [OF assms s] .
  note run = assms [unfolded block_loop_absorb [OF len s r]]
  show ?thesis
  proof (cases "unat m1 \<le> 6 \<and> b1 \<le> 5")
    case True
    then have a: "absorbs (rows ! cursor) m b m1 b1" using t by (simp add: absorbs_def)
    show ?thesis
    proof (cases "semantic_cut (rows ! cursor)")
      case None
      with run True s len a show ?thesis
        by (cases "Suc cursor < length rows") (auto simp: ends_block_def split: if_splits)
    next
      case (Some c)
      with run True s len a show ?thesis by (auto simp: ends_block_def)
    qed
  next
    case False
    with run len t show ?thesis by (auto simp: left_for_next_def not_le split: if_splits)
  qed
qed

text \<open>What a whole run of the inner loop returns: the rows it absorbed and why it stopped.\<close>

definition block_rows :: "trace_row list \<Rightarrow> nat \<Rightarrow> nat \<Rightarrow> trace_row list" where
  "block_rows rows start stop = take (stop - start) (drop start rows)"

definition block_cut :: "trace_row list \<Rightarrow> nat \<Rightarrow> nat \<Rightarrow> u64 \<Rightarrow> nat \<Rightarrow> basic_block_cut \<Rightarrow> bool" where
  "block_cut rows start stop m b reason \<longleftrightarrow>
     (stop < length rows \<and> left_for_next (rows ! stop) m b reason \<or> ends_block rows start (stop - 1) reason)"

definition block_run :: "trace_row list \<Rightarrow> nat \<Rightarrow> nat \<Rightarrow> u64 \<Rightarrow> nat \<Rightarrow> bool" where
  "block_run rows start cursor m b \<longleftrightarrow>
     start \<le> cursor \<and> cursor \<le> length rows \<and> cursor - start \<le> 4 \<and> unat m \<le> 6 \<and> b \<le> 5 \<and>
     unat m = sum_list (map row_cycles (block_rows rows start cursor)) \<and>
     b = sum_list (map row_events (block_rows rows start cursor)) \<and>
     (\<forall>j. start \<le> j \<longrightarrow> j < cursor \<longrightarrow> eff_kind (row_effects (rows ! j)) = SK_Instruction) \<and>
     (\<forall>j. start < j \<longrightarrow> j < cursor \<longrightarrow> standalone_cut (rows ! j) = None)"

lemma block_rows_Suc:
  "start \<le> cursor \<Longrightarrow> cursor < length rows \<Longrightarrow>
     block_rows rows start (Suc cursor) = block_rows rows start cursor @ [rows ! cursor]"
  by (simp add: block_rows_def Suc_diff_le take_Suc_conv_app_nth)

lemma block_run_Suc:
  assumes "block_run rows start cursor m b" "cursor < length rows" "absorbs (rows ! cursor) m b m1 b1"
    "cursor - start < 4" "eff_kind (row_effects (rows ! cursor)) = SK_Instruction"
    "cursor \<noteq> start \<longrightarrow> standalone_cut (rows ! cursor) = None"
  shows "block_run rows start (Suc cursor) m1 b1"
  using assms by (auto simp: block_run_def absorbs_def block_rows_Suc less_Suc_eq)

lemma block_loop_exact:
  assumes "block_loop rows start cursor m b = Inr (reason, stop, m', b')"
    "block_run rows start cursor m b" "cursor - start < 4"
    "cursor < length rows \<longrightarrow> eff_kind (row_effects (rows ! cursor)) = SK_Instruction"
    "\<forall>j. start \<le> j \<longrightarrow> j < cursor \<longrightarrow> semantic_cut (rows ! j) = None"
  shows "start < stop \<and> block_run rows start stop m' b' \<and> block_cut rows start stop m' b' reason \<and>
    (\<forall>j. start \<le> j \<longrightarrow> Suc j < stop \<longrightarrow> semantic_cut (rows ! j) = None)"
  using assms
proof (induction "length rows - cursor" arbitrary: cursor m b rule: less_induct)
  case less
  note step = block_loop_step [OF less.prems(1)]
  have le: "start \<le> cursor" using less.prems(2) by (simp add: block_run_def)
  have len: "cursor < length rows" using step by simp
  have instr: "eff_kind (row_effects (rows ! cursor)) = SK_Instruction" using less.prems(4) len by simp
  from step consider
    (early) "cursor \<noteq> start" "stop = cursor" "m' = m" "b' = b" "left_for_next (rows ! cursor) m b reason"
  | (last) "stop = Suc cursor" "absorbs (rows ! cursor) m b m' b'" "ends_block rows start cursor reason"
      "cursor \<noteq> start \<longrightarrow> standalone_cut (rows ! cursor) = None"
  | (more) m1 b1 where "absorbs (rows ! cursor) m b m1 b1" "semantic_cut (rows ! cursor) = None"
      "Suc cursor - start \<noteq> 4" "Suc cursor < length rows" "eff_kind (row_effects (rows ! Suc cursor)) = SK_Instruction"
      "cursor \<noteq> start \<longrightarrow> standalone_cut (rows ! cursor) = None"
      "block_loop rows start (Suc cursor) m1 b1 = Inr (reason, stop, m', b')"
    by blast
  then show ?case
  proof cases
    case early
    with less.prems le len show ?thesis by (auto simp: block_cut_def)
  next
    case last
    with block_run_Suc [OF less.prems(2) len last(2) less.prems(3) instr last(4)] less.prems le
    show ?thesis by (auto simp: block_cut_def)
  next
    case more
    note run = block_run_Suc [OF less.prems(2) len more(1) less.prems(3) instr more(6)]
    have "\<forall>j. start \<le> j \<longrightarrow> j < Suc cursor \<longrightarrow> semantic_cut (rows ! j) = None"
      using less.prems(5) more(2) by (auto simp: less_Suc_eq)
    then show ?thesis
      using less.hyps [OF _ more(7) run] more less.prems(3) len le by auto
  qed
qed

lemma block_loop_grows:
  assumes "block_loop rows start start 0 0 = Inr (reason, stop, m, b)" "eff_kind (row_effects (rows ! start)) = SK_Instruction"
  shows "start < stop"
  using block_loop_exact [OF assms(1)] block_loop_step [OF assms(1)] assms(2)
  by (simp add: block_run_def block_rows_def)

function plan_loop :: "trace_row list \<Rightarrow> nat \<Rightarrow> basic_block_span list \<Rightarrow> basic_block_plan_error + basic_block_span list" where
  "plan_loop rows cursor spans =
     (if cursor < length rows then
        (case vec_get rows cursor of
           None \<Rightarrow> Inl (Plan_Discontinuous cursor)
         | Some row \<Rightarrow>
             if eff_kind (row_effects row) \<noteq> SK_Instruction then
               and_then (row_resources row cursor) (\<lambda>(m_cycle_count, bus_event_count).
                 plan_loop rows (cursor + 1) (spans @
                   [\<lparr>span_row_start = cursor, span_row_count = 1, span_instruction_count = 0,
                     span_m_cycle_count = m_cycle_count, span_bus_event_count = bus_event_count,
                     span_cut = Cut_MachineEvent\<rparr>]))
             else
               and_then (block_loop rows cursor cursor 0 0) (\<lambda>(reason, stop, m_cycle_count, bus_event_count).
                 plan_loop rows stop (spans @
                   [\<lparr>span_row_start = cursor, span_row_count = stop - cursor, span_instruction_count = stop - cursor,
                     span_m_cycle_count = m_cycle_count, span_bus_event_count = bus_event_count,
                     span_cut = reason\<rparr>])))
      else Inr spans)"
  by pat_completeness auto
termination
proof (relation "measure (\<lambda>(rows, cursor, spans). length rows - cursor)")
qed (auto simp: vec_get_def dest: block_loop_grows split: if_splits)

declare plan_loop.simps [simp del]

definition plan_basic_blocks :: "trace_row list \<Rightarrow> basic_block_plan_error + basic_block_span list" where
  "plan_basic_blocks rows = and_then (ensure_contiguous rows) (\<lambda>_. plan_loop rows 0 [])"

definition plan_witness_basic_blocks :: "exec_witness \<Rightarrow> basic_block_plan_error + basic_block_span list" where
  "plan_witness_basic_blocks w = plan_basic_blocks (witness_rows w)"

section \<open>Packing\<close>

text \<open>\<open>get_mut(start..end)\<close> with \<open>fill\<close>.\<close>

definition vec_fill :: "'a list \<Rightarrow> nat \<Rightarrow> nat \<Rightarrow> 'a \<Rightarrow> 'a list option" where
  "vec_fill xs start stop v =
     (if start \<le> stop \<and> stop \<le> length xs then Some (take start xs @ replicate (stop - start) v @ drop stop xs) else None)"

type_synonym routing_state =
  "basic_block_lane list \<times> basic_block_resource_owner list \<times> basic_block_resource_owner list \<times> u64 \<times> nat"

definition route_row ::
  "basic_block_span \<Rightarrow> nat \<Rightarrow> routing_state \<Rightarrow> nat \<times> trace_row \<Rightarrow> basic_block_plan_error + routing_state" where
  "route_row span source_row_offset = (\<lambda>(lanes, m_cycle_owners, bus_event_owners, m_cycle_start, bus_event_start) (index, row).
     if eff_kind (row_effects row) \<noteq> SK_Instruction then Inl Plan_PartitionInvariant
     else
       and_then (ok_or Plan_PartitionInvariant
           (Option.bind (usize_checked_add (span_row_start span) index) (usize_checked_add source_row_offset))) (\<lambda>source_row_index.
       and_then (row_resources row source_row_index) (\<lambda>(m_cycle_count, bus_event_count).
       and_then (ok_or Plan_PartitionInvariant (lane_from_index index)) (\<lambda>typed_lane.
       and_then (ok_or Plan_PartitionInvariant (vec_set lanes index (Lane_Instruction
           \<lparr>ld_source_row_index = source_row_index, ld_m_cycle_start = m_cycle_start, ld_m_cycle_count = m_cycle_count,
            ld_bus_event_start = bus_event_start, ld_bus_event_count = bus_event_count\<rparr>))) (\<lambda>lanes.
       and_then (ok_or Plan_PartitionInvariant (usize_checked_add (unat m_cycle_start) (unat m_cycle_count))) (\<lambda>cycle_end.
       and_then (ok_or Plan_PartitionInvariant
           (vec_fill m_cycle_owners (unat m_cycle_start) cycle_end (Owner_Instruction typed_lane))) (\<lambda>m_cycle_owners.
       and_then (ok_or Plan_PartitionInvariant (usize_checked_add bus_event_start bus_event_count)) (\<lambda>bus_event_end.
       and_then (ok_or Plan_PartitionInvariant
           (vec_fill bus_event_owners bus_event_start bus_event_end (Owner_Instruction typed_lane))) (\<lambda>bus_event_owners.
       and_then (ok_or Plan_PartitionInvariant (checked_add m_cycle_start m_cycle_count)) (\<lambda>m_cycle_start.
       and_then (ok_or Plan_PartitionInvariant (usize_checked_add bus_event_start bus_event_count)) (\<lambda>bus_event_start.
         Inr (lanes, m_cycle_owners, bus_event_owners, m_cycle_start, bus_event_start))))))))))))"

definition block_routing ::
  "trace_row list \<Rightarrow> basic_block_span \<Rightarrow> nat \<Rightarrow> basic_block_plan_error + basic_block_routing" where
  "block_routing rows span source_row_offset =
     (let lanes = replicate BASIC_BLOCK_INSTRUCTION_BOUND Lane_Padding;
          m_cycle_owners = replicate BASIC_BLOCK_M_CYCLE_BOUND Owner_Padding;
          bus_event_owners = replicate BASIC_BLOCK_BUS_EVENT_BOUND Owner_Padding
      in
      if span_instruction_count span = 0 then
        (if length rows \<noteq> 1 \<or> (case slice_first rows of None \<Rightarrow> True | Some row \<Rightarrow> eff_kind (row_effects row) = SK_Instruction)
         then Inl Plan_PartitionInvariant
         else Inr \<lparr>rt_lanes = lanes, rt_m_cycle_owners = m_cycle_owners, rt_bus_event_owners = bus_event_owners\<rparr>)
      else if length rows \<noteq> span_instruction_count span \<or> length rows > BASIC_BLOCK_INSTRUCTION_BOUND
      then Inl Plan_PartitionInvariant
      else
        and_then (try_fold (route_row span source_row_offset) (lanes, m_cycle_owners, bus_event_owners, 0, 0)
            (enumerate 0 rows)) (\<lambda>(lanes, m_cycle_owners, bus_event_owners, m_cycle_start, bus_event_start).
          if m_cycle_start \<noteq> span_m_cycle_count span \<or> bus_event_start \<noteq> span_bus_event_count span
          then Inl Plan_PartitionInvariant
          else Inr \<lparr>rt_lanes = lanes, rt_m_cycle_owners = m_cycle_owners, rt_bus_event_owners = bus_event_owners\<rparr>))"

fun pack_spans ::
  "nat \<Rightarrow> trace_row list \<Rightarrow> basic_block_span list \<Rightarrow> basic_block_plan_error + basic_block list" where
  "pack_spans source_row_offset rows [] = (if rows \<noteq> [] then Inl Plan_PartitionInvariant else Inr [])"
| "pack_spans source_row_offset rows (span # spans) =
     (let taken = take (span_row_count span) rows in
      and_then (ok_or Plan_PartitionInvariant (slice_first taken)) (\<lambda>first.
      and_then (ok_or Plan_PartitionInvariant (slice_last taken)) (\<lambda>final.
        if length taken \<noteq> span_row_count span then Inl Plan_PartitionInvariant
        else
          and_then (block_routing taken span source_row_offset) (\<lambda>routing.
          and_then (ok_or Plan_PartitionInvariant (usize_checked_add source_row_offset (span_row_start span))) (\<lambda>source_row_start.
          and_then (pack_spans source_row_offset (drop (span_row_count span) rows) spans) (\<lambda>blocks.
            Inr (\<lparr>bb_source_row_start = source_row_start, bb_rows = taken,
                   bb_instruction_count = span_instruction_count span, bb_m_cycle_count = span_m_cycle_count span,
                   bb_bus_event_count = span_bus_event_count span, bb_cut = span_cut span,
                   bb_initial_state = row_before first, bb_final_state = row_after final,
                   bb_lanes = rt_lanes routing, bb_m_cycle_owners = rt_m_cycle_owners routing,
                   bb_bus_event_owners = rt_bus_event_owners routing\<rparr> # blocks)))))))"

definition pack_witness_basic_blocks_at :: "exec_witness \<Rightarrow> nat \<Rightarrow> basic_block_plan_error + basic_block list" where
  "pack_witness_basic_blocks_at w source_row_offset =
     and_then (plan_witness_basic_blocks w) (pack_spans source_row_offset (witness_rows w))"

definition pack_witness_basic_blocks :: "exec_witness \<Rightarrow> basic_block_plan_error + basic_block list" where
  "pack_witness_basic_blocks w = pack_witness_basic_blocks_at w 0"

section \<open>The plan\<close>

text \<open>
  Rows of an accepted execution: they do not move the clock backwards, and an instruction fits
  the shared budgets of a block on its own.
\<close>

definition plannable :: "trace_row \<Rightarrow> bool" where
  "plannable row \<longleftrightarrow>
     cpu_m_cycles (vm_cpu (row_before row)) \<le> cpu_m_cycles (vm_cpu (row_after row)) \<and>
     (eff_kind (row_effects row) = SK_Instruction \<longrightarrow> row_cycles row \<le> 6 \<and> row_events row \<le> 5)"

lemma plannable_resources:
  assumes "plannable row"
  obtains m where "row_resources row i = Inr (m, row_events row)" "unat m = row_cycles row"
proof -
  have "row_resources row i =
      Inr (cpu_m_cycles (vm_cpu (row_after row)) - cpu_m_cycles (vm_cpu (row_before row)), row_events row)"
    using assms by (simp add: plannable_def row_resources_def row_events_def checked_sub_def)
  with row_resources_Inr [OF this] show thesis by (intro that) simp_all
qed

lemma block_loop_total:
  assumes "\<forall>row \<in> set rows. plannable row" "cursor < length rows" "block_run rows start cursor m b"
    "eff_kind (row_effects (rows ! cursor)) = SK_Instruction" "cursor - start < 4"
  shows "\<exists>r. block_loop rows start cursor m b = Inr r"
  using assms
proof (induction "length rows - cursor" arbitrary: cursor m b rule: less_induct)
  case less
  let ?row = "rows ! cursor"
  have pl: "plannable ?row" and instr: "eff_kind (row_effects ?row) = SK_Instruction" using less.prems by simp_all
  obtain dm where dm: "row_resources ?row cursor = Inr (dm, row_events ?row)" "unat dm = row_cycles ?row"
    using plannable_resources [OF pl] .
  have small: "unat m \<le> 6" "b \<le> 5" "row_cycles ?row \<le> 6" "row_events ?row \<le> 5"
    "cursor = start \<Longrightarrow> m = 0 \<and> b = 0"
    using less.prems(3) pl instr by (auto simp: block_run_def plannable_def block_rows_def unat_eq_0)
  have "unat m + unat dm < 2 ^ LENGTH(64)" using small dm(2) by simp
  then have "checked_add m dm = Some (m + dm)" by (simp add: checked_add_def)
  with checked_unat(1) [OF this] dm(2)
  obtain m1 where m1: "checked_add m dm = Some m1" "unat m1 = unat m + row_cycles ?row" by simp
  have b1: "usize_checked_add b (row_events ?row) = Some (b + row_events ?row)"
    using small by (simp add: usize_checked_add_def)
  show ?case
  proof (cases "cursor \<noteq> start \<and> standalone_cut ?row \<noteq> None")
    case True
    then show ?thesis using less.prems(2) by (subst block_loop.simps) (auto simp: vec_get_def)
  next
    case False
    then have st: "cursor \<noteq> start \<longrightarrow> standalone_cut ?row = None" by auto
    note eq = block_loop_absorb [OF less.prems(2) st dm(1) m1(1) b1]
    show ?thesis
    proof (cases "6 < unat m1 \<or> 5 < b + row_events ?row")
      case True
      then have "cursor \<noteq> start" using small m1 by auto
      with True show ?thesis by (auto simp: eq)
    next
      case fit: False
      show ?thesis
      proof (cases "semantic_cut ?row = None \<and> Suc cursor - start \<noteq> 4 \<and> Suc cursor < length rows \<and>
           eff_kind (row_effects (rows ! Suc cursor)) = SK_Instruction")
        case True
        have "absorbs ?row m b m1 (b + row_events ?row)" using fit m1 by (simp add: absorbs_def)
        then have "block_run rows start (Suc cursor) m1 (b + row_events ?row)"
          using less.prems(2,3,5) instr st True by (intro block_run_Suc) auto
        with less.hyps [of "Suc cursor" m1 "b + row_events ?row"] less.prems(1,2,5) True fit
        have "\<exists>r. block_loop rows start (Suc cursor) m1 (b + row_events ?row) = Inr r" by auto
        with True fit show ?thesis by (simp add: eq)
      next
        case False
        then show ?thesis unfolding eq using fit by (auto split: option.split)
      qed
    qed
  qed
qed

text \<open>A span of the plan: a machine event alone, or a maximal bounded run of instructions.\<close>

definition span_ok :: "trace_row list \<Rightarrow> basic_block_span \<Rightarrow> bool" where
  "span_ok rows s \<longleftrightarrow>
     (let start = span_row_start s; stop = start + span_row_count s in
      0 < span_row_count s \<and> stop \<le> length rows \<and>
      (if span_instruction_count s = 0
       then span_row_count s = 1 \<and> eff_kind (row_effects (rows ! start)) \<noteq> SK_Instruction \<and>
         span_cut s = Cut_MachineEvent \<and> unat (span_m_cycle_count s) = row_cycles (rows ! start) \<and>
         span_bus_event_count s = row_events (rows ! start)
       else span_instruction_count s = span_row_count s \<and>
         block_run rows start stop (span_m_cycle_count s) (span_bus_event_count s) \<and>
         block_cut rows start stop (span_m_cycle_count s) (span_bus_event_count s) (span_cut s) \<and>
         (\<forall>j. start \<le> j \<longrightarrow> Suc j < stop \<longrightarrow> semantic_cut (rows ! j) = None)))"

fun spans_cover :: "trace_row list \<Rightarrow> nat \<Rightarrow> basic_block_span list \<Rightarrow> bool" where
  "spans_cover rows cursor [] \<longleftrightarrow> cursor = length rows"
| "spans_cover rows cursor (s # ss) \<longleftrightarrow>
     span_row_start s = cursor \<and> span_ok rows s \<and> spans_cover rows (cursor + span_row_count s) ss"

lemma plan_loop_exact:
  assumes "\<forall>row \<in> set rows. plannable row" "cursor \<le> length rows"
  shows "\<exists>new. plan_loop rows cursor spans = Inr (spans @ new) \<and> spans_cover rows cursor new"
  using assms(2)
proof (induction "length rows - cursor" arbitrary: cursor spans rule: less_induct)
  case less
  show ?case
  proof (cases "cursor < length rows")
    case False
    then show ?thesis using less.prems by (subst plan_loop.simps) (auto intro!: exI [of _ "[]"])
  next
    case True
    let ?row = "rows ! cursor"
    have pl: "plannable ?row" using assms(1) True by simp
    show ?thesis
    proof (cases "eff_kind (row_effects ?row) = SK_Instruction")
      case False
      obtain m where m: "row_resources ?row cursor = Inr (m, row_events ?row)" "unat m = row_cycles ?row"
        using plannable_resources [OF pl] .
      let ?s = "\<lparr>span_row_start = cursor, span_row_count = 1, span_instruction_count = 0, span_m_cycle_count = m,
        span_bus_event_count = row_events ?row, span_cut = Cut_MachineEvent\<rparr>"
      have eq: "plan_loop rows cursor spans = plan_loop rows (Suc cursor) (spans @ [?s])"
        using True False m by (subst plan_loop.simps) (simp add: vec_get_def)
      obtain new where "plan_loop rows (Suc cursor) (spans @ [?s]) = Inr ((spans @ [?s]) @ new)"
          "spans_cover rows (Suc cursor) new"
        using less.hyps [OF diff_less_mono2 [OF lessI True], of "spans @ [?s]"] True by auto
      moreover have "span_ok rows ?s" using True False m by (simp add: span_ok_def Let_def)
      ultimately show ?thesis by (intro exI [of _ "?s # new"]) (simp add: eq)
    next
      case instr: True
      have run: "block_run rows cursor cursor 0 0" using True by (simp add: block_run_def block_rows_def)
      from block_loop_total [OF assms(1) True run instr]
      obtain reason stop m b where r: "block_loop rows cursor cursor 0 0 = Inr (reason, stop, m, b)" by auto
      let ?s = "\<lparr>span_row_start = cursor, span_row_count = stop - cursor, span_instruction_count = stop - cursor,
        span_m_cycle_count = m, span_bus_event_count = b, span_cut = reason\<rparr>"
      from block_loop_exact [OF r run] instr have e: "cursor < stop" "block_run rows cursor stop m b"
          "block_cut rows cursor stop m b reason"
          "\<forall>j. cursor \<le> j \<longrightarrow> Suc j < stop \<longrightarrow> semantic_cut (rows ! j) = None" by auto
      have eq: "plan_loop rows cursor spans = plan_loop rows stop (spans @ [?s])"
        using True instr r by (subst plan_loop.simps) (simp add: vec_get_def)
      have le: "stop \<le> length rows" using e(2) by (simp add: block_run_def)
      then obtain new where "plan_loop rows stop (spans @ [?s]) = Inr ((spans @ [?s]) @ new)" "spans_cover rows stop new"
        using less.hyps [OF diff_less_mono2 [OF e(1) True], of "spans @ [?s]"] by auto
      moreover have "span_ok rows ?s" using e le by (simp add: span_ok_def Let_def)
      ultimately show ?thesis using e(1) by (intro exI [of _ "?s # new"]) (simp add: eq)
    qed
  qed
qed

lemma ensure_contiguous_iff: "ensure_contiguous rows = Inr () \<longleftrightarrow> contiguous rows"
proof -
  have "try_fold (\<lambda>_ i. if P i then Inl (f i) else Inr ()) () is = Inr () \<longleftrightarrow> (\<forall>i \<in> set is. \<not> P i)" for P :: "nat \<Rightarrow> bool" and f :: "nat \<Rightarrow> basic_block_plan_error" and "is"
    by (induction "is") auto
  note fold = this [of "\<lambda>i. row_after (rows ! i) \<noteq> row_before (rows ! Suc i)" Plan_Discontinuous]
  have plain: "try_fold (\<lambda>_ index.
       and_then (ok_or (Plan_Discontinuous index) (vec_get rows index)) (\<lambda>before.
       and_then (ok_or (Plan_Discontinuous index) (vec_get rows (index + 1))) (\<lambda>after.
         if row_after before \<noteq> row_before after then Inl (Plan_Discontinuous index) else Inr ()))) () is =
     try_fold (\<lambda>_ i. if row_after (rows ! i) \<noteq> row_before (rows ! Suc i) then Inl (Plan_Discontinuous i) else Inr ()) () is"
    if "\<forall>i \<in> set is. Suc i < length rows" for "is"
    using that by (induction "is") (auto simp: vec_get_def)
  have "ensure_contiguous rows =
      try_fold (\<lambda>_ i. if row_after (rows ! i) \<noteq> row_before (rows ! Suc i) then Inl (Plan_Discontinuous i) else Inr ()) ()
        [0..<length rows - 1]"
    unfolding ensure_contiguous_def by (rule plain) auto
  then show ?thesis by (auto simp: fold contiguous_iff)
qed

lemma plan_basic_blocks_exact:
  assumes "contiguous rows" "\<forall>row \<in> set rows. plannable row"
  shows "\<exists>spans. plan_basic_blocks rows = Inr spans \<and> spans_cover rows 0 spans"
  using plan_loop_exact [OF assms(2), of 0 "[]"] assms(1)
  by (simp add: plan_basic_blocks_def ensure_contiguous_iff [symmetric])

section \<open>Routing\<close>

text \<open>
  The layout a block's routing must have: lane \<open>i\<close> describes row \<open>i\<close> of the block with the running
  totals before it, and the resource slots are owned lane after lane, then padded.
\<close>

fun owner_slots :: "nat \<Rightarrow> nat list \<Rightarrow> basic_block_resource_owner list" where
  "owner_slots i [] = []"
| "owner_slots i (c # cs) = replicate c (Owner_Instruction (the (lane_from_index i))) @ owner_slots (Suc i) cs"

definition owner_layout :: "nat \<Rightarrow> nat list \<Rightarrow> basic_block_resource_owner list" where
  "owner_layout bound counts = owner_slots 0 counts @ replicate (bound - sum_list counts) Owner_Padding"

definition lane_descriptor :: "nat \<Rightarrow> trace_row list \<Rightarrow> nat \<Rightarrow> basic_block_lane_descriptor" where
  "lane_descriptor source rows i =
     \<lparr>ld_source_row_index = source + i,
      ld_m_cycle_start = word_of_nat (sum_list (map row_cycles (take i rows))),
      ld_m_cycle_count = word_of_nat (row_cycles (rows ! i)),
      ld_bus_event_start = sum_list (map row_events (take i rows)),
      ld_bus_event_count = row_events (rows ! i)\<rparr>"

definition lane_layout :: "nat \<Rightarrow> trace_row list \<Rightarrow> basic_block_lane list" where
  "lane_layout source rows =
     map (\<lambda>i. Lane_Instruction (lane_descriptor source rows i)) [0..<length rows] @ replicate (4 - length rows) Lane_Padding"

lemma owner_slots_append: "owner_slots i (cs @ [c]) = owner_slots i cs @ replicate c (Owner_Instruction (the (lane_from_index (i + length cs))))"
  by (induction i cs rule: owner_slots.induct) (simp_all del: lane_from_index.simps)

lemma length_owner_slots [simp]: "length (owner_slots i cs) = sum_list cs"
  by (induction i cs rule: owner_slots.induct) simp_all

lemma owner_layout_fill:
  assumes "sum_list cs + c \<le> bound"
  shows "vec_fill (owner_layout bound cs) (sum_list cs) (sum_list cs + c) (Owner_Instruction (the (lane_from_index (length cs)))) =
    Some (owner_layout bound (cs @ [c]))"
  using assms by (simp add: vec_fill_def owner_layout_def owner_slots_append diff_diff_eq del: lane_from_index.simps)

lemma lane_descriptor_append: "i < length rows \<Longrightarrow> lane_descriptor source (rows @ rows') i = lane_descriptor source rows i"
  by (simp add: lane_descriptor_def nth_append)

lemma lane_layout_set:
  assumes "length rows < 4"
  shows "vec_set (lane_layout source rows) (length rows) (Lane_Instruction (lane_descriptor source (rows @ [row]) (length rows))) =
    Some (lane_layout source (rows @ [row]))"
proof -
  have "replicate (4 - length rows) Lane_Padding = Lane_Padding # replicate (3 - length rows) Lane_Padding"
    using assms by (simp add: numeral_eq_Suc Suc_diff_le flip: replicate_Suc)
  then show ?thesis
    using assms by (auto simp: vec_set_def lane_layout_def list_update_append lane_descriptor_append cong: map_cong)
qed

definition routing_after :: "nat \<Rightarrow> trace_row list \<Rightarrow> routing_state" where
  "routing_after source rows =
     (lane_layout source rows, owner_layout 6 (map row_cycles rows), owner_layout 5 (map row_events rows),
      word_of_nat (sum_list (map row_cycles rows)), sum_list (map row_events rows))"

lemma lane_from_index_total: "i < 4 \<Longrightarrow> \<exists>l. lane_from_index i = Some l \<and> lane_index l = i"
  by auto

lemma route_row_step:
  assumes "eff_kind (row_effects row) = SK_Instruction" "plannable row" "length rows < 4"
    "offset + (span_row_start span + length rows) < 2 ^ 64"
    "sum_list (map row_cycles rows) + row_cycles row \<le> 6" "sum_list (map row_events rows) + row_events row \<le> 5"
  shows "route_row span offset (routing_after (offset + span_row_start span) rows) (length rows, row) =
    Inr (routing_after (offset + span_row_start span) (rows @ [row]))"
proof -
  let ?source = "offset + (span_row_start span + length rows)"
  let ?m = "sum_list (map row_cycles rows)" and ?b = "sum_list (map row_events rows)"
  obtain m where m: "row_resources row ?source = Inr (m, row_events row)" "unat m = row_cycles row"
    using plannable_resources [OF assms(2)] .
  have mw: "m = word_of_nat (row_cycles row)" by (simp flip: m(2))
  have src: "Option.bind (usize_checked_add (span_row_start span) (length rows)) (usize_checked_add offset) = Some ?source"
    using assms(4) by (simp add: usize_checked_add_def)
  have um: "unat (word_of_nat ?m :: u64) = ?m" using assms(5) by (simp add: unat_of_nat)
  have desc: "lane_descriptor (offset + span_row_start span) (rows @ [row]) (length rows) =
      \<lparr>ld_source_row_index = ?source, ld_m_cycle_start = word_of_nat ?m, ld_m_cycle_count = m,
       ld_bus_event_start = ?b, ld_bus_event_count = row_events row\<rparr>"
    using mw by (simp add: lane_descriptor_def)
  obtain l where lane: "lane_from_index (length rows) = Some l"
    using lane_from_index_total [OF assms(3)] by blast
  have fills: "vec_fill (owner_layout 6 (map row_cycles rows)) ?m (?m + row_cycles row)
        (Owner_Instruction l) = Some (owner_layout 6 (map row_cycles (rows @ [row])))"
      "vec_fill (owner_layout 5 (map row_events rows)) ?b (?b + row_events row)
        (Owner_Instruction l) = Some (owner_layout 5 (map row_events (rows @ [row])))"
    using owner_layout_fill [of "map row_events rows" "row_events row" 5] owner_layout_fill [of "map row_cycles rows" "row_cycles row" 6]
      assms(5,6) lane
    by (simp_all del: lane_from_index.simps)
  have adds: "usize_checked_add ?m (row_cycles row) = Some (?m + row_cycles row)"
      "usize_checked_add ?b (row_events row) = Some (?b + row_events row)"
      "checked_add (word_of_nat ?m) m = Some (word_of_nat (?m + row_cycles row) :: u64)"
    using assms(5,6) um m(2) mw by (simp_all add: usize_checked_add_def checked_add_def)
  show ?thesis
    unfolding route_row_def routing_after_def prod.case
    using assms(1)
    by (simp add: src m lane lane_layout_set [OF assms(3), of "offset + span_row_start span" row, unfolded desc] um fills adds
        del: lane_from_index.simps map_append) simp
qed

lemma route_rows:
  assumes "\<forall>row \<in> set (pre @ rows). eff_kind (row_effects row) = SK_Instruction \<and> plannable row"
    "length (pre @ rows) \<le> 4" "offset + (span_row_start span + length (pre @ rows)) \<le> 2 ^ 64"
    "sum_list (map row_cycles (pre @ rows)) \<le> 6" "sum_list (map row_events (pre @ rows)) \<le> 5"
  shows "try_fold (route_row span offset) (routing_after (offset + span_row_start span) pre) (enumerate (length pre) rows) =
    Inr (routing_after (offset + span_row_start span) (pre @ rows))"
  using assms
proof (induction rows arbitrary: pre)
  case (Cons row rows)
  have "route_row span offset (routing_after (offset + span_row_start span) pre) (length pre, row) =
      Inr (routing_after (offset + span_row_start span) (pre @ [row]))"
    using Cons.prems by (intro route_row_step) auto
  with Cons.IH [of "pre @ [row]"] Cons.prems show ?case by simp
qed simp

definition instruction_rows :: "basic_block_span \<Rightarrow> trace_row list \<Rightarrow> trace_row list" where
  "instruction_rows s rows = (if span_instruction_count s = 0 then [] else rows)"

lemma block_routing_exact:
  assumes "span_ok rows s" "\<forall>row \<in> set rows. plannable row" "offset + length rows \<le> 2 ^ 64"
  defines "taken \<equiv> block_rows rows (span_row_start s) (span_row_start s + span_row_count s)"
  shows "block_routing taken s offset =
    Inr \<lparr>rt_lanes = lane_layout (offset + span_row_start s) (instruction_rows s taken),
          rt_m_cycle_owners = owner_layout 6 (map row_cycles (instruction_rows s taken)),
          rt_bus_event_owners = owner_layout 5 (map row_events (instruction_rows s taken))\<rparr>"
proof -
  let ?start = "span_row_start s" and ?n = "span_row_count s"
  have n: "0 < ?n" "?start + ?n \<le> length rows" using assms(1) by (simp_all add: span_ok_def Let_def)
  then have len: "length taken = ?n" by (simp add: taken_def block_rows_def)
  have nth: "taken ! i = rows ! (?start + i)" if "i < ?n" for i
    using that n by (simp add: taken_def block_rows_def)
  show ?thesis
  proof (cases "span_instruction_count s = 0")
    case True
    then have "?n = 1" "eff_kind (row_effects (rows ! ?start)) \<noteq> SK_Instruction"
      using assms(1) by (simp_all add: span_ok_def Let_def)
    moreover then have "slice_first taken = Some (rows ! ?start)" using len nth [of 0] by (cases taken) auto
    ultimately show ?thesis
      using True len by (simp add: block_routing_def instruction_rows_def lane_layout_def owner_layout_def block_bounds)
  next
    case False
    then have r: "span_instruction_count s = ?n" "block_run rows ?start (?start + ?n) (span_m_cycle_count s) (span_bus_event_count s)"
      using assms(1) by (simp_all add: span_ok_def Let_def)
    then have b: "?n \<le> 4" "sum_list (map row_cycles taken) = unat (span_m_cycle_count s)"
        "sum_list (map row_events taken) = span_bus_event_count s" "unat (span_m_cycle_count s) \<le> 6" "span_bus_event_count s \<le> 5"
      by (simp_all add: block_run_def taken_def)
    have "\<forall>row \<in> set taken. eff_kind (row_effects row) = SK_Instruction \<and> plannable row"
      using r(2) n assms(2) by (auto simp: in_set_conv_nth [of _ taken] len nth block_run_def)
    then have "try_fold (route_row s offset) (routing_after (offset + ?start) []) (enumerate 0 taken) =
        Inr (routing_after (offset + ?start) taken)"
      using route_rows [of "[]" taken offset s] b len n assms(3) by simp
    moreover have "routing_after (offset + ?start) [] = (replicate 4 Lane_Padding, replicate 6 Owner_Padding, replicate 5 Owner_Padding, 0, 0)"
      by (simp add: routing_after_def lane_layout_def owner_layout_def)
    ultimately show ?thesis
      using False r(1) b len
      by (simp add: block_routing_def block_bounds instruction_rows_def routing_after_def)
  qed
qed

text \<open>The blocks are the spans with their rows, in order, and together they are all the rows.\<close>

definition block_matches :: "trace_row list \<Rightarrow> nat \<Rightarrow> basic_block_span \<Rightarrow> basic_block \<Rightarrow> bool" where
  "block_matches rows offset s b \<longleftrightarrow>
     bb_rows b = block_rows rows (span_row_start s) (span_row_start s + span_row_count s) \<and>
     bb_source_row_start b = offset + span_row_start s \<and>
     bb_instruction_count b = span_instruction_count s \<and> bb_m_cycle_count b = span_m_cycle_count s \<and>
     bb_bus_event_count b = span_bus_event_count s \<and> bb_cut b = span_cut s \<and>
     bb_initial_state b = row_before (hd (bb_rows b)) \<and> bb_final_state b = row_after (last (bb_rows b)) \<and>
     bb_lanes b = lane_layout (offset + span_row_start s) (instruction_rows s (bb_rows b)) \<and>
     bb_m_cycle_owners b = owner_layout 6 (map row_cycles (instruction_rows s (bb_rows b))) \<and>
     bb_bus_event_owners b = owner_layout 5 (map row_events (instruction_rows s (bb_rows b)))"

lemma pack_spans_exact:
  assumes "spans_cover rows cursor spans" "\<forall>row \<in> set rows. plannable row" "offset + length rows < 2 ^ 64"
  shows "\<exists>blocks. pack_spans offset (drop cursor rows) spans = Inr blocks \<and>
    concat (map bb_rows blocks) = drop cursor rows \<and> list_all2 (block_matches rows offset) spans blocks"
  using assms(1)
proof (induction spans arbitrary: cursor)
  case (Cons s spans)
  let ?n = "span_row_count s" and ?taken = "block_rows rows cursor (cursor + span_row_count s)"
  have s: "span_row_start s = cursor" "span_ok rows s" "spans_cover rows (cursor + ?n) spans" using Cons.prems by simp_all
  then have n: "0 < ?n" "cursor + ?n \<le> length rows" by (simp_all add: span_ok_def Let_def)
  have taken: "take ?n (drop cursor rows) = ?taken" "length ?taken = ?n" "?taken \<noteq> []"
    using n by (auto simp: block_rows_def)
  obtain blocks where blocks: "pack_spans offset (drop (cursor + ?n) rows) spans = Inr blocks"
      "concat (map bb_rows blocks) = drop (cursor + ?n) rows" "list_all2 (block_matches rows offset) spans blocks"
    using Cons.IH [OF s(3)] by blast
  have route: "block_routing ?taken s offset = Inr \<lparr>rt_lanes = lane_layout (offset + cursor) (instruction_rows s ?taken),
      rt_m_cycle_owners = owner_layout 6 (map row_cycles (instruction_rows s ?taken)),
      rt_bus_event_owners = owner_layout 5 (map row_events (instruction_rows s ?taken))\<rparr>"
    using block_routing_exact [OF s(2) assms(2), of offset] assms(3) s(1) by simp
  have "usize_checked_add offset cursor = Some (offset + cursor)" using n assms(3) by (simp add: usize_checked_add_def)
  moreover have "?taken @ drop (cursor + ?n) rows = drop cursor rows"
    using append_take_drop_id [of ?n "drop cursor rows"] taken(1) by (simp add: add.commute)
  ultimately show ?case
    using taken route blocks s(1)
    by (simp add: Let_def drop_drop add.commute [of _ cursor] block_matches_def [of _ _ s])
qed simp

lemma length_layouts:
  "length rows \<le> 4 \<Longrightarrow> length (lane_layout source rows) = 4" "sum_list counts \<le> bound \<Longrightarrow> length (owner_layout bound counts) = bound"
  by (simp_all add: lane_layout_def owner_layout_def)

lemma blocks_slots:
  assumes "spans_cover rows cursor spans" "list_all2 (block_matches rows offset) spans blocks"
  shows "\<forall>b \<in> set blocks. length (bb_lanes b) = 4 \<and> length (bb_m_cycle_owners b) = 6 \<and> length (bb_bus_event_owners b) = 5"
  using assms
proof (induction spans arbitrary: cursor blocks)
  case (Cons s spans)
  then obtain b bs where b: "blocks = b # bs" "block_matches rows offset s b" "list_all2 (block_matches rows offset) spans bs"
    by (auto simp: list_all2_Cons1)
  have ok: "span_ok rows s" "spans_cover rows (cursor + span_row_count s) spans" using Cons.prems(1) by simp_all
  have "length (instruction_rows s (bb_rows b)) \<le> 4 \<and> sum_list (map row_cycles (instruction_rows s (bb_rows b))) \<le> 6 \<and>
      sum_list (map row_events (instruction_rows s (bb_rows b))) \<le> 5"
    using ok(1) b(2) by (auto simp: span_ok_def Let_def block_matches_def instruction_rows_def block_run_def block_rows_def split: if_splits)
  then have "length (bb_lanes b) = 4 \<and> length (bb_m_cycle_owners b) = 6 \<and> length (bb_bus_event_owners b) = 5"
    using b(2) by (simp add: block_matches_def length_layouts)
  with Cons.IH [OF ok(2) b(3)] b(1) show ?case by simp
qed simp

section \<open>Accepted rows are plannable\<close>

lemma step_increment_bound: "defined_instruction i \<Longrightarrow> unat (step_increment i taken) \<le> 6"
  using defined_timing(2,3) [of i]
  by (auto simp: step_increment_def word_le_nat_alt split: option.splits)

lemma row_accepted_plannable:
  assumes "row_accepted sha auth row"
  shows "plannable row"
proof -
  let ?s = "row_before row" and ?e = "row_effects row"
  obtain input where step: "apply_step sha ?s input auth = Inr (row_after row, ?e)"
    using assms by (auto simp: row_accepted_def)
  obtain x where x: "step_body sha ?s (executor_new ?s input auth) = Inr ((eff_kind ?e, eff_instruction ?e, eff_branch_taken ?e), x)"
      "ex_events x = eff_bus_events ?e" "finalize sha (eff_instruction ?e) x = Inr (row_after row, eff_bus_events ?e)"
    using apply_step_trace [OF step] .
  have d: "defined_instruction (eff_instruction ?e)" using step_body_defined [OF x(1)] .
  have c: "unat (cpu_m_cycles (vm_cpu (row_after row))) =
      unat (cpu_m_cycles (vm_cpu ?s)) + step_cycles (vm_dmg_devices ?s) (eff_kind ?e) (eff_instruction ?e) (eff_branch_taken ?e)"
    using step_body_cycles [OF x(1)] x(3) by (auto simp: executor_cycles_def executor_new_def finalize_Inr split: if_splits)
  have "row_cycles row \<le> 6 \<and> row_events row \<le> 5" if k: "eff_kind ?e = SK_Instruction"
  proof -
    have "step_program sha ?s (executor_new ?s input auth) = Inr ((eff_instruction ?e, eff_branch_taken ?e), x)"
      using instruction_step_body [OF x(1) k] .
    from step_program_event_bound [OF this _ d] x(2) have "row_events row \<le> 5"
      by (simp add: executor_new_def row_events_def)
    moreover have "row_cycles row \<le> 6"
      using c k step_increment_bound [OF d] by (simp add: row_cycles_def step_cycles_def)
    ultimately show ?thesis by simp
  qed
  with c show ?thesis by (simp add: plannable_def word_le_nat_alt)
qed

end
