(* ===== verification/Trace_Builder.thy ===== *)
theory Trace_Builder
  imports Witness_Service Trace_Blocks
begin

text \<open>
  The prover adapter (\<open>zksm83-trace/src/builder.rs\<close>): it replays a step with a growing plan of
  witnesses answered from the committed images until the relation accepts, applies the accepted
  writes to its own image, and runs to HALT, for an exact number of rows, or to a milestone.
  Methods with \<open>&mut self\<close> return the builder next to the result, also when they fail.
\<close>

section \<open>Data\<close>

definition MAX_WITNESSES_PER_STEP :: nat where
  "MAX_WITNESSES_PER_STEP = 5"

record trace_builder =
  tb_rom :: rom_image
  tb_memory :: memory_image
  tb_private_input :: "u8 list"
  tb_state :: vm_state

datatype planned_witness =
    PW_Rom u16 u32
  | PW_MemoryRead u16 u32
  | PW_MemoryWrite u16 u32 u8
  | PW_InputByte u8

datatype trace_builder_error =
    TBE_Step step_error
  | TBE_State vm_state_error
  | TBE_Rom rom_image_error
  | TBE_Memory memory_image_error
  | TBE_Trace trace_error
  | TBE_StepBoundReached u64
  | TBE_ZeroStepChunk
  | TBE_TerminatedBeforeExactSteps u64 u64 run_state
  | TBE_ExactStepFailed u64 u16 trace_builder_error
  | TBE_MilestoneNotReached u64
  | TBE_InputExhausted u64
  | TBE_InputIndexOverflow
  | TBE_CheckpointRomRootMismatch
  | TBE_CheckpointMemoryRootMismatch
  | TBE_CheckpointInputTooShort u64 u64
  | TBE_CheckpointInputRootMismatch
  | TBE_CheckpointInputCommitment log_error
  | TBE_UnconsumedInput u64 u64
  | TBE_WitnessBoundExceeded nat
  | TBE_MemoryEffectDivergence

section \<open>Construction\<close>

definition builder_new :: "digest \<Rightarrow> rom_image \<Rightarrow> memory_image \<Rightarrow> u8 list \<Rightarrow> trace_builder" where
  "builder_new sha rom memory private_input =
     \<lparr>tb_rom = rom, tb_memory = memory, tb_private_input = private_input,
      tb_state = vm_profile_initial sha (rom_image_root rom) (memory_image_root memory)\<rparr>"

definition new_dmg_post_boot_mbc3 :: "digest \<Rightarrow> rom_image \<Rightarrow> memory_image \<Rightarrow> u8 list \<Rightarrow> trace_builder" where
  "new_dmg_post_boot_mbc3 sha rom memory private_input =
     \<lparr>tb_rom = rom, tb_memory = memory, tb_private_input = private_input,
      tb_state = vm_dmg_initial sha (rom_image_root rom) (memory_image_root memory)\<rparr>"

definition new_dmg_post_boot_mbc3_profile ::
  "digest \<Rightarrow> rom_image \<Rightarrow> memory_image \<Rightarrow> u8 list \<Rightarrow> machine_profile \<Rightarrow> trace_builder_error + trace_builder" where
  "new_dmg_post_boot_mbc3_profile sha rom memory private_input profile =
     and_then (map_err TBE_State
         (vm_dmg_profile_initial sha profile (rom_image_root rom) (memory_image_root memory))) (\<lambda>state.
       Inr \<lparr>tb_rom = rom, tb_memory = memory, tb_private_input = private_input, tb_state = state\<rparr>)"

definition resume :: "digest \<Rightarrow> rom_image \<Rightarrow> memory_image \<Rightarrow> u8 list \<Rightarrow> vm_state \<Rightarrow> trace_builder_error + trace_builder" where
  "resume sha rom memory private_input state =
     (if vm_rom_root state \<noteq> rom_image_root rom then Inl TBE_CheckpointRomRootMismatch
      else if vm_memory_root state \<noteq> memory_image_root memory then Inl TBE_CheckpointMemoryRootMismatch
      else
        and_then (ok_or TBE_InputIndexOverflow (u64_try_from (length private_input))) (\<lambda>provided.
          let consumed = log_next_index (vm_input_log state) in
          if consumed > provided then Inl (TBE_CheckpointInputTooShort consumed provided)
          else
            and_then (ok_or (TBE_CheckpointInputTooShort consumed provided)
                (vec_slice private_input 0 (unat consumed))) (\<lambda>consumed_prefix.
            and_then (map_err TBE_CheckpointInputCommitment (log_commit sha Log_Input consumed_prefix)) (\<lambda>committed_prefix.
              if committed_prefix \<noteq> vm_input_log state then Inl TBE_CheckpointInputRootMismatch
              else Inr \<lparr>tb_rom = rom, tb_memory = memory, tb_private_input = private_input, tb_state = state\<rparr>))))"

definition checkpoint_memory :: "trace_builder \<Rightarrow> u8 list" where
  "checkpoint_memory b = checkpoint_bytes (tb_memory b)"

definition battery_sram :: "trace_builder \<Rightarrow> trace_builder_error + u8 list" where
  "battery_sram b = map_err TBE_Memory (battery_sram_bytes (tb_memory b))"

section \<open>Witness plans\<close>

fun requires_memory_fork_from :: "bool \<Rightarrow> planned_witness list \<Rightarrow> bool" where
  "requires_memory_fork_from write_seen [] = False"
| "requires_memory_fork_from write_seen (PW_MemoryWrite a p v # ps) = (write_seen \<or> requires_memory_fork_from True ps)"
| "requires_memory_fork_from write_seen (PW_MemoryRead a p # ps) = (write_seen \<or> requires_memory_fork_from write_seen ps)"
| "requires_memory_fork_from write_seen (PW_Rom a p # ps) = requires_memory_fork_from write_seen ps"
| "requires_memory_fork_from write_seen (PW_InputByte v # ps) = requires_memory_fork_from write_seen ps"

definition requires_memory_fork :: "planned_witness list \<Rightarrow> bool" where
  "requires_memory_fork ps = requires_memory_fork_from False ps"

text \<open>One planned witness: the fork, when there is one, moves with every write.\<close>

fun materialize_one ::
  "digest \<Rightarrow> trace_builder \<Rightarrow> memory_image option \<Rightarrow> planned_witness \<Rightarrow>
     trace_builder_error + (bus_witness \<times> memory_image option)" where
  "materialize_one sha b fork (PW_Rom address physical_address) =
     and_then (map_err TBE_Rom (rom_image_read_mapped (tb_rom b) address physical_address)) (\<lambda>read.
       Inr (Wit_Rom read, fork))"
| "materialize_one sha b fork (PW_MemoryRead address physical_address) =
     and_then (map_err TBE_Memory
         (memory_image_read_mapped (case fork of Some memory \<Rightarrow> memory | None \<Rightarrow> tb_memory b) address physical_address)) (\<lambda>read.
       Inr (Wit_MemoryRead read, fork))"
| "materialize_one sha b fork (PW_MemoryWrite address physical_address v) =
     (case fork of
        Some memory \<Rightarrow>
          and_then (map_err TBE_Memory (memory_image_write_mapped sha memory address physical_address v)) (\<lambda>(write, memory').
            Inr (Wit_MemoryWrite write, Some memory'))
      | None \<Rightarrow>
          and_then (map_err TBE_Memory (preview_write_mapped (tb_memory b) address physical_address v)) (\<lambda>write.
            Inr (Wit_MemoryWrite write, None)))"
| "materialize_one sha b fork (PW_InputByte v) = Inr (Wit_InputByte v, fork)"

fun materialize_loop ::
  "digest \<Rightarrow> trace_builder \<Rightarrow> memory_image option \<Rightarrow> planned_witness list \<Rightarrow> trace_builder_error + bus_witness list" where
  "materialize_loop sha b fork [] = Inr []"
| "materialize_loop sha b fork (p # ps) =
     and_then (materialize_one sha b fork p) (\<lambda>(w, fork').
     and_then (materialize_loop sha b fork' ps) (\<lambda>ws. Inr (w # ws)))"

definition materialize :: "digest \<Rightarrow> trace_builder \<Rightarrow> planned_witness list \<Rightarrow> trace_builder_error + step_input" where
  "materialize sha b ps =
     and_then (materialize_loop sha b (if requires_memory_fork ps then Some (tb_memory b) else None) ps) (\<lambda>ws.
       Inr \<lparr>input_witnesses = ws\<rparr>)"

fun is_planned_input :: "planned_witness \<Rightarrow> bool" where
  "is_planned_input (PW_InputByte _) = True"
| "is_planned_input _ = False"

fun plan_witness :: "trace_builder \<Rightarrow> witness_request \<Rightarrow> planned_witness list \<Rightarrow> trace_builder_error + planned_witness" where
  "plan_witness b (Req_Rom address physical_address _) existing = Inr (PW_Rom address physical_address)"
| "plan_witness b (Req_MemoryRead address physical_address) existing = Inr (PW_MemoryRead address physical_address)"
| "plan_witness b (Req_MemoryWrite address physical_address v) existing = Inr (PW_MemoryWrite address physical_address v)"
| "plan_witness b Req_InputByte existing =
     and_then (ok_or TBE_InputIndexOverflow (u64_try_from (length (filter is_planned_input existing)))) (\<lambda>prior.
     and_then (ok_or TBE_InputIndexOverflow (checked_add (log_next_index (vm_input_log (tb_state b))) prior)) (\<lambda>index.
     and_then (ok_or (TBE_InputExhausted index) (vec_get (tb_private_input b) (unat index))) (\<lambda>v.
       Inr (PW_InputByte v))))"

section \<open>Steps\<close>

fun write_effect :: "bus_event \<Rightarrow> memory_write option" where
  "write_effect (Ev_MemoryWrite w) = Some w"
| "write_effect (Ev_DmgDmaWrite w) = Some w"
| "write_effect _ = None"

fun apply_image_effects ::
  "digest \<Rightarrow> memory_image \<Rightarrow> bus_event list \<Rightarrow> commitment_root \<Rightarrow> (trace_builder_error + unit) \<times> memory_image" where
  "apply_image_effects sha memory [] expected_root =
     (if memory_image_root memory \<noteq> expected_root then (Inl TBE_MemoryEffectDivergence, memory) else (Inr (), memory))"
| "apply_image_effects sha memory (e # es) expected_root =
     (case write_effect e of
        None \<Rightarrow> apply_image_effects sha memory es expected_root
      | Some expected \<Rightarrow>
          (case memory_image_write_mapped sha memory (mw_address expected) (mw_physical_address expected) (mw_after expected) of
             Inl err \<Rightarrow> (Inl (TBE_Memory err), memory)
           | Inr (actual, memory') \<Rightarrow>
               if actual \<noteq> expected then (Inl TBE_MemoryEffectDivergence, memory')
               else apply_image_effects sha memory' es expected_root))"

text \<open>An accepted step: apply its writes to the image, then move the state.\<close>

definition accept_step ::
  "digest \<Rightarrow> trace_builder \<Rightarrow> vm_state \<Rightarrow> step_effects \<Rightarrow> (trace_builder_error + trace_row) \<times> trace_builder" where
  "accept_step sha b after effects =
     (case apply_image_effects sha (tb_memory b) (eff_bus_events effects) (vm_memory_root after) of
        (Inl e, memory) \<Rightarrow> (Inl e, b\<lparr>tb_memory := memory\<rparr>)
      | (Inr _, memory) \<Rightarrow>
          (Inr (trace_row_from_accepted (tb_state b) after effects), b\<lparr>tb_memory := memory, tb_state := after\<rparr>))"

function step_loop ::
  "digest \<Rightarrow> trace_builder \<Rightarrow> planned_witness list \<Rightarrow> (trace_builder_error + trace_row) \<times> trace_builder" where
  "step_loop sha b ps =
     (case materialize sha b ps of
        Inl e \<Rightarrow> (Inl e, b)
      | Inr input \<Rightarrow>
          (case step_relation_apply sha (tb_state b) input of
             Inr (after, effects) \<Rightarrow> accept_step sha b after effects
           | Inl (MissingWitness request) \<Rightarrow>
               if length ps \<ge> MAX_WITNESSES_PER_STEP
               then (Inl (TBE_WitnessBoundExceeded MAX_WITNESSES_PER_STEP), b)
               else
                 (case plan_witness b request ps of
                    Inl e \<Rightarrow> (Inl e, b)
                  | Inr p \<Rightarrow> step_loop sha b (ps @ [p]))
           | Inl e \<Rightarrow> (Inl (TBE_Step e), b)))"
  by pat_completeness auto
termination
  by (relation "measure (\<lambda>(sha, b, ps). MAX_WITNESSES_PER_STEP - length ps)") auto

declare step_loop.simps [simp del]

definition builder_step :: "digest \<Rightarrow> trace_builder \<Rightarrow> (trace_builder_error + trace_row) \<times> trace_builder" where
  "builder_step sha b = step_loop sha b []"

section \<open>Runs\<close>

text \<open>\<open>for _ in 0..step_bound\<close> with its \<open>break\<close>.\<close>

fun run_loop ::
  "digest \<Rightarrow> nat \<Rightarrow> trace_builder \<Rightarrow> trace_row list \<Rightarrow> trace_builder_error + (trace_row list \<times> trace_builder)" where
  "run_loop sha 0 b rows = Inr (rows, b)"
| "run_loop sha (Suc n) b rows =
     (if \<not> can_execute_instruction (cpu_run_state (vm_cpu (tb_state b))) then Inr (rows, b)
      else
        (case builder_step sha b of
           (Inl e, _) \<Rightarrow> Inl e
         | (Inr row, b') \<Rightarrow> run_loop sha n b' (rows @ [row])))"

definition run_builder :: "digest \<Rightarrow> trace_builder \<Rightarrow> u64 \<Rightarrow> trace_builder_error + exec_witness" where
  "run_builder sha b step_bound =
     and_then (run_loop sha (unat step_bound) b []) (\<lambda>(rows, b').
       if cpu_run_state (vm_cpu (tb_state b')) = Running then Inl (TBE_StepBoundReached step_bound)
       else
         let consumed = log_next_index (vm_input_log (tb_state b')) in
         and_then (ok_or TBE_InputIndexOverflow (u64_try_from (length (tb_private_input b')))) (\<lambda>provided.
           if consumed \<noteq> provided then Inl (TBE_UnconsumedInput consumed provided)
           else map_err TBE_Trace (witness_from_rows rows)))"

definition require_exact_row :: "trace_builder \<Rightarrow> run_state \<Rightarrow> u64 \<Rightarrow> u64 \<Rightarrow> trace_builder_error + unit" where
  "require_exact_row b r completed requested =
     (if can_execute_instruction r \<or> (is_dmg_post_boot_mbc3 (vm_profile (tb_state b)) \<and> r = Halted)
      then Inr () else Inl (TBE_TerminatedBeforeExactSteps completed requested r))"

text \<open>
  One row of an exact or bounded run: the guard, the step, the metrics, the caller's closure.
  A closure is a function on the state it captures.
\<close>

type_synonym 'a acceptor = "'a \<Rightarrow> trace_row \<Rightarrow> trace_builder_error + 'a"

definition exact_row ::
  "digest \<Rightarrow> 'a acceptor \<Rightarrow> u64 \<Rightarrow> u64 \<Rightarrow> trace_builder \<Rightarrow> execution_metrics \<Rightarrow> 'a \<Rightarrow>
     (trace_builder_error + (execution_metrics \<times> 'a)) \<times> trace_builder" where
  "exact_row sha accept completed requested b metrics acc =
     (case require_exact_row b (cpu_run_state (vm_cpu (tb_state b))) completed requested of
        Inl e \<Rightarrow> (Inl e, b)
      | Inr _ \<Rightarrow>
          (case builder_step sha b of
             (Inl e, b') \<Rightarrow> (Inl (TBE_ExactStepFailed completed (cpu_pc (vm_cpu (tb_state b))) e), b')
           | (Inr row, b') \<Rightarrow>
               (and_then (map_err TBE_Trace (metrics_record metrics row)) (\<lambda>metrics'.
                and_then (accept acc row) (\<lambda>acc'. Inr (metrics', acc'))), b')))"

function exact_loop ::
  "digest \<Rightarrow> 'a acceptor \<Rightarrow> nat \<Rightarrow> u64 \<Rightarrow> trace_builder \<Rightarrow> execution_metrics \<Rightarrow> 'a \<Rightarrow>
     (trace_builder_error + (execution_metrics \<times> 'a)) \<times> trace_builder" where
  "exact_loop sha accept completed step_count b metrics acc =
     (if completed < unat step_count then
        (case exact_row sha accept (word_of_nat completed) step_count b metrics acc of
           (Inl e, b') \<Rightarrow> (Inl e, b')
         | (Inr (metrics', acc'), b') \<Rightarrow> exact_loop sha accept (Suc completed) step_count b' metrics' acc')
      else (Inr (metrics, acc), b))"
  by pat_completeness auto
termination
  by (relation "measure (\<lambda>(sha, accept, completed, step_count, b, metrics, acc). unat step_count - completed)") auto

declare exact_loop.simps [simp del]

definition execute_exact ::
  "digest \<Rightarrow> 'a acceptor \<Rightarrow> u64 \<Rightarrow> trace_builder \<Rightarrow> 'a \<Rightarrow>
     (trace_builder_error + (execution_boundary \<times> 'a)) \<times> trace_builder" where
  "execute_exact sha accept step_count b acc =
     (if step_count = 0 then (Inl TBE_ZeroStepChunk, b)
      else
        (case exact_loop sha accept 0 step_count b metrics_default acc of
           (Inl e, b') \<Rightarrow> (Inl e, b')
         | (Inr (metrics, acc'), b') \<Rightarrow> (Inr (boundary_from_exact (tb_state b) (tb_state b') metrics, acc'), b')))"

text \<open>The milestone predicate is an \<open>FnMut\<close>: it may carry state of its own.\<close>

type_synonym 'r milestone = "'r \<Rightarrow> vm_state \<Rightarrow> bool \<times> 'r"

function until_loop ::
  "digest \<Rightarrow> 'r milestone \<Rightarrow> 'a acceptor \<Rightarrow> nat \<Rightarrow> u64 \<Rightarrow> vm_state \<Rightarrow> trace_builder \<Rightarrow> execution_metrics \<Rightarrow> 'r \<Rightarrow> 'a \<Rightarrow>
     (trace_builder_error + (execution_boundary \<times> 'a)) \<times> trace_builder" where
  "until_loop sha reached accept completed step_bound initial_state b metrics r acc =
     (if completed < unat step_bound then
        (case exact_row sha accept (word_of_nat completed) step_bound b metrics acc of
           (Inl e, b') \<Rightarrow> (Inl e, b')
         | (Inr (metrics', acc'), b') \<Rightarrow>
             (case reached r (tb_state b') of
                (True, _) \<Rightarrow> (Inr (boundary_from_exact initial_state (tb_state b') metrics', acc'), b')
              | (False, r') \<Rightarrow>
                  until_loop sha reached accept (Suc completed) step_bound initial_state b' metrics' r' acc'))
      else (Inl (TBE_MilestoneNotReached step_bound), b))"
  by pat_completeness auto
termination
  by (relation "measure (\<lambda>(sha, reached, accept, completed, step_bound, i, b, metrics, r, acc). unat step_bound - completed)") auto

declare until_loop.simps [simp del]

definition execute_until ::
  "digest \<Rightarrow> 'r milestone \<Rightarrow> 'a acceptor \<Rightarrow> u64 \<Rightarrow> trace_builder \<Rightarrow> 'r \<Rightarrow> 'a \<Rightarrow>
     (trace_builder_error + (execution_boundary \<times> 'a)) \<times> trace_builder" where
  "execute_until sha reached accept step_bound b r acc =
     (if step_bound = 0 then (Inl TBE_ZeroStepChunk, b)
      else until_loop sha reached accept 0 step_bound (tb_state b) b metrics_default r acc)"

definition run_exact_steps :: "digest \<Rightarrow> u64 \<Rightarrow> trace_builder \<Rightarrow> (trace_builder_error + exec_witness) \<times> trace_builder" where
  "run_exact_steps sha step_count b =
     (case execute_exact sha (\<lambda>rows row. Inr (rows @ [row])) step_count b [] of
        (Inl e, b') \<Rightarrow> (Inl e, b')
      | (Inr (_, rows), b') \<Rightarrow> (map_err TBE_Trace (witness_from_rows rows), b'))"

definition run_exact_boundary :: "digest \<Rightarrow> u64 \<Rightarrow> trace_builder \<Rightarrow> (trace_builder_error + execution_boundary) \<times> trace_builder" where
  "run_exact_boundary sha step_count b =
     (case execute_exact sha (\<lambda>_ _. Inr ()) step_count b () of
        (Inl e, b') \<Rightarrow> (Inl e, b')
      | (Inr (boundary, _), b') \<Rightarrow> (Inr boundary, b'))"

definition record_profile :: "program_counter_profile acceptor" where
  "record_profile counts row = map_err TBE_Trace (profile_record counts row)"

definition run_exact_boundary_profiled ::
  "digest \<Rightarrow> u64 \<Rightarrow> trace_builder \<Rightarrow> (trace_builder_error + (execution_boundary \<times> program_counter_profile)) \<times> trace_builder" where
  "run_exact_boundary_profiled sha step_count b = execute_exact sha record_profile step_count b []"

definition run_until_boundary ::
  "digest \<Rightarrow> 'r milestone \<Rightarrow> u64 \<Rightarrow> 'r \<Rightarrow> trace_builder \<Rightarrow> (trace_builder_error + execution_boundary) \<times> trace_builder" where
  "run_until_boundary sha reached step_bound r b =
     (case execute_until sha reached (\<lambda>_ _. Inr ()) step_bound b r () of
        (Inl e, b') \<Rightarrow> (Inl e, b')
      | (Inr (boundary, _), b') \<Rightarrow> (Inr boundary, b'))"

definition run_until_boundary_profiled ::
  "digest \<Rightarrow> 'r milestone \<Rightarrow> u64 \<Rightarrow> 'r \<Rightarrow> trace_builder \<Rightarrow>
     (trace_builder_error + (execution_boundary \<times> program_counter_profile)) \<times> trace_builder" where
  "run_until_boundary_profiled sha reached step_bound r b = execute_until sha reached record_profile step_bound b r []"

fun completed_exact_steps :: "trace_builder_error \<Rightarrow> u64 option" where
  "completed_exact_steps (TBE_TerminatedBeforeExactSteps completed _ _) = Some completed"
| "completed_exact_steps (TBE_ExactStepFailed completed _ _) = Some completed"
| "completed_exact_steps (TBE_MilestoneNotReached completed) = Some completed"
| "completed_exact_steps _ = None"

end
