(* ===== verification/Prover_Dialogue.thy ===== *)
theory Prover_Dialogue
  imports Trace_Builder
begin

text \<open>
  What the two prover adapters share.  A plan of witnesses has one answer per entry, taken from
  the ROM bytes and from the memory bytes as its earlier writes leave them.  The locale states
  what an adapter provides (one attempt per plan, one planned entry per request) and concludes
  once that its first attempt ends in an accepted step, in a failure of the machine itself, or
  at the end of its resources.
\<close>

section \<open>Answers from the committed bytes\<close>

text \<open>Where the Merkle paths of the answers come from.\<close>

type_synonym path_source = "tree_kind \<Rightarrow> u8 list \<Rightarrow> nat \<Rightarrow> merkle_path"

definition merkle_paths :: "digest \<Rightarrow> path_source" where
  "merkle_paths sha kind bs i = tree_path sha kind (padded bs) i"

fun plan_answers :: "path_source \<Rightarrow> u8 list \<Rightarrow> u8 list \<Rightarrow> planned_witness list \<Rightarrow> bus_witness list" where
  "plan_answers path rom mem [] = []"
| "plan_answers path rom mem (PW_Rom a p # ps) =
     Wit_Rom \<lparr>rr_address = a, rr_physical_address = p, rr_value = rom ! unat p,
        rr_path = path Kind_Rom rom (unat p)\<rparr> # plan_answers path rom mem ps"
| "plan_answers path rom mem (PW_MemoryRead a p # ps) =
     Wit_MemoryRead \<lparr>mr_address = a, mr_physical_address = p, mr_value = mem ! unat p,
        mr_path = path Kind_Memory mem (unat p)\<rparr> # plan_answers path rom mem ps"
| "plan_answers path rom mem (PW_MemoryWrite a p v # ps) =
     Wit_MemoryWrite \<lparr>mw_address = a, mw_physical_address = p, mw_before = mem ! unat p, mw_after = v,
        mw_path = path Kind_Memory mem (unat p)\<rparr> # plan_answers path rom (mem[unat p := v]) ps"
| "plan_answers path rom mem (PW_InputByte v # ps) = Wit_InputByte v # plan_answers path rom mem ps"

fun plan_apply :: "planned_witness \<Rightarrow> u8 list \<Rightarrow> u8 list" where
  "plan_apply (PW_MemoryWrite a p v) mem = mem[unat p := v]"
| "plan_apply _ mem = mem"

fun plan_input :: "planned_witness \<Rightarrow> u8 list" where
  "plan_input (PW_InputByte v) = [v]"
| "plan_input _ = []"

definition plan_inputs :: "planned_witness list \<Rightarrow> u8 list" where
  "plan_inputs ps = concat (map plan_input ps)"

text \<open>A planned access inside the images.\<close>

fun plan_ok :: "u8 list \<Rightarrow> planned_witness \<Rightarrow> bool" where
  "plan_ok rom (PW_Rom a p) \<longleftrightarrow> owner a = Own_Rom \<and> unat p < length rom"
| "plan_ok rom (PW_MemoryRead a p) \<longleftrightarrow> (owner a = Own_Memory \<or> dmg_owner a = Own_Memory) \<and> unat p < 2 ^ 17"
| "plan_ok rom (PW_MemoryWrite a p v) \<longleftrightarrow> (owner a = Own_Memory \<or> dmg_owner a = Own_Memory) \<and> unat p < 2 ^ 17"
| "plan_ok rom (PW_InputByte v) \<longleftrightarrow> True"

lemma length_plan_apply [simp]: "length (plan_apply p mem) = length mem"
  by (cases p) simp_all

lemma length_fold_plan [simp]: "length (fold plan_apply ps mem) = length mem"
  by (induction ps arbitrary: mem) simp_all

lemma length_plan_answers [simp]: "length (plan_answers path rom mem ps) = length ps"
  by (induction path rom mem ps rule: plan_answers.induct) simp_all

lemma plan_answers_append:
  "plan_answers path rom mem (ps @ qs) = plan_answers path rom mem ps @ plan_answers path rom (fold plan_apply ps mem) qs"
  by (induction path rom mem ps rule: plan_answers.induct) simp_all

lemma plan_inputs_simps [simp]:
  "plan_inputs [] = []" "plan_inputs (p # ps) = plan_input p @ plan_inputs ps" "plan_inputs (ps @ qs) = plan_inputs ps @ plan_inputs qs"
  by (simp_all add: plan_inputs_def)

lemma length_plan_inputs: "length (filter is_planned_input ps) = length (plan_inputs ps)"
proof (induction ps)
  case (Cons p ps)
  then show ?case by (cases p) simp_all
qed simp

text \<open>Events that consume the answers of a plan consume them in its order.\<close>

lemma plan_events_cases:
  assumes "concat (map event_witness es) = plan_answers path rom mem ps"
  obtains "es = []" "ps = []"
  | e es' where "es = e # es'" "event_witness e = []" "concat (map event_witness es') = plan_answers path rom mem ps"
  | e es' w p qs where "es = e # es'" "ps = p # qs" "event_witness e = [w]" "plan_answers path rom mem [p] = [w]"
      "concat (map event_witness es') = plan_answers path rom (plan_apply p mem) qs"
proof (cases es)
  case Nil
  with assms have "length (plan_answers path rom mem ps) = 0" by simp
  with Nil that(1) show thesis by simp
next
  case (Cons e es')
  show thesis
  proof (cases "event_witness e")
    case Nil
    with assms Cons that(2) show thesis by simp
  next
    case (Cons w ws)
    then have e: "event_witness e = [w]" by (cases e) simp_all
    have a: "w # concat (map event_witness es') = plan_answers path rom mem ps" using assms e \<open>es = e # es'\<close> by simp
    then obtain p qs where ps: "ps = p # qs" by (cases ps) auto
    have "plan_answers path rom mem [p] = [w]" "concat (map event_witness es') = plan_answers path rom (plan_apply p mem) qs"
      using a plan_answers_append [of path rom mem "[p]" qs] by (cases p; simp add: ps)+
    with that(3) \<open>es = e # es'\<close> ps e show thesis by blast
  qed
qed

lemma effect_inputs:
  "concat (map event_witness es) = plan_answers path rom mem ps \<Longrightarrow> concat (map event_input es) = plan_inputs ps"
proof (induction es arbitrary: mem ps)
  case Nil
  then show ?case by (cases rule: plan_events_cases) simp_all
next
  case (Cons e es)
  from Cons.prems show ?case
  proof (cases rule: plan_events_cases)
    case (2 e' es')
    have "event_input e' = []" using 2(2) by (cases e') simp_all
    with 2 Cons.IH show ?thesis by simp
  next
    case (3 e' es' w p qs)
    have "event_input e' = plan_input p" using 3(3,4) by (cases p; cases e'; auto)
    with 3 Cons.IH [of "plan_apply p mem" qs] show ?thesis by simp
  qed simp
qed

text \<open>They are truthful to the bytes the plan was answered from, and leave the bytes it leaves.\<close>

lemma plan_event_truthful:
  assumes "plan_ok rom p" "length mem = 2 ^ 17" "event_witness e = [w]" "plan_answers path rom mem [p] = [w]"
  shows "event_truthful (padded rom) (padded mem) e" "event_apply e (padded mem) = padded (plan_apply p mem)"
proof -
  have "rom ! i = padded rom i" if "i < length rom" for i using that by (simp add: padded_def)
  moreover have "mem ! i = padded mem i" if "i < 2 ^ 17" for i using that assms(2) by (simp add: padded_def)
  ultimately show "event_truthful (padded rom) (padded mem) e" "event_apply e (padded mem) = padded (plan_apply p mem)"
    using assms by (cases p; cases e; auto simp: event_memory_defs padded_update)+
qed

lemma plan_events_truthful:
  assumes "\<forall>p \<in> set ps. plan_ok rom p" "length mem = 2 ^ 17" "concat (map event_witness es) = plan_answers path rom mem ps"
  shows "events_truthful (padded rom) (padded mem) es \<and> events_apply es (padded mem) = padded (fold plan_apply ps mem)"
  using assms
proof (induction es arbitrary: mem ps)
  case Nil
  from Nil.prems(3) show ?case by (cases rule: plan_events_cases) (simp_all add: events_apply_def)
next
  case (Cons e es)
  from Cons.prems(3) show ?case
  proof (cases rule: plan_events_cases)
    case (2 e' es')
    have "event_truthful (padded rom) (padded mem) e'" "event_apply e' (padded mem) = padded mem"
      using 2(2) by (cases e'; simp add: event_memory_defs)+
    with 2 Cons show ?thesis by (simp add: events_apply_def)
  next
    case (3 e' es' w p qs)
    note one = plan_event_truthful [of rom p mem e' w path]
    have "events_truthful (padded rom) (padded (plan_apply p mem)) es \<and>
        events_apply es (padded (plan_apply p mem)) = padded (fold plan_apply qs (plan_apply p mem))"
      using Cons.IH [of qs "plan_apply p mem"] Cons.prems(1,2) 3 by simp
    with one Cons.prems(1,2) 3 show ?thesis by (simp add: events_apply_def)
  qed simp
qed

section \<open>The consumed input\<close>

definition consumed_prefix :: "vm_state \<Rightarrow> u8 list \<Rightarrow> u8 list" where
  "consumed_prefix s input = take (unat (log_next_index (vm_input_log s))) input"

definition input_committed :: "digest \<Rightarrow> vm_state \<Rightarrow> u8 list \<Rightarrow> bool" where
  "input_committed sha s input \<longleftrightarrow>
     unat (log_next_index (vm_input_log s)) \<le> length input \<and>
     log_commit sha Log_Input (consumed_prefix s input) = Inr (vm_input_log s)"

text \<open>The planned inputs continue the consumed prefix.\<close>

definition plan_continues :: "vm_state \<Rightarrow> u8 list \<Rightarrow> planned_witness list \<Rightarrow> bool" where
  "plan_continues s input ps \<longleftrightarrow>
     unat (log_next_index (vm_input_log s)) + length (plan_inputs ps) \<le> length input \<and>
     consumed_prefix s input @ plan_inputs ps =
       take (unat (log_next_index (vm_input_log s)) + length (plan_inputs ps)) input"

lemma plan_continues_Nil: "input_committed sha s input \<Longrightarrow> plan_continues s input []"
  by (simp add: plan_continues_def input_committed_def consumed_prefix_def)

lemma log_fold_index:
  assumes "try_fold (log_append sha) a vs = Inr b"
  shows "unat (log_next_index b) = unat (log_next_index a) + length vs"
  using assms
proof (induction vs arbitrary: a)
  case (Cons v vs)
  then obtain c where c: "log_append sha a v = Inr c" "try_fold (log_append sha) c vs = Inr b" by auto
  have "unat (log_next_index c) = unat (log_next_index a) + 1"
    using c(1) by (auto simp: log_append_def Let_def dest!: checked_unat)
  with Cons.IH [OF c(2)] show ?case by simp
qed simp

lemma input_committed_step:
  assumes "input_committed sha s input" "plan_continues s input ps"
    "try_fold (log_append sha) (vm_input_log s) (plan_inputs ps) = Inr (vm_input_log s')"
  shows "input_committed sha s' input"
proof -
  have n: "unat (log_next_index (vm_input_log s')) = unat (log_next_index (vm_input_log s)) + length (plan_inputs ps)"
    using log_fold_index [OF assms(3)] .
  have "consumed_prefix s' input = consumed_prefix s input @ plan_inputs ps"
    using assms(2) n by (simp add: consumed_prefix_def [of s'] plan_continues_def)
  moreover have "unat (log_next_index (vm_input_log s')) \<le> length input" using assms(2) n by (simp add: plan_continues_def)
  ultimately show ?thesis using assms(1,3) by (simp add: input_committed_def log_commit_def try_fold_append)
qed

text \<open>The byte a plan asks for next: the end of the input, an index overflow, or the next byte.\<close>

lemma next_input_cases:
  assumes "plan_continues s input ps" "length ps < 5"
  obtains "u64_try_from (length (filter is_planned_input ps)) = Some (word_of_nat (length (plan_inputs ps)))"
      "checked_add (log_next_index (vm_input_log s)) (word_of_nat (length (plan_inputs ps))) = None" "2 ^ 64 \<le> length input"
  | i where "u64_try_from (length (filter is_planned_input ps)) = Some (word_of_nat (length (plan_inputs ps)))"
      "checked_add (log_next_index (vm_input_log s)) (word_of_nat (length (plan_inputs ps))) = Some i"
      "vec_get input (unat i) = None" "length input \<le> unat i"
  | i v where "u64_try_from (length (filter is_planned_input ps)) = Some (word_of_nat (length (plan_inputs ps)))"
      "checked_add (log_next_index (vm_input_log s)) (word_of_nat (length (plan_inputs ps))) = Some i"
      "vec_get input (unat i) = Some v" "plan_continues s input (ps @ [PW_InputByte v])"
proof -
  let ?n = "log_next_index (vm_input_log s)" and ?k = "length (plan_inputs ps)"
  have "?k \<le> length ps" unfolding length_plan_inputs [symmetric] by (rule length_filter_le)
  then have k: "u64_try_from (length (filter is_planned_input ps)) = Some (word_of_nat ?k)" "unat (word_of_nat ?k :: u64) = ?k"
    using assms(2) by (simp_all add: length_plan_inputs u64_try_from_def unat_of_nat)
  show thesis
  proof (cases "checked_add ?n (word_of_nat ?k)")
    case None
    then have "2 ^ 64 \<le> length input"
      using assms(1) k(2) by (auto simp: checked_add_def plan_continues_def split: if_splits)
    with None k that(1) show thesis by blast
  next
    case (Some i)
    then have i: "unat i = unat ?n + ?k" using checked_unat(1) [OF Some] k(2) by simp
    show thesis
    proof (cases "unat i < length input")
      case True
      with i assms(1) have "plan_continues s input (ps @ [PW_InputByte (input ! unat i)])"
        by (simp add: plan_continues_def take_Suc_conv_app_nth flip: append_assoc)
      with Some True k(1) that(3) show thesis by (simp add: vec_get_def)
    next
      case False
      with Some k(1) that(2) show thesis by (simp add: vec_get_def)
    qed
  qed
qed

section \<open>Requests\<close>

fun planned_request :: "witness_request \<Rightarrow> planned_witness option" where
  "planned_request (Req_Rom a p _) = Some (PW_Rom a p)"
| "planned_request (Req_MemoryRead a p) = Some (PW_MemoryRead a p)"
| "planned_request (Req_MemoryWrite a p v) = Some (PW_MemoryWrite a p v)"
| "planned_request Req_InputByte = None"

text \<open>The paths open the roots of the bytes when they are checked.\<close>

definition paths_open :: "digest \<Rightarrow> bus_authentication \<Rightarrow> path_source \<Rightarrow> commitment_root \<Rightarrow> u8 list \<Rightarrow> bool" where
  "paths_open sha auth path rom_root rom \<longleftrightarrow>
     (auth = Auth_Merkle \<longrightarrow> path = merkle_paths sha \<and> rom_root = tree_commit sha Kind_Rom (padded rom))"

definition root_tracks :: "digest \<Rightarrow> bus_authentication \<Rightarrow> commitment_root \<Rightarrow> u8 list \<Rightarrow> bool" where
  "root_tracks sha auth root mem \<longleftrightarrow> (auth = Auth_Merkle \<longrightarrow> root = tree_commit sha Kind_Memory (padded mem))"

lemma plan_answers_request:
  assumes "request_ok cart q" "planned_request q = Some p \<or> q = Req_InputByte \<and> p = PW_InputByte v"
    "paths_open sha auth path (fst cart) rom" "root_tracks sha auth root mem" "length mem = 2 ^ 17" "length rom \<le> 2 ^ 20"
  obtains w root' where "plan_ok rom p" "plan_answers path rom mem [p] = [w]" "answers sha auth cart root q w root'"
      "root_tracks sha auth root' (plan_apply p mem)"
  | a i where "p = PW_Rom a i" "owner a = Own_Rom" "length rom \<le> unat i" "unat i < rom_byte_length (prof_rom_size (snd cart))"
proof (cases q)
  case (Req_Rom a i role)
  then have p: "p = PW_Rom a i" "owner a = Own_Rom" "unat i < rom_byte_length (prof_rom_size (snd cart))" using assms(1,2) by auto
  show thesis
  proof (cases "unat i < length rom")
    case True
    then have i: "unat i < 2 ^ 20" "i < 2 ^ 20" "rom ! unat i = padded rom (unat i)"
      using assms(6) by (simp_all add: word_less_nat_alt padded_def)
    show thesis
      using True p Req_Rom assms(3,4) i rom_store.read_complete [of i sha "padded rom"]
      by (intro that(1)) (auto simp: rom_read_check_iff paths_open_def merkle_paths_def)
  qed (use p that(2) in auto)
next
  case (Req_MemoryRead a i)
  then have p: "p = PW_MemoryRead a i" "owner a = Own_Memory \<or> dmg_owner a = Own_Memory" "unat i < 2 ^ 17" using assms(1,2) by auto
  then have "unat i < 2 ^ 20" "i < 2 ^ 20" "mem ! unat i = padded mem (unat i)"
    using assms(5) by (simp_all add: word_less_nat_alt padded_def)
  with p Req_MemoryRead assms(3,4) memory_store.read_complete [of i sha "padded mem"] show thesis
    by (intro that(1)) (auto simp: memory_read_check_iff paths_open_def root_tracks_def merkle_paths_def)
next
  case (Req_MemoryWrite a i v)
  then have p: "p = PW_MemoryWrite a i v" "owner a = Own_Memory \<or> dmg_owner a = Own_Memory" "unat i < 2 ^ 17" using assms(1,2) by auto
  then have i: "unat i < 2 ^ 20" "i < 2 ^ 20" "mem ! unat i = padded mem (unat i)" "unat i < length mem"
    using assms(5) by (simp_all add: word_less_nat_alt padded_def)
  show thesis
  proof (cases auth)
    case Auth_Merkle
    then show thesis
      using p Req_MemoryWrite i assms(3,4) memory_store.read_complete [of i sha "padded mem"] memory_store.update [of i sha v "padded mem"]
      by (intro that(1) [of _ "tree_commit sha Kind_Memory ((padded mem)(unat i := v))"])
         (auto simp: memory_write_check_iff padded_update paths_open_def root_tracks_def merkle_paths_def)
  next
    case Auth_Lookup
    then show thesis
      using p Req_MemoryWrite by (intro that(1) [of _ root]) (auto simp: root_tracks_def)
  qed
next
  case Req_InputByte
  then show thesis using assms(2,4) by (intro that(1)) auto
qed

section \<open>Adapters\<close>

locale prover =
  fixes sha :: digest and auth :: bus_authentication and paths :: path_source
    and ok :: "'b \<Rightarrow> bool" and state :: "'b \<Rightarrow> vm_state" and rom :: "'b \<Rightarrow> u8 list" and mem :: "'b \<Rightarrow> u8 list"
    and input :: "'b \<Rightarrow> u8 list"
    and attempt :: "'b \<Rightarrow> planned_witness list \<Rightarrow> 'r"
    and accept :: "'b \<Rightarrow> vm_state \<Rightarrow> step_effects \<Rightarrow> 'r"
    and refuse :: "'b \<Rightarrow> 'e \<Rightarrow> 'r"
    and plan :: "'b \<Rightarrow> witness_request \<Rightarrow> planned_witness list \<Rightarrow> 'e + planned_witness"
    and rejected :: "step_error \<Rightarrow> 'e" and short :: "u32 \<Rightarrow> 'e" and ended :: "'b \<Rightarrow> 'e \<Rightarrow> bool"
  assumes ok_state: "ok b \<Longrightarrow> vm_wf (state b) \<and> input_committed sha (state b) (input b)"
    and ok_bytes: "ok b \<Longrightarrow> length (rom b) \<le> 2 ^ 20 \<and> length (mem b) = 2 ^ 17"
    and ok_roots: "ok b \<Longrightarrow> paths_open sha auth paths (vm_rom_root (state b)) (rom b) \<and>
      root_tracks sha auth (vm_memory_root (state b)) (mem b)"
    and attempt_accepts: "ok b \<Longrightarrow> \<forall>p \<in> set ps. plan_ok (rom b) p \<Longrightarrow>
      apply_step sha (state b) \<lparr>input_witnesses = plan_answers paths (rom b) (mem b) ps\<rparr> auth = Inr (after, eff) \<Longrightarrow>
      attempt b ps = accept b after eff"
    and attempt_rejects: "ok b \<Longrightarrow> \<forall>p \<in> set ps. plan_ok (rom b) p \<Longrightarrow>
      apply_step sha (state b) \<lparr>input_witnesses = plan_answers paths (rom b) (mem b) ps\<rparr> auth = Inl e \<Longrightarrow> \<not> prover_error e \<Longrightarrow>
      attempt b ps = refuse b (rejected e)"
    and attempt_asks: "ok b \<Longrightarrow> \<forall>p \<in> set ps. plan_ok (rom b) p \<Longrightarrow> length ps < 5 \<Longrightarrow>
      apply_step sha (state b) \<lparr>input_witnesses = plan_answers paths (rom b) (mem b) ps\<rparr> auth = Inl (MissingWitness q) \<Longrightarrow>
      attempt b ps = (case plan b q ps of Inl e \<Rightarrow> refuse b e | Inr p \<Rightarrow> attempt b (ps @ [p]))"
    and attempt_short: "ok b \<Longrightarrow> \<forall>p \<in> set ps. plan_ok (rom b) p \<Longrightarrow> owner a = Own_Rom \<Longrightarrow> length (rom b) \<le> unat i \<Longrightarrow>
      attempt b (ps @ [PW_Rom a i]) = refuse b (short i)"
    and plan_direct: "planned_request q = Some p \<Longrightarrow> plan b q ps = Inr p"
    and plan_input: "ok b \<Longrightarrow> plan_continues (state b) (input b) ps \<Longrightarrow> length ps < 5 \<Longrightarrow>
      (\<exists>e. plan b Req_InputByte ps = Inl e \<and> ended b e) \<or>
      (\<exists>v. plan b Req_InputByte ps = Inr (PW_InputByte v) \<and> plan_continues (state b) (input b) (ps @ [PW_InputByte v]))"
begin

text \<open>How an attempt ends.\<close>

definition concludes :: "'b \<Rightarrow> 'r \<Rightarrow> bool" where
  "concludes b r \<longleftrightarrow>
     (\<exists>ps after eff. (\<forall>p \<in> set ps. plan_ok (rom b) p) \<and> plan_continues (state b) (input b) ps \<and>
        apply_step sha (state b) \<lparr>input_witnesses = plan_answers paths (rom b) (mem b) ps\<rparr> auth = Inr (after, eff) \<and>
        root_tracks sha auth (vm_memory_root after) (fold plan_apply ps (mem b)) \<and> r = accept b after eff) \<or>
     (\<exists>e. \<not> prover_error e \<and> r = refuse b (rejected e)) \<or>
     (\<exists>e. ended b e \<and> r = refuse b e) \<or>
     (\<exists>i. length (rom b) \<le> unat i \<and> unat i < rom_byte_length (prof_rom_size (cartridge_profile (vm_profile (state b)))) \<and>
        r = refuse b (short i))"

lemma plan_step:
  assumes "ok b" "plan_continues (state b) (input b) ps" "length ps < 5" "plan b q ps = Inr p"
  shows "(planned_request q = Some p \<or> (\<exists>v. q = Req_InputByte \<and> p = PW_InputByte v)) \<and>
    plan_continues (state b) (input b) (ps @ [p])"
proof (cases "planned_request q")
  case None
  then have "q = Req_InputByte" by (cases q) simp_all
  with plan_input [OF assms(1-3)] assms(4) show ?thesis by auto
next
  case (Some p')
  with assms(4) have p: "p' = p" using plan_direct by simp
  have "plan_input p = []" using Some p by (cases q) auto
  with assms(2) Some p show ?thesis by (simp add: plan_continues_def)
qed

lemma attempt_concludes:
  assumes ok: "ok b" and cart: "cart = (vm_rom_root (state b), cartridge_profile (vm_profile (state b)))"
    and dialogue: "served sha auth cart root g"
    and plan: "g = (\<lambda>ws. step_body sha (state b)
        (executor_new (state b) \<lparr>input_witnesses = plan_answers paths (rom b) (mem b) ps @ ws\<rparr> auth))"
      "root_tracks sha auth root (fold plan_apply ps (mem b))"
      "\<forall>p \<in> set ps. plan_ok (rom b) p" "plan_continues (state b) (input b) ps"
  shows "concludes b (attempt b ps)"
  using dialogue plan
proof (induction arbitrary: ps rule: served.induct)
  case (finished g v y root)
  let ?in = "\<lparr>input_witnesses = plan_answers paths (rom b) (mem b) ps\<rparr>"
  obtain kind i taken where v: "v = (kind, i, taken)" by (cases v)
  have body: "step_body sha (state b) (executor_new (state b) ?in auth) = Inr (v, y\<lparr>ex_witnesses := []\<rparr>)"
    using finished(1) finished.prems(1) by (metis append_Nil2)
  show ?case
  proof (cases "apply_step sha (state b) ?in auth")
    case (Inr r)
    obtain after eff where r: "r = (after, eff)" by (cases r)
    have "vm_memory_root after = root"
      using Inr finished(3) by (auto simp: r apply_step_body body v complete_step_def finalize_Inr split: if_splits)
    with Inr r finished.prems attempt_accepts [OF ok finished.prems(3)] show ?thesis
      unfolding concludes_def by blast
  next
    case (Inl e)
    then have "\<not> prover_error e"
      by (auto simp: apply_step_body body v complete_step_def finalize_def and_then_eq_Inl map_err_def
          split: if_splits sum.splits)
    with attempt_rejects [OF ok finished.prems(3) Inl] show ?thesis unfolding concludes_def by blast
  qed
next
  case (failed g e root)
  let ?in = "\<lparr>input_witnesses = plan_answers paths (rom b) (mem b) ps\<rparr>"
  have "step_body sha (state b) (executor_new (state b) ?in auth) = Inl e"
    using failed(1) failed.prems(1) by (metis append_Nil2)
  then have "apply_step sha (state b) ?in auth = Inl e" by (simp add: apply_step_body)
  with attempt_rejects [OF ok failed.prems(3)] failed(2) show ?case unfolding concludes_def by blast
next
  case (asks g q root)
  let ?in = "\<lparr>input_witnesses = plan_answers paths (rom b) (mem b) ps\<rparr>"
  have "step_body sha (state b) (executor_new (state b) ?in auth) = Inl (MissingWitness q)"
    using asks(1) asks.prems(1) by simp
  then have miss: "apply_step sha (state b) ?in auth = Inl (MissingWitness q)" by (simp add: apply_step_body)
  then have short: "length ps < 5" using missing_witness_bound [of sha "state b" ?in auth q] by simp
  note loop = attempt_asks [OF ok asks.prems(3) short miss]
  show ?case
  proof (cases "plan b q ps")
    case (Inl e)
    then have "q = Req_InputByte" using plan_direct [of q] by (cases q) force+
    with Inl plan_input [OF ok asks.prems(4) short] loop show ?thesis by (auto simp: concludes_def)
  next
    case (Inr p)
    note p = plan_step [OF ok asks.prems(4) short Inr]
    let ?mem = "fold plan_apply ps (mem b)"
    have len: "length ?mem = 2 ^ 17" "length (rom b) \<le> 2 ^ 20" using ok_bytes [OF ok] by simp_all
    have paths: "paths_open sha auth paths (fst cart) (rom b)" using ok_roots [OF ok] cart by simp
    have "concludes b (attempt b (ps @ [p]))"
    proof (rule plan_answers_request [OF asks(2) _ paths asks.prems(2) len])
      show "planned_request q = Some p \<or> q = Req_InputByte \<and> p = PW_InputByte (hd (plan_input p))" using p by auto
    next
      fix w root'
      assume w: "plan_ok (rom b) p" "plan_answers paths (rom b) ?mem [p] = [w]" "answers sha auth cart root q w root'"
        "root_tracks sha auth root' (plan_apply p ?mem)"
      then show ?thesis
        using asks(4) [OF w(3), of "ps @ [p]"] asks.prems p by (simp add: plan_answers_append)
    next
      fix a i assume "p = PW_Rom a i" "owner a = Own_Rom" "length (rom b) \<le> unat i"
        "unat i < rom_byte_length (prof_rom_size (snd cart))"
      then show ?thesis using attempt_short [OF ok asks.prems(3), of a i] cart unfolding concludes_def by auto
    qed
    with loop Inr show ?thesis by simp
  qed
qed

lemma first_attempt:
  assumes "ok b"
  shows "concludes b (attempt b [])"
proof -
  let ?s = "state b" and ?x = "executor_new (state b) \<lparr>input_witnesses = []\<rparr> auth"
  let ?cart = "(vm_rom_root ?s, cartridge_profile (vm_profile ?s))"
  have "steady auth ?cart ?x"
    using ok_state [OF assms] by (simp add: steady_def executor_new_def vm_wf_def)
  then have "served sha auth ?cart (vm_memory_root ?s) (\<lambda>ws. step_body sha ?s (?x\<lparr>ex_witnesses := ws\<rparr>))"
    using serves_step_body [of sha auth ?cart ?s] by (auto simp: serves_def executor_new_def)
  moreover have "?x\<lparr>ex_witnesses := ws\<rparr> = executor_new ?s \<lparr>input_witnesses = plan_answers paths (rom b) (mem b) [] @ ws\<rparr> auth" for ws
    by (simp add: executor_new_def)
  ultimately show ?thesis
    using ok_roots [OF assms] ok_state [OF assms]
    by (intro attempt_concludes [OF assms refl]) (auto intro: plan_continues_Nil)
qed

text \<open>What an accepted step keeps.\<close>

lemma accepted_keeps:
  assumes "ok b" "\<forall>p \<in> set ps. plan_ok (rom b) p" "plan_continues (state b) (input b) ps"
    "apply_step sha (state b) \<lparr>input_witnesses = plan_answers paths (rom b) (mem b) ps\<rparr> auth = Inr (after, eff)"
  shows "vm_wf after" "input_committed sha after (input b)" "vm_rom_root after = vm_rom_root (state b)"
    "vm_profile after = vm_profile (state b)"
    "concat (map event_witness (eff_bus_events eff)) = plan_answers paths (rom b) (mem b) ps"
    "events_truthful (padded (rom b)) (padded (mem b)) (eff_bus_events eff)"
    "events_apply (eff_bus_events eff) (padded (mem b)) = padded (fold plan_apply ps (mem b))"
proof -
  show ws: "concat (map event_witness (eff_bus_events eff)) = plan_answers paths (rom b) (mem b) ps"
    using apply_step_final [OF assms(4)] by (metis step_input.select_convs(1))
  have "try_fold (log_append sha) (vm_input_log (state b)) (plan_inputs ps) = Inr (vm_input_log after)"
    using apply_step_logs(1) [OF assms(4)] effect_inputs [OF ws] by simp
  then show "input_committed sha after (input b)"
    using ok_state [OF assms(1)] assms(3) input_committed_step by blast
  show "vm_wf after" using apply_step_wf [OF assms(4)] ok_state [OF assms(1)] by simp
  show "vm_rom_root after = vm_rom_root (state b)" "vm_profile after = vm_profile (state b)"
    using apply_step_logs(4,5) [OF assms(4)] by simp_all
  show "events_truthful (padded (rom b)) (padded (mem b)) (eff_bus_events eff)"
    "events_apply (eff_bus_events eff) (padded (mem b)) = padded (fold plan_apply ps (mem b))"
    using plan_events_truthful [OF assms(2) _ ws] ok_bytes [OF assms(1)] by simp_all
qed

end

end
