(* ===== verification/Builder_Service.thy ===== *)
theory Builder_Service
  imports Prover_Dialogue
begin

text \<open>
  What the prover adapter guarantees: its plan of witnesses never outgrows the bound, and from a
  builder that is consistent with its images every step either is accepted, with the images and
  the committed input prefix moving along, or fails for a reason of the machine or because the
  private input or the ROM image ends.
\<close>

section \<open>The plan never outgrows its bound\<close>

lemma materialize_length: "materialize_loop sha b fork ps = Inr ws \<Longrightarrow> length ws = length ps"
  by (induction sha b fork ps arbitrary: ws rule: materialize_loop.induct) auto

lemma materialize_errors:
  assumes "materialize_loop sha b fork ps = Inl e"
  shows "e \<noteq> TBE_WitnessBoundExceeded n"
  using assms
proof (induction sha b fork ps rule: materialize_loop.induct)
  case (2 sha b fork p ps)
  have "e \<noteq> TBE_WitnessBoundExceeded n" if "materialize_one sha b fork p = Inl e"
    using that by (cases p) (auto simp: and_then_eq_Inl map_err_def split: sum.splits option.splits)
  with 2 show ?case by (auto simp: and_then_eq_Inl)
qed simp

lemma apply_image_effects_errors: "fst (apply_image_effects sha m es r) \<noteq> Inl (TBE_WitnessBoundExceeded n)"
  by (induction sha m es r rule: apply_image_effects.induct) (auto split: option.splits sum.splits)

lemma accept_step_errors: "fst (accept_step sha b after eff) \<noteq> Inl (TBE_WitnessBoundExceeded n)"
  using apply_image_effects_errors [of sha "tb_memory b" "eff_bus_events eff" "vm_memory_root after" n]
  by (auto simp: accept_step_def split: prod.splits sum.splits)

lemma plan_witness_errors: "plan_witness b q ps \<noteq> Inl (TBE_WitnessBoundExceeded n)"
  by (cases q) (auto simp: and_then_eq_Inl ok_or_def split: option.splits)

lemma step_loop_bounded:
  "length ps \<le> 5 \<Longrightarrow> fst (step_loop sha b ps) \<noteq> Inl (TBE_WitnessBoundExceeded n)"
proof (induction sha b ps rule: step_loop.induct)
  case (1 sha b ps)
  show ?case
  proof (cases "materialize sha b ps")
    case (Inl e)
    then have "e \<noteq> TBE_WitnessBoundExceeded n" by (auto simp: materialize_def and_then_eq_Inl dest: materialize_errors)
    with Inl show ?thesis by (subst step_loop.simps) simp
  next
    case (Inr input)
    then have len: "length (input_witnesses input) = length ps"
      by (auto simp: materialize_def dest: materialize_length)
    show ?thesis
    proof (cases "\<exists>q. step_relation_apply sha (tb_state b) input = Inl (MissingWitness q)")
      case True
      then obtain q where q: "step_relation_apply sha (tb_state b) input = Inl (MissingWitness q)" by blast
      then have short: "length ps < 5" using len missing_witness_bound [of sha "tb_state b" input Auth_Merkle q]
        by (simp add: step_relation_apply_def)
      show ?thesis
        using 1(1) [OF Inr q refl] Inr q short plan_witness_errors [of b q ps n]
        by (subst step_loop.simps) (auto simp: MAX_WITNESSES_PER_STEP_def split: sum.split)
    next
      case False
      with Inr accept_step_errors [of sha b _ _ n] show ?thesis
        by (subst step_loop.simps) (auto split: sum.split step_error.split)
    qed
  qed
qed

section \<open>Answers from the images\<close>

lemma image_answers:
  assumes "length mem = 2 ^ 17" "owner a = Own_Memory \<or> dmg_owner a = Own_Memory" "unat p < 2 ^ 17"
  shows "memory_image_read_mapped (memory_of sha mem) a p =
      Inr \<lparr>mr_address = a, mr_physical_address = p, mr_value = mem ! unat p,
            mr_path = merkle_paths sha Kind_Memory mem (unat p)\<rparr>"
    "preview_write_mapped (memory_of sha mem) a p v =
      Inr \<lparr>mw_address = a, mw_physical_address = p, mw_before = mem ! unat p, mw_after = v,
            mw_path = merkle_paths sha Kind_Memory mem (unat p)\<rparr>"
    "memory_image_write_mapped sha (memory_of sha mem) a p v =
      Inr (\<lparr>mw_address = a, mw_physical_address = p, mw_before = mem ! unat p, mw_after = v,
            mw_path = merkle_paths sha Kind_Memory mem (unat p)\<rparr>, memory_of sha (mem[unat p := v]))"
proof -
  have ok: "tree_length_ok (length mem)" using assms(1) by (intro mutable_length_ok) (simp add: MUTABLE_COMMITMENT_BYTES_def)
  note facts = assms tree_read_exact [OF ok, of sha Kind_Memory p] tree_write_exact [OF ok, of sha Kind_Memory p v]
  show "memory_image_read_mapped (memory_of sha mem) a p =
      Inr \<lparr>mr_address = a, mr_physical_address = p, mr_value = mem ! unat p,
            mr_path = merkle_paths sha Kind_Memory mem (unat p)\<rparr>"
    using facts by (auto simp: memory_image_read_mapped_def validate_mutable_address_def merkle_paths_def)
  show "preview_write_mapped (memory_of sha mem) a p v =
      Inr \<lparr>mw_address = a, mw_physical_address = p, mw_before = mem ! unat p, mw_after = v,
            mw_path = merkle_paths sha Kind_Memory mem (unat p)\<rparr>"
    using facts by (auto simp: preview_write_mapped_def validate_mutable_address_def merkle_paths_def)
  then show "memory_image_write_mapped sha (memory_of sha mem) a p v =
      Inr (\<lparr>mw_address = a, mw_physical_address = p, mw_before = mem ! unat p, mw_after = v,
            mw_path = merkle_paths sha Kind_Memory mem (unat p)\<rparr>, memory_of sha (mem[unat p := v]))"
    using facts by (simp add: memory_image_write_mapped_def memory_of_def merkle_paths_def)
qed

lemma rom_answers:
  assumes "tree_length_ok (length rom)" "owner a = Own_Rom"
  shows "rom_image_read_mapped (rom_of sha rom) a p =
    (if unat p < length rom
     then Inr \<lparr>rr_address = a, rr_physical_address = p, rr_value = rom ! unat p,
                rr_path = merkle_paths sha Kind_Rom rom (unat p)\<rparr>
     else Inl (RI_PhysicalAddressOutOfRange p))"
  using assms tree_read_exact [OF assms(1), of sha Kind_Rom p] by (auto simp: rom_image_read_mapped_def merkle_paths_def)

text \<open>Without a fork the plan has at most one write, after which memory is not consulted.\<close>

lemma materialize_forked:
  assumes "tb_rom b = rom_of sha rom" "tree_length_ok (length rom)" "length mem = 2 ^ 17" "\<forall>p \<in> set ps. plan_ok rom p"
  shows "materialize_loop sha b (Some (memory_of sha mem)) ps = Inr (plan_answers (merkle_paths sha) rom mem ps)"
  using assms(3,4)
proof (induction ps arbitrary: mem)
  case (Cons p ps)
  then show ?case using assms(1,2) by (cases p) (simp_all add: image_answers rom_answers)
qed simp

lemma materialize_written:
  assumes "tb_rom b = rom_of sha rom" "tree_length_ok (length rom)" "\<forall>p \<in> set ps. plan_ok rom p"
    "\<not> requires_memory_fork_from True ps"
  shows "materialize_loop sha b None ps = Inr (plan_answers (merkle_paths sha) rom mem ps)"
  using assms(3,4)
proof (induction ps)
  case (Cons p ps)
  then show ?case using assms(1,2) by (cases p) (simp_all add: rom_answers)
qed simp

lemma materialize_unforked:
  assumes "tb_rom b = rom_of sha rom" "tree_length_ok (length rom)" "tb_memory b = memory_of sha mem" "length mem = 2 ^ 17"
    "\<forall>p \<in> set ps. plan_ok rom p" "\<not> requires_memory_fork_from False ps"
  shows "materialize_loop sha b None ps = Inr (plan_answers (merkle_paths sha) rom mem ps)"
  using assms(5,6)
proof (induction ps)
  case (Cons p ps)
  then show ?case
    using assms(1-4) materialize_written [OF assms(1,2), of ps]
    by (cases p) (simp_all add: image_answers rom_answers)
qed simp

lemma materialize_exact:
  assumes "tb_rom b = rom_of sha rom" "tree_length_ok (length rom)" "tb_memory b = memory_of sha mem" "length mem = 2 ^ 17"
    "\<forall>p \<in> set ps. plan_ok rom p"
  shows "materialize sha b ps = Inr \<lparr>input_witnesses = plan_answers (merkle_paths sha) rom mem ps\<rparr>"
  using materialize_forked [OF assms(1,2,4,5)] materialize_unforked [OF assms] assms(3)
  by (simp add: materialize_def requires_memory_fork_def)

lemma materialize_rom_end:
  "materialize_loop sha b fork (ps @ [PW_Rom a p]) =
     and_then (materialize_loop sha b fork ps) (\<lambda>ws.
     and_then (map_err TBE_Rom (rom_image_read_mapped (tb_rom b) a p)) (\<lambda>r. Inr (ws @ [Wit_Rom r])))"
  by (induction sha b fork ps rule: materialize_loop.induct) (auto simp: and_then_def split: sum.splits)

lemma requires_fork_rom: "requires_memory_fork_from w (ps @ [PW_Rom a p]) = requires_memory_fork_from w ps"
  by (induction w ps rule: requires_memory_fork_from.induct) auto

lemma materialize_rom_short:
  assumes "tb_rom b = rom_of sha rom" "tree_length_ok (length rom)" "tb_memory b = memory_of sha mem" "length mem = 2 ^ 17"
    "\<forall>p \<in> set ps. plan_ok rom p" "owner a = Own_Rom" "length rom \<le> unat p"
  shows "materialize sha b (ps @ [PW_Rom a p]) = Inl (TBE_Rom (RI_PhysicalAddressOutOfRange p))"
  using materialize_exact [OF assms(1-5)] assms(1,2,6,7)
  by (auto simp: materialize_def requires_memory_fork_def requires_fork_rom materialize_rom_end rom_answers)

text \<open>The accepted writes, replayed on the image, are the planned ones.\<close>

lemma apply_effects_exact:
  assumes "length mem = 2 ^ 17" "\<forall>p \<in> set ps. plan_ok rom p"
    "concat (map event_witness es) = plan_answers (merkle_paths sha) rom mem ps"
    "root = tree_commit sha Kind_Memory (padded (fold plan_apply ps mem))"
  shows "apply_image_effects sha (memory_of sha mem) es root = (Inr (), memory_of sha (fold plan_apply ps mem))"
  using assms
proof (induction es arbitrary: mem ps)
  case Nil
  from Nil.prems(3) show ?case by (cases rule: plan_events_cases) (use Nil.prems(4) in simp_all)
next
  case (Cons e es)
  from Cons.prems(3) show ?case
  proof (cases rule: plan_events_cases)
    case (2 e' es')
    have "write_effect e' = None" using 2(2) by (cases e') simp_all
    with 2 Cons show ?thesis by simp
  next
    case (3 e' es' w p qs)
    have IH: "apply_image_effects sha (memory_of sha (plan_apply p mem)) es root = (Inr (), memory_of sha (fold plan_apply ps mem))"
      using Cons.IH [of "plan_apply p mem" qs] Cons.prems(1,2,4) 3 by simp
    show ?thesis
    proof (cases "\<exists>a i v. p = PW_MemoryWrite a i v")
      case True
      then obtain a i v where p: "p = PW_MemoryWrite a i v" by blast
      let ?w = "\<lparr>mw_address = a, mw_physical_address = i, mw_before = mem ! unat i, mw_after = v,
        mw_path = merkle_paths sha Kind_Memory mem (unat i)\<rparr>"
      have "write_effect e' = Some ?w" using 3(3,4) p by (cases e') auto
      then show ?thesis using IH p Cons.prems(1,2) 3(1,2) by (simp add: image_answers)
    next
      case False
      then have "write_effect e' = None" "plan_apply p mem = mem" using 3(3,4) by (cases p; cases e'; auto)+
      with IH 3(1) show ?thesis by simp
    qed
  qed simp
qed

section \<open>Consistent builders\<close>

text \<open>
  The images are Merkle trees of byte arrays whose roots the state commits, the state satisfies
  its invariant, and the input log commits the consumed prefix of the private input.
\<close>

definition consumed_input :: "trace_builder \<Rightarrow> u8 list" where
  "consumed_input b = consumed_prefix (tb_state b) (tb_private_input b)"

definition builder_ok :: "digest \<Rightarrow> trace_builder \<Rightarrow> bool" where
  "builder_ok sha b \<longleftrightarrow>
     vm_wf (tb_state b) \<and>
     (\<exists>rom. tb_rom b = rom_of sha rom \<and> tree_length_ok (length rom)) \<and>
     (\<exists>mem. tb_memory b = memory_of sha mem \<and> length mem = MUTABLE_COMMITMENT_BYTES) \<and>
     vm_rom_root (tb_state b) = rom_image_root (tb_rom b) \<and>
     vm_memory_root (tb_state b) = memory_image_root (tb_memory b) \<and>
     input_committed sha (tb_state b) (tb_private_input b)"

definition rom_bytes :: "trace_builder \<Rightarrow> u8 list" where
  "rom_bytes b = mt_bytes (ri_tree (tb_rom b))"

text \<open>The failures such a builder may report: the machine's own, or the end of its resources.\<close>

fun input_ended :: "trace_builder \<Rightarrow> trace_builder_error \<Rightarrow> bool" where
  "input_ended b (TBE_InputExhausted i) \<longleftrightarrow> length (tb_private_input b) \<le> unat i"
| "input_ended b TBE_InputIndexOverflow \<longleftrightarrow> 2 ^ 64 \<le> length (tb_private_input b)"
| "input_ended b _ \<longleftrightarrow> False"

fun builder_fault :: "trace_builder \<Rightarrow> trace_builder_error \<Rightarrow> bool" where
  "builder_fault b (TBE_Step e) \<longleftrightarrow> \<not> prover_error e"
| "builder_fault b (TBE_Rom (RI_PhysicalAddressOutOfRange p)) \<longleftrightarrow>
     length (rom_bytes b) \<le> unat p \<and> unat p < rom_byte_length (prof_rom_size (cartridge_profile (vm_profile (tb_state b))))"
| "builder_fault b e \<longleftrightarrow> input_ended b e"

definition builder_outcome ::
  "digest \<Rightarrow> trace_builder \<Rightarrow> (trace_builder_error + trace_row) \<times> trace_builder \<Rightarrow> bool" where
  "builder_outcome sha b r \<longleftrightarrow>
     (case r of
        (Inl e, b') \<Rightarrow> b' = b \<and> builder_fault b e
      | (Inr row, b') \<Rightarrow>
          row_before row = tb_state b \<and> row_after row = tb_state b' \<and> row_accepted sha Auth_Merkle row \<and>
          events_truthful (padded (rom_bytes b)) (padded (checkpoint_memory b)) (eff_bus_events (row_effects row)) \<and>
          padded (checkpoint_memory b') = events_apply (eff_bus_events (row_effects row)) (padded (checkpoint_memory b)) \<and>
          builder_ok sha b' \<and> tb_rom b' = tb_rom b \<and> tb_private_input b' = tb_private_input b)"

lemma builder_images:
  assumes "builder_ok sha b"
  shows "tb_rom b = rom_of sha (rom_bytes b)" "tree_length_ok (length (rom_bytes b))"
    "tb_memory b = memory_of sha (checkpoint_memory b)" "length (checkpoint_memory b) = 2 ^ 17"
  using assms by (auto simp: builder_ok_def rom_bytes_def checkpoint_memory_def tree_of_def Let_def MUTABLE_COMMITMENT_BYTES_def)

lemma plan_witness_input:
  assumes "plan_continues (tb_state b) (tb_private_input b) ps" "length ps < 5"
  shows "(\<exists>e. plan_witness b Req_InputByte ps = Inl e \<and> input_ended b e) \<or>
    (\<exists>v. plan_witness b Req_InputByte ps = Inr (PW_InputByte v) \<and>
       plan_continues (tb_state b) (tb_private_input b) (ps @ [PW_InputByte v]))"
  using next_input_cases [OF assms] by (cases rule: next_input_cases [OF assms]) auto

interpretation merkle_prover: prover sha Auth_Merkle "merkle_paths sha" "builder_ok sha" tb_state rom_bytes checkpoint_memory
  tb_private_input "step_loop sha" "accept_step sha" "\<lambda>b e. (Inl e, b)" plan_witness TBE_Step
  "\<lambda>i. TBE_Rom (RI_PhysicalAddressOutOfRange i)" input_ended for sha
proof (unfold_locales, goal_cases)
  case (1 b)
  then show ?case by (simp add: builder_ok_def)
next
  case (2 b)
  then show ?case using builder_images [of sha b] by (simp add: tree_length_ok_def)
next
  case (3 b)
  then have "rom_image_root (tb_rom b) = tree_commit sha Kind_Rom (padded (rom_bytes b))"
    "memory_image_root (tb_memory b) = tree_commit sha Kind_Memory (padded (checkpoint_memory b))"
    using builder_images [of sha b] by (metis rom_of_facts(1), metis memory_of_facts(2))
  with 3 show ?case by (simp add: paths_open_def root_tracks_def builder_ok_def)
next
  case (4 b ps after eff)
  then show ?case
    using materialize_exact [OF builder_images [OF 4(1)], of ps]
    by (subst step_loop.simps) (simp add: step_relation_apply_def)
next
  case (5 b ps e)
  then have "\<forall>q. e \<noteq> MissingWitness q" by auto
  with 5 show ?case
    using materialize_exact [OF builder_images [OF 5(1)], of ps]
    by (subst step_loop.simps) (auto simp: step_relation_apply_def split: step_error.split)
next
  case (6 b ps q)
  then show ?case
    using materialize_exact [OF builder_images [OF 6(1)], of ps]
    by (subst step_loop.simps) (simp add: step_relation_apply_def MAX_WITNESSES_PER_STEP_def)
next
  case (7 b ps a i)
  then show ?case
    using materialize_rom_short [OF builder_images [OF 7(1)], of ps a i] by (subst step_loop.simps) simp
next
  case (8 q p b ps)
  then show ?case by (cases q) auto
next
  case (9 b ps)
  then show ?case by (intro plan_witness_input)
qed

section \<open>A step of a consistent builder\<close>

lemma accept_step_exact:
  assumes "builder_ok sha b" "\<forall>p \<in> set ps. plan_ok (rom_bytes b) p" "plan_continues (tb_state b) (tb_private_input b) ps"
    and step: "apply_step sha (tb_state b)
      \<lparr>input_witnesses = plan_answers (merkle_paths sha) (rom_bytes b) (checkpoint_memory b) ps\<rparr> Auth_Merkle = Inr (after, eff)"
    and root: "root_tracks sha Auth_Merkle (vm_memory_root after) (fold plan_apply ps (checkpoint_memory b))"
  shows "builder_outcome sha b (accept_step sha b after eff)"
proof -
  let ?mem = "fold plan_apply ps (checkpoint_memory b)"
  let ?b = "b\<lparr>tb_memory := memory_of sha ?mem, tb_state := after\<rparr>"
  note images = builder_images [OF assms(1)] and keeps = merkle_prover.accepted_keeps [OF assms(1,2,3) step]
  have r: "vm_memory_root after = tree_commit sha Kind_Memory (padded ?mem)" using root by (simp add: root_tracks_def)
  have acc: "accept_step sha b after eff = (Inr (trace_row_from_accepted (tb_state b) after eff), ?b)"
    using apply_effects_exact [OF images(4) assms(2) keeps(5) r] images(3) by (simp add: accept_step_def)
  have "\<exists>m. memory_of sha ?mem = memory_of sha m \<and> length m = MUTABLE_COMMITMENT_BYTES"
    using images(4) by (intro exI [of _ ?mem]) (simp add: MUTABLE_COMMITMENT_BYTES_def)
  then have "builder_ok sha ?b"
    using assms(1) r keeps(1-3) by (auto simp: builder_ok_def)
  moreover have "checkpoint_memory ?b = ?mem" by (simp add: checkpoint_memory_def memory_of_facts)
  ultimately show ?thesis
    unfolding acc using step keeps(6,7) by (auto simp: builder_outcome_def trace_row_from_accepted_def row_accepted_def)
qed

lemma builder_step_refused:
  "builder_fault b e \<Longrightarrow> step_loop sha b [] = (Inl e, b) \<Longrightarrow> builder_outcome sha b (builder_step sha b)"
  by (simp add: builder_step_def builder_outcome_def)

lemma builder_step_outcome:
  assumes "builder_ok sha b"
  shows "builder_outcome sha b (builder_step sha b)"
  using merkle_prover.first_attempt [OF assms] unfolding merkle_prover.concludes_def
proof (elim disjE exE conjE)
  fix ps after eff
  assume plan: "\<forall>p \<in> set ps. plan_ok (rom_bytes b) p" "plan_continues (tb_state b) (tb_private_input b) ps"
    "apply_step sha (tb_state b) \<lparr>input_witnesses = plan_answers (merkle_paths sha) (rom_bytes b) (checkpoint_memory b) ps\<rparr> Auth_Merkle = Inr (after, eff)"
    "root_tracks sha Auth_Merkle (vm_memory_root after) (fold plan_apply ps (checkpoint_memory b))"
    and "step_loop sha b [] = accept_step sha b after eff"
  then show ?thesis using accept_step_exact [OF assms plan] by (simp only: builder_step_def)
next
  fix e assume e: "\<not> prover_error e" and loop: "step_loop sha b [] = (Inl (TBE_Step e), b)"
  have "builder_fault b (TBE_Step e)" using e by simp
  then show ?thesis using loop by (rule builder_step_refused)
next
  fix e assume e: "input_ended b e" and loop: "step_loop sha b [] = (Inl e, b)"
  have "builder_fault b e" using e by (cases e) simp_all
  then show ?thesis using loop by (rule builder_step_refused)
next
  fix i assume i: "length (rom_bytes b) \<le> unat i" "unat i < rom_byte_length (prof_rom_size (cartridge_profile (vm_profile (tb_state b))))"
    and loop: "step_loop sha b [] = (Inl (TBE_Rom (RI_PhysicalAddressOutOfRange i)), b)"
  have "builder_fault b (TBE_Rom (RI_PhysicalAddressOutOfRange i))" using i by simp
  then show ?thesis using loop by (rule builder_step_refused)
qed

end
