(* ===== verification/Row_Runs.thy ===== *)
theory Row_Runs
  imports Prover_Dialogue
begin

text \<open>
  What the exact and milestone runs of the two prover adapters share.  An adapter provides a step
  and its loops satisfy the same recursion equations; from those the locale concludes that a run
  is a contiguous list of accepted rows, that its metrics and its closure saw exactly those rows,
  where a milestone run stops, and how a run can fail.
\<close>

section \<open>Rows of a run\<close>

text \<open>Rows accepted one after the other, from one adapter state to another.\<close>

fun accepted_run :: "('b \<Rightarrow> ('e + trace_row) \<times> 'b) \<Rightarrow> 'b \<Rightarrow> trace_row list \<Rightarrow> 'b \<Rightarrow> bool" where
  "accepted_run step b [] b' \<longleftrightarrow> b' = b"
| "accepted_run step b (row # rows) b' \<longleftrightarrow> (\<exists>c. step b = (Inr row, c) \<and> accepted_run step c rows b')"

lemma accepted_run_append:
  "accepted_run step b (rows @ rows') b' \<longleftrightarrow> (\<exists>c. accepted_run step b rows c \<and> accepted_run step c rows' b')"
  by (induction rows arbitrary: b) auto

text \<open>The predicate holds for the first time on the last of the visited states.\<close>

fun first_reached :: "'r milestone \<Rightarrow> 'r \<Rightarrow> vm_state list \<Rightarrow> bool" where
  "first_reached reached r [] \<longleftrightarrow> False"
| "first_reached reached r (s # ss) \<longleftrightarrow>
     (case reached r s of (True, _) \<Rightarrow> ss = [] | (False, r') \<Rightarrow> first_reached reached r' ss)"

text \<open>The predicate holds on none of the visited states.\<close>

fun never_reached :: "'r milestone \<Rightarrow> 'r \<Rightarrow> vm_state list \<Rightarrow> bool" where
  "never_reached reached r [] \<longleftrightarrow> True"
| "never_reached reached r (s # ss) \<longleftrightarrow>
     (case reached r s of (True, _) \<Rightarrow> False | (False, r') \<Rightarrow> never_reached reached r' ss)"

lemma metrics_steps:
  assumes "try_fold metrics_record m rows = Inr m'"
  shows "unat (met_relation_steps m') = unat (met_relation_steps m) + length rows"
  using metrics_fold_counts [OF assms] by (simp add: metric_weights_def row_metrics_def sum_list_triv)

lemma metrics_exact:
  assumes "try_fold metrics_record metrics_default rows = Inr m"
  shows "list_all (\<lambda>(f, w). unat (f m) = sum_list (map w rows)) metric_weights"
  using metrics_fold_counts [OF assms]
  by (simp add: metric_weights_def row_metrics_def event_metrics_def metrics_default_def)

text \<open>The closures of the retaining and of the profiled runs.\<close>

lemma collect_fold: "try_fold (\<lambda>rows row. Inr (rows @ [row])) pre rows = Inr (pre @ rows)"
  by (induction rows arbitrary: pre) simp_all

lemma profile_fold:
  assumes "try_fold (\<lambda>c row. map_err f (profile_record c row)) [] rows = Inr counts"
  shows "profile_count counts k = pc_hits k rows"
proof -
  have "try_fold (\<lambda>c row. map_err f (profile_record c row)) c rows = Inr d \<Longrightarrow> try_fold profile_record c rows = Inr d" for c d
    by (induction rows arbitrary: c) (auto simp: map_err_def split: sum.splits)
  from profile_fold_counts [OF this [OF assms]] show ?thesis by (simp add: profile_count_def)
qed

text \<open>Accepted rows cannot fail the metrics but by overflow of a counter.\<close>

lemma metrics_overflow_only:
  assumes "metrics_record m row = Inl t" "plannable row"
  shows "t = TE_MetricOverflow"
proof -
  have b: "bump f m = Inl t \<Longrightarrow> t = TE_MetricOverflow" for f m
    by (auto simp: bump_def metric_increment_def and_then_eq_Inl ok_or_def split: option.splits)
  have a: "add_elapsed f row m = Inl t \<Longrightarrow> t = TE_MetricOverflow" for f m
    using assms(2) by (auto simp: add_elapsed_def and_then_eq_Inl ok_or_def plannable_def checked_sub_def split: option.splits)
  have o: "bump_opt f m = Inl t \<Longrightarrow> t = TE_MetricOverflow" for f m
    by (cases f) (auto simp: bump_opt_def intro: b)
  have k: "record_kind row m = Inl t \<Longrightarrow> t = TE_MetricOverflow" for m
    by (cases "eff_kind (row_effects row)") (auto simp: record_kind_def and_then_eq_Inl dest: a b)
  have e: "record_bus_event m e = Inl t \<Longrightarrow> t = TE_MetricOverflow" for m e
    by (auto simp: record_bus_event_def and_then_eq_Inl dest: b o)
  have "try_fold record_bus_event m es = Inl t \<Longrightarrow> t = TE_MetricOverflow" for m es
    by (induction es arbitrary: m) (auto simp: and_then_eq_Inl dest: e)
  with assms(1) show ?thesis
    by (auto simp: metrics_record_def record_bus_events_def and_then_eq_Inl dest: b k)
qed

section \<open>Steppers\<close>

locale stepper =
  fixes sha :: digest and auth :: bus_authentication
    and ok :: "'b \<Rightarrow> bool" and state :: "'b \<Rightarrow> vm_state" and kept :: "'b \<Rightarrow> 'k"
    and step :: "'b \<Rightarrow> ('e + trace_row) \<times> 'b" and fault :: "'b \<Rightarrow> 'e \<Rightarrow> bool"
  assumes ok_wf: "ok b \<Longrightarrow> vm_wf (state b)"
    and step_accepts: "ok b \<Longrightarrow> step b = (Inr row, c) \<Longrightarrow>
      row_before row = state b \<and> row_after row = state c \<and> row_accepted sha auth row \<and> ok c \<and> kept c = kept b"
    and step_fails: "ok b \<Longrightarrow> step b = (Inl e, c) \<Longrightarrow> c = b \<and> fault b e"
begin

lemma run_ok:
  assumes "accepted_run step b rows b'" "ok b"
  shows "ok b' \<and> kept b' = kept b \<and> contiguous rows \<and> (\<forall>row \<in> set rows. row_accepted sha auth row) \<and>
    (rows \<noteq> [] \<longrightarrow> row_before (hd rows) = state b \<and> row_after (last rows) = state b')"
  using assms
proof (induction rows arbitrary: b)
  case (Cons row rows)
  then obtain c where c: "step b = (Inr row, c)" "accepted_run step c rows b'" by auto
  note step = step_accepts [OF Cons.prems(2) c(1)]
  note IH = Cons.IH [OF c(2)]
  show ?case
  proof (cases rows)
    case Nil
    then show ?thesis using IH step c(2) by simp
  next
    case (Cons r rs)
    then show ?thesis using IH step by simp
  qed
qed simp

lemma run_wf:
  assumes "accepted_run step b rows b'" "ok b"
  shows "\<forall>row \<in> set rows. vm_wf (row_before row)"
  using assms
proof (induction rows arbitrary: b)
  case (Cons row rows)
  then obtain c where c: "step b = (Inr row, c)" "accepted_run step c rows b'" by auto
  note step = step_accepts [OF Cons.prems(2) c(1)]
  show ?case using Cons.IH [OF c(2)] step Cons.prems(2) ok_wf by simp
qed simp

lemma run_witness:
  assumes "accepted_run step b rows b'" "ok b" "rows \<noteq> []" "length rows < 2 ^ 64"
  shows "\<exists>w. witness_from_rows rows = Inr w \<and> witness_rows w = rows \<and> unat (wit_step_count w) = length rows \<and>
    wit_initial_state w = state b \<and> wit_final_state w = state b'"
proof -
  note run = run_ok [OF assms(1,2)]
  let ?w = "\<lparr>wit_chunks = [\<lparr>chunk_rows = rows\<rparr>], wit_initial_state = state b, wit_final_state = state b',
    wit_step_count = word_of_nat (length rows)\<rparr>"
  have "chunk_valid \<lparr>chunk_rows = rows\<rparr>" using run assms(3) by (simp add: chunk_valid_def trace_chunk_new_Inr)
  then have "witness_new [\<lparr>chunk_rows = rows\<rparr>] = Inr ?w"
    using run assms(3,4) witness_new_Inr [of "[\<lparr>chunk_rows = rows\<rparr>]" ?w] by (simp add: witness_rows_def unat_of_nat)
  moreover have "trace_chunk_new rows = Inr \<lparr>chunk_rows = rows\<rparr>" using run assms(3) by (simp add: trace_chunk_new_Inr)
  ultimately show ?thesis
    using assms(4) by (intro exI [of _ ?w]) (simp add: witness_from_rows_def witness_rows_def unat_of_nat)
qed

end

section \<open>Runners\<close>

locale runner = stepper sha auth ok state kept step fault
  for sha auth and ok :: "'b \<Rightarrow> bool" and state and kept :: "'b \<Rightarrow> 'k" and step :: "'b \<Rightarrow> ('e + trace_row) \<times> 'b" and fault +
  fixes guard :: "'b \<Rightarrow> u64 \<Rightarrow> u64 \<Rightarrow> 'e + unit"
    and zero :: 'e and unreached :: "u64 \<Rightarrow> 'e" and ended :: "u64 \<Rightarrow> u64 \<Rightarrow> run_state \<Rightarrow> 'e"
    and stopped :: "u64 \<Rightarrow> u16 \<Rightarrow> 'e \<Rightarrow> 'e" and trace :: "trace_error \<Rightarrow> 'e"
    and row :: "('a \<Rightarrow> trace_row \<Rightarrow> 'e + 'a) \<Rightarrow> u64 \<Rightarrow> u64 \<Rightarrow> 'b \<Rightarrow> execution_metrics \<Rightarrow> 'a \<Rightarrow> ('e + (execution_metrics \<times> 'a)) \<times> 'b"
    and loop :: "('a \<Rightarrow> trace_row \<Rightarrow> 'e + 'a) \<Rightarrow> nat \<Rightarrow> u64 \<Rightarrow> 'b \<Rightarrow> execution_metrics \<Rightarrow> 'a \<Rightarrow> ('e + (execution_metrics \<times> 'a)) \<times> 'b"
    and execute :: "('a \<Rightarrow> trace_row \<Rightarrow> 'e + 'a) \<Rightarrow> u64 \<Rightarrow> 'b \<Rightarrow> 'a \<Rightarrow> ('e + (execution_boundary \<times> 'a)) \<times> 'b"
    and until :: "'r milestone \<Rightarrow> ('a \<Rightarrow> trace_row \<Rightarrow> 'e + 'a) \<Rightarrow> nat \<Rightarrow> u64 \<Rightarrow> vm_state \<Rightarrow> 'b \<Rightarrow> execution_metrics \<Rightarrow> 'r \<Rightarrow> 'a \<Rightarrow>
      ('e + (execution_boundary \<times> 'a)) \<times> 'b"
  assumes guard_fails: "guard b k n = Inl e \<Longrightarrow> e = ended k n (cpu_run_state (vm_cpu (state b)))"
    and row_eq: "row accept k n b m acc =
      (case guard b k n of
         Inl e \<Rightarrow> (Inl e, b)
       | Inr _ \<Rightarrow>
           (case step b of
              (Inl e, b') \<Rightarrow> (Inl (stopped k (cpu_pc (vm_cpu (state b))) e), b')
            | (Inr t, b') \<Rightarrow>
                (and_then (map_err trace (metrics_record m t)) (\<lambda>m'.
                 and_then (accept acc t) (\<lambda>acc'. Inr (m', acc'))), b')))"
    and loop_eq: "loop accept i n b m acc =
      (if i < unat n then
         (case row accept (word_of_nat i) n b m acc of
            (Inl e, b') \<Rightarrow> (Inl e, b')
          | (Inr (m', acc'), b') \<Rightarrow> loop accept (Suc i) n b' m' acc')
       else (Inr (m, acc), b))"
    and execute_eq: "execute accept n b acc =
      (if n = 0 then (Inl zero, b)
       else
         (case loop accept 0 n b metrics_default acc of
            (Inl e, b') \<Rightarrow> (Inl e, b')
          | (Inr (m, acc'), b') \<Rightarrow> (Inr (boundary_from_exact (state b) (state b') m, acc'), b')))"
    and until_eq: "until reached accept i n s b m r acc =
      (if i < unat n then
         (case row accept (word_of_nat i) n b m acc of
            (Inl e, b') \<Rightarrow> (Inl e, b')
          | (Inr (m', acc'), b') \<Rightarrow>
              (case reached r (state b') of
                 (True, _) \<Rightarrow> (Inr (boundary_from_exact s (state b') m', acc'), b')
               | (False, r') \<Rightarrow> until reached accept (Suc i) n s b' m' r' acc'))
       else (Inl (unreached n), b))"
begin

lemma row_Inr:
  assumes "row accept k n b m acc = (Inr (m', acc'), b')"
  obtains t where "step b = (Inr t, b')" "metrics_record m t = Inr m'" "accept acc t = Inr acc'"
  using assms by (auto simp: row_eq split: sum.splits prod.splits)

text \<open>A failed row: the machine ended, the step failed, or a counter or the closure did.\<close>

lemma row_Inl:
  assumes "row accept k n b m acc = (Inl e, b')" "ok b"
  shows "(e = ended k n (cpu_run_state (vm_cpu (state b))) \<and> b' = b) \<or>
    (\<exists>e'. e = stopped k (cpu_pc (vm_cpu (state b))) e' \<and> fault b e' \<and> b' = b) \<or>
    (\<exists>t. step b = (Inr t, b') \<and> ((\<exists>x. metrics_record m t = Inl x \<and> e = trace x) \<or> accept acc t = Inl e))"
proof (cases "guard b k n")
  case (Inl x)
  then have "e = x" "b' = b" using assms(1) by (simp_all add: row_eq)
  with guard_fails [OF Inl] show ?thesis by simp
next
  case (Inr u)
  obtain r c where step: "step b = (r, c)" by fastforce
  show ?thesis
  proof (cases r)
    case (Inl e')
    then have "fault b e'" "c = b" using step_fails [OF assms(2)] step by simp_all
    with assms(1) Inr Inl step show ?thesis by (auto simp: row_eq)
  next
    case (Inr t)
    with assms(1) \<open>guard b k n = Inr u\<close> step show ?thesis
      by (auto simp: row_eq and_then_eq_Inl map_err_def split: sum.splits)
  qed
qed

lemma loop_Inr:
  assumes "loop accept k n b m acc = (Inr (m', acc'), b')" "k \<le> unat n"
  shows "\<exists>rows. accepted_run step b rows b' \<and> length rows = unat n - k \<and>
    try_fold metrics_record m rows = Inr m' \<and> try_fold accept acc rows = Inr acc'"
  using assms
proof (induction "unat n - k" arbitrary: k b m acc)
  case 0
  then show ?case by (subst (asm) loop_eq) (auto intro!: exI [of _ "[]"])
next
  case (Suc d)
  then have lt: "k < unat n" by simp
  with Suc.prems(1) obtain m1 acc1 b1 where row: "row accept (word_of_nat k) n b m acc = (Inr (m1, acc1), b1)"
      and rest: "loop accept (Suc k) n b1 m1 acc1 = (Inr (m', acc'), b')"
    by (subst (asm) loop_eq) (auto split: prod.splits sum.splits)
  obtain t where t: "step b = (Inr t, b1)" "metrics_record m t = Inr m1" "accept acc t = Inr acc1"
    using row_Inr [OF row] .
  have "d = unat n - Suc k" "Suc k \<le> unat n" using Suc.hyps(2) lt by simp_all
  from Suc.hyps(1) [OF this(1) rest this(2)] obtain rows where "accepted_run step b1 rows b'" "length rows = unat n - Suc k"
      "try_fold metrics_record m1 rows = Inr m'" "try_fold accept acc1 rows = Inr acc'" by blast
  with t lt show ?case by (intro exI [of _ "t # rows"]) simp
qed

text \<open>A run that fails does so on one of its rows, after the rows before it.\<close>

definition fails_after :: "('a \<Rightarrow> trace_row \<Rightarrow> 'e + 'a) \<Rightarrow> nat \<Rightarrow> u64 \<Rightarrow> 'b \<Rightarrow> execution_metrics \<Rightarrow> 'a \<Rightarrow> 'e \<Rightarrow> 'b \<Rightarrow> bool" where
  "fails_after accept k n b m acc e b' \<longleftrightarrow>
     (\<exists>rows c m1 acc1. accepted_run step b rows c \<and> k + length rows < unat n \<and>
        row accept (word_of_nat (k + length rows)) n c m1 acc1 = (Inl e, b'))"

lemma fails_now:
  "row accept (word_of_nat k) n b m acc = (Inl e, b') \<Longrightarrow> k < unat n \<Longrightarrow> fails_after accept k n b m acc e b'"
  unfolding fails_after_def by (intro exI [of _ "[]"]) auto

lemma fails_later:
  assumes "step b = (Inr t, b1)" "fails_after accept (Suc k) n b1 m1 acc1 e b'"
  shows "fails_after accept k n b m acc e b'"
proof -
  from assms(2) obtain rows c m2 acc2 where "accepted_run step b1 rows c" "Suc k + length rows < unat n"
      "row accept (word_of_nat (Suc k + length rows)) n c m2 acc2 = (Inl e, b')"
    unfolding fails_after_def by blast
  with assms(1) show ?thesis unfolding fails_after_def by (intro exI [of _ "t # rows"]) auto
qed

lemma loop_Inl:
  assumes "loop accept k n b m acc = (Inl e, b')"
  shows "fails_after accept k n b m acc e b'"
  using assms
proof (induction "unat n - k" arbitrary: k b m acc)
  case 0
  then show ?case by (subst (asm) loop_eq) simp
next
  case (Suc d)
  then have lt: "k < unat n" by simp
  obtain r b1 where row: "row accept (word_of_nat k) n b m acc = (r, b1)" by fastforce
  show ?case
  proof (cases r)
    case (Inl e1)
    then have "e1 = e" "b1 = b'" using Suc.prems row lt by (subst (asm) loop_eq; simp)+
    with row Inl lt show ?thesis by (intro fails_now) simp_all
  next
    case (Inr p)
    obtain m1 acc1 where p: "p = (m1, acc1)" by (cases p)
    then have rest: "loop accept (Suc k) n b1 m1 acc1 = (Inl e, b')"
      using Suc.prems row Inr lt by (subst (asm) loop_eq) simp
    obtain t where t: "step b = (Inr t, b1)" using row_Inr [of accept "word_of_nat k" n b m acc m1 acc1 b1] row Inr p by auto
    have "d = unat n - Suc k" using Suc.hyps(2) lt by simp
    from fails_later [OF t Suc.hyps(1) [OF this rest]] show ?thesis .
  qed
qed

lemma execute_Inr:
  assumes "execute accept n b acc = (Inr (bnd, acc'), b')"
  obtains rows where "accepted_run step b rows b'" "length rows = unat n" "rows \<noteq> []"
    "try_fold metrics_record metrics_default rows = Inr (bnd_metrics bnd)" "try_fold accept acc rows = Inr acc'"
    "bnd_initial_state bnd = state b" "bnd_final_state bnd = state b'" "bnd_step_count bnd = n"
proof -
  have n: "n \<noteq> 0" using assms by (auto simp: execute_eq)
  then obtain m where m: "loop accept 0 n b metrics_default acc = (Inr (m, acc'), b')"
      "bnd = boundary_from_exact (state b) (state b') m"
    using assms by (auto simp: execute_eq split: prod.splits sum.splits)
  obtain rows where rows: "accepted_run step b rows b'" "length rows = unat n"
      "try_fold metrics_record metrics_default rows = Inr m" "try_fold accept acc rows = Inr acc'"
    using loop_Inr [OF m(1)] by auto
  have "met_relation_steps m = n"
    using metrics_steps [OF rows(3)] rows(2) by (simp add: metrics_default_def word_unat_eq_iff)
  moreover have "rows \<noteq> []" using n rows(2) by (auto simp: unat_eq_0)
  ultimately show thesis using that [of rows] rows m(2) by (simp add: boundary_from_exact_def)
qed

text \<open>How a run with a closure that never fails can end early; the adapter rests on the boundary
  its error reports.\<close>

definition run_stops :: "'b \<Rightarrow> u64 \<Rightarrow> 'e \<Rightarrow> 'b \<Rightarrow> bool" where
  "run_stops b n e b' \<longleftrightarrow>
     (\<exists>rows. accepted_run step b rows b' \<and> length rows < unat n \<and>
        (e = ended (word_of_nat (length rows)) n (cpu_run_state (vm_cpu (state b'))) \<or>
         (\<exists>e'. e = stopped (word_of_nat (length rows)) (cpu_pc (vm_cpu (state b'))) e' \<and> fault b' e'))) \<or>
     (\<exists>rows. accepted_run step b rows b' \<and> rows \<noteq> [] \<and> length rows \<le> unat n \<and> e = trace TE_MetricOverflow)"

lemma fails_stops:
  assumes "fails_after accept 0 n b m acc e b'" "ok b" "\<And>acc t. is_ok (accept acc t)"
  shows "run_stops b n e b'"
proof -
  obtain rows c m1 acc1 where r: "accepted_run step b rows c" "length rows < unat n"
      "row accept (word_of_nat (length rows)) n c m1 acc1 = (Inl e, b')"
    using assms(1) unfolding fails_after_def by auto
  have ok: "ok c" using run_ok [OF r(1) assms(2)] by simp
  have never: "accept acc1 t \<noteq> Inl e" for t using assms(3) [of acc1 t] by auto
  from row_Inl [OF r(3) ok] consider
    "e = ended (word_of_nat (length rows)) n (cpu_run_state (vm_cpu (state c)))" "b' = c"
  | e' where "e = stopped (word_of_nat (length rows)) (cpu_pc (vm_cpu (state c))) e'" "fault c e'" "b' = c"
  | t x where "step c = (Inr t, b')" "metrics_record m1 t = Inl x" "e = trace x"
    using never by blast
  then show ?thesis
  proof cases
    case 3
    have "x = TE_MetricOverflow"
      using metrics_overflow_only [OF 3(2)] row_accepted_plannable [of sha auth t] step_accepts [OF ok 3(1)] by simp
    moreover have "accepted_run step b (rows @ [t]) b'" using r(1) 3(1) by (auto simp: accepted_run_append)
    ultimately show ?thesis using 3(3) r(2) unfolding run_stops_def by (intro disjI2 exI [of _ "rows @ [t]"]) simp
  qed (use r in \<open>auto simp: run_stops_def\<close>)
qed

lemma execute_Inl:
  assumes "execute accept n b acc = (Inl e, b')" "ok b" "\<And>acc t. is_ok (accept acc t)"
  shows "(n = 0 \<and> e = zero \<and> b' = b) \<or> run_stops b n e b'"
proof (cases "n = 0")
  case False
  then have "loop accept 0 n b metrics_default acc = (Inl e, b')"
    using assms(1) by (auto simp: execute_eq split: prod.splits sum.splits)
  from fails_stops [OF loop_Inl [OF this] assms(2,3)] show ?thesis by simp
qed (use assms(1) in \<open>simp add: execute_eq\<close>)

text \<open>Whatever an exact run returns, its adapter was reached by accepted rows.\<close>

lemma execute_rows:
  assumes "execute accept n b acc = (r, b')" "ok b" "\<And>acc t. is_ok (accept acc t)"
  shows "\<exists>rows. accepted_run step b rows b'"
proof (cases r)
  case (Inl e)
  with execute_Inl [of accept n b acc e b'] assms have "b' = b \<or> run_stops b n e b'" by fastforce
  then show ?thesis by (auto simp: run_stops_def intro: exI [of _ "[]"])
next
  case (Inr p)
  with assms(1) show ?thesis by (cases p) (metis execute_Inr)
qed

text \<open>A milestone run stops on the first row whose state satisfies the predicate.\<close>

lemma until_Inr:
  assumes "until reached accept k n s b m r acc = (Inr (bnd, acc'), b')" "ok b"
  shows "\<exists>rows. accepted_run step b rows b' \<and> k + length rows \<le> unat n \<and> first_reached reached r (map row_after rows) \<and>
    try_fold metrics_record m rows = Inr (bnd_metrics bnd) \<and> try_fold accept acc rows = Inr acc' \<and>
    bnd = boundary_from_exact s (state b') (bnd_metrics bnd)"
  using assms
proof (induction "unat n - k" arbitrary: k b m r acc)
  case 0
  then show ?case by (subst (asm) until_eq) simp
next
  case (Suc d)
  then have lt: "k < unat n" by simp
  with Suc.prems(1) obtain m1 acc1 b1 where row: "row accept (word_of_nat k) n b m acc = (Inr (m1, acc1), b1)"
    by (subst (asm) until_eq) (auto split: prod.splits sum.splits)
  obtain t where t: "step b = (Inr t, b1)" "metrics_record m t = Inr m1" "accept acc t = Inr acc1"
    using row_Inr [OF row] .
  note step = step_accepts [OF Suc.prems(2) t(1)]
  obtain yes r1 where reach: "reached r (state b1) = (yes, r1)" by fastforce
  show ?case
  proof (cases yes)
    case True
    then have "bnd = boundary_from_exact s (state b1) m1" "acc' = acc1" "b' = b1"
      using Suc.prems(1) row reach lt by (subst (asm) until_eq; simp)+
    with t step True reach lt show ?thesis
      by (intro exI [of _ "[t]"]) (simp add: boundary_from_exact_def)
  next
    case False
    then have rest: "until reached accept (Suc k) n s b1 m1 r1 acc1 = (Inr (bnd, acc'), b')"
      using Suc.prems(1) row reach lt by (subst (asm) until_eq) simp
    have "d = unat n - Suc k" using Suc.hyps(2) lt by simp
    from Suc.hyps(1) [OF this rest] step obtain rows where "accepted_run step b1 rows b'" "Suc k + length rows \<le> unat n"
        "first_reached reached r1 (map row_after rows)" "try_fold metrics_record m1 rows = Inr (bnd_metrics bnd)"
        "try_fold accept acc1 rows = Inr acc'" "bnd = boundary_from_exact s (state b') (bnd_metrics bnd)" by blast
    with t step False reach show ?thesis by (intro exI [of _ "t # rows"]) simp
  qed
qed

text \<open>It fails on one of its rows, or after all the rows its bound allows without reaching the predicate.\<close>

lemma until_Inl:
  assumes "until reached accept k n s b m r acc = (Inl e, b')" "ok b" "k \<le> unat n"
  shows "fails_after accept k n b m acc e b' \<or>
    (\<exists>rows. accepted_run step b rows b' \<and> k + length rows = unat n \<and> never_reached reached r (map row_after rows) \<and> e = unreached n)"
  using assms
proof (induction "unat n - k" arbitrary: k b m r acc)
  case 0
  then show ?case by (subst (asm) until_eq) (auto intro!: exI [of _ "[]"])
next
  case (Suc d)
  then have lt: "k < unat n" and d: "d = unat n - Suc k" by simp_all
  obtain q b1 where row: "row accept (word_of_nat k) n b m acc = (q, b1)" by fastforce
  show ?case
  proof (cases q)
    case (Inl e1)
    then have "e1 = e" "b1 = b'" using Suc.prems(1) row lt by (subst (asm) until_eq; simp)+
    with row Inl lt show ?thesis by (auto intro: fails_now)
  next
    case (Inr p)
    obtain m1 acc1 where p: "p = (m1, acc1)" by (cases p)
    obtain r1 where reach: "reached r (state b1) = (False, r1)"
        and rest: "until reached accept (Suc k) n s b1 m1 r1 acc1 = (Inl e, b')"
      using Suc.prems(1) row Inr p lt by (subst (asm) until_eq) (auto split: prod.splits bool.splits)
    obtain t where t: "step b = (Inr t, b1)" using row_Inr [of accept "word_of_nat k" n b m acc m1 acc1 b1] row Inr p by auto
    note step = step_accepts [OF Suc.prems(2) t]
    from Suc.hyps(1) [OF d rest] step lt consider "fails_after accept (Suc k) n b1 m1 acc1 e b'"
      | rows where "accepted_run step b1 rows b'" "Suc k + length rows = unat n" "never_reached reached r1 (map row_after rows)"
          "e = unreached n"
      by auto
    then show ?thesis
    proof cases
      case 2
      with t step reach show ?thesis by (intro disjI2 exI [of _ "t # rows"]) simp
    qed (use fails_later [OF t] in blast)
  qed
qed

end

section \<open>Retaining runs\<close>

locale retainer = runner sha auth ok state kept step fault guard zero unreached ended stopped trace row loop execute until
  for sha auth and ok :: "'b \<Rightarrow> bool" and state and kept :: "'b \<Rightarrow> 'k" and step :: "'b \<Rightarrow> ('e + trace_row) \<times> 'b" and fault
    and guard zero unreached ended stopped trace
    and row :: "(trace_row list \<Rightarrow> trace_row \<Rightarrow> 'e + trace_row list) \<Rightarrow> u64 \<Rightarrow> u64 \<Rightarrow> 'b \<Rightarrow> execution_metrics \<Rightarrow> trace_row list \<Rightarrow>
      ('e + (execution_metrics \<times> trace_row list)) \<times> 'b"
    and loop execute
    and until :: "'r milestone \<Rightarrow> (trace_row list \<Rightarrow> trace_row \<Rightarrow> 'e + trace_row list) \<Rightarrow> nat \<Rightarrow> u64 \<Rightarrow> vm_state \<Rightarrow> 'b \<Rightarrow>
      execution_metrics \<Rightarrow> 'r \<Rightarrow> trace_row list \<Rightarrow> ('e + (execution_boundary \<times> trace_row list)) \<times> 'b" +
  fixes retain :: "u64 \<Rightarrow> 'b \<Rightarrow> ('e + exec_witness) \<times> 'b"
  assumes retain_eq: "retain n b =
      (case execute (\<lambda>rows row. Inr (rows @ [row])) n b [] of
         (Inl e, b') \<Rightarrow> (Inl e, b')
       | (Inr (_, rows), b') \<Rightarrow> (map_err trace (witness_from_rows rows), b'))"
begin

lemma retain_outcome:
  assumes "ok b"
  shows "case retain n b of
      (Inr w, b') \<Rightarrow>
        ok b' \<and> wit_step_count w = n \<and> length (witness_rows w) = unat n \<and> wit_initial_state w = state b \<and>
        wit_final_state w = state b' \<and> accepted_run step b (witness_rows w) b' \<and>
        (\<exists>inputs. run_steps sha auth (state b) inputs = Inr (state b', map row_effects (witness_rows w)))
    | (Inl e, b') \<Rightarrow> ok b' \<and> (n = 0 \<and> e = zero \<and> b' = b \<or> run_stops b n e b')"
proof -
  obtain r b' where run: "execute (\<lambda>rows row. Inr (rows @ [row])) n b [] = (r, b')" by fastforce
  show ?thesis
  proof (cases r)
    case (Inl e)
    have stop: "n = 0 \<and> e = zero \<and> b' = b \<or> run_stops b n e b'"
      using execute_Inl [OF _ assms] run Inl by fastforce
    then have "ok b'" using run_ok [OF _ assms] assms by (auto simp: run_stops_def)
    with stop run Inl show ?thesis by (simp add: retain_eq)
  next
    case (Inr p)
    obtain bnd acc where p: "p = (bnd, acc)" by (cases p)
    obtain rows where rows: "accepted_run step b rows b'" "length rows = unat n" "rows \<noteq> []"
        "try_fold (\<lambda>rows row. Inr (rows @ [row])) [] rows = (Inr acc :: 'e + _)"
      using execute_Inr [of _ n b "[]" bnd acc b'] run Inr p by metis
    then have acc: "acc = rows" by (simp add: collect_fold)
    note ok = run_ok [OF rows(1) assms]
    obtain w where w: "witness_from_rows rows = Inr w" "witness_rows w = rows" "unat (wit_step_count w) = length rows"
        "wit_initial_state w = state b" "wit_final_state w = state b'"
      using run_witness [OF rows(1) assms rows(3)] rows(2) unsigned_less [of n, where 'a = nat] by auto
    obtain inputs where "run_steps sha auth (state b) inputs = Inr (state b', map row_effects rows)"
      using contiguous_run [of rows sha auth] ok rows(3) by auto
    with w ok rows run Inr p acc show ?thesis by (auto simp: retain_eq word_unat_eq_iff)
  qed
qed

text \<open>An error that carries a number of completed rows carries the number of the accepted ones.\<close>

lemma stops_completed:
  assumes "run_stops b n e b'" "\<And>k r. completed (ended k n r) = Some k" "\<And>k pc e. completed (stopped k pc e) = Some k"
    "completed (trace TE_MetricOverflow) = None"
  shows "case completed e of
      Some k \<Rightarrow> \<exists>rows. accepted_run step b rows b' \<and> length rows = unat k \<and> k < n
    | None \<Rightarrow> e = trace TE_MetricOverflow"
proof -
  have small: "unat (word_of_nat k :: u64) = k" "(word_of_nat k :: u64) < n" if "k < unat n" for k
    using that unat_less_u64 [of n] by (simp_all add: unat_of_nat word_less_nat_alt del: unat_less_u64)
  show ?thesis using assms(1) unfolding run_stops_def by (elim disjE exE conjE) (auto simp: small assms(2-))
qed

lemma retain_rows:
  assumes "ok b" "retain n b = (r, b')"
  shows "\<exists>rows. accepted_run step b rows b'"
proof -
  obtain q c where run: "execute (\<lambda>rows row. Inr (rows @ [row])) n b [] = (q, c)" by fastforce
  have "c = b'" using assms(2) run by (cases q) (auto simp: retain_eq split: prod.splits)
  then show ?thesis using execute_rows [OF run assms(1)] by simp
qed

end

end
