(* ===== verification/Builder_Runs.thy ===== *)
theory Builder_Runs
  imports Builder_Service Row_Runs
begin

text \<open>
  Runs of the prover adapter: every run of a consistent builder is a contiguous list of accepted
  rows whose metrics and closures saw exactly those rows; a builder can be checkpointed at any
  boundary; and the ways a run can fail.
\<close>

section \<open>The adapter as a stepper and a runner\<close>

abbreviation builder_run :: "digest \<Rightarrow> trace_builder \<Rightarrow> trace_row list \<Rightarrow> trace_builder \<Rightarrow> bool" where
  "builder_run sha \<equiv> accepted_run (builder_step sha)"

interpretation builder_rows: stepper sha Auth_Merkle "builder_ok sha" tb_state "\<lambda>b. (tb_rom b, tb_private_input b)"
  "builder_step sha" builder_fault for sha
proof unfold_locales
  show "builder_ok sha b \<Longrightarrow> vm_wf (tb_state b)" for b by (simp add: builder_ok_def)
next
  fix b row c assume "builder_ok sha b" "builder_step sha b = (Inr row, c)"
  with builder_step_outcome [of sha b] show "row_before row = tb_state b \<and> row_after row = tb_state c \<and>
      row_accepted sha Auth_Merkle row \<and> builder_ok sha c \<and> (tb_rom c, tb_private_input c) = (tb_rom b, tb_private_input b)"
    by (simp add: builder_outcome_def)
next
  fix b e c assume "builder_ok sha b" "builder_step sha b = (Inl e, c)"
  with builder_step_outcome [of sha b] show "c = b \<and> builder_fault b e" by (simp add: builder_outcome_def)
qed

interpretation builder_runs: runner sha Auth_Merkle "builder_ok sha" tb_state "\<lambda>b. (tb_rom b, tb_private_input b)"
  "builder_step sha" builder_fault "\<lambda>b. require_exact_row b (cpu_run_state (vm_cpu (tb_state b)))"
  TBE_ZeroStepChunk TBE_MilestoneNotReached TBE_TerminatedBeforeExactSteps TBE_ExactStepFailed TBE_Trace
  "exact_row sha" "exact_loop sha" "execute_exact sha" "until_loop sha" for sha
proof (unfold_locales, goal_cases)
  case 1
  then show ?case by (simp add: require_exact_row_def split: if_splits)
next
  case 2
  show ?case by (simp only: exact_row_def)
next
  case 3
  show ?case by (rule exact_loop.simps)
next
  case 4
  show ?case by (simp only: execute_exact_def)
next
  case 5
  show ?case by (rule until_loop.simps)
qed

interpretation builder_retains: retainer sha Auth_Merkle "builder_ok sha" tb_state "\<lambda>b. (tb_rom b, tb_private_input b)"
  "builder_step sha" builder_fault "\<lambda>b. require_exact_row b (cpu_run_state (vm_cpu (tb_state b)))"
  TBE_ZeroStepChunk TBE_MilestoneNotReached TBE_TerminatedBeforeExactSteps TBE_ExactStepFailed TBE_Trace
  "exact_row sha" "exact_loop sha" "execute_exact sha" "until_loop sha" "run_exact_steps sha" for sha
  by unfold_locales (simp only: run_exact_steps_def)

section \<open>Runs to completion\<close>

lemma run_loop_Inr:
  assumes "run_loop sha n b rows = Inr (rows', b')"
  shows "\<exists>new. rows' = rows @ new \<and> builder_run sha b new b' \<and> length new \<le> n \<and>
    (length new < n \<longrightarrow> \<not> can_execute_instruction (cpu_run_state (vm_cpu (tb_state b'))))"
  using assms
proof (induction n arbitrary: b rows)
  case (Suc n)
  show ?case
  proof (cases "can_execute_instruction (cpu_run_state (vm_cpu (tb_state b)))")
    case True
    then obtain row c where row: "builder_step sha b = (Inr row, c)" "run_loop sha n c (rows @ [row]) = Inr (rows', b')"
      using Suc.prems by (auto split: prod.splits sum.splits)
    from Suc.IH [OF row(2)] row(1) show ?thesis by (metis append_assoc append_Cons append_Nil accepted_run.simps(2) length_Cons not_less_eq Suc_le_mono)
  next
    case False
    with Suc.prems show ?thesis by auto
  qed
qed simp

section \<open>Checkpoints\<close>

lemma log_commit_index: "log_commit sha k vs = Inr a \<Longrightarrow> unat (log_next_index a) = length vs"
  using log_fold_index [of sha "log_empty sha k" vs a] by (simp add: log_commit_def log_empty_def)

lemma resume_iff:
  assumes "length private_input < 2 ^ 64"
  shows "resume sha rom memory private_input s = Inr b \<longleftrightarrow>
    b = \<lparr>tb_rom = rom, tb_memory = memory, tb_private_input = private_input, tb_state = s\<rparr> \<and>
    vm_rom_root s = rom_image_root rom \<and> vm_memory_root s = memory_image_root memory \<and>
    unat (log_next_index (vm_input_log s)) \<le> length private_input \<and>
    log_commit sha Log_Input (take (unat (log_next_index (vm_input_log s))) private_input) = Inr (vm_input_log s)"
proof -
  have u: "u64_try_from (length private_input) = Some (word_of_nat (length private_input))"
    "unat (word_of_nat (length private_input) :: u64) = length private_input"
    using assms by (simp_all add: u64_try_from_def unat_of_nat)
  show ?thesis
    by (cases "log_commit sha Log_Input (take (unat (log_next_index (vm_input_log s))) private_input)")
       (auto simp: resume_def u Let_def vec_slice_def word_less_nat_alt not_less)
qed

lemma checkpoint_restores:
  assumes "builder_ok sha b"
  shows "memory_image_from_checkpoint sha (checkpoint_memory b) = Inr (tb_memory b)"
  using assms by (auto simp: builder_ok_def checkpoint_memory_def memory_image_from_checkpoint_def memory_tree_exact)

end
