(* ===== verification/Trace_Examples.thy ===== *)
theory Trace_Examples
  imports Builder_Runs Step_Examples
begin

text \<open>
  Concrete builders for the examples, under the constant digest: one over blank images, and one
  whose program is a single \<open>HALT\<close>, which it executes in one row.
\<close>

section \<open>Example builders and rows\<close>

definition blank_builder :: "digest \<Rightarrow> trace_builder" where
  "blank_builder sha = builder_new sha (rom_of sha (replicate 65536 0)) (memory_of sha (replicate 131072 0)) []"

lemma builder_new_ok:
  assumes "tree_length_ok (length rom)" "length mem = MUTABLE_COMMITMENT_BYTES"
  shows "builder_ok sha (builder_new sha (rom_of sha rom) (memory_of sha mem) input)"
    "builder_ok sha (new_dmg_post_boot_mbc3 sha (rom_of sha rom) (memory_of sha mem) input)"
    "is_dmg_post_boot_mbc3 profile \<Longrightarrow>
       \<exists>b. new_dmg_post_boot_mbc3_profile sha (rom_of sha rom) (memory_of sha mem) input profile = Inr b \<and> builder_ok sha b"
  using assms vm_initial_wf [of sha]
  by (auto simp: builder_ok_def builder_new_def new_dmg_post_boot_mbc3_def new_dmg_post_boot_mbc3_profile_def
      vm_profile_initial_def vm_dmg_initial_def vm_dmg_profile_initial_def vm_dmg_unchecked_def input_committed_def consumed_prefix_def
      log_empty_def log_commit_def)

lemma blank_builder_ok: "builder_ok sha (blank_builder sha)"
proof -
  have "tree_length_ok 65536" using is_power_of_two_pow2 [of 16] by (simp add: tree_length_ok_def)
  then show ?thesis unfolding blank_builder_def by (intro builder_new_ok) (simp_all add: MUTABLE_COMMITMENT_BYTES_def)
qed

text \<open>The row of the example store.\<close>

lemma store_accepted_row:
  obtains row where "row_accepted (\<lambda>_. 0) Auth_Merkle row" "eff_kind (row_effects row) = SK_Instruction"
    "row_before row = store_vm (\<lambda>_. 0)"
    "eff_bus_events (row_effects row) = [Ev_OpcodeFetch store_fetch, Ev_MemoryWrite store_write]"
proof -
  obtain s' eff where "apply_step (\<lambda>_. 0) (store_vm (\<lambda>_. 0)) store_input Auth_Merkle = Inr (s', eff)"
    "eff_kind eff = SK_Instruction" "eff_bus_events eff = [Ev_OpcodeFetch store_fetch, Ev_MemoryWrite store_write]"
    using store_step [OF refl, of Auth_Merkle] .
  then show thesis
    by (intro that [of "trace_row_from_accepted (store_vm (\<lambda>_. 0)) s' eff"])
       (auto simp: row_accepted_def trace_row_from_accepted_def)
qed

section \<open>A halting program\<close>

definition halt_builder :: trace_builder where
  "halt_builder = builder_new (\<lambda>_. 0) (rom_of (\<lambda>_. 0) (vec_resize 65536 [0x76])) (memory_of (\<lambda>_. 0) (replicate 131072 0)) []"

abbreviation halt_vm :: vm_state where
  "halt_vm \<equiv> vm_profile_initial (\<lambda>_. 0) 0 0"

lemma halt_builder_facts:
  "builder_ok (\<lambda>_. 0) halt_builder" "tb_state halt_builder = halt_vm" "tb_private_input halt_builder = []"
  "tb_rom halt_builder = rom_of (\<lambda>_. 0) (vec_resize 65536 [0x76])"
  "tb_memory halt_builder = memory_of (\<lambda>_. 0) (replicate 131072 0)"
proof -
  have "tree_length_ok 65536" using is_power_of_two_pow2 [of 16] by (simp add: tree_length_ok_def)
  then show "builder_ok (\<lambda>_. 0) halt_builder"
    unfolding halt_builder_def by (intro builder_new_ok) (simp_all add: MUTABLE_COMMITMENT_BYTES_def vec_resize_def)
qed (simp_all add: halt_builder_def builder_new_def zero_digest_commit)

lemma halt_row: "decode_row 0x76 = (Op_Halt, 1, 1, None)"
  by code_simp

lemma halt_decoded: "decode_primary 0x76 = Defined (decode_defined_primary 0x76)"
  by (simp add: decode_primary_def is_undefined_def)

lemmas halt_eval = step_body_def vm_profile_initial_def cpu_profile_initial_def
  instruction_body_def can_execute_instruction_def step_program_def step_execute_def
  fetch_first_opcode_def exec_defs get_cpu_def fetch_instruction_def require_cpu_dma_access_def
  require_cpu_ppu_access_def executor_new_def state_owner_def owner_def fetch_def take_rom_read_def
  next_witness_def require_address_def require_physical_address_def
  map_rom_for_def push_event_def modify_cpu_def update_cpu_def update_state_def decode_fetched_def halt_decoded
  halt_row fetch_immediates_def saturating_sub_def execute_def execute_low_power_def apply_delayed_ime_def
  add_timing_def step_increment_def add_m_cycles_def checked_add_def update_devices_def Let_def
  pending_interrupt_def dmg_empty_def

lemma halt_asks:
  "apply_step sha halt_vm \<lparr>input_witnesses = []\<rparr> auth = Inl (MissingWitness (Req_Rom 0 0 Role_OpcodeFetch))"
  by (simp add: apply_step_body halt_eval)

lemma halt_body:
  assumes "rr_address r = 0" "rr_physical_address r = 0" "rr_value r = 0x76" "rom_read_check sha r 0 = Inr ()"
  shows "\<exists>x. step_body sha halt_vm (executor_new halt_vm \<lparr>input_witnesses = [Wit_Rom r]\<rparr> Auth_Merkle) =
      Inr ((SK_Instruction, decode_defined_primary 0x76, False), x) \<and>
    ex_witnesses x = [] \<and> ex_events x = [Ev_OpcodeFetch r] \<and> cpu_run_state (vm_cpu (ex_state x)) = Halted \<and>
    vm_input_log (ex_state x) = log_empty (\<lambda>_. 0) Log_Input \<and> vm_bus_transcript (ex_state x) = bus_transcript_empty (\<lambda>_. 0) \<and>
    vm_isa_transcript (ex_state x) = isa_transcript_empty (\<lambda>_. 0)"
  using assms by (simp add: halt_eval)

lemma halt_final:
  assumes "ex_witnesses x = []" "ex_events x = [Ev_OpcodeFetch r]" "rr_address r = 0" "rr_physical_address r = 0"
    "vm_bus_transcript (ex_state x) = bus_transcript_empty (\<lambda>_. 0)" "vm_isa_transcript (ex_state x) = isa_transcript_empty (\<lambda>_. 0)"
  shows "\<exists>s. finalize (\<lambda>_. 0) (decode_defined_primary 0x76) x = Inr (s, ex_events x)"
proof -
  have "defined_instruction (decode_defined_primary 0x76)" using halt_decoded by (auto simp: defined_instruction_def)
  then obtain row where row: "packed_row (from_decoded (decode_defined_primary 0x76)) = Inr row" "row < 2 ^ 106"
    using defined_row_canonical by blast
  have "is_ok (isa_transcript_append (\<lambda>_. 0) (isa_transcript_empty (\<lambda>_. 0)) row)"
    unfolding append_total using row(2) by (simp add: isa_transcript_empty_def)
  moreover have "is_ok (try_fold (\<lambda>t e. bus_transcript_append (\<lambda>_. 0) t (transcript_event e)) (bus_transcript_empty (\<lambda>_. 0)) (ex_events x))"
    using assms(3,4)
    by (simp add: assms(2) bus_transcript_append_def bus_transcript_empty_def checked_add_def Let_def
        transcript_event_def blank_event_def rom_event_def is_ok_def push_bit_eq_mult word_le_nat_alt)
  ultimately show ?thesis
    using row(1) by (cases "ex_authentication x") (auto simp: finalize_def assms is_ok_def split: sum.splits)
qed

lemma halt_step:
  assumes "rr_address r = 0" "rr_physical_address r = 0" "rr_value r = 0x76"
  obtains s eff where "apply_step (\<lambda>_. 0) halt_vm \<lparr>input_witnesses = [Wit_Rom r]\<rparr> Auth_Merkle = Inr (s, eff)"
    "cpu_run_state (vm_cpu s) = Halted" "vm_input_log s = log_empty (\<lambda>_. 0) Log_Input" "eff_kind eff = SK_Instruction"
    "eff_bus_events eff = [Ev_OpcodeFetch r]"
proof -
  have "rom_read_check (\<lambda>_. 0) r 0 = Inr ()"
    using assms by (simp add: rom_read_check_iff owner_rom_iff zero_digest_root)
  from halt_body [OF assms this] obtain x where x: "step_body (\<lambda>_. 0) halt_vm (executor_new halt_vm \<lparr>input_witnesses = [Wit_Rom r]\<rparr> Auth_Merkle) =
      Inr ((SK_Instruction, decode_defined_primary 0x76, False), x)"
    "ex_witnesses x = []" "ex_events x = [Ev_OpcodeFetch r]" "cpu_run_state (vm_cpu (ex_state x)) = Halted"
    "vm_input_log (ex_state x) = log_empty (\<lambda>_. 0) Log_Input" "vm_bus_transcript (ex_state x) = bus_transcript_empty (\<lambda>_. 0)"
    "vm_isa_transcript (ex_state x) = isa_transcript_empty (\<lambda>_. 0)" by blast
  obtain s where s: "finalize (\<lambda>_. 0) (decode_defined_primary 0x76) x = Inr (s, ex_events x)"
    using halt_final [OF x(2,3) assms(1,2) x(6,7)] by blast
  then have "vm_cpu s = vm_cpu (ex_state x)" "vm_input_log s = vm_input_log (ex_state x)"
    by (auto simp: finalize_Inr split: if_splits)
  with s x show thesis
    by (intro that [of s "\<lparr>eff_kind = SK_Instruction, eff_instruction = decode_defined_primary 0x76,
          eff_branch_taken = False, eff_bus_events = ex_events x\<rparr>"])
       (simp_all add: apply_step_body complete_step_def)
qed

lemma halt_builder_step:
  obtains row b where "builder_step (\<lambda>_. 0) halt_builder = (Inr row, b)" "cpu_run_state (vm_cpu (tb_state b)) = Halted"
    "eff_kind (row_effects row) = SK_Instruction" "is_ok (metrics_record metrics_default row)" "is_ok (profile_record [] row)"
    "log_next_index (vm_input_log (tb_state b)) = 0" "tb_private_input b = []"
proof -
  let ?rom = "vec_resize 65536 [0x76] :: u8 list" and ?mem = "replicate 131072 0 :: u8 list" and ?b = halt_builder
  let ?r = "\<lparr>rr_address = 0, rr_physical_address = 0, rr_value = 0x76, rr_path = merkle_paths (\<lambda>_. 0) Kind_Rom ?rom 0\<rparr>"
  have len: "tree_length_ok (length ?rom)" using is_power_of_two_pow2 [of 16] by (simp add: tree_length_ok_def vec_resize_def)
  have mat: "materialize (\<lambda>_. 0) ?b ps = Inr \<lparr>input_witnesses = plan_answers (merkle_paths (\<lambda>_. 0)) ?rom ?mem ps\<rparr>"
    if "\<forall>p \<in> set ps. plan_ok ?rom p" for ps
    using materialize_exact [OF halt_builder_facts(4) len halt_builder_facts(5) _ that] by simp
  have first: "step_loop (\<lambda>_. 0) ?b [] = step_loop (\<lambda>_. 0) ?b [PW_Rom 0 0]"
    by (subst step_loop.simps)
       (simp add: mat halt_builder_facts(2) step_relation_apply_def halt_asks MAX_WITNESSES_PER_STEP_def)
  obtain s eff where eff: "apply_step (\<lambda>_. 0) halt_vm \<lparr>input_witnesses = [Wit_Rom ?r]\<rparr> Auth_Merkle = Inr (s, eff)"
    "cpu_run_state (vm_cpu s) = Halted" "vm_input_log s = log_empty (\<lambda>_. 0) Log_Input" "eff_kind eff = SK_Instruction"
    "eff_bus_events eff = [Ev_OpcodeFetch ?r]"
    using halt_step [of ?r] by auto
  have second: "step_loop (\<lambda>_. 0) ?b [PW_Rom 0 0] = accept_step (\<lambda>_. 0) ?b s eff"
    using eff(1) mat [of "[PW_Rom 0 0]"]
    by (subst step_loop.simps)
       (simp add: halt_builder_facts(2) step_relation_apply_def owner_rom_iff vec_resize_def)
  have out: "builder_outcome (\<lambda>_. 0) ?b (accept_step (\<lambda>_. 0) ?b s eff)"
    using builder_step_outcome [OF halt_builder_facts(1)] first second by (simp add: builder_step_def)
  obtain b where b: "accept_step (\<lambda>_. 0) ?b s eff = (Inr (trace_row_from_accepted halt_vm s eff), b)" "tb_state b = s"
    using out halt_builder_facts(2)
    by (auto simp: accept_step_def builder_outcome_def eff(5) split: prod.splits sum.splits if_splits)
  show thesis
  proof (rule that)
    show "builder_step (\<lambda>_. 0) ?b = (Inr (trace_row_from_accepted halt_vm s eff), b)"
      using first second b by (simp add: builder_step_def)
  qed (use b out eff halt_builder_facts in \<open>auto simp: builder_outcome_def trace_row_from_accepted_def metrics_record_def
      record_kind_def record_bus_events_def record_bus_event_def bump_def bump_opt_def metric_increment_def bus_metric_def
      device_metric_def metrics_default_def checked_add_def profile_record_def Let_def log_empty_def\<close>)
qed

text \<open>Its runs: one exact row, the first halted state, and to completion.\<close>

lemma halt_row_guard: "require_exact_row halt_builder (cpu_run_state (vm_cpu (tb_state halt_builder))) k n = Inr ()"
  by (simp add: require_exact_row_def halt_builder_facts(2) vm_profile_initial_def cpu_profile_initial_def can_execute_instruction_def)

lemma halt_boundary_run:
  obtains bnd counts b' where "run_exact_boundary_profiled (\<lambda>_. 0) 1 halt_builder = (Inr (bnd, counts), b')"
proof -
  obtain row b where step: "builder_step (\<lambda>_. 0) halt_builder = (Inr row, b)" "is_ok (metrics_record metrics_default row)"
    "is_ok (profile_record [] row)"
    using halt_builder_step .
  then obtain m counts where r: "metrics_record metrics_default row = Inr m" "profile_record [] row = Inr counts"
    by (auto simp: is_ok_def split: sum.splits)
  have "exact_loop (\<lambda>_. 0) record_profile 0 1 halt_builder metrics_default [] = (Inr (m, counts), b)"
    using step(1) r
    by (simp add: exact_loop.simps [of _ _ 0] exact_loop.simps [of _ _ "Suc 0"] exact_row_def halt_row_guard record_profile_def)
  then show thesis by (intro that) (simp add: run_exact_boundary_profiled_def execute_exact_def)
qed

lemma halt_until_run:
  obtains bnd b' where
    "run_until_boundary (\<lambda>_. 0) (\<lambda>r s. (cpu_run_state (vm_cpu s) = Halted, r)) 8 () halt_builder = (Inr bnd, b')"
proof -
  obtain row b where step: "builder_step (\<lambda>_. 0) halt_builder = (Inr row, b)" "is_ok (metrics_record metrics_default row)"
    "cpu_run_state (vm_cpu (tb_state b)) = Halted"
    using halt_builder_step .
  then obtain m where "metrics_record metrics_default row = Inr m" by (auto simp: is_ok_def split: sum.splits)
  with step show thesis
    by (intro that)
       (simp add: run_until_boundary_def execute_until_def until_loop.simps exact_row_def halt_row_guard)
qed

lemma halt_complete_run:
  obtains w where "run_builder (\<lambda>_. 0) halt_builder 8 = Inr w"
proof -
  obtain row b where step: "builder_step (\<lambda>_. 0) halt_builder = (Inr row, b)" "cpu_run_state (vm_cpu (tb_state b)) = Halted"
    "log_next_index (vm_input_log (tb_state b)) = 0" "tb_private_input b = []"
    using halt_builder_step .
  have "can_execute_instruction (cpu_run_state (vm_cpu (tb_state halt_builder)))"
    by (simp add: halt_builder_facts(2) vm_profile_initial_def cpu_profile_initial_def can_execute_instruction_def)
  then have "run_loop (\<lambda>_. 0) 8 halt_builder [] = Inr ([row], b)"
    using step by (simp add: numeral_eq_Suc can_execute_instruction_def)
  moreover obtain w where "witness_from_rows [row] = Inr w"
    using builder_rows.run_witness [of "\<lambda>_. 0" halt_builder "[row]" b] step(1) halt_builder_facts(1) by auto
  ultimately show thesis
    using step by (intro that) (simp add: run_builder_def u64_try_from_def Let_def)
qed

end
