(* ===== verification/Trace_Properties.thy ===== *)
theory Trace_Properties
  imports Builder_Runs Trace_Examples
begin

text \<open>
  Properties of the trace crate: the prover adapter always finds the witnesses of a step that the
  machine can take, its runs are contiguous accepted traces whose metrics are exact, checkpoints
  restore, validated witnesses are runs of the step relation, and the block planner partitions
  them within its bounds.
\<close>

section \<open>The prover adapter\<close>

text \<open>C7: From a builder whose images carry the roots of its state, a step is complete: it returns an
  accepted row from the old state to the new one with the invariant kept, every byte of its accesses
  being the current one and the image moving by exactly its writes, or it leaves the builder
  unchanged and fails for a reason of the machine, at the end of the private input, or at an address
  of the cartridge beyond the stored ROM image. It never reports a wrong, missing or surplus witness, a failed authentication
  or a diverging image.\<close>

theorem builder_step_complete:
  assumes "builder_ok sha b"
  shows "case builder_step sha b of
      (Inr row, b') \<Rightarrow>
        row_accepted sha Auth_Merkle row \<and> row_before row = tb_state b \<and> row_after row = tb_state b' \<and>
        events_truthful (padded (rom_bytes b)) (padded (checkpoint_memory b)) (eff_bus_events (row_effects row)) \<and>
        padded (checkpoint_memory b') = events_apply (eff_bus_events (row_effects row)) (padded (checkpoint_memory b)) \<and>
        builder_ok sha b' \<and> tb_rom b' = tb_rom b \<and> tb_private_input b' = tb_private_input b
    | (Inl e, b') \<Rightarrow> b' = b \<and>
        (case e of
           TBE_Step se \<Rightarrow> \<not> prover_error se
         | TBE_InputExhausted i \<Rightarrow> length (tb_private_input b) \<le> unat i
         | TBE_InputIndexOverflow \<Rightarrow> 2 ^ 64 \<le> length (tb_private_input b)
         | TBE_Rom (RI_PhysicalAddressOutOfRange p) \<Rightarrow> length (rom_bytes b) \<le> unat p \<and>
             unat p < rom_byte_length (prof_rom_size (cartridge_profile (vm_profile (tb_state b))))
         | _ \<Rightarrow> False)"
  using builder_step_outcome [OF assms]
  by (auto simp: builder_outcome_def split: prod.splits sum.splits trace_builder_error.splits rom_image_error.splits)

theorem builder_step_complete_witness:
  "case builder_step (\<lambda>_. 0) (blank_builder (\<lambda>_. 0)) of
     (Inr row, b') \<Rightarrow> row_accepted (\<lambda>_. 0) Auth_Merkle row \<and> builder_ok (\<lambda>_. 0) b'
   | (Inl e, b') \<Rightarrow> b' = blank_builder (\<lambda>_. 0) \<and> e \<noteq> TBE_MemoryEffectDivergence"
  using builder_step_complete [OF blank_builder_ok [of "\<lambda>_. 0"]]
  by (auto split: prod.splits sum.splits)

text \<open>C8: The witness loop of a step always ends before its bound is exceeded: for every builder,
  consistent or not, growing the plan by one answer per missing witness reaches a result with at
  most five witnesses, so the bound error is never reported.\<close>

theorem builder_plan_bounded:
  "fst (builder_step sha b) \<noteq> Inl (TBE_WitnessBoundExceeded n)"
  unfolding builder_step_def by (rule step_loop_bounded) simp

text \<open>C29: Every constructor establishes the builder invariant: a builder made from any program of one
  byte to one MiB and any checkpoint of the mutable image, for the clean profile or for a DMG
  profile, is consistent; a profile that is not a DMG one is refused.\<close>

theorem builder_constructors_ok:
  assumes "rom_image_new sha program = Inr rom" "memory_image_from_checkpoint sha bytes = Inr mem"
  shows "builder_ok sha (builder_new sha rom mem input) \<and> builder_ok sha (new_dmg_post_boot_mbc3 sha rom mem input) \<and>
    (case new_dmg_post_boot_mbc3_profile sha rom mem input profile of
       Inr b \<Rightarrow> is_dmg_post_boot_mbc3 profile \<and> builder_ok sha b
     | Inl e \<Rightarrow> profile = CleanCoreV1 \<and> e = TBE_State (UnsupportedMachineProfile profile))"
proof -
  have p: "program \<noteq> []" "length program \<le> 2 ^ 20"
    using assms(1) by (auto simp: rom_image_new_def ROM_BYTES_def split: if_splits)
  obtain n where n: "rom = rom_of sha (vec_resize n program)" "length program \<le> n" "tree_length_ok n"
    using rom_image_new_exact [OF p, of sha] assms(1) by auto
  have len: "tree_length_ok (length (vec_resize n program))" using n by (simp add: vec_resize_def)
  have mem: "length bytes = MUTABLE_COMMITMENT_BYTES" "mem = memory_of sha bytes"
    using assms(2) by (auto simp: memory_image_from_checkpoint_def memory_tree_exact split: if_splits)
  have "\<not> is_dmg_post_boot_mbc3 profile \<Longrightarrow> profile = CleanCoreV1" by (cases profile) simp_all
  then show ?thesis
    using builder_new_ok(1,2) [OF len mem(1), of sha input] builder_new_ok(3) [OF len mem(1), of profile sha input] n(1) mem(2)
    by (cases "is_dmg_post_boot_mbc3 profile")
       (auto simp: new_dmg_post_boot_mbc3_profile_def [of _ _ _ _ CleanCoreV1] vm_dmg_profile_initial_def)
qed

theorem builder_constructors_ok_witness:
  "builder_ok (\<lambda>_. 0) (builder_new (\<lambda>_. 0) (rom_of (\<lambda>_. 0) (vec_resize 65536 [0x76]))
     (memory_of (\<lambda>_. 0) (replicate 131072 0)) [7])"
proof -
  have "tree_length_ok 65536" using is_power_of_two_pow2 [of 16] by (simp add: tree_length_ok_def)
  then have "rom_image_new (\<lambda>_. 0) [0x76] = Inr (rom_of (\<lambda>_. 0) (vec_resize 65536 [0x76]))"
    by (simp add: rom_image_new_def ROM_BYTES_def checked_next_power_of_two_def CPU_ADDRESS_SPACE_BYTES_def
        tree_build_exact vec_resize_def rom_of_def)
  moreover have "memory_image_from_checkpoint (\<lambda>_. 0) (replicate 131072 0) = Inr (memory_of (\<lambda>_. 0) (replicate 131072 0))"
    by (simp add: memory_image_from_checkpoint_def MUTABLE_COMMITMENT_BYTES_def memory_tree_exact)
  ultimately show ?thesis using builder_constructors_ok [of "\<lambda>_. 0" "[0x76]" _ "replicate 131072 0"] by blast
qed

text \<open>C9: An exact run returns a validated witness of exactly the requested number of rows: the rows are
  accepted, contiguous, lead from the state before the call to the state after it, and are a run
  of the step relation. When it fails instead, the builder is still consistent, and the number of
  completed rows its error reports, if it reports one, is exactly how many were accepted to reach the
  state it rests on.\<close>

theorem run_exact_steps_sound:
  assumes "builder_ok sha b"
  shows "case run_exact_steps sha n b of
      (Inr w, b') \<Rightarrow>
        builder_ok sha b' \<and> wit_step_count w = n \<and> length (witness_rows w) = unat n \<and>
        wit_initial_state w = tb_state b \<and> wit_final_state w = tb_state b' \<and> builder_run sha b (witness_rows w) b' \<and>
        (\<exists>inputs. run_steps sha Auth_Merkle (tb_state b) inputs = Inr (tb_state b', map row_effects (witness_rows w)))
    | (Inl e, b') \<Rightarrow>
        builder_ok sha b' \<and>
        (case completed_exact_steps e of
           Some k \<Rightarrow> \<exists>rows. builder_run sha b rows b' \<and> length rows = unat k \<and> k < n
         | None \<Rightarrow> (e = TBE_ZeroStepChunk \<and> n = 0) \<or> e = TBE_Trace TE_MetricOverflow)"
proof -
  have stopped: "case completed_exact_steps e of
      Some k \<Rightarrow> \<exists>rows. builder_run sha b rows b' \<and> length rows = unat k \<and> k < n
    | None \<Rightarrow> (e = TBE_ZeroStepChunk \<and> n = 0) \<or> e = TBE_Trace TE_MetricOverflow"
    if "n = 0 \<and> e = TBE_ZeroStepChunk \<and> b' = b \<or> builder_runs.run_stops sha b n e b'" for e b'
    using that builder_retains.stops_completed [of sha b n e b' completed_exact_steps] by (auto split: option.splits)
  show ?thesis
    using builder_retains.retain_outcome [OF assms, of n] stopped by (auto split: prod.splits sum.splits)
qed

theorem run_exact_steps_sound_witness:
  "case run_exact_steps (\<lambda>_. 0) 3 (blank_builder (\<lambda>_. 0)) of
     (Inr w, b') \<Rightarrow> wit_step_count w = 3 \<and> length (witness_rows w) = 3
   | (Inl e, b') \<Rightarrow> builder_ok (\<lambda>_. 0) b'"
  using run_exact_steps_sound [OF blank_builder_ok [of "\<lambda>_. 0"], of 3] by (auto split: prod.splits sum.splits)

text \<open>A boundary run measures exactly what it ran: after an exact profiled run of n rows there are n
  accepted contiguous rows from the first to the last state of the boundary, each of the
  twenty-three counters is the number of those rows or events it names, and the histogram counts,
  per physical address, the instructions of those rows, under the program counter and bank they
  ran at.\<close>

theorem run_exact_boundary_measures:
  assumes "builder_ok sha b" "run_exact_boundary_profiled sha n b = (Inr (bnd, counts), b')"
  shows "\<exists>rows. builder_run sha b rows b' \<and> length rows = unat n \<and> contiguous rows \<and>
    (\<forall>row \<in> set rows. row_accepted sha Auth_Merkle row) \<and>
    bnd_step_count bnd = n \<and> bnd_initial_state bnd = tb_state b \<and> bnd_final_state bnd = tb_state b' \<and>
    list_all (\<lambda>(f, w). unat (f (bnd_metrics bnd)) = sum_list (map w rows)) metric_weights \<and>
    (\<forall>k. profile_count counts k = pc_hits k rows) \<and>
    (\<forall>row \<in> set rows. \<forall>c. profile_entry (physical_pc (row_before row), c) =
       Some \<lparr>pcc_pc = cpu_pc (vm_cpu (row_before row)), pcc_rom_bank = code_bank (row_before row),
             pcc_physical_pc = physical_pc (row_before row), pcc_count = c\<rparr>)"
proof -
  obtain rows where rows: "builder_run sha b rows b'" "length rows = unat n"
      "try_fold metrics_record metrics_default rows = Inr (bnd_metrics bnd)" "try_fold record_profile [] rows = Inr counts"
      "bnd_initial_state bnd = tb_state b" "bnd_final_state bnd = tb_state b'" "bnd_step_count bnd = n"
    using builder_runs.execute_Inr assms(2) unfolding run_exact_boundary_profiled_def by metis
  have p: "\<forall>k. profile_count counts k = pc_hits k rows"
    using rows(4) profile_fold unfolding record_profile_def by metis
  have m: "list_all (\<lambda>(f, w). unat (f (bnd_metrics bnd)) = sum_list (map w rows)) metric_weights"
    using metrics_exact [OF rows(3)] .
  have wf: "\<forall>row \<in> set rows. vm_wf (row_before row)" using builder_rows.run_wf [OF rows(1) assms(1)] .
  show ?thesis
    using rows(1,2,5,6,7) p m builder_rows.run_ok [OF rows(1) assms(1)] profile_entry_exact wf
    by (intro exI [of _ rows]) simp
qed

theorem run_exact_boundary_measures_witness:
  "\<exists>bnd counts b'. run_exact_boundary_profiled (\<lambda>_. 0) 1 halt_builder = (Inr (bnd, counts), b') \<and>
     bnd_step_count bnd = 1 \<and> bnd_initial_state bnd = tb_state halt_builder \<and>
     (\<exists>rows. length rows = 1 \<and> (\<forall>k. profile_count counts k = pc_hits k rows))"
proof -
  obtain bnd counts b' where run: "run_exact_boundary_profiled (\<lambda>_. 0) 1 halt_builder = (Inr (bnd, counts), b')"
    using halt_boundary_run .
  from run_exact_boundary_measures [OF halt_builder_facts(1) run] obtain rows where
    "length rows = 1" "bnd_step_count bnd = 1" "bnd_initial_state bnd = tb_state halt_builder"
    "\<forall>k. profile_count counts k = pc_hits k rows" by auto
  with run show ?thesis by blast
qed

text \<open>A milestone run stops at the first accepted row whose state satisfies the predicate: the rows
  before it do not satisfy it, no more rows than the bound are run, and the boundary counts
  exactly those rows.\<close>

theorem run_until_boundary_first:
  assumes "builder_ok sha b" "run_until_boundary sha reached bound r b = (Inr bnd, b')"
  shows "\<exists>rows. builder_run sha b rows b' \<and> contiguous rows \<and> length rows \<le> unat bound \<and>
    first_reached reached r (map row_after rows) \<and> builder_ok sha b' \<and>
    bnd_initial_state bnd = tb_state b \<and> bnd_final_state bnd = tb_state b' \<and>
    unat (bnd_step_count bnd) = length rows \<and>
    list_all (\<lambda>(f, w). unat (f (bnd_metrics bnd)) = sum_list (map w rows)) metric_weights"
proof -
  have "until_loop sha reached (\<lambda>_ _. Inr ()) 0 bound (tb_state b) b metrics_default r () = (Inr (bnd, ()), b')"
    using assms(2) by (auto simp: run_until_boundary_def execute_until_def split: if_splits prod.splits sum.splits)
  from builder_runs.until_Inr [OF this assms(1)] obtain rows where rows: "builder_run sha b rows b'" "length rows \<le> unat bound"
      "first_reached reached r (map row_after rows)" "try_fold metrics_record metrics_default rows = Inr (bnd_metrics bnd)"
      "bnd = boundary_from_exact (tb_state b) (tb_state b') (bnd_metrics bnd)" by auto
  have b: "bnd_initial_state bnd = tb_state b" "bnd_final_state bnd = tb_state b'"
      "bnd_step_count bnd = met_relation_steps (bnd_metrics bnd)"
    by (subst rows(5), simp add: boundary_from_exact_def)+
  have "list_all (\<lambda>(f, w). unat (f (bnd_metrics bnd)) = sum_list (map w rows)) metric_weights"
    using metrics_exact [OF rows(4)] .
  moreover have "unat (bnd_step_count bnd) = length rows"
    using metrics_steps [OF rows(4)] b(3) by (simp add: metrics_default_def)
  ultimately show ?thesis using rows(1-3) b builder_rows.run_ok [OF rows(1) assms(1)] by blast
qed

theorem run_until_boundary_first_witness:
  "\<exists>bnd b'. run_until_boundary (\<lambda>_. 0) (\<lambda>r s. (cpu_run_state (vm_cpu s) = Halted, r)) 8 () halt_builder = (Inr bnd, b') \<and>
     builder_ok (\<lambda>_. 0) b' \<and> bnd_initial_state bnd = tb_state halt_builder"
proof -
  obtain bnd b' where run: "run_until_boundary (\<lambda>_. 0) (\<lambda>r s. (cpu_run_state (vm_cpu s) = Halted, r)) 8 () halt_builder = (Inr bnd, b')"
    using halt_until_run .
  with run_until_boundary_first [OF halt_builder_facts(1) run] show ?thesis by blast
qed

text \<open>C28: A run to completion that returns a witness consumed the whole private input, took at most the
  bound, did not end in the running state, and its rows are a contiguous accepted trace from the
  first state to the last.\<close>

theorem run_builder_complete:
  assumes "builder_ok sha b" "run_builder sha b bound = Inr w"
  shows "\<exists>b'. builder_run sha b (witness_rows w) b' \<and> builder_ok sha b' \<and>
    length (witness_rows w) = unat (wit_step_count w) \<and> wit_step_count w \<le> bound \<and>
    wit_initial_state w = tb_state b \<and> wit_final_state w = tb_state b' \<and>
    cpu_run_state (vm_cpu (tb_state b')) \<noteq> Running \<and> consumed_input b' = tb_private_input b \<and>
    log_commit sha Log_Input (tb_private_input b) = Inr (vm_input_log (wit_final_state w))"
proof -
  obtain rows b' where r: "run_loop sha (unat bound) b [] = Inr (rows, b')" "cpu_run_state (vm_cpu (tb_state b')) \<noteq> Running"
      "u64_try_from (length (tb_private_input b')) = Some (log_next_index (vm_input_log (tb_state b')))"
      "witness_from_rows rows = Inr w"
    using assms(2) by (auto simp: run_builder_def Let_def split: if_splits)
  have run: "builder_run sha b rows b'" "length rows \<le> unat bound" using run_loop_Inr [OF r(1)] by auto
  note ok = builder_rows.run_ok [OF run(1) assms(1)]
  have "rows \<noteq> []" using r(4) by (auto simp: witness_from_rows_def trace_chunk_new_def)
  moreover have len: "length rows < 2 ^ 64" using run(2) unat_less_u64 [of bound] by (simp del: unat_less_u64)
  ultimately have w: "witness_rows w = rows" "unat (wit_step_count w) = length rows" "wit_initial_state w = tb_state b"
      "wit_final_state w = tb_state b'"
    using builder_rows.run_witness [OF run(1) assms(1)] r(4) by auto
  have "unat (log_next_index (vm_input_log (tb_state b'))) = length (tb_private_input b')"
    using r(3) by (auto simp: u64_try_from_def unat_of_nat split: if_splits dest: sym)
  then have "consumed_input b' = tb_private_input b" using ok by (simp add: consumed_input_def consumed_prefix_def)
  then show ?thesis
    using w ok run r(2) by (intro exI [of _ b']) (auto simp: builder_ok_def input_committed_def consumed_input_def word_le_nat_alt)
qed

theorem run_builder_complete_witness:
  "\<exists>w. run_builder (\<lambda>_. 0) halt_builder 8 = Inr w \<and> wit_initial_state w = tb_state halt_builder \<and> wit_step_count w \<le> 8"
proof -
  obtain w where run: "run_builder (\<lambda>_. 0) halt_builder 8 = Inr w" using halt_complete_run .
  with run_builder_complete [OF halt_builder_facts(1) run] show ?thesis by blast
qed

text \<open>C10: A checkpoint restores the builder: after any run of a consistent builder, successful or not, the
  checkpoint bytes rebuild the memory image and resuming from them with the same ROM, the same
  private input and the current state gives back exactly that builder.\<close>

theorem checkpoint_resume_roundtrip:
  assumes "builder_ok sha b" "length (tb_private_input b) < 2 ^ 64" "run_exact_steps sha n b = (result, b')"
  shows "memory_image_from_checkpoint sha (checkpoint_memory b') = Inr (tb_memory b') \<and>
    resume sha (tb_rom b) (tb_memory b') (tb_private_input b) (tb_state b') = Inr b'"
proof -
  obtain rows where "builder_run sha b rows b'" using builder_retains.retain_rows [OF assms(1,3)] by blast
  from builder_rows.run_ok [OF this assms(1)] have ok: "builder_ok sha b'" "tb_rom b' = tb_rom b" "tb_private_input b' = tb_private_input b"
    by simp_all
  with assms(2) checkpoint_restores [OF ok(1)] show ?thesis
    by (cases b') (simp add: resume_iff builder_ok_def input_committed_def consumed_prefix_def)
qed

theorem checkpoint_resume_roundtrip_witness:
  "resume (\<lambda>_. 0) (tb_rom halt_builder) (tb_memory (snd (run_exact_steps (\<lambda>_. 0) 5 halt_builder))) []
     (tb_state (snd (run_exact_steps (\<lambda>_. 0) 5 halt_builder))) = Inr (snd (run_exact_steps (\<lambda>_. 0) 5 halt_builder))"
  using checkpoint_resume_roundtrip [OF halt_builder_facts(1) _ surjective_pairing, of 5] by (simp add: halt_builder_facts(3))

section \<open>Validated witnesses\<close>

text \<open>C30: Validation is exact. A chunk is built exactly from a non-empty contiguous list of rows, and a
  refusal names the first break. Validated chunks form a witness exactly when there is one, their
  rows join without a gap and the row count fits the counter; the witness then carries all the
  rows, its end states and their number, and when the rows are accepted ones it is a run of the
  step relation from its first to its last state.\<close>

theorem witness_validation_exact:
  "(trace_chunk_new rows =
      (if rows = [] then Inl TE_EmptyChunk
       else if contiguous rows then Inr \<lparr>chunk_rows = rows\<rparr>
       else Inl (TE_DiscontinuousRow
         (LEAST i. Suc i < length rows \<and> row_after (rows ! i) \<noteq> row_before (rows ! Suc i))))) \<and>
   ((\<forall>c \<in> set chunks. chunk_valid c) \<longrightarrow>
      is_ok (witness_new chunks) = (chunks \<noteq> [] \<and> contiguous (concat (map chunk_rows chunks)) \<and>
         length (concat (map chunk_rows chunks)) < 2 ^ 64) \<and>
      (\<forall>w. witness_new chunks = Inr w \<longrightarrow>
         witness_rows w = concat (map chunk_rows chunks) \<and> unat (wit_step_count w) = length (witness_rows w) \<and>
         ((\<forall>row \<in> set (witness_rows w). row_accepted sha auth row) \<longrightarrow>
            (\<exists>inputs. length inputs = unat (wit_step_count w) \<and>
               run_steps sha auth (wit_initial_state w) inputs = Inr (wit_final_state w, map row_effects (witness_rows w))))))"
proof (intro conjI impI allI)
  show "trace_chunk_new rows =
      (if rows = [] then Inl TE_EmptyChunk
       else if contiguous rows then Inr \<lparr>chunk_rows = rows\<rparr>
       else Inl (TE_DiscontinuousRow (LEAST i. Suc i < length rows \<and> row_after (rows ! i) \<noteq> row_before (rows ! Suc i))))"
    by (simp add: trace_chunk_new_def check_row_pairs)
next
  assume valid: "\<forall>c \<in> set chunks. chunk_valid c"
  note iff = witness_new_Inr [OF valid]
  let ?rows = "concat (map chunk_rows chunks)"
  let ?w = "\<lparr>wit_chunks = chunks, wit_initial_state = row_before (hd ?rows), wit_final_state = row_after (last ?rows),
    wit_step_count = word_of_nat (length ?rows)\<rparr>"
  have "witness_new chunks = Inr ?w" if "chunks \<noteq> []" "contiguous ?rows" "length ?rows < 2 ^ 64"
    using that by (subst iff) (simp add: witness_rows_def unat_of_nat)
  then show "is_ok (witness_new chunks) = (chunks \<noteq> [] \<and> contiguous ?rows \<and> length ?rows < 2 ^ 64)"
    using iff by (cases "witness_new chunks") auto
  fix w assume w: "witness_new chunks = Inr w"
  show rows: "witness_rows w = ?rows" and "unat (wit_step_count w) = length (witness_rows w)"
    using w iff by (auto simp: witness_rows_def)
  assume "\<forall>row \<in> set (witness_rows w). row_accepted sha auth row"
  moreover have "?rows \<noteq> []" using w iff valid chunk_validD by (cases chunks) auto
  ultimately show "\<exists>inputs. length inputs = unat (wit_step_count w) \<and>
      run_steps sha auth (wit_initial_state w) inputs = Inr (wit_final_state w, map row_effects (witness_rows w))"
    using contiguous_run [of "witness_rows w" sha auth] w iff rows by auto
qed

theorem witness_validation_exact_witness:
  "\<exists>row w. row_accepted (\<lambda>_. 0) Auth_Merkle row \<and> witness_new [\<lparr>chunk_rows = [row]\<rparr>] = Inr w \<and> witness_rows w = [row] \<and>
     (\<exists>inputs. run_steps (\<lambda>_. 0) Auth_Merkle (wit_initial_state w) inputs = Inr (wit_final_state w, [row_effects row]))"
proof -
  obtain row where row: "row_accepted (\<lambda>_. 0) Auth_Merkle row" using store_accepted_row .
  have "\<forall>c \<in> set [\<lparr>chunk_rows = [row]\<rparr>]. chunk_valid c" by (simp add: chunk_valid_def trace_chunk_new_Inr)
  moreover from this obtain w where "witness_new [\<lparr>chunk_rows = [row]\<rparr>] = Inr w"
    using witness_validation_exact [of "[]" "[\<lparr>chunk_rows = [row]\<rparr>]" "\<lambda>_. 0" Auth_Merkle]
    by (auto simp: is_ok_def split: sum.splits)
  ultimately show ?thesis
    using row witness_validation_exact [of "[]" "[\<lparr>chunk_rows = [row]\<rparr>]" "\<lambda>_. 0" Auth_Merkle]
    by (intro exI [of _ row] exI [of _ w]) auto
qed

section \<open>Packed blocks\<close>

text \<open>C11: Packing an accepted contiguous witness never fails: the blocks cover its rows in order without
  gap or overlap, a machine event stands alone, every other block has one to four instructions, at
  most six M-cycles and five bus events, stops for the reason it reports, and routes each
  instruction to its own lane and each M-cycle and event slot to the lane that owns it.\<close>

theorem block_packing_exact:
  assumes "contiguous (witness_rows w)" "\<forall>row \<in> set (witness_rows w). row_accepted sha auth row"
    "offset + length (witness_rows w) < 2 ^ 64"
  shows "\<exists>spans blocks. plan_witness_basic_blocks w = Inr spans \<and> spans_cover (witness_rows w) 0 spans \<and>
    pack_witness_basic_blocks_at w offset = Inr blocks \<and> concat (map bb_rows blocks) = witness_rows w \<and>
    list_all2 (block_matches (witness_rows w) offset) spans blocks \<and>
    (\<forall>b \<in> set blocks. length (bb_lanes b) = 4 \<and> length (bb_m_cycle_owners b) = 6 \<and> length (bb_bus_event_owners b) = 5)"
proof -
  have pl: "\<forall>row \<in> set (witness_rows w). plannable row" using assms(2) row_accepted_plannable by blast
  obtain spans where spans: "plan_basic_blocks (witness_rows w) = Inr spans" "spans_cover (witness_rows w) 0 spans"
    using plan_basic_blocks_exact [OF assms(1) pl] by blast
  obtain blocks where blocks: "pack_spans offset (witness_rows w) spans = Inr blocks" "concat (map bb_rows blocks) = witness_rows w"
      "list_all2 (block_matches (witness_rows w) offset) spans blocks"
    using pack_spans_exact [OF spans(2) pl assms(3)] by auto
  have "\<forall>b \<in> set blocks. length (bb_lanes b) = 4 \<and> length (bb_m_cycle_owners b) = 6 \<and> length (bb_bus_event_owners b) = 5"
    using blocks_slots [OF spans(2) blocks(3)] .
  with spans blocks show ?thesis
    by (simp add: plan_witness_basic_blocks_def pack_witness_basic_blocks_at_def)
qed

theorem block_packing_exact_witness:
  "\<exists>row blocks. row_accepted (\<lambda>_. 0) Auth_Merkle row \<and>
     pack_witness_basic_blocks_at \<lparr>wit_chunks = [\<lparr>chunk_rows = [row]\<rparr>], wit_initial_state = row_before row,
       wit_final_state = row_after row, wit_step_count = 1\<rparr> 7 = Inr blocks \<and> concat (map bb_rows blocks) = [row]"
proof -
  obtain row where row: "row_accepted (\<lambda>_. 0) Auth_Merkle row" using store_accepted_row .
  let ?w = "\<lparr>wit_chunks = [\<lparr>chunk_rows = [row]\<rparr>], wit_initial_state = row_before row, wit_final_state = row_after row, wit_step_count = 1\<rparr>"
  have "witness_rows ?w = [row]" by (simp add: witness_rows_def)
  then show ?thesis using row block_packing_exact [of ?w "\<lambda>_. 0" Auth_Merkle 7] by auto
qed

end
