(* ===== verification/Lookup_Builder.thy ===== *)
theory Lookup_Builder
  imports Trace_Builder
begin

text \<open>
  The plain-byte prover adapter (\<open>zksm83-trace/src/lookup_builder.rs\<close>): it runs the lookup-backed
  relation over two byte arrays, with placeholder paths and fixed root anchors, and leaves the
  accesses to an enclosing lookup-memory proof.  Its private \<open>PlannedWitness\<close> is the enumeration
  of the Merkle adapter.  Conversions from \<open>u32\<close> and \<open>u64\<close> to \<open>usize\<close> cannot fail at 64 bits, so
  their errors have no branch.
\<close>

section \<open>Data\<close>

definition LOOKUP_ROM_BYTES :: nat where
  "LOOKUP_ROM_BYTES = 2 ^ 20"

definition LOOKUP_MEMORY_BYTES :: nat where
  "LOOKUP_MEMORY_BYTES = 2 ^ 17"

definition LOOKUP_SRAM_START :: nat where
  "LOOKUP_SRAM_START = 2 ^ 16"

definition LOOKUP_SRAM_BYTES :: nat where
  "LOOKUP_SRAM_BYTES = 2 ^ 15"

definition LOOKUP_MAX_WITNESSES :: nat where
  "LOOKUP_MAX_WITNESSES = 5"

record lookup_builder =
  lb_rom :: "u8 list"
  lb_memory :: "u8 list"
  lb_private_input :: "u8 list"
  lb_state :: vm_state

datatype lookup_builder_error =
    LBE_EmptyRom
  | LBE_RomTooLarge nat nat
  | LBE_MemoryLength nat nat
  | LBE_PhysicalAddressOutOfRange u32
  | LBE_AddressOverflow
  | LBE_InputExhausted u64
  | LBE_InputIndexOverflow
  | LBE_WitnessBoundExceeded nat
  | LBE_WitnessPlanInvariant
  | LBE_Step step_error
  | LBE_State vm_state_error
  | LBE_MemoryEffectDivergence
  | LBE_ZeroStepChunk
  | LBE_StepCountOverflow
  | LBE_CheckpointProfileMismatch
  | LBE_CheckpointTranscriptNotEmpty
  | LBE_CheckpointInputTooShort u64 u64
  | LBE_CheckpointInputRootMismatch
  | LBE_InputCommitment log_error
  | LBE_TerminatedBeforeExactSteps u64 u64 run_state
  | LBE_MilestoneNotReached u64
  | LBE_ExactStepFailed u64 u16 lookup_builder_error
  | LBE_Trace trace_error

section \<open>Construction\<close>

text \<open>The dimension checks both constructors start with.\<close>

definition lb_check_tables :: "u8 list \<Rightarrow> u8 list \<Rightarrow> lookup_builder_error + unit" where
  "lb_check_tables rom memory =
     (if rom = [] then Inl LBE_EmptyRom
      else if length rom > LOOKUP_ROM_BYTES then Inl (LBE_RomTooLarge (length rom) LOOKUP_ROM_BYTES)
      else if length memory \<noteq> LOOKUP_MEMORY_BYTES then Inl (LBE_MemoryLength (length memory) LOOKUP_MEMORY_BYTES)
      else Inr ())"

definition lb_new_profile ::
  "digest \<Rightarrow> u8 list \<Rightarrow> u8 list \<Rightarrow> u8 list \<Rightarrow> commitment_root \<Rightarrow> commitment_root \<Rightarrow> machine_profile \<Rightarrow>
     lookup_builder_error + lookup_builder" where
  "lb_new_profile sha rom memory private_input rom_root memory_root_anchor profile =
     and_then (lb_check_tables rom memory) (\<lambda>_.
     and_then (map_err LBE_State (vm_dmg_profile_initial sha profile rom_root memory_root_anchor)) (\<lambda>state.
       Inr \<lparr>lb_rom = vec_resize LOOKUP_ROM_BYTES rom, lb_memory = memory, lb_private_input = private_input, lb_state = state\<rparr>))"

definition lb_new ::
  "digest \<Rightarrow> u8 list \<Rightarrow> u8 list \<Rightarrow> u8 list \<Rightarrow> commitment_root \<Rightarrow> commitment_root \<Rightarrow> lookup_builder_error + lookup_builder" where
  "lb_new sha rom memory private_input rom_root memory_root_anchor =
     lb_new_profile sha rom memory private_input rom_root memory_root_anchor DmgPostBootMbc3V1"

definition validate_input_prefix :: "digest \<Rightarrow> u8 list \<Rightarrow> vm_state \<Rightarrow> lookup_builder_error + unit" where
  "validate_input_prefix sha private_input state =
     and_then (ok_or LBE_InputIndexOverflow (u64_try_from (length private_input))) (\<lambda>provided.
       let consumed = log_next_index (vm_input_log state) in
       if consumed > provided then Inl (LBE_CheckpointInputTooShort consumed provided)
       else
         and_then (ok_or (LBE_CheckpointInputTooShort consumed provided)
             (vec_slice private_input 0 (unat consumed))) (\<lambda>prefix.
         and_then (map_err LBE_InputCommitment (log_commit sha Log_Input prefix)) (\<lambda>committed.
           if committed \<noteq> vm_input_log state then Inl LBE_CheckpointInputRootMismatch else Inr ())))"

definition lb_resume :: "digest \<Rightarrow> u8 list \<Rightarrow> u8 list \<Rightarrow> u8 list \<Rightarrow> vm_state \<Rightarrow> lookup_builder_error + lookup_builder" where
  "lb_resume sha rom memory private_input state =
     and_then (lb_check_tables rom memory) (\<lambda>_.
       if \<not> is_dmg_post_boot_mbc3 (vm_profile state) then Inl LBE_CheckpointProfileMismatch
       else if bt_next_index (vm_bus_transcript state) \<noteq> 0 \<or> it_next_index (vm_isa_transcript state) \<noteq> 0
       then Inl LBE_CheckpointTranscriptNotEmpty
       else
         and_then (validate_input_prefix sha private_input state) (\<lambda>_.
           Inr \<lparr>lb_rom = vec_resize LOOKUP_ROM_BYTES rom, lb_memory = memory, lb_private_input = private_input, lb_state = state\<rparr>))"

definition lb_checkpoint_memory :: "lookup_builder \<Rightarrow> u8 list" where
  "lb_checkpoint_memory b = lb_memory b"

definition lb_battery_sram :: "lookup_builder \<Rightarrow> lookup_builder_error + u8 list" where
  "lb_battery_sram b =
     and_then (ok_or LBE_AddressOverflow (usize_checked_add LOOKUP_SRAM_START LOOKUP_SRAM_BYTES)) (\<lambda>stop.
       ok_or LBE_AddressOverflow (vec_slice (lb_memory b) LOOKUP_SRAM_START stop))"

section \<open>Bytes\<close>

definition lb_byte :: "u8 list \<Rightarrow> u32 \<Rightarrow> lookup_builder_error + u8" where
  "lb_byte bytes address = ok_or (LBE_PhysicalAddressOutOfRange address) (vec_get bytes (unat address))"

definition lb_set_byte :: "u8 list \<Rightarrow> u32 \<Rightarrow> u8 \<Rightarrow> lookup_builder_error + u8 list" where
  "lb_set_byte bytes address v = ok_or (LBE_PhysicalAddressOutOfRange address) (vec_set bytes (unat address) v)"

definition rom_byte :: "lookup_builder \<Rightarrow> u32 \<Rightarrow> lookup_builder_error + u8" where
  "rom_byte b physical_address = lb_byte (lb_rom b) physical_address"

definition memory_byte :: "lookup_builder \<Rightarrow> u32 \<Rightarrow> lookup_builder_error + u8" where
  "memory_byte b physical_address = lb_byte (lb_memory b) physical_address"

section \<open>Witness plans\<close>

text \<open>\<open>iter().rev().find_map(..)\<close> over the writes planned before.\<close>

fun planned_value :: "u32 \<Rightarrow> planned_witness \<Rightarrow> u8 option" where
  "planned_value physical_address (PW_MemoryWrite _ address v) = (if address = physical_address then Some v else None)"
| "planned_value physical_address _ = None"

fun find_map :: "('a \<Rightarrow> 'b option) \<Rightarrow> 'a list \<Rightarrow> 'b option" where
  "find_map f [] = None"
| "find_map f (x # xs) = (case f x of Some y \<Rightarrow> Some y | None \<Rightarrow> find_map f xs)"

definition planned_memory_byte :: "lookup_builder \<Rightarrow> planned_witness list \<Rightarrow> u32 \<Rightarrow> lookup_builder_error + u8" where
  "planned_memory_byte b preceding physical_address =
     (case find_map (planned_value physical_address) (rev preceding) of
        Some v \<Rightarrow> Inr v
      | None \<Rightarrow> memory_byte b physical_address)"

fun lb_materialize_one :: "lookup_builder \<Rightarrow> planned_witness list \<Rightarrow> planned_witness \<Rightarrow> lookup_builder_error + bus_witness" where
  "lb_materialize_one b preceding (PW_Rom address physical_address) =
     and_then (rom_byte b physical_address) (\<lambda>v.
       Inr (Wit_Rom \<lparr>rr_address = address, rr_physical_address = physical_address, rr_value = v, rr_path = lookup_placeholder\<rparr>))"
| "lb_materialize_one b preceding (PW_MemoryRead address physical_address) =
     and_then (planned_memory_byte b preceding physical_address) (\<lambda>v.
       Inr (Wit_MemoryRead \<lparr>mr_address = address, mr_physical_address = physical_address, mr_value = v,
         mr_path = lookup_placeholder\<rparr>))"
| "lb_materialize_one b preceding (PW_MemoryWrite address physical_address v) =
     and_then (planned_memory_byte b preceding physical_address) (\<lambda>before.
       Inr (Wit_MemoryWrite \<lparr>mw_address = address, mw_physical_address = physical_address, mw_before = before, mw_after = v,
         mw_path = lookup_placeholder\<rparr>))"
| "lb_materialize_one b preceding (PW_InputByte v) = Inr (Wit_InputByte v)"

text \<open>\<open>plan.get(..index)\<close>.\<close>

definition vec_prefix :: "'a list \<Rightarrow> nat \<Rightarrow> 'a list option" where
  "vec_prefix xs n = (if n \<le> length xs then Some (take n xs) else None)"

fun lb_materialize_loop ::
  "lookup_builder \<Rightarrow> planned_witness list \<Rightarrow> nat \<Rightarrow> planned_witness list \<Rightarrow> lookup_builder_error + bus_witness list" where
  "lb_materialize_loop b plan index [] = Inr []"
| "lb_materialize_loop b plan index (planned # rest) =
     and_then (ok_or LBE_WitnessPlanInvariant (vec_prefix plan index)) (\<lambda>preceding.
     and_then (lb_materialize_one b preceding planned) (\<lambda>w.
     and_then (lb_materialize_loop b plan (Suc index) rest) (\<lambda>ws. Inr (w # ws))))"

definition lb_materialize :: "lookup_builder \<Rightarrow> planned_witness list \<Rightarrow> lookup_builder_error + step_input" where
  "lb_materialize b plan = and_then (lb_materialize_loop b plan 0 plan) (\<lambda>ws. Inr \<lparr>input_witnesses = ws\<rparr>)"

fun lb_plan :: "lookup_builder \<Rightarrow> witness_request \<Rightarrow> planned_witness list \<Rightarrow> lookup_builder_error + planned_witness" where
  "lb_plan b (Req_Rom address physical_address _) existing = Inr (PW_Rom address physical_address)"
| "lb_plan b (Req_MemoryRead address physical_address) existing = Inr (PW_MemoryRead address physical_address)"
| "lb_plan b (Req_MemoryWrite address physical_address v) existing = Inr (PW_MemoryWrite address physical_address v)"
| "lb_plan b Req_InputByte existing =
     and_then (ok_or LBE_InputIndexOverflow (u64_try_from (length (filter is_planned_input existing)))) (\<lambda>prior.
     and_then (ok_or LBE_InputIndexOverflow (checked_add (log_next_index (vm_input_log (lb_state b))) prior)) (\<lambda>index.
     and_then (ok_or (LBE_InputExhausted index) (vec_get (lb_private_input b) (unat index))) (\<lambda>v.
       Inr (PW_InputByte v))))"

section \<open>Steps\<close>

text \<open>An error part-way leaves the writes made before it.\<close>

fun apply_memory_effects :: "u8 list \<Rightarrow> bus_event list \<Rightarrow> (lookup_builder_error + unit) \<times> u8 list" where
  "apply_memory_effects memory [] = (Inr (), memory)"
| "apply_memory_effects memory (e # es) =
     (case write_effect e of
        None \<Rightarrow> apply_memory_effects memory es
      | Some w \<Rightarrow>
          (case lb_byte memory (mw_physical_address w) of
             Inl err \<Rightarrow> (Inl err, memory)
           | Inr before \<Rightarrow>
               if before \<noteq> mw_before w then (Inl LBE_MemoryEffectDivergence, memory)
               else
                 (case lb_set_byte memory (mw_physical_address w) (mw_after w) of
                    Inl err \<Rightarrow> (Inl err, memory)
                  | Inr memory' \<Rightarrow> apply_memory_effects memory' es)))"

definition lb_accept_step ::
  "lookup_builder \<Rightarrow> vm_state \<Rightarrow> step_effects \<Rightarrow> (lookup_builder_error + trace_row) \<times> lookup_builder" where
  "lb_accept_step b after effects =
     (case apply_memory_effects (lb_memory b) (eff_bus_events effects) of
        (Inl e, memory) \<Rightarrow> (Inl e, b\<lparr>lb_memory := memory\<rparr>)
      | (Inr _, memory) \<Rightarrow>
          (Inr (trace_row_from_accepted (lb_state b) after effects), b\<lparr>lb_memory := memory, lb_state := after\<rparr>))"

function lb_step_loop ::
  "digest \<Rightarrow> lookup_builder \<Rightarrow> planned_witness list \<Rightarrow> (lookup_builder_error + trace_row) \<times> lookup_builder" where
  "lb_step_loop sha b plan =
     (case lb_materialize b plan of
        Inl e \<Rightarrow> (Inl e, b)
      | Inr input \<Rightarrow>
          (case lookup_step_apply sha (lb_state b) input of
             Inr (after, effects) \<Rightarrow> lb_accept_step b after effects
           | Inl (MissingWitness request) \<Rightarrow>
               if length plan \<ge> LOOKUP_MAX_WITNESSES
               then (Inl (LBE_WitnessBoundExceeded LOOKUP_MAX_WITNESSES), b)
               else
                 (case lb_plan b request plan of
                    Inl e \<Rightarrow> (Inl e, b)
                  | Inr p \<Rightarrow> lb_step_loop sha b (plan @ [p]))
           | Inl e \<Rightarrow> (Inl (LBE_Step e), b)))"
  by pat_completeness auto
termination
  by (relation "measure (\<lambda>(sha, b, plan). LOOKUP_MAX_WITNESSES - length plan)") auto

declare lb_step_loop.simps [simp del]

definition lb_step :: "digest \<Rightarrow> lookup_builder \<Rightarrow> (lookup_builder_error + trace_row) \<times> lookup_builder" where
  "lb_step sha b = lb_step_loop sha b []"

section \<open>Runs\<close>

definition lb_require_exact_row :: "lookup_builder \<Rightarrow> u64 \<Rightarrow> u64 \<Rightarrow> lookup_builder_error + unit" where
  "lb_require_exact_row b completed requested =
     (let run_state = cpu_run_state (vm_cpu (lb_state b)) in
      if can_execute_instruction run_state \<or> run_state = Halted then Inr ()
      else Inl (LBE_TerminatedBeforeExactSteps completed requested run_state))"

definition lb_exact_step :: "digest \<Rightarrow> u64 \<Rightarrow> lookup_builder \<Rightarrow> (lookup_builder_error + trace_row) \<times> lookup_builder" where
  "lb_exact_step sha completed b =
     (case lb_step sha b of
        (Inl source, b') \<Rightarrow> (Inl (LBE_ExactStepFailed completed (cpu_pc (vm_cpu (lb_state b))) source), b')
      | (Inr row, b') \<Rightarrow> (Inr row, b'))"

type_synonym 'a lb_acceptor = "'a \<Rightarrow> trace_row \<Rightarrow> lookup_builder_error + 'a"

text \<open>One round of the loop: the guard, the step, the metrics, the caller's closure.\<close>

definition lb_exact_row ::
  "digest \<Rightarrow> 'a lb_acceptor \<Rightarrow> u64 \<Rightarrow> u64 \<Rightarrow> lookup_builder \<Rightarrow> execution_metrics \<Rightarrow> 'a \<Rightarrow>
     (lookup_builder_error + (execution_metrics \<times> 'a)) \<times> lookup_builder" where
  "lb_exact_row sha accept completed requested b metrics acc =
     (case lb_require_exact_row b completed requested of
        Inl e \<Rightarrow> (Inl e, b)
      | Inr _ \<Rightarrow>
          (case lb_exact_step sha completed b of
             (Inl e, b') \<Rightarrow> (Inl e, b')
           | (Inr row, b') \<Rightarrow>
               (and_then (map_err LBE_Trace (metrics_record metrics row)) (\<lambda>metrics'.
                and_then (accept acc row) (\<lambda>acc'. Inr (metrics', acc'))), b')))"

function lb_exact_loop ::
  "digest \<Rightarrow> 'a lb_acceptor \<Rightarrow> nat \<Rightarrow> u64 \<Rightarrow> lookup_builder \<Rightarrow> execution_metrics \<Rightarrow> 'a \<Rightarrow>
     (lookup_builder_error + (execution_metrics \<times> 'a)) \<times> lookup_builder" where
  "lb_exact_loop sha accept completed step_count b metrics acc =
     (if completed < unat step_count then
        (case lb_exact_row sha accept (word_of_nat completed) step_count b metrics acc of
           (Inl e, b') \<Rightarrow> (Inl e, b')
         | (Inr (metrics', acc'), b') \<Rightarrow> lb_exact_loop sha accept (Suc completed) step_count b' metrics' acc')
      else (Inr (metrics, acc), b))"
  by pat_completeness auto
termination
  by (relation "measure (\<lambda>(sha, accept, completed, step_count, b, metrics, acc). unat step_count - completed)") auto

declare lb_exact_loop.simps [simp del]

definition lb_execute_exact ::
  "digest \<Rightarrow> 'a lb_acceptor \<Rightarrow> u64 \<Rightarrow> lookup_builder \<Rightarrow> 'a \<Rightarrow>
     (lookup_builder_error + (execution_boundary \<times> 'a)) \<times> lookup_builder" where
  "lb_execute_exact sha accept step_count b acc =
     (if step_count = 0 then (Inl LBE_ZeroStepChunk, b)
      else
        (case lb_exact_loop sha accept 0 step_count b metrics_default acc of
           (Inl e, b') \<Rightarrow> (Inl e, b')
         | (Inr (metrics, acc'), b') \<Rightarrow> (Inr (boundary_from_exact (lb_state b) (lb_state b') metrics, acc'), b')))"

function lb_until_loop ::
  "digest \<Rightarrow> 'r milestone \<Rightarrow> 'a lb_acceptor \<Rightarrow> nat \<Rightarrow> u64 \<Rightarrow> vm_state \<Rightarrow> lookup_builder \<Rightarrow> execution_metrics \<Rightarrow> 'r \<Rightarrow> 'a \<Rightarrow>
     (lookup_builder_error + (execution_boundary \<times> 'a)) \<times> lookup_builder" where
  "lb_until_loop sha reached accept completed step_bound initial_state b metrics r acc =
     (if completed < unat step_bound then
        (case lb_exact_row sha accept (word_of_nat completed) step_bound b metrics acc of
           (Inl e, b') \<Rightarrow> (Inl e, b')
         | (Inr (metrics', acc'), b') \<Rightarrow>
             (case reached r (lb_state b') of
                (True, _) \<Rightarrow> (Inr (boundary_from_exact initial_state (lb_state b') metrics', acc'), b')
              | (False, r') \<Rightarrow>
                  lb_until_loop sha reached accept (Suc completed) step_bound initial_state b' metrics' r' acc'))
      else (Inl (LBE_MilestoneNotReached step_bound), b))"
  by pat_completeness auto
termination
  by (relation "measure (\<lambda>(sha, reached, accept, completed, step_bound, i, b, metrics, r, acc). unat step_bound - completed)") auto

declare lb_until_loop.simps [simp del]

definition lb_execute_until ::
  "digest \<Rightarrow> 'r milestone \<Rightarrow> 'a lb_acceptor \<Rightarrow> u64 \<Rightarrow> lookup_builder \<Rightarrow> 'r \<Rightarrow> 'a \<Rightarrow>
     (lookup_builder_error + (execution_boundary \<times> 'a)) \<times> lookup_builder" where
  "lb_execute_until sha reached accept step_bound b r acc =
     (if step_bound = 0 then (Inl LBE_ZeroStepChunk, b)
      else lb_until_loop sha reached accept 0 step_bound (lb_state b) b metrics_default r acc)"

definition lb_run_exact_steps :: "digest \<Rightarrow> u64 \<Rightarrow> lookup_builder \<Rightarrow> (lookup_builder_error + exec_witness) \<times> lookup_builder" where
  "lb_run_exact_steps sha step_count b =
     (case lb_execute_exact sha (\<lambda>rows row. Inr (rows @ [row])) step_count b [] of
        (Inl e, b') \<Rightarrow> (Inl e, b')
      | (Inr (_, rows), b') \<Rightarrow> (map_err LBE_Trace (witness_from_rows rows), b'))"

definition lb_run_exact_boundary ::
  "digest \<Rightarrow> u64 \<Rightarrow> lookup_builder \<Rightarrow> (lookup_builder_error + execution_boundary) \<times> lookup_builder" where
  "lb_run_exact_boundary sha step_count b =
     (case lb_execute_exact sha (\<lambda>_ _. Inr ()) step_count b () of
        (Inl e, b') \<Rightarrow> (Inl e, b')
      | (Inr (boundary, _), b') \<Rightarrow> (Inr boundary, b'))"

definition lb_record_profile :: "program_counter_profile lb_acceptor" where
  "lb_record_profile counts row = map_err LBE_Trace (profile_record counts row)"

definition lb_run_exact_boundary_profiled ::
  "digest \<Rightarrow> u64 \<Rightarrow> lookup_builder \<Rightarrow>
     (lookup_builder_error + (execution_boundary \<times> program_counter_profile)) \<times> lookup_builder" where
  "lb_run_exact_boundary_profiled sha step_count b = lb_execute_exact sha lb_record_profile step_count b []"

definition lb_run_until_boundary ::
  "digest \<Rightarrow> 'r milestone \<Rightarrow> u64 \<Rightarrow> 'r \<Rightarrow> lookup_builder \<Rightarrow> (lookup_builder_error + execution_boundary) \<times> lookup_builder" where
  "lb_run_until_boundary sha reached step_bound r b =
     (case lb_execute_until sha reached (\<lambda>_ _. Inr ()) step_bound b r () of
        (Inl e, b') \<Rightarrow> (Inl e, b')
      | (Inr (boundary, _), b') \<Rightarrow> (Inr boundary, b'))"

definition lb_run_until_boundary_profiled ::
  "digest \<Rightarrow> 'r milestone \<Rightarrow> u64 \<Rightarrow> 'r \<Rightarrow> lookup_builder \<Rightarrow>
     (lookup_builder_error + (execution_boundary \<times> program_counter_profile)) \<times> lookup_builder" where
  "lb_run_until_boundary_profiled sha reached step_bound r b =
     lb_execute_until sha reached lb_record_profile step_bound b r []"

end
