(* ===== verification/Lookup_Service.thy ===== *)
theory Lookup_Service
  imports Lookup_Builder Row_Runs
begin

text \<open>
  What the plain-byte adapter guarantees: a step of a consistent builder is accepted with bytes
  that are the current ones of its arrays, or fails for a reason of the machine or at the end of
  the private input; its roots and transcripts stay at their anchors; and its runs are those of
  the shared runner.
\<close>

section \<open>Answers from the arrays\<close>

definition lookup_paths :: path_source where
  "lookup_paths kind bytes i = lookup_placeholder"

text \<open>The last planned write to an address decides its byte.\<close>

lemma find_map_append: "find_map f (xs @ ys) = (case find_map f xs of None \<Rightarrow> find_map f ys | Some y \<Rightarrow> Some y)"
  by (induction xs) (auto split: option.splits)

lemma planned_byte_exact:
  assumes "length (lb_memory b) = 2 ^ 17" "unat i < 2 ^ 17"
  shows "planned_memory_byte b ps i = Inr (fold plan_apply ps (lb_memory b) ! unat i)"
proof (induction ps rule: rev_induct)
  case Nil
  show ?case using assms by (simp add: planned_memory_byte_def memory_byte_def lb_byte_def vec_get_def ok_or_def)
next
  case (snoc p ps)
  show ?case
  proof (cases p)
    case (PW_MemoryWrite a j v)
    show ?thesis
    proof (cases "j = i")
      case True
      with PW_MemoryWrite assms show ?thesis by (simp add: planned_memory_byte_def)
    next
      case False
      then have "unat j \<noteq> unat i" by (simp add: word_unat_eq_iff)
      with False PW_MemoryWrite snoc show ?thesis by (simp add: planned_memory_byte_def)
    qed
  qed (use snoc in \<open>simp_all add: planned_memory_byte_def\<close>)
qed

lemma lb_byte_iff: "lb_byte bs i = (if unat i < length bs then Inr (bs ! unat i) else Inl (LBE_PhysicalAddressOutOfRange i))"
  by (simp add: lb_byte_def vec_get_def ok_or_def)

lemma lb_materialize_one_exact:
  assumes "length (lb_memory b) = 2 ^ 17" "plan_ok (lb_rom b) p"
  shows "\<exists>w. lb_materialize_one b ps p = Inr w \<and> plan_answers lookup_paths (lb_rom b) (fold plan_apply ps (lb_memory b)) [p] = [w]"
  using assms by (cases p) (simp_all add: planned_byte_exact rom_byte_def lb_byte_iff lookup_paths_def)

lemma lb_materialize_loop_exact:
  assumes "length (lb_memory b) = 2 ^ 17" "\<forall>p \<in> set qs. plan_ok (lb_rom b) p"
  shows "lb_materialize_loop b (ps @ qs @ rest) (length ps) qs =
    Inr (plan_answers lookup_paths (lb_rom b) (fold plan_apply ps (lb_memory b)) qs)"
  using assms(2)
proof (induction qs arbitrary: ps)
  case (Cons q qs)
  then obtain w where w: "lb_materialize_one b ps q = Inr w"
      "plan_answers lookup_paths (lb_rom b) (fold plan_apply ps (lb_memory b)) [q] = [w]"
    using lb_materialize_one_exact [OF assms(1), of q ps] by auto
  have "plan_answers lookup_paths (lb_rom b) (fold plan_apply ps (lb_memory b)) (q # qs) =
      w # plan_answers lookup_paths (lb_rom b) (fold plan_apply (ps @ [q]) (lb_memory b)) qs"
    using w(2) plan_answers_append [of lookup_paths "lb_rom b" "fold plan_apply ps (lb_memory b)" "[q]" qs] by simp
  with Cons.IH [of "ps @ [q]"] Cons.prems w(1) show ?case by (simp add: vec_prefix_def ok_or_def)
qed simp

lemma lb_materialize_exact:
  assumes "length (lb_memory b) = 2 ^ 17" "\<forall>p \<in> set ps. plan_ok (lb_rom b) p"
  shows "lb_materialize b ps = Inr \<lparr>input_witnesses = plan_answers lookup_paths (lb_rom b) (lb_memory b) ps\<rparr>"
  using lb_materialize_loop_exact [OF assms, of "[]" "[]"] by (simp add: lb_materialize_def)

lemma lb_materialize_loop_end:
  "lb_materialize_loop b plan n (qs @ [q]) =
     and_then (lb_materialize_loop b plan n qs) (\<lambda>ws.
     and_then (ok_or LBE_WitnessPlanInvariant (vec_prefix plan (n + length qs))) (\<lambda>preceding.
     and_then (lb_materialize_one b preceding q) (\<lambda>w. Inr (ws @ [w]))))"
  by (induction b plan n qs rule: lb_materialize_loop.induct) (auto simp: and_then_def split: sum.splits)

lemma lb_materialize_short:
  assumes "length (lb_memory b) = 2 ^ 17" "\<forall>p \<in> set ps. plan_ok (lb_rom b) p" "length (lb_rom b) \<le> unat i"
  shows "lb_materialize b (ps @ [PW_Rom a i]) = Inl (LBE_PhysicalAddressOutOfRange i)"
  using lb_materialize_loop_exact [OF assms(1,2), of "[]" "[PW_Rom a i]"] assms(3)
  by (simp add: lb_materialize_def lb_materialize_loop_end vec_prefix_def rom_byte_def lb_byte_iff)

lemma apply_memory_effects_exact:
  assumes "length mem = 2 ^ 17" "\<forall>p \<in> set ps. plan_ok rom p" "concat (map event_witness es) = plan_answers path rom mem ps"
  shows "apply_memory_effects mem es = (Inr (), fold plan_apply ps mem)"
  using assms
proof (induction es arbitrary: mem ps)
  case Nil
  from Nil.prems(3) show ?case by (cases rule: plan_events_cases) simp_all
next
  case (Cons e es)
  from Cons.prems(3) show ?case
  proof (cases rule: plan_events_cases)
    case (2 e' es')
    have "write_effect e' = None" using 2(2) by (cases e') simp_all
    with 2 Cons show ?thesis by simp
  next
    case (3 e' es' w p qs)
    have IH: "apply_memory_effects (plan_apply p mem) es = (Inr (), fold plan_apply ps mem)"
      using Cons.IH [of "plan_apply p mem" qs] Cons.prems(1,2) 3 by simp
    show ?thesis
    proof (cases "\<exists>a i v. p = PW_MemoryWrite a i v")
      case True
      then obtain a i v where p: "p = PW_MemoryWrite a i v" by blast
      then obtain u where "write_effect e' = Some u" "mw_physical_address u = i" "mw_before u = mem ! unat i" "mw_after u = v"
        using 3(3,4) by (cases e') auto
      then show ?thesis using IH p Cons.prems(1,2) 3(1,2) by (simp add: lb_byte_iff lb_set_byte_def vec_set_def ok_or_def)
    next
      case False
      then have "write_effect e' = None" "plan_apply p mem = mem" using 3(3,4) by (cases p; cases e'; auto)+
      with IH 3(1) show ?thesis by simp
    qed
  qed simp
qed

section \<open>Consistent builders\<close>

text \<open>
  The arrays have their fixed sizes, the state satisfies its invariant under a DMG profile with
  transcripts that were never appended to, and the input log commits the consumed prefix.
\<close>

definition lookup_ok :: "digest \<Rightarrow> lookup_builder \<Rightarrow> bool" where
  "lookup_ok sha b \<longleftrightarrow>
     vm_wf (lb_state b) \<and> is_dmg_post_boot_mbc3 (vm_profile (lb_state b)) \<and>
     length (lb_rom b) = LOOKUP_ROM_BYTES \<and> length (lb_memory b) = LOOKUP_MEMORY_BYTES \<and>
     bt_next_index (vm_bus_transcript (lb_state b)) = 0 \<and> it_next_index (vm_isa_transcript (lb_state b)) = 0 \<and>
     input_committed sha (lb_state b) (lb_private_input b)"

lemma lookup_sizes: "lookup_ok sha b \<Longrightarrow> length (lb_rom b) = 2 ^ 20 \<and> length (lb_memory b) = 2 ^ 17"
  by (simp add: lookup_ok_def LOOKUP_ROM_BYTES_def LOOKUP_MEMORY_BYTES_def)

fun lookup_ended :: "lookup_builder \<Rightarrow> lookup_builder_error \<Rightarrow> bool" where
  "lookup_ended b (LBE_InputExhausted i) \<longleftrightarrow> length (lb_private_input b) \<le> unat i"
| "lookup_ended b LBE_InputIndexOverflow \<longleftrightarrow> 2 ^ 64 \<le> length (lb_private_input b)"
| "lookup_ended b _ \<longleftrightarrow> False"

fun lookup_fault :: "lookup_builder \<Rightarrow> lookup_builder_error \<Rightarrow> bool" where
  "lookup_fault b (LBE_Step e) \<longleftrightarrow> \<not> prover_error e"
| "lookup_fault b e \<longleftrightarrow> lookup_ended b e"

definition lookup_outcome ::
  "digest \<Rightarrow> lookup_builder \<Rightarrow> (lookup_builder_error + trace_row) \<times> lookup_builder \<Rightarrow> bool" where
  "lookup_outcome sha b r \<longleftrightarrow>
     (case r of
        (Inl e, b') \<Rightarrow> b' = b \<and> lookup_fault b e
      | (Inr row, b') \<Rightarrow>
          row_before row = lb_state b \<and> row_after row = lb_state b' \<and> row_accepted sha Auth_Lookup row \<and>
          events_truthful (padded (lb_rom b)) (padded (lb_memory b)) (eff_bus_events (row_effects row)) \<and>
          padded (lb_memory b') = events_apply (eff_bus_events (row_effects row)) (padded (lb_memory b)) \<and>
          vm_rom_root (lb_state b') = vm_rom_root (lb_state b) \<and> vm_memory_root (lb_state b') = vm_memory_root (lb_state b) \<and>
          lookup_ok sha b' \<and> lb_rom b' = lb_rom b \<and> lb_private_input b' = lb_private_input b)"

text \<open>The lookup relation leaves the memory root and the transcripts at their anchors.\<close>

lemma lookup_bus_anchors:
  assumes "bus_trace sha Auth_Lookup s es t"
  shows "vm_memory_root t = vm_memory_root s \<and> vm_bus_transcript t = vm_bus_transcript s \<and> vm_isa_transcript t = vm_isa_transcript s"
  using assms
proof (induction rule: bus_trace.induct)
  case (quiet s s')
  then show ?case by (simp add: silentD)
next
  case (event s s1 e s2 es s3)
  have "vm_memory_root s2 = vm_memory_root s1 \<and> vm_bus_transcript s2 = vm_bus_transcript s1 \<and> vm_isa_transcript s2 = vm_isa_transcript s1"
    using event(2) by cases auto
  with event silentD [OF event(1)] show ?case by simp
qed

lemma lookup_step_anchors:
  assumes "apply_step sha s input Auth_Lookup = Inr (s', eff)"
  shows "vm_memory_root s' = vm_memory_root s" "vm_bus_transcript s' = vm_bus_transcript s" "vm_isa_transcript s' = vm_isa_transcript s"
proof -
  obtain t where "bus_trace sha Auth_Lookup s (eff_bus_events eff) t" "s' = t"
    using apply_step_final [OF assms] by (metis bus_authentication.distinct(1))
  with lookup_bus_anchors show "vm_memory_root s' = vm_memory_root s" "vm_bus_transcript s' = vm_bus_transcript s"
    "vm_isa_transcript s' = vm_isa_transcript s" by metis+
qed

interpretation lookup_prover: prover sha Auth_Lookup lookup_paths "lookup_ok sha" lb_state lb_rom lb_memory lb_private_input
  "lb_step_loop sha" lb_accept_step "\<lambda>b e. (Inl e, b)" lb_plan LBE_Step LBE_PhysicalAddressOutOfRange lookup_ended for sha
proof (unfold_locales, goal_cases)
  case (1 b)
  then show ?case by (simp add: lookup_ok_def)
next
  case (2 b)
  then show ?case using lookup_sizes [of sha b] by simp
next
  case (3 b)
  then show ?case by (simp add: paths_open_def root_tracks_def)
next
  case (4 b ps after eff)
  then show ?case
    using lb_materialize_exact [of b ps] lookup_sizes [OF 4(1)]
    by (subst lb_step_loop.simps) (simp add: lookup_step_apply_def)
next
  case (5 b ps e)
  then have "\<forall>q. e \<noteq> MissingWitness q" by auto
  with 5 show ?case
    using lb_materialize_exact [of b ps] lookup_sizes [OF 5(1)]
    by (subst lb_step_loop.simps) (auto simp: lookup_step_apply_def split: step_error.split)
next
  case (6 b ps q)
  then show ?case
    using lb_materialize_exact [of b ps] lookup_sizes [OF 6(1)]
    by (subst lb_step_loop.simps) (simp add: lookup_step_apply_def LOOKUP_MAX_WITNESSES_def)
next
  case (7 b ps a i)
  then show ?case
    using lb_materialize_short [of b ps i a] lookup_sizes [OF 7(1)] by (subst lb_step_loop.simps) simp
next
  case (8 q p b ps)
  then show ?case by (cases q) auto
next
  case (9 b ps)
  then show ?case by (cases rule: next_input_cases [OF 9(2,3)]) auto
qed

section \<open>A step of a consistent builder\<close>

lemma lb_accept_step_exact:
  assumes "lookup_ok sha b" "\<forall>p \<in> set ps. plan_ok (lb_rom b) p" "plan_continues (lb_state b) (lb_private_input b) ps"
    and step: "apply_step sha (lb_state b)
      \<lparr>input_witnesses = plan_answers lookup_paths (lb_rom b) (lb_memory b) ps\<rparr> Auth_Lookup = Inr (after, eff)"
  shows "lookup_outcome sha b (lb_accept_step b after eff)"
proof -
  let ?b = "b\<lparr>lb_memory := fold plan_apply ps (lb_memory b), lb_state := after\<rparr>"
  note keeps = lookup_prover.accepted_keeps [OF assms(1,2,3) step] and anchors = lookup_step_anchors [OF step]
  have acc: "lb_accept_step b after eff = (Inr (trace_row_from_accepted (lb_state b) after eff), ?b)"
    using apply_memory_effects_exact [OF _ assms(2) keeps(5)] lookup_sizes [OF assms(1)] by (simp add: lb_accept_step_def)
  have "lookup_ok sha ?b" using assms(1) keeps(1,2,4) anchors by (simp add: lookup_ok_def)
  then show ?thesis
    unfolding acc using step keeps(3,6,7) anchors
    by (auto simp: lookup_outcome_def trace_row_from_accepted_def row_accepted_def)
qed

lemma lb_step_refused:
  "lookup_fault b e \<Longrightarrow> lb_step_loop sha b [] = (Inl e, b) \<Longrightarrow> lookup_outcome sha b (lb_step sha b)"
  by (simp add: lb_step_def lookup_outcome_def)

lemma rom_byte_length_bound: "rom_byte_length n \<le> 2 ^ 20"
  by (cases n) simp_all

lemma lb_step_outcome:
  assumes "lookup_ok sha b"
  shows "lookup_outcome sha b (lb_step sha b)"
  using lookup_prover.first_attempt [OF assms] unfolding lookup_prover.concludes_def
proof (elim disjE exE conjE)
  fix ps after eff
  assume plan: "\<forall>p \<in> set ps. plan_ok (lb_rom b) p" "plan_continues (lb_state b) (lb_private_input b) ps"
    "apply_step sha (lb_state b) \<lparr>input_witnesses = plan_answers lookup_paths (lb_rom b) (lb_memory b) ps\<rparr> Auth_Lookup = Inr (after, eff)"
    and "lb_step_loop sha b [] = lb_accept_step b after eff"
  then show ?thesis using lb_accept_step_exact [OF assms plan] by (simp only: lb_step_def)
next
  fix e assume e: "\<not> prover_error e" and loop: "lb_step_loop sha b [] = (Inl (LBE_Step e), b)"
  have "lookup_fault b (LBE_Step e)" using e by simp
  then show ?thesis using loop by (rule lb_step_refused)
next
  fix e assume e: "lookup_ended b e" and loop: "lb_step_loop sha b [] = (Inl e, b)"
  have "lookup_fault b e" using e by (cases e) simp_all
  then show ?thesis using loop by (rule lb_step_refused)
next
  fix i assume "length (lb_rom b) \<le> unat i"
    "unat i < rom_byte_length (prof_rom_size (cartridge_profile (vm_profile (lb_state b))))"
  then show ?thesis using lookup_sizes [OF assms] rom_byte_length_bound by (metis order.strict_trans1 not_less)
qed

end
