(* ===== verification/Lookup_Runs.thy ===== *)
theory Lookup_Runs
  imports Lookup_Service
begin

text \<open>
  Runs of the plain-byte adapter: its loops are those of the shared runner, the accesses of a run
  replay on its byte arrays, its constructors establish the invariant, and a checkpoint resumes.
\<close>

section \<open>The adapter as a stepper and a runner\<close>

abbreviation lookup_run :: "digest \<Rightarrow> lookup_builder \<Rightarrow> trace_row list \<Rightarrow> lookup_builder \<Rightarrow> bool" where
  "lookup_run sha \<equiv> accepted_run (lb_step sha)"

interpretation lookup_rows: stepper sha Auth_Lookup "lookup_ok sha" lb_state "\<lambda>b. (lb_rom b, lb_private_input b)"
  "lb_step sha" lookup_fault for sha
proof unfold_locales
  show "lookup_ok sha b \<Longrightarrow> vm_wf (lb_state b)" for b by (simp add: lookup_ok_def)
next
  fix b row c assume "lookup_ok sha b" "lb_step sha b = (Inr row, c)"
  with lb_step_outcome [of sha b] show "row_before row = lb_state b \<and> row_after row = lb_state c \<and>
      row_accepted sha Auth_Lookup row \<and> lookup_ok sha c \<and> (lb_rom c, lb_private_input c) = (lb_rom b, lb_private_input b)"
    by (simp add: lookup_outcome_def)
next
  fix b e c assume "lookup_ok sha b" "lb_step sha b = (Inl e, c)"
  with lb_step_outcome [of sha b] show "c = b \<and> lookup_fault b e" by (simp add: lookup_outcome_def)
qed

interpretation lookup_runs: runner sha Auth_Lookup "lookup_ok sha" lb_state "\<lambda>b. (lb_rom b, lb_private_input b)"
  "lb_step sha" lookup_fault lb_require_exact_row
  LBE_ZeroStepChunk LBE_MilestoneNotReached LBE_TerminatedBeforeExactSteps LBE_ExactStepFailed LBE_Trace
  "lb_exact_row sha" "lb_exact_loop sha" "lb_execute_exact sha" "lb_until_loop sha" for sha
proof (unfold_locales, goal_cases)
  case 1
  then show ?case by (simp add: lb_require_exact_row_def Let_def split: if_splits)
next
  case (2 accept k n b m acc)
  show ?case
    by (cases "lb_step sha b"; cases "fst (lb_step sha b)"; cases "lb_require_exact_row b k n")
       (simp_all add: lb_exact_row_def lb_exact_step_def)
next
  case 3
  show ?case by (rule lb_exact_loop.simps)
next
  case 4
  show ?case by (simp only: lb_execute_exact_def)
next
  case 5
  show ?case by (rule lb_until_loop.simps)
qed

interpretation lookup_retains: retainer sha Auth_Lookup "lookup_ok sha" lb_state "\<lambda>b. (lb_rom b, lb_private_input b)"
  "lb_step sha" lookup_fault lb_require_exact_row
  LBE_ZeroStepChunk LBE_MilestoneNotReached LBE_TerminatedBeforeExactSteps LBE_ExactStepFailed LBE_Trace
  "lb_exact_row sha" "lb_exact_loop sha" "lb_execute_exact sha" "lb_until_loop sha" "lb_run_exact_steps sha" for sha
  by unfold_locales (simp only: lb_run_exact_steps_def)

section \<open>Accesses of a run\<close>

lemma lookup_run_truthful:
  assumes "lookup_run sha b rows b'" "lookup_ok sha b"
  shows "events_truthful (padded (lb_rom b)) (padded (lb_memory b)) (run_events (map row_effects rows)) \<and>
    padded (lb_memory b') = events_apply (run_events (map row_effects rows)) (padded (lb_memory b)) \<and>
    vm_rom_root (lb_state b') = vm_rom_root (lb_state b) \<and> vm_memory_root (lb_state b') = vm_memory_root (lb_state b)"
  using assms
proof (induction rows arbitrary: b)
  case (Cons row rows)
  then obtain c where c: "lb_step sha b = (Inr row, c)" "lookup_run sha c rows b'" by auto
  with lb_step_outcome [OF Cons.prems(2)] Cons.IH [of c] show ?case
    by (simp add: lookup_outcome_def run_events_def events_truthful_append events_apply_append)
qed (simp add: run_events_def events_apply_def)

section \<open>Construction and checkpoints\<close>

lemma lb_check_tables_Inr:
  "lb_check_tables rom memory = Inr u \<longleftrightarrow> rom \<noteq> [] \<and> length rom \<le> LOOKUP_ROM_BYTES \<and> length memory = LOOKUP_MEMORY_BYTES"
  by (auto simp: lb_check_tables_def)

lemma length_vec_resize [simp]: "length (vec_resize n bs) = n"
  by (simp add: vec_resize_def)

lemma vec_resize_same: "length bs = n \<Longrightarrow> vec_resize n bs = bs"
  by (simp add: vec_resize_def)

lemma lb_new_profile_ok:
  assumes "lb_new_profile sha rom memory input rr mr profile = Inr b"
  shows "lookup_ok sha b"
  using assms vm_initial_wf(2) [of sha profile rr mr]
  by (auto simp: lb_new_profile_def lb_check_tables_Inr lookup_ok_def vm_dmg_profile_initial_def vm_dmg_unchecked_def
      input_committed_def consumed_prefix_def log_empty_def log_commit_def bus_transcript_empty_def isa_transcript_empty_def
      split: if_splits)

lemma validate_input_prefix_iff:
  assumes "length input < 2 ^ 64"
  shows "validate_input_prefix sha input s = Inr () \<longleftrightarrow> input_committed sha s input"
proof -
  have u: "u64_try_from (length input) = Some (word_of_nat (length input))" "unat (word_of_nat (length input) :: u64) = length input"
    using assms by (simp_all add: u64_try_from_def unat_of_nat)
  show ?thesis
    by (cases "log_commit sha Log_Input (take (unat (log_next_index (vm_input_log s))) input)")
       (auto simp: validate_input_prefix_def u Let_def vec_slice_def word_less_nat_alt not_less input_committed_def consumed_prefix_def)
qed

lemma lb_resume_self:
  assumes "lookup_ok sha b" "length (lb_private_input b) < 2 ^ 64"
  shows "lb_resume sha (lb_rom b) (lb_checkpoint_memory b) (lb_private_input b) (lb_state b) = Inr b"
proof -
  have "lb_check_tables (lb_rom b) (lb_memory b) = Inr ()"
    using assms(1) by (auto simp: lb_check_tables_Inr lookup_ok_def LOOKUP_ROM_BYTES_def)
  moreover have "validate_input_prefix sha (lb_private_input b) (lb_state b) = Inr ()"
    using assms validate_input_prefix_iff by (simp add: lookup_ok_def)
  ultimately show ?thesis
    using assms(1) by (cases b) (simp add: lb_resume_def lb_checkpoint_memory_def lookup_ok_def vec_resize_same)
qed

section \<open>An example\<close>

definition lookup_example :: lookup_builder where
  "lookup_example = \<lparr>lb_rom = vec_resize 1048576 [0x76], lb_memory = replicate 131072 0, lb_private_input = [],
     lb_state = vm_dmg_unchecked (\<lambda>_. 0) DmgPostBootMbc3V1 0 0\<rparr>"

lemma lookup_example_new: "lb_new (\<lambda>_. 0) [0x76] (replicate 131072 0) [] 0 0 = Inr lookup_example"
  by (simp add: lb_new_def lb_new_profile_def lb_check_tables_def LOOKUP_ROM_BYTES_def LOOKUP_MEMORY_BYTES_def
      vm_dmg_profile_initial_def lookup_example_def)

lemma lookup_example_ok: "lookup_ok (\<lambda>_. 0) lookup_example"
  using lb_new_profile_ok lookup_example_new by (simp add: lb_new_def)

end
