(* ===== verification/Lookup_Properties.thy ===== *)
theory Lookup_Properties
  imports Lookup_Runs
begin

text \<open>
  Properties of the plain-byte adapter: its steps are complete, its rows use the current bytes of
  its arrays, and its constructors and checkpoints are exact.
\<close>

text \<open>C12: From a consistent plain-byte builder a step is complete: it returns a row accepted by the lookup
  relation, every byte of its accesses being the current byte of the arrays, the memory array
  moving by exactly its writes and both root anchors fixed; or it leaves the builder unchanged and
  fails for a reason of the machine or at the end of the private input. It never reports an
  address outside its arrays, a diverging write or a broken witness plan.\<close>

theorem lookup_step_complete:
  assumes "lookup_ok sha b"
  shows "case lb_step sha b of
      (Inr row, b') \<Rightarrow>
        row_accepted sha Auth_Lookup row \<and> row_before row = lb_state b \<and> row_after row = lb_state b' \<and>
        events_truthful (padded (lb_rom b)) (padded (lb_memory b)) (eff_bus_events (row_effects row)) \<and>
        padded (lb_memory b') = events_apply (eff_bus_events (row_effects row)) (padded (lb_memory b)) \<and>
        vm_rom_root (lb_state b') = vm_rom_root (lb_state b) \<and> vm_memory_root (lb_state b') = vm_memory_root (lb_state b) \<and>
        lookup_ok sha b' \<and> lb_rom b' = lb_rom b \<and> lb_private_input b' = lb_private_input b
    | (Inl e, b') \<Rightarrow> b' = b \<and>
        (case e of
           LBE_Step se \<Rightarrow> \<not> prover_error se
         | LBE_InputExhausted i \<Rightarrow> length (lb_private_input b) \<le> unat i
         | LBE_InputIndexOverflow \<Rightarrow> 2 ^ 64 \<le> length (lb_private_input b)
         | _ \<Rightarrow> False)"
  using lb_step_outcome [OF assms]
  by (auto simp: lookup_outcome_def split: prod.splits sum.splits lookup_builder_error.splits)

theorem lookup_step_complete_witness:
  "case lb_step (\<lambda>_. 0) lookup_example of
     (Inr row, b') \<Rightarrow> row_accepted (\<lambda>_. 0) Auth_Lookup row \<and> lookup_ok (\<lambda>_. 0) b' \<and> vm_memory_root (lb_state b') = 0
   | (Inl e, b') \<Rightarrow> b' = lookup_example \<and> e \<noteq> LBE_MemoryEffectDivergence \<and> e \<noteq> LBE_WitnessPlanInvariant"
  using lookup_step_complete [OF lookup_example_ok]
  by (auto simp: lookup_example_def vm_dmg_unchecked_def split: prod.splits sum.splits)

text \<open>C13: An exact lookup run returns a validated witness of exactly the requested rows, a run of the lookup
  relation whose accesses, in order, read the current bytes of the ROM and memory arrays and leave
  the final memory array, with the root anchors fixed. When it fails the builder is consistent and
  the reported number of completed rows is exactly how many were accepted.\<close>

theorem lookup_exact_steps_sound:
  assumes "lookup_ok sha b"
  shows "case lb_run_exact_steps sha n b of
      (Inr w, b') \<Rightarrow>
        lookup_ok sha b' \<and> wit_step_count w = n \<and> length (witness_rows w) = unat n \<and>
        wit_initial_state w = lb_state b \<and> wit_final_state w = lb_state b' \<and>
        (\<exists>inputs. run_steps sha Auth_Lookup (lb_state b) inputs = Inr (lb_state b', map row_effects (witness_rows w))) \<and>
        events_truthful (padded (lb_rom b)) (padded (lb_memory b)) (run_events (map row_effects (witness_rows w))) \<and>
        padded (lb_memory b') = events_apply (run_events (map row_effects (witness_rows w))) (padded (lb_memory b)) \<and>
        vm_rom_root (lb_state b') = vm_rom_root (lb_state b) \<and> vm_memory_root (lb_state b') = vm_memory_root (lb_state b)
    | (Inl e, b') \<Rightarrow>
        lookup_ok sha b' \<and>
        (case e of
           LBE_TerminatedBeforeExactSteps k m r \<Rightarrow> \<exists>rows. lookup_run sha b rows b' \<and> length rows = unat k \<and> k < n
         | LBE_ExactStepFailed k pc f \<Rightarrow> \<exists>rows. lookup_run sha b rows b' \<and> length rows = unat k \<and> k < n
         | LBE_ZeroStepChunk \<Rightarrow> n = 0
         | LBE_Trace t \<Rightarrow> t = TE_MetricOverflow
         | _ \<Rightarrow> False)"
proof -
  let ?completed = "\<lambda>e. case e of LBE_TerminatedBeforeExactSteps k m r \<Rightarrow> Some k | LBE_ExactStepFailed k pc f \<Rightarrow> Some k | _ \<Rightarrow> None"
  have stopped: "case e of
      LBE_TerminatedBeforeExactSteps k m r \<Rightarrow> \<exists>rows. lookup_run sha b rows b' \<and> length rows = unat k \<and> k < n
    | LBE_ExactStepFailed k pc f \<Rightarrow> \<exists>rows. lookup_run sha b rows b' \<and> length rows = unat k \<and> k < n
    | LBE_ZeroStepChunk \<Rightarrow> n = 0
    | LBE_Trace t \<Rightarrow> t = TE_MetricOverflow
    | _ \<Rightarrow> False"
    if "n = 0 \<and> e = LBE_ZeroStepChunk \<and> b' = b \<or> lookup_runs.run_stops sha b n e b'" for e b'
    using that lookup_retains.stops_completed [of sha b n e b' ?completed] by (cases e) auto
  show ?thesis
    using lookup_retains.retain_outcome [OF assms, of n] stopped lookup_run_truthful [OF _ assms]
    by (auto split: prod.splits sum.splits)
qed

theorem lookup_exact_steps_sound_witness:
  "case lb_run_exact_steps (\<lambda>_. 0) 3 lookup_example of
     (Inr w, b') \<Rightarrow> wit_step_count w = 3 \<and> length (witness_rows w) = 3
   | (Inl e, b') \<Rightarrow> lookup_ok (\<lambda>_. 0) b'"
  using lookup_exact_steps_sound [OF lookup_example_ok, of 3] by (auto split: prod.splits sum.splits)

text \<open>C14: The plain-byte constructors accept exactly a ROM of one byte to one MiB with a 128-KiB memory under
  a DMG profile, and what they build is consistent; and after any exact run, successful or not,
  resuming from the memory bytes, the same ROM and input and the current state gives back exactly
  that builder.\<close>

theorem lookup_resume_roundtrip:
  assumes "length input < 2 ^ 64"
  shows "(is_ok (lb_new_profile sha rom memory input rom_root memory_root profile) \<longleftrightarrow>
      rom \<noteq> [] \<and> length rom \<le> 2 ^ 20 \<and> length memory = 2 ^ 17 \<and> is_dmg_post_boot_mbc3 profile) \<and>
    (\<forall>b result b'. lb_new_profile sha rom memory input rom_root memory_root profile = Inr b \<longrightarrow>
       lb_run_exact_steps sha n b = (result, b') \<longrightarrow>
       lookup_ok sha b \<and> lookup_ok sha b' \<and>
       lb_resume sha (lb_rom b) (lb_checkpoint_memory b') input (lb_state b') = Inr b')"
proof (intro conjI allI impI)
  show "is_ok (lb_new_profile sha rom memory input rom_root memory_root profile) \<longleftrightarrow>
      rom \<noteq> [] \<and> length rom \<le> 2 ^ 20 \<and> length memory = 2 ^ 17 \<and> is_dmg_post_boot_mbc3 profile"
    by (auto simp: lb_new_profile_def lb_check_tables_def vm_dmg_profile_initial_def LOOKUP_ROM_BYTES_def LOOKUP_MEMORY_BYTES_def)
next
  fix b result b'
  assume new: "lb_new_profile sha rom memory input rom_root memory_root profile = Inr b" and run: "lb_run_exact_steps sha n b = (result, b')"
  show ok: "lookup_ok sha b" using new by (rule lb_new_profile_ok)
  obtain rows where rows: "lookup_run sha b rows b'" using lookup_retains.retain_rows [OF ok run] by blast
  note kept = lookup_rows.run_ok [OF rows ok]
  have "lb_private_input b = input" using new by (auto simp: lb_new_profile_def)
  then show "lookup_ok sha b'" "lb_resume sha (lb_rom b) (lb_checkpoint_memory b') input (lb_state b') = Inr b'"
    using kept lb_resume_self [of sha b'] assms by auto
qed

theorem lookup_resume_roundtrip_witness:
  "lb_resume (\<lambda>_. 0) (lb_rom lookup_example) (lb_checkpoint_memory (snd (lb_run_exact_steps (\<lambda>_. 0) 5 lookup_example))) []
     (lb_state (snd (lb_run_exact_steps (\<lambda>_. 0) 5 lookup_example))) = Inr (snd (lb_run_exact_steps (\<lambda>_. 0) 5 lookup_example))"
  using lookup_resume_roundtrip [where input = "[]" and n = 5 and sha = "\<lambda>_. 0" and rom = "[0x76]" and memory = "replicate 131072 0"
      and rom_root = 0 and memory_root = 0 and profile = DmgPostBootMbc3V1] lookup_example_new
  by (cases "lb_run_exact_steps (\<lambda>_. 0) 5 lookup_example") (simp add: lb_new_def)

end
