(* ===== verification/Field_Fold.thy ===== *)
theory Field_Fold
  imports Complex_Main Trace_Blocks
begin

text \<open>
  Folding of evaluation tables (\<open>zksm83-jolt/src/field_fold.rs\<close>, CPU path) and the multilinear
  extension it computes.  The native field is a type of another crate: the model is generic in a
  field, with \<open>from_u64\<close> the canonical map from the natural numbers.
\<close>

section \<open>The source\<close>

datatype field_fold_error = FF_InvalidLength | FF_IndexOverflow

definition usize_checked_mul :: "nat \<Rightarrow> nat \<Rightarrow> nat option" where
  "usize_checked_mul a b = (if a * b < 2 ^ 64 then Some (a * b) else None)"

text \<open>\<open>chunks_exact\<close> of two.\<close>

fun chunks2 :: "'a list \<Rightarrow> 'a list list" where
  "chunks2 (a # b # xs) = [a, b] # chunks2 xs"
| "chunks2 [] = []"
| "chunks2 [a] = []"

primrec try_map :: "('a \<Rightarrow> 'e + 'b) \<Rightarrow> 'a list \<Rightarrow> 'e + 'b list" where
  "try_map f [] = Inr []"
| "try_map f (x # xs) = and_then (f x) (\<lambda>y. and_then (try_map f xs) (\<lambda>ys. Inr (y # ys)))"

lemma try_map_total: "(\<And>x. x \<in> set xs \<Longrightarrow> f x = Inr (g x)) \<Longrightarrow> try_map f xs = Inr (map g xs)"
  by (induction xs) auto

definition fold_pair_in_place :: "'f::field \<Rightarrow> 'f list \<Rightarrow> nat \<Rightarrow> field_fold_error + 'f list" where
  "fold_pair_in_place challenge vs pair_index =
     and_then (ok_or FF_IndexOverflow (usize_checked_mul pair_index 2)) (\<lambda>low_index.
     and_then (ok_or FF_IndexOverflow (usize_checked_add low_index 1)) (\<lambda>high_index.
     and_then (ok_or FF_InvalidLength (vec_get vs low_index)) (\<lambda>low.
     and_then (ok_or FF_InvalidLength (vec_get vs high_index)) (\<lambda>high.
       ok_or FF_InvalidLength (vec_set vs pair_index (low + challenge * (high - low)))))))"

definition fold_binary_layer_cpu :: "'f::field list \<Rightarrow> 'f \<Rightarrow> field_fold_error + 'f list" where
  "fold_binary_layer_cpu vs challenge =
     (if length vs < 2 \<or> \<not> even (length vs) then Inl FF_InvalidLength
      else
        let folded_len = length vs div 2 in
        and_then (try_fold (fold_pair_in_place challenge) vs [0..<folded_len]) (\<lambda>vs'.
          Inr (take folded_len vs')))"

definition fold_pair :: "'f::field \<Rightarrow> 'f list \<Rightarrow> field_fold_error + 'f" where
  "fold_pair challenge pair =
     and_then (ok_or FF_InvalidLength (slice_first pair)) (\<lambda>low.
     and_then (ok_or FF_InvalidLength (vec_get pair 1)) (\<lambda>high.
       Inr (low + challenge * (high - low))))"

definition fold_binary_layer_from_slice_cpu :: "'f::field list \<Rightarrow> 'f \<Rightarrow> field_fold_error + 'f list" where
  "fold_binary_layer_from_slice_cpu vs challenge =
     (if length vs < 2 \<or> \<not> even (length vs) then Inl FF_InvalidLength
      else try_map (fold_pair challenge) (chunks2 vs))"

definition evaluate_mle :: "'f::field list \<Rightarrow> 'f list \<Rightarrow> field_fold_error + 'f" where
  "evaluate_mle vs point =
     and_then (if length point < 2 ^ 32 then Inr (length point) else Inl FF_IndexOverflow) (\<lambda>shift.
     and_then (if shift < 64 then Inr (2 ^ shift) else Inl FF_IndexOverflow) (\<lambda>expected.
       if length vs \<noteq> expected then Inl FF_InvalidLength
       else
         (case point of
            [] \<Rightarrow> ok_or FF_InvalidLength (slice_first vs)
          | first # remaining \<Rightarrow>
              and_then (fold_binary_layer_from_slice_cpu vs first) (\<lambda>folded.
              and_then (try_fold fold_binary_layer_cpu folded remaining) (\<lambda>folded'.
                ok_or FF_InvalidLength (slice_first folded'))))))"

section \<open>One layer\<close>

text \<open>The reference: each pair of neighbours becomes its interpolation at the challenge.\<close>

fun folded :: "'f::field \<Rightarrow> 'f list \<Rightarrow> 'f list" where
  "folded r (a # b # xs) = (a + r * (b - a)) # folded r xs"
| "folded r _ = []"

lemma length_folded [simp]: "length (folded r xs) = length xs div 2"
  by (induction r xs rule: folded.induct) auto

lemma length_chunks2 [simp]: "length (chunks2 xs) = length xs div 2"
  by (induction xs rule: chunks2.induct) auto

lemma folded_nth: "i < length xs div 2 \<Longrightarrow> folded r xs ! i = xs ! (2 * i) + r * (xs ! (2 * i + 1) - xs ! (2 * i))"
proof (induction r xs arbitrary: i rule: folded.induct)
  case (1 r a b xs)
  then show ?case by (cases i) auto
qed simp_all

lemma from_slice_folded:
  "fold_binary_layer_from_slice_cpu vs r =
     (if length vs < 2 \<or> odd (length vs) then Inl FF_InvalidLength else Inr (folded r vs))"
proof -
  have "try_map (fold_pair r) (chunks2 vs) = Inr (folded r vs)"
    by (induction r vs rule: folded.induct)
       (simp_all add: fold_pair_def vec_get_def ok_or_def)
  then show ?thesis by (simp add: fold_binary_layer_from_slice_cpu_def)
qed

text \<open>The in-place loop overwrites a prefix it has already read.\<close>

lemma fold_in_place_prefix:
  assumes "even (length vs)" "length vs < 2 ^ 64" "k \<le> length vs div 2"
  shows "try_fold (fold_pair_in_place r) vs [0..<k] = Inr (take k (folded r vs) @ drop k vs)"
  using assms(3)
proof (induction k)
  case (Suc k)
  let ?ws = "take k (folded r vs) @ drop k vs"
  have k: "k < length vs div 2" "2 * k + 1 < length vs" using Suc.prems assms(1) by auto
  have len: "length ?ws = length vs" using k by simp
  have reads: "?ws ! (2 * k) = vs ! (2 * k)" "?ws ! (2 * k + 1) = vs ! (2 * k + 1)"
    using k by (simp_all add: nth_append mult_2)
  have set: "?ws[k := folded r vs ! k] = take (Suc k) (folded r vs) @ drop (Suc k) vs"
    using k by (simp add: take_Suc_conv_app_nth list_update_append Cons_nth_drop_Suc [symmetric])
  have "fold_pair_in_place r ?ws k = Inr (?ws[k := folded r vs ! k])"
    using k len reads assms(2) folded_nth [OF k(1), of r]
    by (simp add: fold_pair_in_place_def usize_checked_mul_def usize_checked_add_def vec_get_def vec_set_def ok_or_def mult.commute)
  with Suc set show ?case by (simp add: try_fold_append)
qed simp

lemma in_place_folded:
  assumes "length vs < 2 ^ 64"
  shows "fold_binary_layer_cpu vs r =
     (if length vs < 2 \<or> odd (length vs) then Inl FF_InvalidLength else Inr (folded r vs))"
  using fold_in_place_prefix [OF _ assms, of "length vs div 2" r] by (simp add: fold_binary_layer_cpu_def Let_def)

section \<open>The multilinear extension\<close>

text \<open>The weight of one table index at a point; the first variable is the lowest bit.\<close>

primrec eq_weight :: "'f::field list \<Rightarrow> nat \<Rightarrow> 'f" where
  "eq_weight [] i = 1"
| "eq_weight (r # rs) i = (if odd i then r else 1 - r) * eq_weight rs (i div 2)"

definition mle :: "'f::field list \<Rightarrow> 'f list \<Rightarrow> 'f" where
  "mle vs point = (\<Sum>i < length vs. eq_weight point i * vs ! i)"

lemma sum_pairs: "(\<Sum>i < 2 * n. f i) = (\<Sum>i < n. f (2 * i) + f (2 * i + 1 :: nat) :: 'a::comm_monoid_add)"
  by (induction n) (simp_all add: add.assoc)

lemma mle_folded:
  assumes "even (length vs)"
  shows "mle (folded r vs) rs = mle vs (r # rs)"
proof -
  let ?n = "length vs div 2"
  have len: "length vs = 2 * ?n" using assms by simp
  have "mle vs (r # rs) = (\<Sum>i < 2 * ?n. eq_weight (r # rs) i * vs ! i)" unfolding mle_def using len by simp
  also have "\<dots> = (\<Sum>i < ?n. eq_weight rs i * folded r vs ! i)"
    unfolding sum_pairs by (rule sum.cong) (simp_all add: folded_nth algebra_simps)
  finally show ?thesis by (simp add: mle_def)
qed

lemma mle_Nil: "mle [v] [] = v"
  by (simp add: mle_def)

lemma fold_layers:
  assumes "length vs = 2 ^ length point" "length point < 64"
  shows "\<exists>v. try_fold fold_binary_layer_cpu vs point = Inr [v] \<and> v = mle vs point"
  using assms
proof (induction point arbitrary: vs)
  case Nil
  then obtain v where "vs = [v]" by (cases vs) auto
  then show ?case by (simp add: mle_Nil)
next
  case (Cons r rs)
  have small: "length vs < 2 ^ 64" using Cons.prems power_strict_increasing [of "length (r # rs)" 64 "2 :: nat"] by simp
  have ev: "even (length vs)" "2 \<le> length vs" using Cons.prems by auto
  have "\<exists>v. try_fold fold_binary_layer_cpu (folded r vs) rs = Inr [v] \<and> v = mle (folded r vs) rs"
    using Cons by simp
  with ev small show ?case by (simp add: in_place_folded mle_folded not_less)
qed

lemma evaluate_mle_exact:
  assumes "length vs = 2 ^ length point" "length point < 64"
  shows "evaluate_mle vs point = Inr (mle vs point)"
proof (cases point)
  case Nil
  with assms obtain v where "vs = [v]" by (cases vs) auto
  with Nil show ?thesis by (simp add: evaluate_mle_def mle_Nil)
next
  case (Cons r rs)
  have ev: "even (length vs)" "2 \<le> length vs" using assms Cons by auto
  have "length (folded r vs) = 2 ^ length rs" using assms Cons by simp
  then obtain v where "try_fold fold_binary_layer_cpu (folded r vs) rs = Inr [v]" "v = mle vs point"
    using fold_layers [of "folded r vs" rs] assms(2) mle_folded [OF ev(1)] Cons by auto
  with assms Cons ev show ?thesis
    by (simp add: evaluate_mle_def from_slice_folded not_less)
qed

end
