(* ===== verification/Low_Degree.thy ===== *)
theory Low_Degree
  imports Field_Fold
begin

text \<open>
  Functions of bounded degree on a field, in Horner form: closure, the bound on their roots, and
  interpolation.  The sumcheck verifier evaluates round polynomials by interpolation, and a false
  claim survives a round only on the roots of a low-degree difference.
\<close>

section \<open>Degree\<close>

primrec deg_le :: "nat \<Rightarrow> ('f::field \<Rightarrow> 'f) \<Rightarrow> bool" where
  "deg_le 0 f \<longleftrightarrow> (\<exists>c. \<forall>x. f x = c)"
| "deg_le (Suc d) f \<longleftrightarrow> (\<exists>g c. deg_le d g \<and> (\<forall>x. f x = c + x * g x))"

lemma deg_le_const [intro, simp]: "deg_le d (\<lambda>x. c)"
proof (induction d arbitrary: c)
  case (Suc d)
  then show ?case by (auto intro!: exI [of _ "\<lambda>x. 0"] exI [of _ c])
qed auto

lemma deg_le_mono: "deg_le d f \<Longrightarrow> d \<le> e \<Longrightarrow> deg_le e f"
proof (induction d arbitrary: f e)
  case 0
  then obtain c where "f = (\<lambda>x. c)" by auto
  then show ?case by simp
next
  case (Suc d)
  then obtain g c where g: "deg_le d g" "\<forall>x. f x = c + x * g x" by auto
  obtain e' where "e = Suc e'" "d \<le> e'" using Suc.prems(2) by (cases e) auto
  with g Suc.IH show ?case by auto
qed

lemma deg_le_add: "deg_le d f \<Longrightarrow> deg_le d g \<Longrightarrow> deg_le d (\<lambda>x. f x + g x)"
proof (induction d arbitrary: f g)
  case (Suc d)
  then obtain f' c g' e where "deg_le d f'" "\<forall>x. f x = c + x * f' x" "deg_le d g'" "\<forall>x. g x = e + x * g' x" by auto
  with Suc.IH [of f' g'] show ?case
    by (auto intro!: exI [of _ "\<lambda>x. f' x + g' x"] exI [of _ "c + e"] simp: algebra_simps)
qed auto

lemma deg_le_scale: "deg_le d f \<Longrightarrow> deg_le d (\<lambda>x. k * f x)"
proof (induction d arbitrary: f)
  case (Suc d)
  then obtain g c where "deg_le d g" "\<forall>x. f x = c + x * g x" by auto
  with Suc.IH [of g] show ?case
    by (auto intro!: exI [of _ "\<lambda>x. k * g x"] exI [of _ "k * c"] simp: algebra_simps)
qed auto

lemma deg_le_shift: "deg_le d f \<Longrightarrow> deg_le (Suc d) (\<lambda>x. x * f x)"
  by (auto intro!: exI [of _ f] exI [of _ 0])

lemma deg_le_linear: "deg_le d f \<Longrightarrow> deg_le (Suc d) (\<lambda>x. (a + x * b) * f x)"
  using deg_le_add [OF deg_le_mono [OF deg_le_scale [of d f a]] deg_le_shift [OF deg_le_scale [of d f b]]]
  by (simp add: algebra_simps)

lemma deg_le_diff: "deg_le d f \<Longrightarrow> deg_le d g \<Longrightarrow> deg_le d (\<lambda>x. f x - g x)"
  using deg_le_add [OF _ deg_le_scale [of d g "- 1"]] by simp

lemma deg_le_sum_list: "(\<And>f. f \<in> set fs \<Longrightarrow> deg_le d f) \<Longrightarrow> deg_le d (\<lambda>x. sum_list (map (\<lambda>f. f x) fs))"
  by (induction fs) (auto intro: deg_le_add)

lemma deg_le_sum: "finite A \<Longrightarrow> (\<And>i. i \<in> A \<Longrightarrow> deg_le d (f i)) \<Longrightarrow> deg_le d (\<lambda>x. \<Sum>i\<in>A. f i x)"
  by (induction rule: finite_induct) (auto intro: deg_le_add)

lemma deg_le_prod_list:
  "deg_le (length fs) (\<lambda>x. prod_list (map (\<lambda>(a, b). a + x * b) fs))"
proof (induction fs)
  case (Cons p fs)
  then show ?case using deg_le_linear [of "length fs"] by (cases p) simp
qed simp

lemma deg_le_prod:
  "finite A \<Longrightarrow> deg_le (card A) (\<lambda>x. \<Prod>i\<in>A. a i + x * b i)"
proof (induction rule: finite_induct)
  case (insert i A)
  then show ?case using deg_le_linear [of "card A"] by simp
qed simp

section \<open>Roots\<close>

lemma deg_le_factor:
  "deg_le (Suc d) f \<Longrightarrow> \<exists>h. deg_le d h \<and> (\<forall>x. f x = f a + (x - a) * h x)"
proof (induction d arbitrary: f)
  case 0
  then obtain g c where g: "deg_le 0 g" "\<forall>x. f x = c + x * g x" unfolding deg_le.simps(2) [of 0 f] by blast
  then obtain e where "\<forall>x. g x = e" by auto
  with g(2) have f: "\<forall>x. f x = c + x * e" by simp
  show ?case by (intro exI [of _ "\<lambda>x. e"]) (auto simp: f [rule_format] algebra_simps)
next
  case (Suc d)
  from Suc.prems obtain g c where g: "deg_le (Suc d) g" "\<forall>x. f x = c + x * g x" unfolding deg_le.simps(2) [of "Suc d" f] by blast
  from Suc.IH [OF g(1)] obtain h where h: "deg_le d h" "\<forall>x. g x = g a + (x - a) * h x" by blast
  have "deg_le (Suc d) (\<lambda>x. g a + x * h x)" using deg_le_add [OF _ deg_le_shift [OF h(1)], of "\<lambda>x. g a"] by simp
  moreover have "f x = f a + (x - a) * (g a + x * h x)" for x
  proof -
    have "f x = c + x * (g a + (x - a) * h x)" using g(2) h(2) by metis
    moreover have "f a = c + a * g a" using g(2) by metis
    ultimately show ?thesis by (simp add: algebra_simps)
  qed
  ultimately show ?case by blast
qed

lemma root_bound:
  assumes "deg_le d f" "f x0 \<noteq> 0"
  shows "finite {x. f x = 0} \<and> card {x. f x = 0} \<le> d"
  using assms
proof (induction d arbitrary: f)
  case 0
  then have "{x. f x = 0} = {}" by auto
  then show ?case by simp
next
  case (Suc d)
  show ?case
  proof (cases "\<exists>a. f a = 0")
    case True
    then obtain a where a: "f a = 0" by blast
    obtain h where h: "deg_le d h" "\<forall>x. f x = (x - a) * h x" using deg_le_factor [OF Suc.prems(1), of a] a by auto
    then have "h x0 \<noteq> 0" using Suc.prems(2) by auto
    from Suc.IH [OF h(1) this] have IH: "finite {x. h x = 0}" "card {x. h x = 0} \<le> d" by auto
    have "{x. f x = 0} \<subseteq> insert a {x. h x = 0}" using h(2) by auto
    then have fin: "finite {x. f x = 0}" and "card {x. f x = 0} \<le> card (insert a {x. h x = 0})"
      using IH(1) by (auto intro: finite_subset card_mono)
    moreover have "card (insert a {x. h x = 0}) \<le> Suc d" using IH by (simp add: card_insert_if)
    ultimately show ?thesis by linarith
  qed simp
qed

lemma agreement_bound:
  assumes "deg_le d f" "deg_le d g" "f x0 \<noteq> g x0"
  shows "finite {x. f x = g x} \<and> card {x. f x = g x} \<le> d"
  using root_bound [OF deg_le_diff [OF assms(1,2)]] assms(3) by simp

text \<open>Two functions of degree at most \<open>d\<close> that agree on more than \<open>d\<close> points agree.\<close>

lemma deg_le_unique:
  assumes "deg_le d f" "deg_le d g" "finite A" "d < card A" "\<And>x. x \<in> A \<Longrightarrow> f x = g x"
  shows "f x = g x"
proof (rule ccontr)
  assume "f x \<noteq> g x"
  from agreement_bound [OF assms(1,2) this] have "finite {x. f x = g x}" "card {x. f x = g x} \<le> d" by auto
  moreover have "A \<subseteq> {x. f x = g x}" using assms(5) by auto
  ultimately have "card A \<le> d" using card_mono [of "{x. f x = g x}" A] by linarith
  then show False using assms(4) by simp
qed

section \<open>Interpolation\<close>

text \<open>The field separates the first natural numbers: its characteristic exceeds the degree.\<close>

definition separates :: "'f::field itself \<Rightarrow> nat \<Rightarrow> bool" where
  "separates t d \<longleftrightarrow> inj_on (of_nat :: nat \<Rightarrow> 'f) {..d}"

lemma separates_mono: "separates t d \<Longrightarrow> e \<le> d \<Longrightarrow> separates t e"
  by (auto simp: separates_def intro: inj_on_subset)

definition lagrange_basis :: "nat \<Rightarrow> nat \<Rightarrow> 'f::field \<Rightarrow> 'f" where
  "lagrange_basis n i x = (\<Prod>j \<in> {..<n} - {i}. (x - of_nat j) / (of_nat i - of_nat j))"

lemma lagrange_basis_quotient:
  "lagrange_basis n i x = (\<Prod>j \<in> {..<n} - {i}. x - of_nat j) * inverse (\<Prod>j \<in> {..<n} - {i}. of_nat i - of_nat j)"
  by (simp only: lagrange_basis_def prod_dividef) (simp only: divide_inverse)

definition lagrange :: "'f::field list \<Rightarrow> 'f \<Rightarrow> 'f" where
  "lagrange es x = (\<Sum>i < length es. es ! i * lagrange_basis (length es) i x)"

lemma lagrange_deg: "deg_le (length es - 1) (lagrange (es :: 'a::field list))"
proof -
  have "deg_le (length es - 1) (\<lambda>x. es ! i * lagrange_basis (length es) i x)" if "i < length es" for i
  proof -
    let ?A = "{..<length es} - {i}"
    have "deg_le (card ?A) (\<lambda>x. \<Prod>j \<in> ?A. - of_nat j / (of_nat i - of_nat j) + x * (1 / (of_nat i - of_nat j)) :: 'a)"
      by (rule deg_le_prod) simp
    moreover have "card ?A = length es - 1" using that by simp
    moreover have "lagrange_basis (length es) i = (\<lambda>x. \<Prod>j \<in> ?A. - of_nat j / (of_nat i - of_nat j) + x * (1 / (of_nat i - of_nat j)) :: 'a)"
      by (rule ext) (simp add: lagrange_basis_def diff_divide_distrib)
    ultimately show ?thesis by (simp only: deg_le_scale)
  qed
  then show ?thesis unfolding lagrange_def [abs_def] by (intro deg_le_sum) auto
qed

lemma lagrange_basis_node:
  assumes "separates TYPE('f::field) (n - 1)" "i < n" "k < n"
  shows "lagrange_basis n i (of_nat k :: 'f) = (if k = i then 1 else 0)"
proof (cases "k = i")
  case True
  have "(of_nat i :: 'f) \<noteq> of_nat j" if "j < n" "j \<noteq> i" for j
    using assms that by (auto simp: separates_def inj_on_def)
  then show ?thesis using True by (auto simp: lagrange_basis_def intro!: prod.neutral)
next
  case False
  with assms show ?thesis by (auto simp: lagrange_basis_def intro!: prod_zero)
qed

lemma lagrange_node:
  assumes "separates TYPE('f::field) (length es - 1)" "k < length es"
  shows "lagrange es (of_nat k :: 'f) = es ! k"
proof -
  have "lagrange es (of_nat k) = (\<Sum>i < length es. if i = k then es ! i else 0)"
    unfolding lagrange_def using assms by (intro sum.cong) (auto simp: lagrange_basis_node)
  then show ?thesis using assms(2) by simp
qed

text \<open>A function of degree at most \<open>d\<close> is interpolated by its values at the first \<open>d + 1\<close> numbers.\<close>

lemma lagrange_of_values:
  assumes "separates TYPE('f::field) d" "deg_le d (g :: 'f \<Rightarrow> 'f)" "es = map (\<lambda>k. g (of_nat k)) [0..<Suc d]"
  shows "lagrange es x = g x"
proof (rule deg_le_unique [where d = d and f = "lagrange es" and g = g and A = "(of_nat :: nat \<Rightarrow> 'f) ` {..d}"])
  have len: "length es = Suc d" using assms(3) by simp
  show "deg_le d (lagrange es)" using lagrange_deg [of es] len by simp
  show "deg_le d g" by fact
  show "d < card ((of_nat :: nat \<Rightarrow> 'f) ` {..d})" using assms(1) by (simp add: separates_def card_image)
  fix y assume "y \<in> (of_nat :: nat \<Rightarrow> 'f) ` {..d}"
  then obtain k where k: "y = of_nat k" "k \<le> d" by auto
  then have "lagrange es y = es ! k" using lagrange_node [of es k] assms(1) len by simp
  also have "es ! k = g (of_nat k)" using assms(3) k(2) by (simp del: upt_Suc)
  finally show "lagrange es y = g y" using k(1) by simp
qed simp

lemma lagrange_agreement:
  assumes "separates TYPE('f::field) d" "length es = Suc d" "length fs = Suc d" "es \<noteq> (fs :: 'f list)"
  shows "finite {x. lagrange es x = lagrange fs x} \<and> card {x. lagrange es x = lagrange fs x} \<le> d"
proof -
  obtain k where k: "k < Suc d" "es ! k \<noteq> fs ! k" using assms(2-4) by (metis nth_equalityI)
  then have "lagrange es (of_nat k) \<noteq> lagrange fs (of_nat k)"
    using assms lagrange_node [of es k] lagrange_node [of fs k] by simp
  with agreement_bound [of d "lagrange es" "lagrange fs"] lagrange_deg [of es] lagrange_deg [of fs] assms(2,3)
  show ?thesis by simp
qed

end
