(* ===== verification/Sumcheck.thy ===== *)
theory Sumcheck
  imports Field_Fold
begin

text \<open>
  The product sumchecks of the proof backend (\<open>zksm83-jolt/src/sumcheck.rs\<close>, \<open>sumcheck/rounds.rs\<close>,
  \<open>sumcheck/factor.rs\<close>, \<open>sumcheck/sparse.rs\<close>) on the CPU backend.  The transcript belongs to another crate:
  its operations are a parameter.  Parallel folds and reductions of field sums are sequential
  folds; phase metrics are left out.
\<close>

section \<open>Data\<close>

record ('t, 'f) transcript_ops =
  append_bytes :: "string \<Rightarrow> u8 list \<Rightarrow> 't \<Rightarrow> 't"
  append_field :: "string \<Rightarrow> 'f \<Rightarrow> 't \<Rightarrow> 't"
  challenge_scalar :: "string \<Rightarrow> 't \<Rightarrow> 'f \<times> 't"

type_synonym 'f array3 = "'f \<times> 'f \<times> 'f"

fun as_slice :: "'f array3 \<Rightarrow> 'f list" where
  "as_slice (a, b, c) = [a, b, c]"

record 'f product_sumcheck_proof =
  psp_rounds :: "'f array3 list"
  psp_final_left :: 'f
  psp_final_right :: 'f

record 'f sum_of_products_proof =
  spp_rounds :: "'f list list"
  spp_final_terms :: "'f list list"

datatype sumcheck_error =
    SC_EmptyFactors
  | SC_EmptyTable
  | SC_LengthMismatch
  | SC_NonPowerOfTwo
  | SC_ProofShape
  | SC_RoundClaimMismatch
  | SC_FinalClaimMismatch
  | SC_NonInvertibleInterpolation
  | SC_FoldingShape
  | SC_FieldFold field_fold_error

section \<open>Shared helpers\<close>

definition validate_tables :: "'f list \<Rightarrow> 'f list \<Rightarrow> sumcheck_error + unit" where
  "validate_tables left right =
     (if left = [] then Inl SC_EmptyTable
      else if length left \<noteq> length right then Inl SC_LengthMismatch
      else if \<not> is_power_of_two (length left) then Inl SC_NonPowerOfTwo
      else Inr ())"

definition variable_count :: "nat \<Rightarrow> sumcheck_error + nat" where
  "variable_count n = (if n = 0 \<or> \<not> is_power_of_two n then Inl SC_NonPowerOfTwo else Inr (ilog2 n))"

definition usize_to_field :: "nat \<Rightarrow> sumcheck_error + 'f::field" where
  "usize_to_field n = and_then (ok_or SC_ProofShape (u64_try_from n)) (\<lambda>v. Inr (of_nat (unat v)))"

definition field_inverse :: "'f::field \<Rightarrow> 'f option" where
  "field_inverse x = (if x = 0 then None else Some (inverse x))"

definition lagrange_factor :: "'f::field \<Rightarrow> 'f \<Rightarrow> nat \<Rightarrow> 'f \<times> 'f \<Rightarrow> nat \<Rightarrow> sumcheck_error + ('f \<times> 'f)" where
  "lagrange_factor point index_field index = (\<lambda>(numerator, denominator) other.
     if other = index then Inr (numerator, denominator)
     else and_then (usize_to_field other) (\<lambda>other_field.
       Inr (numerator * (point - other_field), denominator * (index_field - other_field))))"

definition lagrange_term :: "nat \<Rightarrow> 'f::field \<Rightarrow> 'f \<Rightarrow> nat \<times> 'f \<Rightarrow> sumcheck_error + 'f" where
  "lagrange_term count point result = (\<lambda>(index, evaluation).
     and_then (usize_to_field index) (\<lambda>index_field.
     and_then (try_fold (lagrange_factor point index_field index) (1, 1) [0..<count]) (\<lambda>(numerator, denominator).
     and_then (ok_or SC_NonInvertibleInterpolation (field_inverse denominator)) (\<lambda>inv.
       Inr (result + evaluation * numerator * inv)))))"

definition evaluate_lagrange :: "'f::field list \<Rightarrow> 'f \<Rightarrow> sumcheck_error + 'f" where
  "evaluate_lagrange evaluations point =
     (if evaluations = [] then Inl SC_ProofShape
      else try_fold (lagrange_term (length evaluations) point) 0 (enumerate 0 evaluations))"

definition absorb_round ::
  "('t, 'f) transcript_ops \<Rightarrow> string \<Rightarrow> nat \<Rightarrow> 'f list \<Rightarrow> 't \<Rightarrow> sumcheck_error + 't" where
  "absorb_round ops label round_index evaluations t =
     and_then (ok_or SC_ProofShape (u64_try_from round_index)) (\<lambda>round_index.
     and_then (ok_or SC_ProofShape (u64_try_from (length evaluations))) (\<lambda>evaluation_count.
       let t = append_bytes ops label (to_le_bytes round_index) t;
           t = append_bytes ops ''sumcheck-evaluation-count'' (to_le_bytes evaluation_count) t
       in Inr (fold (append_field ops ''sumcheck-evaluation'') evaluations t)))"

definition absorb_finals :: "('t, 'f) transcript_ops \<Rightarrow> string \<Rightarrow> 'f list \<Rightarrow> 't \<Rightarrow> sumcheck_error + 't" where
  "absorb_finals ops label finals t =
     and_then (ok_or SC_ProofShape (u64_try_from (length finals))) (\<lambda>count.
       Inr (fold (append_field ops ''sumcheck-final'') finals (append_bytes ops label (to_le_bytes count) t)))"

definition absorb_term_final :: "('t, 'f) transcript_ops \<Rightarrow> 't \<Rightarrow> 'f list \<Rightarrow> sumcheck_error + 't" where
  "absorb_term_final ops t term =
     and_then (ok_or SC_ProofShape (u64_try_from (length term))) (\<lambda>factor_count.
       Inr (fold (append_field ops ''sum-of-products-final'') term
         (append_bytes ops ''sum-of-products-factor-count'' (to_le_bytes factor_count) t)))"

definition absorb_term_finals :: "('t, 'f) transcript_ops \<Rightarrow> 'f list list \<Rightarrow> 't \<Rightarrow> sumcheck_error + 't" where
  "absorb_term_finals ops terms t =
     and_then (ok_or SC_ProofShape (u64_try_from (length terms))) (\<lambda>term_count.
       try_fold (absorb_term_final ops) (append_bytes ops ''sum-of-products-term-count'' (to_le_bytes term_count) t) terms)"

definition pair_values :: "'f list \<Rightarrow> sumcheck_error + ('f \<times> 'f)" where
  "pair_values pair =
     and_then (ok_or SC_FoldingShape (slice_first pair)) (\<lambda>zero.
     and_then (ok_or SC_FoldingShape (vec_get pair 1)) (\<lambda>one. Inr (zero, one)))"

definition first_value :: "'f list \<Rightarrow> sumcheck_error + 'f" where
  "first_value vs = ok_or SC_EmptyTable (slice_first vs)"

definition fold_borrowed :: "'f::field list \<Rightarrow> 'f \<Rightarrow> sumcheck_error + 'f list" where
  "fold_borrowed vs challenge = map_err SC_FieldFold (fold_binary_layer_from_slice_cpu vs challenge)"

definition fold_table :: "'f::field list \<Rightarrow> 'f \<Rightarrow> sumcheck_error + 'f list" where
  "fold_table table challenge =
     (if length table \<le> 1 \<or> \<not> is_power_of_two (length table) then Inl SC_FoldingShape
      else map_err SC_FieldFold (fold_binary_layer_cpu table challenge))"

lemma fold_table_shorter: "fold_table table challenge = Inr table' \<Longrightarrow> length table' < length table"
  by (auto simp: fold_table_def map_err_def fold_binary_layer_cpu_def Let_def split: if_splits sum.splits)

section \<open>The product sumcheck\<close>

definition inner_product :: "'f::field list \<Rightarrow> 'f list \<Rightarrow> sumcheck_error + 'f" where
  "inner_product left right =
     and_then (validate_tables left right) (\<lambda>_. Inr (fold (\<lambda>(l, r) s. s + l * r) (zip left right) 0))"

fun array3_map :: "('a \<Rightarrow> 'b) \<Rightarrow> 'a array3 \<Rightarrow> 'b array3" where
  "array3_map f (a, b, c) = (f a, f b, f c)"

fun array3_add :: "'f::field array3 \<Rightarrow> 'f array3 \<Rightarrow> 'f array3" where
  "array3_add (a, b, c) (a', b', c') = (a + a', b + b', c + c')"

definition product_pair :: "'f::field list \<Rightarrow> 'f list \<Rightarrow> 'f array3 \<Rightarrow> sumcheck_error + 'f array3" where
  "product_pair left_pair right_pair points =
     and_then (pair_values left_pair) (\<lambda>(left_zero, left_one).
     and_then (pair_values right_pair) (\<lambda>(right_zero, right_one).
       Inr (array3_map (\<lambda>point.
         (left_zero + point * (left_one - left_zero)) * (right_zero + point * (right_one - right_zero))) points)))"

definition product_round :: "'f::field list \<Rightarrow> 'f list \<Rightarrow> sumcheck_error + 'f array3" where
  "product_round left right =
     and_then (validate_tables left right) (\<lambda>_.
       if length left = 1 then Inl SC_FoldingShape
       else
         try_fold (\<lambda>acc (l, r). and_then (product_pair l r (0, 1, 2)) (\<lambda>v. Inr (array3_add acc v)))
           (0, 0, 0) (zip (chunks2 left) (chunks2 right)))"

type_synonym ('t, 'f) product_result = "sumcheck_error + (('f product_sumcheck_proof \<times> 'f \<times> 'f list) \<times> 't)"

definition finish_product_sumcheck ::
  "('t, 'f) transcript_ops \<Rightarrow> 'f list \<Rightarrow> 'f list \<Rightarrow> 'f array3 list \<Rightarrow> 'f \<Rightarrow> 'f list \<Rightarrow> 't \<Rightarrow> ('t, 'f) product_result" where
  "finish_product_sumcheck ops left right rounds claim point t =
     and_then (first_value left) (\<lambda>final_left.
     and_then (first_value right) (\<lambda>final_right.
     and_then (absorb_finals ops ''product-sumcheck-final'' [final_left, final_right] t) (\<lambda>t.
       Inr ((\<lparr>psp_rounds = rounds, psp_final_left = final_left, psp_final_right = final_right\<rparr>, claim, point), t))))"

text \<open>\<open>while left.len() > 1\<close>.\<close>

function product_loop ::
  "('t, 'f::field) transcript_ops \<Rightarrow> 'f list \<Rightarrow> 'f list \<Rightarrow> 'f array3 list \<Rightarrow> 'f \<Rightarrow> 'f list \<Rightarrow> 't \<Rightarrow> ('t, 'f) product_result" where
  "product_loop ops left right rounds claim point t =
     (if length left > 1 then
        and_then (product_round left right) (\<lambda>message.
        and_then (absorb_round ops ''product-sumcheck'' (length rounds) (as_slice message) t) (\<lambda>t1.
          case challenge_scalar ops ''product-sumcheck-challenge'' t1 of
            (challenge, t2) \<Rightarrow>
              and_then (fold_table left challenge) (\<lambda>left'.
              and_then (fold_table right challenge) (\<lambda>right'.
                product_loop ops left' right' (rounds @ [message]) claim (point @ [challenge]) t2))))
      else finish_product_sumcheck ops left right rounds claim point t)"
  by pat_completeness auto
termination
  by (relation "measure (\<lambda>(ops, left, right, rounds, claim, point, t). length left)") (auto dest: fold_table_shorter)

declare product_loop.simps [simp del]

definition prove_product :: "('t, 'f::field) transcript_ops \<Rightarrow> 'f list \<Rightarrow> 'f list \<Rightarrow> 't \<Rightarrow> ('t, 'f) product_result" where
  "prove_product ops left right t =
     and_then (validate_tables left right) (\<lambda>_.
     and_then (inner_product left right) (\<lambda>claim.
     and_then (variable_count (length left)) (\<lambda>_.
       if length left = 1 then finish_product_sumcheck ops left right [] claim [] t
       else
         and_then (product_round left right) (\<lambda>message.
         and_then (absorb_round ops ''product-sumcheck'' 0 (as_slice message) t) (\<lambda>t1.
           case challenge_scalar ops ''product-sumcheck-challenge'' t1 of
             (challenge, t2) \<Rightarrow>
               and_then (fold_borrowed left challenge) (\<lambda>left'.
               and_then (fold_borrowed right challenge) (\<lambda>right'.
                 product_loop ops left' right' [message] claim [challenge] t2)))))))"

fun product_verify_loop ::
  "('t, 'f::field) transcript_ops \<Rightarrow> nat \<Rightarrow> 'f array3 list \<Rightarrow> 'f \<Rightarrow> 'f list \<Rightarrow> 't \<Rightarrow> sumcheck_error + ('f \<times> 'f list \<times> 't)" where
  "product_verify_loop ops round_index [] claim point t = Inr (claim, point, t)"
| "product_verify_loop ops round_index ((m0, m1, m2) # messages) claim point t =
     (if m0 + m1 \<noteq> claim then Inl SC_RoundClaimMismatch
      else
        and_then (absorb_round ops ''product-sumcheck'' round_index [m0, m1, m2] t) (\<lambda>t1.
          case challenge_scalar ops ''product-sumcheck-challenge'' t1 of
            (challenge, t2) \<Rightarrow>
              and_then (evaluate_lagrange [m0, m1, m2] challenge) (\<lambda>claim'.
                product_verify_loop ops (Suc round_index) messages claim' (point @ [challenge]) t2)))"

definition verify_product ::
  "('t, 'f::field) transcript_ops \<Rightarrow> 'f product_sumcheck_proof \<Rightarrow> 'f \<Rightarrow> nat \<Rightarrow> 't \<Rightarrow> sumcheck_error + ('f list \<times> 't)" where
  "verify_product ops proof initial_claim expected_rounds t =
     (if length (psp_rounds proof) \<noteq> expected_rounds then Inl SC_ProofShape
      else
        and_then (product_verify_loop ops 0 (psp_rounds proof) initial_claim [] t) (\<lambda>(claim, point, t1).
          if claim \<noteq> psp_final_left proof * psp_final_right proof then Inl SC_FinalClaimMismatch
          else
            and_then (absorb_finals ops ''product-sumcheck-final'' [psp_final_left proof, psp_final_right proof] t1) (\<lambda>t2.
              Inr (point, t2))))"

section \<open>Sparse left tables\<close>

record 'f sparse_table =
  st_entries :: "(nat \<times> 'f) list"
  st_length :: nat

text \<open>\<open>last_mut()\<close> accumulates into the last entry of the same index.\<close>

definition merge_entry :: "(nat \<times> 'f::field) list \<Rightarrow> nat \<times> 'f \<Rightarrow> (nat \<times> 'f) list" where
  "merge_entry normalized entry =
     (case entry of (index, v) \<Rightarrow>
        (if normalized \<noteq> [] \<and> fst (last normalized) = index
         then butlast normalized @ [(index, snd (last normalized) + v)]
         else normalized @ [(index, v)]))"

definition merge_sorted :: "(nat \<times> 'f::field) list \<Rightarrow> (nat \<times> 'f) list" where
  "merge_sorted entries = filter (\<lambda>(_, v). v \<noteq> 0) (foldl merge_entry [] entries)"

text \<open>The order of equal keys is free in \<open>sort_unstable_by_key\<close>; merging adds them up.\<close>

definition normalize :: "(nat \<times> 'f::field) list \<Rightarrow> (nat \<times> 'f) list" where
  "normalize entries = merge_sorted (sort_key fst entries)"

definition sparse_new :: "(nat \<times> 'f::field) list \<Rightarrow> nat \<Rightarrow> sumcheck_error + 'f sparse_table" where
  "sparse_new entries len =
     (if len = 0 then Inl SC_EmptyTable
      else if \<not> is_power_of_two len then Inl SC_NonPowerOfTwo
      else if \<exists>e \<in> set entries. fst e \<ge> len then Inl SC_LengthMismatch
      else Inr \<lparr>st_entries = normalize entries, st_length = len\<rparr>)"

definition validate_right :: "'f sparse_table \<Rightarrow> 'f list \<Rightarrow> sumcheck_error + unit" where
  "validate_right s right = (if length right \<noteq> st_length s then Inl SC_LengthMismatch else Inr ())"

definition sparse_inner_product :: "'f::field sparse_table \<Rightarrow> 'f list \<Rightarrow> sumcheck_error + 'f" where
  "sparse_inner_product s right =
     and_then (validate_right s right) (\<lambda>_.
       try_fold (\<lambda>sum (index, v). and_then (ok_or SC_LengthMismatch (vec_get right index)) (\<lambda>r. Inr (sum + v * r)))
         0 (st_entries s))"

definition sparse_entry_round :: "nat \<Rightarrow> 'f::field \<Rightarrow> 'f list \<Rightarrow> 'f array3 \<Rightarrow> sumcheck_error + 'f array3" where
  "sparse_entry_round index v right points =
     and_then (ok_or SC_FoldingShape (usize_checked_mul (index div 2) 2)) (\<lambda>pair_start.
     and_then (ok_or SC_FoldingShape (vec_get right pair_start)) (\<lambda>right_zero.
     and_then (ok_or SC_FoldingShape (usize_checked_add pair_start 1)) (\<lambda>pair_end.
     and_then (ok_or SC_FoldingShape (vec_get right pair_end)) (\<lambda>right_one.
       Inr (array3_map (\<lambda>point.
         (if even index then v * (1 - point) else v * point) * (right_zero + point * (right_one - right_zero))) points)))))"

definition sparse_round :: "'f::field sparse_table \<Rightarrow> 'f list \<Rightarrow> sumcheck_error + 'f array3" where
  "sparse_round s right =
     and_then (validate_right s right) (\<lambda>_.
       if st_length s = 1 then Inl SC_FoldingShape
       else
         try_fold (\<lambda>acc (index, v). and_then (sparse_entry_round index v right (0, 1, 2)) (\<lambda>r. Inr (array3_add acc r)))
           (0, 0, 0) (st_entries s))"

definition sparse_fold :: "'f::field sparse_table \<Rightarrow> 'f \<Rightarrow> sumcheck_error + 'f sparse_table" where
  "sparse_fold s challenge =
     (if st_length s \<le> 1 \<or> \<not> is_power_of_two (st_length s) then Inl SC_FoldingShape
      else
        let one_minus = 1 - challenge;
            scaled = map (\<lambda>(index, v). (index div 2, (if even index then one_minus else challenge) * v)) (st_entries s)
        in Inr \<lparr>st_entries = merge_sorted scaled, st_length = st_length s div 2\<rparr>)"

definition sparse_final_value :: "'f::field sparse_table \<Rightarrow> sumcheck_error + 'f" where
  "sparse_final_value s =
     (if st_length s \<noteq> 1 then Inl SC_FoldingShape
      else (case st_entries s of [] \<Rightarrow> Inr 0 | [(0, v)] \<Rightarrow> Inr v | _ \<Rightarrow> Inl SC_FoldingShape))"

lemma sparse_fold_shorter: "sparse_fold s challenge = Inr s' \<Longrightarrow> st_length s' < st_length s"
  by (auto simp: sparse_fold_def Let_def split: if_splits)

definition finish_sparse ::
  "('t, 'f::field) transcript_ops \<Rightarrow> 'f sparse_table \<Rightarrow> 'f list \<Rightarrow> 'f array3 list \<Rightarrow> 'f \<Rightarrow> 'f list \<Rightarrow> 't \<Rightarrow> ('t, 'f) product_result" where
  "finish_sparse ops left right rounds claim point t =
     and_then (sparse_final_value left) (\<lambda>v. finish_product_sumcheck ops [v] right rounds claim point t)"

function sparse_loop ::
  "('t, 'f::field) transcript_ops \<Rightarrow> 'f sparse_table \<Rightarrow> 'f list \<Rightarrow> 'f array3 list \<Rightarrow> 'f \<Rightarrow> 'f list \<Rightarrow> 't \<Rightarrow> ('t, 'f) product_result" where
  "sparse_loop ops left right rounds claim point t =
     (if st_length left > 1 then
        and_then (sparse_round left right) (\<lambda>message.
        and_then (absorb_round ops ''product-sumcheck'' (length rounds) (as_slice message) t) (\<lambda>t1.
          case challenge_scalar ops ''product-sumcheck-challenge'' t1 of
            (challenge, t2) \<Rightarrow>
              and_then (sparse_fold left challenge) (\<lambda>left'.
              and_then (fold_table right challenge) (\<lambda>right'.
                sparse_loop ops left' right' (rounds @ [message]) claim (point @ [challenge]) t2))))
      else finish_sparse ops left right rounds claim point t)"
  by pat_completeness auto
termination
  by (relation "measure (\<lambda>(ops, left, right, rounds, claim, point, t). st_length left)") (auto dest: sparse_fold_shorter)

declare sparse_loop.simps [simp del]

definition prove_sparse_left ::
  "('t, 'f::field) transcript_ops \<Rightarrow> (nat \<times> 'f) list \<Rightarrow> nat \<Rightarrow> 'f list \<Rightarrow> 't \<Rightarrow> ('t, 'f) product_result" where
  "prove_sparse_left ops left_entries logical_length right t =
     and_then (sparse_new left_entries logical_length) (\<lambda>left.
       if length right \<noteq> logical_length then Inl SC_LengthMismatch
       else
         and_then (sparse_inner_product left right) (\<lambda>claim.
         and_then (variable_count logical_length) (\<lambda>_.
           if logical_length = 1 then finish_sparse ops left right [] claim [] t
           else
             and_then (sparse_round left right) (\<lambda>message.
             and_then (absorb_round ops ''product-sumcheck'' 0 (as_slice message) t) (\<lambda>t1.
               case challenge_scalar ops ''product-sumcheck-challenge'' t1 of
                 (challenge, t2) \<Rightarrow>
                   and_then (sparse_fold left challenge) (\<lambda>left'.
                   and_then (fold_borrowed right challenge) (\<lambda>right'.
                     sparse_loop ops left' right' [message] claim [challenge] t2)))))))"

end
