(* ===== verification/Sumcheck_Spec.thy ===== *)
theory Sumcheck_Spec
  imports Low_Degree Sumcheck
begin

text \<open>
  The sumcheck protocol in the abstract: the claim about a sum of products of tables, the round
  polynomial, and the two theorems every variant rests on.  Honest messages are accepted, and
  accepted messages for a false claim need a challenge on which a wrong message and the true
  round polynomial, both of bounded degree, happen to agree.
\<close>

section \<open>Claims and round polynomials\<close>

text \<open>A claim is the sum, over the indices of the tables, of a sum of products of table entries.\<close>

type_synonym 'f terms = "'f list list list"

definition term_sum :: "'f::field terms \<Rightarrow> nat \<Rightarrow> 'f" where
  "term_sum terms i = (\<Sum>factors\<leftarrow>terms. \<Prod>table\<leftarrow>factors. table ! i)"

definition claim_of :: "nat \<Rightarrow> 'f::field terms \<Rightarrow> 'f" where
  "claim_of n terms = (\<Sum>i < n. term_sum terms i)"

definition folded_terms :: "'f::field \<Rightarrow> 'f terms \<Rightarrow> 'f terms" where
  "folded_terms r terms = map (map (folded r)) terms"

text \<open>The round polynomial at a point is the claim about the tables folded at that point.\<close>

definition round_value :: "nat \<Rightarrow> 'f::field terms \<Rightarrow> 'f \<Rightarrow> 'f" where
  "round_value n terms r = claim_of (n div 2) (folded_terms r terms)"

definition terms_shape :: "nat \<Rightarrow> nat \<Rightarrow> 'f terms \<Rightarrow> bool" where
  "terms_shape n d terms \<longleftrightarrow> (\<forall>factors \<in> set terms. length factors = d \<and> (\<forall>table \<in> set factors. length table = n))"

lemma terms_shape_folded: "terms_shape n d terms \<Longrightarrow> terms_shape (n div 2) d (folded_terms r terms)"
  by (auto simp: terms_shape_def folded_terms_def)

lemma folded_term_sum:
  assumes "terms_shape n d terms" "i < n div 2"
  shows "term_sum (folded_terms r terms) i =
    (\<Sum>factors\<leftarrow>terms. \<Prod>table\<leftarrow>factors. table ! (2 * i) + r * (table ! (2 * i + 1) - table ! (2 * i)))"
  unfolding term_sum_def folded_terms_def map_map comp_def using assms
  by (auto simp: terms_shape_def folded_nth intro!: arg_cong [where f = sum_list] arg_cong [where f = prod_list] map_cong)

lemma round_split:
  assumes "terms_shape n d terms" "even n"
  shows "round_value n terms 0 + round_value n terms 1 = claim_of n terms"
proof -
  have ends: "term_sum (folded_terms 0 terms) i = term_sum terms (2 * i)"
    "term_sum (folded_terms 1 terms) i = term_sum terms (2 * i + 1)" if "i < n div 2" for i
    by (subst folded_term_sum [OF assms(1) that], simp add: term_sum_def)+
  have "claim_of n terms = (\<Sum>i < 2 * (n div 2). term_sum terms i)" using assms(2) by (simp add: claim_of_def)
  also have "\<dots> = (\<Sum>i < n div 2. term_sum terms (2 * i) + term_sum terms (2 * i + 1))" by (rule sum_pairs)
  also have "\<dots> = (\<Sum>i < n div 2. term_sum (folded_terms 0 terms) i + term_sum (folded_terms 1 terms) i)"
    using ends by (intro sum.cong) simp_all
  finally show ?thesis by (simp add: round_value_def claim_of_def sum.distrib)
qed

lemma round_deg:
  assumes "terms_shape n d terms"
  shows "deg_le d (round_value n terms)"
proof -
  have factors: "deg_le d (\<lambda>r. \<Prod>table\<leftarrow>factors. table ! (2 * i) + r * (table ! (2 * i + 1) - table ! (2 * i)))"
    if "factors \<in> set terms" for factors i
    using deg_le_prod_list [of "map (\<lambda>table. (table ! (2 * i), table ! (2 * i + 1) - table ! (2 * i))) factors"] assms that
    by (simp add: terms_shape_def comp_def)
  have "deg_le d (\<lambda>r. \<Sum>factors\<leftarrow>terms. \<Prod>table\<leftarrow>factors. table ! (2 * i) + r * (table ! (2 * i + 1) - table ! (2 * i)))" for i
    using deg_le_sum_list [of "map (\<lambda>factors r. \<Prod>table\<leftarrow>factors. table ! (2 * i) + r * (table ! (2 * i + 1) - table ! (2 * i))) terms" d]
      factors by (auto simp: comp_def)
  then have "deg_le d (\<lambda>r. \<Sum>i < n div 2. \<Sum>factors\<leftarrow>terms. \<Prod>table\<leftarrow>factors.
      table ! (2 * i) + r * (table ! (2 * i + 1) - table ! (2 * i)))"
    by (intro deg_le_sum) auto
  moreover have "round_value n terms = (\<lambda>r. \<Sum>i < n div 2. \<Sum>factors\<leftarrow>terms. \<Prod>table\<leftarrow>factors.
      table ! (2 * i) + r * (table ! (2 * i + 1) - table ! (2 * i)))"
    using assms by (auto simp: round_value_def claim_of_def folded_term_sum intro!: sum.cong)
  ultimately show ?thesis by simp
qed

section \<open>Messages\<close>

definition honest_message :: "nat \<Rightarrow> nat \<Rightarrow> 'f::field terms \<Rightarrow> 'f list" where
  "honest_message d n terms = map (\<lambda>k. round_value n terms (of_nat k)) [0..<Suc d]"

lemma honest_message_facts:
  assumes "0 < d"
  shows "length (honest_message d n terms) = Suc d" "honest_message d n terms ! 0 = round_value n terms 0"
    "honest_message d n terms ! 1 = round_value n terms 1"
  using assms by (simp_all add: honest_message_def del: upt_Suc)

text \<open>The verifier's checks on a list of messages and challenges, and the claim they end in.\<close>

fun rounds_accept :: "'f::field \<Rightarrow> 'f list list \<Rightarrow> 'f list \<Rightarrow> 'f \<Rightarrow> bool" where
  "rounds_accept claim [] [] final \<longleftrightarrow> final = claim"
| "rounds_accept claim (m # ms) (r # rs) final \<longleftrightarrow> m ! 0 + m ! 1 = claim \<and> rounds_accept (lagrange m r) ms rs final"
| "rounds_accept claim _ _ final \<longleftrightarrow> False"

text \<open>A challenge on which a wrong message agrees with the true round polynomial.\<close>

definition unlucky :: "nat \<Rightarrow> nat \<Rightarrow> 'f::field terms \<Rightarrow> 'f list \<Rightarrow> 'f \<Rightarrow> bool" where
  "unlucky d n terms m r \<longleftrightarrow> m \<noteq> honest_message d n terms \<and> lagrange m r = round_value n terms r"

fun some_unlucky :: "nat \<Rightarrow> nat \<Rightarrow> 'f::field terms \<Rightarrow> 'f list list \<Rightarrow> 'f list \<Rightarrow> bool" where
  "some_unlucky d n terms (m # ms) (r # rs) \<longleftrightarrow>
     unlucky d n terms m r \<or> some_unlucky d (n div 2) (folded_terms r terms) ms rs"
| "some_unlucky d n terms _ _ \<longleftrightarrow> False"

lemma honest_lagrange:
  assumes "separates TYPE('f::field) d" "terms_shape n d (terms :: 'f terms)"
  shows "lagrange (honest_message d n terms) r = round_value n terms r"
  using lagrange_of_values [OF assms(1) round_deg [OF assms(2)]] by (simp add: honest_message_def)

lemma unlucky_bound:
  assumes "separates TYPE('f::field) d" "terms_shape n d (terms :: 'f terms)" "length m = Suc d"
  shows "finite {r. unlucky d n terms m r} \<and> card {r. unlucky d n terms m r} \<le> d"
proof (cases "m = honest_message d n terms")
  case False
  have "{r. unlucky d n terms m r} = {r. lagrange m r = lagrange (honest_message d n terms) r}"
    using False honest_lagrange [OF assms(1,2)] by (auto simp: unlucky_def)
  then show ?thesis using lagrange_agreement [OF assms(1,3) _ False] by (simp add: honest_message_def)
qed (simp add: unlucky_def)

section \<open>Soundness and completeness\<close>

definition final_claim :: "'f::field terms \<Rightarrow> 'f list \<Rightarrow> 'f" where
  "final_claim terms rs = claim_of 1 (fold folded_terms rs terms)"

lemma rounds_sound:
  assumes "separates TYPE('f::field) d" "0 < d" "terms_shape (2 ^ length rs) d (terms :: 'f terms)"
    "\<forall>m \<in> set ms. length m = Suc d" "rounds_accept claim ms rs (final_claim terms rs)"
  shows "claim = claim_of (2 ^ length rs) terms \<or> some_unlucky d (2 ^ length rs) terms ms rs"
  using assms(3-)
proof (induction rs arbitrary: claim ms terms)
  case Nil
  then show ?case by (cases ms) (simp_all add: final_claim_def)
next
  case (Cons r rs)
  obtain m ms' where ms: "ms = m # ms'" using Cons.prems(3) by (cases ms) auto
  let ?n = "2 ^ length (r # rs) :: nat"
  have half: "?n div 2 = 2 ^ length rs" by simp
  have shape: "terms_shape (2 ^ length rs) d (folded_terms r terms)"
    using terms_shape_folded [OF Cons.prems(1)] half by simp
  have "rounds_accept (lagrange m r) ms' rs (final_claim (folded_terms r terms) rs)"
    using Cons.prems(3) ms by (simp add: final_claim_def)
  from Cons.IH [OF shape _ this] Cons.prems(2) ms
  have IH: "lagrange m r = round_value ?n terms r \<or> some_unlucky d (2 ^ length rs) (folded_terms r terms) ms' rs"
    by (simp add: round_value_def)
  show ?case
  proof (cases "m = honest_message d ?n terms")
    case True
    then have "claim = round_value ?n terms 0 + round_value ?n terms 1"
      using Cons.prems(3) ms by (auto simp: honest_message_facts [OF assms(2), unfolded One_nat_def])
    then show ?thesis using round_split [OF Cons.prems(1)] by simp
  next
    case False
    with IH ms show ?thesis by (auto simp: unlucky_def)
  qed
qed

text \<open>
  The challenges on which a dishonest message \<open>m\<close> goes unnoticed after the challenges \<open>prefix\<close>: a set
  fixed before the challenge is drawn, of at most \<open>d\<close> elements.
\<close>

definition bad_challenges :: "nat \<Rightarrow> 'f::field terms \<Rightarrow> nat \<Rightarrow> 'f list \<Rightarrow> 'f list \<Rightarrow> 'f set" where
  "bad_challenges d terms n prefix m = {r. unlucky d (2 ^ (n - length prefix)) (fold folded_terms prefix terms) m r}"

lemma shape_after:
  "terms_shape (2 ^ n) d terms \<Longrightarrow> length prefix \<le> n \<Longrightarrow> terms_shape (2 ^ (n - length prefix)) d (fold folded_terms prefix terms)"
proof (induction prefix arbitrary: n terms)
  case (Cons r prefix)
  then obtain k where n: "n = Suc k" by (cases n) auto
  with Cons terms_shape_folded [OF Cons.prems(1), of r] show ?case by simp
qed simp

lemma bad_challenges_bound:
  assumes "separates TYPE('f::field) d" "terms_shape (2 ^ n) d (terms :: 'f terms)" "length prefix \<le> n" "length m = Suc d"
  shows "finite (bad_challenges d terms n prefix m) \<and> card (bad_challenges d terms n prefix m) \<le> d"
  unfolding bad_challenges_def by (rule unlucky_bound [OF assms(1) shape_after [OF assms(2,3)] assms(4)])

lemma some_unlucky_bad:
  "some_unlucky d (2 ^ length rs) terms ms rs \<Longrightarrow>
     \<exists>k < length rs. k < length ms \<and> rs ! k \<in> bad_challenges d terms (length rs) (take k rs) (ms ! k)"
proof (induction rs arbitrary: ms terms)
  case (Cons r rs)
  obtain m ms' where ms: "ms = m # ms'" using Cons.prems by (cases ms) auto
  show ?case
  proof (cases "unlucky d (2 ^ length (r # rs)) terms m r")
    case True
    then show ?thesis using ms by (intro exI [of _ 0]) (simp add: bad_challenges_def)
  next
    case False
    then have "some_unlucky d (2 ^ length rs) (folded_terms r terms) ms' rs" using Cons.prems ms by simp
    from Cons.IH [OF this] obtain k where
      "k < length rs" "k < length ms'" "rs ! k \<in> bad_challenges d (folded_terms r terms) (length rs) (take k rs) (ms' ! k)" by blast
    then show ?thesis using ms by (intro exI [of _ "Suc k"]) (simp add: bad_challenges_def)
  qed
qed simp

section \<open>Interpolation in the source\<close>

lemma usize_to_field_small: "n < 2 ^ 64 \<Longrightarrow> usize_to_field n = Inr (of_nat n)"
  by (simp add: usize_to_field_def u64_try_from_def unat_of_nat del: of_nat_unat)

lemma lagrange_factors:
  assumes "k \<le> 2 ^ 64"
  shows "try_fold (lagrange_factor x (of_nat i) i) (a, b) [0..<k] =
    Inr (a * (\<Prod>j \<in> {..<k} - {i}. x - of_nat j), b * (\<Prod>j \<in> {..<k} - {i}. of_nat i - of_nat j))"
  using assms
proof (induction k)
  case (Suc k)
  have "{..<Suc k} - {i} = (if k = i then {..<k} - {i} else insert k ({..<k} - {i}))" by auto
  then show ?case using Suc by (auto simp: try_fold_append lagrange_factor_def usize_to_field_small mult.assoc mult.commute)
qed simp

lemma evaluate_lagrange_exact:
  assumes "separates TYPE('f::field) (length es - 1)" "es \<noteq> []" "length es \<le> 2 ^ 64"
  shows "evaluate_lagrange (es :: 'f list) x = Inr (lagrange es x)"
proof -
  let ?n = "length es"
  have denominator: "(\<Prod>j \<in> {..<?n} - {i}. of_nat i - of_nat j :: 'f) \<noteq> 0" if "i < ?n" for i
    using assms(1) that by (auto simp: separates_def inj_on_def)
  have "try_fold (lagrange_term ?n x) s (map (\<lambda>i. (i, es ! i)) [0..<k]) =
      Inr (s + (\<Sum>i < k. es ! i * lagrange_basis ?n i x))" if "k \<le> ?n" for s k
    using that
  proof (induction k)
    case (Suc k)
    have "lagrange_term ?n x a (k, es ! k) = Inr (a + es ! k * lagrange_basis ?n k x)" for a
      using Suc.prems assms(3) denominator [of k]
      by (simp add: lagrange_term_def usize_to_field_small lagrange_factors field_inverse_def lagrange_basis_quotient mult.assoc
          del: prod_zero_iff)
    with Suc show ?case by (simp add: try_fold_append add.assoc)
  qed simp
  moreover have "enumerate 0 es = map (\<lambda>i. (i, es ! i)) [0..<?n]"
    by (rule nth_equalityI) (simp_all add: nth_enumerate_eq)
  ultimately show ?thesis using assms(2) by (simp add: evaluate_lagrange_def lagrange_def)
qed

end
