(* ===== verification/Sumcheck_Product.thy ===== *)
theory Sumcheck_Product
  imports Sumcheck_Spec
begin

text \<open>
  The product sumcheck against the abstract protocol: what the prover computes, that its proof is
  accepted, what acceptance means, and that the sparse prover is the dense one.
\<close>

section \<open>Rounds and folds\<close>

abbreviation product_terms :: "'f list \<Rightarrow> 'f list \<Rightarrow> 'f terms" where
  "product_terms left right \<equiv> [[left, right]]"

lemma product_shape: "length left = n \<Longrightarrow> length right = n \<Longrightarrow> terms_shape n 2 (product_terms left right)"
  by (simp add: terms_shape_def)

lemma folded_product [simp]: "folded_terms r (product_terms left right) = product_terms (folded r left) (folded r right)"
  by (simp add: folded_terms_def)

lemma dot_product:
  fixes xs :: "'f::field list"
  assumes "length xs = length ys"
  shows "sum_list (map2 (*) xs ys) = claim_of (length xs) (product_terms xs ys)"
  using assms by (simp add: sum_list_sum_nth claim_of_def term_sum_def atLeast0LessThan)

lemma validate_tables_ok:
  "length left = 2 ^ n \<Longrightarrow> length right = 2 ^ n \<Longrightarrow> validate_tables left right = Inr ()"
  by (auto simp: validate_tables_def)

lemma inner_product_exact:
  assumes "length left = 2 ^ n" "length right = 2 ^ n"
  shows "inner_product left right = Inr (claim_of (2 ^ n) (product_terms left right))"
proof -
  have "fold (\<lambda>(l, r) s. s + l * r) (zip xs ys) a = a + sum_list (map2 (*) xs ys)" for a and xs ys :: "'a list"
    by (induction xs ys arbitrary: a rule: list_induct2') (simp_all add: add.assoc)
  with assms dot_product [of left right] show ?thesis by (simp add: inner_product_def validate_tables_ok)
qed

lemma product_pairs_sum:
  fixes left :: "'f::field list"
  assumes "length left = length right"
  shows "try_fold (\<lambda>acc (l, r). and_then (product_pair l r (x, y, z)) (\<lambda>v. Inr (array3_add acc v)))
      acc (zip (chunks2 left) (chunks2 right)) =
    Inr (array3_add acc (array3_map (\<lambda>p. sum_list (map2 (*) (folded p left) (folded p right))) (x, y, z)))"
  using assms
proof (induction left arbitrary: right acc rule: chunks2.induct)
  case (1 a b xs)
  then obtain c d ys where right: "right = c # d # ys" "length xs = length ys" by (metis length_Suc_conv)
  then show ?case using 1(1) [of ys] by (cases acc) (simp add: product_pair_def pair_values_def vec_get_def add.assoc)
next
  case 2
  then show ?case by (cases acc) simp
next
  case (3 v)
  then obtain w where "right = [w]" by (cases right) auto
  then show ?case by (cases acc) simp
qed

lemma product_round_exact:
  fixes left :: "'f::field list"
  assumes "length left = 2 ^ Suc n" "length right = 2 ^ Suc n"
  shows "\<exists>m. product_round left right = Inr m \<and> as_slice m = honest_message 2 (2 ^ Suc n) (product_terms left right)"
proof -
  have "sum_list (map2 (*) (folded p left) (folded p right)) = round_value (2 ^ Suc n) (product_terms left right) p" for p
    using assms by (simp add: dot_product round_value_def)
  moreover have "length left \<noteq> 1" using assms by simp
  ultimately have "product_round left right = Inr (array3_map (round_value (2 ^ Suc n) (product_terms left right)) (0, 1, 2))"
    using assms validate_tables_ok [OF assms] product_pairs_sum [of left right 0 1 2 "(0, 0, 0)"] by (simp add: product_round_def)
  then show ?thesis by (simp add: honest_message_def numeral_2_eq_2)
qed

lemma fold_layer_exact:
  assumes "length table = 2 ^ Suc n" "Suc n < 64"
  shows "fold_table table r = Inr (folded r table)" "fold_borrowed table r = Inr (folded r table)"
proof -
  have "(2 :: nat) ^ Suc n < 2 ^ 64" using assms(2) by (intro power_strict_increasing) simp_all
  moreover have "is_power_of_two (2 ^ Suc n)" by (rule is_power_of_two_pow2)
  moreover have "1 < (2 :: nat) ^ Suc n" by (rule one_less_power) simp_all
  ultimately show "fold_table table r = Inr (folded r table)" "fold_borrowed table r = Inr (folded r table)"
    using assms(1) by (simp_all add: fold_table_def fold_borrowed_def in_place_folded from_slice_folded)
qed

lemma honest_lagrange_eval:
  assumes "separates TYPE('f::field) 2" "length left = 2 ^ Suc n" "length right = 2 ^ Suc n"
    "es = honest_message 2 (2 ^ Suc n) (product_terms left (right :: 'f list))"
  shows "evaluate_lagrange es r = Inr (claim_of (2 ^ n) (product_terms (folded r left) (folded r right)))"
proof -
  have "length es = Suc 2" using assms(4) by (simp add: honest_message_def)
  then have "evaluate_lagrange es r = Inr (lagrange es r)"
    using assms(1) by (intro evaluate_lagrange_exact) auto
  then show ?thesis
    using honest_lagrange [OF assms(1) product_shape, of left "2 ^ Suc n" right r] assms by (simp add: round_value_def)
qed

section \<open>The prover\<close>

text \<open>The checks of the verifier, replayed on what the prover absorbed.\<close>

definition proves_and_verifies ::
  "('t, 'f::field) transcript_ops \<Rightarrow> 'f list \<Rightarrow> 'f list \<Rightarrow> 'f array3 list \<Rightarrow> 'f \<Rightarrow> 'f list \<Rightarrow> 't \<Rightarrow> nat \<Rightarrow> ('t, 'f) product_result \<Rightarrow> bool" where
  "proves_and_verifies ops left right rounds claim point t n result \<longleftrightarrow>
     (\<exists>new rs t1 t2.
        result = Inr ((\<lparr>psp_rounds = rounds @ new, psp_final_left = mle left rs, psp_final_right = mle right rs\<rparr>, claim, point @ rs), t2) \<and>
        length new = n \<and> length rs = n \<and>
        product_verify_loop ops (length rounds) new (claim_of (2 ^ n) (product_terms left right)) point t =
          Inr (mle left rs * mle right rs, point @ rs, t1) \<and>
        absorb_finals ops ''product-sumcheck-final'' [mle left rs, mle right rs] t1 = Inr t2)"

lemma absorb_finals_ok: "\<exists>t'. absorb_finals ops label [a, b] t = Inr t'"
  by (simp add: absorb_finals_def u64_try_from_def)

lemma absorb_round_ok: "k < 2 ^ 64 \<Longrightarrow> \<exists>t'. absorb_round ops label k (as_slice m) t = Inr t'"
  by (cases m) (simp add: absorb_round_def u64_try_from_def Let_def)

lemma finish_verifies:
  assumes "length left = 1" "length right = 1"
  shows "proves_and_verifies ops left right rounds claim point t 0 (finish_product_sumcheck ops left right rounds claim point t)"
proof -
  obtain a b where "left = [a]" "right = [b]" using assms by (auto simp: length_Suc_conv)
  moreover obtain t2 where "absorb_finals ops ''product-sumcheck-final'' [a, b] t = Inr t2"
    using absorb_finals_ok [of ops "''product-sumcheck-final''" a b t] by blast
  ultimately show ?thesis
    by (simp add: proves_and_verifies_def finish_product_sumcheck_def first_value_def mle_Nil claim_of_def term_sum_def)
qed

lemma round_verifies:
  assumes "separates TYPE('f::field) 2" "length left = 2 ^ Suc n" "length (right :: 'f list) = 2 ^ Suc n"
    and m: "as_slice m = honest_message 2 (2 ^ Suc n) (product_terms left right)"
    and t: "absorb_round ops ''product-sumcheck'' (length rounds) (as_slice m) t = Inr t1"
      "challenge_scalar ops ''product-sumcheck-challenge'' t1 = (r, t2)"
    and rest: "proves_and_verifies ops (folded r left) (folded r right) (rounds @ [m]) claim (point @ [r]) t2 n result"
  shows "proves_and_verifies ops left right rounds claim point t (Suc n) result"
proof -
  obtain new rs t3 t4 where new:
    "result = Inr ((\<lparr>psp_rounds = (rounds @ [m]) @ new, psp_final_left = mle (folded r left) rs, psp_final_right = mle (folded r right) rs\<rparr>,
       claim, (point @ [r]) @ rs), t4)" "length new = n" "length rs = n"
    "product_verify_loop ops (length (rounds @ [m])) new (claim_of (2 ^ n) (product_terms (folded r left) (folded r right))) (point @ [r]) t2 =
       Inr (mle (folded r left) rs * mle (folded r right) rs, (point @ [r]) @ rs, t3)"
    "absorb_finals ops ''product-sumcheck-final'' [mle (folded r left) rs, mle (folded r right) rs] t3 = Inr t4"
    using rest unfolding proves_and_verifies_def by blast
  obtain m0 m1 m2 where ms: "m = (m0, m1, m2)" by (cases m)
  have ev: "even (length left)" "even (length right)" using assms by simp_all
  have "m0 + m1 = claim_of (2 ^ Suc n) (product_terms left right)"
    using m ms honest_message_facts [of 2 "2 ^ Suc n" "product_terms left right"]
      round_split [OF product_shape [OF assms(2,3)]]
    by (metis (no_types, lifting) as_slice.simps even_Suc_div_two even_power nat.distinct(1) nth_Cons_0 nth_Cons_Suc One_nat_def
        even_numeral pos2 zero_less_Suc)
  moreover have "evaluate_lagrange [m0, m1, m2] r = Inr (claim_of (2 ^ n) (product_terms (folded r left) (folded r right)))"
    using honest_lagrange_eval [OF assms(1-3)] m ms by simp
  ultimately show ?thesis
    unfolding proves_and_verifies_def using new t ms ev
    by (intro exI [of _ "m # new"] exI [of _ "r # rs"] exI [of _ t3] exI [of _ t4]) (simp add: mle_folded)
qed

lemma product_loop_verifies:
  assumes "separates TYPE('f::field) 2" "length left = 2 ^ n" "length (right :: 'f list) = 2 ^ n" "n < 64" "length rounds + n \<le> 64"
  shows "proves_and_verifies ops left right rounds claim point t n (product_loop ops left right rounds claim point t)"
  using assms(2-)
proof (induction n arbitrary: left right rounds point t)
  case 0
  then have "length left = 1" "length right = 1" by simp_all
  then show ?case using finish_verifies by (subst product_loop.simps) simp
next
  case (Suc n)
  obtain m where m: "product_round left right = Inr m" "as_slice m = honest_message 2 (2 ^ Suc n) (product_terms left right)"
    using product_round_exact [OF Suc.prems(1,2)] by blast
  obtain t1 where t1: "absorb_round ops ''product-sumcheck'' (length rounds) (as_slice m) t = Inr t1"
    using absorb_round_ok [of "length rounds"] Suc.prems(4) by fastforce
  obtain r t2 where t2: "challenge_scalar ops ''product-sumcheck-challenge'' t1 = (r, t2)" by fastforce
  have long: "1 < length left" unfolding Suc.prems(1) by (rule one_less_power) simp_all
  have loop: "product_loop ops left right rounds claim point t =
      product_loop ops (folded r left) (folded r right) (rounds @ [m]) claim (point @ [r]) t2"
    using m(1) t1 t2 long fold_layer_exact(1) [OF Suc.prems(1,3)] fold_layer_exact(1) [OF Suc.prems(2,3)]
    by (subst product_loop.simps) simp
  have "proves_and_verifies ops (folded r left) (folded r right) (rounds @ [m]) claim (point @ [r]) t2 n
      (product_loop ops (folded r left) (folded r right) (rounds @ [m]) claim (point @ [r]) t2)"
    using Suc by (intro Suc.IH) simp_all
  from round_verifies [OF assms(1) Suc.prems(1,2) m(2) t1 t2 this] show ?case unfolding loop .
qed

lemma prove_product_verifies:
  assumes "separates TYPE('f::field) 2" "length left = 2 ^ n" "length (right :: 'f list) = 2 ^ n" "n < 64"
  shows "proves_and_verifies ops left right [] (claim_of (2 ^ n) (product_terms left right)) [] t n (prove_product ops left right t)"
proof -
  have vars: "variable_count (length left) = Inr n" using assms(2) by (simp add: variable_count_def)
  note start = validate_tables_ok [OF assms(2,3)] inner_product_exact [OF assms(2,3)] vars
  show ?thesis
  proof (cases n)
    case 0
    then have "length left = 1" "length right = 1" using assms by simp_all
    with finish_verifies [of left right ops "[]" _ "[]" t] start 0 show ?thesis by (simp add: prove_product_def)
  next
    case (Suc k)
    note len = assms(2,3) [unfolded Suc] and small = assms(4) [unfolded Suc]
    obtain m where m: "product_round left right = Inr m" "as_slice m = honest_message 2 (2 ^ Suc k) (product_terms left right)"
      using product_round_exact [OF len] by blast
    obtain t1 where t1: "absorb_round ops ''product-sumcheck'' (length ([] :: 'f array3 list)) (as_slice m) t = Inr t1"
      using absorb_round_ok [of 0] by fastforce
    obtain r t2 where t2: "challenge_scalar ops ''product-sumcheck-challenge'' t1 = (r, t2)" by fastforce
    let ?c = "claim_of (2 ^ n) (product_terms left right)"
    have prove: "prove_product ops left right t = product_loop ops (folded r left) (folded r right) ([] @ [m]) ?c ([] @ [r]) t2"
      using start m(1) t1 t2 len fold_layer_exact(2) [OF len(1) small] fold_layer_exact(2) [OF len(2) small]
      by (simp add: prove_product_def)
    have "proves_and_verifies ops (folded r left) (folded r right) ([] @ [m]) ?c ([] @ [r]) t2 k
        (product_loop ops (folded r left) (folded r right) ([] @ [m]) ?c ([] @ [r]) t2)"
      using len small by (intro product_loop_verifies [OF assms(1)]) simp_all
    from round_verifies [OF assms(1) len m(2) t1 t2 this] show ?thesis unfolding prove Suc .
  qed
qed

section \<open>The verifier\<close>

lemma verify_loop_accepts:
  assumes "separates TYPE('f::field) 2" "product_verify_loop ops k rounds (claim :: 'f) point t = Inr (final, point', t')"
  shows "\<exists>rs. point' = point @ rs \<and> rounds_accept claim (map as_slice rounds) rs final \<and> length rs = length rounds"
  using assms(2)
proof (induction ops k rounds claim point t rule: product_verify_loop.induct)
  case (2 ops k m0 m1 m2 messages claim point t)
  obtain t1 r t2 c where step: "m0 + m1 = claim" "absorb_round ops ''product-sumcheck'' k [m0, m1, m2] t = Inr t1"
    "challenge_scalar ops ''product-sumcheck-challenge'' t1 = (r, t2)" "evaluate_lagrange [m0, m1, m2] r = Inr c"
    "product_verify_loop ops (Suc k) messages c (point @ [r]) t2 = Inr (final, point', t')"
    using "2.prems" by (cases "challenge_scalar ops ''product-sumcheck-challenge''
      (projr (absorb_round ops ''product-sumcheck'' k [m0, m1, m2] t))") (auto split: if_splits)
  have "separates TYPE('f) (length [m0, m1, m2] - 1)" using assms(1) by (simp add: numeral_2_eq_2)
  from evaluate_lagrange_exact [OF this, of r] step(4) have "c = lagrange [m0, m1, m2] r" by simp
  with "2.IH" [OF _ step(2) _ step(4,5)] step(1,3) obtain rs where
    "point' = (point @ [r]) @ rs" "rounds_accept (lagrange [m0, m1, m2] r) (map as_slice messages) rs final" "length rs = length messages"
    by fastforce
  with step(1) show ?case by (intro exI [of _ "r # rs"]) simp
qed simp

lemma verify_product_accepts:
  assumes "separates TYPE('f::field) 2" "verify_product ops proof (claim :: 'f) n t = Inr (point, t')"
  shows "length (psp_rounds proof) = n \<and> length point = n \<and>
    rounds_accept claim (map as_slice (psp_rounds proof)) point (psp_final_left proof * psp_final_right proof)"
  using assms(2) verify_loop_accepts [OF assms(1), of ops 0 "psp_rounds proof" claim "[]" t]
  by (fastforce simp: verify_product_def split: if_splits prod.splits)

lemma fold_folded_terms:
  assumes "length left = 2 ^ length rs" "length right = 2 ^ length rs"
  shows "final_claim (product_terms left right) rs = mle left rs * mle right rs"
  using assms
proof (induction rs arbitrary: left right)
  case Nil
  then obtain a b where "left = [a]" "right = [b]" by (metis length_0_conv length_Suc_conv list.size(3) One_nat_def power_0)
  then show ?case by (simp add: final_claim_def claim_of_def term_sum_def mle_Nil)
next
  case (Cons r rs)
  then show ?case using Cons.IH [of "folded r left" "folded r right"] by (simp add: final_claim_def mle_folded)
qed

section \<open>Sparse tables\<close>

text \<open>The dense table a sparse one stands for.\<close>

definition dense_value :: "(nat \<times> 'f::field) list \<Rightarrow> nat \<Rightarrow> 'f" where
  "dense_value entries i = (\<Sum>(j, v)\<leftarrow>entries. if j = i then v else 0)"

definition dense :: "'f::field sparse_table \<Rightarrow> 'f list" where
  "dense s = map (dense_value (st_entries s)) [0..<st_length s]"

definition sparse_wf :: "'f sparse_table \<Rightarrow> bool" where
  "sparse_wf s \<longleftrightarrow> sorted_wrt (<) (map fst (st_entries s)) \<and> (\<forall>e \<in> set (st_entries s). fst e < st_length s)"

lemma dense_value_simps [simp]:
  "dense_value [] i = 0" "dense_value ((j, v) # es) i = (if j = i then v else 0) + dense_value es i"
  "dense_value (es @ fs) i = dense_value es i + dense_value fs i"
  by (simp_all add: dense_value_def)

lemma dense_value_filter: "dense_value es i = sum_list (map snd (filter (\<lambda>e. fst e = i) es))"
  by (induction es) auto

lemma dense_value_halves:
  "dense_value (map (\<lambda>(j, v). (j div 2, (if even j then 1 - r else r) * v)) es) i =
     dense_value es (2 * i) + r * (dense_value es (2 * i + 1) - dense_value es (2 * i))"
proof (induction es)
  case (Cons e es)
  obtain j v where e: "e = (j, v)" by (cases e)
  show ?case
  proof (cases "even j")
    case True
    then obtain k where "j = 2 * k" by blast
    with Cons e show ?thesis by (auto simp: algebra_simps)
  next
    case False
    then obtain k where "j = 2 * k + 1" by (elim oddE)
    with Cons e show ?thesis by (auto simp: algebra_simps)
  qed
qed simp

lemma length_dense [simp]: "length (dense s) = st_length s"
  by (simp add: dense_def)

lemma dense_nth: "i < st_length s \<Longrightarrow> dense s ! i = dense_value (st_entries s) i"
  by (simp add: dense_def)

text \<open>A sum over the entries is the sum over the dense table.\<close>

lemma sum_entries:
  "\<forall>e \<in> set es. fst e < n \<Longrightarrow> (\<Sum>(j, v)\<leftarrow>es. v * g j) = (\<Sum>i < n. dense_value es i * g i)"
proof (induction es)
  case (Cons e es)
  obtain j v where e: "e = (j, v)" by (cases e)
  have "(\<Sum>i < n. (if j = i then v else 0) * g i) = v * g j" using Cons.prems e by (simp add: if_distrib [of "\<lambda>x. x * _"] cong: if_cong)
  with Cons e show ?case by (simp add: distrib_right sum.distrib)
qed simp

lemma merge_entry_value: "dense_value (merge_entry es e) i = dense_value es i + dense_value [e] i"
proof (cases "es = []")
  case False
  then obtain fs j v where "es = fs @ [(j, v)]" by (metis prod.exhaust rev_exhaust)
  then show ?thesis by (cases e) (simp add: merge_entry_def add.assoc)
qed (cases e, simp add: merge_entry_def)

lemma merge_value: "dense_value (foldl merge_entry es fs) i = dense_value es i + dense_value fs i"
proof (induction fs arbitrary: es)
  case (Cons f fs)
  then show ?case by (cases f) (simp add: merge_entry_value add.assoc)
qed simp

lemma filter_nonzero_value: "dense_value (filter (\<lambda>(_, v). v \<noteq> 0) es) i = dense_value es i"
  by (induction es) auto

lemma merge_sorted_value: "dense_value (merge_sorted es) i = dense_value es i"
  by (simp add: merge_sorted_def filter_nonzero_value merge_value)

lemma merge_entry_sorted:
  assumes "sorted_wrt (<) (map fst es)" "es = [] \<or> fst (last es) \<le> fst e"
  shows "sorted_wrt (<) (map fst (merge_entry es e)) \<and> merge_entry es e \<noteq> [] \<and> fst (last (merge_entry es e)) = fst e \<and>
    fst ` set (merge_entry es e) = insert (fst e) (fst ` set es)"
proof (cases "es = []")
  case False
  then obtain fs j v where es: "es = fs @ [(j, v)]" by (metis prod.exhaust rev_exhaust)
  with assms show ?thesis by (cases e) (auto simp: merge_entry_def sorted_wrt_append)
qed (cases e, simp add: merge_entry_def)

lemma merge_fold_sorted:
  assumes "sorted_wrt (<) (map fst es)" "sorted (map fst fs)" "es = [] \<or> (\<forall>f \<in> set fs. fst (last es) \<le> fst f)"
  shows "sorted_wrt (<) (map fst (foldl merge_entry es fs)) \<and> fst ` set (foldl merge_entry es fs) = fst ` set es \<union> fst ` set fs"
  using assms
proof (induction fs arbitrary: es)
  case (Cons f fs)
  note one = merge_entry_sorted [of es f]
  have "sorted_wrt (<) (map fst (foldl merge_entry (merge_entry es f) fs)) \<and>
      fst ` set (foldl merge_entry (merge_entry es f) fs) = fst ` set (merge_entry es f) \<union> fst ` set fs"
    using Cons.prems one by (intro Cons.IH) auto
  then show ?case using Cons.prems one by auto
qed simp

lemma merge_sorted_wf:
  assumes "sorted (map fst es)"
  shows "sorted_wrt (<) (map fst (merge_sorted es)) \<and> fst ` set (merge_sorted es) \<subseteq> fst ` set es"
proof -
  note m = merge_fold_sorted [of "[]" es]
  have "sorted_wrt (<) (map fst (filter P xs))" if "sorted_wrt (<) (map fst xs)" for P and xs :: "(nat \<times> 'a) list"
    using that by (induction xs) auto
  with m assms show ?thesis by (auto simp: merge_sorted_def)
qed

lemma sparse_new_wf:
  assumes "sparse_new entries n = Inr s"
  shows "sparse_wf s" "st_length s = n" "is_power_of_two n" "dense s = map (dense_value entries) [0..<n]"
proof -
  have s: "s = \<lparr>st_entries = normalize entries, st_length = n\<rparr>" "\<forall>e \<in> set entries. fst e < n" "is_power_of_two n"
    using assms by (auto simp: sparse_new_def not_le split: if_splits)
  show "st_length s = n" "is_power_of_two n" using s by simp_all
  have "sorted (map fst (sort_key fst entries))" by (rule sorted_sort_key)
  from merge_sorted_wf [OF this] s(2) show "sparse_wf s" by (fastforce simp: s(1) sparse_wf_def normalize_def)
  have "dense_value (sort_key fst entries) i = dense_value entries i" for i
    unfolding dense_value_filter sort_key_stable ..
  then show "dense s = map (dense_value entries) [0..<n]" by (simp add: s(1) dense_def normalize_def merge_sorted_value)
qed

lemma sparse_sum:
  assumes "sparse_wf s"
  shows "(\<Sum>(j, v)\<leftarrow>st_entries s. v * g j) = (\<Sum>i < st_length s. dense s ! i * g i)"
  using sum_entries [of "st_entries s" "st_length s" g] assms by (auto simp: sparse_wf_def dense_nth intro!: sum.cong)

lemma sparse_inner_product_exact:
  assumes "sparse_wf s" "st_length s = 2 ^ n" "length right = 2 ^ n"
  shows "sparse_inner_product s right = Inr (claim_of (2 ^ n) (product_terms (dense s) right))"
proof -
  have "try_fold (\<lambda>sum (j, v). and_then (ok_or SC_LengthMismatch (vec_get right j)) (\<lambda>r. Inr (sum + v * r))) a es =
      Inr (a + (\<Sum>(j, v)\<leftarrow>es. v * right ! j))" if "\<forall>e \<in> set es. fst e < length right" for a and es :: "(nat \<times> 'a) list"
    using that by (induction es arbitrary: a) (auto simp: vec_get_def add.assoc)
  with assms sparse_sum [OF assms(1), of "\<lambda>j. right ! j"] show ?thesis
    by (simp add: sparse_inner_product_def validate_right_def sparse_wf_def claim_of_def term_sum_def)
qed

text \<open>One entry contributes to a round what its place in the folded dense table does.\<close>

lemma sparse_round_exact:
  assumes "sparse_wf s" "st_length s = 2 ^ Suc n" "length right = 2 ^ Suc n" "Suc n < 64"
  shows "sparse_round s right = product_round (dense s) right"
proof -
  let ?h = "\<lambda>p j v. (if even j then v * (1 - p) else v * p) * (right ! (2 * (j div 2)) + p * (right ! (2 * (j div 2) + 1) - right ! (2 * (j div 2))))"
  have small: "(2 :: nat) ^ Suc n < 2 ^ 64" using assms(4) by (intro power_strict_increasing) simp_all
  have entry: "sparse_entry_round j v right (x, y, z) = Inr (array3_map (\<lambda>p. ?h p j v) (x, y, z))" if "j < length right" for j v x y z
  proof -
    have "2 * (j div 2) + 1 < length right" using that assms(3) by (cases "even j") (auto elim!: evenE oddE)
    then show ?thesis
      using small assms(3)
      by (simp add: sparse_entry_round_def usize_checked_mul_def usize_checked_add_def vec_get_def mult.commute)
  qed
  have loop: "try_fold (\<lambda>acc (j, v). and_then (sparse_entry_round j v right (x, y, z)) (\<lambda>r. Inr (array3_add acc r))) acc es =
      Inr (array3_add acc (array3_map (\<lambda>p. \<Sum>(j, v)\<leftarrow>es. ?h p j v) (x, y, z)))"
    if "\<forall>e \<in> set es. fst e < length right" for acc es x y z
    using that
  proof (induction es arbitrary: acc)
    case Nil
    show ?case by (cases acc) simp
  next
    case (Cons e es)
    then show ?case by (cases e; cases acc) (simp add: entry add.assoc)
  qed
  have sum: "(\<Sum>(j, v)\<leftarrow>st_entries s. ?h p j v) = round_value (2 ^ Suc n) (product_terms (dense s) right) p" for p
  proof -
    have len: "length (dense s) = 2 * 2 ^ n" "length right = 2 * 2 ^ n" using assms by simp_all
    have "(\<Sum>(j, v)\<leftarrow>st_entries s. ?h p j v) = (\<Sum>(j, v)\<leftarrow>st_entries s. v * ?h p j 1)"
      by (intro arg_cong [where f = sum_list] map_cong) (auto split: prod.splits)
    also have "\<dots> = (\<Sum>i < 2 * 2 ^ n. dense s ! i * ?h p i 1)" using sparse_sum [OF assms(1)] assms(2) by simp
    also have "\<dots> = (\<Sum>i < 2 ^ n. folded p (dense s) ! i * folded p right ! i)"
      unfolding sum_pairs using len by (intro sum.cong) (simp_all add: folded_nth algebra_simps)
    finally show ?thesis by (simp add: round_value_def claim_of_def term_sum_def)
  qed
  obtain m where m: "product_round (dense s) right = Inr m" "as_slice m = honest_message 2 (2 ^ Suc n) (product_terms (dense s) right)"
    using product_round_exact [of "dense s" n right] assms by auto
  have "as_slice m = as_slice (array3_map (round_value (2 ^ Suc n) (product_terms (dense s) right)) (0, 1, 2))"
    using m(2) by (simp add: honest_message_def numeral_2_eq_2)
  then have "m = array3_map (round_value (2 ^ Suc n) (product_terms (dense s) right)) (0, 1, 2)" by (cases m) simp
  moreover have "try_fold (\<lambda>acc (j, v). and_then (sparse_entry_round j v right (0, 1, 2)) (\<lambda>r. Inr (array3_add acc r))) (0, 0, 0) (st_entries s) =
      Inr (array3_add (0, 0, 0) (array3_map (round_value (2 ^ Suc n) (product_terms (dense s) right)) (0, 1, 2)))"
    unfolding sum [symmetric, abs_def] using assms(1-3) by (intro loop) (simp add: sparse_wf_def)
  moreover have "st_length s \<noteq> 1" using assms(2) by simp
  ultimately show ?thesis using m(1) assms(2,3) by (simp add: sparse_round_def validate_right_def)
qed

lemma sparse_fold_exact:
  assumes "sparse_wf s" "st_length s = 2 ^ Suc n"
  shows "\<exists>s'. sparse_fold s r = Inr s' \<and> sparse_wf s' \<and> st_length s' = 2 ^ n \<and> dense s' = folded r (dense s)"
proof -
  let ?es = "map (\<lambda>(j, v). (j div 2, (if even j then 1 - r else r) * v)) (st_entries s)"
  let ?s = "\<lparr>st_entries = merge_sorted ?es, st_length = 2 ^ n\<rparr>"
  have fold: "sparse_fold s r = Inr ?s"
    using assms(2) one_less_power [of "2 :: nat" "Suc n"] is_power_of_two_pow2 [of "Suc n"] by (simp add: sparse_fold_def Let_def)
  have "sorted_wrt (\<le>) (map fst (st_entries s))"
    using assms(1) by (auto simp: sparse_wf_def intro: sorted_wrt_mono_rel [of _ "(<)"])
  then have "sorted (map fst ?es)"
    by (auto simp: sorted_wrt_map comp_def case_prod_beta intro: sorted_wrt_mono_rel [rotated] div_le_mono)
  from merge_sorted_wf [OF this] have wf: "sparse_wf ?s"
    using assms by (fastforce simp: sparse_wf_def)
  have "dense ?s = folded r (dense s)"
    using assms(2) by (intro nth_equalityI) (simp_all add: dense_nth folded_nth merge_sorted_value dense_value_halves)
  with fold wf show ?thesis by auto
qed

lemma sparse_final_exact:
  assumes "sparse_wf s" "st_length s = 1"
  shows "sparse_final_value s = Inr (dense s ! 0)"
proof (cases "st_entries s")
  case Nil
  with assms(2) show ?thesis by (simp add: sparse_final_value_def dense_nth)
next
  case (Cons e es)
  then have "e = (0, snd e)" "es = []" using assms by (cases e; cases es; force simp: sparse_wf_def)+
  with Cons assms(2) show ?thesis by (cases e) (simp add: sparse_final_value_def dense_nth)
qed

lemma finish_sparse_exact:
  assumes "sparse_wf s" "st_length s = 1"
  shows "finish_sparse ops s right rounds claim point t = finish_product_sumcheck ops (dense s) right rounds claim point t"
proof -
  have "dense s = [dense s ! 0]" using assms(2) by (simp add: dense_def)
  then show ?thesis using sparse_final_exact [OF assms] by (simp add: finish_sparse_def)
qed

lemma sparse_loop_exact:
  assumes "sparse_wf s" "st_length s = 2 ^ n" "length right = 2 ^ n" "n < 64"
  shows "sparse_loop ops s right rounds claim point t = product_loop ops (dense s) right rounds claim point t"
  using assms
proof (induction n arbitrary: s right rounds point t)
  case 0
  then show ?case
    by (subst sparse_loop.simps, subst product_loop.simps) (simp add: finish_sparse_exact)
next
  case (Suc n)
  have long: "1 < st_length s" unfolding Suc.prems(2) by (rule one_less_power) simp_all
  note round = sparse_round_exact [OF Suc.prems]
  have len: "length (dense s) = 2 ^ Suc n" using Suc.prems(2) by simp
  obtain m where m: "product_round (dense s) right = Inr m" using product_round_exact [OF len Suc.prems(3)] by blast
  have rest: "(case challenge_scalar ops ''product-sumcheck-challenge'' t1 of (challenge, t2) \<Rightarrow>
      and_then (sparse_fold s challenge) (\<lambda>left'. and_then (fold_table right challenge) (\<lambda>right'.
        sparse_loop ops left' right' (rounds @ [m]) claim (point @ [challenge]) t2))) =
    (case challenge_scalar ops ''product-sumcheck-challenge'' t1 of (challenge, t2) \<Rightarrow>
      and_then (fold_table (dense s) challenge) (\<lambda>left'. and_then (fold_table right challenge) (\<lambda>right'.
        product_loop ops left' right' (rounds @ [m]) claim (point @ [challenge]) t2)))" for t1
  proof (cases "challenge_scalar ops ''product-sumcheck-challenge'' t1")
    case (Pair r t2)
    obtain s' where s': "sparse_fold s r = Inr s'" "sparse_wf s'" "st_length s' = 2 ^ n" "dense s' = folded r (dense s)"
      using sparse_fold_exact [OF Suc.prems(1,2)] by blast
    with Pair Suc.IH [OF s'(2,3), of "folded r right"] Suc.prems(3,4) len show ?thesis
      by (simp add: fold_layer_exact(1) [OF len Suc.prems(4)] fold_layer_exact(1) [OF Suc.prems(3,4)] del: power_Suc) simp
  qed
  show ?case
    by (subst sparse_loop.simps, subst product_loop.simps) (use long in \<open>simp add: round m rest\<close>)
qed

lemma prove_sparse_exact:
  assumes "is_power_of_two n" "n < 2 ^ 64" "\<forall>e \<in> set entries. fst e < n" "length right = n"
  shows "prove_sparse_left ops entries n right t = prove_product ops (map (dense_value entries) [0..<n]) right t"
proof -
  obtain k where k: "n = 2 ^ k" using is_power_of_twoD [OF assms(1)] by blast
  have "k < 64" using assms(2) k by (metis nat_power_less_imp_less pos2)
  obtain s where new: "sparse_new entries n = Inr s" using assms k by (auto simp: sparse_new_def not_le)
  note s = sparse_new_wf [OF new]
  have len: "length (dense s) = 2 ^ k" "st_length s = 2 ^ k" "length right = 2 ^ k" using s(2) k assms(4) by simp_all
  have vars: "variable_count n = Inr k" using k by (simp add: variable_count_def)
  note start = new validate_tables_ok [OF len(1,3)] inner_product_exact [OF len(1,3)] sparse_inner_product_exact [OF s(1) len(2,3)] vars
  have "prove_sparse_left ops entries n right t = prove_product ops (dense s) right t"
  proof (cases k)
    case 0
    then show ?thesis using start s(1) len k finish_sparse_exact [of s] by (simp add: prove_sparse_left_def prove_product_def)
  next
    case (Suc j)
    note len = len [unfolded Suc] and small = \<open>k < 64\<close> [unfolded Suc]
    note round = sparse_round_exact [OF s(1) len(2,3) small]
    have "(case challenge_scalar ops ''product-sumcheck-challenge'' t1 of (challenge, t2) \<Rightarrow>
        and_then (sparse_fold s challenge) (\<lambda>left'. and_then (fold_borrowed right challenge) (\<lambda>right'.
          sparse_loop ops left' right' [m] claim [challenge] t2))) =
      (case challenge_scalar ops ''product-sumcheck-challenge'' t1 of (challenge, t2) \<Rightarrow>
        and_then (fold_borrowed (dense s) challenge) (\<lambda>left'. and_then (fold_borrowed right challenge) (\<lambda>right'.
          product_loop ops left' right' [m] claim [challenge] t2)))" for t1 m claim
    proof (cases "challenge_scalar ops ''product-sumcheck-challenge'' t1")
      case (Pair r t2)
      obtain s' where s': "sparse_fold s r = Inr s'" "sparse_wf s'" "st_length s' = 2 ^ j" "dense s' = folded r (dense s)"
        using sparse_fold_exact [OF s(1) len(2)] by blast
      have "length (folded r right) = 2 ^ j" "j < 64" using len(3) small by simp_all
      then have "sparse_loop ops s' (folded r right) [m] claim [r] t2 = product_loop ops (dense s') (folded r right) [m] claim [r] t2"
        by (rule sparse_loop_exact [OF s'(2,3)])
      with Pair s' show ?thesis
        by (simp add: fold_layer_exact(2) [OF len(1) small] fold_layer_exact(2) [OF len(3) small])
    qed
    with start round len Suc k show ?thesis by (simp add: prove_sparse_left_def prove_product_def)
  qed
  with s(4) show ?thesis by simp
qed

end
