(* ===== verification/Sumcheck_Terms.thy ===== *)
theory Sumcheck_Terms
  imports Sumcheck
begin

text \<open>
  The sum-of-products sumcheck with a shared first factor (\<open>zksm83-jolt/src/sumcheck.rs\<close>,
  \<open>sumcheck/factor.rs\<close>, \<open>sumcheck/rounds.rs\<close>).  The trait \<open>SumcheckTable\<close> is a record of its two methods.
  A factor source carries the address of its slice, which \<open>same_table\<close> compares.
\<close>

section \<open>Factors\<close>

datatype 'f factor_source = Src_Borrowed nat "'f list" | Src_Shared nat "'f list"

fun source_values :: "'f factor_source \<Rightarrow> 'f list" where
  "source_values (Src_Borrowed _ vs) = vs"
| "source_values (Src_Shared _ vs) = vs"

fun source_ptr :: "'f factor_source \<Rightarrow> nat" where
  "source_ptr (Src_Borrowed p _) = p"
| "source_ptr (Src_Shared p _) = p"

datatype 'f sumcheck_factor =
    Factor_Values "'f factor_source"
  | Factor_Affine "'f factor_source" 'f 'f
  | Factor_Constant 'f nat
  | Factor_LinearCombination "('f factor_source \<times> 'f) list" 'f 'f nat

text \<open>The constructors; a borrowed slice comes with its address.\<close>

definition factor_borrowed :: "nat \<times> 'f list \<Rightarrow> 'f sumcheck_factor" where
  "factor_borrowed vs = Factor_Values (Src_Borrowed (fst vs) (snd vs))"

definition factor_shared :: "nat \<times> 'f list \<Rightarrow> 'f sumcheck_factor" where
  "factor_shared vs = Factor_Values (Src_Shared (fst vs) (snd vs))"

definition factor_affine :: "nat \<times> 'f list \<Rightarrow> 'f \<Rightarrow> 'f \<Rightarrow> 'f sumcheck_factor" where
  "factor_affine vs scale offset = Factor_Affine (Src_Borrowed (fst vs) (snd vs)) scale offset"

definition factor_scaled :: "nat \<times> 'f list \<Rightarrow> 'f::field \<Rightarrow> 'f sumcheck_factor" where
  "factor_scaled vs scale = Factor_Affine (Src_Borrowed (fst vs) (snd vs)) scale 0"

definition factor_constant :: "'f \<Rightarrow> nat \<Rightarrow> 'f sumcheck_factor" where
  "factor_constant v len = Factor_Constant v len"

definition factor_linear_combination :: "((nat \<times> 'f list) \<times> 'f) list \<Rightarrow> 'f \<Rightarrow> 'f \<Rightarrow> nat \<Rightarrow> 'f sumcheck_factor" where
  "factor_linear_combination sources index_scale offset len =
     Factor_LinearCombination (map (\<lambda>(vs, scale). (Src_Borrowed (fst vs) (snd vs), scale)) sources) index_scale offset len"

datatype 'f folded_factor = Folded_Table "'f list" | Folded_Constant 'f nat

record ('x, 'f) sumcheck_table =
  table_len :: "'x \<Rightarrow> nat"
  table_value :: "'x \<Rightarrow> nat \<Rightarrow> sumcheck_error + 'f"

definition value_at :: "'f list \<Rightarrow> nat \<Rightarrow> sumcheck_error + 'f" where
  "value_at vs index = ok_or SC_FoldingShape (vec_get vs index)"

fun factor_len :: "'f sumcheck_factor \<Rightarrow> nat" where
  "factor_len (Factor_Values source) = length (source_values source)"
| "factor_len (Factor_Affine source _ _) = length (source_values source)"
| "factor_len (Factor_Constant _ len) = len"
| "factor_len (Factor_LinearCombination _ _ _ len) = len"

fun factor_value :: "'f::field sumcheck_factor \<Rightarrow> nat \<Rightarrow> sumcheck_error + 'f" where
  "factor_value (Factor_Values source) index = value_at (source_values source) index"
| "factor_value (Factor_Affine source scale offset) index =
     and_then (value_at (source_values source) index) (\<lambda>v. Inr (scale * v + offset))"
| "factor_value (Factor_Constant v len) index = (if index \<ge> len then Inl SC_FoldingShape else Inr v)"
| "factor_value (Factor_LinearCombination sources index_scale offset len) index =
     (if index \<ge> len then Inl SC_FoldingShape
      else
        and_then (usize_to_field index) (\<lambda>index_field.
          try_fold (\<lambda>v (source, scale). and_then (value_at (source_values source) index) (\<lambda>w. Inr (v + scale * w)))
            (offset + index_scale * index_field) sources))"

fun folded_len :: "'f folded_factor \<Rightarrow> nat" where
  "folded_len (Folded_Table vs) = length vs"
| "folded_len (Folded_Constant _ len) = len"

fun folded_value :: "'f folded_factor \<Rightarrow> nat \<Rightarrow> sumcheck_error + 'f" where
  "folded_value (Folded_Table vs) index = value_at vs index"
| "folded_value (Folded_Constant v len) index = (if index \<ge> len then Inl SC_FoldingShape else Inr v)"

definition factor_table :: "('f::field sumcheck_factor, 'f) sumcheck_table" where
  "factor_table = \<lparr>table_len = factor_len, table_value = factor_value\<rparr>"

definition folded_table :: "('f folded_factor, 'f) sumcheck_table" where
  "folded_table = \<lparr>table_len = folded_len, table_value = folded_value\<rparr>"

fun same_table :: "'f sumcheck_factor \<Rightarrow> 'f sumcheck_factor \<Rightarrow> bool" where
  "same_table (Factor_Values left) (Factor_Values right) \<longleftrightarrow>
     length (source_values left) = length (source_values right) \<and> source_ptr left = source_ptr right"
| "same_table _ _ \<longleftrightarrow> False"

definition fold_factor_pair :: "'f::field sumcheck_factor \<Rightarrow> 'f \<Rightarrow> nat \<Rightarrow> sumcheck_error + 'f" where
  "fold_factor_pair factor challenge pair =
     and_then (ok_or SC_FoldingShape (usize_checked_mul pair 2)) (\<lambda>low_index.
     and_then (ok_or SC_FoldingShape (usize_checked_add low_index 1)) (\<lambda>high_index.
     and_then (factor_value factor low_index) (\<lambda>low.
     and_then (factor_value factor high_index) (\<lambda>high.
       Inr (low + challenge * (high - low))))))"

definition factor_fold :: "'f::field sumcheck_factor \<Rightarrow> 'f \<Rightarrow> sumcheck_error + 'f folded_factor" where
  "factor_fold factor challenge =
     (case factor of
        Factor_Constant v len \<Rightarrow>
          if len < 2 \<or> \<not> even len then Inl SC_FoldingShape else Inr (Folded_Constant v (len div 2))
      | _ \<Rightarrow>
          let len = factor_len factor in
          if len < 2 \<or> \<not> even len then Inl SC_FoldingShape
          else and_then (try_map (fold_factor_pair factor challenge) [0..<len div 2]) (\<lambda>vs. Inr (Folded_Table vs)))"

fun folded_fold :: "'f::field \<Rightarrow> 'f folded_factor \<Rightarrow> sumcheck_error + 'f folded_factor" where
  "folded_fold challenge (Folded_Table vs) = and_then (fold_table vs challenge) (\<lambda>vs'. Inr (Folded_Table vs'))"
| "folded_fold challenge (Folded_Constant v len) =
     (if len < 2 \<or> \<not> even len then Inl SC_FoldingShape else Inr (Folded_Constant v (len div 2)))"

section \<open>Rounds\<close>

definition validate_terms :: "('x, 'f) sumcheck_table \<Rightarrow> 'x list list \<Rightarrow> sumcheck_error + (nat \<times> nat \<times> nat)" where
  "validate_terms T terms =
     and_then (ok_or SC_EmptyFactors (slice_first terms)) (\<lambda>first_term.
     and_then (ok_or SC_EmptyFactors (slice_first first_term)) (\<lambda>first_factor.
       if table_len T first_factor = 0 \<or> \<not> is_power_of_two (table_len T first_factor) then Inl SC_NonPowerOfTwo
       else
         let factor_count = length first_term; len = table_len T first_factor in
         if \<exists>factors \<in> set terms. length factors \<noteq> factor_count \<or> (\<exists>factor \<in> set factors. table_len T factor \<noteq> len)
         then Inl SC_LengthMismatch
         else Inr (length terms, factor_count, len)))"

definition product_at :: "('x, 'f::field) sumcheck_table \<Rightarrow> 'x list \<Rightarrow> nat \<Rightarrow> sumcheck_error + 'f" where
  "product_at T factors index =
     try_fold (\<lambda>product factor. and_then (table_value T factor index) (\<lambda>v. Inr (product * v))) 1 factors"

definition shared_sum_of_term_products :: "('x, 'f::field) sumcheck_table \<Rightarrow> 'x \<Rightarrow> 'x list list \<Rightarrow> sumcheck_error + 'f" where
  "shared_sum_of_term_products T shared terms =
     and_then (validate_terms T terms) (\<lambda>(_, _, len).
       if table_len T shared \<noteq> len then Inl SC_LengthMismatch
       else
         try_fold (\<lambda>sum index.
           and_then (try_fold (\<lambda>term_sum factors. and_then (product_at T factors index) (\<lambda>p. Inr (term_sum + p))) 0 terms) (\<lambda>term_sum.
           and_then (table_value T shared index) (\<lambda>s. Inr (sum + s * term_sum)))) 0 [0..<len])"

definition interpolation_points :: "nat \<Rightarrow> sumcheck_error + 'f::field list" where
  "interpolation_points count = try_map usize_to_field [0..<count]"

text \<open>One factor into the running products: the first two points are its two entries.\<close>

definition scale_products :: "'f::field list \<Rightarrow> 'f \<Rightarrow> 'f \<Rightarrow> 'f list \<Rightarrow> sumcheck_error + 'f list" where
  "scale_products points zero one products =
     (case products of
        p0 # p1 # rest \<Rightarrow>
          Inr (p0 * zero # p1 * one # map2 (\<lambda>product point. product * (zero + point * (one - zero))) rest (drop 2 points))
      | _ \<Rightarrow> Inl SC_ProofShape)"

definition factor_products ::
  "('x, 'f::field) sumcheck_table \<Rightarrow> 'f list \<Rightarrow> nat \<Rightarrow> nat \<Rightarrow> 'f list \<Rightarrow> 'x \<Rightarrow> sumcheck_error + 'f list" where
  "factor_products T points pair_start pair_end products factor =
     and_then (table_value T factor pair_start) (\<lambda>zero.
     and_then (table_value T factor pair_end) (\<lambda>one.
       scale_products points zero one products))"

definition shared_evaluation :: "'f::field list \<Rightarrow> 'f \<Rightarrow> 'f \<Rightarrow> nat \<times> 'f \<times> 'f \<Rightarrow> sumcheck_error + 'f" where
  "shared_evaluation points shared_zero shared_one = (\<lambda>(index, evaluation, product).
     and_then
       (if index = 0 then Inr shared_zero
        else if index = 1 then Inr shared_one
        else and_then (ok_or SC_ProofShape (vec_get points index)) (\<lambda>point.
          Inr (shared_zero + point * (shared_one - shared_zero)))) (\<lambda>shared_value.
       Inr (evaluation + shared_value * product)))"

text \<open>The buffer of products is refilled with ones for every term.\<close>

definition accumulate_shared_pair ::
  "('x, 'f::field) sumcheck_table \<Rightarrow> 'x \<Rightarrow> 'x list list \<Rightarrow> 'f list \<Rightarrow> 'f list \<Rightarrow> nat \<Rightarrow> sumcheck_error + 'f list" where
  "accumulate_shared_pair T shared terms points evaluations pair_index =
     (if length points \<noteq> length evaluations \<or> length points < 2 then Inl SC_ProofShape
      else
        and_then (ok_or SC_FoldingShape (usize_checked_mul pair_index 2)) (\<lambda>pair_start.
        and_then (ok_or SC_FoldingShape (usize_checked_add pair_start 1)) (\<lambda>pair_end.
        and_then (table_value T shared pair_start) (\<lambda>shared_zero.
        and_then (table_value T shared pair_end) (\<lambda>shared_one.
          try_fold (\<lambda>evaluations factors.
            and_then (try_fold (factor_products T points pair_start pair_end) (replicate (length points) 1) factors) (\<lambda>products.
              try_map (shared_evaluation points shared_zero shared_one) (enumerate 0 (zip evaluations products))))
            evaluations terms)))))"

definition shared_sum_product_round :: "('x, 'f::field) sumcheck_table \<Rightarrow> 'x \<Rightarrow> 'x list list \<Rightarrow> sumcheck_error + 'f list" where
  "shared_sum_product_round T shared terms =
     and_then (validate_terms T terms) (\<lambda>(_, factor_count, len).
       if table_len T shared \<noteq> len then Inl SC_LengthMismatch
       else if len = 1 then Inl SC_FoldingShape
       else
         and_then (ok_or SC_ProofShape (usize_checked_add factor_count 2)) (\<lambda>evaluation_count.
         and_then (interpolation_points evaluation_count) (\<lambda>points.
           try_fold (accumulate_shared_pair T shared terms points) (replicate evaluation_count 0) [0..<len div 2])))"

section \<open>The prover\<close>

definition split_step ::
  "'f sumcheck_factor \<Rightarrow> 'f sumcheck_factor list list \<Rightarrow> 'f sumcheck_factor list \<Rightarrow> sumcheck_error + 'f sumcheck_factor list list" where
  "split_step shared stripped factors =
     (case factors of
        [] \<Rightarrow> Inl SC_EmptyFactors
      | candidate # rest \<Rightarrow> if \<not> same_table shared candidate then Inl SC_LengthMismatch else Inr (stripped @ [rest]))"

definition split_shared_first ::
  "'f sumcheck_factor list list \<Rightarrow> sumcheck_error + ('f sumcheck_factor \<times> 'f sumcheck_factor list list)" where
  "split_shared_first terms =
     (case terms of
        (shared # first) # rest \<Rightarrow> and_then (try_fold (split_step shared) [first] rest) (\<lambda>stripped. Inr (shared, stripped))
      | _ \<Rightarrow> Inl SC_EmptyFactors)"

definition fold_initial_terms ::
  "'f::field \<Rightarrow> 'f sumcheck_factor list list \<Rightarrow> sumcheck_error + 'f folded_factor list list" where
  "fold_initial_terms challenge terms = try_map (try_map (\<lambda>factor. factor_fold factor challenge)) terms"

type_synonym ('t, 'f) terms_result = "sumcheck_error + (('f sum_of_products_proof \<times> 'f \<times> 'f list) \<times> 't)"

definition finish_shared ::
  "('t, 'f) transcript_ops \<Rightarrow> ('x, 'f) sumcheck_table \<Rightarrow> 'x \<Rightarrow> 'x list list \<Rightarrow> 'f list list \<Rightarrow> 'f \<Rightarrow> 'f list \<Rightarrow> 't \<Rightarrow>
     ('t, 'f) terms_result" where
  "finish_shared ops T shared terms rounds claim point t =
     and_then (table_value T shared 0) (\<lambda>shared_value.
     and_then (try_map (\<lambda>factors. and_then (try_map (\<lambda>factor. table_value T factor 0) factors) (\<lambda>vs. Inr (shared_value # vs))) terms) (\<lambda>final_terms.
     and_then (absorb_term_finals ops final_terms t) (\<lambda>t1.
       Inr ((\<lparr>spp_rounds = rounds, spp_final_terms = final_terms\<rparr>, claim, point), t1))))"

text \<open>\<open>while current_len > 1\<close>.\<close>

function terms_loop ::
  "('t, 'f::field) transcript_ops \<Rightarrow> nat \<Rightarrow> 'f folded_factor \<Rightarrow> 'f folded_factor list list \<Rightarrow> 'f list list \<Rightarrow> 'f \<Rightarrow> 'f list \<Rightarrow> 't \<Rightarrow>
     ('t, 'f) terms_result" where
  "terms_loop ops current_len shared terms rounds claim point t =
     (if current_len > 1 then
        and_then (shared_sum_product_round folded_table shared terms) (\<lambda>message.
        and_then (absorb_round ops ''sum-of-products-sumcheck'' (length rounds) message t) (\<lambda>t1.
          case challenge_scalar ops ''sum-of-products-sumcheck-challenge'' t1 of
            (challenge, t2) \<Rightarrow>
              and_then (folded_fold challenge shared) (\<lambda>shared'.
              and_then (try_map (try_map (folded_fold challenge)) terms) (\<lambda>terms'.
                terms_loop ops (current_len div 2) shared' terms' (rounds @ [message]) claim (point @ [challenge]) t2))))
      else finish_shared ops folded_table shared terms rounds claim point t)"
  by pat_completeness auto
termination
  by (relation "measure (\<lambda>(ops, current_len, shared, terms, rounds, claim, point, t). current_len)") auto

declare terms_loop.simps [simp del]

definition prove_shared_first ::
  "('t, 'f::field) transcript_ops \<Rightarrow> 'f sumcheck_factor list list \<Rightarrow> 't \<Rightarrow> ('t, 'f) terms_result" where
  "prove_shared_first ops all_terms t =
     and_then (split_shared_first all_terms) (\<lambda>(shared, terms).
     and_then (validate_terms factor_table terms) (\<lambda>(_, _, current_len).
       if table_len factor_table shared \<noteq> current_len then Inl SC_LengthMismatch
       else
         and_then (shared_sum_of_term_products factor_table shared terms) (\<lambda>claim.
         and_then (variable_count current_len) (\<lambda>_.
           if current_len = 1 then finish_shared ops factor_table shared terms [] claim [] t
           else
             and_then (shared_sum_product_round factor_table shared terms) (\<lambda>message.
             and_then (absorb_round ops ''sum-of-products-sumcheck'' 0 message t) (\<lambda>t1.
               case challenge_scalar ops ''sum-of-products-sumcheck-challenge'' t1 of
                 (challenge, t2) \<Rightarrow>
                   and_then (factor_fold shared challenge) (\<lambda>shared'.
                   and_then (fold_initial_terms challenge terms) (\<lambda>terms'.
                     terms_loop ops (current_len div 2) shared' terms' [message] claim [challenge] t2))))))))"

section \<open>The verifier\<close>

definition terminal_term_sum :: "'f::field list list \<Rightarrow> 'f" where
  "terminal_term_sum terms = fold (\<lambda>term sum. sum + fold (\<lambda>factor product. product * factor) term 1) terms 0"

definition validate_shape :: "'f sum_of_products_proof \<Rightarrow> nat \<Rightarrow> nat \<Rightarrow> nat \<Rightarrow> sumcheck_error + unit" where
  "validate_shape proof rounds terms factors =
     (if length (spp_rounds proof) \<noteq> rounds \<or> length (spp_final_terms proof) \<noteq> terms \<or>
        (\<exists>term \<in> set (spp_final_terms proof). length term \<noteq> factors) \<or>
        (\<exists>round \<in> set (spp_rounds proof). length round \<noteq> factors + 1)
      then Inl SC_ProofShape else Inr ())"

fun terms_verify_loop ::
  "('t, 'f::field) transcript_ops \<Rightarrow> nat \<Rightarrow> 'f list list \<Rightarrow> 'f \<Rightarrow> 'f list \<Rightarrow> 't \<Rightarrow> sumcheck_error + ('f \<times> 'f list \<times> 't)" where
  "terms_verify_loop ops round_index [] claim point t = Inr (claim, point, t)"
| "terms_verify_loop ops round_index (message # messages) claim point t =
     and_then (ok_or SC_ProofShape (slice_first message)) (\<lambda>m0.
     and_then (ok_or SC_ProofShape (vec_get message 1)) (\<lambda>m1.
       if m0 + m1 \<noteq> claim then Inl SC_RoundClaimMismatch
       else
         and_then (absorb_round ops ''sum-of-products-sumcheck'' round_index message t) (\<lambda>t1.
           case challenge_scalar ops ''sum-of-products-sumcheck-challenge'' t1 of
             (challenge, t2) \<Rightarrow>
               and_then (evaluate_lagrange message challenge) (\<lambda>claim'.
                 terms_verify_loop ops (Suc round_index) messages claim' (point @ [challenge]) t2))))"

definition verify_terms ::
  "('t, 'f::field) transcript_ops \<Rightarrow> 'f sum_of_products_proof \<Rightarrow> 'f \<Rightarrow> nat \<Rightarrow> nat \<Rightarrow> nat \<Rightarrow> 't \<Rightarrow> sumcheck_error + ('f list \<times> 't)" where
  "verify_terms ops proof initial_claim expected_rounds expected_terms expected_factors t =
     and_then (validate_shape proof expected_rounds expected_terms expected_factors) (\<lambda>_.
     and_then (terms_verify_loop ops 0 (spp_rounds proof) initial_claim [] t) (\<lambda>(claim, point, t1).
       if claim \<noteq> terminal_term_sum (spp_final_terms proof) then Inl SC_FinalClaimMismatch
       else and_then (absorb_term_finals ops (spp_final_terms proof) t1) (\<lambda>t2. Inr (point, t2))))"

end
