(* ===== verification/Sumcheck_Shared.thy ===== *)
theory Sumcheck_Shared
  imports Sumcheck_Product Sumcheck_Terms
begin

text \<open>
  The sum-of-products sumcheck against the abstract protocol: compact factors stand for tables,
  the rounds are honest messages about those tables, the proof is accepted, and acceptance means
  what it means in the abstract.
\<close>

section \<open>Factors as tables\<close>

definition reads :: "('x, 'f) sumcheck_table \<Rightarrow> 'x \<Rightarrow> 'f list \<Rightarrow> bool" where
  "reads T x vs \<longleftrightarrow> table_len T x = length vs \<and> (\<forall>i < length vs. table_value T x i = Inr (vs ! i))"

lemma readsD: "reads T x vs \<Longrightarrow> i < length vs \<Longrightarrow> table_value T x i = Inr (vs ! i)"
  by (simp add: reads_def)

lemma try_map_Inr: "try_map f xs = Inr ys \<longleftrightarrow> list_all2 (\<lambda>x y. f x = Inr y) xs ys"
  by (induction xs arbitrary: ys) (auto simp: list_all2_Cons1)

lemma try_map_list_all2:
  assumes "list_all2 P xs vs" "\<And>x v. P x v \<Longrightarrow> x \<in> set xs \<Longrightarrow> v \<in> set vs \<Longrightarrow> \<exists>y. f x = Inr y \<and> Q y (g v)"
  shows "\<exists>ys. try_map f xs = Inr ys \<and> list_all2 Q ys (map g vs)"
  using assms
proof (induction xs vs rule: list_all2_induct)
  case (Cons x xs v vs)
  obtain y where "f x = Inr y" "Q y (g v)" using Cons.prems [of x v] Cons.hyps(1) by auto
  moreover obtain ys where "try_map f xs = Inr ys" "list_all2 Q ys (map g vs)" using Cons.IH Cons.prems by force
  ultimately show ?case by auto
qed simp

lemma list_all2_left: "list_all2 P xs ys \<Longrightarrow> x \<in> set xs \<Longrightarrow> \<exists>y \<in> set ys. P x y"
  by (induction rule: list_all2_induct) auto

text \<open>Folding a factor folds the table it stands for.\<close>

lemma folded_nths: "length vs = 2 * n \<Longrightarrow> folded r vs = map (\<lambda>i. vs ! (2 * i) + r * (vs ! (2 * i + 1) - vs ! (2 * i))) [0..<n]"
  by (intro nth_equalityI) (simp_all add: folded_nth)

lemma folded_replicate: "folded r (replicate (2 * n) v) = replicate n v"
  by (induction n) simp_all

lemma reads_constant: "reads factor_table (Factor_Constant v k) vs \<longleftrightarrow> vs = replicate k v"
  by (auto simp: reads_def factor_table_def list_eq_iff_nth_eq)

lemma reads_folded: "reads folded_table (Folded_Table ws) vs \<longleftrightarrow> vs = ws"
  "reads folded_table (Folded_Constant v k) vs \<longleftrightarrow> vs = replicate k v"
proof -
  show "reads folded_table (Folded_Table ws) vs \<longleftrightarrow> vs = ws"
  proof
    assume r: "reads folded_table (Folded_Table ws) vs"
    then have len: "length ws = length vs" by (simp add: reads_def folded_table_def)
    moreover have "ws ! i = vs ! i" if "i < length vs" for i
      using readsD [OF r that] len that by (simp add: folded_table_def value_at_def vec_get_def)
    ultimately show "vs = ws" by (metis nth_equalityI)
  qed (simp add: reads_def folded_table_def value_at_def vec_get_def)
  show "reads folded_table (Folded_Constant v k) vs \<longleftrightarrow> vs = replicate k v"
    by (auto simp: reads_def folded_table_def list_eq_iff_nth_eq)
qed

lemma factor_fold_reads:
  assumes "reads factor_table x vs" "length vs = 2 ^ Suc n" "Suc n < 64"
  shows "\<exists>y. factor_fold x r = Inr y \<and> reads folded_table y (folded r vs)"
proof (cases "\<exists>v k. x = Factor_Constant v k")
  case True
  then obtain v k where x: "x = Factor_Constant v k" by blast
  with assms have vs: "vs = replicate k v" "k = 2 * 2 ^ n" by (simp_all add: reads_constant)
  then show ?thesis using x by (simp add: factor_fold_def reads_folded folded_replicate)
next
  case False
  have small: "(2 :: nat) ^ Suc n < 2 ^ 64" using assms(3) by (intro power_strict_increasing) simp_all
  have entry: "factor_value x i = Inr (vs ! i)" if "i < 2 * 2 ^ n" for i
    using readsD [OF assms(1), of i] assms(2) that by (simp add: factor_table_def)
  have "fold_factor_pair x r i = Inr (vs ! (2 * i) + r * (vs ! (2 * i + 1) - vs ! (2 * i)))" if "i < 2 ^ n" for i
    using that small entry [of "2 * i"] entry [of "2 * i + 1"]
    by (simp add: fold_factor_pair_def usize_checked_mul_def usize_checked_add_def mult.commute)
  then have "try_map (fold_factor_pair x r) [0..<2 ^ n] = Inr (folded r vs)"
    using folded_nths [of vs "2 ^ n" r] assms(2) by (subst try_map_total) auto
  moreover have "factor_len x = 2 * 2 ^ n" using assms(1,2) by (simp add: reads_def factor_table_def)
  ultimately have "factor_fold x r = Inr (Folded_Table (folded r vs))"
    using False by (cases x) (simp_all add: factor_fold_def Let_def)
  then show ?thesis by (simp add: reads_folded)
qed

lemma folded_fold_reads:
  assumes "reads folded_table x vs" "length vs = 2 ^ Suc n" "Suc n < 64"
  shows "\<exists>y. folded_fold r x = Inr y \<and> reads folded_table y (folded r vs)"
proof (cases x)
  case (Folded_Table ws)
  then show ?thesis using assms fold_layer_exact(1) [OF assms(2,3)] by (simp add: reads_folded)
next
  case (Folded_Constant v k)
  with assms have "vs = replicate k v" "k = 2 * 2 ^ n" by (simp_all add: reads_folded)
  then show ?thesis using Folded_Constant by (simp add: reads_folded folded_replicate)
qed

section \<open>Rounds\<close>

abbreviation term_tables :: "('x, 'f) sumcheck_table \<Rightarrow> 'x list list \<Rightarrow> 'f terms \<Rightarrow> bool" where
  "term_tables T \<equiv> list_all2 (list_all2 (reads T))"

definition full_terms :: "'f list \<Rightarrow> 'f terms \<Rightarrow> 'f terms" where
  "full_terms shared terms = map ((#) shared) terms"

lemma full_shape: "terms_shape n d terms \<Longrightarrow> length shared = n \<Longrightarrow> terms_shape n (Suc d) (full_terms shared terms)"
  by (auto simp: terms_shape_def full_terms_def)

lemma folded_full: "folded_terms r (full_terms shared terms) = full_terms (folded r shared) (folded_terms r terms)"
  by (simp add: folded_terms_def full_terms_def)

lemma validate_terms_ok:
  assumes "term_tables T terms tables" "terms_shape (2 ^ n) d tables" "0 < d" "tables \<noteq> []"
  shows "validate_terms T terms = Inr (length terms, d, 2 ^ n)"
proof -
  have shape: "length factors = d \<and> (\<forall>x \<in> set factors. table_len T x = 2 ^ n)" if "factors \<in> set terms" for factors
  proof -
    obtain vs where vs: "vs \<in> set tables" "list_all2 (reads T) factors vs"
      using list_all2_left [OF assms(1) \<open>factors \<in> set terms\<close>] by blast
    then have "length factors = d" using assms(2) by (auto simp: terms_shape_def dest: list_all2_lengthD)
    moreover have "table_len T x = 2 ^ n" if x: "x \<in> set factors" for x
    proof -
      obtain v where "v \<in> set vs" "reads T x v" using list_all2_left [OF vs(2) x] by blast
      then show ?thesis using vs(1) assms(2) by (auto simp: terms_shape_def reads_def)
    qed
    ultimately show ?thesis by blast
  qed
  obtain factors rest where terms: "terms = factors # rest" using assms(1,4) by (cases terms) auto
  moreover obtain x xs where factors: "factors = x # xs" using shape [of factors] terms assms(3) by (cases factors) auto
  moreover have "table_len T x = 2 ^ n" "length factors = d" using shape [of factors] terms factors by simp_all
  moreover have "\<not> (\<exists>factors \<in> set terms. length factors \<noteq> d \<or> (\<exists>x \<in> set factors. table_len T x \<noteq> 2 ^ n))" using shape by blast
  ultimately show ?thesis by (simp add: validate_terms_def)
qed

lemma product_at_exact:
  assumes "list_all2 (reads T) factors tables" "\<forall>table \<in> set tables. i < length table"
  shows "product_at T factors i = Inr (\<Prod>table\<leftarrow>tables. table ! i)"
proof -
  have "try_fold (\<lambda>product factor. and_then (table_value T factor i) (\<lambda>v. Inr (product * v))) a factors =
      Inr (a * (\<Prod>table\<leftarrow>tables. table ! i))" for a
    using assms by (induction factors tables arbitrary: a rule: list_all2_induct) (simp_all add: readsD mult.assoc)
  then show ?thesis by (simp add: product_at_def)
qed

lemma shared_sum_exact:
  assumes "reads T shared sv" "term_tables T terms tables" "terms_shape (2 ^ n) d tables" "length sv = 2 ^ n" "0 < d" "tables \<noteq> []"
  shows "shared_sum_of_term_products T shared terms = Inr (claim_of (2 ^ n) (full_terms sv tables))"
proof -
  have one: "try_fold (\<lambda>term_sum factors. and_then (product_at T factors i) (\<lambda>p. Inr (term_sum + p))) a terms =
      Inr (a + term_sum tables i)" if "i < 2 ^ n" for i a
    using assms(2,3) that
  proof (induction terms tables arbitrary: a rule: list_all2_induct)
    case (Cons factors terms ts tables)
    have "product_at T factors i = Inr (\<Prod>table\<leftarrow>ts. table ! i)"
      using Cons.prems by (intro product_at_exact [OF Cons.hyps(1)]) (simp add: terms_shape_def)
    with Cons show ?case by (simp add: term_sum_def terms_shape_def add.assoc)
  qed (simp add: term_sum_def)
  have full: "term_sum (full_terms sv tables) i = sv ! i * term_sum tables i" for i
    by (simp add: term_sum_def full_terms_def comp_def sum_list_const_mult)
  have "try_fold (\<lambda>sum index.
       and_then (try_fold (\<lambda>term_sum factors. and_then (product_at T factors index) (\<lambda>p. Inr (term_sum + p))) 0 terms) (\<lambda>term_sum.
       and_then (table_value T shared index) (\<lambda>s. Inr (sum + s * term_sum)))) 0 [0..<k] =
     Inr (\<Sum>i < k. sv ! i * term_sum tables i)" if "k \<le> 2 ^ n" for k
    using that assms(1,4) by (induction k) (simp_all add: try_fold_append one readsD)
  moreover have "table_len T shared = 2 ^ n" using assms(1,4) by (simp add: reads_def)
  ultimately show ?thesis
    using validate_terms_ok [OF assms(2,3,5,6)] by (simp add: shared_sum_of_term_products_def claim_of_def full)
qed

lemma interpolation_points_exact: "c \<le> 2 ^ 64 \<Longrightarrow> interpolation_points c = Inr (map of_nat [0..<c])"
  unfolding interpolation_points_def by (rule try_map_total) (simp add: usize_to_field_small)

text \<open>The value of a linear factor at the interpolation points.\<close>

lemma scale_products_exact:
  fixes zero :: "'f::field"
  assumes "2 \<le> c"
  shows "scale_products (map of_nat [0..<c]) zero one (map P [0..<c]) = Inr (map (\<lambda>k. P k * (zero + of_nat k * (one - zero))) [0..<c])"
proof -
  obtain k where c: "c = Suc (Suc k)" using assms by (metis Suc_le_D numeral_2_eq_2 le_Suc_eq)
  have split: "[0..<Suc (Suc k)] = 0 # 1 # [2..<Suc (Suc k)]" by (simp add: upt_conv_Cons numeral_2_eq_2 del: upt_Suc)
  show ?thesis unfolding c scale_products_def split
    by (simp add: map2_map_map del: upt_Suc)
qed

lemma factor_products_exact:
  assumes "list_all2 (reads T) factors tables" "\<forall>table \<in> set tables. hi < length table \<and> lo < length table" "2 \<le> c"
  shows "try_fold (factor_products T (map of_nat [0..<c]) lo hi) (map P [0..<c]) factors =
    Inr (map (\<lambda>k. P k * (\<Prod>table\<leftarrow>tables. table ! lo + of_nat k * (table ! hi - table ! lo))) [0..<c])"
  using assms(1,2)
proof (induction factors tables arbitrary: P rule: list_all2_induct)
  case (Cons x factors table tables)
  then show ?case
    by (simp add: factor_products_def readsD scale_products_exact [OF assms(3)] mult.assoc del: upt_Suc)
qed simp

lemma shared_evaluations_exact:
  assumes "2 \<le> c"
  shows "try_map (shared_evaluation (map of_nat [0..<c]) zero one) (enumerate 0 (zip (map E [0..<c]) (map P [0..<c]))) =
    Inr (map (\<lambda>k. E k + (zero + of_nat k * (one - zero)) * P k) [0..<c])"
proof -
  have enum: "enumerate 0 (zip (map E [0..<c]) (map P [0..<c])) = map (\<lambda>k. (k, E k, P k)) [0..<c]"
    by (rule nth_equalityI) (simp_all add: nth_enumerate_eq)
  have "shared_evaluation (map of_nat [0..<c]) zero one (k, E k, P k) = Inr (E k + (zero + of_nat k * (one - zero)) * P k)"
    if "k < c" for k
    using that by (simp add: shared_evaluation_def vec_get_def del: upt_Suc)
  then have "try_map (\<lambda>k. shared_evaluation (map of_nat [0..<c]) zero one (k, E k, P k)) [0..<c] =
      Inr (map (\<lambda>k. E k + (zero + of_nat k * (one - zero)) * P k) [0..<c])"
    by (intro try_map_total) simp
  moreover have "try_map f (map g xs) = try_map (\<lambda>x. f (g x)) xs" for f :: "nat \<times> 'a \<times> 'a \<Rightarrow> sumcheck_error + 'a" and g and xs :: "nat list"
    by (induction xs) simp_all
  ultimately show ?thesis unfolding enum by simp
qed

lemma accumulate_exact:
  fixes sv :: "'f::field list"
  assumes "reads T shared sv" "term_tables T terms tables" "terms_shape (2 * m) d tables" "length sv = 2 * m" "i < m" "2 \<le> c" "2 * m < 2 ^ 64"
  shows "accumulate_shared_pair T shared terms (map of_nat [0..<c]) (map E [0..<c]) i =
    Inr (map (\<lambda>k. E k + term_sum (folded_terms (of_nat k) (full_terms sv tables)) i) [0..<c])"
proof -
  let ?lo = "2 * i" and ?hi = "2 * i + 1"
  let ?at = "\<lambda>k table. table ! ?lo + of_nat k * (table ! ?hi - table ! ?lo)"
  have hi: "?hi < 2 * m" using assms(5) by simp
  have terms: "try_fold (\<lambda>evaluations factors.
      and_then (try_fold (factor_products T (map of_nat [0..<c]) ?lo ?hi) (replicate c 1) factors) (\<lambda>products.
        try_map (shared_evaluation (map of_nat [0..<c]) (sv ! ?lo) (sv ! ?hi)) (enumerate 0 (zip evaluations products))))
      (map E [0..<c]) terms =
    Inr (map (\<lambda>k. E k + (\<Sum>factors\<leftarrow>tables. ?at k sv * (\<Prod>table\<leftarrow>factors. ?at k table))) [0..<c])" for E
    using assms(2,3)
  proof (induction terms tables arbitrary: E rule: list_all2_induct)
    case (Cons factors terms ts tables)
    have ones: "replicate c 1 = map (\<lambda>k. 1 :: 'f) [0..<c]" by (simp add: map_replicate_const)
    have "try_fold (factor_products T (map of_nat [0..<c]) ?lo ?hi) (replicate c 1) factors =
        Inr (map (\<lambda>k. \<Prod>table\<leftarrow>ts. ?at k table) [0..<c])"
      unfolding ones using Cons.prems hi factor_products_exact [OF Cons.hyps(1) _ assms(6), of ?hi ?lo "\<lambda>k. 1"]
      by (simp add: terms_shape_def)
    then have "and_then (try_fold (factor_products T (map of_nat [0..<c]) ?lo ?hi) (replicate c 1) factors) (\<lambda>products.
        try_map (shared_evaluation (map of_nat [0..<c]) (sv ! ?lo) (sv ! ?hi)) (enumerate 0 (zip (map E [0..<c]) products))) =
      Inr (map (\<lambda>k. E k + ?at k sv * (\<Prod>table\<leftarrow>ts. ?at k table)) [0..<c])"
      by (simp only: and_then_simps shared_evaluations_exact [OF assms(6)])
    moreover have "terms_shape (2 * m) d tables" using Cons.prems by (simp add: terms_shape_def)
    note Cons.IH [OF this, of "\<lambda>k. E k + ?at k sv * (\<Prod>table\<leftarrow>ts. ?at k table)"]
    ultimately show ?case by (simp only: try_fold.simps and_then_simps list.map sum_list.Cons add.assoc)
  qed simp
  have "term_sum (folded_terms (of_nat k) (full_terms sv tables)) i = (\<Sum>factors\<leftarrow>tables. ?at k sv * (\<Prod>table\<leftarrow>factors. ?at k table))" for k
    using folded_term_sum [OF full_shape [OF assms(3,4)], of i "of_nat k"] assms(5) by (simp add: full_terms_def comp_def)
  moreover have "usize_checked_mul i 2 = Some ?lo" "usize_checked_add ?lo 1 = Some ?hi"
    using hi assms(7) by (simp_all add: usize_checked_mul_def usize_checked_add_def)
  moreover have "table_value T shared ?lo = Inr (sv ! ?lo)" "table_value T shared ?hi = Inr (sv ! ?hi)"
    using hi assms(4) by (simp_all add: readsD [OF assms(1)])
  ultimately show ?thesis using terms [of E] assms(6) by (simp add: accumulate_shared_pair_def)
qed

lemma shared_round_exact:
  fixes sv :: "'f::field list"
  assumes "reads T shared sv" "term_tables T terms tables" "terms_shape (2 ^ Suc n) d tables" "length sv = 2 ^ Suc n" "0 < d" "tables \<noteq> []"
    "Suc n < 64" "d + 2 < 2 ^ 64"
  shows "shared_sum_product_round T shared terms = Inr (honest_message (Suc d) (2 ^ Suc n) (full_terms sv tables))"
proof -
  let ?F = "full_terms sv tables"
  have small: "2 * 2 ^ n < (2 :: nat) ^ 64" using assms(7) power_strict_increasing [of "Suc n" 64 "2 :: nat"] by simp
  have shape: "terms_shape (2 * 2 ^ n) d tables" "length sv = 2 * 2 ^ n" using assms(3,4) by simp_all
  have loop: "try_fold (accumulate_shared_pair T shared terms (map of_nat [0..<d + 2])) (map E [0..<d + 2]) [0..<k] =
      Inr (map (\<lambda>j. E j + (\<Sum>i < k. term_sum (folded_terms (of_nat j) ?F) i)) [0..<d + 2])" if "k \<le> 2 ^ n" for k E
    using that
  proof (induction k)
    case (Suc k)
    have split: "[0..<Suc k] = [0..<k] @ [k]" by simp
    from Suc show ?case unfolding split
      using accumulate_exact [OF assms(1,2) shape _ _ small, of k "d + 2"] by (simp add: try_fold_append add.assoc del: upt_Suc)
  qed (simp del: upt_Suc)
  have zeros: "replicate (d + 2) 0 = map (\<lambda>k. 0 :: 'f) [0..<d + 2]" by (simp add: map_replicate_const del: upt_Suc)
  have "try_fold (accumulate_shared_pair T shared terms (map of_nat [0..<d + 2])) (replicate (d + 2) 0) [0..<2 ^ n] =
      Inr (honest_message (Suc d) (2 ^ Suc n) ?F)"
    unfolding zeros using loop [of "2 ^ n" "\<lambda>k. 0"]
    by (simp add: honest_message_def round_value_def claim_of_def del: upt_Suc)
  moreover have "table_len T shared = 2 ^ Suc n" using assms(1,4) by (simp add: reads_def)
  moreover have "interpolation_points (d + 2) = Inr (map of_nat [0..<d + 2] :: 'f list)"
    using assms(8) by (intro interpolation_points_exact) simp
  moreover have "usize_checked_add d 2 = Some (d + 2)" using assms(8) by (simp add: usize_checked_add_def)
  ultimately show ?thesis
    using validate_terms_ok [OF assms(2,3,5,6)] by (simp add: shared_sum_product_round_def del: upt_Suc)
qed

end
