(* ===== verification/Sumcheck_Protocol.thy ===== *)
theory Sumcheck_Protocol
  imports Sumcheck_Shared
begin

text \<open>
  The sum-of-products prover and verifier together: the run of the prover on compact factors,
  the verifier's replay of it, and what an accepted proof says.
\<close>

section \<open>Compact factors\<close>

text \<open>The table a factor stands for.\<close>

fun factor_entries :: "'f::field sumcheck_factor \<Rightarrow> 'f list" where
  "factor_entries (Factor_Values source) = source_values source"
| "factor_entries (Factor_Affine source scale offset) = map (\<lambda>v. scale * v + offset) (source_values source)"
| "factor_entries (Factor_Constant v n) = replicate n v"
| "factor_entries (Factor_LinearCombination sources index_scale offset n) =
     map (\<lambda>i. offset + index_scale * of_nat i + (\<Sum>(source, scale)\<leftarrow>sources. scale * source_values source ! i)) [0..<n]"

fun factor_ok :: "'f sumcheck_factor \<Rightarrow> bool" where
  "factor_ok (Factor_LinearCombination sources _ _ n) \<longleftrightarrow> (\<forall>p \<in> set sources. n \<le> length (source_values (fst p)))"
| "factor_ok _ \<longleftrightarrow> True"

lemma factor_reads:
  assumes "factor_ok x" "length (factor_entries x) < 2 ^ 64"
  shows "reads factor_table x (factor_entries x)"
proof (cases x)
  case (Factor_LinearCombination sources index_scale offset n)
  have "try_fold (\<lambda>v (source, scale). and_then (value_at (source_values source) i) (\<lambda>w. Inr (v + scale * w))) a ps =
      Inr (a + (\<Sum>(source, scale)\<leftarrow>ps. scale * source_values source ! i))"
    if "\<forall>p \<in> set ps. i < length (source_values (fst p))" for i a and ps :: "('a factor_source \<times> 'a) list"
    using that by (induction ps arbitrary: a) (auto simp: value_at_def vec_get_def add.assoc)
  moreover have "\<forall>p \<in> set sources. i < length (source_values (fst p))" if "i < n" for i
    using assms(1) that Factor_LinearCombination by fastforce
  ultimately show ?thesis using assms(2) Factor_LinearCombination
    by (simp add: reads_def factor_table_def usize_to_field_small)
qed (auto simp: reads_def factor_table_def value_at_def vec_get_def)

section \<open>Final values\<close>

definition final_values :: "'f::field list \<Rightarrow> 'f terms \<Rightarrow> 'f list list" where
  "final_values rs terms = map (map (\<lambda>table. mle table rs)) terms"

lemma terminal_sum: "terminal_term_sum terms = (\<Sum>factors\<leftarrow>terms. prod_list factors)"
proof -
  have "fold (\<lambda>factor product. product * factor) xs a = a * prod_list xs" for a and xs :: "'a list"
    by (induction xs arbitrary: a) (simp_all add: mult.assoc)
  then have "fold (\<lambda>term sum. sum + fold (\<lambda>factor product. product * factor) term 1) xs a = a + (\<Sum>factors\<leftarrow>xs. prod_list factors)"
    for a and xs :: "'a list list"
    by (induction xs arbitrary: a) (simp_all add: add.assoc)
  then show ?thesis by (simp add: terminal_term_sum_def)
qed

lemma final_values_folded:
  assumes "terms_shape n d terms" "even n"
  shows "final_values rs (folded_terms r terms) = final_values (r # rs) terms"
  using assms by (auto simp: final_values_def folded_terms_def terms_shape_def mle_folded)

lemma final_claim_values:
  assumes "terms_shape (2 ^ length rs) d terms"
  shows "final_claim terms rs = terminal_term_sum (final_values rs terms)"
  using assms
proof (induction rs arbitrary: terms)
  case Nil
  have "mle table [] = table ! 0" if "factors \<in> set terms" "table \<in> set factors" for factors table
    using Nil that by (auto simp: terms_shape_def mle_def)
  then show ?case
    by (auto simp: final_claim_def claim_of_def term_sum_def terminal_sum final_values_def comp_def
        intro!: arg_cong [where f = sum_list] arg_cong [where f = prod_list] map_cong)
next
  case (Cons r rs)
  from terms_shape_folded [OF Cons.prems, of r] have "terms_shape (2 ^ length rs) d (folded_terms r terms)" by simp
  from Cons.IH [OF this] final_values_folded [OF Cons.prems] show ?case by (simp add: final_claim_def)
qed

section \<open>One round\<close>

lemma absorb_message_ok: "k < 2 ^ 64 \<Longrightarrow> length m < 2 ^ 64 \<Longrightarrow> \<exists>t'. absorb_round ops label k m t = Inr t'"
  by (simp add: absorb_round_def u64_try_from_def Let_def)

lemma absorb_term_finals_ok:
  assumes "length finals < 2 ^ 64" "\<forall>factors \<in> set finals. length factors < 2 ^ 64"
  shows "\<exists>t'. absorb_term_finals ops finals t = Inr t'"
proof -
  have "\<exists>t'. try_fold (absorb_term_final ops) s fs = Inr t'" if "\<forall>factors \<in> set fs. length factors < 2 ^ 64" for s fs
    using that by (induction fs arbitrary: s) (auto simp: absorb_term_final_def u64_try_from_def)
  with assms show ?thesis by (simp add: absorb_term_finals_def u64_try_from_def)
qed

text \<open>The run of the prover from a state, and the verifier's replay of its messages.\<close>

definition terms_verified ::
  "('t, 'f::field) transcript_ops \<Rightarrow> nat \<Rightarrow> 'f terms \<Rightarrow> 'f list list \<Rightarrow> 'f \<Rightarrow> 'f list \<Rightarrow> 't \<Rightarrow> nat \<Rightarrow> ('t, 'f) terms_result \<Rightarrow> bool" where
  "terms_verified ops d terms rounds claim point t n result \<longleftrightarrow>
     (\<exists>new rs t1 t2.
        result = Inr ((\<lparr>spp_rounds = rounds @ new, spp_final_terms = final_values rs terms\<rparr>, claim, point @ rs), t2) \<and>
        length new = n \<and> length rs = n \<and> (\<forall>m \<in> set new. length m = Suc d) \<and>
        terms_verify_loop ops (length rounds) new (claim_of (2 ^ n) terms) point t =
          Inr (terminal_term_sum (final_values rs terms), point @ rs, t1) \<and>
        absorb_term_finals ops (final_values rs terms) t1 = Inr t2)"

lemma terms_round_verifies:
  assumes "separates TYPE('f::field) d" "0 < d" "d < 2 ^ 63" "terms_shape (2 ^ Suc n) d (terms :: 'f terms)"
    and m: "m = honest_message d (2 ^ Suc n) terms"
    and t: "absorb_round ops ''sum-of-products-sumcheck'' (length rounds) m t = Inr t1"
      "challenge_scalar ops ''sum-of-products-sumcheck-challenge'' t1 = (r, t2)"
    and rest: "terms_verified ops d (folded_terms r terms) (rounds @ [m]) claim (point @ [r]) t2 n result"
  shows "terms_verified ops d terms rounds claim point t (Suc n) result"
proof -
  obtain new rs t3 t4 where new:
    "result = Inr ((\<lparr>spp_rounds = (rounds @ [m]) @ new, spp_final_terms = final_values rs (folded_terms r terms)\<rparr>, claim, (point @ [r]) @ rs), t4)"
    "length new = n" "length rs = n" "\<forall>m \<in> set new. length m = Suc d"
    "terms_verify_loop ops (length (rounds @ [m])) new (claim_of (2 ^ n) (folded_terms r terms)) (point @ [r]) t2 =
       Inr (terminal_term_sum (final_values rs (folded_terms r terms)), (point @ [r]) @ rs, t3)"
    "absorb_term_finals ops (final_values rs (folded_terms r terms)) t3 = Inr t4"
    using rest unfolding terms_verified_def by blast
  have ev: "even ((2 :: nat) ^ Suc n)" by simp
  note final = final_values_folded [OF assms(4) ev, of rs r]
  have len: "length m = Suc d" unfolding m by (rule honest_message_facts [OF assms(2)])
  then have "m \<noteq> []" by auto
  have ends: "m ! 0 + m ! 1 = claim_of (2 ^ Suc n) terms"
    unfolding m honest_message_facts [OF assms(2)] by (rule round_split [OF assms(4) ev])
  have heads: "slice_first m = Some (m ! 0)" "vec_get m 1 = Some (m ! 1)"
    using len assms(2) \<open>m \<noteq> []\<close> by (cases m; simp add: vec_get_def)+
  have "evaluate_lagrange m r = Inr (lagrange m r)"
    using assms(1,3) len by (intro evaluate_lagrange_exact) auto
  also have "lagrange m r = claim_of (2 ^ n) (folded_terms r terms)"
    unfolding m honest_lagrange [OF assms(1,4)] by (simp add: round_value_def)
  finally show ?thesis
    unfolding terms_verified_def using new t ends heads len final
    by (intro exI [of _ "m # new"] exI [of _ "r # rs"] exI [of _ t3] exI [of _ t4]) simp
qed

section \<open>The prover\<close>

lemma try_map_reads:
  "list_all2 P xs vs \<Longrightarrow> (\<And>x v. P x v \<Longrightarrow> v \<in> set vs \<Longrightarrow> f x = Inr (g v)) \<Longrightarrow> try_map f xs = Inr (map g vs)"
  by (induction rule: list_all2_induct) auto

lemma full_terms_single: "length sv = 1 \<Longrightarrow> final_values [] (full_terms sv tables) = map (\<lambda>factors. sv ! 0 # map (\<lambda>table. mle table []) factors) tables"
  by (simp add: final_values_def full_terms_def mle_def)

lemma terms_finish_verifies:
  assumes "reads T shared sv" "term_tables T terms tables" "terms_shape 1 d tables" "length sv = 1"
    "length tables < 2 ^ 64" "Suc d < 2 ^ 63"
  shows "terms_verified ops (Suc d) (full_terms sv tables) rounds claim point t 0 (finish_shared ops T shared terms rounds claim point t)"
proof -
  let ?F = "full_terms sv tables" and ?finals = "final_values [] (full_terms sv tables)"
  have factor: "table_value T x 0 = Inr (mle v [])" if "reads T x v" "length v = 1" for x v
    using readsD [OF that(1), of 0] that(2) by (simp add: mle_def)
  have inner: "try_map (\<lambda>factor. table_value T factor 0) factors = Inr (map (\<lambda>table. mle table []) vs)"
    if "list_all2 (reads T) factors vs" "vs \<in> set tables" for factors vs
    by (rule try_map_reads [OF that(1)]) (use that(2) assms(3) factor in \<open>auto simp: terms_shape_def\<close>)
  have "try_map (\<lambda>factors. and_then (try_map (\<lambda>factor. table_value T factor 0) factors) (\<lambda>vs. Inr (sv ! 0 # vs))) terms = Inr ?finals"
    unfolding full_terms_single [OF assms(4)] by (rule try_map_reads [OF assms(2)]) (simp add: inner)
  moreover have "table_value T shared 0 = Inr (sv ! 0)" using readsD [OF assms(1), of 0] assms(4) by simp
  moreover obtain t1 where "absorb_term_finals ops ?finals t = Inr t1"
    using absorb_term_finals_ok [of ?finals ops t] assms(3,5,6)
    by (auto simp: full_terms_single [OF assms(4)] terms_shape_def)
  moreover have "claim_of (2 ^ 0) ?F = terminal_term_sum ?finals"
    using final_claim_values [of "[]" "Suc d" ?F] full_shape [OF assms(3,4)] by (simp add: final_claim_def)
  ultimately show ?thesis by (simp add: terms_verified_def finish_shared_def)
qed

text \<open>
  The interface of both kinds of factor to the prover: folding a factor at a challenge folds the
  table it stands for.
\<close>

locale foldable_table =
  fixes T :: "('x, 'f::field) sumcheck_table"
    and fold_factor :: "'f \<Rightarrow> 'x \<Rightarrow> sumcheck_error + 'f folded_factor"
  assumes fold_reads: "reads T x v \<Longrightarrow> length v = 2 ^ Suc n \<Longrightarrow> Suc n < 64 \<Longrightarrow>
    \<exists>y. fold_factor r x = Inr y \<and> reads folded_table y (folded r v)"
begin

lemma fold_tables:
  assumes "term_tables T terms tables" "terms_shape (2 ^ Suc n) d tables" "Suc n < 64"
  shows "\<exists>terms'. try_map (try_map (fold_factor r)) terms = Inr terms' \<and> term_tables folded_table terms' (folded_terms r tables)"
  unfolding folded_terms_def
proof (rule try_map_list_all2 [OF assms(1)])
  fix factors vs
  assume factors: "list_all2 (reads T) factors vs" and "vs \<in> set tables"
  then have "\<forall>v \<in> set vs. length v = 2 ^ Suc n" using assms(2) by (simp add: terms_shape_def)
  with fold_reads assms(3) show "\<exists>ys. try_map (fold_factor r) factors = Inr ys \<and> list_all2 (reads folded_table) ys (map (folded r) vs)"
    by (intro try_map_list_all2 [OF factors]) blast
qed

text \<open>One round: what is computed, what is left to prove, and that the verifier follows.\<close>

lemma one_round:
  assumes "separates TYPE('f) (Suc d)" "0 < d" "Suc d < 2 ^ 63" "tables \<noteq> []" "length rounds < 2 ^ 64"
    and reads: "reads T shared sv" "term_tables T terms tables"
    and shape: "terms_shape (2 ^ Suc n) d tables" "length sv = 2 ^ Suc n" "Suc n < 64"
  shows "\<exists>m t1 r t2 shared' terms'. shared_sum_product_round T shared terms = Inr m \<and>
    absorb_round ops ''sum-of-products-sumcheck'' (length rounds) m t = Inr t1 \<and>
    challenge_scalar ops ''sum-of-products-sumcheck-challenge'' t1 = (r, t2) \<and>
    fold_factor r shared = Inr shared' \<and> try_map (try_map (fold_factor r)) terms = Inr terms' \<and>
    reads folded_table shared' (folded r sv) \<and> term_tables folded_table terms' (folded_terms r tables) \<and>
    terms_shape (2 ^ n) d (folded_terms r tables) \<and> length (folded r sv) = 2 ^ n \<and>
    (\<forall>result. terms_verified ops (Suc d) (full_terms (folded r sv) (folded_terms r tables)) (rounds @ [m]) claim (point @ [r]) t2 n result \<longrightarrow>
      terms_verified ops (Suc d) (full_terms sv tables) rounds claim point t (Suc n) result)"
proof -
  let ?F = "full_terms sv tables"
  let ?m = "honest_message (Suc d) (2 ^ Suc n) ?F"
  have m: "shared_sum_product_round T shared terms = Inr ?m"
    using assms(3) by (intro shared_round_exact [OF reads shape(1,2) assms(2,4) shape(3)]) simp
  have "length ?m = Suc (Suc d)" by (rule honest_message_facts) simp
  then obtain t1 where t1: "absorb_round ops ''sum-of-products-sumcheck'' (length rounds) ?m t = Inr t1"
    using absorb_message_ok [OF assms(5), of ?m] assms(3) by fastforce
  obtain r t2 where t2: "challenge_scalar ops ''sum-of-products-sumcheck-challenge'' t1 = (r, t2)" by fastforce
  obtain shared' where shared': "fold_factor r shared = Inr shared'" "reads folded_table shared' (folded r sv)"
    using fold_reads [OF reads(1) shape(2,3)] by blast
  obtain terms' where terms': "try_map (try_map (fold_factor r)) terms = Inr terms'" "term_tables folded_table terms' (folded_terms r tables)"
    using fold_tables [OF reads(2) shape(1,3)] by blast
  have half: "terms_shape (2 ^ n) d (folded_terms r tables)" "length (folded r sv) = 2 ^ n"
    using terms_shape_folded [OF shape(1), of r] shape(2) by simp_all
  have "terms_verified ops (Suc d) ?F rounds claim point t (Suc n) result"
    if "terms_verified ops (Suc d) (full_terms (folded r sv) (folded_terms r tables)) (rounds @ [?m]) claim (point @ [r]) t2 n result" for result
    by (rule terms_round_verifies [OF assms(1) _ assms(3) full_shape [OF shape(1,2)] refl t1 t2 that [folded folded_full]]) simp
  with m t1 t2 shared' terms' half show ?thesis by blast
qed

end

interpretation compact: foldable_table factor_table "\<lambda>r x. factor_fold x r"
  by unfold_locales (rule factor_fold_reads)

interpretation layered: foldable_table folded_table folded_fold
  by unfold_locales (rule folded_fold_reads)

lemma terms_loop_verifies:
  assumes "separates TYPE('f::field) (Suc d)" "0 < d" "Suc d < 2 ^ 63" "length tables < 2 ^ 64" "tables \<noteq> []"
    and "reads folded_table shared sv" "term_tables folded_table terms (tables :: 'f terms)" "terms_shape (2 ^ n) d tables"
    "length sv = 2 ^ n" "n < 64" "length rounds + n \<le> 64"
  shows "terms_verified ops (Suc d) (full_terms sv tables) rounds claim point t n (terms_loop ops (2 ^ n) shared terms rounds claim point t)"
  using assms(4-)
proof (induction n arbitrary: shared sv terms tables rounds point t)
  case 0
  then show ?case using terms_finish_verifies [of folded_table shared sv terms tables d] assms(3) by (subst terms_loop.simps) simp
next
  case (Suc n)
  have "length rounds < 2 ^ 64" using Suc.prems(8) by simp
  from layered.one_round [OF assms(1-3) Suc.prems(2) this Suc.prems(3-7), of ops t claim point]
  obtain m t1 r t2 shared' terms' where run: "shared_sum_product_round folded_table shared terms = Inr m"
      "absorb_round ops ''sum-of-products-sumcheck'' (length rounds) m t = Inr t1"
      "challenge_scalar ops ''sum-of-products-sumcheck-challenge'' t1 = (r, t2)"
      "folded_fold r shared = Inr shared'" "try_map (try_map (folded_fold r)) terms = Inr terms'"
    and next_state: "reads folded_table shared' (folded r sv)" "term_tables folded_table terms' (folded_terms r tables)"
      "terms_shape (2 ^ n) d (folded_terms r tables)" "length (folded r sv) = 2 ^ n"
    and step: "\<And>result. terms_verified ops (Suc d) (full_terms (folded r sv) (folded_terms r tables)) (rounds @ [m]) claim (point @ [r]) t2 n result \<Longrightarrow>
      terms_verified ops (Suc d) (full_terms sv tables) rounds claim point t (Suc n) result" by metis
  have "1 < (2 :: nat) ^ Suc n" by (rule one_less_power) simp_all
  then have loop: "terms_loop ops (2 ^ Suc n) shared terms rounds claim point t =
      terms_loop ops (2 ^ n) shared' terms' (rounds @ [m]) claim (point @ [r]) t2"
    using run by (subst terms_loop.simps) simp
  show ?case unfolding loop using Suc.prems next_state
    by (intro step Suc.IH) (simp_all add: folded_terms_def)
qed

text \<open>Splitting off the shared factor.\<close>

lemma split_shared_exact:
  assumes "all_terms = (shared # first) # rest" "\<forall>factors \<in> set rest. factors \<noteq> [] \<and> same_table shared (hd factors)"
  shows "split_shared_first all_terms = Inr (shared, map tl all_terms)"
proof -
  have "try_fold (split_step shared) acc fs = Inr (acc @ map tl fs)"
    if "\<forall>factors \<in> set fs. factors \<noteq> [] \<and> same_table shared (hd factors)" for acc fs
    using that by (induction fs arbitrary: acc) (auto simp: split_step_def split: list.split)
  from this [OF assms(2), of "[first]"] assms(1) show ?thesis by (simp add: split_shared_first_def)
qed

lemma term_tables_of_factors:
  assumes "\<forall>factors \<in> set all_terms. length factors = Suc d \<and> (\<forall>x \<in> set factors. factor_ok x \<and> length (factor_entries x) = 2 ^ n)" "n < 64"
  shows "\<And>factors x. factors \<in> set all_terms \<Longrightarrow> x \<in> set factors \<Longrightarrow> reads factor_table x (factor_entries x)"
    "term_tables factor_table (map tl all_terms) (map (map factor_entries) (map tl all_terms))"
    "terms_shape (2 ^ n) d (map (map factor_entries) (map tl all_terms))"
proof -
  have "(2 :: nat) ^ n < 2 ^ 64" using assms(2) by (intro power_strict_increasing) simp_all
  then show reads: "reads factor_table x (factor_entries x)" if "factors \<in> set all_terms" "x \<in> set factors" for factors x
    using assms(1) that by (intro factor_reads) auto
  have tl: "x \<in> set factors" if "x \<in> set (tl factors)" for x and factors :: "'a sumcheck_factor list"
    using that by (cases factors) auto
  show "terms_shape (2 ^ n) d (map (map factor_entries) (map tl all_terms))"
    using assms(1) by (auto simp: terms_shape_def dest: tl)
  have inner: "list_all2 (reads factor_table) (tl factors) (map factor_entries (tl factors))" if "factors \<in> set all_terms" for factors
    using reads [OF that] by (auto simp: list_all2_map2 list_all2_same dest: tl)
  show "term_tables factor_table (map tl all_terms) (map (map factor_entries) (map tl all_terms))"
    using inner by (simp only: list_all2_map1 list_all2_map2 list_all2_same) (simp add: list_all2_map2)
qed

lemma full_of_shared:
  assumes "\<And>factors. factors \<in> set all_terms \<Longrightarrow> factors \<noteq> [] \<and> factor_entries (hd factors) = factor_entries shared"
  shows "full_terms (factor_entries shared) (map (map factor_entries) (map tl all_terms)) = map (map factor_entries) all_terms"
proof -
  have "factor_entries shared # map factor_entries (tl factors) = map factor_entries factors" if "factors \<in> set all_terms" for factors
    using assms [OF that] by (cases factors) simp_all
  then show ?thesis by (auto simp: full_terms_def)
qed

lemma prove_shared_verifies:
  assumes "separates TYPE('f::field) (Suc d)" "0 < d" "Suc d < 2 ^ 63" "length tables < 2 ^ 64" "tables \<noteq> []"
    and split: "split_shared_first all_terms = Inr (shared, terms)"
    and reads: "reads factor_table shared sv" "term_tables factor_table terms (tables :: 'f terms)"
    and shape: "terms_shape (2 ^ n) d tables" "length sv = 2 ^ n" "n < 64"
  shows "terms_verified ops (Suc d) (full_terms sv tables) [] (claim_of (2 ^ n) (full_terms sv tables)) [] t n
    (prove_shared_first ops all_terms t)"
proof -
  let ?F = "full_terms sv tables"
  have vars: "variable_count (2 ^ n) = Inr n" by (simp add: variable_count_def)
  have len: "table_len factor_table shared = 2 ^ n" using reads(1) shape(2) by (simp add: reads_def)
  note start = split validate_terms_ok [OF reads(2) shape(1) assms(2,5)] shared_sum_exact [OF reads shape(1,2) assms(2,5)] vars len
  show ?thesis
  proof (cases n)
    case 0
    then show ?thesis using start terms_finish_verifies [OF reads, of d ops "[]"] shape assms(3,4) by (simp add: prove_shared_first_def)
  next
    case (Suc k)
    note shape = shape [unfolded Suc] and start = start [unfolded Suc]
    let ?c = "claim_of (2 ^ Suc k) ?F"
    from compact.one_round [OF assms(1-3,5) _ reads shape, of "[]" ops t ?c "[]"]
    obtain m t1 r t2 shared' terms' where run: "shared_sum_product_round factor_table shared terms = Inr m"
        "absorb_round ops ''sum-of-products-sumcheck'' 0 m t = Inr t1"
        "challenge_scalar ops ''sum-of-products-sumcheck-challenge'' t1 = (r, t2)"
        "factor_fold shared r = Inr shared'" "fold_initial_terms r terms = Inr terms'"
      and next_state: "reads folded_table shared' (folded r sv)" "term_tables folded_table terms' (folded_terms r tables)"
        "terms_shape (2 ^ k) d (folded_terms r tables)" "length (folded r sv) = 2 ^ k"
      and step: "\<And>result. terms_verified ops (Suc d) (full_terms (folded r sv) (folded_terms r tables)) [m] ?c [r] t2 k result \<Longrightarrow>
        terms_verified ops (Suc d) ?F [] ?c [] t (Suc k) result" by (auto simp: fold_initial_terms_def)
    have long: "(2 :: nat) ^ Suc k \<noteq> 1" "(2 :: nat) ^ Suc k div 2 = 2 ^ k" by simp_all
    have prove: "prove_shared_first ops all_terms t = terms_loop ops (2 ^ k) shared' terms' [m] ?c [r] t2"
      using start run long by (simp add: prove_shared_first_def del: power_Suc)
    show ?thesis unfolding prove Suc using assms(4,5) next_state shape(3)
      by (intro step terms_loop_verifies [OF assms(1-3)]) (simp_all add: folded_terms_def)
  qed
qed

section \<open>The verifier\<close>

lemma terms_verify_loop_accepts:
  assumes "separates TYPE('f::field) d" "d < 2 ^ 63" "\<forall>m \<in> set rounds. length m = Suc d"
    "terms_verify_loop ops k rounds (claim :: 'f) point t = Inr (final, point', t')"
  shows "\<exists>rs. point' = point @ rs \<and> rounds_accept claim rounds rs final \<and> length rs = length rounds"
  using assms(3,4)
proof (induction rounds arbitrary: k claim point t)
  case (Cons m messages)
  obtain t1 r t2 c where step: "m ! 0 + m ! 1 = claim" "challenge_scalar ops ''sum-of-products-sumcheck-challenge'' t1 = (r, t2)"
    "evaluate_lagrange m r = Inr c" "terms_verify_loop ops (Suc k) messages c (point @ [r]) t2 = Inr (final, point', t')"
    using Cons.prems(2) by (cases m) (auto simp: vec_get_def case_prod_beta split: if_splits, metis prod.collapse)
  have "evaluate_lagrange m r = Inr (lagrange m r)"
    using Cons.prems(1) assms(1,2) by (intro evaluate_lagrange_exact) auto
  then have c: "c = lagrange m r" using step(3) by simp
  obtain rs where "point' = (point @ [r]) @ rs" "rounds_accept c messages rs final" "length rs = length messages"
    using Cons.IH [OF _ step(4)] Cons.prems(1) by auto
  with step(1) c show ?case by (intro exI [of _ "r # rs"]) simp
qed simp

lemma verify_terms_accepts:
  assumes "separates TYPE('f::field) d" "d < 2 ^ 63" "verify_terms ops proof (claim :: 'f) n k d t = Inr (point, t')"
  shows "length (spp_rounds proof) = n \<and> length point = n \<and> (\<forall>m \<in> set (spp_rounds proof). length m = Suc d) \<and>
    rounds_accept claim (spp_rounds proof) point (terminal_term_sum (spp_final_terms proof))"
proof -
  obtain final t1 where v: "validate_shape proof n k d = Inr ()" "terms_verify_loop ops 0 (spp_rounds proof) claim [] t = Inr (final, point, t1)"
    "final = terminal_term_sum (spp_final_terms proof)"
    using assms(3) by (auto simp: verify_terms_def split: if_splits prod.splits)
  from v(1) have shape: "length (spp_rounds proof) = n" "\<forall>m \<in> set (spp_rounds proof). length m = Suc d"
    by (auto simp: validate_shape_def split: if_splits)
  from terms_verify_loop_accepts [OF assms(1,2) shape(2) v(2)] show ?thesis using shape v(3) by auto
qed

end
