(* ===== verification/Sumcheck_Properties.thy ===== *)
theory Sumcheck_Properties
  imports Sumcheck_Protocol
begin

text \<open>
  What the sumcheck component of the proof backend promises: the folding routine evaluates the
  multilinear extension, proofs are accepted and carry the right terminal values, an accepted
  proof of a false claim needs an unlucky challenge, and the sparse prover is the dense one.
\<close>

section \<open>Multilinear evaluation\<close>

text \<open>C20: Evaluating a table at a point, by folding it layer by layer in place, yields the value of its
  multilinear extension; points too long for the machine and tables of another length are the
  two errors.\<close>

theorem evaluate_mle_spec:
  "evaluate_mle vs point =
     (if 64 \<le> length point then Inl FF_IndexOverflow
      else if length vs \<noteq> 2 ^ length point then Inl FF_InvalidLength
      else Inr (mle vs point))"
proof (cases "length point < 64 \<and> length vs = 2 ^ length point")
  case True
  then show ?thesis by (simp add: evaluate_mle_exact)
next
  case False
  then show ?thesis by (auto simp: evaluate_mle_def)
qed

section \<open>The product sumcheck\<close>

text \<open>A transcript that counts what it absorbs and draws that count: the instance of the witnesses.\<close>

definition counting_transcript :: "(nat, real) transcript_ops" where
  "counting_transcript = \<lparr>append_bytes = \<lambda>_ bytes n. n + length bytes, append_field = \<lambda>_ _ n. Suc n,
     challenge_scalar = \<lambda>_ n. (of_nat n, n)\<rparr>"

lemma real_separates: "separates TYPE(real) d"
  by (simp add: separates_def inj_on_def)

text \<open>C17: The product prover always succeeds on two tables of the same power-of-two length.  Its claim is
  their inner product, its terminal values are the multilinear extensions at the challenges it
  drew, and the verifier, from the same transcript, accepts the proof and ends in the same point
  and transcript.\<close>

theorem product_sumcheck_complete:
  assumes "separates TYPE('f::field) 2" "length left = 2 ^ n" "length (right :: 'f list) = 2 ^ n" "n < 64"
  shows "\<exists>rounds point t' claim proof.
    proof = \<lparr>psp_rounds = rounds, psp_final_left = mle left point, psp_final_right = mle right point\<rparr> \<and>
    claim = (\<Sum>i < 2 ^ n. left ! i * right ! i) \<and> length point = n \<and>
    prove_product ops left right t = Inr ((proof, claim, point), t') \<and>
    verify_product ops proof claim n t = Inr (point, t')"
proof -
  have claim: "claim_of (2 ^ n) (product_terms left right) = (\<Sum>i < 2 ^ n. left ! i * right ! i)"
    by (simp add: claim_of_def term_sum_def)
  from prove_product_verifies [OF assms, of ops t] obtain new rs t1 t2 where run:
    "prove_product ops left right t = Inr ((\<lparr>psp_rounds = new, psp_final_left = mle left rs, psp_final_right = mle right rs\<rparr>,
       claim_of (2 ^ n) (product_terms left right), rs), t2)" "length new = n" "length rs = n"
    "product_verify_loop ops 0 new (claim_of (2 ^ n) (product_terms left right)) [] t = Inr (mle left rs * mle right rs, rs, t1)"
    "absorb_finals ops ''product-sumcheck-final'' [mle left rs, mle right rs] t1 = Inr t2"
    by (auto simp: proves_and_verifies_def)
  then have "verify_product ops \<lparr>psp_rounds = new, psp_final_left = mle left rs, psp_final_right = mle right rs\<rparr>
      (claim_of (2 ^ n) (product_terms left right)) n t = Inr (rs, t2)"
    by (simp add: verify_product_def)
  with run(1,3) show ?thesis unfolding claim by blast
qed

theorem product_sumcheck_complete_witness:
  "\<exists>rounds point t' claim proof.
    proof = \<lparr>psp_rounds = rounds, psp_final_left = mle [1, 2] point, psp_final_right = mle [3, 4] point\<rparr> \<and>
    claim = (\<Sum>i < 2. [1, 2] ! i * [3, 4] ! i) \<and> length point = 1 \<and>
    prove_product counting_transcript [1, 2] [3, 4] 0 = Inr ((proof, claim, point), t') \<and>
    verify_product counting_transcript proof claim 1 0 = Inr (point, t')"
  using product_sumcheck_complete [OF real_separates, of "[1, 2]" 1 "[3, 4]" counting_transcript 0] by simp

text \<open>C15: When the product verifier accepts and the terminal values are those of two tables, the claim is
  their inner product, or one of the challenges fell into a set of at most two elements that
  the tables, the earlier challenges and the round message determine.\<close>

theorem product_sumcheck_sound:
  assumes "separates TYPE('f::field) 2" "length left = 2 ^ n" "length (right :: 'f list) = 2 ^ n"
    "verify_product ops proof claim n t = Inr (point, t')"
    "psp_final_left proof = mle left point" "psp_final_right proof = mle right point"
  shows "(claim = (\<Sum>i < 2 ^ n. left ! i * right ! i) \<or>
      (\<exists>k < n. point ! k \<in> bad_challenges 2 [[left, right]] n (take k point) (as_slice (psp_rounds proof ! k)))) \<and>
    (\<forall>k < n. card (bad_challenges 2 [[left, right]] n (take k point) (as_slice (psp_rounds proof ! k))) \<le> 2 \<and>
      finite (bad_challenges 2 [[left, right]] n (take k point) (as_slice (psp_rounds proof ! k))))"
proof -
  let ?F = "product_terms left right" and ?ms = "map as_slice (psp_rounds proof)"
  note acc = verify_product_accepts [OF assms(1,4)]
  have three: "length (as_slice m) = Suc 2" for m :: "'f array3" by (cases m) simp
  have shape: "terms_shape (2 ^ n) 2 ?F" using assms(2,3) by (rule product_shape)
  have "rounds_accept claim ?ms point (final_claim ?F point)"
    using acc assms(2,3,5,6) by (simp add: fold_folded_terms)
  with acc shape three have "claim = claim_of (2 ^ length point) ?F \<or> some_unlucky 2 (2 ^ length point) ?F ?ms point"
    by (intro rounds_sound [OF assms(1)]) auto
  then have "claim = (\<Sum>i < 2 ^ n. left ! i * right ! i) \<or>
      (\<exists>k < n. point ! k \<in> bad_challenges 2 ?F n (take k point) (as_slice (psp_rounds proof ! k)))"
    using some_unlucky_bad [of 2 point ?F ?ms] acc by (auto simp: claim_of_def term_sum_def)
  moreover have "finite (bad_challenges 2 ?F n (take k point) (as_slice m)) \<and> card (bad_challenges 2 ?F n (take k point) (as_slice m)) \<le> 2"
    if "k < n" for k m
    using bad_challenges_bound [OF assms(1) shape, of "take k point" "as_slice m"] acc three that by simp
  ultimately show ?thesis by blast
qed

theorem product_sumcheck_sound_witness:
  "verify_product counting_transcript \<lparr>psp_rounds = [(3, 8, 15)], psp_final_left = 20, psp_final_right = 22\<rparr> 11 1 0 = Inr ([19], 29) \<and>
    card (bad_challenges 2 [[[1, 2], [3, 4]]] 1 [] [3, 8, 15 :: real]) \<le> 2"
proof -
  have run: "verify_product counting_transcript \<lparr>psp_rounds = [(3, 8, 15)], psp_final_left = 20, psp_final_right = 22\<rparr> 11 1 0 = Inr ([19], 29)"
    by (simp add: verify_product_def counting_transcript_def absorb_round_def absorb_finals_def u64_try_from_def evaluate_lagrange_def
        lagrange_term_def lagrange_factor_def usize_to_field_def field_inverse_def upt_rec)
  from product_sumcheck_sound [OF real_separates _ _ this, of "[1, 2]" "[3, 4]"] run show ?thesis by (simp add: mle_def lessThan_Suc)
qed

text \<open>C19: The prover for a sparse left table, which keeps its nonzero entries only and merges them
  layer by layer, does exactly what the dense prover does on the table its entries add up to:
  same messages, claim, terminal values, challenges and transcript.\<close>

theorem sparse_prover_equivalent:
  assumes "is_power_of_two n" "n < 2 ^ 64" "\<forall>e \<in> set entries. fst e < n" "length right = n"
  shows "prove_sparse_left ops entries n right t =
    prove_product ops (map (\<lambda>i. \<Sum>(j, v)\<leftarrow>entries. if j = i then v else 0) [0..<n]) right t"
  using prove_sparse_exact [OF assms] by (simp add: dense_value_def [abs_def])

theorem sparse_prover_equivalent_witness:
  "prove_sparse_left counting_transcript [(3, 5), (0, 7), (3, 1)] 4 [1, 2, 3, 4] 0 =
    prove_product counting_transcript (map (\<lambda>i. \<Sum>(j, v)\<leftarrow>[(3, 5), (0, 7), (3, 1)]. if j = i then v else 0) [0..<4]) [1, 2, 3, 4] 0"
proof -
  have "is_power_of_two 4" using is_power_of_two_pow2 [of 2] by simp
  from sparse_prover_equivalent [OF this, of "[(3, 5), (0, 7), (3, 1)]" "[1, 2, 3, 4]" counting_transcript 0] show ?thesis by simp
qed

section \<open>The sum of products\<close>

text \<open>C18: The sum-of-products prover succeeds on terms of equally many, at least two, compact factors that
  share their first table.  Its claim is the sum over the rows of the sum of the products of the tables the
  factors stand for, its terminal values are the multilinear extensions of those tables at the
  challenges, and the verifier accepts the proof and ends in the same point and transcript.\<close>

theorem sum_of_products_complete:
  assumes "separates TYPE('f::field) (Suc d)" "0 < d" "Suc d < 2 ^ 63" "n < 64" "length (first # rest) < 2 ^ 64"
    and "shared # xs = first" "\<forall>factors \<in> set rest. factors \<noteq> [] \<and> same_table shared (hd factors) \<and> factor_entries (hd factors) = factor_entries shared"
    and "\<forall>factors \<in> set (first # rest). length factors = Suc d \<and>
      (\<forall>factor \<in> set factors. factor_ok factor \<and> length (factor_entries factor) = 2 ^ n)"
  shows "\<exists>rounds point t' claim proof.
    proof = \<lparr>spp_rounds = rounds, spp_final_terms = map (map (\<lambda>factor. mle (factor_entries factor) point)) (first # rest)\<rparr> \<and>
    claim = (\<Sum>i < 2 ^ n. \<Sum>factors\<leftarrow>first # rest. \<Prod>factor\<leftarrow>factors. factor_entries factor ! i :: 'f) \<and> length point = n \<and>
    prove_shared_first ops (first # rest) t = Inr ((proof, claim, point), t') \<and>
    verify_terms ops proof claim n (length (first # rest)) (Suc d) t = Inr (point, t')"
proof -
  let ?all = "first # rest"
  let ?terms = "map tl ?all" and ?tables = "map (map factor_entries) (map tl ?all)"
  let ?F = "full_terms (factor_entries shared) ?tables"
  have full: "?F = map (map factor_entries) ?all" using assms(6-8) by (intro full_of_shared) auto
  note tables = term_tables_of_factors [OF assms(8,4)]
  have split: "split_shared_first ?all = Inr (shared, ?terms)"
    using assms(6,7) by (intro split_shared_exact [of _ _ xs rest]) auto
  have sv: "reads factor_table shared (factor_entries shared)" "length (factor_entries shared) = 2 ^ n"
    using tables(1) [of first shared] assms(6,8) by auto
  have "terms_verified ops (Suc d) ?F [] (claim_of (2 ^ n) ?F) [] t n (prove_shared_first ops ?all t)"
    using assms(5) by (intro prove_shared_verifies [OF assms(1-3) _ _ split sv(1) tables(2,3) sv(2) assms(4)]) simp_all
  then obtain new rs t1 t2 where run:
    "prove_shared_first ops ?all t = Inr ((\<lparr>spp_rounds = new, spp_final_terms = final_values rs ?F\<rparr>, claim_of (2 ^ n) ?F, rs), t2)"
    "length new = n" "length rs = n" "\<forall>m \<in> set new. length m = Suc (Suc d)"
    "terms_verify_loop ops 0 new (claim_of (2 ^ n) ?F) [] t = Inr (terminal_term_sum (final_values rs ?F), rs, t1)"
    "absorb_term_finals ops (final_values rs ?F) t1 = Inr t2"
    by (auto simp: terms_verified_def)
  have finals: "final_values rs ?F = map (map (\<lambda>factor. mle (factor_entries factor) rs)) ?all"
    unfolding full final_values_def by simp
  have claim: "claim_of (2 ^ n) ?F = (\<Sum>i < 2 ^ n. \<Sum>factors\<leftarrow>?all. \<Prod>factor\<leftarrow>factors. factor_entries factor ! i)"
    unfolding full claim_of_def term_sum_def by (simp add: comp_def)
  have "validate_shape \<lparr>spp_rounds = new, spp_final_terms = final_values rs ?F\<rparr> n (length ?all) (Suc d) = Inr ()"
    using run(2,4) assms(8) unfolding finals by (auto simp: validate_shape_def)
  then have "verify_terms ops \<lparr>spp_rounds = new, spp_final_terms = final_values rs ?F\<rparr> (claim_of (2 ^ n) ?F) n (length ?all) (Suc d) t = Inr (rs, t2)"
    using run(5,6) by (simp add: verify_terms_def)
  with run(1,3) show ?thesis unfolding finals claim by blast
qed

definition example_first :: "real sumcheck_factor list" where
  "example_first = [factor_borrowed (64, [1, 2]), factor_affine (96, [5, 6]) 2 1, factor_constant 3 2]"

definition example_second :: "real sumcheck_factor list" where
  "example_second = [factor_shared (64, [1, 2]), factor_linear_combination [((128, [7, 8]), 4)] 1 9 2, factor_scaled (96, [5, 6]) 2]"

lemmas factor_constructors = factor_borrowed_def factor_shared_def factor_affine_def factor_scaled_def factor_constant_def factor_linear_combination_def

theorem sum_of_products_complete_witness:
  "\<exists>rounds point t' claim proof.
    proof = \<lparr>spp_rounds = rounds, spp_final_terms = map (map (\<lambda>factor. mle (factor_entries factor) point)) [example_first, example_second]\<rparr> \<and>
    claim = (\<Sum>i < 2 ^ 1. \<Sum>factors\<leftarrow>[example_first, example_second]. \<Prod>factor\<leftarrow>factors. factor_entries factor ! i) \<and> length point = 1 \<and>
    prove_shared_first counting_transcript [example_first, example_second] 0 = Inr ((proof, claim, point), t') \<and>
    verify_terms counting_transcript proof claim 1 (length [example_first, example_second]) (Suc 2) 0 = Inr (point, t')"
  by (rule sum_of_products_complete [OF real_separates, of 2 1 example_first "[example_second]" "hd example_first" "tl example_first"])
    (simp_all add: example_first_def example_second_def factor_constructors)

text \<open>C16: When the sum-of-products verifier accepts and the terminal values are those of the tables of
  the terms, the claim is the sum over the rows, or one of the challenges fell into a set of at most
  as many elements as a term has factors, fixed before the challenge was drawn.\<close>

theorem sum_of_products_sound:
  assumes "separates TYPE('f::field) d" "0 < d" "d < 2 ^ 63"
    "\<forall>factors \<in> set terms. length factors = d \<and> (\<forall>table \<in> set factors. length (table :: 'f list) = 2 ^ n)"
    "verify_terms ops proof claim n (length terms) d t = Inr (point, t')"
    "spp_final_terms proof = map (map (\<lambda>table. mle table point)) terms"
  shows "(claim = (\<Sum>i < 2 ^ n. \<Sum>factors\<leftarrow>terms. \<Prod>table\<leftarrow>factors. table ! i) \<or>
      (\<exists>k < n. point ! k \<in> bad_challenges d terms n (take k point) (spp_rounds proof ! k))) \<and>
    (\<forall>k < n. card (bad_challenges d terms n (take k point) (spp_rounds proof ! k)) \<le> d \<and>
      finite (bad_challenges d terms n (take k point) (spp_rounds proof ! k)))"
proof -
  note acc = verify_terms_accepts [OF assms(1,3,5)]
  have shape: "terms_shape (2 ^ n) d terms" using assms(4) by (simp add: terms_shape_def)
  have "rounds_accept claim (spp_rounds proof) point (final_claim terms point)"
    using acc shape assms(6) by (simp add: final_claim_values [of point d] final_values_def)
  with acc shape have "claim = claim_of (2 ^ length point) terms \<or> some_unlucky d (2 ^ length point) terms (spp_rounds proof) point"
    by (intro rounds_sound [OF assms(1,2)]) auto
  then have "claim = (\<Sum>i < 2 ^ n. \<Sum>factors\<leftarrow>terms. \<Prod>table\<leftarrow>factors. table ! i) \<or>
      (\<exists>k < n. point ! k \<in> bad_challenges d terms n (take k point) (spp_rounds proof ! k))"
    using some_unlucky_bad [of d point terms "spp_rounds proof"] acc by (auto simp: claim_of_def term_sum_def)
  moreover have "finite (bad_challenges d terms n (take k point) (spp_rounds proof ! k)) \<and>
      card (bad_challenges d terms n (take k point) (spp_rounds proof ! k)) \<le> d" if "k < n" for k
    using bad_challenges_bound [OF assms(1) shape, of "take k point" "spp_rounds proof ! k"] acc that by simp
  ultimately show ?thesis by blast
qed

theorem sum_of_products_sound_witness:
  "verify_terms counting_transcript \<lparr>spp_rounds = [[3, 8, 15]], spp_final_terms = [[20, 22]]\<rparr> 11 1 1 2 0 = Inr ([19], 37) \<and>
    card (bad_challenges 2 [[[1, 2], [3, 4]]] 1 [] [3, 8, 15 :: real]) \<le> 2"
proof -
  have run: "verify_terms counting_transcript \<lparr>spp_rounds = [[3, 8, 15]], spp_final_terms = [[20, 22]]\<rparr> 11 1 (length [[[1, 2], [3, 4 :: real]]]) 2 0 = Inr ([19], 37)"
    by (simp add: verify_terms_def validate_shape_def terminal_term_sum_def counting_transcript_def absorb_round_def absorb_term_finals_def
        absorb_term_final_def u64_try_from_def evaluate_lagrange_def lagrange_term_def lagrange_factor_def usize_to_field_def field_inverse_def
        vec_get_def upt_rec)
  from sum_of_products_sound [OF real_separates _ _ _ this] run show ?thesis by (simp add: mle_def lessThan_Suc)
qed

end
