(* ===== verification/Trace_Columns.thy ===== *)
theory Trace_Columns
  imports Prelude
begin

text \<open>
  The column layout of the one-transition reference rows of the proof backend
  (\<open>zksm83-jolt/src/trace.rs\<close>, \<open>isa.rs\<close>, \<open>trace/mode.rs\<close>, and the counts of \<open>state.rs\<close>,
  \<open>isa_lookup.rs\<close> and \<open>rom_lookup.rs\<close> it is built from).
\<close>

section \<open>Modes\<close>

datatype trace_mode =
    Mode_Instruction | Mode_HaltIdle | Mode_HaltUntilVBlank | Mode_HaltWake | Mode_Interrupt | Mode_DmaByte
  | Mode_HaltUntilSerial | Mode_HaltUntilTimer | Mode_Padding

definition TRACE_MODES :: nat where "TRACE_MODES = 9"

fun mode_index :: "trace_mode \<Rightarrow> nat" where
  "mode_index Mode_Instruction = 0"
| "mode_index Mode_HaltIdle = 1"
| "mode_index Mode_HaltUntilVBlank = 2"
| "mode_index Mode_HaltWake = 3"
| "mode_index Mode_Interrupt = 4"
| "mode_index Mode_DmaByte = 5"
| "mode_index Mode_HaltUntilSerial = 6"
| "mode_index Mode_HaltUntilTimer = 7"
| "mode_index Mode_Padding = 8"

section \<open>Columns\<close>

definition STATE_SCALAR_COUNT :: nat where "STATE_SCALAR_COUNT = 38"
definition ISA_ADDRESS_BIT_COUNT :: nat where "ISA_ADDRESS_BIT_COUNT = 9"
definition ROM_ADDRESS_BIT_COUNT :: nat where "ROM_ADDRESS_BIT_COUNT = 20"
definition ISA_OUTPUT_COUNT :: nat where "ISA_OUTPUT_COUNT = 38"
definition ISA_PADDING_ADDRESS :: nat where "ISA_PADDING_ADDRESS = 0xd3"
definition ISA_VALID :: nat where "ISA_VALID = 0"
definition ISA_WRITE_BITS_START :: nat where "ISA_WRITE_BITS_START = 11"
definition ISA_OPCODE_FETCHES :: nat where "ISA_OPCODE_FETCHES = 5"
definition ISA_IMMEDIATE_READS :: nat where "ISA_IMMEDIATE_READS = 6"
definition ISA_DATA_READS :: nat where "ISA_DATA_READS = 7"
definition ISA_DATA_WRITES :: nat where "ISA_DATA_WRITES = 8"
definition ISA_BASE_M_CYCLES :: nat where "ISA_BASE_M_CYCLES = 3"
definition ISA_TAKEN_M_CYCLES :: nat where "ISA_TAKEN_M_CYCLES = 4"
definition ISA_TAKEN_DATA_READS :: nat where "ISA_TAKEN_DATA_READS = 9"
definition ISA_TAKEN_DATA_WRITES :: nat where "ISA_TAKEN_DATA_WRITES = 10"
definition ISA_TAKEN_TIMING :: nat where "ISA_TAKEN_TIMING = 24"
definition ISA_OPERATION_BITS_START :: nat where "ISA_OPERATION_BITS_START = 25"
definition ISA_ARGUMENT_ZERO_BITS_START :: nat where "ISA_ARGUMENT_ZERO_BITS_START = 31"
definition ISA_ARGUMENT_ONE_BITS_START :: nat where "ISA_ARGUMENT_ONE_BITS_START = 34"
definition TRACE_BEFORE_STATE_START :: nat where "TRACE_BEFORE_STATE_START = 0"
definition TRACE_AFTER_STATE_START :: nat where "TRACE_AFTER_STATE_START = TRACE_BEFORE_STATE_START + STATE_SCALAR_COUNT"
definition TRACE_ACTIVE :: nat where "TRACE_ACTIVE = TRACE_AFTER_STATE_START + STATE_SCALAR_COUNT"
definition TRACE_MODE_START :: nat where "TRACE_MODE_START = TRACE_ACTIVE + 1"
definition TRACE_MODE_COUNT :: nat where "TRACE_MODE_COUNT = TRACE_MODES"
definition TRACE_INTERRUPT_START :: nat where "TRACE_INTERRUPT_START = TRACE_MODE_START + TRACE_MODE_COUNT"
definition TRACE_INTERRUPT_COUNT :: nat where "TRACE_INTERRUPT_COUNT = 5"
definition TRACE_CYCLE_INCREMENT :: nat where "TRACE_CYCLE_INCREMENT = TRACE_INTERRUPT_START + TRACE_INTERRUPT_COUNT"
definition TRACE_BRANCH_TAKEN :: nat where "TRACE_BRANCH_TAKEN = TRACE_CYCLE_INCREMENT + 1"
definition TRACE_ISA_ADDRESS_START :: nat where "TRACE_ISA_ADDRESS_START = TRACE_BRANCH_TAKEN + 1"
definition TRACE_ISA_OUTPUT_START :: nat where "TRACE_ISA_OUTPUT_START = TRACE_ISA_ADDRESS_START + ISA_ADDRESS_BIT_COUNT"
definition TRACE_BUS_START :: nat where "TRACE_BUS_START = TRACE_ISA_OUTPUT_START + ISA_OUTPUT_COUNT"
definition TRACE_BUS_SLOTS :: nat where "TRACE_BUS_SLOTS = 5"
definition TRACE_BUS_KIND_BITS :: nat where "TRACE_BUS_KIND_BITS = 5"
definition TRACE_BUS_TUPLE_FIELDS :: nat where "TRACE_BUS_TUPLE_FIELDS = 6"
definition TRACE_BUS_SLOT_WIDTH :: nat where "TRACE_BUS_SLOT_WIDTH = 1 + TRACE_BUS_KIND_BITS + TRACE_BUS_TUPLE_FIELDS"
definition TRACE_BEFORE_CPU_BYTE_BITS_START :: nat where "TRACE_BEFORE_CPU_BYTE_BITS_START = TRACE_BUS_START + TRACE_BUS_SLOTS * TRACE_BUS_SLOT_WIDTH"
definition TRACE_AFTER_CPU_BYTE_BITS_START :: nat where "TRACE_AFTER_CPU_BYTE_BITS_START = TRACE_BEFORE_CPU_BYTE_BITS_START + 8 * 8"
definition TRACE_BEFORE_PC_BITS_START :: nat where "TRACE_BEFORE_PC_BITS_START = TRACE_AFTER_CPU_BYTE_BITS_START + 8 * 8"
definition TRACE_AFTER_PC_BITS_START :: nat where "TRACE_AFTER_PC_BITS_START = TRACE_BEFORE_PC_BITS_START + 16"
definition TRACE_BEFORE_SP_BITS_START :: nat where "TRACE_BEFORE_SP_BITS_START = TRACE_AFTER_PC_BITS_START + 16"
definition TRACE_AFTER_SP_BITS_START :: nat where "TRACE_AFTER_SP_BITS_START = TRACE_BEFORE_SP_BITS_START + 16"
definition TRACE_OPERAND_VALUE :: nat where "TRACE_OPERAND_VALUE = TRACE_AFTER_SP_BITS_START + 16"
definition TRACE_RESULT_VALUE :: nat where "TRACE_RESULT_VALUE = TRACE_OPERAND_VALUE + 1"
definition TRACE_OPERAND_BITS_START :: nat where "TRACE_OPERAND_BITS_START = TRACE_RESULT_VALUE + 1"
definition TRACE_RESULT_BITS_START :: nat where "TRACE_RESULT_BITS_START = TRACE_OPERAND_BITS_START + 8"
definition TRACE_ARITHMETIC_CARRY :: nat where "TRACE_ARITHMETIC_CARRY = TRACE_RESULT_BITS_START + 8"
definition TRACE_ARITHMETIC_HALF_CARRY :: nat where "TRACE_ARITHMETIC_HALF_CARRY = TRACE_ARITHMETIC_CARRY + 1"
definition TRACE_RESULT_ZERO :: nat where "TRACE_RESULT_ZERO = TRACE_ARITHMETIC_HALF_CARRY + 1"
definition TRACE_RESULT_ZERO_PRODUCTS_START :: nat where "TRACE_RESULT_ZERO_PRODUCTS_START = TRACE_RESULT_ZERO + 1"
definition TRACE_RESULT_ZERO_PRODUCT_COUNT :: nat where "TRACE_RESULT_ZERO_PRODUCT_COUNT = 6"
definition TRACE_IMMEDIATE_LOW :: nat where "TRACE_IMMEDIATE_LOW = TRACE_RESULT_ZERO_PRODUCTS_START + TRACE_RESULT_ZERO_PRODUCT_COUNT"
definition TRACE_IMMEDIATE_HIGH :: nat where "TRACE_IMMEDIATE_HIGH = TRACE_IMMEDIATE_LOW + 1"
definition TRACE_IMMEDIATE_LOW_BITS_START :: nat where "TRACE_IMMEDIATE_LOW_BITS_START = TRACE_IMMEDIATE_HIGH + 1"
definition TRACE_IMMEDIATE_HIGH_BITS_START :: nat where "TRACE_IMMEDIATE_HIGH_BITS_START = TRACE_IMMEDIATE_LOW_BITS_START + 8"
definition TRACE_SEQUENTIAL_PC :: nat where "TRACE_SEQUENTIAL_PC = TRACE_IMMEDIATE_HIGH_BITS_START + 8"
definition TRACE_SEQUENTIAL_PC_BITS_START :: nat where "TRACE_SEQUENTIAL_PC_BITS_START = TRACE_SEQUENTIAL_PC + 1"
definition TRACE_PC_WRAP :: nat where "TRACE_PC_WRAP = TRACE_SEQUENTIAL_PC_BITS_START + 16"
definition TRACE_HALT_BUG :: nat where "TRACE_HALT_BUG = TRACE_PC_WRAP + 1"
definition TRACE_CONTROL_UNDERFLOW :: nat where "TRACE_CONTROL_UNDERFLOW = TRACE_HALT_BUG + 1"
definition TRACE_CONTROL_OVERFLOW :: nat where "TRACE_CONTROL_OVERFLOW = TRACE_CONTROL_UNDERFLOW + 1"
definition TRACE_WORD_WRAP :: nat where "TRACE_WORD_WRAP = TRACE_CONTROL_OVERFLOW + 1"
definition TRACE_WORD_CARRY :: nat where "TRACE_WORD_CARRY = TRACE_WORD_WRAP + 1"
definition TRACE_WORD_HALF_CARRY :: nat where "TRACE_WORD_HALF_CARRY = TRACE_WORD_CARRY + 1"
definition TRACE_SIGNED_SP_UNDERFLOW :: nat where "TRACE_SIGNED_SP_UNDERFLOW = TRACE_WORD_HALF_CARRY + 1"
definition TRACE_SIGNED_SP_OVERFLOW :: nat where "TRACE_SIGNED_SP_OVERFLOW = TRACE_SIGNED_SP_UNDERFLOW + 1"
definition TRACE_STACK_WRAP :: nat where "TRACE_STACK_WRAP = TRACE_SIGNED_SP_OVERFLOW + 1"
definition TRACE_STACK_FIRST_WRAP :: nat where "TRACE_STACK_FIRST_WRAP = TRACE_STACK_WRAP + 1"
definition TRACE_POP_FLAGS_LOW_NIBBLE :: nat where "TRACE_POP_FLAGS_LOW_NIBBLE = TRACE_STACK_FIRST_WRAP + 1"
definition TRACE_POP_FLAGS_LOW_NIBBLE_BITS_START :: nat where "TRACE_POP_FLAGS_LOW_NIBBLE_BITS_START = TRACE_POP_FLAGS_LOW_NIBBLE + 1"
definition TRACE_DAA_LOW_GT_NINE :: nat where "TRACE_DAA_LOW_GT_NINE = TRACE_POP_FLAGS_LOW_NIBBLE_BITS_START + 4"
definition TRACE_DAA_HIGH_GT_NINE :: nat where "TRACE_DAA_HIGH_GT_NINE = TRACE_DAA_LOW_GT_NINE + 1"
definition TRACE_DAA_HIGH_EQUALS_NINE :: nat where "TRACE_DAA_HIGH_EQUALS_NINE = TRACE_DAA_HIGH_GT_NINE + 1"
definition TRACE_DAA_ACC_GT_99 :: nat where "TRACE_DAA_ACC_GT_99 = TRACE_DAA_HIGH_EQUALS_NINE + 1"
definition TRACE_DAA_LOW_ADJUST :: nat where "TRACE_DAA_LOW_ADJUST = TRACE_DAA_ACC_GT_99 + 1"
definition TRACE_DAA_HIGH_ADJUST :: nat where "TRACE_DAA_HIGH_ADJUST = TRACE_DAA_LOW_ADJUST + 1"
definition TRACE_DAA_WRAP :: nat where "TRACE_DAA_WRAP = TRACE_DAA_HIGH_ADJUST + 1"
definition TRACE_ADDRESS_WRAP :: nat where "TRACE_ADDRESS_WRAP = TRACE_DAA_WRAP + 1"
definition TRACE_FETCH_ONE_WRAP :: nat where "TRACE_FETCH_ONE_WRAP = TRACE_ADDRESS_WRAP + 1"
definition TRACE_FETCH_TWO_WRAP :: nat where "TRACE_FETCH_TWO_WRAP = TRACE_FETCH_ONE_WRAP + 1"
definition TRACE_BUS_ADDRESS_BITS_START :: nat where "TRACE_BUS_ADDRESS_BITS_START = TRACE_FETCH_TWO_WRAP + 1"
definition TRACE_BUS_PHYSICAL_BITS_START :: nat where "TRACE_BUS_PHYSICAL_BITS_START = TRACE_BUS_ADDRESS_BITS_START + TRACE_BUS_SLOTS * 16"
definition TRACE_BUS_VALUE_BITS_START :: nat where "TRACE_BUS_VALUE_BITS_START = TRACE_BUS_PHYSICAL_BITS_START + TRACE_BUS_SLOTS * ROM_ADDRESS_BIT_COUNT"
definition TRACE_BUS_BEFORE_BITS_START :: nat where "TRACE_BUS_BEFORE_BITS_START = TRACE_BUS_VALUE_BITS_START + TRACE_BUS_SLOTS * 8"
definition TRACE_BEFORE_ROM_BANK_BITS_START :: nat where "TRACE_BEFORE_ROM_BANK_BITS_START = TRACE_BUS_BEFORE_BITS_START + TRACE_BUS_SLOTS * 8"
definition TRACE_AFTER_ROM_BANK_BITS_START :: nat where "TRACE_AFTER_ROM_BANK_BITS_START = TRACE_BEFORE_ROM_BANK_BITS_START + 6"
definition TRACE_BEFORE_RAM_RTC_BITS_START :: nat where "TRACE_BEFORE_RAM_RTC_BITS_START = TRACE_AFTER_ROM_BANK_BITS_START + 6"
definition TRACE_AFTER_RAM_RTC_BITS_START :: nat where "TRACE_AFTER_RAM_RTC_BITS_START = TRACE_BEFORE_RAM_RTC_BITS_START + 4"
definition TRACE_ROM_SELECTOR_START :: nat where "TRACE_ROM_SELECTOR_START = TRACE_AFTER_RAM_RTC_BITS_START + 4"
definition TRACE_ROM_VALUE_START :: nat where "TRACE_ROM_VALUE_START = TRACE_ROM_SELECTOR_START + TRACE_BUS_SLOTS"
definition TRACE_ROW_BITS_START :: nat where "TRACE_ROW_BITS_START = TRACE_ROM_VALUE_START + TRACE_BUS_SLOTS"

text \<open>The layout in numbers.\<close>

lemmas column_layout =
  TRACE_MODES_def STATE_SCALAR_COUNT_def ISA_ADDRESS_BIT_COUNT_def ROM_ADDRESS_BIT_COUNT_def
  ISA_OUTPUT_COUNT_def ISA_PADDING_ADDRESS_def ISA_VALID_def ISA_WRITE_BITS_START_def ISA_OPCODE_FETCHES_def
  ISA_IMMEDIATE_READS_def ISA_DATA_READS_def ISA_DATA_WRITES_def ISA_BASE_M_CYCLES_def ISA_TAKEN_M_CYCLES_def
  ISA_TAKEN_DATA_READS_def ISA_TAKEN_DATA_WRITES_def ISA_TAKEN_TIMING_def ISA_OPERATION_BITS_START_def
  ISA_ARGUMENT_ZERO_BITS_START_def ISA_ARGUMENT_ONE_BITS_START_def TRACE_BEFORE_STATE_START_def
  TRACE_AFTER_STATE_START_def TRACE_ACTIVE_def TRACE_MODE_START_def TRACE_MODE_COUNT_def
  TRACE_INTERRUPT_START_def TRACE_INTERRUPT_COUNT_def TRACE_CYCLE_INCREMENT_def TRACE_BRANCH_TAKEN_def
  TRACE_ISA_ADDRESS_START_def TRACE_ISA_OUTPUT_START_def TRACE_BUS_START_def TRACE_BUS_SLOTS_def
  TRACE_BUS_KIND_BITS_def TRACE_BUS_TUPLE_FIELDS_def TRACE_BUS_SLOT_WIDTH_def
  TRACE_BEFORE_CPU_BYTE_BITS_START_def TRACE_AFTER_CPU_BYTE_BITS_START_def TRACE_BEFORE_PC_BITS_START_def
  TRACE_AFTER_PC_BITS_START_def TRACE_BEFORE_SP_BITS_START_def TRACE_AFTER_SP_BITS_START_def
  TRACE_OPERAND_VALUE_def TRACE_RESULT_VALUE_def TRACE_OPERAND_BITS_START_def TRACE_RESULT_BITS_START_def
  TRACE_ARITHMETIC_CARRY_def TRACE_ARITHMETIC_HALF_CARRY_def TRACE_RESULT_ZERO_def
  TRACE_RESULT_ZERO_PRODUCTS_START_def TRACE_RESULT_ZERO_PRODUCT_COUNT_def TRACE_IMMEDIATE_LOW_def
  TRACE_IMMEDIATE_HIGH_def TRACE_IMMEDIATE_LOW_BITS_START_def TRACE_IMMEDIATE_HIGH_BITS_START_def
  TRACE_SEQUENTIAL_PC_def TRACE_SEQUENTIAL_PC_BITS_START_def TRACE_PC_WRAP_def TRACE_HALT_BUG_def
  TRACE_CONTROL_UNDERFLOW_def TRACE_CONTROL_OVERFLOW_def TRACE_WORD_WRAP_def TRACE_WORD_CARRY_def
  TRACE_WORD_HALF_CARRY_def TRACE_SIGNED_SP_UNDERFLOW_def TRACE_SIGNED_SP_OVERFLOW_def TRACE_STACK_WRAP_def
  TRACE_STACK_FIRST_WRAP_def TRACE_POP_FLAGS_LOW_NIBBLE_def TRACE_POP_FLAGS_LOW_NIBBLE_BITS_START_def
  TRACE_DAA_LOW_GT_NINE_def TRACE_DAA_HIGH_GT_NINE_def TRACE_DAA_HIGH_EQUALS_NINE_def TRACE_DAA_ACC_GT_99_def
  TRACE_DAA_LOW_ADJUST_def TRACE_DAA_HIGH_ADJUST_def TRACE_DAA_WRAP_def TRACE_ADDRESS_WRAP_def
  TRACE_FETCH_ONE_WRAP_def TRACE_FETCH_TWO_WRAP_def TRACE_BUS_ADDRESS_BITS_START_def
  TRACE_BUS_PHYSICAL_BITS_START_def TRACE_BUS_VALUE_BITS_START_def TRACE_BUS_BEFORE_BITS_START_def
  TRACE_BEFORE_ROM_BANK_BITS_START_def TRACE_AFTER_ROM_BANK_BITS_START_def TRACE_BEFORE_RAM_RTC_BITS_START_def
  TRACE_AFTER_RAM_RTC_BITS_START_def TRACE_ROM_SELECTOR_START_def TRACE_ROM_VALUE_START_def
  TRACE_ROW_BITS_START_def

end
