(* ===== verification/Cpu_Rows.thy ===== *)
theory Cpu_Rows
  imports Trace_Columns Field_Fold
begin

text \<open>
  The structural constraints of one row (\<open>zksm83-jolt/src/cpu.rs\<close>, \<open>cpu/selectors.rs\<close>) over a row of
  native columns; the projection onto packed blocks is another view of the same functions.  A
  constraint function yields the values it pushes into the sink, in order; running out of
  columns and of room in the sink is the same error.  The selector caches hold what is
  recomputed here.
\<close>

section \<open>Views and sinks\<close>

text \<open>The errors of this repository; those of the commitment and serialization crates are left out.\<close>

datatype uniform_error =
    UE_EmptyRelation
  | UE_Shape
  | UE_WitnessUnsatisfied nat nat
  | UE_Unsatisfied
  | UE_Sumcheck
  | UE_TerminalMismatch
  | UE_ZeroChallenge
  | UE_NonInvertibleInterpolation
  | UE_FieldFold field_fold_error

type_synonym 'f pushed = "uniform_error + 'f list"

definition view_value :: "'f list \<Rightarrow> nat \<Rightarrow> uniform_error + 'f" where
  "view_value row index = ok_or UE_Shape (vec_get row index)"

definition view_values :: "'f list \<Rightarrow> nat \<Rightarrow> nat \<Rightarrow> uniform_error + 'f list" where
  "view_values row start count =
     and_then (ok_or UE_Shape (usize_checked_add start count)) (\<lambda>end_index.
       if end_index \<le> length row then Inr (take count (drop start row)) else Inl UE_Shape)"

definition view_before :: "'f list \<Rightarrow> nat \<Rightarrow> uniform_error + 'f" where
  "view_before row index = view_value row (TRACE_BEFORE_STATE_START + index)"

definition view_after :: "'f list \<Rightarrow> nat \<Rightarrow> uniform_error + 'f" where
  "view_after row index = view_value row (TRACE_AFTER_STATE_START + index)"

definition view_mode :: "'f list \<Rightarrow> nat \<Rightarrow> uniform_error + 'f" where
  "view_mode row index = view_value row (TRACE_MODE_START + index)"

definition view_isa :: "'f list \<Rightarrow> nat \<Rightarrow> uniform_error + 'f" where
  "view_isa row index = view_value row (TRACE_ISA_OUTPUT_START + index)"

definition isa_values :: "'f list \<Rightarrow> nat \<Rightarrow> nat \<Rightarrow> uniform_error + 'f list" where
  "isa_values row start count =
     and_then (ok_or UE_Shape (usize_checked_add TRACE_ISA_OUTPUT_START start)) (\<lambda>absolute_start.
       view_values row absolute_start count)"

text \<open>Several pushes, a loop of pushes, and one function after another.\<close>

definition emit :: "(uniform_error + 'f) list \<Rightarrow> 'f pushed" where
  "emit cs = try_map (\<lambda>c. c) cs"

definition emit_each :: "('a \<Rightarrow> 'f pushed) \<Rightarrow> 'a list \<Rightarrow> 'f pushed" where
  "emit_each f xs = and_then (try_map f xs) (\<lambda>vss. Inr (concat vss))"

definition emit_then :: "'f pushed \<Rightarrow> 'f pushed \<Rightarrow> 'f pushed" where
  "emit_then p q = and_then p (\<lambda>xs. and_then q (\<lambda>ys. Inr (xs @ ys)))"

section \<open>Constants\<close>

definition STATE_FLAGS :: nat where "STATE_FLAGS = 7"
definition STATE_PC :: nat where "STATE_PC = 8"
definition STATE_SP :: nat where "STATE_SP = 9"
definition STATE_IME :: nat where "STATE_IME = 10"
definition STATE_RUN_STATE :: nat where "STATE_RUN_STATE = 11"
definition STATE_CYCLES :: nat where "STATE_CYCLES = 12"
definition STATE_MBC3_RAM_ENABLED :: nat where "STATE_MBC3_RAM_ENABLED = 13"
definition STATE_MBC3_ROM_BANK :: nat where "STATE_MBC3_ROM_BANK = 14"
definition STATE_MBC3_RAM_RTC_SELECT :: nat where "STATE_MBC3_RAM_RTC_SELECT = 15"
definition STATE_PROFILE :: nat where "STATE_PROFILE = 20"
definition PROFILE_DMG_MBC3_ROM_256KIB_NO_RTC :: nat where "PROFILE_DMG_MBC3_ROM_256KIB_NO_RTC = 2"
definition PROFILE_DMG_MBC3_ROM_256KIB_RTC :: nat where "PROFILE_DMG_MBC3_ROM_256KIB_RTC = 3"
definition PROFILE_DMG_MBC3_ROM_1MIB_RTC :: nat where "PROFILE_DMG_MBC3_ROM_1MIB_RTC = 4"
definition PROFILE_CODE_COUNT :: nat where "PROFILE_CODE_COUNT = 5"
definition BUS_ADDRESS_OFFSET :: nat where "BUS_ADDRESS_OFFSET = 1 + TRACE_BUS_KIND_BITS"
definition BUS_PHYSICAL_ADDRESS_OFFSET :: nat where "BUS_PHYSICAL_ADDRESS_OFFSET = BUS_ADDRESS_OFFSET + 1"
definition BUS_BEFORE_OFFSET :: nat where "BUS_BEFORE_OFFSET = BUS_ADDRESS_OFFSET + 2"
definition BUS_AUXILIARY_OFFSET :: nat where "BUS_AUXILIARY_OFFSET = BUS_ADDRESS_OFFSET + 3"
definition BUS_VALUE_OFFSET :: nat where "BUS_VALUE_OFFSET = BUS_ADDRESS_OFFSET + 4"
definition BUS_INDEX_OFFSET :: nat where "BUS_INDEX_OFFSET = BUS_ADDRESS_OFFSET + 5"
definition BUS_TUPLE_FIELDS :: nat where "BUS_TUPLE_FIELDS = 6"

section \<open>Building blocks\<close>

definition boolean :: "'f::field \<Rightarrow> 'f" where
  "boolean v = v * (v - 1)"

definition enum_range :: "'f::field \<Rightarrow> nat \<Rightarrow> 'f" where
  "enum_range v count = fold (\<lambda>admitted product. product * (v - of_nat admitted)) [0..<count] 1"

definition constrain_bit_range :: "'f::field list \<Rightarrow> nat \<Rightarrow> nat \<Rightarrow> 'f pushed" where
  "constrain_bit_range row start count =
     and_then (ok_or UE_Shape (usize_checked_add start count)) (\<lambda>end_index.
       emit_each (\<lambda>index. and_then (view_value row index) (\<lambda>v. Inr [boolean v])) [start..<end_index])"

definition packed_bits :: "'f::field list \<Rightarrow> nat \<Rightarrow> nat \<Rightarrow> uniform_error + 'f" where
  "packed_bits row start width =
     and_then (try_fold (\<lambda>(power, packed) bit.
         and_then (view_value row (start + bit)) (\<lambda>v. Inr (power + power, packed + power * v))) (1, 0) [0..<width])
       (\<lambda>(_, packed). Inr packed)"

definition zero_from_bits :: "'f::field list \<Rightarrow> nat \<Rightarrow> nat \<Rightarrow> uniform_error + 'f" where
  "zero_from_bits row start width =
     try_fold (\<lambda>product bit. and_then (view_value row (start + bit)) (\<lambda>v. Inr (product * (1 - v)))) 1 [0..<width]"

definition profile_factor :: "'f::field \<Rightarrow> nat \<Rightarrow> nat \<Rightarrow> 'f \<times> 'f \<Rightarrow> 'f \<times> 'f" where
  "profile_factor profile code admitted = (\<lambda>(numerator, denominator).
     if admitted = code then (numerator, denominator)
     else (numerator * (profile - of_nat admitted), denominator * (of_nat code - of_nat admitted)))"

definition profile_code_selector :: "'f::field \<Rightarrow> nat \<Rightarrow> uniform_error + 'f" where
  "profile_code_selector profile code =
     (case fold (profile_factor profile code) [0..<PROFILE_CODE_COUNT] (1, 1) of
        (numerator, denominator) \<Rightarrow>
          if denominator = 0 then Inl UE_NonInvertibleInterpolation else Inr (numerator * inverse denominator))"

definition profile_256kib_selector :: "'f::field \<Rightarrow> uniform_error + 'f" where
  "profile_256kib_selector profile =
     and_then (profile_code_selector profile PROFILE_DMG_MBC3_ROM_256KIB_NO_RTC) (\<lambda>a.
     and_then (profile_code_selector profile PROFILE_DMG_MBC3_ROM_256KIB_RTC) (\<lambda>b. Inr (a + b)))"

definition profile_rtc_selector :: "'f::field \<Rightarrow> uniform_error + 'f" where
  "profile_rtc_selector profile =
     and_then (profile_code_selector profile PROFILE_DMG_MBC3_ROM_256KIB_RTC) (\<lambda>a.
     and_then (profile_code_selector profile PROFILE_DMG_MBC3_ROM_1MIB_RTC) (\<lambda>b. Inr (a + b)))"

definition bus_slot_start :: "nat \<Rightarrow> uniform_error + nat" where
  "bus_slot_start slot =
     and_then (ok_or UE_Shape (usize_checked_mul slot TRACE_BUS_SLOT_WIDTH)) (\<lambda>offset.
       ok_or UE_Shape (usize_checked_add TRACE_BUS_START offset))"

definition bus_field :: "'f list \<Rightarrow> nat \<Rightarrow> nat \<Rightarrow> uniform_error + 'f" where
  "bus_field row slot offset =
     and_then (bus_slot_start slot) (\<lambda>start.
     and_then (ok_or UE_Shape (usize_checked_add start offset)) (\<lambda>index. view_value row index))"

definition bus_kind_bits :: "'f list \<Rightarrow> nat \<Rightarrow> uniform_error + 'f list" where
  "bus_kind_bits row slot =
     and_then (bus_slot_start slot) (\<lambda>slot_start.
     and_then (ok_or UE_Shape (usize_checked_add slot_start 1)) (\<lambda>start. view_values row start TRACE_BUS_KIND_BITS))"

definition bit_selector :: "'f::field list \<Rightarrow> u8 \<Rightarrow> uniform_error + 'f" where
  "bit_selector bits code =
     (if bits = [] \<or> length bits > 8 then Inl UE_Shape
      else Inr (fold (\<lambda>(bit_index, v) selector. if bit code bit_index then selector * v else selector * (1 - v)) (enumerate 0 bits) 1))"

text \<open>Only codes from 8 to 18 have a cache entry, and a slot outside the cache is an error.\<close>

definition bus_kind_selector :: "'f::field list \<Rightarrow> nat \<Rightarrow> u8 \<Rightarrow> uniform_error + 'f" where
  "bus_kind_selector row slot code =
     (if unat code \<ge> 2 ^ TRACE_BUS_KIND_BITS then Inl UE_Shape
      else if 8 \<le> code \<and> code < 19 \<and> slot \<ge> TRACE_BUS_SLOTS then Inl UE_Shape
      else and_then (bus_kind_bits row slot) (\<lambda>bits. bit_selector bits code))"

definition argument_selector :: "'f::field list \<Rightarrow> nat \<Rightarrow> nat \<Rightarrow> u8 \<Rightarrow> uniform_error + 'f" where
  "argument_selector row start width code = and_then (isa_values row start width) (\<lambda>bits. bit_selector bits code)"

definition operation_selector :: "'f::field list \<Rightarrow> u8 \<Rightarrow> uniform_error + 'f" where
  "operation_selector row code = argument_selector row ISA_OPERATION_BITS_START 6 code"

section \<open>Ranges\<close>

definition constrain_byte :: "'f::field list \<Rightarrow> nat \<Rightarrow> 'f pushed" where
  "constrain_byte row byte =
     and_then (view_before row byte) (\<lambda>before.
     and_then (packed_bits row (TRACE_BEFORE_CPU_BYTE_BITS_START + byte * 8) 8) (\<lambda>before_bits.
     and_then (view_after row byte) (\<lambda>after.
     and_then (packed_bits row (TRACE_AFTER_CPU_BYTE_BITS_START + byte * 8) 8) (\<lambda>after_bits.
       Inr [before - before_bits, after - after_bits]))))"

definition constrain_word :: "'f::field list \<Rightarrow> nat \<Rightarrow> nat \<Rightarrow> nat \<Rightarrow> 'f pushed" where
  "constrain_word row state before_bits after_bits =
     and_then (view_before row state) (\<lambda>before.
     and_then (packed_bits row before_bits 16) (\<lambda>before_packed.
     and_then (view_after row state) (\<lambda>after.
     and_then (packed_bits row after_bits 16) (\<lambda>after_packed.
       Inr [before - before_packed, after - after_packed]))))"

definition constrain_enum :: "'f::field list \<Rightarrow> nat \<Rightarrow> nat \<Rightarrow> 'f pushed" where
  "constrain_enum row state count =
     and_then (view_before row state) (\<lambda>before.
     and_then (view_after row state) (\<lambda>after. Inr [enum_range before count, enum_range after count]))"

definition constrain_cpu_ranges :: "'f::field list \<Rightarrow> 'f pushed" where
  "constrain_cpu_ranges row =
     emit_then (constrain_bit_range row TRACE_BEFORE_CPU_BYTE_BITS_START (8 * 8)) (
     emit_then (constrain_bit_range row TRACE_AFTER_CPU_BYTE_BITS_START (8 * 8)) (
     emit_then (constrain_bit_range row TRACE_BEFORE_PC_BITS_START 16) (
     emit_then (constrain_bit_range row TRACE_AFTER_PC_BITS_START 16) (
     emit_then (constrain_bit_range row TRACE_BEFORE_SP_BITS_START 16) (
     emit_then (constrain_bit_range row TRACE_AFTER_SP_BITS_START 16) (
     emit_then (emit_each (constrain_byte row) [0..<8]) (
     emit_then (emit_each (\<lambda>bit. emit
         [view_value row (TRACE_BEFORE_CPU_BYTE_BITS_START + STATE_FLAGS * 8 + bit),
          view_value row (TRACE_AFTER_CPU_BYTE_BITS_START + STATE_FLAGS * 8 + bit)]) [0..<4]) (
     emit_then (constrain_word row STATE_PC TRACE_BEFORE_PC_BITS_START TRACE_AFTER_PC_BITS_START) (
     emit_then (constrain_word row STATE_SP TRACE_BEFORE_SP_BITS_START TRACE_AFTER_SP_BITS_START) (
     emit_then (constrain_enum row STATE_IME 3) (
     emit_then (constrain_enum row STATE_RUN_STATE 4) (
       constrain_enum row STATE_PROFILE PROFILE_CODE_COUNT))))))))))))"

definition constrain_bank_range :: "'f::field list \<Rightarrow> uniform_error + 'f \<Rightarrow> uniform_error + 'f \<Rightarrow> nat \<Rightarrow> 'f pushed" where
  "constrain_bank_range row bank profile bits =
     emit_then (constrain_bit_range row bits 6) (
       and_then bank (\<lambda>v.
       and_then profile (\<lambda>p.
       and_then (packed_bits row bits 6) (\<lambda>packed.
       and_then (zero_from_bits row bits 6) (\<lambda>zero.
       and_then (profile_256kib_selector p) (\<lambda>small.
       and_then (packed_bits row bits 4) (\<lambda>low.
         Inr [v - packed, zero, small * (v - low)])))))))"

definition constrain_select_range :: "'f::field list \<Rightarrow> uniform_error + 'f \<Rightarrow> nat \<Rightarrow> 'f pushed" where
  "constrain_select_range row select bits =
     emit_then (constrain_bit_range row bits 4) (
       and_then select (\<lambda>v. and_then (packed_bits row bits 4) (\<lambda>packed. Inr [v - packed])))"

definition constrain_mapper_ranges :: "'f::field list \<Rightarrow> 'f pushed" where
  "constrain_mapper_ranges row =
     emit_then (and_then (view_before row STATE_MBC3_RAM_ENABLED) (\<lambda>b.
                and_then (view_after row STATE_MBC3_RAM_ENABLED) (\<lambda>a. Inr [boolean b, boolean a]))) (
     emit_then (constrain_bank_range row (view_before row STATE_MBC3_ROM_BANK) (view_before row STATE_PROFILE) TRACE_BEFORE_ROM_BANK_BITS_START) (
     emit_then (constrain_bank_range row (view_after row STATE_MBC3_ROM_BANK) (view_after row STATE_PROFILE) TRACE_AFTER_ROM_BANK_BITS_START) (
     emit_then (constrain_select_range row (view_before row STATE_MBC3_RAM_RTC_SELECT) TRACE_BEFORE_RAM_RTC_BITS_START)
       (constrain_select_range row (view_after row STATE_MBC3_RAM_RTC_SELECT) TRACE_AFTER_RAM_RTC_BITS_START))))"

section \<open>Selectors\<close>

definition constrain_selectors :: "'f::field list \<Rightarrow> 'f pushed" where
  "constrain_selectors row =
     and_then (view_value row TRACE_ACTIVE) (\<lambda>active.
     and_then (try_map (view_mode row) [0..<TRACE_MODE_COUNT]) (\<lambda>modes.
     and_then (view_mode row (mode_index Mode_Padding)) (\<lambda>padding.
     and_then (try_map (\<lambda>source. view_value row (TRACE_INTERRUPT_START + source)) [0..<TRACE_INTERRUPT_COUNT]) (\<lambda>interrupts.
     and_then (view_mode row (mode_index Mode_Interrupt)) (\<lambda>interrupt.
     and_then (view_value row TRACE_BRANCH_TAKEN) (\<lambda>branch.
     and_then (view_mode row (mode_index Mode_Instruction)) (\<lambda>instruction.
       Inr ([boolean active] @ map boolean modes @
         [fold (\<lambda>selector mode_sum. mode_sum + selector) modes 0 - 1, padding - (1 - active)] @
         map boolean interrupts @
         [fold (\<lambda>selector interrupt_sum. interrupt_sum + selector) interrupts 0 - interrupt,
          boolean branch, (1 - instruction) * branch]))))))))"

section \<open>The bus\<close>

definition category_bits :: "'f::field list \<Rightarrow> u8 list \<Rightarrow> uniform_error + 'f" where
  "category_bits bits codes =
     try_fold (\<lambda>count code. and_then (bit_selector bits code) (\<lambda>s. Inr (count + s))) 0 codes"

definition bus_category :: "'f::field list \<Rightarrow> u8 list \<Rightarrow> uniform_error + 'f" where
  "bus_category row codes =
     try_fold (\<lambda>count slot.
       and_then (bus_kind_bits row slot) (\<lambda>bits.
         try_fold (\<lambda>count code. and_then (bit_selector bits code) (\<lambda>s. Inr (count + s))) count codes)) 0 [0..<TRACE_BUS_SLOTS]"

definition constrain_instruction_bus_counts :: "'f::field list \<Rightarrow> 'f list \<Rightarrow> 'f pushed" where
  "constrain_instruction_bus_counts row slot_active =
     and_then (view_mode row (mode_index Mode_Instruction)) (\<lambda>instruction.
     and_then (view_value row TRACE_BRANCH_TAKEN) (\<lambda>branch.
     and_then (bus_category row [1, 14]) (\<lambda>opcode.
     and_then (bus_category row [2, 15]) (\<lambda>immediate.
     and_then (bus_category row [3, 4, 6, 9, 11, 13]) (\<lambda>data_read.
     and_then (bus_category row [5, 7, 8, 10, 12]) (\<lambda>data_write.
     and_then (view_isa row ISA_OPCODE_FETCHES) (\<lambda>opcode_fetches.
     and_then (view_isa row ISA_IMMEDIATE_READS) (\<lambda>immediate_reads.
     and_then (view_isa row ISA_DATA_READS) (\<lambda>data_reads.
     and_then (view_isa row ISA_DATA_WRITES) (\<lambda>data_writes.
     and_then (view_isa row ISA_TAKEN_DATA_READS) (\<lambda>taken_reads.
     and_then (view_isa row ISA_TAKEN_DATA_WRITES) (\<lambda>taken_writes.
       let event_count = fold (\<lambda>v s. s + v) slot_active 0;
           base_count = opcode_fetches + immediate_reads + data_reads + data_writes;
           taken_count = taken_reads + taken_writes
       in Inr
         [instruction * (event_count - base_count - branch * taken_count),
          instruction * (opcode - opcode_fetches),
          instruction * (immediate - immediate_reads),
          instruction * (data_read - data_reads - branch * taken_reads),
          instruction * (data_write - data_writes - branch * taken_writes)]))))))))))))"

definition slot_decomposition :: "'f::field list \<Rightarrow> nat \<Rightarrow> nat \<Rightarrow> nat \<Rightarrow> nat \<Rightarrow> 'f pushed" where
  "slot_decomposition row slot offset bits width =
     emit_then (constrain_bit_range row bits width) (
       and_then (bus_field row slot offset) (\<lambda>v. and_then (packed_bits row bits width) (\<lambda>packed. Inr [v - packed])))"

definition constrain_slot :: "'f::field list \<Rightarrow> nat \<Rightarrow> 'f pushed" where
  "constrain_slot row slot =
     and_then (bus_field row slot 0) (\<lambda>active.
     and_then (bus_kind_bits row slot) (\<lambda>kind_bits.
     and_then (category_bits kind_bits (map of_nat [0..<19])) (\<lambda>valid.
     and_then (bit_selector kind_bits 0) (\<lambda>unused.
     emit_then (Inr ([boolean active] @ map boolean kind_bits @ [valid - 1, active - (1 - unused)])) (
     emit_then (emit_each (\<lambda>offset. and_then (bus_field row slot offset) (\<lambda>v. Inr [(1 - active) * v]))
         [BUS_ADDRESS_OFFSET..<BUS_ADDRESS_OFFSET + BUS_TUPLE_FIELDS]) (
     emit_then (slot_decomposition row slot BUS_ADDRESS_OFFSET (TRACE_BUS_ADDRESS_BITS_START + slot * 16) 16) (
     emit_then (slot_decomposition row slot BUS_PHYSICAL_ADDRESS_OFFSET
         (TRACE_BUS_PHYSICAL_BITS_START + slot * ROM_ADDRESS_BIT_COUNT) ROM_ADDRESS_BIT_COUNT) (
     emit_then (slot_decomposition row slot BUS_VALUE_OFFSET (TRACE_BUS_VALUE_BITS_START + slot * 8) 8) (
     emit_then (slot_decomposition row slot BUS_BEFORE_OFFSET (TRACE_BUS_BEFORE_BITS_START + slot * 8) 8) (
     and_then (view_value row (TRACE_ROM_SELECTOR_START + slot)) (\<lambda>rom_selector.
     and_then (category_bits kind_bits [1, 2, 3, 16]) (\<lambda>expected_rom_selector.
     and_then (view_value row (TRACE_ROM_VALUE_START + slot)) (\<lambda>rom_value.
     and_then (bus_field row slot BUS_VALUE_OFFSET) (\<lambda>v.
     and_then (view_mode row (mode_index Mode_Padding)) (\<lambda>padding.
       Inr [boolean rom_selector, rom_selector - expected_rom_selector, rom_value - rom_selector * v, padding * active])))))))))))))))"

definition constrain_bus :: "'f::field list \<Rightarrow> 'f pushed" where
  "constrain_bus row =
     emit_then (emit_each (constrain_slot row) [0..<TRACE_BUS_SLOTS]) (
     and_then (try_map (\<lambda>slot. bus_field row slot 0) [0..<TRACE_BUS_SLOTS]) (\<lambda>slot_active.
     emit_then (Inr (map2 (\<lambda>prior later. later * (1 - prior)) slot_active (tl slot_active)))
       (constrain_instruction_bus_counts row slot_active)))"

end
