(* ===== verification/Row_Algebra.thy ===== *)
theory Row_Algebra
  imports Cpu_Rows Low_Degree
begin

text \<open>
  What vanishing constraints say of a row: bit columns are numbers, and selectors of codes are
  zero or one.
\<close>

section \<open>Vanishing\<close>

definition vanishes :: "'f::zero pushed \<Rightarrow> bool" where
  "vanishes p \<longleftrightarrow> (case p of Inl e \<Rightarrow> False | Inr vs \<Rightarrow> \<forall>v \<in> set vs. v = 0)"

lemma vanishes_Inr [simp]: "vanishes (Inr vs) \<longleftrightarrow> (\<forall>v \<in> set vs. v = 0)"
  by (simp add: vanishes_def)

lemma vanishes_Inl [simp]: "\<not> vanishes (Inl e)"
  by (simp add: vanishes_def)

lemma vanishes_then [simp]: "vanishes (emit_then p q) \<longleftrightarrow> vanishes p \<and> vanishes q"
  by (cases p; cases q) (auto simp: emit_then_def)

lemma vanishes_each [simp]: "vanishes (emit_each f xs) \<longleftrightarrow> (\<forall>x \<in> set xs. vanishes (f x))"
proof (induction xs)
  case (Cons x xs)
  then show ?case by (cases "f x"; cases "try_map f xs") (auto simp: emit_each_def)
qed (simp add: emit_each_def)

section \<open>Columns\<close>

definition wide :: "'f list \<Rightarrow> bool" where
  "wide row \<longleftrightarrow> TRACE_ROW_BITS_START \<le> length row"

lemma layout_end: "TRACE_ROW_BITS_START = 770"
  by (simp add: column_layout)

lemma view_value_wide: "wide row \<Longrightarrow> i < TRACE_ROW_BITS_START \<Longrightarrow> view_value row i = Inr (row ! i)"
  by (simp add: wide_def view_value_def vec_get_def)

lemma view_values_wide:
  "wide row \<Longrightarrow> start + count \<le> TRACE_ROW_BITS_START \<Longrightarrow> view_values row start count = Inr (map (\<lambda>k. row ! (start + k)) [0..<count])"
  by (auto simp: wide_def view_values_def usize_checked_add_def layout_end intro!: nth_equalityI)

lemmas state_columns = STATE_FLAGS_def STATE_PC_def STATE_SP_def STATE_IME_def STATE_RUN_STATE_def STATE_CYCLES_def
  STATE_MBC3_RAM_ENABLED_def STATE_MBC3_ROM_BANK_def STATE_MBC3_RAM_RTC_SELECT_def STATE_PROFILE_def

lemmas bus_columns = BUS_ADDRESS_OFFSET_def BUS_PHYSICAL_ADDRESS_OFFSET_def BUS_BEFORE_OFFSET_def BUS_AUXILIARY_OFFSET_def
  BUS_VALUE_OFFSET_def BUS_INDEX_OFFSET_def BUS_TUPLE_FIELDS_def

section \<open>Bit columns\<close>

lemma boolean_zero [simp]: "boolean v = 0 \<longleftrightarrow> v = 0 \<or> v = 1"
  by (simp add: boolean_def)

definition bits_ok :: "'f::field list \<Rightarrow> nat \<Rightarrow> nat \<Rightarrow> bool" where
  "bits_ok row start w \<longleftrightarrow> (\<forall>k < w. row ! (start + k) = 0 \<or> row ! (start + k) = 1)"

definition bits_value :: "'f::field list \<Rightarrow> nat \<Rightarrow> nat \<Rightarrow> nat" where
  "bits_value row start w = horner_sum of_bool 2 (map (\<lambda>k. row ! (start + k) = 1) [0..<w])"

lemma bit_bits_value [simp]: "bit (bits_value row start w) k \<longleftrightarrow> k < w \<and> row ! (start + k) = 1"
  by (auto simp: bits_value_def bit_horner_sum_bit_iff possible_bit_def)

lemma bits_value_less: "bits_value row start w < 2 ^ w"
proof -
  have "take_bit w (bits_value row start w) = bits_value row start w"
    by (simp add: bits_value_def take_bit_horner_sum_bit_eq)
  then show ?thesis by (simp add: take_bit_nat_eq_self_iff)
qed

lemma bits_column: "bits_ok row start w \<Longrightarrow> k < w \<Longrightarrow> row ! (start + k) = of_bool (bit (bits_value row start w) k)"
  by (auto simp: bits_ok_def)

lemma bits_value_prefix: "v \<le> w \<Longrightarrow> bits_value row start v = take_bit v (bits_value row start w)"
  by (rule bit_eqI) (auto simp: bit_take_bit_iff)

lemma bits_ok_prefix: "bits_ok row start w \<Longrightarrow> v \<le> w \<Longrightarrow> bits_ok row start v"
  by (simp add: bits_ok_def)

lemma bits_value_Suc: "bits_value row start (Suc w) = bits_value row start w + 2 ^ w * of_bool (row ! (start + w) = 1)"
  by (simp add: bits_value_def horner_sum_append)

lemma bit_range_vanishes:
  assumes "wide row" "start + w \<le> TRACE_ROW_BITS_START"
  shows "vanishes (constrain_bit_range row start w) \<longleftrightarrow> bits_ok row start w"
proof -
  have "usize_checked_add start w = Some (start + w)" using assms(2) by (simp add: usize_checked_add_def layout_end)
  moreover have "view_value row i = Inr (row ! i)" if "i \<in> set [start..<start + w]" for i
    using that assms by (simp add: view_value_wide)
  ultimately have "vanishes (constrain_bit_range row start w) \<longleftrightarrow> (\<forall>i \<in> set [start..<start + w]. row ! i = 0 \<or> row ! i = 1)"
    by (auto simp: constrain_bit_range_def)
  also have "\<dots> \<longleftrightarrow> (\<forall>i \<in> (+) start ` {0..<w}. row ! i = 0 \<or> row ! i = 1)" by (simp only: set_upt image_add_atLeastLessThan add_0_left add.commute [of w])
  also have "\<dots> \<longleftrightarrow> bits_ok row start w" unfolding bits_ok_def ball_simps by auto
  finally show ?thesis .
qed

lemma packed_bits_exact:
  assumes "wide row" "start + w \<le> TRACE_ROW_BITS_START" "bits_ok row start w"
  shows "packed_bits row start w = Inr (of_nat (bits_value row start w))"
proof -
  have "try_fold (\<lambda>(power, packed) bit. and_then (view_value row (start + bit)) (\<lambda>v. Inr (power + power, packed + power * v))) (1, 0) [0..<k] =
      Inr (2 ^ k, of_nat (bits_value row start k))" if "k \<le> w" for k
    using that
  proof (induction k)
    case (Suc k)
    have "view_value row (start + k) = Inr (row ! (start + k))" using Suc.prems assms(1,2) by (simp add: view_value_wide)
    moreover have "row ! (start + k) = 0 \<or> row ! (start + k) = 1" using Suc.prems assms(3) by (simp add: bits_ok_def)
    then have "row ! (start + k) = of_bool (row ! (start + k) = 1)" by auto
    ultimately show ?case using Suc  by (simp add: try_fold_append bits_value_Suc)
  qed (simp add: bits_value_def)
  then show ?thesis by (simp add: packed_bits_def)
qed

lemma zero_from_bits_exact:
  assumes "wide row" "start + w \<le> TRACE_ROW_BITS_START" "bits_ok row start w"
  shows "zero_from_bits row start w = Inr (of_bool (bits_value row start w = 0))"
proof -
  have "try_fold (\<lambda>product bit. and_then (view_value row (start + bit)) (\<lambda>v. Inr (product * (1 - v)))) 1 [0..<k] =
      Inr (of_bool (bits_value row start k = 0))" if "k \<le> w" for k
    using that
  proof (induction k)
    case (Suc k)
    have "view_value row (start + k) = Inr (row ! (start + k))" using Suc.prems assms(1,2) by (simp add: view_value_wide)
    moreover have "row ! (start + k) = 0 \<or> row ! (start + k) = 1" using Suc.prems assms(3) by (auto simp: bits_ok_def)
    ultimately show ?case using Suc by (auto simp: try_fold_append bits_value_Suc)
  qed (simp add: bits_value_def)
  then show ?thesis by (simp add: zero_from_bits_def)
qed

section \<open>Selectors\<close>

lemma bit_selector_exact:
  assumes "\<forall>b \<in> set bits. b = 0 \<or> b = (1 :: 'f::field)" "bits \<noteq> []" "length bits \<le> 8" "unat code < 2 ^ length bits"
  shows "bit_selector bits code = Inr (of_bool (horner_sum of_bool 2 (map (\<lambda>b. b = 1) bits) = unat code))"
proof -
  let ?f = "\<lambda>(bit_index, v) selector. if bit code bit_index then selector * v else selector * (1 - v)"
  have "fold ?f (map (\<lambda>i. (i, bits ! i)) [0..<k]) 1 = (of_bool (\<forall>i < k. (bits ! i = 1) = bit code i) :: 'f)" if "k \<le> length bits" for k
    using that
  proof (induction k)
    case (Suc k)
    have "bits ! k = 0 \<or> bits ! k = 1" using Suc.prems assms(1) by simp
    with Suc show ?case by (auto simp: less_Suc_eq)
  qed simp
  moreover have "enumerate 0 bits = map (\<lambda>i. (i, bits ! i)) [0..<length bits]"
    by (rule nth_equalityI) (simp_all add: nth_enumerate_eq)
  moreover have "(horner_sum of_bool 2 (map (\<lambda>b. b = 1) bits) = unat code) \<longleftrightarrow> (\<forall>i < length bits. (bits ! i = 1) = bit code i)"
  proof -
    have "bit (unat code) i \<longleftrightarrow> bit code i" for i by (simp add: bit_unsigned_iff possible_bit_def) 
    moreover have "\<not> bit (unat code) i" if "length bits \<le> i" for i
      using assms(4) that by (metis bit_take_bit_iff not_le take_bit_nat_eq_self)
    moreover have "bit (horner_sum of_bool 2 (map (\<lambda>b. b = 1) bits) :: nat) i \<longleftrightarrow> i < length bits \<and> bits ! i = 1" for i
      by (auto simp: bit_horner_sum_bit_iff possible_bit_def)
    ultimately have code: "bit (unat code) i \<longleftrightarrow> i < length bits \<and> bit code i"
      and number: "bit (horner_sum of_bool 2 (map (\<lambda>b. b = 1) bits) :: nat) i \<longleftrightarrow> i < length bits \<and> bits ! i = 1" for i
      using not_le by blast+
    show ?thesis by (simp only: bit_eq_iff number code) (auto simp: possible_bit_def)
  qed
  ultimately show ?thesis using assms(2,3) by (simp add: bit_selector_def)
qed

lemma profile_factors:
  "fold (profile_factor p code) [0..<k] (a, b) =
     (a * (\<Prod>j \<in> {..<k} - {code}. p - of_nat j), b * (\<Prod>j \<in> {..<k} - {code}. of_nat code - of_nat j))"
proof (induction k)
  case (Suc k)
  have "{..<Suc k} - {code} = (if k = code then {..<k} - {code} else insert k ({..<k} - {code}))" by auto
  with Suc show ?case by (auto simp: profile_factor_def mult.assoc mult.commute)
qed simp

lemma profile_selector_exact:
  assumes "separates TYPE('f::field) 4" "c < 5" "code < 5"
  shows "profile_code_selector (of_nat c :: 'f) code = Inr (of_bool (c = code))"
proof -
  have "(\<Prod>j \<in> {..<5} - {code}. of_nat code - of_nat j :: 'f) \<noteq> 0"
    using assms by (auto simp: separates_def inj_on_def)
  moreover have "lagrange_basis 5 code (of_nat c :: 'f) = (if c = code then 1 else 0)"
    using assms by (intro lagrange_basis_node) simp_all
  ultimately show ?thesis
    by (simp add: profile_code_selector_def PROFILE_CODE_COUNT_def profile_factors lagrange_basis_quotient del: prod_zero_iff)
qed

lemmas profile_codes = PROFILE_DMG_MBC3_ROM_256KIB_NO_RTC_def PROFILE_DMG_MBC3_ROM_256KIB_RTC_def PROFILE_DMG_MBC3_ROM_1MIB_RTC_def

lemma profile_sizes_exact:
  assumes "separates TYPE('f::field) 4" "c < 5"
  shows "profile_256kib_selector (of_nat c :: 'f) = Inr (of_bool (c = 2 \<or> c = 3))"
    "profile_rtc_selector (of_nat c :: 'f) = Inr (of_bool (c = 3 \<or> c = 4))"
  using assms by (auto simp: profile_256kib_selector_def profile_rtc_selector_def profile_codes profile_selector_exact)

section \<open>Bus slots\<close>

definition slot_field :: "'f list \<Rightarrow> nat \<Rightarrow> nat \<Rightarrow> 'f" where
  "slot_field row slot offset = row ! (TRACE_BUS_START + slot * TRACE_BUS_SLOT_WIDTH + offset)"

definition slot_kind :: "'f::field list \<Rightarrow> nat \<Rightarrow> nat" where
  "slot_kind row slot = bits_value row (TRACE_BUS_START + slot * TRACE_BUS_SLOT_WIDTH + 1) TRACE_BUS_KIND_BITS"

definition slot_address :: "'f::field list \<Rightarrow> nat \<Rightarrow> u16" where
  "slot_address row slot = of_nat (bits_value row (TRACE_BUS_ADDRESS_BITS_START + slot * 16) 16)"

definition slot_physical :: "'f::field list \<Rightarrow> nat \<Rightarrow> nat" where
  "slot_physical row slot = bits_value row (TRACE_BUS_PHYSICAL_BITS_START + slot * ROM_ADDRESS_BIT_COUNT) ROM_ADDRESS_BIT_COUNT"

definition slot_byte :: "'f::field list \<Rightarrow> nat \<Rightarrow> u8" where
  "slot_byte row slot = of_nat (bits_value row (TRACE_BUS_VALUE_BITS_START + slot * 8) 8)"

text \<open>What the bus constraints say of one slot.\<close>

definition slot_ok :: "'f::field list \<Rightarrow> nat \<Rightarrow> bool" where
  "slot_ok row slot \<longleftrightarrow>
     bits_ok row (TRACE_BUS_START + slot * TRACE_BUS_SLOT_WIDTH + 1) TRACE_BUS_KIND_BITS \<and>
     bits_ok row (TRACE_BUS_ADDRESS_BITS_START + slot * 16) 16 \<and>
     bits_ok row (TRACE_BUS_PHYSICAL_BITS_START + slot * ROM_ADDRESS_BIT_COUNT) ROM_ADDRESS_BIT_COUNT \<and>
     bits_ok row (TRACE_BUS_VALUE_BITS_START + slot * 8) 8 \<and>
     slot_field row slot BUS_ADDRESS_OFFSET = of_nat (unat (slot_address row slot)) \<and>
     slot_field row slot BUS_PHYSICAL_ADDRESS_OFFSET = of_nat (slot_physical row slot) \<and>
     slot_field row slot BUS_VALUE_OFFSET = of_nat (unat (slot_byte row slot)) \<and>
     bits_ok row (TRACE_BUS_BEFORE_BITS_START + slot * 8) 8 \<and>
     slot_field row slot BUS_BEFORE_OFFSET = of_nat (bits_value row (TRACE_BUS_BEFORE_BITS_START + slot * 8) 8) \<and>
     slot_kind row slot \<le> 18 \<and>
     slot_field row slot 0 = of_bool (slot_kind row slot \<noteq> 0) \<and>
     (slot_kind row slot = 0 \<longrightarrow> (\<forall>offset < BUS_TUPLE_FIELDS. slot_field row slot (BUS_ADDRESS_OFFSET + offset) = 0)) \<and>
     row ! (TRACE_ROM_SELECTOR_START + slot) = of_bool (slot_kind row slot \<in> {1, 2, 3, 16}) \<and>
     row ! (TRACE_ROM_VALUE_START + slot) = row ! (TRACE_ROM_SELECTOR_START + slot) * slot_field row slot BUS_VALUE_OFFSET \<and>
     row ! (TRACE_MODE_START + mode_index Mode_Padding) * slot_field row slot 0 = 0"

lemma bus_slot_start_exact: "slot < 5 \<Longrightarrow> bus_slot_start slot = Inr (TRACE_BUS_START + slot * TRACE_BUS_SLOT_WIDTH)"
  by (simp add: bus_slot_start_def usize_checked_mul_def usize_checked_add_def column_layout)

lemma bus_field_exact:
  assumes "wide row" "slot < 5" "offset < 12"
  shows "bus_field row slot offset = Inr (slot_field row slot offset)"
proof -
  have "TRACE_BUS_START + slot * TRACE_BUS_SLOT_WIDTH + offset < TRACE_ROW_BITS_START" using assms by (simp add: column_layout)
  then show ?thesis using assms
    by (simp add: bus_field_def bus_slot_start_exact usize_checked_add_def view_value_wide slot_field_def layout_end)
qed

lemma bus_kind_bits_exact:
  assumes "wide row" "slot < 5"
  shows "bus_kind_bits row slot = Inr (map (\<lambda>k. row ! (TRACE_BUS_START + slot * TRACE_BUS_SLOT_WIDTH + 1 + k)) [0..<TRACE_BUS_KIND_BITS])"
proof -
  have "TRACE_BUS_START + slot * TRACE_BUS_SLOT_WIDTH + 1 + TRACE_BUS_KIND_BITS \<le> TRACE_ROW_BITS_START" using assms by (simp add: column_layout)
  then show ?thesis using assms
    by (simp add: bus_kind_bits_def bus_slot_start_exact usize_checked_add_def view_values_wide layout_end del: upt_Suc)
qed

lemma kind_selector_exact:
  assumes "bits_ok row (TRACE_BUS_START + slot * TRACE_BUS_SLOT_WIDTH + 1) TRACE_BUS_KIND_BITS" "unat code < 32"
  shows "bit_selector (map (\<lambda>k. row ! (TRACE_BUS_START + slot * TRACE_BUS_SLOT_WIDTH + 1 + k)) [0..<TRACE_BUS_KIND_BITS]) code =
    Inr (of_bool (slot_kind row slot = unat code))"
proof -
  have five: "TRACE_BUS_KIND_BITS = 5" by (simp add: column_layout)
  show ?thesis
    using assms unfolding slot_kind_def bits_value_def bits_ok_def five
    by (subst bit_selector_exact) (auto simp: comp_def)
qed

lemma bus_kind_selector_exact:
  assumes "wide row" "slot < 5" "bits_ok row (TRACE_BUS_START + slot * TRACE_BUS_SLOT_WIDTH + 1) TRACE_BUS_KIND_BITS" "unat code < 32"
  shows "bus_kind_selector row slot code = Inr (of_bool (slot_kind row slot = unat code))"
proof -
  have "\<not> 2 ^ TRACE_BUS_KIND_BITS \<le> unat code" "\<not> TRACE_BUS_SLOTS \<le> slot" using assms by (simp_all add: column_layout)
  with assms bus_kind_bits_exact [OF assms(1,2)] kind_selector_exact [OF assms(3,4)] show ?thesis
    by (simp add: bus_kind_selector_def del: upt_Suc)
qed

lemma category_bits_total:
  assumes "bits \<noteq> []" "length bits \<le> 8"
  shows "\<exists>v. category_bits bits codes = Inr v"
proof -
  have "\<exists>v. try_fold (\<lambda>count code. and_then (bit_selector bits code) (\<lambda>s. Inr (count + s))) a codes = Inr v" for a
    using assms by (induction codes arbitrary: a) (auto simp: bit_selector_def)
  then show ?thesis by (simp add: category_bits_def)
qed

lemma category_bits_exact:
  assumes "bits_ok row (TRACE_BUS_START + slot * TRACE_BUS_SLOT_WIDTH + 1) TRACE_BUS_KIND_BITS"
    "\<forall>code \<in> set codes. unat code < 32" "distinct codes"
  shows "category_bits (map (\<lambda>k. row ! (TRACE_BUS_START + slot * TRACE_BUS_SLOT_WIDTH + 1 + k)) [0..<TRACE_BUS_KIND_BITS]) codes =
    Inr (of_bool (slot_kind row slot \<in> unat ` set codes))"
proof -
  let ?bits = "map (\<lambda>k. row ! (TRACE_BUS_START + slot * TRACE_BUS_SLOT_WIDTH + 1 + k)) [0..<TRACE_BUS_KIND_BITS]"
  have "try_fold (\<lambda>count code. and_then (bit_selector ?bits code) (\<lambda>s. Inr (count + s))) a codes =
      Inr (a + of_bool (slot_kind row slot \<in> unat ` set codes))" for a
    using assms(2,3)
  proof (induction codes arbitrary: a)
    case (Cons code codes)
    have "bit_selector ?bits code = Inr (of_bool (slot_kind row slot = unat code))"
      using Cons.prems by (intro kind_selector_exact [OF assms(1)]) simp
    moreover have "unat code \<notin> unat ` set codes" using Cons.prems(2) by (metis distinct.simps(2) imageE word_unat_eq_iff)
    ultimately show ?case using Cons by (auto simp del: upt_Suc)
  qed simp
  then show ?thesis by (simp only: category_bits_def add_0_left)
qed

lemma slot_decomposition_exact:
  assumes "wide row" "slot < 5" "offset < 12" "bits + w \<le> TRACE_ROW_BITS_START"
  shows "vanishes (slot_decomposition row slot offset bits w) \<longleftrightarrow>
    bits_ok row bits w \<and> slot_field row slot offset = of_nat (bits_value row bits w)"
proof (cases "bits_ok row bits w")
  case True
  with assms show ?thesis by (simp add: slot_decomposition_def bit_range_vanishes bus_field_exact packed_bits_exact)
next
  case False
  with assms show ?thesis by (simp add: slot_decomposition_def bit_range_vanishes)
qed

lemma vanishes_and_then: "vanishes (and_then r f) \<longleftrightarrow> (\<exists>v. r = Inr v \<and> vanishes (f v))"
  by (cases r) auto

lemma slot_bounds:
  assumes "slot < 5"
  shows "TRACE_BUS_ADDRESS_BITS_START + slot * 16 + 16 \<le> TRACE_ROW_BITS_START"
    "TRACE_BUS_PHYSICAL_BITS_START + slot * ROM_ADDRESS_BIT_COUNT + ROM_ADDRESS_BIT_COUNT \<le> TRACE_ROW_BITS_START"
    "TRACE_BUS_VALUE_BITS_START + slot * 8 + 8 \<le> TRACE_ROW_BITS_START" "TRACE_BUS_BEFORE_BITS_START + slot * 8 + 8 \<le> TRACE_ROW_BITS_START"
    "TRACE_ROM_SELECTOR_START + slot < TRACE_ROW_BITS_START" "TRACE_ROM_VALUE_START + slot < TRACE_ROW_BITS_START"
    "TRACE_MODE_START + mode_index Mode_Padding < TRACE_ROW_BITS_START"
  using assms by (simp_all add: column_layout)

lemma offset_bounds:
  "BUS_ADDRESS_OFFSET < 12" "BUS_PHYSICAL_ADDRESS_OFFSET < 12" "BUS_VALUE_OFFSET < 12" "BUS_BEFORE_OFFSET < 12"
  "BUS_AUXILIARY_OFFSET < 12" "BUS_INDEX_OFFSET < 12" "BUS_ADDRESS_OFFSET + BUS_TUPLE_FIELDS = 12"
  by (simp_all add: bus_columns column_layout)

lemma slot_numbers:
  "unat (slot_address row slot) = bits_value row (TRACE_BUS_ADDRESS_BITS_START + slot * 16) 16"
  "unat (slot_byte row slot) = bits_value row (TRACE_BUS_VALUE_BITS_START + slot * 8) 8"
  using bits_value_less [of row "TRACE_BUS_ADDRESS_BITS_START + slot * 16" 16] bits_value_less [of row "TRACE_BUS_VALUE_BITS_START + slot * 8" 8]
  by (simp_all add: slot_address_def slot_byte_def unat_of_nat)

lemma vanishes_fields:
  assumes "wide row" "slot < 5"
  shows "vanishes (emit_each (\<lambda>offset. and_then (bus_field row slot offset) (\<lambda>v. Inr [c * v])) [BUS_ADDRESS_OFFSET..<BUS_ADDRESS_OFFSET + BUS_TUPLE_FIELDS]) \<longleftrightarrow>
    (c = (0 :: 'f::field) \<or> (\<forall>offset < BUS_TUPLE_FIELDS. slot_field row slot (BUS_ADDRESS_OFFSET + offset) = 0))"
proof -
  have range: "set [BUS_ADDRESS_OFFSET..<BUS_ADDRESS_OFFSET + BUS_TUPLE_FIELDS] = (+) BUS_ADDRESS_OFFSET ` {0..<BUS_TUPLE_FIELDS}"
    by (simp only: set_upt image_add_atLeastLessThan add_0_left add.commute [of BUS_TUPLE_FIELDS])
  have "vanishes (and_then (bus_field row slot offset) (\<lambda>v. Inr [c * v])) \<longleftrightarrow> c = 0 \<or> slot_field row slot offset = 0"
    if "offset \<in> set [BUS_ADDRESS_OFFSET..<BUS_ADDRESS_OFFSET + BUS_TUPLE_FIELDS]" for offset
  proof -
    have "offset < 12" using that offset_bounds(7) by simp
    then show ?thesis by (simp add: bus_field_exact [OF assms])
  qed
  then have "vanishes (emit_each (\<lambda>offset. and_then (bus_field row slot offset) (\<lambda>v. Inr [c * v])) [BUS_ADDRESS_OFFSET..<BUS_ADDRESS_OFFSET + BUS_TUPLE_FIELDS]) \<longleftrightarrow>
      (\<forall>offset \<in> (+) BUS_ADDRESS_OFFSET ` {0..<BUS_TUPLE_FIELDS}. c = 0 \<or> slot_field row slot offset = 0)"
    unfolding vanishes_each range by (rule ball_cong [OF refl])
  also have "\<dots> \<longleftrightarrow> (\<forall>k < BUS_TUPLE_FIELDS. c = 0 \<or> slot_field row slot (BUS_ADDRESS_OFFSET + k) = 0)" unfolding ball_simps by auto
  finally show ?thesis by blast
qed

lemma slot_constraints:
  assumes "wide row" "slot < 5"
  shows "vanishes (constrain_slot row slot) \<longleftrightarrow> slot_ok row slot"
proof (cases "bits_ok row (TRACE_BUS_START + slot * TRACE_BUS_SLOT_WIDTH + 1) TRACE_BUS_KIND_BITS")
  case True
  let ?kinds = "map (\<lambda>k. row ! (TRACE_BUS_START + slot * TRACE_BUS_SLOT_WIDTH + 1 + k)) [0..<TRACE_BUS_KIND_BITS]"
  note bounds = slot_bounds [OF assms(2)] and offsets = offset_bounds
  have kinds: "\<forall>b \<in> set ?kinds. boolean b = 0" using True by (auto simp: bits_ok_def)
  have valid: "category_bits ?kinds (map of_nat [0..<19]) = Inr (of_bool (slot_kind row slot \<le> 18))"
  proof -
    have codes: "unat (of_nat k :: u8) = k" if "k < 19" for k using that by (simp add: unat_of_nat)
    then have "unat ` set (map of_nat [0..<19] :: u8 list) = {..<19}" by (force simp: image_image)
    moreover have "distinct (map of_nat [0..<19] :: u8 list)"
      using codes by (auto simp: distinct_map inj_on_def simp del: upt_Suc) metis
    ultimately show ?thesis using category_bits_exact [OF True, of "map of_nat [0..<19]"] codes by (auto simp del: upt_Suc)
  qed
  have rom: "category_bits ?kinds [1, 2, 3, 16] = Inr (of_bool (slot_kind row slot \<in> {1, 2, 3, 16}))"
    using category_bits_exact [OF True, of "[1, 2, 3, 16]"] by simp
  have selector: "bit_selector ?kinds 0 = Inr (of_bool (slot_kind row slot = 0))" using kind_selector_exact [OF True, of 0] by simp
  let ?first = "[boolean (slot_field row slot 0)] @ map boolean ?kinds @
    [of_bool (slot_kind row slot \<le> 18) - 1, slot_field row slot 0 - (1 - of_bool (slot_kind row slot = 0))]"
  let ?rom = "row ! (TRACE_ROM_SELECTOR_START + slot)"
  let ?last = "[boolean ?rom, ?rom - of_bool (slot_kind row slot \<in> {1, 2, 3, 16}),
    row ! (TRACE_ROM_VALUE_START + slot) - ?rom * slot_field row slot BUS_VALUE_OFFSET,
    row ! (TRACE_MODE_START + mode_index Mode_Padding) * slot_field row slot 0]"
  have zero: "(0 :: nat) < 12" by simp
  note exact = bus_kind_bits_exact [OF assms] bus_field_exact [OF assms zero] bus_field_exact [OF assms offsets(3)] valid rom selector
    view_value_wide [OF assms(1) bounds(5)] view_value_wide [OF assms(1) bounds(6)] view_value_wide [OF assms(1) bounds(7)] view_mode_def
  have first: "vanishes (Inr ?first) \<longleftrightarrow> slot_kind row slot \<le> 18 \<and> slot_field row slot 0 = of_bool (slot_kind row slot \<noteq> 0)"
    using kinds by (auto simp del: upt_Suc)
  have last: "vanishes (Inr ?last) \<longleftrightarrow> ?rom = of_bool (slot_kind row slot \<in> {1, 2, 3, 16}) \<and>
      row ! (TRACE_ROM_VALUE_START + slot) = ?rom * slot_field row slot BUS_VALUE_OFFSET \<and>
      row ! (TRACE_MODE_START + mode_index Mode_Padding) * slot_field row slot 0 = 0"
    by auto
  have parts: "vanishes (constrain_slot row slot) \<longleftrightarrow> vanishes (Inr ?first) \<and>
      (1 - slot_field row slot 0 = 0 \<or> (\<forall>offset < BUS_TUPLE_FIELDS. slot_field row slot (BUS_ADDRESS_OFFSET + offset) = 0)) \<and>
      vanishes (slot_decomposition row slot BUS_ADDRESS_OFFSET (TRACE_BUS_ADDRESS_BITS_START + slot * 16) 16) \<and>
      vanishes (slot_decomposition row slot BUS_PHYSICAL_ADDRESS_OFFSET
         (TRACE_BUS_PHYSICAL_BITS_START + slot * ROM_ADDRESS_BIT_COUNT) ROM_ADDRESS_BIT_COUNT) \<and>
      vanishes (slot_decomposition row slot BUS_VALUE_OFFSET (TRACE_BUS_VALUE_BITS_START + slot * 8) 8) \<and>
      vanishes (slot_decomposition row slot BUS_BEFORE_OFFSET (TRACE_BUS_BEFORE_BITS_START + slot * 8) 8) \<and> vanishes (Inr ?last)"
    unfolding constrain_slot_def exact and_then_simps vanishes_then vanishes_fields [OF assms] ..
  show ?thesis
    unfolding parts first last slot_decomposition_exact [OF assms offsets(1) bounds(1)] slot_decomposition_exact [OF assms offsets(2) bounds(2)]
      slot_decomposition_exact [OF assms offsets(3) bounds(3)] slot_decomposition_exact [OF assms offsets(4) bounds(4)]
      slot_ok_def slot_numbers slot_physical_def
    using True by (cases "slot_kind row slot = 0") auto
next
  case False
  have "vanishes (constrain_slot row slot) \<Longrightarrow> bits_ok row (TRACE_BUS_START + slot * TRACE_BUS_SLOT_WIDTH + 1) TRACE_BUS_KIND_BITS"
    unfolding constrain_slot_def bus_kind_bits_exact [OF assms] vanishes_and_then vanishes_then and_then_simps
    by (auto simp: bits_ok_def)
  with False show ?thesis by (auto simp: slot_ok_def)
qed

lemma bus_constraints:
  assumes "wide row" "vanishes (constrain_bus row)" "slot < 5"
  shows "slot_ok row slot"
proof -
  have "TRACE_BUS_SLOTS = 5" by (simp add: column_layout)
  with assms(2,3) have "vanishes (constrain_slot row slot)" by (simp add: constrain_bus_def)
  then show ?thesis by (simp only: slot_constraints [OF assms(1,3)])
qed

end
