(* ===== verification/Mapper_Constraints.thy ===== *)
theory Mapper_Constraints
  imports Cpu_Rows
begin

text \<open>
  The constraints of the cartridge mapper (\<open>zksm83-jolt/src/cpu/mbc3.rs\<close>).
\<close>

definition control_segments :: "'f::field list \<Rightarrow> 'f \<Rightarrow> nat \<Rightarrow> uniform_error + ('f \<times> 'f \<times> 'f \<times> 'f)" where
  "control_segments row control address_bits =
     and_then (view_value row (address_bits + 13)) (\<lambda>bit_thirteen.
     and_then (view_value row (address_bits + 14)) (\<lambda>bit_fourteen.
       Inr (control * (1 - bit_fourteen) * (1 - bit_thirteen),
            control * (1 - bit_fourteen) * bit_thirteen,
            control * bit_fourteen * (1 - bit_thirteen),
            control * bit_fourteen * bit_thirteen)))"

definition ram_enable_value :: "'f::field list \<Rightarrow> nat \<Rightarrow> uniform_error + 'f" where
  "ram_enable_value row value_bits =
     and_then (view_value row value_bits) (\<lambda>b0.
     and_then (view_value row (value_bits + 1)) (\<lambda>b1.
     and_then (view_value row (value_bits + 2)) (\<lambda>b2.
     and_then (view_value row (value_bits + 3)) (\<lambda>b3.
       Inr ((1 - b0) * b1 * (1 - b2) * b3)))))"

definition mapped_rom_bank :: "'f::field list \<Rightarrow> nat \<Rightarrow> uniform_error + 'f" where
  "mapped_rom_bank row value_bits =
     and_then (view_before row STATE_PROFILE) (\<lambda>profile.
     and_then (profile_256kib_selector profile) (\<lambda>size_256kib.
     and_then (packed_bits row value_bits 6) (\<lambda>six.
     and_then (zero_from_bits row value_bits 6) (\<lambda>six_zero.
     and_then (packed_bits row value_bits 4) (\<lambda>four.
     and_then (zero_from_bits row value_bits 4) (\<lambda>four_zero.
       let one_mib_bank = six + six_zero; smaller_bank = four + four_zero
       in Inr (size_256kib * smaller_bank + (1 - size_256kib) * one_mib_bank)))))))"

definition nibble_selector :: "'f::field list \<Rightarrow> nat \<Rightarrow> u8 \<Rightarrow> uniform_error + 'f" where
  "nibble_selector row select_bits v =
     try_fold (\<lambda>product bit_index. and_then (view_value row (select_bits + bit_index)) (\<lambda>witness.
       Inr (product * (if bit v bit_index then witness else 1 - witness)))) 1 [0..<4]"

definition rtc_register_selected :: "'f::field list \<Rightarrow> nat \<Rightarrow> uniform_error + 'f" where
  "rtc_register_selected row select_bits =
     try_fold (\<lambda>selected register. and_then (nibble_selector row select_bits register) (\<lambda>s. Inr (selected + s))) 0 [8, 9, 10, 11, 12]"

section \<open>External RAM\<close>

definition external_ram_slot :: "'f::field list \<Rightarrow> 'f \<Rightarrow> 'f \<Rightarrow> 'f \<Rightarrow> nat \<Rightarrow> 'f pushed" where
  "external_ram_slot row available rtc_selected rtc_profile slot =
     and_then (bus_kind_selector row slot 9) (\<lambda>open_read.
     and_then (bus_kind_selector row slot 10) (\<lambda>ignored_write.
     let selected = open_read + ignored_write; address = TRACE_BUS_ADDRESS_BITS_START + slot * 16 in
     and_then (view_value row (address + 15)) (\<lambda>b15.
     and_then (view_value row (address + 14)) (\<lambda>b14.
     and_then (view_value row (address + 13)) (\<lambda>b13.
     and_then (bus_field row slot BUS_PHYSICAL_ADDRESS_OFFSET) (\<lambda>physical.
     and_then (bus_field row slot BUS_BEFORE_OFFSET) (\<lambda>before.
     and_then (bus_field row slot BUS_AUXILIARY_OFFSET) (\<lambda>auxiliary.
     and_then (bus_field row slot BUS_INDEX_OFFSET) (\<lambda>index.
     and_then (bus_field row slot BUS_VALUE_OFFSET) (\<lambda>v.
       Inr [selected * (1 - b15), selected * b14, selected * (1 - b13), selected * available, selected * physical,
            selected * before, selected * auxiliary, selected * index, selected * rtc_profile * rtc_selected,
            open_read * (v - 0xff)]))))))))))"

definition constrain_external_ram_policy :: "'f::field list \<Rightarrow> 'f pushed" where
  "constrain_external_ram_policy row =
     and_then (view_before row STATE_MBC3_RAM_ENABLED) (\<lambda>ram_enabled.
     and_then (view_value row (TRACE_BEFORE_RAM_RTC_BITS_START + 2)) (\<lambda>b2.
     and_then (view_value row (TRACE_BEFORE_RAM_RTC_BITS_START + 3)) (\<lambda>b3.
     let available = ram_enabled * (1 - b2) * (1 - b3) in
     and_then (rtc_register_selected row TRACE_BEFORE_RAM_RTC_BITS_START) (\<lambda>rtc_selected.
     and_then (view_before row STATE_PROFILE) (\<lambda>profile.
     and_then (profile_rtc_selector profile) (\<lambda>rtc_profile.
       emit_each (external_ram_slot row available rtc_selected rtc_profile) [0..<TRACE_BUS_SLOTS]))))))"

section \<open>The ROM window\<close>

definition rom_mapping_slot :: "'f::field list \<Rightarrow> 'f \<Rightarrow> nat \<Rightarrow> 'f pushed" where
  "rom_mapping_slot row bank slot =
     and_then (view_value row (TRACE_ROM_SELECTOR_START + slot)) (\<lambda>selected.
     let address_bits = TRACE_BUS_ADDRESS_BITS_START + slot * 16;
         physical_bits = TRACE_BUS_PHYSICAL_BITS_START + slot * ROM_ADDRESS_BIT_COUNT in
     and_then (packed_bits row address_bits 16) (\<lambda>address.
     and_then (packed_bits row physical_bits ROM_ADDRESS_BIT_COUNT) (\<lambda>physical.
     and_then (view_value row (address_bits + 14)) (\<lambda>bank_window.
     and_then (view_value row (address_bits + 15)) (\<lambda>outside_rom.
       let expected = address + bank_window * (bank - 1) * 0x4000
       in Inr [selected * outside_rom, selected * (physical - expected)])))))"

definition constrain_rom_mapping :: "'f::field list \<Rightarrow> 'f pushed" where
  "constrain_rom_mapping row =
     and_then (view_before row STATE_MBC3_ROM_BANK) (\<lambda>bank. emit_each (rom_mapping_slot row bank) [0..<TRACE_BUS_SLOTS])"

section \<open>Control writes\<close>

text \<open>What one slot contributes to the control count and the three updates.\<close>

type_synonym 'f mapper_sums = "'f \<times> 'f \<times> 'f \<times> 'f"

definition mapper_update_slot :: "'f::field list \<Rightarrow> 'f mapper_sums \<times> 'f list \<Rightarrow> nat \<Rightarrow> uniform_error + ('f mapper_sums \<times> 'f list)" where
  "mapper_update_slot row = (\<lambda>((control_count, ram_update, bank_update, select_update), pushed) slot.
     and_then (bus_kind_selector row slot 8) (\<lambda>control.
     let address_bits = TRACE_BUS_ADDRESS_BITS_START + slot * 16; value_bits = TRACE_BUS_VALUE_BITS_START + slot * 8 in
     and_then (control_segments row control address_bits) (\<lambda>(ram_segment, bank_segment, select_segment, _).
     and_then (view_value row (address_bits + 15)) (\<lambda>b15.
     and_then (bus_field row slot BUS_PHYSICAL_ADDRESS_OFFSET) (\<lambda>physical.
     and_then (ram_enable_value row value_bits) (\<lambda>enable.
     and_then (view_before row STATE_MBC3_RAM_ENABLED) (\<lambda>ram.
     and_then (mapped_rom_bank row value_bits) (\<lambda>mapped.
     and_then (view_before row STATE_MBC3_ROM_BANK) (\<lambda>bank.
     and_then (packed_bits row value_bits 4) (\<lambda>nibble.
     and_then (view_before row STATE_MBC3_RAM_RTC_SELECT) (\<lambda>select.
       Inr ((control_count + control, ram_update + ram_segment * (enable - ram), bank_update + bank_segment * (mapped - bank),
             select_update + select_segment * (nibble - select)), pushed @ [control * b15, control * physical]))))))))))))"

definition constrain_mapper_updates :: "'f::field list \<Rightarrow> 'f pushed" where
  "constrain_mapper_updates row =
     and_then (try_fold (mapper_update_slot row) ((0, 0, 0, 0), []) [0..<TRACE_BUS_SLOTS])
       (\<lambda>((control_count, ram_update, bank_update, select_update), pushed).
     and_then (view_after row STATE_MBC3_RAM_ENABLED) (\<lambda>ram_after.
     and_then (view_before row STATE_MBC3_RAM_ENABLED) (\<lambda>ram.
     and_then (view_after row STATE_MBC3_ROM_BANK) (\<lambda>bank_after.
     and_then (view_before row STATE_MBC3_ROM_BANK) (\<lambda>bank.
     and_then (view_after row STATE_MBC3_RAM_RTC_SELECT) (\<lambda>select_after.
     and_then (view_before row STATE_MBC3_RAM_RTC_SELECT) (\<lambda>select.
       Inr (pushed @ [boolean control_count, ram_after - ram - ram_update, bank_after - bank - bank_update,
         select_after - select - select_update]))))))))"

definition constrain_mapper_and_rom :: "'f::field list \<Rightarrow> 'f pushed" where
  "constrain_mapper_and_rom row =
     emit_then (constrain_rom_mapping row) (emit_then (constrain_external_ram_policy row) (constrain_mapper_updates row))"

end
