(* ===== verification/Mapper_Exact.thy ===== *)
theory Mapper_Exact
  imports Row_Algebra Mapper_Constraints Vm_State
begin

text \<open>
  The mapper constraints against the mapper: on a row whose bus and range constraints vanish, the
  control-write and ROM-window constraints vanish exactly when the row does what \<open>Mbc3\<close> does.
\<close>

section \<open>Encoded mapper states\<close>

definition mapper_at :: "'f::field list \<Rightarrow> nat \<Rightarrow> mbc3_state \<Rightarrow> bool" where
  "mapper_at row start m \<longleftrightarrow>
     row ! (start + STATE_MBC3_RAM_ENABLED) = of_bool (ram_enabled m) \<and>
     row ! (start + STATE_MBC3_ROM_BANK) = of_nat (unat (rom_bank m)) \<and>
     row ! (start + STATE_MBC3_RAM_RTC_SELECT) = of_nat (unat (ram_rtc_select m))"

definition profile_at :: "'f::field list \<Rightarrow> nat \<Rightarrow> machine_profile \<Rightarrow> bool" where
  "profile_at row start p \<longleftrightarrow> row ! (start + STATE_PROFILE) = of_nat (unat (machine_profile_code p))"

lemma view_state_exact:
  assumes "wide row" "i < STATE_SCALAR_COUNT"
  shows "view_before row i = Inr (row ! (TRACE_BEFORE_STATE_START + i))" "view_after row i = Inr (row ! (TRACE_AFTER_STATE_START + i))"
  using assms by (simp_all add: view_before_def view_after_def view_value_wide column_layout)

lemma state_columns_small:
  "STATE_MBC3_RAM_ENABLED < STATE_SCALAR_COUNT" "STATE_MBC3_ROM_BANK < STATE_SCALAR_COUNT"
  "STATE_MBC3_RAM_RTC_SELECT < STATE_SCALAR_COUNT" "STATE_PROFILE < STATE_SCALAR_COUNT"
  by (simp_all add: state_columns column_layout)

section \<open>Words from bit columns\<close>

lemma bit_of_bits:
  "bit (of_nat (bits_value row start (LENGTH('a))) :: 'a::len word) k \<longleftrightarrow> k < LENGTH('a) \<and> row ! (start + k) = 1"
  by (auto simp: bit_of_nat_iff possible_bit_def)

lemma slot_address_bit: "bit (slot_address row slot) k \<longleftrightarrow> k < 16 \<and> row ! (TRACE_BUS_ADDRESS_BITS_START + slot * 16 + k) = 1"
  using bit_of_bits [where 'a = 16, of row "TRACE_BUS_ADDRESS_BITS_START + slot * 16" k] by (simp add: slot_address_def)

lemma slot_byte_bit: "bit (slot_byte row slot) k \<longleftrightarrow> k < 8 \<and> row ! (TRACE_BUS_VALUE_BITS_START + slot * 8 + k) = 1"
  using bit_of_bits [where 'a = 8, of row "TRACE_BUS_VALUE_BITS_START + slot * 8" k] by (simp add: slot_byte_def)

lemma slot_byte_prefix:
  assumes "w \<le> 8"
  shows "bits_value row (TRACE_BUS_VALUE_BITS_START + slot * 8) w = unat (take_bit w (slot_byte row slot))"
proof -
  have "unat (slot_byte row slot) = bits_value row (TRACE_BUS_VALUE_BITS_START + slot * 8) 8"
    using bits_value_less [of row "TRACE_BUS_VALUE_BITS_START + slot * 8" 8] by (simp add: slot_byte_def unat_of_nat)
  then show ?thesis using bits_value_prefix [OF assms] by (simp add: unsigned_take_bit_eq)
qed

text \<open>Segments of the address space by its top bits.\<close>

lemma word_bit_odd: "bit a k \<longleftrightarrow> odd (unat a div 2 ^ k)"
proof -
  have "bit (unat a) k \<longleftrightarrow> bit a k" by (simp add: bit_unsigned_iff)
  then show ?thesis by (simp add: bit_iff_odd)
qed

lemma address_segments:
  fixes a :: u16
  shows "a \<le> 0x1fff \<longleftrightarrow> \<not> bit a 13 \<and> \<not> bit a 14 \<and> \<not> bit a 15"
    "a \<le> 0x3fff \<longleftrightarrow> \<not> bit a 14 \<and> \<not> bit a 15"
    "a \<le> 0x5fff \<longleftrightarrow> \<not> bit a 15 \<and> \<not> (bit a 13 \<and> bit a 14)"
    "a \<le> 0x7fff \<longleftrightarrow> \<not> bit a 15"
proof -
  define q where "q = unat a div 8192"
  have "unat a < 65536" by (rule unat_less_65536)
  then have q: "q < 8" unfolding q_def by (simp add: less_mult_imp_div_less)
  have bits: "bit a 13 \<longleftrightarrow> odd q" "bit a 14 \<longleftrightarrow> odd (q div 2)" "bit a 15 \<longleftrightarrow> odd (q div 4)"
    unfolding word_bit_odd q_def by (simp_all add: div_mult2_eq [symmetric])
  have bounds: "unat a \<le> 8191 \<longleftrightarrow> q \<le> 0" "unat a \<le> 16383 \<longleftrightarrow> q \<le> 1" "unat a \<le> 24575 \<longleftrightarrow> q \<le> 2" "unat a \<le> 32767 \<longleftrightarrow> q \<le> 3"
    unfolding q_def by linarith+
  have "q = 0 \<or> q = 1 \<or> q = 2 \<or> q = 3 \<or> q = 4 \<or> q = 5 \<or> q = 6 \<or> q = 7" using q by linarith
  then show "a \<le> 0x1fff \<longleftrightarrow> \<not> bit a 13 \<and> \<not> bit a 14 \<and> \<not> bit a 15"
    "a \<le> 0x3fff \<longleftrightarrow> \<not> bit a 14 \<and> \<not> bit a 15"
    "a \<le> 0x5fff \<longleftrightarrow> \<not> bit a 15 \<and> \<not> (bit a 13 \<and> bit a 14)"
    "a \<le> 0x7fff \<longleftrightarrow> \<not> bit a 15"
    by (auto simp: word_le_nat_alt bits bounds)
qed

lemma ram_enable_code: "v AND 0x0f = (0x0a :: u8) \<longleftrightarrow> \<not> bit v 0 \<and> bit v 1 \<and> \<not> bit v 2 \<and> bit v 3"
proof -
  define m where "m = unat v mod 16"
  have "v AND 0x0f = (0x0a :: u8) \<longleftrightarrow> m = 10"
    using unat_and_mask [of v 4] by (simp add: word_unat_eq_iff mask_eq_exp_minus_1 m_def)
  moreover have "bit v k \<longleftrightarrow> odd (m div 2 ^ k)" if "k < 4" for k
  proof -
    have "m = take_bit 4 (unat v)" by (simp add: m_def take_bit_eq_mod)
    then have "bit m k \<longleftrightarrow> bit (unat v) k" using that by (simp add: bit_take_bit_iff)
    then show ?thesis by (simp add: word_bit_odd bit_iff_odd)
  qed
  moreover have "m < 16" by (simp add: m_def)
  then have "m = 0 \<or> m = 1 \<or> m = 2 \<or> m = 3 \<or> m = 4 \<or> m = 5 \<or> m = 6 \<or> m = 7 \<or>
      m = 8 \<or> m = 9 \<or> m = 10 \<or> m = 11 \<or> m = 12 \<or> m = 13 \<or> m = 14 \<or> m = 15" by presburger
  ultimately show ?thesis by auto
qed

lemma low_bits_and: "v AND 0x0f = take_bit 4 (v :: u8)" "v AND 0x3f = take_bit 6 (v :: u8)"
  by (simp_all add: take_bit_eq_mask mask_eq_exp_minus_1)

section \<open>Control writes\<close>

text \<open>The columns of one slot, read as an address and a byte.\<close>

lemma slot_columns:
  assumes "wide row" "slot < 5" "slot_ok row slot"
  shows "k < 16 \<Longrightarrow> view_value row (TRACE_BUS_ADDRESS_BITS_START + slot * 16 + k) = Inr (of_bool (bit (slot_address row slot) k))"
    "k < 8 \<Longrightarrow> view_value row (TRACE_BUS_VALUE_BITS_START + slot * 8 + k) = Inr (of_bool (bit (slot_byte row slot) k))"
proof -
  have bounds: "k < 16 \<Longrightarrow> TRACE_BUS_ADDRESS_BITS_START + slot * 16 + k < TRACE_ROW_BITS_START"
    "k < 8 \<Longrightarrow> TRACE_BUS_VALUE_BITS_START + slot * 8 + k < TRACE_ROW_BITS_START"
    using assms(2) by (simp_all add: column_layout)
  show "k < 16 \<Longrightarrow> view_value row (TRACE_BUS_ADDRESS_BITS_START + slot * 16 + k) = Inr (of_bool (bit (slot_address row slot) k))"
    "k < 8 \<Longrightarrow> view_value row (TRACE_BUS_VALUE_BITS_START + slot * 8 + k) = Inr (of_bool (bit (slot_byte row slot) k))"
    using view_value_wide [OF assms(1) bounds(1)] view_value_wide [OF assms(1) bounds(2)] assms(3)
    by (auto simp: slot_ok_def bits_ok_def slot_address_bit slot_byte_bit)
qed

lemma ram_enable_exact:
  assumes "wide row" "slot < 5" "slot_ok row slot"
  shows "ram_enable_value row (TRACE_BUS_VALUE_BITS_START + slot * 8) = Inr (of_bool (slot_byte row slot AND 0x0f = 0x0a))"
  using slot_columns(2) [OF assms, of 0] slot_columns(2) [OF assms, of 1] slot_columns(2) [OF assms, of 2] slot_columns(2) [OF assms, of 3]
  unfolding ram_enable_value_def ram_enable_code by (auto simp: of_bool_def)

lemma value_bits_exact:
  assumes "wide row" "slot < 5" "slot_ok row slot" "w \<le> 8"
  shows "packed_bits row (TRACE_BUS_VALUE_BITS_START + slot * 8) w = Inr (of_nat (unat (take_bit w (slot_byte row slot))))"
    "zero_from_bits row (TRACE_BUS_VALUE_BITS_START + slot * 8) w = Inr (of_bool (take_bit w (slot_byte row slot) = 0))"
proof -
  have bound: "TRACE_BUS_VALUE_BITS_START + slot * 8 + w \<le> TRACE_ROW_BITS_START" using assms(2,4) by (simp add: column_layout)
  have ok: "bits_ok row (TRACE_BUS_VALUE_BITS_START + slot * 8) w"
    using assms(3,4) bits_ok_prefix by (auto simp: slot_ok_def)
  show "packed_bits row (TRACE_BUS_VALUE_BITS_START + slot * 8) w = Inr (of_nat (unat (take_bit w (slot_byte row slot))))"
    unfolding slot_byte_prefix [OF assms(4), symmetric] by (rule packed_bits_exact [OF assms(1) bound ok])
  show "zero_from_bits row (TRACE_BUS_VALUE_BITS_START + slot * 8) w = Inr (of_bool (take_bit w (slot_byte row slot) = 0))"
    using zero_from_bits_exact [OF assms(1) bound ok] slot_byte_prefix [OF assms(4), of row slot] by (simp add: unat_eq_zero)
qed

abbreviation bank_written :: "machine_profile \<Rightarrow> u8 \<Rightarrow> u8" where
  "bank_written p v \<equiv> (let selected = v AND bank_mask (prof_rom_size (cartridge_profile p)) in if selected = 0 then 1 else selected)"

lemma profile_kinds:
  assumes "separates TYPE('f::field) 4" "wide row" "profile_at (row :: 'f list) TRACE_BEFORE_STATE_START p"
  shows "view_before row STATE_PROFILE = Inr (of_nat (unat (machine_profile_code p)))"
    "profile_256kib_selector (of_nat (unat (machine_profile_code p)) :: 'f) = Inr (of_bool (prof_rom_size (cartridge_profile p) = Rom256KiB))"
    "profile_rtc_selector (of_nat (unat (machine_profile_code p)) :: 'f) = Inr (of_bool (prof_rtc (cartridge_profile p) = RtcCapable))"
proof -
  have code: "unat (machine_profile_code p) < 5" by (cases p) simp_all
  show "view_before row STATE_PROFILE = Inr (of_nat (unat (machine_profile_code p)))"
    using assms(3) view_state_exact(1) [OF assms(2) state_columns_small(4)] by (simp add: profile_at_def)
  show "profile_256kib_selector (of_nat (unat (machine_profile_code p)) :: 'f) = Inr (of_bool (prof_rom_size (cartridge_profile p) = Rom256KiB))"
    unfolding profile_sizes_exact(1) [OF assms(1) code] by (cases p) (simp_all add: one_mib_no_rtc_def)
  show "profile_rtc_selector (of_nat (unat (machine_profile_code p)) :: 'f) = Inr (of_bool (prof_rtc (cartridge_profile p) = RtcCapable))"
    unfolding profile_sizes_exact(2) [OF assms(1) code] by (cases p) (simp_all add: one_mib_no_rtc_def)
qed

lemma mapped_bank_exact:
  assumes "separates TYPE('f::field) 4" "wide row" "slot < 5" "slot_ok row slot" "profile_at row TRACE_BEFORE_STATE_START p"
  shows "mapped_rom_bank (row :: 'f list) (TRACE_BUS_VALUE_BITS_START + slot * 8) = Inr (of_nat (unat (bank_written p (slot_byte row slot))))"
proof -
  note size = profile_kinds [OF assms(1,2,5)]
  note packed = value_bits_exact [OF assms(2-4), of 6] value_bits_exact [OF assms(2-4), of 4]
  show ?thesis
    by (cases "prof_rom_size (cartridge_profile p)")
      (simp_all add: mapped_rom_bank_def size(1) size(2) packed bank_mask_def low_bits_and Let_def del: of_nat_unat)
qed

text \<open>What one slot contributes; the segments do not look at the top address bit.\<close>

lemma low_address:
  fixes a :: u16
  shows "k < 15 \<Longrightarrow> bit (a AND 0x7fff) k = bit a k" "\<not> bit (a AND 0x7fff) 15" "a \<le> 0x7fff \<Longrightarrow> a AND 0x7fff = a"
proof -
  have mask: "a AND 0x7fff = take_bit 15 a" by (simp add: take_bit_eq_mask mask_eq_exp_minus_1)
  show "k < 15 \<Longrightarrow> bit (a AND 0x7fff) k = bit a k" "\<not> bit (a AND 0x7fff) 15" by (simp_all add: mask bit_take_bit_iff)
  show "a \<le> 0x7fff \<Longrightarrow> a AND 0x7fff = a" unfolding mask by (simp add: word_unat_eq_iff unsigned_take_bit_eq take_bit_nat_eq_self word_le_nat_alt)
qed

definition control_delta :: "machine_profile \<Rightarrow> 'f::field list \<Rightarrow> mbc3_state \<Rightarrow> nat \<Rightarrow> 'f mapper_sums" where
  "control_delta p row m slot =
     (if slot_kind row slot = 8 then
        (let m' = apply_control_write_for (cartridge_profile p) (slot_address row slot AND 0x7fff) (slot_byte row slot) m in
         (1, of_bool (ram_enabled m') - of_bool (ram_enabled m), of_nat (unat (rom_bank m')) - of_nat (unat (rom_bank m)),
          of_nat (unat (ram_rtc_select m')) - of_nat (unat (ram_rtc_select m))))
      else (0, 0, 0, 0))"

lemma mapper_slot_exact:
  assumes "separates TYPE('f::field) 4" "wide row" "slot < 5" "slot_ok row slot"
    "profile_at row TRACE_BEFORE_STATE_START p" "mapper_at row TRACE_BEFORE_STATE_START m"
  shows "mapper_update_slot (row :: 'f list) ((c, r, b, s), pushed) slot =
    (case control_delta p row m slot of (dc, dr, db, ds) \<Rightarrow>
       Inr ((c + dc, r + dr, b + db, s + ds), pushed @
         [of_bool (slot_kind row slot = 8) * of_bool (bit (slot_address row slot) 15),
          of_bool (slot_kind row slot = 8) * slot_field row slot BUS_PHYSICAL_ADDRESS_OFFSET]))"
proof -
  note cols = slot_columns [OF assms(2-4)]
  have kind: "bus_kind_selector row slot 8 = Inr (of_bool (slot_kind row slot = 8))"
    using bus_kind_selector_exact [OF assms(2,3), of 8] assms(4) by (simp add: slot_ok_def)
  have physical: "bus_field row slot BUS_PHYSICAL_ADDRESS_OFFSET = Inr (slot_field row slot BUS_PHYSICAL_ADDRESS_OFFSET)"
    by (rule bus_field_exact [OF assms(2,3)]) (simp add: bus_columns column_layout)
  have before: "view_before row STATE_MBC3_RAM_ENABLED = Inr (of_bool (ram_enabled m))"
    "view_before row STATE_MBC3_ROM_BANK = Inr (of_nat (unat (rom_bank m)))"
    "view_before row STATE_MBC3_RAM_RTC_SELECT = Inr (of_nat (unat (ram_rtc_select m)))"
    using assms(6) view_state_exact(1) [OF assms(2)] state_columns_small by (simp_all add: mapper_at_def)
  have nibble: "packed_bits row (TRACE_BUS_VALUE_BITS_START + slot * 8) 4 = Inr (of_nat (unat (take_bit 4 (slot_byte row slot))))"
    by (rule value_bits_exact(1) [OF assms(2-4)]) simp
  note exact = kind cols(1) [of 13] cols(1) [of 14] cols(1) [of 15] physical ram_enable_exact [OF assms(2-4)] before
    mapped_bank_exact [OF assms(1-5)] nibble
  show ?thesis
    using address_segments [of "slot_address row slot AND 0x7fff"] low_address(1) [of 13 "slot_address row slot"]
      low_address(1) [of 14 "slot_address row slot"] low_address(2) [of "slot_address row slot"]
    by (auto simp: mapper_update_slot_def control_segments_def exact control_delta_def apply_control_write_for_def Let_def low_bits_and
        simp del: of_nat_unat)
qed

text \<open>The five slots together.\<close>

lemma mapper_slots_exact:
  assumes "separates TYPE('f::field) 4" "wide row" "\<forall>slot < 5. slot_ok row slot"
    "profile_at row TRACE_BEFORE_STATE_START p" "mapper_at row TRACE_BEFORE_STATE_START m" "k \<le> 5"
  shows "try_fold (mapper_update_slot (row :: 'f list)) ((0, 0, 0, 0), []) [0..<k] =
    Inr ((\<Sum>slot < k. fst (control_delta p row m slot), \<Sum>slot < k. fst (snd (control_delta p row m slot)),
          \<Sum>slot < k. fst (snd (snd (control_delta p row m slot))), \<Sum>slot < k. snd (snd (snd (control_delta p row m slot)))),
      concat (map (\<lambda>slot.
        [of_bool (slot_kind row slot = 8) * of_bool (bit (slot_address row slot) 15),
         of_bool (slot_kind row slot = 8) * slot_field row slot BUS_PHYSICAL_ADDRESS_OFFSET]) [0..<k]))"
  using assms(6)
proof (induction k)
  case (Suc k)
  then have "k < 5" "slot_ok row k" using assms(3) by simp_all
  from mapper_slot_exact [OF assms(1,2) this assms(4,5)] Suc show ?case
    by (cases "control_delta p row m k") (simp add: try_fold_append)
qed simp

definition control_slots :: "'f::field list \<Rightarrow> nat list" where
  "control_slots row = filter (\<lambda>slot. slot_kind row slot = 8) [0..<5]"

definition replay_controls :: "machine_profile \<Rightarrow> 'f::field list \<Rightarrow> mbc3_state \<Rightarrow> mbc3_state" where
  "replay_controls p row m =
     fold (\<lambda>slot. apply_control_write_for (cartridge_profile p) (slot_address row slot) (slot_byte row slot)) (control_slots row) m"

lemma sum_slots:
  fixes f :: "nat \<Rightarrow> 'f::field"
  assumes "\<And>slot. slot_kind row slot \<noteq> 8 \<Longrightarrow> f slot = 0"
  shows "(\<Sum>slot < 5. f slot) = (\<Sum>slot\<leftarrow>control_slots row. f slot)"
proof -
  have "(\<Sum>slot < 5. f slot) = (\<Sum>slot\<leftarrow>[0..<5]. f slot)" by (simp add: interv_sum_list_conv_sum_set_nat atLeast0LessThan del: upt_Suc)
  also have "\<dots> = (\<Sum>slot\<leftarrow>filter (\<lambda>slot. slot_kind row slot = 8) xs. f slot) + (\<Sum>slot\<leftarrow>[0..<5]. f slot) - (\<Sum>slot\<leftarrow>xs. f slot)" for xs
    using assms by (induction xs) auto
  from this [of "[0..<5]"] show ?thesis unfolding control_slots_def calculation by simp
qed

lemma control_sums:
  "(\<Sum>slot < 5. fst (control_delta p row m slot)) = of_nat (length (control_slots row))"
  "(\<Sum>slot < 5. fst (snd (control_delta p row m slot))) = (\<Sum>slot\<leftarrow>control_slots row. fst (snd (control_delta p row m slot)))"
  "(\<Sum>slot < 5. fst (snd (snd (control_delta p row m slot)))) = (\<Sum>slot\<leftarrow>control_slots row. fst (snd (snd (control_delta p row m slot))))"
  "(\<Sum>slot < 5. snd (snd (snd (control_delta p row m slot)))) = (\<Sum>slot\<leftarrow>control_slots row. snd (snd (snd (control_delta p row m slot))))"
proof -
  let ?d = "control_delta p row m"
  have none: "?d slot = (0, 0, 0, 0)" if "slot_kind row slot \<noteq> 8" for slot using that by (simp add: control_delta_def)
  have "(\<Sum>slot\<leftarrow>control_slots row. fst (?d slot)) = (\<Sum>slot\<leftarrow>control_slots row. 1)"
    by (intro arg_cong [where f = sum_list] map_cong) (auto simp: control_slots_def control_delta_def Let_def)
  moreover have "(\<Sum>slot < 5. fst (?d slot)) = (\<Sum>slot\<leftarrow>control_slots row. fst (?d slot))" by (rule sum_slots) (simp add: none)
  ultimately show "(\<Sum>slot < 5. fst (?d slot)) = of_nat (length (control_slots row))" by (simp add: sum_list_triv)
  show "(\<Sum>slot < 5. fst (snd (?d slot))) = (\<Sum>slot\<leftarrow>control_slots row. fst (snd (?d slot)))"
    "(\<Sum>slot < 5. fst (snd (snd (?d slot)))) = (\<Sum>slot\<leftarrow>control_slots row. fst (snd (snd (?d slot))))"
    "(\<Sum>slot < 5. snd (snd (snd (?d slot)))) = (\<Sum>slot\<leftarrow>control_slots row. snd (snd (snd (?d slot))))"
    by (rule sum_slots, simp add: none)+
qed

lemma control_count_boolean:
  assumes "separates TYPE('f::field) 5"
  shows "boolean (of_nat (length (control_slots row)) :: 'f) = 0 \<longleftrightarrow> length (control_slots row) \<le> 1"
proof -
  have "length (control_slots row) \<le> length [0..<5 :: nat]" unfolding control_slots_def by (rule length_filter_le)
  then have "of_nat (length (control_slots row)) = (of_nat k :: 'f) \<longleftrightarrow> length (control_slots row) = k" if "k \<le> 5" for k
    using assms that by (auto simp: separates_def inj_on_def)
  from this [of 0] this [of 1] show ?thesis by (auto simp: le_Suc_eq)
qed

text \<open>The pushed values vanish when each register moves by the sum of its control writes.\<close>

lemma mapper_updates_sums:
  assumes "separates TYPE('f::field) 5" "wide row" "\<forall>slot < 5. slot_ok row slot"
    "profile_at row TRACE_BEFORE_STATE_START p" "mapper_at row TRACE_BEFORE_STATE_START m"
  shows "vanishes (constrain_mapper_updates (row :: 'f list)) \<longleftrightarrow>
      (\<forall>slot \<in> set (control_slots row). slot_address row slot \<le> 0x7fff \<and> slot_field row slot BUS_PHYSICAL_ADDRESS_OFFSET = 0) \<and>
      length (control_slots row) \<le> 1 \<and>
      row ! (TRACE_AFTER_STATE_START + STATE_MBC3_RAM_ENABLED) =
        of_bool (ram_enabled m) + (\<Sum>slot\<leftarrow>control_slots row. fst (snd (control_delta p row m slot))) \<and>
      row ! (TRACE_AFTER_STATE_START + STATE_MBC3_ROM_BANK) =
        of_nat (unat (rom_bank m)) + (\<Sum>slot\<leftarrow>control_slots row. fst (snd (snd (control_delta p row m slot)))) \<and>
      row ! (TRACE_AFTER_STATE_START + STATE_MBC3_RAM_RTC_SELECT) =
        of_nat (unat (ram_rtc_select m)) + (\<Sum>slot\<leftarrow>control_slots row. snd (snd (snd (control_delta p row m slot))))"
proof -
  let ?d = "control_delta p row m" and ?s = "control_slots row"
  let ?pushed = "concat (map (\<lambda>slot. [of_bool (slot_kind row slot = 8) * of_bool (bit (slot_address row slot) 15),
      of_bool (slot_kind row slot = 8) * slot_field row slot BUS_PHYSICAL_ADDRESS_OFFSET]) [0..<5])"
  have sep: "separates TYPE('f) 4" by (rule separates_mono [OF assms(1)]) simp
  have five_slots: "TRACE_BUS_SLOTS = 5" by (simp add: column_layout)
  note before = view_state_exact(1) [OF assms(2)] and after = view_state_exact(2) [OF assms(2)]
  note m = assms(5) [unfolded mapper_at_def]
  have run: "constrain_mapper_updates row = Inr (?pushed @
      [boolean (of_nat (length ?s)),
       row ! (TRACE_AFTER_STATE_START + STATE_MBC3_RAM_ENABLED) - of_bool (ram_enabled m) - (\<Sum>slot\<leftarrow>?s. fst (snd (?d slot))),
       row ! (TRACE_AFTER_STATE_START + STATE_MBC3_ROM_BANK) - of_nat (unat (rom_bank m)) - (\<Sum>slot\<leftarrow>?s. fst (snd (snd (?d slot)))),
       row ! (TRACE_AFTER_STATE_START + STATE_MBC3_RAM_RTC_SELECT) - of_nat (unat (ram_rtc_select m)) - (\<Sum>slot\<leftarrow>?s. snd (snd (snd (?d slot))))])"
    unfolding constrain_mapper_updates_def five_slots mapper_slots_exact [OF sep assms(2-5) order_refl] control_sums
    by (simp only: and_then_simps prod.case before after state_columns_small m)
  have slots: "(\<forall>v \<in> set ?pushed. v = 0) \<longleftrightarrow>
      (\<forall>slot \<in> set ?s. slot_address row slot \<le> 0x7fff \<and> slot_field row slot BUS_PHYSICAL_ADDRESS_OFFSET = 0)"
    by (auto simp: control_slots_def address_segments(4) simp del: upt_Suc)
  have diff: "a - b - c = 0 \<longleftrightarrow> a = b + c" for a b c :: 'f by (simp add: algebra_simps)
  show ?thesis
    unfolding run vanishes_Inr set_append ball_Un slots
    by (simp only: list.set ball_simps control_count_boolean [OF assms(1)] diff simp_thms)
qed

lemma mapper_updates_vanish:
  assumes "separates TYPE('f::field) 5" "wide row" "\<forall>slot < 5. slot_ok row slot"
    "profile_at row TRACE_BEFORE_STATE_START p" "mapper_at row TRACE_BEFORE_STATE_START m"
  shows "vanishes (constrain_mapper_updates (row :: 'f list)) \<longleftrightarrow>
    length (control_slots row) \<le> 1 \<and>
    (\<forall>slot \<in> set (control_slots row). slot_address row slot \<le> 0x7fff \<and> slot_field row slot BUS_PHYSICAL_ADDRESS_OFFSET = 0) \<and>
    mapper_at row TRACE_AFTER_STATE_START (replay_controls p row m)"
proof (cases "control_slots row")
  case Nil
  then show ?thesis unfolding mapper_updates_sums [OF assms] by (simp add: replay_controls_def mapper_at_def)
next
  case (Cons slot rest)
  have "replay_controls p row m = apply_control_write_for (cartridge_profile p) (slot_address row slot AND 0x7fff) (slot_byte row slot) m"
    if "rest = []" "slot_address row slot \<le> 0x7fff"
    using that Cons low_address(3) by (simp add: replay_controls_def)
  moreover have "slot \<in> set (control_slots row)" using Cons by simp
  then have "slot_kind row slot = 8" by (simp add: control_slots_def)
  ultimately show ?thesis unfolding mapper_updates_sums [OF assms] Cons
    by (cases rest) (auto simp: mapper_at_def control_delta_def Let_def simp del: of_nat_unat)
qed

end
