(* ===== verification/Mapper_Windows.thy ===== *)
theory Mapper_Windows
  imports Mapper_Exact
begin

text \<open>
  The ROM window and the external RAM window of the mapper constraints, against the address maps
  of \<open>Mbc3\<close>.
\<close>

section \<open>ROM\<close>

lemma of_nat_equal:
  assumes "separates TYPE('f::field) n" "a \<le> n" "b \<le> n"
  shows "(of_nat a :: 'f) = of_nat b \<longleftrightarrow> a = b"
  using assms by (auto simp: separates_def inj_on_def)

lemma byte_le: "unat (b :: u8) \<le> 255"
  using unat_less_256 [of b] by linarith

lemma address_bits_exact:
  assumes "wide row" "slot < 5" "slot_ok row slot"
  shows "packed_bits row (TRACE_BUS_ADDRESS_BITS_START + slot * 16) 16 = Inr (of_nat (unat (slot_address row slot)))"
    "packed_bits row (TRACE_BUS_PHYSICAL_BITS_START + slot * ROM_ADDRESS_BIT_COUNT) ROM_ADDRESS_BIT_COUNT = Inr (of_nat (slot_physical row slot))"
  using packed_bits_exact [OF assms(1) slot_bounds(1) [OF assms(2)]] packed_bits_exact [OF assms(1) slot_bounds(2) [OF assms(2)]] assms(3)
  by (simp_all add: slot_ok_def slot_numbers slot_physical_def)

lemma map_rom_number:
  assumes "a \<le> 0x7fff" "0 < unat (rom_bank m)"
  shows "unat (map_rom_for m profile a) = unat a + of_bool (bit a 14) * (unat (rom_bank m) - 1) * 0x4000"
proof -
  have "bit a 14 \<longleftrightarrow> \<not> unat a < 0x4000" using assms(1) address_segments(2,4) [of a] by (auto simp: word_le_nat_alt)
  with assms(2) show ?thesis by (simp add: unat_map_rom_for diff_mult_distrib add.commute)
qed

lemma rom_slot_vanishes:
  assumes "separates TYPE('f::field) (2 ^ 21)" "wide row" "slot < 5" "slot_ok row slot"
    "0 < unat (rom_bank m)" "unat (rom_bank m) \<le> 63"
  shows "vanishes (rom_mapping_slot (row :: 'f list) (of_nat (unat (rom_bank m))) slot) \<longleftrightarrow>
    (slot_kind row slot \<in> {1, 2, 3, 16} \<longrightarrow>
      slot_address row slot \<le> 0x7fff \<and> slot_physical row slot = unat (map_rom_for m profile (slot_address row slot)))"
proof -
  let ?a = "slot_address row slot" and ?p = "slot_physical row slot" and ?b = "unat (rom_bank m)"
  let ?n = "unat ?a + of_bool (bit ?a 14) * (?b - 1) * 0x4000"
  have "?p \<le> 2 ^ 21"
    using bits_value_less [of row "TRACE_BUS_PHYSICAL_BITS_START + slot * ROM_ADDRESS_BIT_COUNT" ROM_ADDRESS_BIT_COUNT]
    unfolding slot_physical_def ROM_ADDRESS_BIT_COUNT_def by simp
  moreover have "?n \<le> 2 ^ 21"
  proof -
    have "unat ?a < 65536" by (rule unat_less_65536)
    moreover have "of_bool (bit ?a 14) * (?b - 1) \<le> 62" using assms(6) by (cases "bit ?a 14") simp_all
    ultimately have "?n \<le> 65536 + 62 * 0x4000" by (intro add_mono mult_le_mono1) linarith+
    then show ?thesis by (rule order_trans) simp
  qed
  ultimately have number: "(of_nat ?p :: 'f) = of_nat ?n \<longleftrightarrow> ?p = ?n" by (rule of_nat_equal [OF assms(1)])
  have bank: "(of_nat (?b - 1) :: 'f) = of_nat ?b - 1" using assms(5) by (cases ?b) simp_all
  have expected: "of_nat (unat ?a) + of_bool (bit ?a 14) * (of_nat ?b - 1) * 0x4000 = (of_nat ?n :: 'f)"
    unfolding of_nat_add of_nat_mult bank of_nat_of_bool of_nat_numeral ..
  have selected: "view_value row (TRACE_ROM_SELECTOR_START + slot) = Inr (of_bool (slot_kind row slot \<in> {1, 2, 3, 16}))"
    using view_value_wide [OF assms(2) slot_bounds(5) [OF assms(3)]] assms(4) by (simp add: slot_ok_def)
  have bits: "view_value row (TRACE_BUS_ADDRESS_BITS_START + slot * 16 + 14) = Inr (of_bool (bit ?a 14))"
    "view_value row (TRACE_BUS_ADDRESS_BITS_START + slot * 16 + 15) = Inr (of_bool (bit ?a 15))"
    by (rule slot_columns(1) [OF assms(2-4)], simp)+
  have run: "rom_mapping_slot row (of_nat ?b) slot = Inr
      [of_bool (slot_kind row slot \<in> {1, 2, 3, 16}) * of_bool (bit ?a 15), of_bool (slot_kind row slot \<in> {1, 2, 3, 16}) * (of_nat ?p - of_nat ?n)]"
    unfolding rom_mapping_slot_def Let_def selected address_bits_exact [OF assms(2-4)] and_then_simps bits expected ..
  have "vanishes (rom_mapping_slot row (of_nat ?b) slot) \<longleftrightarrow>
      (slot_kind row slot \<in> {1, 2, 3, 16} \<longrightarrow> \<not> bit ?a 15 \<and> of_nat ?p = (of_nat ?n :: 'f))"
    unfolding run vanishes_Inr list.set ball_simps by (cases "slot_kind row slot \<in> {1, 2, 3, 16}") (simp_all only: of_bool_eq mult_1 mult_zero_left simp_thms right_minus_eq of_bool_eq_0_iff)
  then show ?thesis unfolding number using map_rom_number [OF _ assms(5), of ?a profile] address_segments(4) [of ?a] by metis
qed

lemma rom_mapping_vanishes:
  assumes "separates TYPE('f::field) (2 ^ 21)" "wide row" "\<forall>slot < 5. slot_ok row slot"
    "mapper_at row TRACE_BEFORE_STATE_START m" "0 < unat (rom_bank m)" "unat (rom_bank m) \<le> 63"
  shows "vanishes (constrain_rom_mapping (row :: 'f list)) \<longleftrightarrow>
    (\<forall>slot < 5. slot_kind row slot \<in> {1, 2, 3, 16} \<longrightarrow>
      slot_address row slot \<le> 0x7fff \<and> slot_physical row slot = unat (map_rom_for m profile (slot_address row slot)))"
proof -
  have "view_before row STATE_MBC3_ROM_BANK = Inr (of_nat (unat (rom_bank m)))"
    using assms(4) view_state_exact(1) [OF assms(2) state_columns_small(2)] by (simp add: mapper_at_def)
  moreover have "TRACE_BUS_SLOTS = 5" by (simp add: column_layout)
  ultimately show ?thesis
    using rom_slot_vanishes [OF assms(1,2) _ _ assms(5,6), of _ profile] assms(3) by (auto simp: constrain_rom_mapping_def)
qed

section \<open>External RAM\<close>

text \<open>The selection bits are the selection register.\<close>

lemma select_bits_exact:
  assumes "separates TYPE('f::field) 255" "wide row" "vanishes (constrain_mapper_ranges (row :: 'f list))" "mapper_at row TRACE_BEFORE_STATE_START m"
  shows "bits_ok row TRACE_BEFORE_RAM_RTC_BITS_START 4" "bits_value row TRACE_BEFORE_RAM_RTC_BITS_START 4 = unat (ram_rtc_select m)"
proof -
  have bound: "TRACE_BEFORE_RAM_RTC_BITS_START + 4 \<le> TRACE_ROW_BITS_START" by (simp add: column_layout)
  have range: "vanishes (constrain_select_range row (view_before row STATE_MBC3_RAM_RTC_SELECT) TRACE_BEFORE_RAM_RTC_BITS_START)"
    using assms(3) by (simp add: constrain_mapper_ranges_def)
  then show ok: "bits_ok row TRACE_BEFORE_RAM_RTC_BITS_START 4"
    by (simp add: constrain_select_range_def bit_range_vanishes [OF assms(2) bound])
  have "view_before row STATE_MBC3_RAM_RTC_SELECT = Inr (of_nat (unat (ram_rtc_select m)))"
    using assms(4) view_state_exact(1) [OF assms(2) state_columns_small(3)] by (simp add: mapper_at_def)
  with range have "(of_nat (unat (ram_rtc_select m)) :: 'f) = of_nat (bits_value row TRACE_BEFORE_RAM_RTC_BITS_START 4)"
    by (simp add: constrain_select_range_def packed_bits_exact [OF assms(2) bound ok] del: of_nat_unat)
  moreover have "bits_value row TRACE_BEFORE_RAM_RTC_BITS_START 4 \<le> 255"
    using bits_value_less [of row TRACE_BEFORE_RAM_RTC_BITS_START 4] by simp
  moreover note byte_le [of "ram_rtc_select m"]
  ultimately show "bits_value row TRACE_BEFORE_RAM_RTC_BITS_START 4 = unat (ram_rtc_select m)"
    using of_nat_equal [OF assms(1)] by metis
qed

lemma nibble_selector_exact:
  assumes "wide row" "start + 4 \<le> TRACE_ROW_BITS_START" "bits_ok row start 4" "unat v < 16"
  shows "nibble_selector row start v = Inr (of_bool (bits_value row start 4 = unat v))"
proof -
  have "try_fold (\<lambda>product bit_index. and_then (view_value row (start + bit_index)) (\<lambda>witness.
       Inr (product * (if bit v bit_index then witness else 1 - witness)))) 1 [0..<k] =
      Inr (of_bool (\<forall>i < k. (row ! (start + i) = 1) = bit v i))" if "k \<le> 4" for k
    using that
  proof (induction k)
    case (Suc k)
    have "view_value row (start + k) = Inr (row ! (start + k))" using Suc.prems assms(1,2) by (simp add: view_value_wide)
    moreover have "row ! (start + k) = 0 \<or> row ! (start + k) = 1" using Suc.prems assms(3) by (simp add: bits_ok_def)
    ultimately show ?case using Suc by (auto simp: try_fold_append less_Suc_eq)
  qed simp
  moreover have "bits_value row start 4 = unat v \<longleftrightarrow> (\<forall>i < 4. (row ! (start + i) = 1) = bit v i)"
  proof -
    have "bit (unat v) i \<longleftrightarrow> i < 4 \<and> bit v i" for i
    proof -
      have "take_bit 4 (unat v) = unat v" using assms(4) by (simp add: take_bit_nat_eq_self)
      then have "bit (unat v) i \<longleftrightarrow> i < 4 \<and> bit (unat v) i" by (metis bit_take_bit_iff)
      then show ?thesis by (simp add: bit_unsigned_iff)
    qed
    then show ?thesis by (auto simp: bit_eq_iff)
  qed
  ultimately show ?thesis by (simp add: nibble_selector_def del: upt_Suc)
qed

lemma rtc_selected_exact:
  assumes "wide row" "start + 4 \<le> TRACE_ROW_BITS_START" "bits_ok row start 4"
  shows "rtc_register_selected row start = Inr (of_bool (8 \<le> bits_value row start 4 \<and> bits_value row start 4 \<le> 12))"
proof -
  let ?n = "bits_value row start 4"
  have "8 \<le> ?n \<and> ?n \<le> 12 \<longleftrightarrow> ?n = 8 \<or> ?n = 9 \<or> ?n = 10 \<or> ?n = 11 \<or> ?n = 12" by linarith
  then show ?thesis by (auto simp: rtc_register_selected_def nibble_selector_exact [OF assms])
qed

text \<open>Addresses of the external window by their top bits.\<close>

lemma external_addresses: "(0xa000 \<le> (a :: u16) \<and> a \<le> 0xbfff) \<longleftrightarrow> bit a 15 \<and> \<not> bit a 14 \<and> bit a 13"
proof -
  define q where "q = unat a div 8192"
  have "unat a < 65536" by (rule unat_less_65536)
  then have q: "q < 8" unfolding q_def by (simp add: less_mult_imp_div_less)
  have bits: "bit a 13 \<longleftrightarrow> odd q" "bit a 14 \<longleftrightarrow> odd (q div 2)" "bit a 15 \<longleftrightarrow> odd (q div 4)"
    unfolding word_bit_odd q_def by (simp_all add: div_mult2_eq [symmetric])
  have bounds: "40960 \<le> unat a \<and> unat a \<le> 49151 \<longleftrightarrow> q = 5" unfolding q_def by linarith
  have "q = 0 \<or> q = 1 \<or> q = 2 \<or> q = 3 \<or> q = 4 \<or> q = 5 \<or> q = 6 \<or> q = 7" using q by linarith
  then show ?thesis using bounds by (auto simp: word_le_nat_alt bits)
qed

definition ignored_fields :: "'f::zero list \<Rightarrow> nat \<Rightarrow> bool" where
  "ignored_fields row slot \<longleftrightarrow> slot_field row slot BUS_PHYSICAL_ADDRESS_OFFSET = 0 \<and> slot_field row slot BUS_BEFORE_OFFSET = 0 \<and>
     slot_field row slot BUS_AUXILIARY_OFFSET = 0 \<and> slot_field row slot BUS_INDEX_OFFSET = 0"

lemma external_slot_vanishes:
  assumes "separates TYPE('f::field) 255" "wide row" "slot < 5" "slot_ok row slot"
  shows "vanishes (external_ram_slot (row :: 'f list) (of_bool available) (of_bool rtc_selected) (of_bool rtc_profile) slot) \<longleftrightarrow>
    (slot_kind row slot = 9 \<or> slot_kind row slot = 10 \<longrightarrow>
      0xa000 \<le> slot_address row slot \<and> slot_address row slot \<le> 0xbfff \<and> \<not> available \<and> \<not> (rtc_profile \<and> rtc_selected) \<and>
      ignored_fields row slot \<and> (slot_kind row slot = 9 \<longrightarrow> slot_byte row slot = 0xff))"
proof -
  have kinds: "bus_kind_selector row slot 9 = Inr (of_bool (slot_kind row slot = 9))" "bus_kind_selector row slot 10 = Inr (of_bool (slot_kind row slot = 10))"
    using bus_kind_selector_exact [OF assms(2,3), of 9] bus_kind_selector_exact [OF assms(2,3), of 10] assms(4) by (simp_all add: slot_ok_def)
  note fields = bus_field_exact [OF assms(2,3)] offset_bounds
  have byte: "slot_field row slot BUS_VALUE_OFFSET = 0xff \<longleftrightarrow> slot_byte row slot = 0xff"
  proof -
    have "slot_field row slot BUS_VALUE_OFFSET = of_nat (unat (slot_byte row slot))" using assms(4) by (simp add: slot_ok_def)
    moreover have "of_nat (unat (slot_byte row slot)) = (of_nat 255 :: 'f) \<longleftrightarrow> unat (slot_byte row slot) = 255"
      by (rule of_nat_equal [OF assms(1) byte_le]) simp
    ultimately show ?thesis by (simp add: word_unat_eq_iff)
  qed
  have bits: "view_value row (TRACE_BUS_ADDRESS_BITS_START + slot * 16 + 15) = Inr (of_bool (bit (slot_address row slot) 15))"
    "view_value row (TRACE_BUS_ADDRESS_BITS_START + slot * 16 + 14) = Inr (of_bool (bit (slot_address row slot) 14))"
    "view_value row (TRACE_BUS_ADDRESS_BITS_START + slot * 16 + 13) = Inr (of_bool (bit (slot_address row slot) 13))"
    by (rule slot_columns(1) [OF assms(2-4)], simp)+
  have run: "external_ram_slot row (of_bool available) (of_bool rtc_selected) (of_bool rtc_profile) slot = Inr
      (let s = of_bool (slot_kind row slot = 9) + of_bool (slot_kind row slot = 10); a = slot_address row slot in
       [s * (1 - of_bool (bit a 15)), s * of_bool (bit a 14), s * (1 - of_bool (bit a 13)), s * of_bool available,
        s * slot_field row slot BUS_PHYSICAL_ADDRESS_OFFSET, s * slot_field row slot BUS_BEFORE_OFFSET,
        s * slot_field row slot BUS_AUXILIARY_OFFSET, s * slot_field row slot BUS_INDEX_OFFSET,
        s * of_bool rtc_profile * of_bool rtc_selected, of_bool (slot_kind row slot = 9) * (slot_field row slot BUS_VALUE_OFFSET - 0xff)])"
    by (simp only: external_ram_slot_def kinds and_then_simps Let_def bits fields)
  show ?thesis
    unfolding run vanishes_Inr Let_def using byte external_addresses [of "slot_address row slot"]
    by (cases "slot_kind row slot = 9"; cases "slot_kind row slot = 10") (auto simp: ignored_fields_def simp del: of_nat_unat)
qed

lemma external_policy_vanishes:
  assumes "separates TYPE('f::field) 255" "wide row" "\<forall>slot < 5. slot_ok row slot" "vanishes (constrain_mapper_ranges (row :: 'f list))"
    "profile_at row TRACE_BEFORE_STATE_START p" "mapper_at row TRACE_BEFORE_STATE_START m"
  shows "vanishes (constrain_external_ram_policy row) \<longleftrightarrow>
    (\<forall>slot < 5. slot_kind row slot = 9 \<or> slot_kind row slot = 10 \<longrightarrow>
      0xa000 \<le> slot_address row slot \<and> slot_address row slot \<le> 0xbfff \<and> \<not> (ram_enabled m \<and> ram_rtc_select m \<le> 3) \<and>
      \<not> (prof_rtc (cartridge_profile p) = RtcCapable \<and> 8 \<le> ram_rtc_select m \<and> ram_rtc_select m \<le> 12) \<and>
      ignored_fields row slot \<and> (slot_kind row slot = 9 \<longrightarrow> slot_byte row slot = 0xff))"
proof -
  let ?n = "unat (ram_rtc_select m)"
  have sep: "separates TYPE('f) 4" by (rule separates_mono [OF assms(1)]) simp
  have bound: "TRACE_BEFORE_RAM_RTC_BITS_START + 4 \<le> TRACE_ROW_BITS_START" by (simp add: column_layout)
  note select = select_bits_exact [OF assms(1,2,4,6)]
  have bit: "view_value row (TRACE_BEFORE_RAM_RTC_BITS_START + k) = Inr (of_bool (bit ?n k))" if "k < 4" for k
    using view_value_wide [OF assms(2), of "TRACE_BEFORE_RAM_RTC_BITS_START + k"] bound that bits_column [OF select(1) that] select(2) by simp
  have two: "view_value row (TRACE_BEFORE_RAM_RTC_BITS_START + 2) = Inr (of_bool (bit ?n 2))" by (rule bit) simp
  have three: "view_value row (TRACE_BEFORE_RAM_RTC_BITS_START + 3) = Inr (of_bool (bit ?n 3))" by (rule bit) simp
  have slots: "TRACE_BUS_SLOTS = 5" by (simp add: column_layout)
  have small: "?n < 16" using bits_value_less [of row TRACE_BEFORE_RAM_RTC_BITS_START 4] select(2) by simp
  have low: "\<not> bit ?n 2 \<and> \<not> bit ?n 3 \<longleftrightarrow> ?n \<le> 3"
  proof -
    have "?n \<in> {..<16}" using small by simp
    moreover have "\<forall>k \<in> {..<16 :: nat}. \<not> bit k 2 \<and> \<not> bit k 3 \<longleftrightarrow> k \<le> 3" by (simp add: lessThan_nat_numeral lessThan_Suc bit_iff_odd)
    ultimately show ?thesis by blast
  qed
  have ram: "view_before row STATE_MBC3_RAM_ENABLED = Inr (of_bool (ram_enabled m))"
    using assms(6) view_state_exact(1) [OF assms(2) state_columns_small(1)] by (simp add: mapper_at_def)
  have available: "of_bool (ram_enabled m) * (1 - of_bool (bit ?n 2)) * (1 - of_bool (bit ?n 3)) = (of_bool (ram_enabled m \<and> ?n \<le> 3) :: 'f)"
    unfolding low [symmetric] by (auto simp: of_bool_def)
  have "constrain_external_ram_policy row = emit_each (external_ram_slot row (of_bool (ram_enabled m \<and> ?n \<le> 3)) (of_bool (8 \<le> ?n \<and> ?n \<le> 12))
      (of_bool (prof_rtc (cartridge_profile p) = RtcCapable))) [0..<5]"
    unfolding constrain_external_ram_policy_def ram two three and_then_simps Let_def available
      rtc_selected_exact [OF assms(2) bound select(1)] select(2) profile_kinds [OF sep assms(2,5)] slots ..
  moreover have "ram_rtc_select m \<le> 3 \<longleftrightarrow> ?n \<le> 3" "8 \<le> ram_rtc_select m \<longleftrightarrow> 8 \<le> ?n" "ram_rtc_select m \<le> 12 \<longleftrightarrow> ?n \<le> 12"
    by (simp_all add: word_le_nat_alt)
  ultimately show ?thesis using external_slot_vanishes [OF assms(1,2)] assms(3) by (auto simp del: of_bool_conj)
qed

end
