(* ===== verification/Row_Examples.thy ===== *)
theory Row_Examples
  imports Mapper_Windows
begin

text \<open>
  Canonical encodings satisfy the bus and range constraints; with them, concrete rows.
\<close>

section \<open>Encodings\<close>

lemma encoded_bits:
  assumes "\<forall>k < w. row ! (start + k) = of_bool (bit n k)"
  shows "bits_ok row start w" "bits_value row start w = take_bit w n"
  using assms by (auto simp: bits_ok_def bit_eq_iff bit_take_bit_iff)

lemma encoded_bus:
  assumes "wide row" "\<forall>slot < 5. slot_ok row slot" "row ! (TRACE_MODE_START + mode_index Mode_Instruction) = 0"
    "\<forall>slot < 4. slot_kind row slot = 0 \<longrightarrow> slot_kind row (Suc slot) = 0"
  shows "vanishes (constrain_bus row)"
proof -
  have slots: "TRACE_BUS_SLOTS = 5" by (simp add: column_layout)
  have active: "try_map (\<lambda>slot. bus_field row slot 0) [0..<5] = Inr (map (\<lambda>slot. of_bool (slot_kind row slot \<noteq> 0)) [0..<5])"
    using assms(2) by (intro try_map_total) (simp add: bus_field_exact [OF assms(1)] slot_ok_def)
  have order: "vanishes (Inr (map2 (\<lambda>prior later. later * (1 - prior)) actives (tl actives)))"
    if "actives = map (\<lambda>slot. of_bool (slot_kind row slot \<noteq> 0)) [0..<5]" for actives :: "'a list"
    unfolding that using assms(4) by (auto simp: upt_rec eval_nat_numeral less_Suc_eq)
  have count: "\<exists>v. try_fold (\<lambda>count code. and_then (bit_selector bits code) (\<lambda>s. Inr (count + s))) a codes = Inr v"
    if "bits \<noteq> []" "length bits \<le> 8" for a :: 'a and bits codes
    using that by (induction codes arbitrary: a) (auto simp: bit_selector_def)
  have category: "\<exists>v. bus_category row codes = Inr v" for codes
  proof -
    have "\<exists>v. try_fold (\<lambda>count slot. and_then (bus_kind_bits row slot) (\<lambda>bits.
        try_fold (\<lambda>count code. and_then (bit_selector bits code) (\<lambda>s. Inr (count + s))) count codes)) a xs = Inr v"
      if "set xs \<subseteq> {..<5}" for a xs
      using that
    proof (induction xs arbitrary: a)
      case (Cons slot xs)
      then have "bus_kind_bits row slot = Inr (map (\<lambda>k. row ! (TRACE_BUS_START + slot * TRACE_BUS_SLOT_WIDTH + 1 + k)) [0..<TRACE_BUS_KIND_BITS])"
        by (intro bus_kind_bits_exact [OF assms(1)]) simp
      moreover obtain v where "try_fold (\<lambda>count code. and_then (bit_selector (map (\<lambda>k. row ! (TRACE_BUS_START + slot * TRACE_BUS_SLOT_WIDTH + 1 + k))
          [0..<TRACE_BUS_KIND_BITS]) code) (\<lambda>s. Inr (count + s))) a codes = Inr v"
        using count [of "map (\<lambda>k. row ! (TRACE_BUS_START + slot * TRACE_BUS_SLOT_WIDTH + 1 + k)) [0..<TRACE_BUS_KIND_BITS]" a codes]
        by (auto simp: TRACE_BUS_KIND_BITS_def)
      ultimately show ?case using Cons by simp
    qed simp
    from this [of "[0..<5]" 0] show ?thesis by (simp add: bus_category_def slots atLeast0LessThan del: upt_Suc)
  qed
  have isa: "view_isa row i = Inr (row ! (TRACE_ISA_OUTPUT_START + i))" if "i < 38" for i
    using that by (simp add: view_isa_def view_value_wide [OF assms(1)] column_layout)
  have instruction: "view_mode row (mode_index Mode_Instruction) = Inr 0"
    using assms(3) view_value_wide [OF assms(1), of "TRACE_MODE_START + mode_index Mode_Instruction"] by (simp add: view_mode_def column_layout)
  have branch: "view_value row TRACE_BRANCH_TAKEN = Inr (row ! TRACE_BRANCH_TAKEN)"
    by (rule view_value_wide [OF assms(1)]) (simp add: column_layout)
  obtain a b c d where "bus_category row [1, 14] = Inr a" "bus_category row [2, 15] = Inr b"
      "bus_category row [3, 4, 6, 9, 11, 13] = Inr c" "bus_category row [5, 7, 8, 10, 12] = Inr d"
    using category by metis
  moreover have "ISA_OPCODE_FETCHES < 38" "ISA_IMMEDIATE_READS < 38" "ISA_DATA_READS < 38" "ISA_DATA_WRITES < 38"
    "ISA_TAKEN_DATA_READS < 38" "ISA_TAKEN_DATA_WRITES < 38" by (simp_all add: column_layout)
  ultimately have counts: "vanishes (constrain_instruction_bus_counts row actives)" for actives
    by (simp add: constrain_instruction_bus_counts_def instruction [simplified] branch isa Let_def)
  have "\<forall>slot \<in> set [0..<5]. vanishes (constrain_slot row slot)" using assms(2) slot_constraints [OF assms(1)] by auto
  then show ?thesis
    unfolding constrain_bus_def slots vanishes_then active and_then_simps using order [OF refl] counts by (simp del: upt_Suc)
qed

definition bank_bits_ok :: "'f::field list \<Rightarrow> nat \<Rightarrow> nat \<Rightarrow> mbc3_state \<Rightarrow> bool" where
  "bank_bits_ok row banks selects m \<longleftrightarrow> bits_ok row banks 6 \<and> bits_value row banks 6 = unat (rom_bank m) \<and>
     bits_ok row selects 4 \<and> bits_value row selects 4 = unat (ram_rtc_select m)"

lemma encoded_ranges:
  assumes "separates TYPE('f::field) 4" "wide (row :: 'f list)"
    and "mbc3_wf (cartridge_profile p) m" "mbc3_wf (cartridge_profile p) m'"
    and "profile_at row TRACE_BEFORE_STATE_START p" "profile_at row TRACE_AFTER_STATE_START p"
    and "mapper_at row TRACE_BEFORE_STATE_START m" "mapper_at row TRACE_AFTER_STATE_START m'"
    and "bank_bits_ok row TRACE_BEFORE_ROM_BANK_BITS_START TRACE_BEFORE_RAM_RTC_BITS_START m"
    and "bank_bits_ok row TRACE_AFTER_ROM_BANK_BITS_START TRACE_AFTER_RAM_RTC_BITS_START m'"
  shows "vanishes (constrain_mapper_ranges row)"
proof -
  note small = state_columns_small
  have bank: "vanishes (constrain_bank_range row (Inr (of_nat (unat (rom_bank s)))) (Inr (of_nat (unat (machine_profile_code p)))) banks)"
    if "bank_bits_ok row banks selects s" "mbc3_wf (cartridge_profile p) s" "banks + 6 \<le> TRACE_ROW_BITS_START" for banks selects s
  proof -
    note bits = that(1) [unfolded bank_bits_ok_def]
    have four: "bits_ok row banks 4" "banks + 4 \<le> TRACE_ROW_BITS_START" using bits bits_ok_prefix [of row banks 6 4] that(3) by simp_all
    have low: "bits_value row banks 4 = unat (rom_bank s)" if "prof_rom_size (cartridge_profile p) = Rom256KiB"
    proof -
      have "unat (rom_bank s) < 16" using \<open>mbc3_wf (cartridge_profile p) s\<close> that by (simp add: mbc3_wf_def word_le_nat_alt)
      then show ?thesis using bits bits_value_prefix [of 4 6 row banks] by (simp add: take_bit_nat_eq_self)
    qed
    have "rom_bank s \<noteq> 0" using that(2) by (simp add: mbc3_wf_def)
    then show ?thesis
      using bits low
      by (simp add: constrain_bank_range_def bit_range_vanishes [OF assms(2) that(3)] packed_bits_exact [OF assms(2) that(3)]
          zero_from_bits_exact [OF assms(2) that(3)] packed_bits_exact [OF assms(2) four(2,1)]
          unat_eq_zero profile_kinds(2) [OF assms(1,2,5)] del: of_nat_unat)
  qed
  have select: "vanishes (constrain_select_range row (Inr (of_nat (unat (ram_rtc_select s)))) selects)"
    if "bank_bits_ok row banks selects s" "selects + 4 \<le> TRACE_ROW_BITS_START" for banks selects s
    using that by (simp add: constrain_select_range_def bank_bits_ok_def bit_range_vanishes [OF assms(2)] packed_bits_exact [OF assms(2)] del: of_nat_unat)
  have ends: "TRACE_BEFORE_ROM_BANK_BITS_START + 6 \<le> TRACE_ROW_BITS_START" "TRACE_AFTER_ROM_BANK_BITS_START + 6 \<le> TRACE_ROW_BITS_START"
    "TRACE_BEFORE_RAM_RTC_BITS_START + 4 \<le> TRACE_ROW_BITS_START" "TRACE_AFTER_RAM_RTC_BITS_START + 4 \<le> TRACE_ROW_BITS_START"
    by (simp_all add: column_layout)
  note state = view_state_exact [OF assms(2) small(1)] view_state_exact [OF assms(2) small(2)] view_state_exact [OF assms(2) small(3)]
    view_state_exact [OF assms(2) small(4)]
  show ?thesis
    unfolding constrain_mapper_ranges_def state assms(5,6) [unfolded profile_at_def] assms(7,8) [unfolded mapper_at_def, THEN conjunct1]
      assms(7,8) [unfolded mapper_at_def, THEN conjunct2, THEN conjunct1] assms(7,8) [unfolded mapper_at_def, THEN conjunct2, THEN conjunct2]
      vanishes_then
    using bank [OF assms(9,3) ends(1)] bank [OF assms(10,4) ends(2)] select [OF assms(9) ends(3)] select [OF assms(10) ends(4)] by simp
qed

section \<open>Rows with few nonzero columns\<close>

lemma column_numbers:
  "TRACE_BEFORE_STATE_START = 0" "TRACE_AFTER_STATE_START = 38" "TRACE_MODE_START = 77" "TRACE_BUS_START = 140" "TRACE_BUS_SLOT_WIDTH = 12"
  "TRACE_BUS_KIND_BITS = 5" "TRACE_BUS_ADDRESS_BITS_START = 480" "TRACE_BUS_PHYSICAL_BITS_START = 560" "ROM_ADDRESS_BIT_COUNT = 20"
  "TRACE_BUS_VALUE_BITS_START = 660" "TRACE_BUS_BEFORE_BITS_START = 700" "TRACE_BEFORE_ROM_BANK_BITS_START = 740"
  "TRACE_AFTER_ROM_BANK_BITS_START = 746" "TRACE_BEFORE_RAM_RTC_BITS_START = 752" "TRACE_AFTER_RAM_RTC_BITS_START = 756"
  "TRACE_ROM_SELECTOR_START = 760" "TRACE_ROM_VALUE_START = 765"
  by (simp_all add: column_layout)

definition sparse_row :: "(nat \<times> nat) list \<Rightarrow> real list" where
  "sparse_row entries = map (\<lambda>i. of_nat (case map_of entries i of Some v \<Rightarrow> v | None \<Rightarrow> 0)) [0..<770]"

lemma sparse_wide: "wide (sparse_row entries)"
  by (simp add: wide_def layout_end sparse_row_def)

lemma sparse_nth: "i < 770 \<Longrightarrow> sparse_row entries ! i = of_nat (case map_of entries i of Some v \<Rightarrow> v | None \<Rightarrow> 0)"
  by (simp add: sparse_row_def)

text \<open>A slot without a nonzero column is an empty slot.\<close>

definition slot_untouched :: "(nat \<times> nat) list \<Rightarrow> nat \<Rightarrow> bool" where
  "slot_untouched entries slot \<longleftrightarrow> (\<forall>i \<in> fst ` set entries.
     \<not> (TRACE_BUS_START + slot * TRACE_BUS_SLOT_WIDTH \<le> i \<and> i < TRACE_BUS_START + slot * TRACE_BUS_SLOT_WIDTH + 12) \<and>
     \<not> (TRACE_BUS_ADDRESS_BITS_START + slot * 16 \<le> i \<and> i < TRACE_BUS_ADDRESS_BITS_START + slot * 16 + 16) \<and>
     \<not> (TRACE_BUS_PHYSICAL_BITS_START + slot * 20 \<le> i \<and> i < TRACE_BUS_PHYSICAL_BITS_START + slot * 20 + 20) \<and>
     \<not> (TRACE_BUS_VALUE_BITS_START + slot * 8 \<le> i \<and> i < TRACE_BUS_VALUE_BITS_START + slot * 8 + 8) \<and>
     \<not> (TRACE_BUS_BEFORE_BITS_START + slot * 8 \<le> i \<and> i < TRACE_BUS_BEFORE_BITS_START + slot * 8 + 8) \<and>
     i \<noteq> TRACE_ROM_SELECTOR_START + slot \<and> i \<noteq> TRACE_ROM_VALUE_START + slot)"

lemma untouched_slot:
  assumes "slot_untouched entries slot" "slot < 5"
  shows "slot_ok (sparse_row entries) slot" "slot_kind (sparse_row entries) slot = 0"
proof -
  let ?row = "sparse_row entries"
  have zero: "?row ! i = 0" if "i \<notin> fst ` set entries" "i < 770" for i
    using that by (auto simp: sparse_nth map_of_eq_None_iff [symmetric])
  note touched = assms(1) [unfolded slot_untouched_def]
  have bits: "bits_ok ?row start w" "bits_value ?row start w = 0"
    if "\<forall>i \<in> fst ` set entries. \<not> (start \<le> i \<and> i < start + w)" "start + w \<le> 770" for start w
  proof -
    have "?row ! (start + k) = 0" if "k < w" for k
      using that \<open>start + w \<le> 770\<close> \<open>\<forall>i \<in> fst ` set entries. \<not> (start \<le> i \<and> i < start + w)\<close> by (intro zero) auto
    then have "\<forall>k < w. ?row ! (start + k) = of_bool (bit 0 k)" by simp
    from encoded_bits [OF this] show "bits_ok ?row start w" "bits_value ?row start w = 0" by simp_all
  qed
  have fields: "slot_field ?row slot offset = 0" if "offset < 12" for offset
    unfolding slot_field_def using that assms(2) touched by (intro zero) (fastforce, simp add: column_layout)
  have bounds: "TRACE_BUS_START + slot * TRACE_BUS_SLOT_WIDTH + 1 + TRACE_BUS_KIND_BITS \<le> 770" "TRACE_BUS_ADDRESS_BITS_START + slot * 16 + 16 \<le> 770"
    "TRACE_BUS_PHYSICAL_BITS_START + slot * 20 + 20 \<le> 770" "TRACE_BUS_VALUE_BITS_START + slot * 8 + 8 \<le> 770"
    "TRACE_BUS_BEFORE_BITS_START + slot * 8 + 8 \<le> 770" "TRACE_ROM_SELECTOR_START + slot < 770" "TRACE_ROM_VALUE_START + slot < 770"
    using assms(2) by (simp_all add: column_layout)
  have kind: "bits_ok ?row (TRACE_BUS_START + slot * TRACE_BUS_SLOT_WIDTH + 1) TRACE_BUS_KIND_BITS" "slot_kind ?row slot = 0"
    unfolding slot_kind_def using bits [OF _ bounds(1)] touched by (fastforce simp: TRACE_BUS_KIND_BITS_def)+
  have rom: "?row ! (TRACE_ROM_SELECTOR_START + slot) = 0" "?row ! (TRACE_ROM_VALUE_START + slot) = 0"
    using zero [OF _ bounds(6)] zero [OF _ bounds(7)] touched by blast+
  have parts: "bits_ok ?row (TRACE_BUS_ADDRESS_BITS_START + slot * 16) 16" "bits_value ?row (TRACE_BUS_ADDRESS_BITS_START + slot * 16) 16 = 0"
    "bits_ok ?row (TRACE_BUS_PHYSICAL_BITS_START + slot * 20) 20" "bits_value ?row (TRACE_BUS_PHYSICAL_BITS_START + slot * 20) 20 = 0"
    "bits_ok ?row (TRACE_BUS_VALUE_BITS_START + slot * 8) 8" "bits_value ?row (TRACE_BUS_VALUE_BITS_START + slot * 8) 8 = 0"
    "bits_ok ?row (TRACE_BUS_BEFORE_BITS_START + slot * 8) 8" "bits_value ?row (TRACE_BUS_BEFORE_BITS_START + slot * 8) 8 = 0"
    using bits [OF _ bounds(2)] bits [OF _ bounds(3)] bits [OF _ bounds(4)] bits [OF _ bounds(5)] touched by blast+
  have offsets: "BUS_ADDRESS_OFFSET + offset < 12" if "offset < BUS_TUPLE_FIELDS" for offset using that offset_bounds(7) by linarith
  show "slot_kind ?row slot = 0" by (rule kind)
  show "slot_ok ?row slot"
    unfolding slot_ok_def slot_numbers slot_physical_def ROM_ADDRESS_BIT_COUNT_def
    using kind rom parts fields offsets offset_bounds by simp
qed

text \<open>The bits of a sparse row, compared with a list of bits.\<close>

fun bits_are :: "(nat \<times> nat) list \<Rightarrow> nat \<Rightarrow> bool list \<Rightarrow> bool" where
  "bits_are entries start [] \<longleftrightarrow> True"
| "bits_are entries start (b # bs) \<longleftrightarrow> map_of entries start = (if b then Some 1 else None) \<and> bits_are entries (Suc start) bs"

lemma bits_are_zero: "bits_are entries start (replicate n False) \<longleftrightarrow> list_all (\<lambda>(i, v). i < start \<or> start + n \<le> i) entries"
proof (induction n arbitrary: start)
  case (Suc n)
  have "map_of entries start = None \<longleftrightarrow> list_all (\<lambda>(i, v). i \<noteq> start) entries" by (force simp: map_of_eq_None_iff list_all_iff)
  with Suc show ?case by (force simp: list_all_iff)
qed (auto simp: list_all_iff)

lemma bits_are_nth:
  "bits_are entries start bs \<Longrightarrow> k < length bs \<Longrightarrow> start + length bs \<le> 770 \<Longrightarrow> sparse_row entries ! (start + k) = of_bool (bs ! k)"
proof (induction entries start bs arbitrary: k rule: bits_are.induct)
  case (2 entries start b bs)
  then show ?case by (cases k) (auto simp: sparse_nth)
qed simp

lemma sparse_bits:
  assumes "bits_are entries start bs" "w = length bs" "start + w \<le> 770"
  shows "bits_ok (sparse_row entries) start w" "bits_value (sparse_row entries) start w = horner_sum of_bool 2 bs"
proof -
  have nth: "sparse_row entries ! (start + k) = of_bool (bs ! k)" if "k < length bs" for k
    using bits_are_nth [OF assms(1) that] assms(2,3) by simp
  then show "bits_ok (sparse_row entries) start w" by (simp add: bits_ok_def assms(2))
  have "map (\<lambda>k. sparse_row entries ! (start + k) = 1) [0..<w] = bs"
    using nth by (intro nth_equalityI) (simp_all add: assms(2))
  then show "bits_value (sparse_row entries) start w = horner_sum of_bool 2 bs" by (simp add: bits_value_def)
qed

text \<open>Rows with one event, in the first slot.\<close>

definition first_slot_encodes :: "(nat \<times> nat) list \<Rightarrow> bool list \<Rightarrow> bool list \<Rightarrow> bool list \<Rightarrow> bool" where
  "first_slot_encodes entries kind address byte \<longleftrightarrow>
     length kind = 5 \<and> length address = 16 \<and> length byte = 8 \<and>
     bits_are entries 141 kind \<and> bits_are entries 480 address \<and> bits_are entries 560 (replicate 20 False) \<and>
     bits_are entries 660 byte \<and> bits_are entries 700 (replicate 8 False) \<and>
     map_of entries 140 = Some 1 \<and> map_of entries 146 = Some (horner_sum of_bool 2 address) \<and>
     map_of entries 150 = Some (horner_sum of_bool 2 byte) \<and>
     map_of entries 147 = None \<and> map_of entries 148 = None \<and> map_of entries 760 = None \<and> map_of entries 765 = None \<and> map_of entries 85 = None"

lemma first_slot:
  assumes "first_slot_encodes entries kind address byte" "horner_sum of_bool 2 kind = (k :: nat)" "k \<in> {5..15}"
  shows "slot_ok (sparse_row entries) 0" "slot_kind (sparse_row entries) 0 = k"
    "slot_address (sparse_row entries) 0 = of_nat (horner_sum of_bool 2 address)" "slot_byte (sparse_row entries) 0 = of_nat (horner_sum of_bool 2 byte)"
proof -
  note e = assms(1) [unfolded first_slot_encodes_def]
  have kinds: "bits_ok (sparse_row entries) 141 5" "bits_value (sparse_row entries) 141 5 = k"
    using sparse_bits [of entries 141 kind 5] e assms(2) by simp_all
  have addresses: "bits_ok (sparse_row entries) 480 16" "bits_value (sparse_row entries) 480 16 = horner_sum of_bool 2 address"
    using sparse_bits [of entries 480 address 16] e by simp_all
  have physicals: "bits_ok (sparse_row entries) 560 20" "bits_value (sparse_row entries) 560 20 = 0"
    using sparse_bits [of entries 560 "replicate 20 False" 20] e by (simp_all add: horner_sum_eq_sum)
  have bytes: "bits_ok (sparse_row entries) 660 8" "bits_value (sparse_row entries) 660 8 = horner_sum of_bool 2 byte"
    using sparse_bits [of entries 660 byte 8] e by simp_all
  have befores: "bits_ok (sparse_row entries) 700 8" "bits_value (sparse_row entries) 700 8 = 0"
    using sparse_bits [of entries 700 "replicate 8 False" 8] e by (simp_all add: horner_sum_eq_sum)
  show "slot_kind (sparse_row entries) 0 = k" using kinds by (simp add: slot_kind_def column_numbers)
  show "slot_address (sparse_row entries) 0 = of_nat (horner_sum of_bool 2 address)" using addresses by (simp add: slot_address_def column_numbers)
  show "slot_byte (sparse_row entries) 0 = of_nat (horner_sum of_bool 2 byte)" using bytes by (simp add: slot_byte_def column_numbers)
  show "slot_ok (sparse_row entries) 0"
    using e kinds addresses physicals bytes befores assms(3)
    by (simp add: slot_ok_def slot_kind_def slot_numbers slot_physical_def slot_field_def column_numbers bus_columns sparse_nth)
qed

lemma one_event_row:
  assumes "first_slot_encodes entries kind address byte" "horner_sum of_bool 2 kind = (k :: nat)" "k \<in> {5..15}"
    and "list_all (slot_untouched entries) [1, 2, 3, 4]" "map_of entries (77 + mode_index Mode_Instruction) = None"
  shows "vanishes (constrain_bus (sparse_row entries))" "slot < 5 \<Longrightarrow> slot_kind (sparse_row entries) slot = (if slot = 0 then k else 0)"
proof -
  have later: "slot_ok (sparse_row entries) slot \<and> slot_kind (sparse_row entries) slot = 0" if "slot \<in> {1, 2, 3, 4}" for slot
    using that assms(4) untouched_slot [of entries slot] by auto
  have slots: "slot = 0 \<or> slot \<in> {1, 2, 3, 4}" if "slot < 5" for slot :: nat using that by auto
  have kinds: "slot_kind (sparse_row entries) slot = (if slot = 0 then k else 0)" if "slot < 5" for slot
    using slots [OF that] later first_slot(2) [OF assms(1-3)] by auto
  then show "slot < 5 \<Longrightarrow> slot_kind (sparse_row entries) slot = (if slot = 0 then k else 0)" .
  have oks: "\<forall>slot < 5. slot_ok (sparse_row entries) slot" using slots later first_slot(1) [OF assms(1-3)] by blast
  have mode: "sparse_row entries ! (TRACE_MODE_START + mode_index Mode_Instruction) = 0"
    using assms(5) by (simp add: sparse_nth column_numbers)
  show "vanishes (constrain_bus (sparse_row entries))"
    by (rule encoded_bus [OF sparse_wide oks mode]) (simp add: kinds)
qed

end
