(* ===== verification/Constraint_Properties.thy ===== *)
theory Constraint_Properties
  imports Row_Examples Sumcheck_Properties
begin

text \<open>
  What the mapper constraints of the proof backend say of a row, and where they say more than the
  machine does.
\<close>

section \<open>Exactness\<close>

text \<open>C21: On a row whose bus and range constraints vanish and whose pre-state is a well-formed mapper, the
  mapper constraints vanish exactly when all of the following hold.  Every ROM access goes through
  the mapper's ROM window.  Every open-bus read and ignored write lies in a000..bfff where the
  mapper has no window, while no clock register is selected on a profile with a clock (enabled or
  not), with its physical address, previous byte, auxiliary and index fields zero, a read with the
  byte 0xff.  There is at most one control write, below 0x8000 with physical address zero, and the
  post-state mapper is what it makes of the pre-state mapper.\<close>

theorem mapper_constraints_exact:
  assumes "separates TYPE('f::field) (2 ^ 21)" "wide row" "vanishes (constrain_bus (row :: 'f list))" "vanishes (constrain_mapper_ranges row)"
    "profile_at row TRACE_BEFORE_STATE_START p" "mapper_at row TRACE_BEFORE_STATE_START m" "mbc3_wf (cartridge_profile p) m"
  shows "vanishes (constrain_mapper_and_rom row) \<longleftrightarrow>
    (\<forall>slot < 5. slot_kind row slot \<in> {1, 2, 3, 16} \<longrightarrow>
      slot_address row slot \<le> 0x7fff \<and> slot_physical row slot = unat (map_rom_for m (cartridge_profile p) (slot_address row slot))) \<and>
    (\<forall>slot < 5. slot_kind row slot = 9 \<or> slot_kind row slot = 10 \<longrightarrow>
      0xa000 \<le> slot_address row slot \<and> slot_address row slot \<le> 0xbfff \<and>
      external_window_for m (cartridge_profile p) (slot_address row slot) = Win_Unavailable \<and>
      \<not> (prof_rtc (cartridge_profile p) = RtcCapable \<and> 8 \<le> ram_rtc_select m \<and> ram_rtc_select m \<le> 12) \<and>
      ignored_fields row slot \<and> (slot_kind row slot = 9 \<longrightarrow> slot_byte row slot = 0xff)) \<and>
    length (control_slots row) \<le> 1 \<and>
    (\<forall>slot \<in> set (control_slots row). slot_address row slot \<le> 0x7fff \<and> slot_field row slot BUS_PHYSICAL_ADDRESS_OFFSET = 0) \<and>
    mapper_at row TRACE_AFTER_STATE_START (replay_controls p row m)"
proof -
  have seps: "separates TYPE('f) 255" "separates TYPE('f) 5" by (rule separates_mono [OF assms(1)], simp)+
  have slots: "\<forall>slot < 5. slot_ok row slot" using bus_constraints [OF assms(2,3)] by blast
  have "unat (max_bank (prof_rom_size (cartridge_profile p))) \<le> 63" by (cases "prof_rom_size (cartridge_profile p)") simp_all
  then have bank: "0 < unat (rom_bank m)" "unat (rom_bank m) \<le> 63"
    using assms(7) by (auto simp: mbc3_wf_def word_le_nat_alt unat_gt_0)
  have window: "external_window_for m c a = Win_Unavailable \<and> \<not> (prof_rtc c = RtcCapable \<and> 8 \<le> ram_rtc_select m \<and> ram_rtc_select m \<le> 12) \<longleftrightarrow>
      \<not> (ram_enabled m \<and> ram_rtc_select m \<le> 3) \<and> \<not> (prof_rtc c = RtcCapable \<and> 8 \<le> ram_rtc_select m \<and> ram_rtc_select m \<le> 12)"
    if "0xa000 \<le> a" "a \<le> 0xbfff" for c a
    using that by (auto simp: external_window_for_def)
  show ?thesis
    unfolding constrain_mapper_and_rom_def vanishes_then rom_mapping_vanishes [OF assms(1,2) slots assms(6) bank, of "cartridge_profile p"]
      external_policy_vanishes [OF seps(1) assms(2) slots assms(4-6)] mapper_updates_vanish [OF seps(2) assms(2) slots assms(5,6)]
    using window by blast
qed

text \<open>Two rows with one event in their first slot: a control write of five to the bank register, and a read of
  the external window while the clock's seconds register is selected and the window disabled.\<close>

definition bank_write_entries :: "(nat \<times> nat) list" where
  "bank_write_entries =
     [(14, 1), (20, 1), (52, 5), (58, 1), (140, 1), (144, 1), (146, 0x2000), (150, 5), (493, 1), (660, 1), (662, 1), (740, 1), (746, 1), (748, 1)]"

definition clock_read_entries :: "(nat \<times> nat) list" where
  "clock_read_entries =
     [(14, 1), (15, 8), (20, 4), (52, 1), (53, 8), (58, 4), (140, 1), (141, 1), (144, 1), (146, 0xa000), (150, 0xff), (493, 1), (495, 1),
      (660, 1), (661, 1), (662, 1), (663, 1), (664, 1), (665, 1), (666, 1), (667, 1), (740, 1), (746, 1), (755, 1), (759, 1)]"

abbreviation bank_write_row :: "real list" where
  "bank_write_row \<equiv> sparse_row bank_write_entries"

abbreviation clock_read_row :: "real list" where
  "clock_read_row \<equiv> sparse_row clock_read_entries"

lemma bank_write_encodes:
  "first_slot_encodes bank_write_entries [False, False, False, True, False]
     [False, False, False, False, False, False, False, False, False, False, False, False, False, True, False, False]
     [True, False, True, False, False, False, False, False]"
  by (simp add: first_slot_encodes_def bank_write_entries_def bits_are_zero)

lemma clock_read_encodes:
  "first_slot_encodes clock_read_entries [True, False, False, True, False]
     [False, False, False, False, False, False, False, False, False, False, False, False, False, True, False, True]
     [True, True, True, True, True, True, True, True]"
  by (simp add: first_slot_encodes_def clock_read_entries_def bits_are_zero)

lemma later_slots_untouched:
  "list_all (slot_untouched bank_write_entries) [1, 2, 3, 4]" "list_all (slot_untouched clock_read_entries) [1, 2, 3, 4]"
  by (simp_all add: slot_untouched_def column_numbers bank_write_entries_def clock_read_entries_def)

lemma example_events:
  "vanishes (constrain_bus bank_write_row)" "slot < 5 \<Longrightarrow> slot_kind bank_write_row slot = (if slot = 0 then 8 else 0)"
  "vanishes (constrain_bus clock_read_row)" "slot < 5 \<Longrightarrow> slot_kind clock_read_row slot = (if slot = 0 then 9 else 0)"
  using one_event_row [OF bank_write_encodes, of 8] one_event_row [OF clock_read_encodes, of 9] later_slots_untouched
  by (simp_all add: bank_write_entries_def clock_read_entries_def)

lemma bank_write_address: "slot_address bank_write_row 0 = 0x2000" "slot_byte bank_write_row 0 = 5"
  using first_slot [OF bank_write_encodes, of 8] by simp_all

text \<open>The mapper states before and after.\<close>

abbreviation bank_one :: mbc3_state where
  "bank_one \<equiv> \<lparr>ram_enabled = False, rom_bank = 1, ram_rtc_select = 0\<rparr>"

abbreviation bank_five :: mbc3_state where
  "bank_five \<equiv> \<lparr>ram_enabled = False, rom_bank = 5, ram_rtc_select = 0\<rparr>"

abbreviation clock_selected :: mbc3_state where
  "clock_selected \<equiv> \<lparr>ram_enabled = False, rom_bank = 1, ram_rtc_select = 8\<rparr>"

lemma example_mappers:
  "mapper_at bank_write_row TRACE_BEFORE_STATE_START bank_one" "mapper_at bank_write_row TRACE_AFTER_STATE_START bank_five"
  "mapper_at clock_read_row TRACE_BEFORE_STATE_START clock_selected" "mapper_at clock_read_row TRACE_AFTER_STATE_START clock_selected"
  "profile_at bank_write_row TRACE_BEFORE_STATE_START DmgPostBootMbc3V1" "profile_at bank_write_row TRACE_AFTER_STATE_START DmgPostBootMbc3V1"
  "profile_at clock_read_row TRACE_BEFORE_STATE_START DmgPostBootMbc3Rom1MiBRtcV1" "profile_at clock_read_row TRACE_AFTER_STATE_START DmgPostBootMbc3Rom1MiBRtcV1"
  by (simp_all add: mapper_at_def profile_at_def sparse_nth column_numbers state_columns bank_write_entries_def clock_read_entries_def)

lemma example_ranges: "vanishes (constrain_mapper_ranges bank_write_row)" "vanishes (constrain_mapper_ranges clock_read_row)"
proof -
  have before: "bank_bits_ok bank_write_row TRACE_BEFORE_ROM_BANK_BITS_START TRACE_BEFORE_RAM_RTC_BITS_START bank_one"
    using sparse_bits [of bank_write_entries 740 "[True, False, False, False, False, False]" 6] sparse_bits [of bank_write_entries 752 "replicate 4 False" 4]
    by (simp add: bank_bits_ok_def column_numbers bits_are_zero horner_sum_eq_sum bank_write_entries_def)
  have after: "bank_bits_ok bank_write_row TRACE_AFTER_ROM_BANK_BITS_START TRACE_AFTER_RAM_RTC_BITS_START bank_five"
    using sparse_bits [of bank_write_entries 746 "[True, False, True, False, False, False]" 6] sparse_bits [of bank_write_entries 756 "replicate 4 False" 4]
    by (simp add: bank_bits_ok_def column_numbers bits_are_zero horner_sum_eq_sum bank_write_entries_def)
  have clock: "bank_bits_ok clock_read_row TRACE_BEFORE_ROM_BANK_BITS_START TRACE_BEFORE_RAM_RTC_BITS_START clock_selected"
    "bank_bits_ok clock_read_row TRACE_AFTER_ROM_BANK_BITS_START TRACE_AFTER_RAM_RTC_BITS_START clock_selected"
    using sparse_bits [of clock_read_entries 740 "[True, False, False, False, False, False]" 6] sparse_bits [of clock_read_entries 752 "[False, False, False, True]" 4]
      sparse_bits [of clock_read_entries 746 "[True, False, False, False, False, False]" 6] sparse_bits [of clock_read_entries 756 "[False, False, False, True]" 4]
    by (simp_all add: bank_bits_ok_def column_numbers clock_read_entries_def)
  show "vanishes (constrain_mapper_ranges bank_write_row)"
    by (rule encoded_ranges [OF real_separates sparse_wide _ _ example_mappers(5,6,1,2) before after]) (simp_all add: mbc3_wf_def one_mib_no_rtc_def)
  show "vanishes (constrain_mapper_ranges clock_read_row)"
    by (rule encoded_ranges [OF real_separates sparse_wide _ _ example_mappers(7,8,3,4) clock]) (simp_all add: mbc3_wf_def one_mib_no_rtc_def)
qed

theorem mapper_constraints_exact_witness:
  "vanishes (constrain_bus bank_write_row) \<and> vanishes (constrain_mapper_ranges bank_write_row) \<and> vanishes (constrain_mapper_and_rom bank_write_row) \<and>
   replay_controls DmgPostBootMbc3V1 bank_write_row bank_one = bank_five"
proof -
  have wf: "mbc3_wf (cartridge_profile DmgPostBootMbc3V1) bank_one" by (simp add: mbc3_wf_def one_mib_no_rtc_def)
  have slots: "control_slots bank_write_row = [0]" using example_events(2) by (simp add: control_slots_def upt_rec)
  then have replay: "replay_controls DmgPostBootMbc3V1 bank_write_row bank_one = bank_five"
    by (simp add: replay_controls_def bank_write_address apply_control_write_for_def one_mib_no_rtc_def bank_mask_def Let_def)
  have physical: "slot_field bank_write_row 0 BUS_PHYSICAL_ADDRESS_OFFSET = 0"
    by (simp add: slot_field_def column_numbers bus_columns sparse_nth bank_write_entries_def)
  show ?thesis
    using mapper_constraints_exact [OF real_separates sparse_wide example_events(1) example_ranges(1) example_mappers(5,1) wf]
      example_events(1) example_ranges(1) example_mappers(2)
    by (simp add: example_events(2) slots replay bank_write_address physical)
qed

section \<open>Accesses the constraints refuse\<close>

text \<open>C22: With the external window disabled and a clock register selected, the mapper has no window and the executor
  records an open-bus read or an ignored write, but no row with such an event satisfies the mapper
  constraints, which compare the selected register without the enable flag.\<close>

theorem disabled_clock_access_unprovable:
  assumes "separates TYPE('f::field) 255" "wide row" "vanishes (constrain_bus (row :: 'f list))" "vanishes (constrain_mapper_ranges row)"
    "profile_at row TRACE_BEFORE_STATE_START p" "mapper_at row TRACE_BEFORE_STATE_START m"
    "\<not> ram_enabled m" "prof_rtc (cartridge_profile p) = RtcCapable" "8 \<le> ram_rtc_select m" "ram_rtc_select m \<le> 12"
    "slot < 5" "slot_kind row slot = 9 \<or> slot_kind row slot = 10"
  shows "external_window_for m (cartridge_profile p) (slot_address row slot) = Win_Unavailable \<and> \<not> vanishes (constrain_mapper_and_rom row)"
proof -
  have slots: "\<forall>slot < 5. slot_ok row slot" using bus_constraints [OF assms(2,3)] by blast
  have "\<not> vanishes (constrain_external_ram_policy row)"
    unfolding external_policy_vanishes [OF assms(1,2) slots assms(4-6)] using assms(8-12) by blast
  then show ?thesis using assms(7) by (simp add: constrain_mapper_and_rom_def external_window_for_def)
qed

theorem disabled_clock_access_unprovable_witness:
  "vanishes (constrain_bus clock_read_row) \<and> vanishes (constrain_mapper_ranges clock_read_row) \<and> \<not> vanishes (constrain_mapper_and_rom clock_read_row) \<and>
   mapper_at clock_read_row TRACE_AFTER_STATE_START clock_selected \<and> slot_byte clock_read_row 0 = 0xff \<and>
   external_window_for clock_selected (cartridge_profile DmgPostBootMbc3Rom1MiBRtcV1) (slot_address clock_read_row 0) = Win_Unavailable"
proof -
  have "slot_byte clock_read_row 0 = 0xff" using first_slot(4) [OF clock_read_encodes, of 9] by simp
  then show ?thesis
    using disabled_clock_access_unprovable [OF real_separates sparse_wide example_events(3) example_ranges(2) example_mappers(7,3), of 0]
      example_events(3) example_events(4) [of 0] example_ranges(2) example_mappers(4)
    by simp
qed

end
