(* ===== verification/Spec2Isabelle.thy ===== *)
theory Spec2Isabelle
  imports Isa_Properties Device_Properties Memory_Properties Step_Properties Trace_Properties Lookup_Properties Sumcheck_Properties
    Constraint_Properties
begin

text \<open>
  A verification development for the SM83 virtual machine of zksm83 (the Rust workspace under
  \<^verbatim>\<open>src/crates\<close>).  The program decodes SM83 instructions (\<^verbatim>\<open>zksm83-isa\<close>), executes them one
  transition at a time over a CPU, a set of DMG devices and an MBC3 cartridge
  (\<^verbatim>\<open>zksm83-core\<close>), and authenticates every memory access (\<^verbatim>\<open>zksm83-memory\<close>).  A step takes a VM
  snapshot and a list of witnesses, asks for one witness per authenticated access in the order
  the instruction makes them, and returns the next snapshot with the ordered bus events.  Two
  relations share the code: the Merkle relation verifies each witness against the committed ROM
  and memory roots and extends two hash-chained transcripts; the lookup relation leaves the bytes
  to the enclosing proof.

  \<^bold>\<open>Instruction set\<close> (\<^verbatim>\<open>zksm83-isa/src\<close>).
  \<^item> \<^verbatim>\<open>Prelude\<close>: machine integers of the source as words, checked, saturating and overflowing
    arithmetic, byte order, results as sums with the error on the left, and the generic lemmas.
  \<^item> \<^verbatim>\<open>Isa_Types\<close>, \<^verbatim>\<open>Isa_Metadata\<close>, \<^verbatim>\<open>Isa_Decode\<close>: \<^verbatim>\<open>types.rs\<close>, \<^verbatim>\<open>metadata.rs\<close>, \<^verbatim>\<open>decode.rs\<close>.
  \<^item> \<^verbatim>\<open>Isa_Alignment\<close>: the 501 alignment rows and their packing, \<^verbatim>\<open>alignment.rs\<close>.
  \<^item> \<^verbatim>\<open>Isa_Lookup\<close>: the execution tables and the plan of each operation, \<^verbatim>\<open>execution_lookup.rs\<close>.

  \<^bold>\<open>CPU and devices\<close> (\<^verbatim>\<open>zksm83-core/src\<close>).
  \<^item> \<^verbatim>\<open>Cpu_State\<close>, \<^verbatim>\<open>Alu\<close>, \<^verbatim>\<open>Core_Lookup\<close>: registers and flags (\<^verbatim>\<open>state.rs\<close>), the ALU (\<^verbatim>\<open>alu.rs\<close>), and
    the typed table queries (\<^verbatim>\<open>execution_lookup.rs\<close>).
  \<^item> \<^verbatim>\<open>Mmio_Device\<close>: the interface of a memory-mapped device as a locale, interpreted by
    \<^verbatim>\<open>Timer\<close> (\<^verbatim>\<open>dmg/timer.rs\<close>), \<^verbatim>\<open>Apu\<close> (\<^verbatim>\<open>dmg/apu.rs\<close>) and \<^verbatim>\<open>Dmg\<close> (\<^verbatim>\<open>dmg.rs\<close>).
  \<^item> \<^verbatim>\<open>Dmg_Clock\<close>: the device clock as an iterated T-cycle, against which the accelerated HALT
    paths are compared.
  \<^item> \<^verbatim>\<open>Mbc3\<close>: the cartridge mapper (\<^verbatim>\<open>mbc3.rs\<close>), its invariant and reachable states.

  \<^bold>\<open>Authenticated memory\<close> (\<^verbatim>\<open>zksm83-memory/src\<close>).
  \<^item> \<^verbatim>\<open>Commitment\<close>: roots, domain separation and \<^verbatim>\<open>hash_parts\<close> (\<^verbatim>\<open>commitment.rs\<close>).  SHA-256 is a crate
    outside the repository: it is the parameter \<^verbatim>\<open>sha\<close>, a function from bytes to 256-bit words,
    and nothing is assumed of it.  A security statement names the two hashed messages that would
    have to collide.
  \<^item> \<^verbatim>\<open>Hash_Chain\<close>, \<^verbatim>\<open>Logs\<close>: hash chains as a locale, interpreted by the byte logs (\<^verbatim>\<open>log.rs\<close>), the bus
    transcript (\<^verbatim>\<open>bus_transcript.rs\<close>) and the ISA transcript (\<^verbatim>\<open>isa_transcript.rs\<close>).
  \<^item> \<^verbatim>\<open>Merkle\<close>, \<^verbatim>\<open>Merkle_Tree\<close>, \<^verbatim>\<open>Image\<close>: path derivation, the incremental tree, ROM and memory
    images (\<^verbatim>\<open>image.rs\<close>); the store interface is the locale \<^verbatim>\<open>authenticated_store\<close>.
  \<^item> \<^verbatim>\<open>Address\<close>, \<^verbatim>\<open>Transcript\<close>, \<^verbatim>\<open>Openings\<close>: address owners (\<^verbatim>\<open>address.rs\<close>), verification with its three
    caches and the transcript (\<^verbatim>\<open>transcript.rs\<close>), and soundness of one opening.

  \<^bold>\<open>The step relation\<close> (\<^verbatim>\<open>zksm83-core/src\<close>).
  \<^item> \<^verbatim>\<open>Exec_Monad\<close>: fallible stateful code, with the two judgements the proofs use: a relation every
    accepted run keeps (\<^verbatim>\<open>ekeeps\<close>, with the locale \<^verbatim>\<open>exec_frame\<close>) and a simulation (\<^verbatim>\<open>esim\<close>).
  \<^item> \<^verbatim>\<open>Vm_State\<close>, \<^verbatim>\<open>Bus_Types\<close>, \<^verbatim>\<open>Bus\<close>, \<^verbatim>\<open>Execute\<close>, \<^verbatim>\<open>Transition\<close>: \<^verbatim>\<open>state.rs\<close>, \<^verbatim>\<open>bus.rs\<close>, \<^verbatim>\<open>execute.rs\<close> and
    \<^verbatim>\<open>transition.rs\<close>.  The executor is a record; a method on it is a function of that monad with
    its guards and early returns in the source's order.  It verifies with the cache-free checks,
    which the caches are proved to agree with.
  \<^item> \<^verbatim>\<open>Bus_Steps\<close>: the bus as a labelled transition system and the refinement of every access by it.
  \<^item> \<^verbatim>\<open>Step_Frame\<close>: the locales a client of the bus instantiates; its lemmas carry a relation kept
    by bus steps through every instruction family, fetching, dispatch and machine event.
  \<^item> \<^verbatim>\<open>Steps\<close>, \<^verbatim>\<open>Step_Invariant\<close>, \<^verbatim>\<open>Step_Timing\<close>: interpretations for bus runs, the VM invariant and
    time.  \<^verbatim>\<open>Step_Effects\<close>: what a bus run does to memory, logs and mapper.  \<^verbatim>\<open>Lookup_Refinement\<close>:
    the simulation between the two relations.  \<^verbatim>\<open>Event_Counts\<close>: accesses against metadata.
    \<^verbatim>\<open>Runs\<close>, \<^verbatim>\<open>Step_Examples\<close>: several steps, and the concrete steps of the examples.

  \<^bold>\<open>Traces\<close> (\<^verbatim>\<open>zksm83-trace/src\<close>).
  \<^item> \<^verbatim>\<open>Trace_Model\<close> (\<^verbatim>\<open>model.rs\<close>): rows, chunks and witnesses with their validating constructors, the
    checked metrics and the address profile.  \<^verbatim>\<open>Trace_Blocks\<close> (\<^verbatim>\<open>block.rs\<close>): the planner that cuts
    accepted rows into bounded blocks and the packer that routes them to lanes.
  \<^item> \<^verbatim>\<open>Trace_Builder\<close> (\<^verbatim>\<open>builder.rs\<close>): the prover adapter.  It replays a step with a growing plan of
    witnesses, answers each missing one from its images, and runs many steps.
  \<^item> \<^verbatim>\<open>Witness_Demand\<close>: how many witnesses a program of the executor can ask for.
    \<^verbatim>\<open>Witness_Service\<close>: a step as a dialogue that never blames correct answers.
    \<^verbatim>\<open>Prover_Dialogue\<close>, \<^verbatim>\<open>Row_Runs\<close>: what an adapter must provide to follow that dialogue and to run
    many steps, as the locales \<^verbatim>\<open>prover\<close>, \<^verbatim>\<open>stepper\<close>, \<^verbatim>\<open>runner\<close> and \<^verbatim>\<open>retainer\<close>, with what follows.
    \<^verbatim>\<open>Builder_Service\<close>, \<^verbatim>\<open>Builder_Runs\<close>: their interpretation by this adapter.
    \<^verbatim>\<open>Trace_Examples\<close>: the concrete builders of the examples.
  \<^item> \<^verbatim>\<open>Lookup_Builder\<close> (\<^verbatim>\<open>lookup_builder.rs\<close>): the adapter over plain byte arrays for the lookup relation;
    \<^verbatim>\<open>Lookup_Service\<close>, \<^verbatim>\<open>Lookup_Runs\<close>: the same locales interpreted by it.

  \<^bold>\<open>Sumchecks\<close> (\<^verbatim>\<open>zksm83-jolt/src\<close>), the core of the proof backend's lookup and memory arguments.
  \<^item> \<^verbatim>\<open>Field_Fold\<close> (\<^verbatim>\<open>field_fold.rs\<close>): the two folds of an evaluation table and its multilinear
    extension, over any field; the native field is a type of another crate.
  \<^item> \<^verbatim>\<open>Sumcheck\<close> (\<^verbatim>\<open>sumcheck.rs\<close>, \<^verbatim>\<open>sumcheck/rounds.rs\<close>, \<^verbatim>\<open>sumcheck/sparse.rs\<close>): the dense and the sparse
    product prover and the verifier.  \<^verbatim>\<open>Sumcheck_Terms\<close> (also \<^verbatim>\<open>sumcheck/factor.rs\<close>): compact factors
    and the sum-of-products prover and verifier.  The Fiat-Shamir transcript is a record of
    operations of another crate, a parameter of which nothing is assumed.
  \<^item> \<^verbatim>\<open>Low_Degree\<close>, \<^verbatim>\<open>Sumcheck_Spec\<close>: functions of bounded degree, and the protocol in the abstract:
    claims, round polynomials, honest messages, and the challenges on which a dishonest message
    goes unnoticed.  The field has to separate the first natural numbers up to the degree.
  \<^item> \<^verbatim>\<open>Sumcheck_Product\<close>, \<^verbatim>\<open>Sumcheck_Shared\<close>, \<^verbatim>\<open>Sumcheck_Protocol\<close>: the source against the protocol; the
    interface of both kinds of factor to the prover is the locale \<^verbatim>\<open>foldable_table\<close>.

  \<^bold>\<open>CPU row constraints\<close> (\<^verbatim>\<open>zksm83-jolt/src\<close>), the polynomial identities a proof makes of each trace row.
  \<^item> \<^verbatim>\<open>Trace_Columns\<close> (\<^verbatim>\<open>trace.rs\<close>, \<^verbatim>\<open>trace/mode.rs\<close>, \<^verbatim>\<open>isa.rs\<close>): the column layout.
  \<^item> \<^verbatim>\<open>Cpu_Rows\<close> (\<^verbatim>\<open>cpu.rs\<close>, \<^verbatim>\<open>cpu/selectors.rs\<close>): ranges, mode selectors, and the five bus slots of a row;
    \<^verbatim>\<open>Mapper_Constraints\<close> (\<^verbatim>\<open>cpu/mbc3.rs\<close>): ROM window, external window and control writes.  A constraint
    function yields the list of values it pushes; a row satisfies it when they all vanish.
  \<^item> \<^verbatim>\<open>Row_Algebra\<close>, \<^verbatim>\<open>Mapper_Exact\<close>, \<^verbatim>\<open>Mapper_Windows\<close>: vanishing constraints read as facts about numbers,
    words and mapper states.  \<^verbatim>\<open>Row_Examples\<close>: rows that satisfy them.

  \<^bold>\<open>Properties\<close>.  \<^verbatim>\<open>Isa_Properties\<close>: decoder completeness, descriptors, packing, lookup tables and
  the ALU.  \<^verbatim>\<open>Device_Properties\<close>: device invariant, exactness of every HALT skip, timer distance,
  DMA, interrupt priority and the mapper.  \<^verbatim>\<open>Memory_Properties\<close>: trees, images, caches, transcripts,
  logs and persistence.  \<^verbatim>\<open>Step_Properties\<close>: refinement of the bus, truth of memory over runs, the
  VM invariant, absence of internal errors, the lookup relation, binding transcripts, bus
  metadata, time, interrupts and the ports.  \<^verbatim>\<open>Trace_Properties\<close>: completeness and termination of
  the prover adapter, exact runs, metrics, milestones and checkpoints, validation of witnesses,
  and the block plan.  \<^verbatim>\<open>Lookup_Properties\<close>: the same completeness and exactness for the plain-byte
  adapter, whose accesses replay on its arrays.  \<^verbatim>\<open>Sumcheck_Properties\<close>: completeness and soundness of
  the sumchecks, the sparse prover and multilinear evaluation.  \<^verbatim>\<open>Constraint_Properties\<close>: the mapper
  constraints say what the mapper does, but refuse accesses to a disabled clock register.

  \<^bold>\<open>Bounds\<close>.  Every function is total; loops are structural or have a measure, so no fuel is used;
  the witness loop of the adapter has the measure five minus the plan, and the bound is proved
  never to be hit.
  Merkle trees have the twenty levels of the source.

  \<^bold>\<open>Not modelled\<close>.  The hexadecimal and serde forms of roots (formatting crates).  The rest of the
  proving backend (\<^verbatim>\<open>zksm83-jolt\<close>: the constraints of the instruction families, devices and lookup
  arguments, the encoder of rows, polynomial commitments, transcripts and serialization of outside
  crates over the same rows) and the CUDA bindings.
\<close>

end
